(* ===== verification/Prelude.thy ===== *)
theory Prelude
  imports Main "HOL-Library.Word" "HOL-Library.Char_ord" "HOL-Library.List_Lexorder"
begin

text \<open>
  What every component of the gateway shares: the part of the Rust language and of its standard
  library the sources use (results, byte strings, integer parsing and printing, hash maps, time),
  with the lemmas that make it usable by \<open>simp\<close>. A Rust \<open>str\<close> is its UTF-8 bytes, so a HOL
  \<open>string\<close> whose \<open>length\<close> is Rust's \<open>len()\<close>; a \<open>HashMap\<close> that is only looked up and inserted
  into is a map, one that is iterated is an association list in its (unspecified) iteration order.
  An \<open>Instant\<close> and a \<open>Duration\<close> are nanoseconds.
\<close>

section \<open>Collections of facts\<close>

named_theorems result_simps \<open>unfolding of the result combinators\<close>
named_theorems str_simps \<open>characterisations of the string functions\<close>
named_theorems eval_simps \<open>equations that evaluate operations on concrete inputs\<close>

section \<open>Machine integers and time\<close>

type_synonym u8 = "8 word"
type_synonym u16 = "16 word"
type_synonym u32 = "32 word"
type_synonym u64 = "64 word"
type_synonym u128 = "128 word"

type_synonym instant = nat
type_synonym duration = nat

definition from_secs :: "nat \<Rightarrow> duration" where
  "from_secs s = s * 1000000000"

definition from_millis :: "nat \<Rightarrow> duration" where
  "from_millis s = s * 1000000"

lemma from_secs_mono [simp]: "from_secs a \<le> from_secs b \<longleftrightarrow> a \<le> b"
  by (simp add: from_secs_def)

lemma from_secs_mono_less [simp]: "from_secs a < from_secs b \<longleftrightarrow> a < b"
  by (simp add: from_secs_def)

definition u32_max :: nat where "u32_max = 4294967295"
definition u64_max :: nat where "u64_max = 18446744073709551615"

text \<open>\<open>saturating_add\<close> on \<open>u64\<close>/\<open>usize\<close> and on \<open>u32\<close>, over the values as naturals.\<close>

definition sat_add64 :: "nat \<Rightarrow> nat \<Rightarrow> nat" where
  "sat_add64 a b = min (a + b) u64_max"

definition sat_add32 :: "nat \<Rightarrow> nat \<Rightarrow> nat" where
  "sat_add32 a b = min (a + b) u32_max"

definition checked_add64 :: "nat \<Rightarrow> nat \<Rightarrow> nat option" where
  "checked_add64 a b = (if a + b \<le> u64_max then Some (a + b) else None)"

definition checked_sub64 :: "nat \<Rightarrow> nat \<Rightarrow> nat option" where
  "checked_sub64 a b = (if b \<le> a then Some (a - b) else None)"

lemma checked_add64_Some [simp]: "checked_add64 a b = Some c \<longleftrightarrow> c = a + b \<and> a + b \<le> u64_max"
  by (auto simp: checked_add64_def)

lemma checked_add64_None [simp]: "checked_add64 a b = None \<longleftrightarrow> u64_max < a + b"
  by (auto simp: checked_add64_def)

lemma checked_sub64_Some [simp]: "checked_sub64 a b = Some c \<longleftrightarrow> b \<le> a \<and> c = a - b"
  by (auto simp: checked_sub64_def)

lemma sat_add32_le: "sat_add32 a b \<le> u32_max"
  by (simp add: sat_add32_def)

lemma sat_add32_pos: "0 < b \<Longrightarrow> 0 < sat_add32 a b"
  by (simp add: sat_add32_def u32_max_def)

section \<open>Results\<close>

text \<open>A \<open>Result<T, E>\<close> is \<open>'e + 'a\<close>, with \<open>Inl\<close> for \<open>Err\<close>. \<open>and_then\<close> is the \<open>?\<close> operator.\<close>

fun and_then :: "'e + 'a \<Rightarrow> ('a \<Rightarrow> 'e + 'b) \<Rightarrow> 'e + 'b" where
  "and_then (Inl e) f = Inl e"
| "and_then (Inr x) f = f x"

fun map_err :: "('e \<Rightarrow> 'f) \<Rightarrow> 'e + 'a \<Rightarrow> 'f + 'a" where
  "map_err g (Inl e) = Inl (g e)"
| "map_err g (Inr x) = Inr x"

fun ok_or :: "'e \<Rightarrow> 'a option \<Rightarrow> 'e + 'a" where
  "ok_or e None = Inl e"
| "ok_or e (Some x) = Inr x"

fun is_ok :: "'e + 'a \<Rightarrow> bool" where
  "is_ok (Inl e) = False"
| "is_ok (Inr x) = True"

fun result_ok :: "'e + 'a \<Rightarrow> 'a option" where
  "result_ok (Inl e) = None"
| "result_ok (Inr x) = Some x"

text \<open>\<open>Option<Result>::transpose\<close>, and collecting results left to right.\<close>

fun transpose_opt :: "('e + 'a) option \<Rightarrow> 'e + 'a option" where
  "transpose_opt None = Inr None"
| "transpose_opt (Some (Inl e)) = Inl e"
| "transpose_opt (Some (Inr x)) = Inr (Some x)"

lemma transpose_opt_Inr_iff [simp, result_simps]:
  "transpose_opt x = Inr None \<longleftrightarrow> x = None"
  "transpose_opt x = Inr (Some a) \<longleftrightarrow> x = Some (Inr a)"
  "transpose_opt (Some r) = Inr y \<longleftrightarrow> (\<exists>a. r = Inr a \<and> y = Some a)"
  by (cases x rule: transpose_opt.cases; auto) (cases x rule: transpose_opt.cases; auto; fail |
    cases r; auto)+

fun collect_results :: "('a \<Rightarrow> 'e + 'b) \<Rightarrow> 'a list \<Rightarrow> 'e + 'b list" where
  "collect_results f [] = Inr []"
| "collect_results f (x # xs) =
     and_then (f x) (\<lambda>y. and_then (collect_results f xs) (\<lambda>ys. Inr (y # ys)))"

text \<open>A \<open>for\<close> loop whose body may return early with an error.\<close>

fun try_fold :: "('s \<Rightarrow> 'a \<Rightarrow> 'e + 's) \<Rightarrow> 's \<Rightarrow> 'a list \<Rightarrow> 'e + 's" where
  "try_fold f s [] = Inr s"
| "try_fold f s (x # xs) = and_then (f s x) (\<lambda>s'. try_fold f s' xs)"

lemma and_then_Inr_iff [simp, result_simps]:
  "and_then r f = Inr y \<longleftrightarrow> (\<exists>x. r = Inr x \<and> f x = Inr y)"
  by (cases r) auto

lemma and_then_Inl_iff [result_simps]:
  "and_then r f = Inl e \<longleftrightarrow> r = Inl e \<or> (\<exists>x. r = Inr x \<and> f x = Inl e)"
  by (cases r) auto

lemma map_err_Inr_iff [simp, result_simps]: "map_err g r = Inr x \<longleftrightarrow> r = Inr x"
  by (cases r) auto

lemma map_err_Inl_iff [result_simps]: "map_err g r = Inl e \<longleftrightarrow> (\<exists>e'. r = Inl e' \<and> e = g e')"
  by (cases r) auto

lemma ok_or_Inr_iff [simp, result_simps]: "ok_or e m = Inr x \<longleftrightarrow> m = Some x"
  by (cases m) auto

lemma ok_or_Inl_iff [simp, result_simps]: "ok_or e m = Inl d \<longleftrightarrow> m = None \<and> d = e"
  by (cases m) auto

lemma if_Inr_iff [simp, result_simps]:
  "(if b then Inl e else r) = Inr x \<longleftrightarrow> \<not> b \<and> r = Inr x"
  by simp

lemma is_ok_iff: "is_ok r \<longleftrightarrow> (\<exists>x. r = Inr x)"
  by (cases r) auto

lemma result_ok_Some_iff [simp]: "result_ok r = Some x \<longleftrightarrow> r = Inr x"
  by (cases r) auto

lemma collect_results_Inr_iff:
  "collect_results f xs = Inr ys \<longleftrightarrow> map f xs = map Inr ys"
  by (induction xs arbitrary: ys) auto

text \<open>
  Elimination rules that walk through the successful run of a chain of \<open>?\<close>s and early returns
  without looking at the messages.
\<close>

lemma and_then_InrE:
  "and_then r f = Inr y \<Longrightarrow> (\<And>x. r = Inr x \<Longrightarrow> f x = Inr y \<Longrightarrow> P) \<Longrightarrow> P"
  by auto

lemma if_Inl_InrE: "(if c then Inl e else r) = Inr y \<Longrightarrow> (\<not> c \<Longrightarrow> r = Inr y \<Longrightarrow> P) \<Longrightarrow> P"
  by (auto split: if_splits)

lemma if_else_Inl_InrE: "(if c then r else Inl e) = Inr y \<Longrightarrow> (c \<Longrightarrow> r = Inr y \<Longrightarrow> P) \<Longrightarrow> P"
  by (auto split: if_splits)

lemma ok_or_InrE: "ok_or e r = Inr x \<Longrightarrow> (r = Some x \<Longrightarrow> P) \<Longrightarrow> P"
  by (cases r) auto

lemma map_err_InrE: "map_err g r = Inr x \<Longrightarrow> (r = Inr x \<Longrightarrow> P) \<Longrightarrow> P"
  by (cases r) auto

lemma case_prod_InrE:
  "(case p of (a, b) \<Rightarrow> f a b) = Inr y \<Longrightarrow> (\<And>a b. p = (a, b) \<Longrightarrow> f a b = Inr y \<Longrightarrow> P) \<Longrightarrow> P"
  by (cases p) auto

lemma case_option_InrE:
  "(case x of None \<Rightarrow> Inl e | Some a \<Rightarrow> f a) = Inr y \<Longrightarrow>
     (\<And>a. x = Some a \<Longrightarrow> f a = Inr y \<Longrightarrow> P) \<Longrightarrow> P"
  by (cases x) auto

lemma if_Inl_eq_Inr [result_simps]:
  "(if c then Inl e else r) = Inr y \<longleftrightarrow> \<not> c \<and> r = Inr y"
  by simp

lemmas result_elims =
  and_then_InrE if_Inl_InrE if_else_Inl_InrE ok_or_InrE map_err_InrE case_prod_InrE case_option_InrE

lemma try_fold_append [simp]:
  "try_fold f s (xs @ ys) = and_then (try_fold f s xs) (\<lambda>s'. try_fold f s' ys)"
proof (induction xs arbitrary: s)
  case (Cons x xs)
  then show ?case by (cases "f s x") auto
qed simp

text \<open>
  The invariant rule for such loops: a predicate on the elements consumed so far and the state,
  kept by every successful step.
\<close>

lemma try_fold_invariant:
  assumes run: "try_fold f s xs = Inr s'"
    and init: "P pre s"
    and step: "\<And>pre x s s'. P pre s \<Longrightarrow> f s x = Inr s' \<Longrightarrow> P (pre @ [x]) s'"
  shows "P (pre @ xs) s'"
  using run init
proof (induction xs arbitrary: pre s)
  case (Cons x xs)
  then obtain t where t: "f s x = Inr t" "try_fold f t xs = Inr s'"
    by auto
  have "P ((pre @ [x]) @ xs) s'"
    by (rule Cons.IH [OF t(2) step [OF Cons.prems(2) t(1)]])
  then show ?case by simp
qed simp

lemma try_fold_inv:
  assumes "try_fold f s xs = Inr s'" and "I s"
    and "\<And>s x s'. I s \<Longrightarrow> f s x = Inr s' \<Longrightarrow> I s'"
  shows "I s'"
  using try_fold_invariant [where P = "\<lambda>_ s. I s" and pre = "[]", OF assms(1)] assms(2,3)
  by blast

section \<open>Counting the elements with a property\<close>

lemma filter_length_update:
  assumes "i < length xs"
  shows "length (filter P (xs[i := y])) + (if P (xs ! i) then 1 else 0) =
     length (filter P xs) + (if P y then 1 else 0)"
  using assms
proof (induction xs arbitrary: i)
  case (Cons x xs)
  then show ?case by (cases i) auto
qed simp

lemma filter_none_other:
  assumes "i < length xs" "P (xs ! i)" "length (filter P xs) \<le> 1"
  shows "\<forall>j < length xs. j \<noteq> i \<longrightarrow> \<not> P (xs ! j)"
proof (intro allI impI notI)
  fix j assume j: "j < length xs" "j \<noteq> i" "P (xs ! j)"
  have "card {i, j} \<le> card {k. k < length xs \<and> P (xs ! k)}"
    using assms(1,2) j by (intro card_mono) auto
  also have "\<dots> = length (filter P xs)" by (simp add: length_filter_conv_card)
  finally show False using j(2) assms(3) by simp
qed

lemma filter_upt_change:
  assumes "i < n" "\<And>j. j < n \<Longrightarrow> j \<noteq> i \<Longrightarrow> P' j = P j"
  shows "length (filter P' [0..<n]) + (if P i then 1 else 0) =
     length (filter P [0..<n]) + (if P' i then 1 else 0)"
proof -
  have "[0..<n] = [0..<i] @ i # [Suc i..<n]"
    using upt_add_eq_append [of 0 i "n - i"] assms(1) by (simp add: upt_conv_Cons)
  moreover have "filter P' [0..<i] = filter P [0..<i]" "filter P' [Suc i..<n] = filter P [Suc i..<n]"
    using assms by (auto intro!: filter_cong)
  ultimately show ?thesis by simp
qed

end
