(* ===== verification/Rust_Str.thy ===== *)
theory Rust_Str
  imports Prelude
begin

text \<open>
  The functions of Rust's \<open>str\<close>, \<open>char\<close> and integer parsing the gateway uses, on byte strings:
  ASCII classes, prefixes and suffixes, splitting, UTF-8 decoding (for the predicates on
  Unicode scalar values), trimming, decimal numbers.
\<close>

section \<open>Bytes and ASCII classes\<close>

type_synonym bytes = string

definition byte :: "char \<Rightarrow> nat" where
  "byte c = of_char c"

definition is_ascii :: "char \<Rightarrow> bool" where
  "is_ascii c \<longleftrightarrow> byte c < 128"

definition is_ascii_digit :: "char \<Rightarrow> bool" where
  "is_ascii_digit c \<longleftrightarrow> 48 \<le> byte c \<and> byte c \<le> 57"

definition is_ascii_upper :: "char \<Rightarrow> bool" where
  "is_ascii_upper c \<longleftrightarrow> 65 \<le> byte c \<and> byte c \<le> 90"

definition is_ascii_lower :: "char \<Rightarrow> bool" where
  "is_ascii_lower c \<longleftrightarrow> 97 \<le> byte c \<and> byte c \<le> 122"

definition is_ascii_alphabetic :: "char \<Rightarrow> bool" where
  "is_ascii_alphabetic c \<longleftrightarrow> is_ascii_upper c \<or> is_ascii_lower c"

definition is_ascii_alphanumeric :: "char \<Rightarrow> bool" where
  "is_ascii_alphanumeric c \<longleftrightarrow> is_ascii_alphabetic c \<or> is_ascii_digit c"

definition lower_char :: "char \<Rightarrow> char" where
  "lower_char c = (if is_ascii_upper c then char_of (byte c + 32) else c)"

definition to_ascii_lowercase :: "string \<Rightarrow> string" where
  "to_ascii_lowercase s = map lower_char s"

definition eq_ignore_ascii_case :: "string \<Rightarrow> string \<Rightarrow> bool" where
  "eq_ignore_ascii_case s t \<longleftrightarrow> to_ascii_lowercase s = to_ascii_lowercase t"

lemma byte_less [simp]: "byte c < 256"
  by (simp add: byte_def)

lemma byte_inject [simp]: "byte c = byte d \<longleftrightarrow> c = d"
  by (simp add: byte_def)

lemma byte_char_of [simp]: "n < 256 \<Longrightarrow> byte (char_of n) = n"
  by (simp add: byte_def)

lemma byte_lower_char:
  "byte (lower_char c) = (if is_ascii_upper c then byte c + 32 else byte c)"
  by (auto simp: lower_char_def is_ascii_upper_def)

lemma lower_char_idem [simp]: "lower_char (lower_char c) = lower_char c"
proof -
  have "\<not> is_ascii_upper (lower_char c)"
    by (auto simp: is_ascii_upper_def byte_lower_char)
  then show ?thesis by (simp add: lower_char_def [of "lower_char c"])
qed

lemma to_ascii_lowercase_idem [simp]:
  "to_ascii_lowercase (to_ascii_lowercase s) = to_ascii_lowercase s"
  by (simp add: to_ascii_lowercase_def)

lemma length_to_ascii_lowercase [simp]: "length (to_ascii_lowercase s) = length s"
  by (simp add: to_ascii_lowercase_def)

lemma to_ascii_lowercase_append [simp]:
  "to_ascii_lowercase (s @ t) = to_ascii_lowercase s @ to_ascii_lowercase t"
  by (simp add: to_ascii_lowercase_def)

lemma to_ascii_lowercase_Nil_iff [simp]: "to_ascii_lowercase s = [] \<longleftrightarrow> s = []"
  by (simp add: to_ascii_lowercase_def)

lemma lower_char_classes [simp]:
  "is_ascii_alphanumeric (lower_char c) = is_ascii_alphanumeric c"
  "is_ascii_digit (lower_char c) = is_ascii_digit c"
  "is_ascii (lower_char c) = is_ascii c"
  by (auto simp: is_ascii_alphanumeric_def is_ascii_alphabetic_def is_ascii_digit_def
      is_ascii_lower_def is_ascii_upper_def is_ascii_def byte_lower_char)

lemma lower_char_eq_iff:
  assumes "\<not> is_ascii_alphabetic d"
  shows "lower_char c = d \<longleftrightarrow> c = d"
proof -
  have "byte (lower_char c) = byte d \<longleftrightarrow> byte c = byte d"
    using assms by (auto simp: byte_lower_char is_ascii_alphabetic_def is_ascii_upper_def
        is_ascii_lower_def)
  then show ?thesis by simp
qed

lemma lower_char_punct [simp]:
  "lower_char c = CHR ''.'' \<longleftrightarrow> c = CHR ''.''"
  "lower_char c = CHR ''-'' \<longleftrightarrow> c = CHR ''-''"
  "lower_char c = CHR ''/'' \<longleftrightarrow> c = CHR ''/''"
  by (rule lower_char_eq_iff; simp add: is_ascii_alphabetic_def is_ascii_upper_def
      is_ascii_lower_def byte_def)+

lemma lower_char_punct_sym [simp]:
  "CHR ''.'' = lower_char c \<longleftrightarrow> c = CHR ''.''"
  "CHR ''-'' = lower_char c \<longleftrightarrow> c = CHR ''-''"
  "CHR ''/'' = lower_char c \<longleftrightarrow> c = CHR ''/''"
  using lower_char_punct [of c] by (simp_all only: eq_commute [where b = "lower_char c"])

section \<open>Prefixes, suffixes, splitting\<close>

fun strip_prefix :: "string \<Rightarrow> string \<Rightarrow> string option" where
  "strip_prefix [] s = Some s"
| "strip_prefix (p # ps) [] = None"
| "strip_prefix (p # ps) (x # xs) = (if p = x then strip_prefix ps xs else None)"

definition starts_with :: "string \<Rightarrow> string \<Rightarrow> bool" where
  "starts_with s p \<longleftrightarrow> strip_prefix p s \<noteq> None"

definition strip_suffix :: "string \<Rightarrow> string \<Rightarrow> string option" where
  "strip_suffix p s = map_option rev (strip_prefix (rev p) (rev s))"

definition ends_with :: "string \<Rightarrow> string \<Rightarrow> bool" where
  "ends_with s p \<longleftrightarrow> strip_suffix p s \<noteq> None"

text \<open>\<open>contains\<close> of a set of characters, and of a substring.\<close>

definition contains_any :: "string \<Rightarrow> string \<Rightarrow> bool" where
  "contains_any cs s \<longleftrightarrow> list_ex (\<lambda>c. c \<in> set cs) s"

fun contains_str :: "string \<Rightarrow> string \<Rightarrow> bool" where
  "contains_str p [] \<longleftrightarrow> p = []"
| "contains_str p (x # xs) \<longleftrightarrow> starts_with (x # xs) p \<or> contains_str p xs"

text \<open>\<open>split(c)\<close>: one piece more than there are separators; the empty string has one piece.\<close>

fun split_on :: "char \<Rightarrow> string \<Rightarrow> string list" where
  "split_on c [] = [[]]"
| "split_on c (x # xs) =
     (if x = c then [] # split_on c xs
      else case split_on c xs of [] \<Rightarrow> [[x]] | y # ys \<Rightarrow> (x # y) # ys)"

fun split_once :: "char \<Rightarrow> string \<Rightarrow> (string \<times> string) option" where
  "split_once c [] = None"
| "split_once c (x # xs) =
     (if x = c then Some ([], xs) else map_option (\<lambda>(a, b). (x # a, b)) (split_once c xs))"

fun join :: "string \<Rightarrow> string list \<Rightarrow> string" where
  "join sep [] = []"
| "join sep [x] = x"
| "join sep (x # y # ys) = x @ sep @ join sep (y # ys)"

text \<open>\<open>trim_start_matches(c)\<close> and \<open>trim_end_matches(c)\<close>.\<close>

definition trim_start_matches :: "char \<Rightarrow> string \<Rightarrow> string" where
  "trim_start_matches c s = dropWhile (\<lambda>x. x = c) s"

definition trim_end_matches :: "char \<Rightarrow> string \<Rightarrow> string" where
  "trim_end_matches c s = rev (dropWhile (\<lambda>x. x = c) (rev s))"

lemma strip_prefix_Some_iff [simp, str_simps]: "strip_prefix p s = Some t \<longleftrightarrow> s = p @ t"
  by (induction p s rule: strip_prefix.induct) auto

lemma strip_prefix_append [simp]: "strip_prefix p (p @ t) = Some t"
  by simp

lemma starts_with_iff [str_simps]: "starts_with s p \<longleftrightarrow> (\<exists>t. s = p @ t)"
  by (metis starts_with_def option.exhaust option.distinct(1) strip_prefix_Some_iff)

lemma strip_prefix_None_iff [str_simps]: "strip_prefix p s = None \<longleftrightarrow> \<not> starts_with s p"
  unfolding starts_with_def by blast

lemma strip_suffix_Some_iff [simp, str_simps]: "strip_suffix p s = Some t \<longleftrightarrow> s = t @ p"
proof -
  have "strip_suffix p s = Some t \<longleftrightarrow> rev s = rev p @ rev t"
    by (auto simp: strip_suffix_def simp flip: strip_prefix_Some_iff)
  also have "\<dots> \<longleftrightarrow> s = t @ p"
    by (metis rev_append rev_rev_ident)
  finally show ?thesis .
qed

lemma strip_suffix_append [simp]: "strip_suffix p (t @ p) = Some t"
  by simp

lemma ends_with_iff [str_simps]: "ends_with s p \<longleftrightarrow> (\<exists>t. s = t @ p)"
  by (metis ends_with_def option.exhaust option.distinct(1) strip_suffix_Some_iff)

lemma strip_suffix_None_iff [str_simps]: "strip_suffix p s = None \<longleftrightarrow> (\<forall>t. s \<noteq> t @ p)"
  using strip_suffix_Some_iff by (metis not_Some_eq)

lemma ends_with_single [simp]: "ends_with s [c] \<longleftrightarrow> s \<noteq> [] \<and> last s = c"
  by (auto simp: ends_with_iff) (metis append_butlast_last_id)

lemma starts_with_single [simp]: "starts_with s [c] \<longleftrightarrow> s \<noteq> [] \<and> hd s = c"
  by (cases s) (auto simp: starts_with_iff)

lemma contains_any_iff [str_simps]: "contains_any cs s \<longleftrightarrow> set cs \<inter> set s \<noteq> {}"
  by (auto simp: contains_any_def list_ex_iff)

lemma contains_str_iff [str_simps]: "contains_str p s \<longleftrightarrow> (\<exists>a b. s = a @ p @ b)"
proof (induction s)
  case (Cons x xs)
  show ?case
    by (auto simp: Cons.IH starts_with_iff) (metis append_eq_Cons_conv append_Cons)+
qed auto

lemma split_on_nonempty [simp]: "split_on c s \<noteq> []"
  by (induction s) (auto split: list.splits)

lemma join_split_on [simp]: "join [c] (split_on c s) = s"
proof (induction s)
  case (Cons x xs)
  obtain y ys where y: "split_on c xs = y # ys"
    by (cases "split_on c xs") auto
  with Cons.IH show ?case by (cases ys) auto
qed simp

lemma split_on_no_sep: "p \<in> set (split_on c s) \<Longrightarrow> c \<notin> set p"
  by (induction s arbitrary: p) (auto split: if_splits list.splits)

lemma split_on_subset: "p \<in> set (split_on c s) \<Longrightarrow> set p \<subseteq> set s"
proof (induction s arbitrary: p)
  case (Cons x xs)
  obtain y ys where y: "split_on c xs = y # ys"
    by (cases "split_on c xs") auto
  with Cons show ?case by (fastforce split: if_splits)
qed simp

lemma split_on_cover: "x \<in> set s \<Longrightarrow> x \<noteq> c \<Longrightarrow> \<exists>p \<in> set (split_on c s). x \<in> set p"
proof (induction s)
  case (Cons z zs)
  obtain y ys where y: "split_on c zs = y # ys"
    by (cases "split_on c zs") auto
  with Cons show ?case by (cases "z = c") fastforce+
qed simp

lemma split_on_Cons_sep [simp]: "split_on c (c # s) = [] # split_on c s"
  by simp

lemma split_on_no_sep_id: "c \<notin> set s \<Longrightarrow> split_on c s = [s]"
  by (induction s) auto

lemma split_on_append_sep: "split_on c (s @ c # t) = split_on c s @ split_on c t"
proof (induction s)
  case (Cons x xs)
  obtain y ys where y: "split_on c xs = y # ys"
    by (cases "split_on c xs") auto
  with Cons show ?case by simp
qed simp

lemma split_on_lower:
  "lower_char c = c \<Longrightarrow> (\<And>x. lower_char x = c \<Longrightarrow> x = c) \<Longrightarrow>
   split_on c (to_ascii_lowercase s) = map to_ascii_lowercase (split_on c s)"
proof (induction s)
  case (Cons x xs)
  obtain y ys where y: "split_on c xs = y # ys"
    by (cases "split_on c xs") auto
  with Cons show ?case
    by (auto simp: to_ascii_lowercase_def)
qed (simp add: to_ascii_lowercase_def)

lemma split_once_Some_iff [simp, str_simps]:
  "split_once c s = Some (a, b) \<longleftrightarrow> s = a @ c # b \<and> c \<notin> set a"
proof (induction s arbitrary: a)
  case (Cons x xs)
  then show ?case by (cases a) auto
qed simp

lemma split_once_None_iff [simp, str_simps]: "split_once c s = None \<longleftrightarrow> c \<notin> set s"
  by (induction s) auto

section \<open>Numbers\<close>

text \<open>\<open>str::parse\<close> for an unsigned type of the given maximum: an optional \<open>+\<close>, then digits.\<close>

fun dec_value :: "nat \<Rightarrow> string \<Rightarrow> nat option" where
  "dec_value acc [] = Some acc"
| "dec_value acc (c # cs) =
     (if is_ascii_digit c then dec_value (acc * 10 + (byte c - 48)) cs else None)"

definition parse_unsigned :: "nat \<Rightarrow> string \<Rightarrow> nat option" where
  "parse_unsigned maximum s =
     (let ds = (case s of [] \<Rightarrow> [] | c # cs \<Rightarrow> if c = CHR ''+'' then cs else s) in
      if ds = [] then None
      else case dec_value 0 ds of
        None \<Rightarrow> None
      | Some n \<Rightarrow> if n \<le> maximum then Some n else None)"

text \<open>\<open>Display\<close> of an unsigned integer.\<close>

fun show_nat :: "nat \<Rightarrow> string" where
  "show_nat n =
     (if n < 10 then [char_of (48 + n)] else show_nat (n div 10) @ [char_of (48 + n mod 10)])"

declare show_nat.simps [simp del]

text \<open>\<open>char::to_digit(16)\<close>.\<close>

definition hex_digit :: "char \<Rightarrow> nat option" where
  "hex_digit c =
     (if is_ascii_digit c then Some (byte c - 48)
      else if 97 \<le> byte c \<and> byte c \<le> 102 then Some (byte c - 87)
      else if 65 \<le> byte c \<and> byte c \<le> 70 then Some (byte c - 55)
      else None)"

lemma hex_digit_less: "hex_digit c = Some d \<Longrightarrow> d < 16"
  by (auto simp: hex_digit_def is_ascii_digit_def split: if_splits)

lemma dec_value_append:
  "dec_value acc (s @ t) = (case dec_value acc s of None \<Rightarrow> None | Some n \<Rightarrow> dec_value n t)"
  by (induction acc s rule: dec_value.induct) auto

lemma mod10_bounds: "48 + n mod 10 < (256::nat)" "n mod 10 \<le> (9::nat)"
proof -
  have "n mod 10 < (10::nat)" by simp
  then show "48 + n mod 10 < (256::nat)" "n mod 10 \<le> (9::nat)" by linarith+
qed

lemma dec_value_show_nat: "dec_value 0 (show_nat n) = Some n"
proof (induction n rule: show_nat.induct)
  case (1 n)
  show ?case
  proof (cases "n < 10")
    case True
    then show ?thesis by (simp add: show_nat.simps [of n] is_ascii_digit_def)
  next
    case False
    with 1 mod10_bounds [of n] show ?thesis
      by (simp add: show_nat.simps [of n] dec_value_append is_ascii_digit_def)
  qed
qed

lemma show_nat_nonempty [simp]: "show_nat n \<noteq> []"
  by (simp add: show_nat.simps [of n])

lemma show_nat_digits: "c \<in> set (show_nat n) \<Longrightarrow> is_ascii_digit c"
proof (induction n rule: show_nat.induct)
  case (1 n)
  show ?case
  proof (cases "n < 10")
    case True
    with 1 show ?thesis by (simp add: show_nat.simps [of n] is_ascii_digit_def)
  next
    case False
    with 1 mod10_bounds [of n] show ?thesis by (auto simp: show_nat.simps [of n] is_ascii_digit_def)
  qed
qed

lemma parse_unsigned_show_nat: "n \<le> maximum \<Longrightarrow> parse_unsigned maximum (show_nat n) = Some n"
proof -
  assume n: "n \<le> maximum"
  obtain c cs where c: "show_nat n = c # cs"
    by (cases "show_nat n") auto
  then have "is_ascii_digit c"
    using show_nat_digits [of c n] by simp
  then have "c \<noteq> CHR ''+''"
    by (auto simp: is_ascii_digit_def byte_def)
  with n c show ?thesis
    using dec_value_show_nat [of n] by (simp add: parse_unsigned_def)
qed

lemma parse_unsigned_le: "parse_unsigned maximum s = Some n \<Longrightarrow> n \<le> maximum"
  by (auto simp: parse_unsigned_def Let_def split: option.splits if_splits)

section \<open>Evaluation\<close>

lemma eq_char_of_iff [eval_simps]: "c = char_of (n :: nat) \<longleftrightarrow> of_char c = take_bit 8 n"
  by (metis char_of_eq_iff)

declare byte_def [eval_simps] is_ascii_def [eval_simps] is_ascii_digit_def [eval_simps]
  is_ascii_upper_def [eval_simps] is_ascii_lower_def [eval_simps]
  is_ascii_alphabetic_def [eval_simps] is_ascii_alphanumeric_def [eval_simps]
  lower_char_def [eval_simps] to_ascii_lowercase_def [eval_simps]
  eq_ignore_ascii_case_def [eval_simps] starts_with_def [eval_simps]
  strip_suffix_def [eval_simps] ends_with_def [eval_simps] contains_any_def [eval_simps]
  trim_start_matches_def [eval_simps] trim_end_matches_def [eval_simps]
  parse_unsigned_def [eval_simps] hex_digit_def [eval_simps] show_nat.simps [eval_simps]
  char_of_eq_iff [eval_simps] u32_max_def [eval_simps] u64_max_def [eval_simps] Let_def [eval_simps]

end
