(* ===== verification/Net.thy ===== *)
theory Net
  imports Rust_Str
begin

text \<open>
  \<open>std::net\<close> addresses with the standard library's parser and printer, and
  \<open>src/security/network.rs\<close>: the normalisation of IPv4-mapped IPv6 addresses and the CIDR
  networks (\<open>IpNetwork\<close>) the trust and block decisions are made with.
\<close>

unbundle bit_operations_syntax

section \<open>Addresses\<close>

datatype ip_addr = V4 u32 | V6 u128

record socket_addr =
  sa_ip :: ip_addr
  sa_port :: nat

text \<open>The derived order of \<open>IpAddr\<close>: IPv4 before IPv6, then by value.\<close>

instantiation ip_addr :: linorder
begin

fun less_eq_ip_addr :: "ip_addr \<Rightarrow> ip_addr \<Rightarrow> bool" where
  "less_eq_ip_addr (V4 a) (V4 b) \<longleftrightarrow> a \<le> b"
| "less_eq_ip_addr (V4 a) (V6 b) \<longleftrightarrow> True"
| "less_eq_ip_addr (V6 a) (V4 b) \<longleftrightarrow> False"
| "less_eq_ip_addr (V6 a) (V6 b) \<longleftrightarrow> a \<le> b"

definition less_ip_addr :: "ip_addr \<Rightarrow> ip_addr \<Rightarrow> bool" where
  "less_ip_addr a b \<longleftrightarrow> a \<le> b \<and> \<not> b \<le> (a :: ip_addr)"

instance
proof
  fix x y z :: ip_addr
  show "x < y \<longleftrightarrow> x \<le> y \<and> \<not> y \<le> x" by (rule less_ip_addr_def)
  show "x \<le> x" by (cases x) auto
  show "x \<le> y \<Longrightarrow> y \<le> z \<Longrightarrow> x \<le> z" by (cases x; cases y; cases z) auto
  show "x \<le> y \<Longrightarrow> y \<le> x \<Longrightarrow> x = y" by (cases x; cases y) auto
  show "x \<le> y \<or> y \<le> x" by (cases x; cases y) auto
qed

end

fun is_ipv4 :: "ip_addr \<Rightarrow> bool" where
  "is_ipv4 (V4 a) = True"
| "is_ipv4 (V6 a) = False"

fun is_loopback :: "ip_addr \<Rightarrow> bool" where
  "is_loopback (V4 a) \<longleftrightarrow> drop_bit 24 a = 127"
| "is_loopback (V6 a) \<longleftrightarrow> a = 1"

definition to_ipv4_mapped :: "u128 \<Rightarrow> u32 option" where
  "to_ipv4_mapped a = (if drop_bit 32 a = 65535 then Some (ucast a) else None)"

definition ipv4_mapped :: "u32 \<Rightarrow> u128" where
  "ipv4_mapped a = push_bit 32 65535 OR ucast a"

section \<open>Parsing and printing\<close>

text \<open>The parser of \<open>std::net\<close>: a reader takes the input left and returns a value and the rest.\<close>

type_synonym 'a reader = "string \<Rightarrow> ('a \<times> string) option"

definition dec_digit :: "char \<Rightarrow> nat option" where
  "dec_digit c = (if is_ascii_digit c then Some (byte c - 48) else None)"

fun read_digits ::
  "(char \<Rightarrow> nat option) \<Rightarrow> nat \<Rightarrow> nat \<Rightarrow> nat \<Rightarrow> nat \<Rightarrow> string \<Rightarrow> (nat \<times> nat \<times> string) option"
where
  "read_digits dig radix mx cnt acc [] = Some (acc, cnt, [])"
| "read_digits dig radix mx cnt acc (c # cs) =
     (case dig c of
        None \<Rightarrow> Some (acc, cnt, c # cs)
      | Some d \<Rightarrow>
          if mx < Suc cnt then None
          else read_digits dig radix mx (Suc cnt) (acc * radix + d) cs)"

definition read_number ::
  "(char \<Rightarrow> nat option) \<Rightarrow> nat \<Rightarrow> nat \<Rightarrow> nat \<Rightarrow> bool \<Rightarrow> nat reader"
where
  "read_number dig radix mx maximum allow_zero_prefix s =
     (case read_digits dig radix mx 0 0 s of
        None \<Rightarrow> None
      | Some (n, cnt, rest) \<Rightarrow>
          if cnt = 0 then None
          else if \<not> allow_zero_prefix \<and> starts_with s ''0'' \<and> 1 < cnt then None
          else if maximum < n then None
          else Some (n, rest))"

definition read_separator :: "char \<Rightarrow> nat \<Rightarrow> 'a reader \<Rightarrow> 'a reader" where
  "read_separator sep i f s =
     (if i = 0 then f s
      else case s of [] \<Rightarrow> None | c # cs \<Rightarrow> (if c = sep then f cs else None))"

fun read_octets :: "nat list \<Rightarrow> nat list reader" where
  "read_octets [] s = Some ([], s)"
| "read_octets (i # is) s =
     (case read_separator (CHR ''.'') i (read_number dec_digit 10 3 255 False) s of
        None \<Rightarrow> None
      | Some (oct, r) \<Rightarrow> map_option (\<lambda>(octs, r'). (oct # octs, r')) (read_octets is r))"

definition read_ipv4_octets :: "nat list reader" where
  "read_ipv4_octets s = read_octets [0, 1, 2, 3] s"

text \<open>Up to \<open>limit\<close> groups, the last two possibly written as an IPv4 address.\<close>

function read_groups :: "nat \<Rightarrow> nat \<Rightarrow> string \<Rightarrow> nat list \<times> bool \<times> string" where
  "read_groups limit i s =
     (if limit \<le> i then ([], False, s)
      else case (if i < limit - 1 then read_separator (CHR '':'') i read_ipv4_octets s else None) of
        Some (octs, r) \<Rightarrow> ([octs ! 0 * 256 + octs ! 1, octs ! 2 * 256 + octs ! 3], True, r)
      | None \<Rightarrow>
         (case read_separator (CHR '':'') i (read_number hex_digit 16 4 65535 True) s of
            None \<Rightarrow> ([], False, s)
          | Some (g, r) \<Rightarrow>
              let (gs, f, r') = read_groups limit (Suc i) r in (g # gs, f, r')))"
  by pat_completeness auto
termination
  by (relation "measure (\<lambda>(limit, i, s). limit - i)") auto

declare read_groups.simps [simp del]

definition read_ipv6_groups :: "nat list reader" where
  "read_ipv6_groups s =
     (let (head, head_ipv4, r) = read_groups 8 0 s in
      if length head = 8 then Some (head, r)
      else if head_ipv4 then None
      else case strip_prefix ''::'' r of
        None \<Rightarrow> None
      | Some r2 \<Rightarrow>
          let (tail, _, r3) = read_groups (8 - (length head + 1)) 0 r2 in
          Some (head @ replicate (8 - length head - length tail) 0 @ tail, r3))"

definition horner :: "nat \<Rightarrow> nat list \<Rightarrow> nat" where
  "horner base ds = foldl (\<lambda>acc d. acc * base + d) 0 ds"

definition ipv4_of_octets :: "nat list \<Rightarrow> ip_addr" where
  "ipv4_of_octets octs = V4 (of_nat (horner 256 octs))"

definition ipv6_of_groups :: "nat list \<Rightarrow> ip_addr" where
  "ipv6_of_groups gs = V6 (of_nat (horner 65536 gs))"

text \<open>\<open>str::parse::<IpAddr>()\<close>.\<close>

definition parse_ip :: "string \<Rightarrow> ip_addr option" where
  "parse_ip s =
     (case (case read_ipv4_octets s of
              Some (octs, r) \<Rightarrow> Some (ipv4_of_octets octs, r)
            | None \<Rightarrow> map_option (\<lambda>(gs, r). (ipv6_of_groups gs, r)) (read_ipv6_groups s)) of
        Some (ip, []) \<Rightarrow> Some ip
      | _ \<Rightarrow> None)"

text \<open>\<open>Display\<close> of the addresses.\<close>

definition v4_octets :: "u32 \<Rightarrow> nat list" where
  "v4_octets a = map (\<lambda>k. unat (drop_bit k a) mod 256) [24, 16, 8, 0]"

definition v6_groups :: "u128 \<Rightarrow> nat list" where
  "v6_groups a = map (\<lambda>k. unat (drop_bit k a) mod 65536) [112, 96, 80, 64, 48, 32, 16, 0]"

fun show_hex :: "nat \<Rightarrow> string" where
  "show_hex n =
     (let d = (\<lambda>k. if k < 10 then char_of (48 + k) else char_of (87 + k)) in
      if n < 16 then [d n] else show_hex (n div 16) @ [d (n mod 16)])"

declare show_hex.simps [simp del]

text \<open>Start and length of the first longest run of zero groups.\<close>

fun longest_zeros :: "nat \<Rightarrow> nat \<times> nat \<Rightarrow> nat \<times> nat \<Rightarrow> nat list \<Rightarrow> nat \<times> nat" where
  "longest_zeros i longest current [] = longest"
| "longest_zeros i longest current (g # gs) =
     (if g = 0 then
        let current = (if snd current = 0 then (i, 1) else (fst current, snd current + 1));
            longest = (if snd current > snd longest then current else longest)
        in longest_zeros (Suc i) longest current gs
      else longest_zeros (Suc i) longest (0, 0) gs)"

definition show_ipv4 :: "u32 \<Rightarrow> string" where
  "show_ipv4 a = join ''.'' (map show_nat (v4_octets a))"

definition show_ipv6 :: "u128 \<Rightarrow> string" where
  "show_ipv6 a =
     (case to_ipv4_mapped a of
        Some v4 \<Rightarrow> ''::ffff:'' @ show_ipv4 v4
      | None \<Rightarrow>
          let gs = v6_groups a; (start, len) = longest_zeros 0 (0, 0) (0, 0) gs;
              sub = (\<lambda>xs. join '':'' (map show_hex xs)) in
          if 1 < len then sub (take start gs) @ ''::'' @ sub (drop (start + len) gs) else sub gs)"

fun show_ip :: "ip_addr \<Rightarrow> string" where
  "show_ip (V4 a) = show_ipv4 a"
| "show_ip (V6 a) = show_ipv6 a"

section \<open>\<open>normalize_ip\<close> and \<open>IpNetwork\<close>\<close>

fun normalize_ip :: "ip_addr \<Rightarrow> ip_addr" where
  "normalize_ip (V6 a) = (case to_ipv4_mapped a of Some v4 \<Rightarrow> V4 v4 | None \<Rightarrow> V6 a)"
| "normalize_ip (V4 a) = V4 a"

datatype ip_network = Net_V4 u32 u32 | Net_V6 u128 u128

definition cidr_family_error :: string where
  "cidr_family_error =
     ''invalid CIDR prefix or IPv4-mapped IPv6 CIDR; use IPv4 CIDR instead''"

definition ip_network_parse :: "string \<Rightarrow> string + ip_network" where
  "ip_network_parse s =
     and_then (ok_or ''CIDR prefix is required'' (split_once (CHR ''/'') s)) (\<lambda>(address, prefix).
     and_then (ok_or ''invalid CIDR IP'' (parse_ip address)) (\<lambda>address.
     and_then (ok_or ''invalid CIDR prefix'' (parse_unsigned u32_max prefix)) (\<lambda>prefix.
       case address of
         V4 network \<Rightarrow>
           if prefix \<le> 32 then
             let msk = (if prefix = 0 then 0 else push_bit (32 - prefix) (-1)) in
             if network AND msk \<noteq> network then Inl ''CIDR must use the canonical network address''
             else Inr (Net_V4 network msk)
           else Inl cidr_family_error
       | V6 network \<Rightarrow>
           if prefix \<le> 128 \<and> to_ipv4_mapped network = None then
             let msk = (if prefix = 0 then 0 else push_bit (128 - prefix) (-1)) in
             if network AND msk \<noteq> network then Inl ''CIDR must use the canonical network address''
             else Inr (Net_V6 network msk)
           else Inl cidr_family_error)))"

fun ip_network_contains :: "ip_network \<Rightarrow> ip_addr \<Rightarrow> bool" where
  "ip_network_contains n a =
     (case (n, normalize_ip a) of
        (Net_V4 network msk, V4 a) \<Rightarrow> a AND msk = network
      | (Net_V6 network msk, V6 a) \<Rightarrow> a AND msk = network
      | _ \<Rightarrow> False)"

declare ip_network_contains.simps [simp del]

lemma replicate_numeral [eval_simps]:
  "replicate (numeral k) x = x # replicate (pred_numeral k) x"
  by (simp add: numeral_eq_Suc)

declare parse_ip_def [eval_simps] read_ipv4_octets_def [eval_simps] read_separator_def [eval_simps]
  read_number_def [eval_simps] dec_digit_def [eval_simps] read_groups.simps [eval_simps]
  read_ipv6_groups_def [eval_simps] horner_def [eval_simps] ipv4_of_octets_def [eval_simps]
  ipv6_of_groups_def [eval_simps] ip_network_parse_def [eval_simps] mask_eq_exp_minus_1 [eval_simps]
  ip_network_contains.simps [eval_simps] to_ipv4_mapped_def [eval_simps]
  show_ipv4_def [eval_simps] v4_octets_def [eval_simps]

section \<open>The case of the letters does not matter to the parser\<close>

lemma hex_digit_lower [simp]: "hex_digit (lower_char c) = hex_digit c"
  by (simp add: hex_digit_def is_ascii_digit_def byte_lower_char is_ascii_upper_def)

lemma dec_digit_lower [simp]: "dec_digit (lower_char c) = dec_digit c"
  by (simp add: dec_digit_def is_ascii_digit_def byte_lower_char is_ascii_upper_def)

lemma lower_char_colon [simp]:
  "lower_char c = CHR '':'' \<longleftrightarrow> c = CHR '':''"
  "CHR '':'' = lower_char c \<longleftrightarrow> c = CHR '':''"
  using lower_char_eq_iff [of "CHR '':''" c] by (auto simp: eval_simps)

lemma lower_char_zero [simp]: "lower_char c = CHR ''0'' \<longleftrightarrow> c = CHR ''0''"
  by (rule lower_char_eq_iff) (simp add: eval_simps)

lemma to_ascii_lowercase_Nil [simp]: "to_ascii_lowercase [] = []"
  by simp

abbreviation lower_rest :: "'a \<times> string \<Rightarrow> 'a \<times> string" where
  "lower_rest \<equiv> map_prod id to_ascii_lowercase"

lemma read_digits_lower:
  assumes "\<And>c. dig (lower_char c) = dig c"
  shows "read_digits dig radix mx cnt acc (to_ascii_lowercase s) =
     map_option (\<lambda>(n, k, r). (n, k, to_ascii_lowercase r)) (read_digits dig radix mx cnt acc s)"
  by (induction s arbitrary: cnt acc)
    (auto simp: to_ascii_lowercase_def assms split: option.splits)

lemma read_number_lower:
  assumes "\<And>c. dig (lower_char c) = dig c"
  shows "read_number dig radix mx b z (to_ascii_lowercase s) =
     map_option lower_rest (read_number dig radix mx b z s)"
proof -
  have "starts_with (to_ascii_lowercase s) ''0'' \<longleftrightarrow> starts_with s ''0''"
    by (cases s) (auto simp: to_ascii_lowercase_def)
  then show ?thesis
    by (auto simp: read_number_def read_digits_lower [where dig = dig, OF assms] split: option.splits)
qed

lemma read_separator_lower:
  assumes "\<And>s. f (to_ascii_lowercase s) = map_option lower_rest (f s)"
    and "\<And>c. lower_char c = sep \<longleftrightarrow> c = sep"
  shows "read_separator sep i f (to_ascii_lowercase s) =
     map_option lower_rest (read_separator sep i f s)"
proof (cases s)
  case Nil
  then show ?thesis using assms(1) [of "[]"] by (simp add: read_separator_def to_ascii_lowercase_def)
next
  case (Cons c cs)
  then show ?thesis
    using assms(1) [of s] assms(1) [of cs] assms(2) [of c]
    by (simp add: read_separator_def to_ascii_lowercase_def)
qed

lemma read_octets_lower:
  "read_octets is (to_ascii_lowercase s) = map_option lower_rest (read_octets is s)"
proof (induction "is" arbitrary: s)
  case (Cons i "is")
  have "read_separator (CHR ''.'') i (read_number dec_digit 10 3 255 False) (to_ascii_lowercase s)
      = map_option lower_rest (read_separator (CHR ''.'') i (read_number dec_digit 10 3 255 False) s)"
    by (rule read_separator_lower) (simp_all add: read_number_lower)
  then show ?case
    by (auto simp: Cons.IH option.map_comp comp_def split: option.splits
        intro!: option.map_cong)
qed simp

lemma read_groups_lower:
  "read_groups limit i (to_ascii_lowercase s) =
     map_prod id (map_prod id to_ascii_lowercase) (read_groups limit i s)"
proof (induction limit i s rule: read_groups.induct)
  case (1 limit i s)
  have octs: "read_separator (CHR '':'') i read_ipv4_octets (to_ascii_lowercase s)
      = map_option lower_rest (read_separator (CHR '':'') i read_ipv4_octets s)"
    by (rule read_separator_lower) (simp_all add: read_ipv4_octets_def read_octets_lower)
  have num: "read_separator (CHR '':'') i (read_number hex_digit 16 4 65535 True)
        (to_ascii_lowercase s)
      = map_option lower_rest (read_separator (CHR '':'') i (read_number hex_digit 16 4 65535 True) s)"
    by (rule read_separator_lower) (simp_all add: read_number_lower)
  show ?case
    by (auto simp: read_groups.simps [of limit i] octs num 1 Let_def split: option.splits prod.splits)
qed

lemma strip_prefix_colons_lower:
  "strip_prefix ''::'' (to_ascii_lowercase s) =
     map_option to_ascii_lowercase (strip_prefix ''::'' s)"
proof (cases s)
  case (Cons c cs)
  then show ?thesis
    using lower_char_colon [of c] by (cases cs) (auto simp: to_ascii_lowercase_def)
qed (simp add: to_ascii_lowercase_def)

lemma read_ipv6_groups_lower:
  "read_ipv6_groups (to_ascii_lowercase s) = map_option lower_rest (read_ipv6_groups s)"
  by (auto simp: read_ipv6_groups_def read_groups_lower strip_prefix_colons_lower Let_def
      case_prod_unfold split: option.splits)

lemma parse_ip_lower [simp]: "parse_ip (to_ascii_lowercase s) = parse_ip s"
  by (auto simp: parse_ip_def read_ipv4_octets_def read_octets_lower read_ipv6_groups_lower
      simp del: read_octets.simps split: option.splits list.splits)

section \<open>Normalisation\<close>

lemma ucast_or_push_bit: "ucast (push_bit 32 c OR ucast b :: u128) = (b :: u32)"
  by (rule bit_word_eqI) (auto simp: bit_simps)

lemma to_ipv4_mapped_Some_iff: "to_ipv4_mapped a = Some b \<longleftrightarrow> a = ipv4_mapped b"
proof
  assume "to_ipv4_mapped a = Some b"
  then have d: "drop_bit 32 a = 65535" and b: "b = ucast a"
    by (auto simp: to_ipv4_mapped_def split: if_splits)
  have "a = push_bit 32 (drop_bit 32 a) OR take_bit 32 a"
    by (rule bit_word_eqI) (auto simp: bit_simps)
  also have "take_bit 32 a = ucast b"
    unfolding b by (rule bit_word_eqI) (auto simp: bit_simps)
  finally show "a = ipv4_mapped b"
    by (simp add: d ipv4_mapped_def)
next
  assume a: "a = ipv4_mapped b"
  have "drop_bit 32 a = 65535"
    unfolding a ipv4_mapped_def
    by (rule bit_word_eqI) (auto simp: bit_simps dest: bit_imp_le_length)
  moreover have "ucast a = b"
    unfolding a ipv4_mapped_def by (rule ucast_or_push_bit)
  ultimately show "to_ipv4_mapped a = Some b"
    by (simp add: to_ipv4_mapped_def)
qed

lemma normalize_ip_mapped [simp]: "normalize_ip (V6 (ipv4_mapped a)) = V4 a"
proof -
  have "to_ipv4_mapped (ipv4_mapped a) = Some a"
    by (simp only: to_ipv4_mapped_Some_iff)
  then show ?thesis by simp
qed

lemma normalize_ip_idem [simp]: "normalize_ip (normalize_ip a) = normalize_ip a"
  by (cases a) (auto split: option.splits)

lemma normalize_ip_eq_V4_iff:
  "normalize_ip a = V4 b \<longleftrightarrow> a = V4 b \<or> a = V6 (ipv4_mapped b)"
  by (cases a) (auto simp: to_ipv4_mapped_Some_iff [symmetric] split: option.splits)

lemma contains_normalize [simp]:
  "ip_network_contains n (normalize_ip a) = ip_network_contains n a"
  by (simp add: ip_network_contains.simps)

section \<open>Prefixes\<close>

lemma and_push_bit_minus_one:
  "a AND push_bit k (- 1) = push_bit k (drop_bit k (a :: 'w :: len word))"
  by (rule bit_word_eqI) (auto simp: bit_simps)

lemma push_bit_drop_bit_eq_iff:
  "push_bit k (drop_bit k a) = push_bit k (drop_bit k (b :: 'w :: len word))
     \<longleftrightarrow> drop_bit k a = drop_bit k b"
proof
  assume "push_bit k (drop_bit k a) = push_bit k (drop_bit k b)"
  then have "drop_bit k (push_bit k (drop_bit k a)) = drop_bit k (push_bit k (drop_bit k b))"
    by simp
  moreover have "drop_bit k (push_bit k (drop_bit k c)) = drop_bit k (c :: 'w word)" for c
    by (rule bit_word_eqI) (auto simp: bit_simps dest: bit_imp_le_length)
  ultimately show "drop_bit k a = drop_bit k b" by simp
qed simp

fun same_prefix :: "nat \<Rightarrow> ip_addr \<Rightarrow> ip_addr \<Rightarrow> bool" where
  "same_prefix p (V4 a) (V4 b) \<longleftrightarrow> drop_bit (32 - p) a = drop_bit (32 - p) b"
| "same_prefix p (V6 a) (V6 b) \<longleftrightarrow> drop_bit (128 - p) a = drop_bit (128 - p) b"
| "same_prefix p _ _ \<longleftrightarrow> False"

fun ip_width :: "ip_addr \<Rightarrow> nat" where
  "ip_width (V4 a) = 32"
| "ip_width (V6 a) = 128"

text \<open>
  The network address of a successful parse is the address written, with all bits below the prefix
  zero; and membership is exactly agreement on the prefix.
\<close>

lemma v4_contains_iff:
  assumes "p \<le> 32" "w = (if p = 0 then 0 else push_bit (32 - p) (- 1))" "b AND w = b"
  shows "ip_network_contains (Net_V4 b w) a \<longleftrightarrow> same_prefix p (V4 b) (normalize_ip a)"
proof -
  have w: "w = push_bit (32 - p) (- 1)"
    using assms(2) by (cases "p = 0") (simp_all add: mask_eq_exp_minus_1)
  have "c AND w = b \<longleftrightarrow> drop_bit (32 - p) b = drop_bit (32 - p) c" for c
  proof -
    have "c AND w = b \<longleftrightarrow> c AND w = b AND w"
      using assms(3) by simp
    then show ?thesis
      unfolding w and_push_bit_minus_one push_bit_drop_bit_eq_iff by metis
  qed
  then show ?thesis
    by (simp add: ip_network_contains.simps split: ip_addr.splits)
qed

lemma v6_contains_iff:
  assumes "p \<le> 128" "w = (if p = 0 then 0 else push_bit (128 - p) (- 1))" "b AND w = b"
  shows "ip_network_contains (Net_V6 b w) a \<longleftrightarrow> same_prefix p (V6 b) (normalize_ip a)"
proof -
  have w: "w = push_bit (128 - p) (- 1)"
    using assms(2) by (cases "p = 0") (simp_all add: mask_eq_exp_minus_1)
  have "c AND w = b \<longleftrightarrow> drop_bit (128 - p) b = drop_bit (128 - p) c" for c
  proof -
    have "c AND w = b \<longleftrightarrow> c AND w = b AND w"
      using assms(3) by simp
    then show ?thesis
      unfolding w and_push_bit_minus_one push_bit_drop_bit_eq_iff by metis
  qed
  then show ?thesis
    by (simp add: ip_network_contains.simps split: ip_addr.splits)
qed

lemma ip_network_parse_contains:
  assumes "ip_network_parse s = Inr n"
  obtains address prefix b p where
    "s = address @ ''/'' @ prefix" "CHR ''/'' \<notin> set address"
    "parse_ip address = Some b" "parse_unsigned u32_max prefix = Some p" "p \<le> ip_width b"
    "\<And>a. ip_network_contains n a \<longleftrightarrow> same_prefix p b (normalize_ip a)"
proof -
  from assms obtain address prefix b p where s: "split_once (CHR ''/'') s = Some (address, prefix)"
    and b: "parse_ip address = Some b" and p: "parse_unsigned u32_max prefix = Some p"
    by (auto simp: ip_network_parse_def split: prod.splits)
  note n = assms [unfolded ip_network_parse_def s ok_or.simps and_then.simps prod.case b p]
  have "p \<le> ip_width b \<and> (\<forall>a. ip_network_contains n a \<longleftrightarrow> same_prefix p b (normalize_ip a))"
  proof (cases b)
    case (V4 x)
    with n have "p \<le> 32" "n = Net_V4 x (if p = 0 then 0 else push_bit (32 - p) (-1))"
      "x AND (if p = 0 then 0 else push_bit (32 - p) (-1)) = x"
      by (auto simp: Let_def split: if_splits)
    with V4 show ?thesis by (simp add: v4_contains_iff del: push_bit_minus_one)
  next
    case (V6 x)
    with n have "p \<le> 128" "n = Net_V6 x (if p = 0 then 0 else push_bit (128 - p) (-1))"
      "x AND (if p = 0 then 0 else push_bit (128 - p) (-1)) = x"
      by (auto simp: Let_def split: if_splits)
    with V6 show ?thesis by (simp add: v6_contains_iff del: push_bit_minus_one)
  qed
  with s b p that show ?thesis by (auto simp: split_once_Some_iff)
qed

end
