(* ===== verification/Http_Lib.thy ===== *)
theory Http_Lib
  imports Net
begin

text \<open>
  The interface of the \<open>http\<close> crate the gateway builds on.  Its code is not part of the
  repository, so it is a parameter: a record of the operations of \<open>HeaderMap\<close>, \<open>HeaderName\<close>,
  \<open>HeaderValue\<close> and \<open>Uri\<close> that the definitions take as their first argument, over an arbitrary
  type \<open>'h\<close> of header maps.  The laws the crate documents are the locale \<open>header_map\<close>; an
  association list of fields provides them.  Header names are their canonical lower-case strings,
  header values their bytes.
\<close>

section \<open>Operations\<close>

text \<open>What the accessors of a parsed \<open>Uri\<close> return.\<close>

record uri =
  u_scheme :: "string option"
  u_authority :: "string option"
  u_host :: "string option"
  u_port :: "nat option"
  u_path :: string
  u_query :: "string option"
  u_path_and_query :: "string option"

record 'h http_lib =
  hm_empty :: 'h
  hm_get_all :: "'h \<Rightarrow> string \<Rightarrow> bytes list"
  hm_keys :: "'h \<Rightarrow> string list"
  hm_fields :: "'h \<Rightarrow> (string \<times> bytes) list"
  hm_insert :: "'h \<Rightarrow> string \<Rightarrow> bytes \<Rightarrow> 'h"
  hm_append :: "'h \<Rightarrow> string \<Rightarrow> bytes \<Rightarrow> 'h"
  hm_remove :: "'h \<Rightarrow> string \<Rightarrow> 'h"
  hv_to_str :: "bytes \<Rightarrow> string option"
  hv_from_str :: "string \<Rightarrow> bytes option"
  hv_invalid :: string
  hn_from_bytes :: "bytes \<Rightarrow> string option"
  uri_parse :: "string \<Rightarrow> string + uri"

definition hm_get :: "('h, 'm) http_lib_scheme \<Rightarrow> 'h \<Rightarrow> string \<Rightarrow> bytes option" where
  "hm_get lib h n = (case hm_get_all lib h n of [] \<Rightarrow> None | v # vs \<Rightarrow> Some v)"

definition hm_contains :: "('h, 'm) http_lib_scheme \<Rightarrow> 'h \<Rightarrow> string \<Rightarrow> bool" where
  "hm_contains lib h n \<longleftrightarrow> hm_get_all lib h n \<noteq> []"

definition hm_remove_all :: "('h, 'm) http_lib_scheme \<Rightarrow> 'h \<Rightarrow> string list \<Rightarrow> 'h" where
  "hm_remove_all lib h names = foldl (hm_remove lib) h names"

datatype http_version = Http_09 | Http_10 | Http_11 | Http_2 | Http_3

record 'h request =
  rq_method :: string
  rq_uri :: uri
  rq_version :: http_version
  rq_headers :: 'h

section \<open>The laws of a header map\<close>

definition is_graphic :: "char \<Rightarrow> bool" where
  "is_graphic c \<longleftrightarrow> 33 \<le> byte c \<and> byte c \<le> 126"

locale header_map =
  fixes lib :: "'h http_lib"
  assumes get_all_empty: "hm_get_all lib (hm_empty lib) n = []"
    and get_all_insert:
      "hm_get_all lib (hm_insert lib h n v) k = (if k = n then [v] else hm_get_all lib h k)"
    and get_all_append:
      "hm_get_all lib (hm_append lib h n v) k =
         (if k = n then hm_get_all lib h k @ [v] else hm_get_all lib h k)"
    and get_all_remove:
      "hm_get_all lib (hm_remove lib h n) k = (if k = n then [] else hm_get_all lib h k)"
    and keys_iff: "n \<in> set (hm_keys lib h) \<longleftrightarrow> hm_get_all lib h n \<noteq> []"
    and fields_get_all: "map snd (filter (\<lambda>f. fst f = n) (hm_fields lib h)) = hm_get_all lib h n"
    and to_str_from_str: "hv_from_str lib s = Some v \<Longrightarrow> hv_to_str lib v = Some s"
    and from_str_visible: "list_all is_graphic s \<Longrightarrow> hv_from_str lib s \<noteq> None"
begin

lemmas get_all_simps [simp] = get_all_empty get_all_insert get_all_append get_all_remove

lemma contains_simps [simp]:
  "\<not> hm_contains lib (hm_empty lib) n"
  "hm_contains lib (hm_insert lib h m v) n \<longleftrightarrow> n = m \<or> hm_contains lib h n"
  "hm_contains lib (hm_append lib h m v) n \<longleftrightarrow> n = m \<or> hm_contains lib h n"
  "hm_contains lib (hm_remove lib h m) n \<longleftrightarrow> n \<noteq> m \<and> hm_contains lib h n"
  by (simp_all add: hm_contains_def)

lemma get_simps [simp]:
  "hm_get lib (hm_empty lib) n = None"
  "hm_get lib (hm_insert lib h m v) n = (if n = m then Some v else hm_get lib h n)"
  "hm_get lib (hm_remove lib h m) n = (if n = m then None else hm_get lib h n)"
  by (simp_all add: hm_get_def)

lemma get_all_remove_all [simp]:
  "hm_get_all lib (hm_remove_all lib h names) k =
     (if k \<in> set names then [] else hm_get_all lib h k)"
  unfolding hm_remove_all_def by (induction names arbitrary: h) auto

lemma keys_contains: "set (hm_keys lib h) = {n. hm_contains lib h n}"
  by (auto simp: keys_iff hm_contains_def)

lemma fields_iff: "(n, v) \<in> set (hm_fields lib h) \<longleftrightarrow> v \<in> set (hm_get_all lib h n)"
proof -
  have "v \<in> set (hm_get_all lib h n) \<longleftrightarrow> (\<exists>f \<in> set (hm_fields lib h). fst f = n \<and> snd f = v)"
    unfolding fields_get_all [symmetric, where n = n and h = h] by auto
  also have "\<dots> \<longleftrightarrow> (n, v) \<in> set (hm_fields lib h)"
    by force
  finally show ?thesis ..
qed

end

section \<open>Header maps as lists of fields\<close>

type_synonym fields = "(string \<times> bytes) list"

definition fields_get_all :: "fields \<Rightarrow> string \<Rightarrow> bytes list" where
  "fields_get_all h n = map snd (filter (\<lambda>f. fst f = n) h)"

definition fields_remove :: "fields \<Rightarrow> string \<Rightarrow> fields" where
  "fields_remove h n = filter (\<lambda>f. fst f \<noteq> n) h"

definition fields_append :: "fields \<Rightarrow> string \<Rightarrow> bytes \<Rightarrow> fields" where
  "fields_append h n v = h @ [(n, v)]"

definition fields_insert :: "fields \<Rightarrow> string \<Rightarrow> bytes \<Rightarrow> fields" where
  "fields_insert h n v = fields_remove h n @ [(n, v)]"

text \<open>Visible ASCII bytes, spaces and tabs make a value that can be read back as a string.\<close>

definition visible :: "string \<Rightarrow> string option" where
  "visible s =
     (if list_all (\<lambda>c. 32 \<le> byte c \<and> byte c < 127 \<or> byte c = 9) s then Some s else None)"

definition token :: "bytes \<Rightarrow> string option" where
  "token s =
     (if s \<noteq> [] \<and> list_all (\<lambda>c. is_ascii_alphanumeric c \<or> c \<in> set ''!#$%&*+-.^_`|~'') s
      then Some (to_ascii_lowercase s) else None)"

definition list_http :: "(string \<Rightarrow> string + uri) \<Rightarrow> fields http_lib" where
  "list_http parse_uri =
     \<lparr> hm_empty = [], hm_get_all = fields_get_all, hm_keys = \<lambda>h. remdups (map fst h),
       hm_fields = (\<lambda>h. h), hm_insert = fields_insert, hm_append = fields_append,
       hm_remove = fields_remove, hv_to_str = visible, hv_from_str = visible,
       hv_invalid = ''failed to parse header value'', hn_from_bytes = token, uri_parse = parse_uri \<rparr>"

declare fields_get_all_def [eval_simps] fields_remove_def [eval_simps] fields_append_def [eval_simps]
  fields_insert_def [eval_simps] visible_def [eval_simps] token_def [eval_simps]
  list_http_def [eval_simps] hm_get_def [eval_simps] hm_contains_def [eval_simps]
  hm_remove_all_def [eval_simps]

interpretation list_http: header_map "list_http parse_uri"
proof
  fix n k v s :: string and h :: fields
  let ?l = "list_http parse_uri"
  show "hm_get_all ?l (hm_empty ?l) n = []"
    by (simp add: list_http_def fields_get_all_def)
  show "hm_get_all ?l (hm_remove ?l h n) k = (if k = n then [] else hm_get_all ?l h k)"
    by (auto simp: list_http_def fields_get_all_def fields_remove_def filter_empty_conv
        intro!: arg_cong [where f = "map snd"] filter_cong)
  show "hm_get_all ?l (hm_append ?l h n v) k =
      (if k = n then hm_get_all ?l h k @ [v] else hm_get_all ?l h k)"
    by (simp add: list_http_def fields_get_all_def fields_append_def)
  show "hm_get_all ?l (hm_insert ?l h n v) k = (if k = n then [v] else hm_get_all ?l h k)"
    by (auto simp: list_http_def fields_get_all_def fields_insert_def fields_remove_def
        filter_empty_conv intro!: arg_cong [where f = "map snd"] filter_cong)
  show "n \<in> set (hm_keys ?l h) \<longleftrightarrow> hm_get_all ?l h n \<noteq> []"
    by (force simp: list_http_def fields_get_all_def filter_empty_conv)
  show "map snd (filter (\<lambda>f. fst f = n) (hm_fields ?l h)) = hm_get_all ?l h n"
    by (simp add: list_http_def fields_get_all_def)
  show "hv_to_str ?l v = Some s" if "hv_from_str ?l s = Some v"
    using that by (auto simp: list_http_def visible_def split: if_splits)
  show "hv_from_str ?l s \<noteq> None" if "list_all is_graphic s"
    using that by (auto simp: list_http_def visible_def is_graphic_def list_all_iff)
qed

lemma header_map_list_http: "header_map (list_http p)"
  by (rule list_http.header_map_axioms)

end
