(* ===== verification/Routing.thy ===== *)
theory Routing
  imports Http_Lib
begin

text \<open>
  \<open>src/routing/mod.rs\<close>: the canonical form of routing hosts (\<open>normalize_dns_host\<close>), the authority
  of a request (\<open>resolve_request_host\<close>) and the policy that ties request hosts to the TLS server
  name of the connection (\<open>RoutingPolicy\<close>).
\<close>

section \<open>Host names\<close>

definition label_ok :: "string \<Rightarrow> bool" where
  "label_ok label \<longleftrightarrow>
     \<not> (label = [] \<or> 63 < length label \<or> starts_with label ''-'' \<or> ends_with label ''-''
        \<or> \<not> list_all (\<lambda>b. is_ascii_alphanumeric b \<or> b = CHR ''-'') label)"

definition normalize_dns_host :: "string \<Rightarrow> string + string" where
  "normalize_dns_host value =
     (let value = (case strip_suffix ''.'' value of Some v \<Rightarrow> v | None \<Rightarrow> value) in
      if value = [] \<or> 253 < length value \<or> \<not> list_all is_ascii value then
        Inl ''host must be an ASCII DNS name between 1 and 253 bytes''
      else if parse_ip value \<noteq> None then
        Inl ''IP literal routing hosts are not supported''
      else if \<not> list_all label_ok (split_on (CHR ''.'') value) then
        Inl ''host contains an invalid DNS label; wildcards are not supported''
      else Inr (to_ascii_lowercase value))"

text \<open>The names routing works with: lower-case ASCII labels, no IP literal, no final dot.\<close>

definition canonical_host :: "string \<Rightarrow> bool" where
  "canonical_host h \<longleftrightarrow>
     h \<noteq> [] \<and> length h \<le> 253 \<and> list_all is_ascii h \<and> parse_ip h = None \<and>
     list_all label_ok (split_on (CHR ''.'') h) \<and> to_ascii_lowercase h = h"

lemma label_ok_lower [simp]: "label_ok (to_ascii_lowercase s) = label_ok s"
proof -
  have "list_all P (map lower_char s) \<longleftrightarrow> list_all (\<lambda>c. P (lower_char c)) s" for P
    by (simp add: list_all_iff)
  then show ?thesis
    by (auto simp: label_ok_def to_ascii_lowercase_def last_map hd_map)
qed

lemma to_ascii_lowercase_dot [simp]: "to_ascii_lowercase ''.'' = ''.''"
  by (simp add: to_ascii_lowercase_def)

lemma list_all_is_ascii_lower [simp]:
  "list_all is_ascii (to_ascii_lowercase s) = list_all is_ascii s"
  by (simp add: to_ascii_lowercase_def list_all_iff)

lemma list_all_label_ok_lower [simp]:
  "list_all label_ok (split_on (CHR ''.'') (to_ascii_lowercase s))
     = list_all label_ok (split_on (CHR ''.'') s)"
proof -
  have "split_on (CHR ''.'') (to_ascii_lowercase s)
      = map to_ascii_lowercase (split_on (CHR ''.'') s)"
    by (rule split_on_lower) simp_all
  then show ?thesis by (simp add: list_all_iff)
qed

lemma normalize_dns_host_canonical:
  "normalize_dns_host v = Inr h \<Longrightarrow> canonical_host h"
  by (auto simp: normalize_dns_host_def canonical_host_def Let_def split: if_splits)

lemma canonical_host_last:
  assumes "canonical_host h"
  shows "strip_suffix ''.'' h = None"
proof (rule ccontr)
  assume "strip_suffix ''.'' h \<noteq> None"
  then obtain t where h: "h = t @ ''.''"
    by (auto simp:)
  have "[] \<in> set (split_on (CHR ''.'') (t @ ''.''))"
    by (simp add: split_on_append_sep)
  with assms h show False
    by (auto simp: canonical_host_def list_all_iff label_ok_def)
qed

lemma normalize_dns_host_of_canonical:
  "canonical_host h \<Longrightarrow> normalize_dns_host h = Inr h"
  using canonical_host_last [of h] by (auto simp: normalize_dns_host_def canonical_host_def)

lemma normalize_dns_host_idem:
  "normalize_dns_host v = Inr h \<Longrightarrow> normalize_dns_host h = Inr h"
  using normalize_dns_host_canonical normalize_dns_host_of_canonical by blast

lemma normalize_dns_host_iff:
  "normalize_dns_host v = Inr h \<longleftrightarrow>
     canonical_host h \<and> (to_ascii_lowercase v = h \<or> to_ascii_lowercase v = h @ ''.'')"
  (is "?l \<longleftrightarrow> ?r")
proof
  assume l: ?l
  then have "to_ascii_lowercase v = h \<or> to_ascii_lowercase v = h @ ''.''"
    by (auto simp: normalize_dns_host_def Let_def to_ascii_lowercase_def
        split: if_splits option.splits)
  with normalize_dns_host_canonical [OF l] show ?r by simp
next
  assume r: ?r
  then have h: "canonical_host h" ..
  from r consider "to_ascii_lowercase v = h" | "to_ascii_lowercase v = h @ ''.''" by blast
  then show ?l
  proof cases
    case 1
    have "strip_suffix ''.'' v = None"
    proof (rule ccontr)
      assume "strip_suffix ''.'' v \<noteq> None"
      then obtain t where "v = t @ ''.''" by (auto simp:)
      with 1 have "h = to_ascii_lowercase t @ ''.''" by auto
      with canonical_host_last [OF h] show False by (simp add: strip_suffix_None_iff)
    qed
    moreover have "canonical_host (to_ascii_lowercase v)" using 1 h by simp
    ultimately show ?thesis
      using 1 by (auto simp: normalize_dns_host_def canonical_host_def)
  next
    case 2
    then obtain t where v: "v = t @ ''.''" "to_ascii_lowercase t = h"
      by (auto simp: to_ascii_lowercase_def map_eq_append_conv)
    moreover have "canonical_host (to_ascii_lowercase t)" using v h by simp
    moreover have "strip_suffix ''.'' v = Some t"
      using v by (simp add:)
    ultimately show ?thesis
      by (auto simp: normalize_dns_host_def canonical_host_def)
  qed
qed

section \<open>The authority of a request\<close>

definition parse_port :: "string \<Rightarrow> string + nat" where
  "parse_port port =
     (if port = [] \<or> \<not> list_all is_ascii_digit port then Inl ''invalid authority port''
      else and_then (ok_or ''invalid authority port'' (parse_unsigned 65535 port)) (\<lambda>port.
        if port = 0 then Inl ''authority port must not be zero'' else Inr port))"

definition normalize_authority :: "string \<Rightarrow> string + string \<times> nat option" where
  "normalize_authority value =
     and_then
       (case split_once (CHR '':'') value of
          Some (host, port) \<Rightarrow> and_then (parse_port port) (\<lambda>port. Inr (host, Some port))
        | None \<Rightarrow> Inr (value, None)) (\<lambda>(host, port).
     and_then (normalize_dns_host host) (\<lambda>host. Inr (host, port)))"

definition effective_port :: "nat option \<Rightarrow> nat" where
  "effective_port port = (case port of Some p \<Rightarrow> p | None \<Rightarrow> 443)"

definition resolve_request_host :: "('h, 'm) http_lib_scheme \<Rightarrow> 'h request \<Rightarrow> string + string" where
  "resolve_request_host lib request =
     (let hosts = hm_get_all lib (rq_headers request) ''host'';
          first = (case hosts of [] \<Rightarrow> None | h # _ \<Rightarrow> Some h) in
      and_then (transpose_opt
          (map_option (\<lambda>h. ok_or ''invalid Host header'' (hv_to_str lib h)) first)) (\<lambda>header.
      if 1 < length hosts then Inl ''multiple Host headers'' else
      let uri_authority = u_authority (rq_uri request) in
      and_then (transpose_opt (map_option normalize_authority header)) (\<lambda>header.
      and_then (transpose_opt (map_option normalize_authority uri_authority)) (\<lambda>authority.
      if (case (header, authority) of
            (Some h, Some a) \<Rightarrow>
              fst h \<noteq> fst a \<or> effective_port (snd h) \<noteq> effective_port (snd a)
          | _ \<Rightarrow> False)
      then Inl ''Host header conflicts with request authority''
      else if rq_version request = Http_2 \<and> authority = None
      then Inl ''HTTP/2 :authority is required''
      else ok_or ''request authority is required''
             (map_option fst (case authority of Some a \<Rightarrow> Some a | None \<Rightarrow> header))))))"

declare label_ok_def [eval_simps] normalize_dns_host_def [eval_simps] parse_port_def [eval_simps]
  normalize_authority_def [eval_simps] effective_port_def [eval_simps]
  resolve_request_host_def [eval_simps]

lemma normalize_authority_canonical:
  "normalize_authority v = Inr (h, p) \<Longrightarrow> canonical_host h"
  by (auto simp: normalize_authority_def normalize_dns_host_canonical split: option.splits)

lemma normalize_authority_port:
  "normalize_authority v = Inr (h, Some p) \<Longrightarrow> 1 \<le> p \<and> p \<le> 65535"
  by (auto simp: normalize_authority_def parse_port_def dest: parse_unsigned_le
      split: option.splits if_splits)

text \<open>
  One name per request: an accepted request has at most one \<open>Host\<close> field, and the host field and
  the authority of the target that are present both denote the host that routing uses, on the same
  port.
\<close>

lemma resolve_request_host_sound:
  assumes "resolve_request_host lib request = Inr host"
  shows "canonical_host host"
    and "length (hm_get_all lib (rq_headers request) ''host'') \<le> 1"
    and "\<exists>port. (\<forall>v \<in> set (hm_get_all lib (rq_headers request) ''host''). \<exists>s p.
            hv_to_str lib v = Some s \<and> normalize_authority s = Inr (host, p)
            \<and> effective_port p = port)
          \<and> (\<forall>a. u_authority (rq_uri request) = Some a \<longrightarrow>
              (\<exists>p. normalize_authority a = Inr (host, p) \<and> effective_port p = port))"
    and "rq_version request = Http_2 \<Longrightarrow> u_authority (rq_uri request) \<noteq> None"
proof -
  let ?hs = "hm_get_all lib (rq_headers request) ''host''"
  from assms show len: "length ?hs \<le> 1"
    by (auto simp: resolve_request_host_def Let_def not_less split: if_splits)
  then consider "?hs = []" | v where "?hs = [v]"
    by (cases ?hs) auto
  then have "canonical_host host \<and> (\<exists>port. (\<forall>v \<in> set ?hs. \<exists>s p.
            hv_to_str lib v = Some s \<and> normalize_authority s = Inr (host, p)
            \<and> effective_port p = port)
          \<and> (\<forall>a. u_authority (rq_uri request) = Some a \<longrightarrow>
              (\<exists>p. normalize_authority a = Inr (host, p) \<and> effective_port p = port))) \<and>
      (rq_version request = Http_2 \<longrightarrow> u_authority (rq_uri request) \<noteq> None)"
  proof cases
    case 1
    with assms show ?thesis
      by (cases "u_authority (rq_uri request)")
        (auto simp: resolve_request_host_def Let_def normalize_authority_canonical split: if_splits)
  next
    case 2
    with assms show ?thesis
      by (cases "u_authority (rq_uri request)")
        (auto simp: resolve_request_host_def Let_def normalize_authority_canonical split: if_splits)
  qed
  then show "canonical_host host"
    and "\<exists>port. (\<forall>v \<in> set ?hs. \<exists>s p.
            hv_to_str lib v = Some s \<and> normalize_authority s = Inr (host, p)
            \<and> effective_port p = port)
          \<and> (\<forall>a. u_authority (rq_uri request) = Some a \<longrightarrow>
              (\<exists>p. normalize_authority a = Inr (host, p) \<and> effective_port p = port))"
    and "rq_version request = Http_2 \<Longrightarrow> u_authority (rq_uri request) \<noteq> None"
    by blast+
qed

section \<open>The routing policy\<close>

record routing_policy =
  rp_hosts :: "string set"
  rp_require_sni :: bool
  rp_sni_bindings :: "string \<rightharpoonup> string set"

definition policy_target ::
  "string set \<Rightarrow> string \<Rightarrow> string set \<Rightarrow> string \<Rightarrow> string + string set"
where
  "policy_target hosts sni allowed target =
     and_then (normalize_dns_host target) (\<lambda>target.
       if target \<notin> hosts then
         Inl (''SNI '' @ sni @ '' references unconfigured host '' @ target)
       else if target \<in> allowed then Inl (''duplicate host '' @ target @ '' in SNI '' @ sni)
       else Inr (insert target allowed))"

definition policy_binding ::
  "string set \<Rightarrow> (string \<rightharpoonup> string set) \<Rightarrow> string \<times> string list \<Rightarrow> string + (string \<rightharpoonup> string set)"
where
  "policy_binding hosts sni_bindings binding =
     (case binding of (sni, targets) \<Rightarrow>
      and_then (normalize_dns_host sni) (\<lambda>sni.
      if targets = [] then Inl (''SNI '' @ sni @ '' has no allowed hosts'') else
      and_then (try_fold (policy_target hosts sni) {} targets) (\<lambda>allowed.
      if sni \<in> dom sni_bindings then Inl (''duplicate SNI binding '' @ sni)
      else Inr (sni_bindings(sni \<mapsto> allowed)))))"

definition routing_policy_build ::
  "string set \<Rightarrow> bool \<Rightarrow> (string \<times> string list) list \<Rightarrow> string + routing_policy"
where
  "routing_policy_build hosts require_sni bindings =
     and_then (try_fold (policy_binding hosts) Map.empty bindings) (\<lambda>sni_bindings.
       Inr \<lparr> rp_hosts = hosts, rp_require_sni = require_sni, rp_sni_bindings = sni_bindings \<rparr>)"

definition permits_request_host :: "routing_policy \<Rightarrow> string \<Rightarrow> string option \<Rightarrow> bool" where
  "permits_request_host policy host sni \<longleftrightarrow>
     host \<in> rp_hosts policy \<and>
     (case sni of
        None \<Rightarrow> \<not> rp_require_sni policy
      | Some sni \<Rightarrow>
          (case normalize_dns_host sni of
             Inl e \<Rightarrow> False
           | Inr sni \<Rightarrow>
               (case rp_sni_bindings policy sni of
                  Some allowed \<Rightarrow> host \<in> allowed
                | None \<Rightarrow> sni = host)))"

declare policy_target_def [eval_simps] policy_binding_def [eval_simps]
  routing_policy_build_def [eval_simps] permits_request_host_def [eval_simps]

definition canonical_hosts :: "string list \<Rightarrow> string set" where
  "canonical_hosts names = {h. \<exists>t \<in> set names. normalize_dns_host t = Inr h}"

lemma policy_target_Inr_iff:
  "policy_target hosts sni acc t = Inr acc' \<longleftrightarrow>
     (\<exists>h. normalize_dns_host t = Inr h \<and> h \<in> hosts \<and> h \<notin> acc \<and> acc' = insert h acc)"
  by (auto simp: policy_target_def split: if_splits)

lemma policy_target_fold:
  "try_fold (policy_target hosts sni) acc targets = Inr allowed \<Longrightarrow>
     allowed = acc \<union> canonical_hosts targets \<and> canonical_hosts targets \<subseteq> hosts"
proof (induction targets arbitrary: acc)
  case (Cons t ts)
  then obtain h where h: "normalize_dns_host t = Inr h" "h \<in> hosts"
    and "try_fold (policy_target hosts sni) (insert h acc) ts = Inr allowed"
    by (auto simp: policy_target_Inr_iff)
  with Cons.IH have "allowed = insert h acc \<union> canonical_hosts ts" "canonical_hosts ts \<subseteq> hosts"
    by auto
  moreover have "canonical_hosts (t # ts) = insert h (canonical_hosts ts)"
    using h by (auto simp: canonical_hosts_def)
  ultimately show ?case using h by auto
qed (simp add: canonical_hosts_def)

lemma policy_binding_Inr:
  "policy_binding hosts m b = Inr m' \<Longrightarrow>
     \<exists>n. normalize_dns_host (fst b) = Inr n \<and> m n = None \<and> m' = m(n \<mapsto> canonical_hosts (snd b))"
  by (auto simp: policy_binding_def domIff split: if_splits prod.splits dest!: policy_target_fold)

lemma policy_binding_fold:
  "try_fold (policy_binding hosts) m bindings = Inr m' \<Longrightarrow>
     m' s = Some A \<longleftrightarrow> m s = Some A \<or>
       (\<exists>b \<in> set bindings. normalize_dns_host (fst b) = Inr s \<and> A = canonical_hosts (snd b))"
proof (induction bindings arbitrary: m)
  case (Cons b bs)
  from Cons.prems obtain m1 where "policy_binding hosts m b = Inr m1"
    and rest: "try_fold (policy_binding hosts) m1 bs = Inr m'"
    by auto
  then obtain n where n: "normalize_dns_host (fst b) = Inr n" "m n = None"
    and m1: "m1 = m(n \<mapsto> canonical_hosts (snd b))"
    using policy_binding_Inr by blast
  show ?case
    using n unfolding Cons.IH [OF rest] by (auto simp: m1)
qed simp

lemma permits_request_host_build:
  assumes "routing_policy_build hosts require_sni bindings = Inr policy"
  shows "permits_request_host policy host sni \<longleftrightarrow>
     host \<in> hosts \<and>
     (case sni of
        None \<Rightarrow> \<not> require_sni
      | Some s \<Rightarrow> \<exists>name. normalize_dns_host s = Inr name \<and>
          (if \<exists>b \<in> set bindings. normalize_dns_host (fst b) = Inr name
           then \<exists>b \<in> set bindings. normalize_dns_host (fst b) = Inr name
                  \<and> (\<exists>t \<in> set (snd b). normalize_dns_host t = Inr host)
           else name = host))"
proof -
  from assms obtain m where m: "try_fold (policy_binding hosts) Map.empty bindings = Inr m"
    and policy: "policy = \<lparr> rp_hosts = hosts, rp_require_sni = require_sni, rp_sni_bindings = m \<rparr>"
    by (auto simp: routing_policy_build_def)
  have "(case m name of Some allowed \<Rightarrow> host \<in> allowed | None \<Rightarrow> name = host) \<longleftrightarrow>
      (if \<exists>b \<in> set bindings. normalize_dns_host (fst b) = Inr name
       then \<exists>b \<in> set bindings. normalize_dns_host (fst b) = Inr name
              \<and> (\<exists>t \<in> set (snd b). normalize_dns_host t = Inr host)
       else name = host)" for name
  proof (cases "m name")
    case None
    then have "\<not> (\<exists>b \<in> set bindings. normalize_dns_host (fst b) = Inr name)"
      using policy_binding_fold [OF m, of name] by auto
    with None show ?thesis by simp
  next
    case (Some A)
    have A: "B = A \<longleftrightarrow> (\<exists>b \<in> set bindings. normalize_dns_host (fst b) = Inr name
        \<and> B = canonical_hosts (snd b))" for B
      using policy_binding_fold [OF m, of name B] Some by auto
    then have "\<exists>b \<in> set bindings. normalize_dns_host (fst b) = Inr name" by blast
    moreover have "host \<in> A \<longleftrightarrow> (\<exists>b \<in> set bindings. normalize_dns_host (fst b) = Inr name
              \<and> host \<in> canonical_hosts (snd b))"
      using A [of A] A [of "canonical_hosts (snd b)" for b] by metis
    ultimately show ?thesis
      by (simp only: Some option.case if_True canonical_hosts_def mem_Collect_eq)
  qed
  note resolved = this
  show ?thesis
  proof (cases sni)
    case (Some s)
    then show ?thesis
      by (cases "normalize_dns_host s")
        (simp_all only: permits_request_host_def policy option.case sum.case resolved
          routing_policy.simps sum.simps simp_thms ex_simps)
  qed (simp add: permits_request_host_def policy)
qed

end
