(* ===== verification/Utf8.thy ===== *)
theory Utf8
  imports Rust_Str
begin

text \<open>
  \<open>std::str::from_utf8\<close> with its error positions, the scalar values of a \<open>str\<close>, the two
  Unicode predicates the route validators use, and \<open>trim\<close>. The validator is the standard
  library's loop: it looks at one scalar value at a time and reports either a bad sequence with its
  length or an input that ended inside one.
\<close>

section \<open>One scalar value\<close>

datatype utf8_step = Utf8_Char nat | Utf8_Incomplete | Utf8_Bad nat

definition is_cont :: "char \<Rightarrow> bool" where
  "is_cont c \<longleftrightarrow> 128 \<le> byte c \<and> byte c \<le> 191"

definition second_of_3 :: "nat \<Rightarrow> char \<Rightarrow> bool" where
  "second_of_3 b c \<longleftrightarrow>
     (b = 224 \<and> 160 \<le> byte c \<and> byte c \<le> 191)
   \<or> (225 \<le> b \<and> b \<le> 236 \<and> is_cont c)
   \<or> (b = 237 \<and> 128 \<le> byte c \<and> byte c \<le> 159)
   \<or> (238 \<le> b \<and> b \<le> 239 \<and> is_cont c)"

definition second_of_4 :: "nat \<Rightarrow> char \<Rightarrow> bool" where
  "second_of_4 b c \<longleftrightarrow>
     (b = 240 \<and> 144 \<le> byte c \<and> byte c \<le> 191)
   \<or> (241 \<le> b \<and> b \<le> 243 \<and> is_cont c)
   \<or> (b = 244 \<and> 128 \<le> byte c \<and> byte c \<le> 143)"

fun utf8_next2 :: "string \<Rightarrow> utf8_step" where
  "utf8_next2 [] = Utf8_Incomplete"
| "utf8_next2 (c1 # _) = (if is_cont c1 then Utf8_Char 2 else Utf8_Bad 1)"

fun utf8_next3 :: "nat \<Rightarrow> string \<Rightarrow> utf8_step" where
  "utf8_next3 b [] = Utf8_Incomplete"
| "utf8_next3 b [c1] = (if second_of_3 b c1 then Utf8_Incomplete else Utf8_Bad 1)"
| "utf8_next3 b (c1 # c2 # _) =
     (if \<not> second_of_3 b c1 then Utf8_Bad 1
      else if is_cont c2 then Utf8_Char 3 else Utf8_Bad 2)"

fun utf8_next4 :: "nat \<Rightarrow> string \<Rightarrow> utf8_step" where
  "utf8_next4 b [] = Utf8_Incomplete"
| "utf8_next4 b [c1] = (if second_of_4 b c1 then Utf8_Incomplete else Utf8_Bad 1)"
| "utf8_next4 b [c1, c2] =
     (if \<not> second_of_4 b c1 then Utf8_Bad 1
      else if is_cont c2 then Utf8_Incomplete else Utf8_Bad 2)"
| "utf8_next4 b (c1 # c2 # c3 # _) =
     (if \<not> second_of_4 b c1 then Utf8_Bad 1
      else if \<not> is_cont c2 then Utf8_Bad 2
      else if is_cont c3 then Utf8_Char 4 else Utf8_Bad 3)"

definition utf8_next :: "char \<Rightarrow> string \<Rightarrow> utf8_step" where
  "utf8_next c cs =
     (let b = byte c in
      if b < 128 then Utf8_Char 1
      else if 194 \<le> b \<and> b \<le> 223 then utf8_next2 cs
      else if 224 \<le> b \<and> b \<le> 239 then utf8_next3 b cs
      else if 240 \<le> b \<and> b \<le> 244 then utf8_next4 b cs
      else Utf8_Bad 1)"

text \<open>The width a leading byte announces, as the message validator computes it.\<close>

definition lead_width :: "char \<Rightarrow> nat" where
  "lead_width c = (if byte c < 224 then 2 else if byte c < 240 then 3 else 4)"

lemma utf8_next2_Char: "utf8_next2 cs = Utf8_Char w \<Longrightarrow> w = 2 \<and> 1 \<le> length cs"
  by (cases cs rule: utf8_next2.cases) (auto split: if_splits)

lemma utf8_next3_Char: "utf8_next3 b cs = Utf8_Char w \<Longrightarrow> w = 3 \<and> 2 \<le> length cs"
  by (induction b cs rule: utf8_next3.induct) (auto split: if_splits)

lemma utf8_next4_Char: "utf8_next4 b cs = Utf8_Char w \<Longrightarrow> w = 4 \<and> 3 \<le> length cs"
  by (induction b cs rule: utf8_next4.induct) (auto split: if_splits)

lemma utf8_next_Char_bounds:
  "utf8_next c cs = Utf8_Char w \<Longrightarrow> 1 \<le> w \<and> w \<le> Suc (length cs)"
  by (auto simp: utf8_next_def Let_def split: if_splits
      dest!: utf8_next2_Char utf8_next3_Char utf8_next4_Char)

lemma utf8_next_Char_width:
  "utf8_next c cs = Utf8_Char w \<Longrightarrow> 128 \<le> byte c \<Longrightarrow> w = lead_width c"
  by (auto simp: utf8_next_def Let_def lead_width_def split: if_splits
      dest!: utf8_next2_Char utf8_next3_Char utf8_next4_Char)

lemma utf8_next3_CharD:
  "utf8_next3 b cs = Utf8_Char w \<Longrightarrow>
   \<exists>c1 c2 r. cs = c1 # c2 # r \<and> second_of_3 b c1 \<and> is_cont c2 \<and> w = 3"
  by (induction b cs rule: utf8_next3.induct) (auto split: if_splits)

lemma utf8_next4_CharD:
  "utf8_next4 b cs = Utf8_Char w \<Longrightarrow>
   \<exists>c1 c2 c3 r. cs = c1 # c2 # c3 # r \<and> second_of_4 b c1 \<and> is_cont c2 \<and> is_cont c3 \<and> w = 4"
  by (induction b cs rule: utf8_next4.induct) (auto split: if_splits)

text \<open>The step only looks at the bytes of its own scalar value.\<close>

lemma utf8_next2_stable: "utf8_next2 cs \<noteq> Utf8_Incomplete \<Longrightarrow> utf8_next2 (cs @ ds) = utf8_next2 cs"
  by (cases cs rule: utf8_next2.cases) auto

lemma utf8_next3_stable:
  "utf8_next3 b cs \<noteq> Utf8_Incomplete \<Longrightarrow> utf8_next3 b (cs @ ds) = utf8_next3 b cs"
proof (induction b cs rule: utf8_next3.induct)
  case (2 b c1)
  then show ?case by (cases ds) (auto split: if_splits)
qed auto

lemma utf8_next4_stable:
  "utf8_next4 b cs \<noteq> Utf8_Incomplete \<Longrightarrow> utf8_next4 b (cs @ ds) = utf8_next4 b cs"
proof (induction b cs rule: utf8_next4.induct)
  case (2 b c1)
  then show ?case by (cases "(b, ds)" rule: utf8_next4.cases) (auto split: if_splits)
next
  case (3 b c1 c2)
  then show ?case by (cases ds) (auto split: if_splits)
qed auto

lemma utf8_next_stable:
  "utf8_next c cs \<noteq> Utf8_Incomplete \<Longrightarrow> utf8_next c (cs @ ds) = utf8_next c cs"
  by (auto simp: utf8_next_def Let_def utf8_next2_stable utf8_next3_stable utf8_next4_stable)

lemma utf8_next2_complete: "1 \<le> length cs \<Longrightarrow> utf8_next2 cs \<noteq> Utf8_Incomplete"
  by (cases cs rule: utf8_next2.cases) auto

lemma utf8_next3_complete: "2 \<le> length cs \<Longrightarrow> utf8_next3 b cs \<noteq> Utf8_Incomplete"
  by (induction b cs rule: utf8_next3.induct) auto

lemma utf8_next4_complete: "3 \<le> length cs \<Longrightarrow> utf8_next4 b cs \<noteq> Utf8_Incomplete"
  by (induction b cs rule: utf8_next4.induct) auto

lemma utf8_next_Incomplete:
  "utf8_next c cs = Utf8_Incomplete \<Longrightarrow> 128 \<le> byte c \<and> Suc (length cs) < lead_width c"
proof -
  assume inc: "utf8_next c cs = Utf8_Incomplete"
  then have "194 \<le> byte c" by (auto simp: utf8_next_def Let_def split: if_splits)
  moreover have "Suc (length cs) < lead_width c"
  proof (rule ccontr)
    assume "\<not> Suc (length cs) < lead_width c"
    with inc show False
      using utf8_next2_complete [of cs] utf8_next3_complete [of cs "byte c"]
        utf8_next4_complete [of cs "byte c"]
      by (auto simp: utf8_next_def Let_def lead_width_def split: if_splits)
  qed
  ultimately show ?thesis by simp
qed

text \<open>Extending an incomplete sequence up to its announced width decides it.\<close>

lemma utf8_next_full:
  "lead_width c \<le> Suc (length cs) \<Longrightarrow> utf8_next c cs \<noteq> Utf8_Incomplete"
  using utf8_next_Incomplete [of c cs] by auto

section \<open>\<open>from_utf8\<close>\<close>

datatype utf8_result = Utf8_Ok | Utf8_Err nat "nat option"

function from_utf8_at :: "nat \<Rightarrow> string \<Rightarrow> utf8_result" where
  "from_utf8_at off [] = Utf8_Ok"
| "from_utf8_at off (c # cs) =
     (case utf8_next c cs of
        Utf8_Char w \<Rightarrow> from_utf8_at (off + w) (drop w (c # cs))
      | Utf8_Incomplete \<Rightarrow> Utf8_Err off None
      | Utf8_Bad n \<Rightarrow> Utf8_Err off (Some n))"
  by pat_completeness auto
termination
  by (relation "measure (\<lambda>(off, s). length s)") (auto dest!: utf8_next_Char_bounds)

declare from_utf8_at.simps(2) [simp del]

definition from_utf8 :: "string \<Rightarrow> utf8_result" where
  "from_utf8 s = from_utf8_at 0 s"

fun shift_result :: "nat \<Rightarrow> utf8_result \<Rightarrow> utf8_result" where
  "shift_result k Utf8_Ok = Utf8_Ok"
| "shift_result k (Utf8_Err v e) = Utf8_Err (v + k) e"

lemma from_utf8_at_shift: "from_utf8_at (off + k) s = shift_result k (from_utf8_at off s)"
proof (induction off s arbitrary: k rule: from_utf8_at.induct)
  case (2 off c cs)
  then show ?case
    by (auto simp: from_utf8_at.simps(2) add.commute add.left_commute split: utf8_step.split)
qed simp

lemma from_utf8_at_eq: "from_utf8_at off s = shift_result off (from_utf8 s)"
  unfolding from_utf8_def using from_utf8_at_shift [of 0 off s] by simp

lemma from_utf8_Nil [simp]: "from_utf8 [] = Utf8_Ok"
  by (simp add: from_utf8_def)

lemma from_utf8_Cons:
  "from_utf8 (c # cs) =
     (case utf8_next c cs of
        Utf8_Char w \<Rightarrow> shift_result w (from_utf8 (drop w (c # cs)))
      | Utf8_Incomplete \<Rightarrow> Utf8_Err 0 None
      | Utf8_Bad n \<Rightarrow> Utf8_Err 0 (Some n))"
proof (cases "utf8_next c cs")
  case (Utf8_Char w)
  then show ?thesis
    using from_utf8_at_eq [of w "drop w (c # cs)"] by (simp add: from_utf8_def from_utf8_at.simps(2))
qed (simp_all add: from_utf8_def from_utf8_at.simps(2))

lemma shift_result_iff [simp]: "shift_result k r = Utf8_Ok \<longleftrightarrow> r = Utf8_Ok"
  by (cases r) simp_all

lemma shift_result_Err_iff:
  "shift_result k r = Utf8_Err v e \<longleftrightarrow> k \<le> v \<and> r = Utf8_Err (v - k) e"
  by (cases r) auto

lemma shift_result_0 [simp]: "shift_result 0 r = r"
  by (cases r) auto

lemma shift_result_add [simp]: "shift_result a (shift_result b r) = shift_result (a + b) r"
  by (cases r) auto

text \<open>
  The induction principle of the loop on its own value: the whole string, one step, the rest.
\<close>

lemma utf8_induct [case_names Nil Char Incomplete Bad]:
  assumes "P []"
    and "\<And>c cs w. utf8_next c cs = Utf8_Char w \<Longrightarrow> P (drop w (c # cs)) \<Longrightarrow> P (c # cs)"
    and "\<And>c cs. utf8_next c cs = Utf8_Incomplete \<Longrightarrow> P (c # cs)"
    and "\<And>c cs n. utf8_next c cs = Utf8_Bad n \<Longrightarrow> P (c # cs)"
  shows "P s"
proof (induction s rule: length_induct)
  case (1 s)
  show ?case
  proof (cases s)
    case (Cons c cs)
    show ?thesis
    proof (cases "utf8_next c cs")
      case (Utf8_Char w)
      from utf8_next_Char_bounds [OF this] have "length (drop w s) < length s"
        using Cons by simp
      with 1 Utf8_Char Cons assms(2) show ?thesis by blast
    qed (use Cons assms in auto)
  qed (use assms in simp)
qed

text \<open>One complete scalar value is valid on its own.\<close>

lemma utf8_next2_take: "utf8_next2 cs = Utf8_Char w \<Longrightarrow> utf8_next2 (take 1 cs) = Utf8_Char w"
  by (cases cs rule: utf8_next2.cases) (auto split: if_splits)

lemma utf8_next3_take: "utf8_next3 b cs = Utf8_Char w \<Longrightarrow> utf8_next3 b (take 2 cs) = Utf8_Char w"
  by (induction b cs rule: utf8_next3.induct) (auto split: if_splits simp: take_Cons')

lemma utf8_next4_take: "utf8_next4 b cs = Utf8_Char w \<Longrightarrow> utf8_next4 b (take 3 cs) = Utf8_Char w"
  by (induction b cs rule: utf8_next4.induct) (auto split: if_splits simp: take_Cons')

lemma utf8_next_take: "utf8_next c cs = Utf8_Char w \<Longrightarrow> utf8_next c (take (w - 1) cs) = Utf8_Char w"
  using utf8_next2_Char [of cs w] utf8_next3_Char [of "byte c" cs w]
    utf8_next4_Char [of "byte c" cs w] utf8_next2_take [of cs w] utf8_next3_take [of "byte c" cs w]
    utf8_next4_take [of "byte c" cs w]
  unfolding utf8_next_def Let_def by (simp split: if_splits)

lemma from_utf8_single:
  assumes "utf8_next c cs = Utf8_Char w"
  shows "from_utf8 (take w (c # cs)) = Utf8_Ok"
proof -
  have w: "1 \<le> w" "w \<le> Suc (length cs)" using utf8_next_Char_bounds [OF assms] by auto
  then have "take w (c # cs) = c # take (w - 1) cs" by (cases w) auto
  with w utf8_next_take [OF assms] show ?thesis by (simp add: from_utf8_Cons)
qed

lemma from_utf8_append_Ok:
  "from_utf8 s = Utf8_Ok \<Longrightarrow> from_utf8 (s @ t) = shift_result (length s) (from_utf8 t)"
proof (induction s rule: utf8_induct)
  case (Char c cs w)
  have "w \<le> Suc (length cs)" using Char.hyps utf8_next_Char_bounds by blast
  then have d: "drop w (c # cs @ t) = drop w (c # cs) @ t"
    using drop_append [of w "c # cs" t] by simp
  have n: "utf8_next c (cs @ t) = Utf8_Char w"
    using Char.hyps utf8_next_stable [of c cs t] by simp
  show ?case
    using Char d n \<open>w \<le> Suc (length cs)\<close> by (simp add: from_utf8_Cons)
qed (simp_all add: from_utf8_Cons)

lemma from_utf8_append_Bad:
  "from_utf8 s = Utf8_Err v (Some n) \<Longrightarrow> from_utf8 (s @ t) = Utf8_Err v (Some n)"
proof (induction s arbitrary: v rule: utf8_induct)
  case (Char c cs w)
  have "w \<le> Suc (length cs)" using Char.hyps utf8_next_Char_bounds by blast
  then have d: "drop w (c # cs @ t) = drop w (c # cs) @ t"
    using drop_append [of w "c # cs" t] by simp
  have n: "utf8_next c (cs @ t) = Utf8_Char w"
    using Char.hyps utf8_next_stable [of c cs t] by simp
  show ?case
    using Char d n by (auto simp: from_utf8_Cons shift_result_Err_iff)
next
  case (Bad c cs n)
  then show ?case using utf8_next_stable [of c cs t] by (auto simp: from_utf8_Cons)
qed (simp_all add: from_utf8_Cons)

text \<open>
  An input that ends inside a scalar value: what precedes it is valid, and the rest is a
  proper, non-empty part of one sequence.
\<close>

lemma from_utf8_Incomplete:
  "from_utf8 s = Utf8_Err v None \<Longrightarrow>
   \<exists>c cs. drop v s = c # cs \<and> utf8_next c cs = Utf8_Incomplete \<and> from_utf8 (take v s) = Utf8_Ok"
proof (induction s arbitrary: v rule: utf8_induct)
  case (Char c cs w)
  then have v: "w \<le> v" "from_utf8 (drop w (c # cs)) = Utf8_Err (v - w) None"
    by (auto simp: from_utf8_Cons shift_result_Err_iff)
  from Char.IH [OF v(2)] obtain d ds where d:
    "drop (v - w) (drop w (c # cs)) = d # ds" "utf8_next d ds = Utf8_Incomplete"
    "from_utf8 (take (v - w) (drop w (c # cs))) = Utf8_Ok" by blast
  have w: "1 \<le> w" "w \<le> Suc (length cs)" using Char.hyps utf8_next_Char_bounds by blast+
  have t: "take v (c # cs) = take w (c # cs) @ take (v - w) (drop w (c # cs))"
    using v(1) by (metis le_add_diff_inverse take_add)
  have "from_utf8 (take w (c # cs)) = Utf8_Ok"
    using Char.hyps by (rule from_utf8_single)
  then have "from_utf8 (take v (c # cs)) = Utf8_Ok"
    using d(3) t by (simp add: from_utf8_append_Ok)
  moreover have "drop v (c # cs) = d # ds"
    using d(1) v(1) by simp
  ultimately show ?case using d(2) by blast
qed (auto simp: from_utf8_Cons)

section \<open>Scalar values\<close>

text \<open>The encoding of a Unicode scalar value, and what a valid string is made of.\<close>

definition is_scalar :: "nat \<Rightarrow> bool" where
  "is_scalar n \<longleftrightarrow> n < 1114112 \<and> \<not> (55296 \<le> n \<and> n \<le> 57343)"

definition utf8_encode :: "nat \<Rightarrow> string" where
  "utf8_encode n =
     (if n < 128 then [char_of n]
      else if n < 2048 then [char_of (192 + n div 64), char_of (128 + n mod 64)]
      else if n < 65536 then
        [char_of (224 + n div 4096), char_of (128 + n div 64 mod 64), char_of (128 + n mod 64)]
      else
        [char_of (240 + n div 262144), char_of (128 + n div 4096 mod 64),
         char_of (128 + n div 64 mod 64), char_of (128 + n mod 64)])"

text \<open>The value of one complete sequence of the given width.\<close>

fun scalar_of :: "string \<Rightarrow> nat" where
  "scalar_of [a] = byte a"
| "scalar_of [a, b] = (byte a - 192) * 64 + (byte b - 128)"
| "scalar_of [a, b, c] = ((byte a - 224) * 64 + (byte b - 128)) * 64 + (byte c - 128)"
| "scalar_of [a, b, c, d] =
     (((byte a - 240) * 64 + (byte b - 128)) * 64 + (byte c - 128)) * 64 + (byte d - 128)"
| "scalar_of _ = 0"

text \<open>\<open>str::chars\<close>. On bytes that are no \<open>str\<close> an undecodable byte stands for itself.\<close>

function utf8_chars :: "string \<Rightarrow> nat list" where
  "utf8_chars [] = []"
| "utf8_chars (c # cs) =
     (case utf8_next c cs of
        Utf8_Char w \<Rightarrow> scalar_of (take w (c # cs)) # utf8_chars (drop w (c # cs))
      | _ \<Rightarrow> byte c # utf8_chars cs)"
  by pat_completeness auto
termination
  by (relation "measure length") (auto dest!: utf8_next_Char_bounds)

declare utf8_chars.simps(2) [simp del]

lemma char_of_byte [simp]: "char_of (byte c) = c"
  by (simp add: byte_def)

lemma div_mod_64: "x < 64 \<Longrightarrow> (k * 64 + x) div 64 = k" "x < 64 \<Longrightarrow> (k * 64 + x) mod 64 = (x::nat)"
  by simp_all

lemma flat_3: "(z * 64 + y) * 64 + x = z * 4096 + y * 64 + (x::nat)"
  by simp

lemma flat_4: "((u * 64 + z) * 64 + y) * 64 + x = u * 262144 + z * 4096 + y * 64 + (x::nat)"
  by simp

lemma utf8_encode_2:
  assumes "x < 64" "y < 32" "2 \<le> y"
  shows "utf8_encode (y * 64 + x) = [char_of (192 + y), char_of (128 + x)]"
  using assms div_mod_64 [of x y] unfolding utf8_encode_def by simp

lemma utf8_encode_3:
  assumes "x < 64" "y < 64" "z < 16" "2048 \<le> (z * 64 + y) * 64 + x"
  shows "utf8_encode ((z * 64 + y) * 64 + x) =
     [char_of (224 + z), char_of (128 + y), char_of (128 + x)]"
proof -
  let ?n = "(z * 64 + y) * 64 + x"
  have n: "?n div 64 = z * 64 + y" "?n mod 64 = x" "?n div 4096 = (?n div 64) div 64"
    using assms(1) div_mod_64 [of x "z * 64 + y"] div_mult2_eq [of ?n 64 64] by simp_all
  then have m: "?n div 4096 = z" "?n div 64 mod 64 = y"
    using assms(2) div_mod_64 [of y z] by simp_all
  have "\<not> ?n < 128" "\<not> ?n < 2048" "?n < 65536" using assms unfolding flat_3 by linarith+
  then show ?thesis unfolding utf8_encode_def m n(2) by simp
qed

lemma utf8_encode_4:
  assumes "x < 64" "y < 64" "z < 64" "u < 8" "65536 \<le> ((u * 64 + z) * 64 + y) * 64 + x"
  shows "utf8_encode (((u * 64 + z) * 64 + y) * 64 + x) =
     [char_of (240 + u), char_of (128 + z), char_of (128 + y), char_of (128 + x)]"
proof -
  let ?n = "((u * 64 + z) * 64 + y) * 64 + x"
  have n: "?n div 64 = (u * 64 + z) * 64 + y" "?n mod 64 = x" "?n div 4096 = (?n div 64) div 64"
    "?n div 262144 = (?n div 4096) div 64"
    using assms(1) div_mod_64 [of x "(u * 64 + z) * 64 + y"] div_mult2_eq [of ?n 64 64]
      div_mult2_eq [of ?n 4096 64] by simp_all
  then have m: "?n div 4096 = u * 64 + z" "?n div 64 mod 64 = y"
    using assms(2) div_mod_64 [of y "u * 64 + z"] by simp_all
  with n(4) have k: "?n div 262144 = u" "?n div 4096 mod 64 = z"
    using assms(3) div_mod_64 [of z u] by simp_all
  have "\<not> ?n < 128" "\<not> ?n < 2048" "\<not> ?n < 65536" using assms(5) by linarith+
  then show ?thesis unfolding utf8_encode_def m(2) n(2) k by simp
qed

lemma byte_split: "a \<le> byte c \<Longrightarrow> \<exists>x. byte c = a + x \<and> char_of (a + x) = c"
  using le_Suc_ex [of a "byte c"] char_of_byte [of c] by metis

lemma scalar_2:
  assumes "194 \<le> byte c" "byte c \<le> 223" "is_cont c1"
  shows "is_scalar (scalar_of [c, c1]) \<and> utf8_encode (scalar_of [c, c1]) = [c, c1]"
proof -
  from assms obtain y x where xy: "byte c = 192 + y" "char_of (192 + y) = c"
      "byte c1 = 128 + x" "char_of (128 + x) = c1"
    using byte_split [of 192 c] byte_split [of 128 c1] by (auto simp: is_cont_def)
  with assms have "x < 64" "y < 32" "2 \<le> y" by (auto simp: is_cont_def)
  from utf8_encode_2 [OF this] this xy show ?thesis by (simp add: is_scalar_def)
qed

lemma scalar_3:
  assumes "224 \<le> byte c" "byte c \<le> 239" "second_of_3 (byte c) c1" "is_cont c2"
  shows "is_scalar (scalar_of [c, c1, c2]) \<and> utf8_encode (scalar_of [c, c1, c2]) = [c, c1, c2]"
proof -
  have c1: "is_cont c1" using assms(3) by (auto simp: second_of_3_def is_cont_def)
  with assms obtain z y x where xyz: "byte c = 224 + z" "char_of (224 + z) = c"
      "byte c1 = 128 + y" "char_of (128 + y) = c1" "byte c2 = 128 + x" "char_of (128 + x) = c2"
    using byte_split [of 224 c] byte_split [of 128 c1] byte_split [of 128 c2]
    by (auto simp: is_cont_def)
  from assms c1 xyz have b: "x < 64" "y < 64" "z < 16"
    and v: "z = 0 \<and> 32 \<le> y \<or> 1 \<le> z \<and> z \<le> 12 \<or> z = 13 \<and> y < 32 \<or> 14 \<le> z"
    by (auto simp: is_cont_def second_of_3_def)
  from v have "2048 \<le> (z * 64 + y) * 64 + x" unfolding flat_3 by (elim disjE conjE) linarith+
  from utf8_encode_3 [OF b this] xyz
  have "utf8_encode (scalar_of [c, c1, c2]) = [c, c1, c2]" by simp
  moreover from v b have "is_scalar ((z * 64 + y) * 64 + x)"
    unfolding is_scalar_def flat_3 by (elim disjE conjE) linarith+
  ultimately show ?thesis using xyz by simp
qed

lemma scalar_4:
  assumes "240 \<le> byte c" "byte c \<le> 244" "second_of_4 (byte c) c1" "is_cont c2" "is_cont c3"
  shows "is_scalar (scalar_of [c, c1, c2, c3]) \<and>
    utf8_encode (scalar_of [c, c1, c2, c3]) = [c, c1, c2, c3]"
proof -
  have c1: "is_cont c1" using assms(3) by (auto simp: second_of_4_def is_cont_def)
  with assms obtain u z y x where xyz: "byte c = 240 + u" "char_of (240 + u) = c"
      "byte c1 = 128 + z" "char_of (128 + z) = c1" "byte c2 = 128 + y" "char_of (128 + y) = c2"
      "byte c3 = 128 + x" "char_of (128 + x) = c3"
    using byte_split [of 240 c] byte_split [of 128 c1] byte_split [of 128 c2] byte_split [of 128 c3]
    by (auto simp: is_cont_def)
  from assms c1 xyz have b: "x < 64" "y < 64" "z < 64" "u < 8"
    and v: "u = 0 \<and> 16 \<le> z \<or> 1 \<le> u \<and> u \<le> 3 \<or> u = 4 \<and> z < 16"
    by (auto simp: is_cont_def second_of_4_def)
  from v have "65536 \<le> ((u * 64 + z) * 64 + y) * 64 + x" unfolding flat_4 by (elim disjE conjE) linarith+
  from utf8_encode_4 [OF b this] this xyz
  have "utf8_encode (scalar_of [c, c1, c2, c3]) = [c, c1, c2, c3]"
    and "65536 \<le> ((u * 64 + z) * 64 + y) * 64 + x" by simp_all
  moreover from v b have "((u * 64 + z) * 64 + y) * 64 + x < 1114112"
    unfolding flat_4 by (elim disjE conjE) linarith+
  ultimately show ?thesis using xyz by (simp add: is_scalar_def)
qed

text \<open>Decoding one sequence and encoding it again gives its bytes back.\<close>

lemma scalar_of_encode:
  assumes "utf8_next c cs = Utf8_Char w"
  shows "is_scalar (scalar_of (take w (c # cs)))"
    and "utf8_encode (scalar_of (take w (c # cs))) = take w (c # cs)"
proof -
  consider (1) "byte c < 128" "w = 1"
    | (2) "194 \<le> byte c" "byte c \<le> 223" "utf8_next2 cs = Utf8_Char w"
    | (3) "224 \<le> byte c" "byte c \<le> 239" "utf8_next3 (byte c) cs = Utf8_Char w"
    | (4) "240 \<le> byte c" "byte c \<le> 244" "utf8_next4 (byte c) cs = Utf8_Char w"
    using assms by (auto simp: utf8_next_def Let_def split: if_splits)
  then have "is_scalar (scalar_of (take w (c # cs)))
    \<and> utf8_encode (scalar_of (take w (c # cs))) = take w (c # cs)"
  proof cases
    case 1
    then show ?thesis by (simp add: is_scalar_def utf8_encode_def)
  next
    case 2
    then obtain c1 r where cs: "cs = c1 # r" "is_cont c1" "w = 2"
      by (cases cs rule: utf8_next2.cases) (auto split: if_splits)
    from scalar_2 [OF 2(1,2) cs(2)] cs show ?thesis by simp
  next
    case 3
    then obtain c1 c2 r where cs: "cs = c1 # c2 # r" "second_of_3 (byte c) c1" "is_cont c2" "w = 3"
      by (blast dest: utf8_next3_CharD)
    from scalar_3 [OF 3(1,2) cs(2,3)] cs show ?thesis by simp
  next
    case 4
    then obtain c1 c2 c3 r where cs: "cs = c1 # c2 # c3 # r" "second_of_4 (byte c) c1"
        "is_cont c2" "is_cont c3" "w = 4"
      by (blast dest: utf8_next4_CharD)
    from scalar_4 [OF 4(1,2) cs(2-4)] cs show ?thesis by simp
  qed
  then show "is_scalar (scalar_of (take w (c # cs)))"
    and "utf8_encode (scalar_of (take w (c # cs))) = take w (c # cs)" by blast+
qed

lemma utf8_chars_valid:
  "from_utf8 s = Utf8_Ok \<Longrightarrow> list_all is_scalar (utf8_chars s) \<and> concat (map utf8_encode (utf8_chars s)) = s"
proof (induction s rule: utf8_induct)
  case (Char c cs w)
  then show ?case
    using scalar_of_encode [OF Char.hyps]
    by (simp add: utf8_chars.simps(2) from_utf8_Cons del: drop_Cons' take_Cons')
qed (simp_all add: from_utf8_Cons)

lemma base64_digits:
  "(n::nat) = n div 64 * 64 + n mod 64" "n mod 64 < 64"
  "n div 64 = n div 4096 * 64 + n div 64 mod 64" "n div 4096 = n div 262144 * 64 + n div 4096 mod 64"
proof -
  have "n div 4096 = n div 64 div 64" "n div 262144 = n div 4096 div 64"
    using div_mult2_eq [of n 64 64] div_mult2_eq [of n 4096 64] by simp_all
  then show "n div 64 = n div 4096 * 64 + n div 64 mod 64"
    "n div 4096 = n div 262144 * 64 + n div 4096 mod 64" by simp_all
qed simp_all

lemma from_utf8_encode:
  assumes "is_scalar n"
  shows "from_utf8 (utf8_encode n) = Utf8_Ok"
proof -
  define x y z u where d: "x = n mod 64" "y = n div 64 mod 64" "z = n div 4096 mod 64" "u = n div 262144"
  have x: "x < 64" and y: "y < 64" and z: "z < 64" by (simp_all add: d)
  have n64: "n = n div 64 * 64 + x" and n4096: "n div 64 = n div 4096 * 64 + y"
    and n262144: "n div 4096 = u * 64 + z"
    unfolding d by (rule base64_digits)+
  consider (1) "n < 128" | (2) "128 \<le> n" "n < 2048" | (3) "2048 \<le> n" "n < 65536" | (4) "65536 \<le> n"
    by linarith
  then show ?thesis
  proof cases
    case 1
    then show ?thesis by (simp add: utf8_encode_def from_utf8_Cons utf8_next_def)
  next
    case 2
    with n64 x have "2 \<le> n div 64" "n div 64 < 32" by linarith+
    with 2 x show ?thesis
      by (simp add: utf8_encode_def from_utf8_Cons utf8_next_def is_cont_def flip: d(1))
  next
    case 3
    have n: "n = (n div 4096 * 64 + y) * 64 + x" using n64 n4096 by simp
    have b: "n div 4096 < 16" using 3 by (simp add: div_less_iff_less_mult)
    have sec: "second_of_3 (224 + n div 4096) (char_of (128 + y))"
    proof -
      define w where "w = n div 4096"
      have "n = w * 4096 + y * 64 + x" using n unfolding w_def flat_3 .
      with 3 have "w = 0 \<Longrightarrow> 32 \<le> y" using x by linarith
      moreover have "w = 13 \<Longrightarrow> y < 32"
        using assms \<open>n = w * 4096 + y * 64 + x\<close> x y unfolding is_scalar_def by linarith
      ultimately show ?thesis
        using b y unfolding w_def [symmetric] second_of_3_def is_cont_def by auto
    qed
    with 3 x y b show ?thesis
      by (simp add: utf8_encode_def from_utf8_Cons utf8_next_def is_cont_def flip: d(1) d(2))
  next
    case 4
    have n: "n = ((u * 64 + z) * 64 + y) * 64 + x" using n64 n4096 n262144 by simp
    have "n < 1114112" using assms by (simp add: is_scalar_def)
    then have b: "u < 5" "u = 4 \<Longrightarrow> z < 16" using n unfolding flat_4 by linarith+
    have b0: "u = 0 \<Longrightarrow> 16 \<le> z" using n 4 x y unfolding flat_4 by linarith
    consider (lo) "u = 0" | (mid) "1 \<le> u" "u \<le> 3" | (hi) "u = 4" using b(1) by linarith
    then have "second_of_4 (240 + u) (char_of (128 + z))"
    proof cases
      case lo
      with b0 z show ?thesis by (simp add: second_of_4_def)
    next
      case mid
      with z show ?thesis by (simp add: second_of_4_def is_cont_def)
    next
      case hi
      with \<open>u = 4 \<Longrightarrow> z < 16\<close> show ?thesis by (simp add: second_of_4_def)
    qed
    with 4 x y z b show ?thesis
      by (simp add: utf8_encode_def from_utf8_Cons utf8_next_def is_cont_def flip: d)
  qed
qed

text \<open>The validator accepts exactly the sequences of encoded scalar values.\<close>

lemma from_utf8_concat: "list_all is_scalar ns \<Longrightarrow> from_utf8 (concat (map utf8_encode ns)) = Utf8_Ok"
  by (induction ns) (simp_all add: from_utf8_append_Ok from_utf8_encode)

lemma from_utf8_Ok_iff:
  "from_utf8 s = Utf8_Ok \<longleftrightarrow> (\<exists>ns. list_all is_scalar ns \<and> s = concat (map utf8_encode ns))"
  using utf8_chars_valid from_utf8_concat by metis

section \<open>Character predicates and trimming\<close>

text \<open>\<open>char::is_whitespace\<close> (the White\_Space property) and \<open>char::is_control\<close> (category Cc).\<close>

definition is_whitespace :: "nat \<Rightarrow> bool" where
  "is_whitespace n \<longleftrightarrow>
     (9 \<le> n \<and> n \<le> 13) \<or> n = 32 \<or> n = 133 \<or> n = 160 \<or> n = 5760 \<or> (8192 \<le> n \<and> n \<le> 8202)
     \<or> n = 8232 \<or> n = 8233 \<or> n = 8239 \<or> n = 8287 \<or> n = 12288"

definition is_control :: "nat \<Rightarrow> bool" where
  "is_control n \<longleftrightarrow> n < 32 \<or> (127 \<le> n \<and> n \<le> 159)"

definition any_char :: "(nat \<Rightarrow> bool) \<Rightarrow> string \<Rightarrow> bool" where
  "any_char P s \<longleftrightarrow> list_ex P (utf8_chars s)"

definition trim :: "string \<Rightarrow> string" where
  "trim s = concat (map utf8_encode
     (rev (dropWhile is_whitespace (rev (dropWhile is_whitespace (utf8_chars s))))))"

lemma utf8_chars_ascii: "list_all is_ascii s \<Longrightarrow> utf8_chars s = map byte s"
proof (induction s)
  case (Cons c cs)
  then have "utf8_next c cs = Utf8_Char 1" by (simp add: utf8_next_def is_ascii_def)
  with Cons show ?case by (simp add: utf8_chars.simps(2))
qed simp

text \<open>An ASCII byte of a string is one of its scalar values.\<close>

lemma utf8_next_skips_ascii:
  assumes "utf8_next c cs = Utf8_Char w" "d \<in> set (take w (c # cs))" "is_ascii d"
  shows "w = 1 \<and> d = c"
proof (cases "byte c < 128")
  case True
  with assms show ?thesis by (auto simp: utf8_next_def)
next
  case False
  have "\<not> is_ascii x" if "is_cont x" for x using that by (auto simp: is_cont_def is_ascii_def)
  moreover have "\<not> is_ascii x" if "second_of_3 b x" for x b
    using that by (auto simp: second_of_3_def is_cont_def is_ascii_def)
  moreover have "\<not> is_ascii x" if "second_of_4 b x" for x b
    using that by (auto simp: second_of_4_def is_cont_def is_ascii_def)
  moreover have "\<not> is_ascii c" using False by (simp add: is_ascii_def)
  ultimately show ?thesis
    using assms False
    by (cases cs rule: utf8_next2.cases)
      (auto simp: utf8_next_def Let_def split: if_splits dest!: utf8_next3_CharD utf8_next4_CharD)
qed

lemma utf8_chars_ascii_mem: "d \<in> set s \<Longrightarrow> is_ascii d \<Longrightarrow> byte d \<in> set (utf8_chars s)"
proof (induction s rule: utf8_chars.induct)
  case (2 c cs)
  show ?case
  proof (cases "utf8_next c cs")
    case (Utf8_Char w)
    have split: "c # cs = take w (c # cs) @ drop w (c # cs)" by simp
    show ?thesis
    proof (cases "d \<in> set (take w (c # cs))")
      case True
      from utf8_next_skips_ascii [OF Utf8_Char this "2.prems"(2)] Utf8_Char
      show ?thesis by (simp add: utf8_chars.simps(2))
    next
      case False
      with "2.prems"(1) have "d \<in> set (drop w (c # cs))"
        by (metis split Un_iff set_append)
      with Utf8_Char 2 show ?thesis by (simp add: utf8_chars.simps(2))
    qed
  qed (use 2 in \<open>auto simp: utf8_chars.simps(2)\<close>)
qed simp

lemma any_char_ascii: "d \<in> set s \<Longrightarrow> is_ascii d \<Longrightarrow> P (byte d) \<Longrightarrow> any_char P s"
  using utf8_chars_ascii_mem [of d s] by (auto simp: any_char_def list_ex_iff)

lemma from_utf8_ascii: "list_all is_ascii s \<Longrightarrow> from_utf8 s = Utf8_Ok"
proof (induction s)
  case (Cons c cs)
  then have "utf8_next c cs = Utf8_Char 1" by (simp add: utf8_next_def is_ascii_def)
  with Cons show ?case by (simp add: from_utf8_Cons)
qed (simp add: from_utf8_def)

text \<open>Evaluation on ASCII text.\<close>

lemma utf8_chars_ascii_Cons [eval_simps]: "is_ascii c \<Longrightarrow> utf8_chars (c # cs) = byte c # utf8_chars cs"
  by (simp add: utf8_chars.simps(2) utf8_next_def is_ascii_def)

declare any_char_def [eval_simps] is_whitespace_def [eval_simps] is_control_def [eval_simps]
  trim_def [eval_simps] utf8_encode_def [eval_simps]

end
