(* ===== verification/File_Sys.thy ===== *)
theory File_Sys
  imports Rust_Str
begin

text \<open>
  The part of \<open>std::fs\<close> the gateway stores state with.  The file system is a map from paths to
  contents.  Which calls fail is up to the environment: a call takes the error the operating system
  answers with, if any, and every program below is a list of calls in the order of the code.
  The content of every intermediate file system is observable (a crash may leave any of them).
\<close>

section \<open>Paths\<close>

text \<open>\<open>Path::file_name\<close>, \<open>is_absolute\<close> and \<open>join\<close> on Unix: empty and \<open>.\<close> components are skipped.\<close>

definition path_components :: "string \<Rightarrow> string list" where
  "path_components p =
     (case split_on (CHR ''/'') p of
        [] \<Rightarrow> []
      | first # rest \<Rightarrow>
          (if first = [] then [] else [first]) @ filter (\<lambda>c. c \<noteq> [] \<and> c \<noteq> ''.'') rest)"

definition path_file_name :: "string \<Rightarrow> string option" where
  "path_file_name p =
     (case rev (path_components p) of
        [] \<Rightarrow> None
      | c # _ \<Rightarrow> if c = ''.'' \<or> c = ''..'' then None else Some c)"

definition path_is_absolute :: "string \<Rightarrow> bool" where
  "path_is_absolute p \<longleftrightarrow> starts_with p ''/''"

definition path_join :: "string \<Rightarrow> string \<Rightarrow> string" where
  "path_join a b =
     (if path_is_absolute b then b
      else if a = [] \<or> ends_with a ''/'' then a @ b
      else a @ ''/'' @ b)"

declare path_components_def [eval_simps] path_file_name_def [eval_simps]
  path_is_absolute_def [eval_simps] path_join_def [eval_simps]

section \<open>Files and calls\<close>

type_synonym path = string
type_synonym fs = "path \<rightharpoonup> bytes"

text \<open>An \<open>anyhow::Error\<close> is its chain of messages, the outermost first.\<close>

type_synonym anyhow = "string list"

definition add_context :: "string \<Rightarrow> anyhow + 'a \<Rightarrow> anyhow + 'a" where
  "add_context c = map_err ((#) c)"

definition bail :: "string \<Rightarrow> anyhow + 'a" where
  "bail msg = Inl [msg]"

lemma add_context_Inr_iff [simp]: "add_context c r = Inr x \<longleftrightarrow> r = Inr x"
  by (cases r) (auto simp: add_context_def)

lemma bail_neq_Inr [simp]: "bail m \<noteq> Inr x" "Inr x \<noteq> bail m"
  by (simp_all add: bail_def)

datatype io_kind = Not_Found | Already_Exists | Other_Error

record io_error =
  io_kind :: io_kind
  io_message :: string

definition io_anyhow :: "io_error + 'a \<Rightarrow> anyhow + 'a" where
  "io_anyhow = map_err (\<lambda>e. [io_message e])"

lemma io_anyhow_Inr_iff [simp]: "io_anyhow r = Inr x \<longleftrightarrow> r = Inr x"
  by (cases r) (auto simp: io_anyhow_def)

text \<open>
  One call on the file system.  A failing write may have stored a part of the bytes; the other
  failing calls change nothing.  \<open>Fs_Sync\<close> stands for \<open>flush\<close>, \<open>sync_all\<close> and the calls that set
  permissions: they change no content.
\<close>

datatype fs_op =
    Fs_Create path
  | Fs_Create_New path
  | Fs_Write path bytes
  | Fs_Sync path
  | Fs_Rename path path
  | Fs_Remove path

datatype fault = No_Fault | Fault io_error nat

definition not_found :: io_error where
  "not_found = \<lparr> io_kind = Not_Found, io_message = ''No such file or directory'' \<rparr>"

definition already_exists :: io_error where
  "already_exists = \<lparr> io_kind = Already_Exists, io_message = ''File exists'' \<rparr>"

fun fs_step :: "fault \<Rightarrow> fs_op \<Rightarrow> fs \<Rightarrow> (io_error + unit) \<times> fs" where
  "fs_step (Fault e k) (Fs_Write p data) fs =
     (Inl e, case fs p of Some old \<Rightarrow> fs(p \<mapsto> old @ take k data) | None \<Rightarrow> fs)"
| "fs_step (Fault e k) op fs = (Inl e, fs)"
| "fs_step No_Fault (Fs_Create p) fs = (Inr (), fs(p \<mapsto> []))"
| "fs_step No_Fault (Fs_Create_New p) fs =
     (if p \<in> dom fs then (Inl already_exists, fs) else (Inr (), fs(p \<mapsto> [])))"
| "fs_step No_Fault (Fs_Write p data) fs =
     (case fs p of Some old \<Rightarrow> (Inr (), fs(p \<mapsto> old @ data)) | None \<Rightarrow> (Inl not_found, fs))"
| "fs_step No_Fault (Fs_Sync p) fs = (Inr (), fs)"
| "fs_step No_Fault (Fs_Rename p q) fs =
     (case fs p of Some data \<Rightarrow> (Inr (), (fs(p := None))(q \<mapsto> data)) | None \<Rightarrow> (Inl not_found, fs))"
| "fs_step No_Fault (Fs_Remove p) fs =
     (if p \<in> dom fs then (Inr (), fs(p := None)) else (Inl not_found, fs))"

text \<open>
  A sequence of calls joined by \<open>?\<close>: it stops at the first failure.  The result is the number of
  calls that succeeded with the error of the one that failed, and all file systems that existed on
  the way, the last one first.
\<close>

fun fs_run ::
  "(fault \<times> fs_op) list \<Rightarrow> fs list \<Rightarrow> fs \<Rightarrow> (nat \<times> io_error + unit) \<times> fs \<times> fs list"
where
  "fs_run [] seen fs = (Inr (), fs, seen)"
| "fs_run ((f, op) # ops) seen fs =
     (case fs_step f op fs of
        (Inl e, fs') \<Rightarrow> (Inl (0, e), fs', fs' # seen)
      | (Inr _, fs') \<Rightarrow>
          (case fs_run ops (fs' # seen) fs' of
             (Inl (n, e), r) \<Rightarrow> (Inl (Suc n, e), r)
           | (Inr u, r) \<Rightarrow> (Inr u, r)))"

section \<open>What a call leaves alone\<close>

fun op_writes :: "fs_op \<Rightarrow> path set" where
  "op_writes (Fs_Create p) = {p}"
| "op_writes (Fs_Create_New p) = {p}"
| "op_writes (Fs_Write p data) = {p}"
| "op_writes (Fs_Sync p) = {}"
| "op_writes (Fs_Rename p q) = {p, q}"
| "op_writes (Fs_Remove p) = {p}"

lemma fs_step_frame:
  assumes "fs_step f op fs = (r, fs')" and "q \<notin> op_writes op"
  shows "fs' q = fs q"
  using assms by (cases "(f, op, fs)" rule: fs_step.cases) (auto split: option.splits if_splits)

lemma fs_run_frame:
  assumes "fs_run ops seen fs = (r, fs', seen')" and "\<forall>op \<in> snd ` set ops. q \<notin> op_writes op"
    and "\<forall>g \<in> set seen. g q = fs q"
  shows "fs' q = fs q \<and> (\<forall>g \<in> set seen'. g q = fs q)"
  using assms
proof (induction ops arbitrary: seen fs r fs' seen')
  case (Cons fop ops)
  obtain f op where fop: "fop = (f, op)" by (cases fop)
  obtain r1 fs1 where s: "fs_step f op fs = (r1, fs1)" by (cases "fs_step f op fs")
  have q: "fs1 q = fs q"
    using fs_step_frame [OF s, of q] Cons.prems(2) fop by auto
  show ?case
  proof (cases r1)
    case (Inl e)
    with Cons.prems s fop q show ?thesis by auto
  next
    case (Inr u)
    obtain r2 fs2 seen2 where run: "fs_run ops (fs1 # seen) fs1 = (r2, fs2, seen2)"
      by (cases "fs_run ops (fs1 # seen) fs1")
    have "fs2 q = fs1 q \<and> (\<forall>g \<in> set seen2. g q = fs1 q)"
      by (rule Cons.IH [OF run]) (use Cons.prems(2,3) q in auto)
    with Cons.prems(1) s fop Inr run q show ?thesis by (auto split: sum.splits prod.splits)
  qed
qed auto

section \<open>Replacing a file through a temporary one\<close>

text \<open>
  The calls of an atomic replacement, with the faults of the environment in the order of the
  calls: a new temporary file is written and synced, then renamed over the target.
\<close>

record write_faults =
  wf_create :: fault
  wf_write :: fault
  wf_flush :: fault
  wf_sync :: fault
  wf_rename :: fault
  wf_remove :: fault

definition replace_calls :: "write_faults \<Rightarrow> path \<Rightarrow> path \<Rightarrow> bytes \<Rightarrow> (fault \<times> fs_op) list" where
  "replace_calls f temp target data =
     [(wf_create f, Fs_Create_New temp), (wf_write f, Fs_Write temp data),
      (wf_flush f, Fs_Sync temp), (wf_sync f, Fs_Sync temp),
      (wf_rename f, Fs_Rename temp target)]"

definition replace_file_new ::
  "write_faults \<Rightarrow> path \<Rightarrow> path \<Rightarrow> bytes \<Rightarrow> fs \<Rightarrow> (nat \<times> io_error + unit) \<times> fs \<times> fs list"
where
  "replace_file_new f temp target data fs = fs_run (replace_calls f temp target data) [fs] fs"

declare replace_calls_def [eval_simps] replace_file_new_def [eval_simps]

text \<open>
  Old or new, never a mixture: the target has its old content or all of the new one in every file
  system on the way, the new one exactly after success, and nothing else but the temporary file
  changes.
\<close>

lemma replace_file_new_cases:
  assumes "replace_file_new f temp target data fs = (r, fs', seen)" "temp \<noteq> target"
  shows "is_ok r \<Longrightarrow> temp \<notin> dom fs \<and> fs' = fs(target \<mapsto> data)"
    and "\<not> is_ok r \<Longrightarrow> fs' target = fs target"
    and "g \<in> set seen \<Longrightarrow> g target = fs target \<or> g target = Some data"
proof -
  have "(is_ok r \<longrightarrow> temp \<notin> dom fs \<and> fs' = fs(target \<mapsto> data)) \<and>
      (\<not> is_ok r \<longrightarrow> fs' target = fs target) \<and>
      (\<forall>g \<in> set seen. g target = fs target \<or> g target = Some data)"
    using assms
    by (cases "wf_create f"; cases "wf_write f"; cases "wf_flush f"; cases "wf_sync f";
        cases "wf_rename f")
      (auto simp: replace_file_new_def replace_calls_def split: if_splits option.splits)
  then show "is_ok r \<Longrightarrow> temp \<notin> dom fs \<and> fs' = fs(target \<mapsto> data)"
    and "\<not> is_ok r \<Longrightarrow> fs' target = fs target"
    and "g \<in> set seen \<Longrightarrow> g target = fs target \<or> g target = Some data"
    by blast+
qed

lemma replace_file_new_frame:
  assumes "replace_file_new f temp target data fs = (r, fs', seen)" "q \<noteq> temp" "q \<noteq> target"
  shows "fs' q = fs q"
  using fs_run_frame [of "replace_calls f temp target data" "[fs]" fs r fs' seen q] assms
  by (auto simp: replace_file_new_def replace_calls_def)

end
