(* ===== verification/Cloudflare.thy ===== *)
theory Cloudflare
  imports Net Utf8 File_Sys
begin

text \<open>
  \<open>src/security/cloudflare.rs\<close>: the snapshot of Cloudflare networks that decides whether a peer is
  a trusted proxy, its text format, its download and the refresh of snapshot and cache file.  The
  TLS connection and its HTTP exchange are the parameter \<open>http_response\<close>; times and failures of
  file system calls are arguments.
\<close>

section \<open>Text of the published networks\<close>

definition refresh_age :: duration where "refresh_age = from_secs (30 * 24 * 60 * 60)"
definition cf_max_file_bytes :: nat where "cf_max_file_bytes = 256 * 1024"
definition cf_max_entries :: nat where "cf_max_entries = 4096"

text \<open>\<open>str::lines\<close>.\<close>

definition strip_cr :: "string \<Rightarrow> string" where
  "strip_cr l = (case strip_suffix [CHR 0x0D] l of Some t \<Rightarrow> t | None \<Rightarrow> l)"

definition str_lines :: "string \<Rightarrow> string list" where
  "str_lines s =
     (let ls = split_on (CHR 0x0A) s in
      map strip_cr (butlast ls) @ (if last ls = [] then [] else [last ls]))"

definition parse_ip_err :: "string \<Rightarrow> anyhow + ip_addr" where
  "parse_ip_err s = ok_or [''invalid IP address syntax''] (parse_ip s)"

definition parse_network_err :: "string \<Rightarrow> anyhow + ip_network" where
  "parse_network_err s = map_err (\<lambda>e. [e]) (ip_network_parse s)"

definition validate_line :: "bool \<Rightarrow> nat \<Rightarrow> string \<Rightarrow> anyhow + nat" where
  "validate_line ipv4 count value =
     and_then (ok_or [''CIDR prefix required''] (split_once (CHR ''/'') value)) (\<lambda>(address, _).
     and_then (parse_ip_err address) (\<lambda>address.
     if is_ipv4 address \<noteq> ipv4 then bail ''CF response contains the wrong IP family'' else
     and_then (parse_network_err value) (\<lambda>_.
     let count = count + 1 in
     if cf_max_entries < count then bail ''CF response has too many entries'' else Inr count)))"

definition validate_family :: "string \<Rightarrow> bool \<Rightarrow> anyhow + unit" where
  "validate_family source ipv4 =
     and_then
       (try_fold (validate_line ipv4) 0 (filter (\<lambda>l. l \<noteq> []) (map trim (str_lines source))))
       (\<lambda>count. if count = 0 then bail ''CF response is empty'' else Inr ())"

record cf_parse =
  cp_seen :: "string set"
  cp_networks :: "ip_network list"
  cp_has_v4 :: bool
  cp_has_v6 :: bool

definition cf_lines :: "string \<Rightarrow> string list" where
  "cf_lines source =
     filter (\<lambda>l. l \<noteq> []) (map (\<lambda>line. trim (hd (split_on (CHR ''#'') line))) (str_lines source))"

definition parse_line :: "cf_parse \<Rightarrow> string \<Rightarrow> anyhow + cf_parse" where
  "parse_line st value =
     (if value \<in> cp_seen st then bail ''duplicate CIDR in CF cache'' else
      let st = st\<lparr>cp_seen := insert value (cp_seen st)\<rparr> in
      and_then (ok_or [''CIDR prefix required''] (split_once (CHR ''/'') value)) (\<lambda>(address, _).
      and_then (parse_ip_err address) (\<lambda>address.
      let st = st\<lparr>cp_has_v4 := cp_has_v4 st \<or> is_ipv4 address,
                  cp_has_v6 := cp_has_v6 st \<or> \<not> is_ipv4 address\<rparr> in
      and_then (parse_network_err value) (\<lambda>network.
      let st = st\<lparr>cp_networks := cp_networks st @ [network]\<rparr> in
      if cf_max_entries < length (cp_networks st) then bail ''CF cache has too many entries''
      else Inr st))))"

definition parse_networks :: "string \<Rightarrow> anyhow + ip_network list" where
  "parse_networks source =
     (if cf_max_file_bytes < length source then bail ''CF cache exceeds 256 KiB'' else
      and_then (try_fold parse_line
          \<lparr> cp_seen = {}, cp_networks = [], cp_has_v4 = False, cp_has_v6 = False \<rparr>
          (cf_lines source)) (\<lambda>st.
      if \<not> cp_has_v4 st \<or> \<not> cp_has_v6 st then bail ''CF cache must contain both IP families''
      else Inr (cp_networks st)))"

declare cf_max_entries_def [eval_simps] cf_max_file_bytes_def [eval_simps] str_lines_def [eval_simps]
  strip_cr_def [eval_simps] parse_ip_err_def [eval_simps] parse_network_err_def [eval_simps]
  validate_line_def [eval_simps] validate_family_def [eval_simps] cf_lines_def [eval_simps]
  parse_line_def [eval_simps] parse_networks_def [eval_simps] bail_def [eval_simps]

section \<open>Download\<close>

text \<open>What a download sees of the exchange: the status and the frames of the body, \<open>None\<close> for a
  frame without data.\<close>

record http_response =
  hr_status :: nat
  hr_status_text :: string
  hr_frames :: "(anyhow + bytes option) list"

definition download_frame :: "bytes \<Rightarrow> anyhow + bytes option \<Rightarrow> anyhow + bytes" where
  "download_frame data frame =
     and_then frame (\<lambda>frame.
       case frame of
         None \<Rightarrow> Inr data
       | Some bytes \<Rightarrow>
           if cf_max_file_bytes < length data + length bytes
           then bail ''CF CIDR response exceeds 256 KiB''
           else Inr (data @ bytes))"

definition cf_download :: "http_response \<Rightarrow> bool \<Rightarrow> anyhow + string" where
  "cf_download response ipv4 =
     (if hr_status response \<noteq> 200 then
        bail (''CF CIDR download returned '' @ hr_status_text response
              @ '' (redirects are not followed)'')
      else
        and_then (try_fold download_frame [] (hr_frames response)) (\<lambda>data.
        and_then (if from_utf8 data = Utf8_Ok then Inr data
                  else bail ''invalid utf-8 sequence'') (\<lambda>source.
        and_then (validate_family source ipv4) (\<lambda>_. Inr (trim source)))))"

section \<open>Snapshot, cache file and refresh\<close>

record cloudflare_networks =
  cf_networks :: "ip_network list"
  cf_cache_file :: "path option"

definition cloudflare_contains :: "cloudflare_networks \<Rightarrow> ip_addr \<Rightarrow> bool" where
  "cloudflare_contains cf address \<longleftrightarrow>
     list_ex (\<lambda>network. ip_network_contains network address) (cf_networks cf)"

definition read_cache :: "io_error option \<Rightarrow> path \<Rightarrow> fs \<Rightarrow> anyhow + ip_network list" where
  "read_cache fault path fs =
     (case fault of
        Some e \<Rightarrow> Inl [io_message e]
      | None \<Rightarrow>
          (case fs path of
             None \<Rightarrow> Inl [io_message not_found]
           | Some content \<Rightarrow>
               let source = take (cf_max_file_bytes + 1) content in
               if from_utf8 source = Utf8_Ok then parse_networks source
               else bail ''stream did not contain valid UTF-8''))"

text \<open>\<open>SystemTime::duration_since\<close> fails for a time in the future.\<close>

definition cache_needs_refresh :: "nat \<Rightarrow> io_error + nat \<Rightarrow> bool" where
  "cache_needs_refresh now modified =
     (case modified of
        Inr modified \<Rightarrow> if modified \<le> now then refresh_age \<le> now - modified else True
      | Inl e \<Rightarrow> True)"

record persist_env =
  pe_mkdir :: "io_error + unit"
  pe_clock :: "anyhow + unit"
  pe_temp :: path
  pe_faults :: write_faults

text \<open>
  The temporary file is removed after a failure of any call behind its creation; whether that
  succeeds is ignored.
\<close>

definition persist_cache :: "persist_env \<Rightarrow> path \<Rightarrow> bytes \<Rightarrow> fs \<Rightarrow> (anyhow + unit) \<times> fs" where
  "persist_cache env path source fs =
     (case io_anyhow (pe_mkdir env) of
        Inl e \<Rightarrow> (Inl e, fs)
      | Inr _ \<Rightarrow>
        if path_file_name path = None then (Inl [''CF cache requires a filename''], fs) else
        (case pe_clock env of
           Inl e \<Rightarrow> (Inl e, fs)
         | Inr _ \<Rightarrow>
           (case replace_file_new (pe_faults env) (pe_temp env) path source fs of
              (Inr _, fs', _) \<Rightarrow> (Inr (), fs')
            | (Inl (0, e), fs', _) \<Rightarrow> (Inl [io_message e], fs')
            | (Inl (Suc n, e), fs', _) \<Rightarrow>
                (Inl [''failed to atomically persist CF CIDR cache'', io_message e],
                 snd (fs_step (wf_remove (pe_faults env)) (Fs_Remove (pe_temp env)) fs')))))"

definition cf_source :: "string \<Rightarrow> string \<Rightarrow> string" where
  "cf_source v4 v6 =
     ''# Managed by edge-gateway; official Cloudflare v4/v6 HTTPS sources'' @ [CHR 0x0A]
       @ v4 @ [CHR 0x0A] @ v6 @ [CHR 0x0A]"

text \<open>\<open>try_join!\<close>: both results, or the failure of one.\<close>

definition try_join :: "'e + 'a \<Rightarrow> 'e + 'b \<Rightarrow> 'e + 'a \<times> 'b" where
  "try_join a b = and_then a (\<lambda>a. and_then b (\<lambda>b. Inr (a, b)))"

definition cf_refresh ::
  "anyhow + string \<Rightarrow> anyhow + string \<Rightarrow> persist_env \<Rightarrow> cloudflare_networks \<Rightarrow> fs
   \<Rightarrow> (anyhow + unit) \<times> cloudflare_networks \<times> fs"
where
  "cf_refresh download_v4 download_v6 env cf fs =
     (case cf_cache_file cf of
        None \<Rightarrow> (Inr (), cf, fs)
      | Some path \<Rightarrow>
        (case try_join download_v4 download_v6 of
           Inl e \<Rightarrow> (Inl e, cf, fs)
         | Inr (v4, v6) \<Rightarrow>
           let source = cf_source v4 v6 in
           (case parse_networks source of
              Inl e \<Rightarrow> (Inl e, cf, fs)
            | Inr networks \<Rightarrow>
              (case persist_cache env path source fs of
                 (Inl e, fs') \<Rightarrow> (Inl e, cf, fs')
               | (Inr _, fs') \<Rightarrow> (Inr (), cf\<lparr>cf_networks := networks\<rparr>, fs')))))"

definition cf_load ::
  "io_error option \<Rightarrow> anyhow + string \<Rightarrow> anyhow + string \<Rightarrow> persist_env \<Rightarrow> path option \<Rightarrow> fs
   \<Rightarrow> (anyhow + cloudflare_networks) \<times> fs"
where
  "cf_load fault download_v4 download_v6 env cache_file fs =
     (let cf = \<lparr> cf_networks = [], cf_cache_file = cache_file \<rparr> in
      case cache_file of
        None \<Rightarrow> (Inr cf, fs)
      | Some path \<Rightarrow>
        (case read_cache fault path fs of
           Inr networks \<Rightarrow> (Inr (cf\<lparr>cf_networks := networks\<rparr>), fs)
         | Inl e \<Rightarrow>
           (case cf_refresh download_v4 download_v6 env cf fs of
              (Inl e, _, fs') \<Rightarrow>
                (add_context ''cannot establish initial Cloudflare CIDR snapshot'' (Inl e), fs')
            | (Inr _, cf', fs') \<Rightarrow> (Inr cf', fs'))))"

text \<open>One round of the maintenance task between two shutdown checks.\<close>

definition cf_maintain ::
  "nat \<Rightarrow> io_error + nat \<Rightarrow> anyhow + string \<Rightarrow> anyhow + string \<Rightarrow> persist_env
   \<Rightarrow> cloudflare_networks \<times> fs \<Rightarrow> cloudflare_networks \<times> fs"
where
  "cf_maintain now modified download_v4 download_v6 env st =
     (case st of (cf, fs) \<Rightarrow>
      if cf_cache_file cf = None then (cf, fs)
      else if cache_needs_refresh now modified
      then snd (cf_refresh download_v4 download_v6 env cf fs)
      else (cf, fs))"

section \<open>The parsed snapshot\<close>

fun network_is_v4 :: "ip_network \<Rightarrow> bool" where
  "network_is_v4 (Net_V4 n m) = True"
| "network_is_v4 (Net_V6 n m) = False"

lemma ip_network_parse_family:
  "ip_network_parse (address @ CHR ''/'' # prefix) = Inr n \<Longrightarrow> CHR ''/'' \<notin> set address \<Longrightarrow>
     parse_ip address = Some a \<Longrightarrow> network_is_v4 n = is_ipv4 a"
proof -
  assume n: "ip_network_parse (address @ CHR ''/'' # prefix) = Inr n"
    and a: "CHR ''/'' \<notin> set address" "parse_ip address = Some a"
  have s: "split_once (CHR ''/'') (address @ CHR ''/'' # prefix) = Some (address, prefix)"
    using a by simp
  from n a show ?thesis
    by (cases a) (auto simp: ip_network_parse_def s Let_def simp del: split_once_Some_iff
        split: if_splits)
qed

definition cf_parse_ok :: "string list \<Rightarrow> cf_parse \<Rightarrow> bool" where
  "cf_parse_ok lines st \<longleftrightarrow>
     cp_seen st = set lines \<and> distinct lines \<and>
     list_all2 (\<lambda>l n. ip_network_parse l = Inr n) lines (cp_networks st) \<and>
     length (cp_networks st) \<le> cf_max_entries \<and>
     cp_has_v4 st = list_ex network_is_v4 (cp_networks st) \<and>
     cp_has_v6 st = list_ex (\<lambda>n. \<not> network_is_v4 n) (cp_networks st)"

lemma parse_line_ok:
  assumes "cf_parse_ok lines st" "parse_line st l = Inr st'"
  shows "cf_parse_ok (lines @ [l]) st'"
proof -
  obtain address prefix a n where l: "l \<notin> cp_seen st" "l = address @ CHR ''/'' # prefix"
    "CHR ''/'' \<notin> set address" "parse_ip address = Some a" "ip_network_parse l = Inr n"
    "length (cp_networks st) < cf_max_entries"
    and st': "st' = \<lparr> cp_seen = insert l (cp_seen st), cp_networks = cp_networks st @ [n],
      cp_has_v4 = (cp_has_v4 st \<or> is_ipv4 a), cp_has_v6 = (cp_has_v6 st \<or> \<not> is_ipv4 a) \<rparr>"
    using assms(2)
    by (auto simp: parse_line_def Let_def parse_ip_err_def parse_network_err_def not_less
        split: if_splits)
  moreover have "network_is_v4 n = is_ipv4 a"
    using ip_network_parse_family l by blast
  ultimately show ?thesis
    using assms(1) by (auto simp: cf_parse_ok_def intro!: list_all2_appendI)
qed

lemma parse_networks_sound:
  assumes "parse_networks source = Inr networks"
  shows "list_all2 (\<lambda>l n. ip_network_parse l = Inr n) (cf_lines source) networks"
    and "distinct (cf_lines source)" and "length networks \<le> cf_max_entries"
    and "list_ex network_is_v4 networks" and "list_ex (\<lambda>n. \<not> network_is_v4 n) networks"
    and "length source \<le> cf_max_file_bytes"
proof -
  from assms obtain st where run: "try_fold parse_line
      \<lparr> cp_seen = {}, cp_networks = [], cp_has_v4 = False, cp_has_v6 = False \<rparr>
      (cf_lines source) = Inr st"
    and st: "cp_has_v4 st" "cp_has_v6 st" "networks = cp_networks st"
      "length source \<le> cf_max_file_bytes"
    by (auto simp: parse_networks_def not_less split: if_splits)
  have "cf_parse_ok ([] @ cf_lines source) st"
  proof (rule try_fold_invariant [OF run, where P = cf_parse_ok])
    show "cf_parse_ok [] \<lparr> cp_seen = {}, cp_networks = [], cp_has_v4 = False, cp_has_v6 = False \<rparr>"
      by (simp add: cf_parse_ok_def)
  qed (rule parse_line_ok)
  with st show "list_all2 (\<lambda>l n. ip_network_parse l = Inr n) (cf_lines source) networks"
    and "distinct (cf_lines source)" and "length networks \<le> cf_max_entries"
    and "list_ex network_is_v4 networks" and "list_ex (\<lambda>n. \<not> network_is_v4 n) networks"
    and "length source \<le> cf_max_file_bytes"
    by (auto simp: cf_parse_ok_def)
qed

section \<open>Snapshot and cache agree\<close>

lemma persist_cache_ok:
  assumes "persist_cache env path source fs = (Inr u, fs')" "pe_temp env \<noteq> path"
  shows "fs' = fs(path \<mapsto> source)"
  using assms replace_file_new_cases(1) [OF _ assms(2)]
  by (auto simp: persist_cache_def split: sum.splits prod.splits if_splits nat.splits)

lemma persist_cache_error:
  assumes "persist_cache env path source fs = (Inl e, fs')" "pe_temp env \<noteq> path"
  shows "fs' path = fs path"
proof -
  obtain r fs1 seen where run:
    "replace_file_new (pe_faults env) (pe_temp env) path source fs = (r, fs1, seen)"
    by (cases "replace_file_new (pe_faults env) (pe_temp env) path source fs")
  show ?thesis
  proof (cases r)
    case (Inr u)
    with assms run show ?thesis
      by (auto simp: persist_cache_def split: sum.splits if_splits)
  next
    case (Inl ne)
    then have "fs1 path = fs path"
      using replace_file_new_cases(2) [OF run assms(2)] by simp
    moreover have "snd (fs_step f (Fs_Remove (pe_temp env)) fs1) path = fs1 path" for f
      using fs_step_frame [of f "Fs_Remove (pe_temp env)" fs1] assms(2)
      by (cases "fs_step f (Fs_Remove (pe_temp env)) fs1") auto
    ultimately show ?thesis
      using assms run Inl
      by (cases ne; cases "fst ne") (auto simp: persist_cache_def split: sum.splits if_splits)
  qed
qed

lemma cf_refresh_keeps:
  assumes "cf_refresh v4 v6 env cf fs = (Inl e, cf', fs')" "cf_cache_file cf \<noteq> Some (pe_temp env)"
  shows "cf' = cf" and "\<And>p. cf_cache_file cf = Some p \<Longrightarrow> fs' p = fs p"
  using assms persist_cache_error
  by (auto simp: cf_refresh_def Let_def split: option.splits sum.splits prod.splits)

lemma from_utf8_cf_source:
  assumes "from_utf8 v4 = Utf8_Ok" "from_utf8 v6 = Utf8_Ok"
  shows "from_utf8 (cf_source v4 v6) = Utf8_Ok"
proof -
  have "from_utf8 (''# Managed by edge-gateway; official Cloudflare v4/v6 HTTPS sources'' @ [CHR 0x0A])
     = Utf8_Ok" (is "from_utf8 (?h @ _) = _")
    by (rule from_utf8_ascii) (simp add: is_ascii_def byte_def)
  moreover have "from_utf8 [CHR 0x0A] = Utf8_Ok"
    by (rule from_utf8_ascii) (simp add: is_ascii_def byte_def)
  moreover have "cf_source v4 v6 = (?h @ [CHR 0x0A]) @ v4 @ [CHR 0x0A] @ v6 @ [CHR 0x0A]"
    by (simp add: cf_source_def)
  ultimately show ?thesis
    using assms by (simp only: from_utf8_append_Ok shift_result.simps)
qed

lemma cf_refresh_restart:
  assumes "cf_refresh (Inr v4) (Inr v6) env cf fs = (Inr u, cf', fs')"
    and "cf_cache_file cf = Some path" "pe_temp env \<noteq> path"
    and "from_utf8 v4 = Utf8_Ok" "from_utf8 v6 = Utf8_Ok"
  shows "read_cache None path fs' = Inr (cf_networks cf')" and "cf_cache_file cf' = Some path"
proof -
  let ?source = "cf_source v4 v6"
  from assms obtain networks where n: "parse_networks ?source = Inr networks"
    and p: "persist_cache env path ?source fs = (Inr (), fs')"
    and cf': "cf' = cf\<lparr>cf_networks := networks\<rparr>"
    by (auto simp: cf_refresh_def try_join_def Let_def split: sum.splits prod.splits)
  have "fs' path = Some ?source"
    using persist_cache_ok [OF p assms(3)] by simp
  moreover have "take (cf_max_file_bytes + 1) ?source = ?source"
    using parse_networks_sound(6) [OF n] by simp
  ultimately show "read_cache None path fs' = Inr (cf_networks cf')"
    using n from_utf8_cf_source [OF assms(4,5)] by (simp add: read_cache_def cf')
  show "cf_cache_file cf' = Some path"
    using assms(2) by (simp add: cf')
qed

text \<open>The snapshot of a gateway that runs: every network of it was published by a full, valid text.\<close>

definition cf_valid :: "cloudflare_networks \<Rightarrow> bool" where
  "cf_valid cf \<longleftrightarrow>
     (cf_cache_file cf = None \<and> cf_networks cf = []) \<or>
     (cf_cache_file cf \<noteq> None \<and> (\<exists>source. parse_networks source = Inr (cf_networks cf)))"

lemma cf_refresh_valid:
  "cf_refresh v4 v6 env cf fs = (r, cf', fs') \<Longrightarrow> cf_valid cf \<or> is_ok r \<and> cf_networks cf = [] \<Longrightarrow>
     cf_valid cf'"
  by (auto simp: cf_refresh_def cf_valid_def Let_def split: option.splits sum.splits prod.splits)

lemma cf_load_valid:
  assumes "cf_load fault v4 v6 env cache_file fs = (Inr cf, fs')"
  shows "cf_valid cf"
proof (cases cache_file)
  case None
  with assms show ?thesis by (auto simp: cf_load_def cf_valid_def)
next
  case (Some path)
  show ?thesis
  proof (cases "read_cache fault path fs")
    case (Inr networks)
    with assms Some show ?thesis
      by (auto simp: cf_load_def cf_valid_def read_cache_def Let_def bail_def
          split: option.splits if_splits)
  next
    case (Inl e)
    with assms Some show ?thesis
      by (auto simp: cf_load_def add_context_def split: sum.splits prod.splits
          intro: cf_refresh_valid)
  qed
qed

lemma cf_maintain_valid:
  "cf_valid (fst st) \<Longrightarrow> cf_valid (fst (cf_maintain now modified v4 v6 env st))"
  by (auto simp: cf_maintain_def split: prod.splits intro: cf_refresh_valid)
    (metis cf_refresh_valid fst_conv prod.collapse)

lemma cf_valid_facts:
  assumes "cf_valid cf"
  shows "cf_cache_file cf = None \<and> cf_networks cf = [] \<or>
    (\<exists>source. list_all2 (\<lambda>l n. ip_network_parse l = Inr n) (cf_lines source) (cf_networks cf) \<and>
       distinct (cf_lines source) \<and> length (cf_networks cf) \<le> cf_max_entries \<and>
       list_ex network_is_v4 (cf_networks cf) \<and> list_ex (\<lambda>n. \<not> network_is_v4 n) (cf_networks cf))"
  using assms unfolding cf_valid_def
proof (elim disjE conjE exE)
  fix source
  assume p: "parse_networks source = Inr (cf_networks cf)"
  note sound = parse_networks_sound [OF p]
  show ?thesis by (intro disjI2 exI [of _ source] conjI sound)
qed simp

text \<open>A refresh or a load never changes which cache file the networks belong to.\<close>

lemma cf_refresh_cache_file:
  "cf_refresh v4 v6 env cf fs = (r, cf', fs') \<Longrightarrow> cf_cache_file cf' = cf_cache_file cf"
  by (auto simp: cf_refresh_def Let_def split: option.splits sum.splits prod.splits)

lemma cf_load_cache_file:
  assumes "cf_load fault v4 v6 env cache_file fs = (Inr cf, fs')"
  shows "cf_cache_file cf = cache_file"
  using assms
  by (auto simp: cf_load_def Let_def add_context_def dest!: cf_refresh_cache_file
      split: option.splits sum.splits prod.splits)

end
