(* ===== verification/Client_Address.thy ===== *)
theory Client_Address
  imports Cloudflare Http_Lib
begin

text \<open>
  \<open>src/security/client_address.rs\<close>: which address a request counts as its client
  (\<open>resolve_client_address\<close>) and the rewriting of the address headers before a request is forwarded
  (\<open>sanitize_client_address_headers\<close>).
\<close>

section \<open>Client addresses\<close>

record route_security =
  cloudflare_only :: bool

record resolved_client_address =
  ra_peer :: socket_addr
  ra_client_ip :: ip_addr
  ra_client_ip_source :: string
  ra_trusted_proxy :: bool

record client_address_policy =
  ca_cloudflare :: cloudflare_networks
  ca_health_peer_networks :: "ip_network list"

definition permits_health_peer :: "client_address_policy \<Rightarrow> socket_addr \<Rightarrow> bool" where
  "permits_health_peer policy peer \<longleftrightarrow>
     list_ex (\<lambda>n. ip_network_contains n (sa_ip peer)) (ca_health_peer_networks policy)"

definition resolve_client_address ::
  "('h, 'm) http_lib_scheme \<Rightarrow> client_address_policy \<Rightarrow> socket_addr \<Rightarrow> 'h \<Rightarrow> route_security
   \<Rightarrow> string + resolved_client_address"
where
  "resolve_client_address lib policy peer headers security =
     (let trusted_proxy = cloudflare_contains (ca_cloudflare policy) (sa_ip peer) in
      if \<not> trusted_proxy then
        (if cloudflare_only security then Inl ''route requires a Cloudflare origin peer''
         else Inr \<lparr> ra_peer = peer, ra_client_ip = normalize_ip (sa_ip peer),
                    ra_client_ip_source = ''direct_peer'', ra_trusted_proxy = False \<rparr>)
      else
        let values = hm_get_all lib headers ''cf-connecting-ip'' in
        case values of
          [] \<Rightarrow> Inl ''missing CF-Connecting-IP from trusted CF peer''
        | value # others \<Rightarrow>
            if others \<noteq> [] then Inl ''multiple CF-Connecting-IP headers''
            else and_then (ok_or ''invalid CF-Connecting-IP'' (hv_to_str lib value)) (\<lambda>value.
              and_then (ok_or ''invalid CF-Connecting-IP'' (parse_ip value)) (\<lambda>address.
                Inr \<lparr> ra_peer = peer, ra_client_ip = normalize_ip address,
                      ra_client_ip_source = ''cf_connecting_ip'', ra_trusted_proxy = True \<rparr>)))"

section \<open>Address headers\<close>

definition address_headers :: "string list" where
  "address_headers =
     [''cf-connecting-ip'', ''cf-connecting-ipv6'', ''true-client-ip'', ''x-real-ip'', ''forwarded'',
      ''x-original-url'', ''x-rewrite-url'']"

definition internal_name :: "string \<Rightarrow> bool" where
  "internal_name name \<longleftrightarrow> starts_with name ''x-edge-gateway-'' \<or> starts_with name ''x-forwarded-''"

definition sanitize_client_address_headers ::
  "('h, 'm) http_lib_scheme \<Rightarrow> 'h \<Rightarrow> resolved_client_address \<Rightarrow> 'h"
where
  "sanitize_client_address_headers lib headers address =
     (let protocols = hm_get_all lib headers ''x-forwarded-proto'';
          protocol = (case protocols of [] \<Rightarrow> None | value # _ \<Rightarrow> hv_to_str lib value);
          is_http = (ra_trusted_proxy address \<and> protocol = Some ''http'' \<and> length protocols \<le> 1);
          headers = hm_remove_all lib headers (filter internal_name (hm_keys lib headers));
          headers = hm_remove_all lib headers address_headers;
          headers =
            (if ra_trusted_proxy address then headers
             else hm_remove_all lib headers
                    (filter (\<lambda>name. starts_with name ''cf-'') (hm_keys lib headers)));
          headers =
            (case hv_from_str lib (show_ip (ra_client_ip address)) of
               None \<Rightarrow> headers
             | Some value \<Rightarrow>
                 let headers = hm_insert lib headers ''x-forwarded-for'' value;
                     headers = hm_insert lib headers ''x-real-ip'' value in
                 if ra_trusted_proxy address then hm_insert lib headers ''cf-connecting-ip'' value
                 else headers)
      in hm_insert lib headers ''x-forwarded-proto'' (if is_http then ''http'' else ''https''))"

declare resolve_client_address_def [eval_simps] permits_health_peer_def [eval_simps]
  cloudflare_contains_def [eval_simps] address_headers_def [eval_simps]
  internal_name_def [eval_simps] sanitize_client_address_headers_def [eval_simps]

section \<open>The client of a request\<close>

text \<open>
  Only a peer inside a Cloudflare network speaks for another address, and then with exactly one
  well-formed header; every other peer is its own client.
\<close>

lemma resolve_client_address_cases:
  assumes "resolve_client_address lib policy peer headers security = Inr address"
  shows "ra_peer address = peer"
    and "ra_trusted_proxy address \<longleftrightarrow> cloudflare_contains (ca_cloudflare policy) (sa_ip peer)"
    and "\<not> ra_trusted_proxy address \<Longrightarrow>
           ra_client_ip address = normalize_ip (sa_ip peer) \<and> \<not> cloudflare_only security"
    and "ra_trusted_proxy address \<Longrightarrow> \<exists>value s ip.
           hm_get_all lib headers ''cf-connecting-ip'' = [value] \<and> hv_to_str lib value = Some s \<and>
           parse_ip s = Some ip \<and> ra_client_ip address = normalize_ip ip"
    and "normalize_ip (ra_client_ip address) = ra_client_ip address"
  using assms
  by (auto simp: resolve_client_address_def Let_def split: if_splits list.splits)

lemma resolve_client_address_spoofed:
  assumes "\<not> cloudflare_contains (ca_cloudflare policy) (sa_ip peer)"
  shows "resolve_client_address lib policy peer headers security =
     resolve_client_address lib policy peer headers' security"
  using assms by (simp add: resolve_client_address_def)

text \<open>
  What the published text says of an address, line by line and bit by bit: after mapping IPv4-in-IPv6
  addresses to IPv4 it agrees with the address of some line in as many leading bits as the line says.
\<close>

definition published_for :: "string \<Rightarrow> ip_addr \<Rightarrow> bool" where
  "published_for source a \<longleftrightarrow>
     (\<exists>address prefix b p. address @ CHR ''/'' # prefix \<in> set (cf_lines source) \<and> CHR ''/'' \<notin> set address \<and>
        parse_ip address = Some b \<and> parse_unsigned u32_max prefix = Some p \<and> same_prefix p b (normalize_ip a))"

lemma parsed_line_contains:
  assumes "ip_network_parse l = Inr n"
  shows "ip_network_contains n a \<longleftrightarrow>
    (\<exists>address prefix b p. l = address @ CHR ''/'' # prefix \<and> CHR ''/'' \<notin> set address \<and>
       parse_ip address = Some b \<and> parse_unsigned u32_max prefix = Some p \<and> same_prefix p b (normalize_ip a))"
proof -
  obtain address prefix b p where l: "l = address @ CHR ''/'' # prefix" "CHR ''/'' \<notin> set address"
    "parse_ip address = Some b" "parse_unsigned u32_max prefix = Some p"
    and c: "ip_network_contains n a \<longleftrightarrow> same_prefix p b (normalize_ip a)"
    using ip_network_parse_contains [OF assms] by (metis append_Cons append_Nil)
  have split: "split_once (CHR ''/'') l = Some (address, prefix)" using l by simp
  have "address' = address \<and> prefix' = prefix" if "l = address' @ CHR ''/'' # prefix'" "CHR ''/'' \<notin> set address'" for address' prefix'
  proof -
    have "split_once (CHR ''/'') l = Some (address', prefix')" using that by simp
    with split show ?thesis by (simp del: split_once_Some_iff)
  qed
  with l c show ?thesis by (metis option.inject)
qed

lemma list_all2_partner:
  assumes "list_all2 P xs ys"
  shows "x \<in> set xs \<Longrightarrow> \<exists>y \<in> set ys. P x y" and "y \<in> set ys \<Longrightarrow> \<exists>x \<in> set xs. P x y"
  using assms by (induction rule: list_all2_induct) auto

lemma cloudflare_contains_published:
  assumes "parse_networks source = Inr (cf_networks cf)"
  shows "cloudflare_contains cf a \<longleftrightarrow> published_for source a"
proof -
  note lines = parse_networks_sound(1) [OF assms]
  have parsed: "\<exists>n \<in> set (cf_networks cf). ip_network_parse l = Inr n" if "l \<in> set (cf_lines source)" for l
    by (rule list_all2_partner(1) [OF lines that])
  have written: "\<exists>l \<in> set (cf_lines source). ip_network_parse l = Inr n" if "n \<in> set (cf_networks cf)" for n
    by (rule list_all2_partner(2) [OF lines that])
  show ?thesis
  proof
    assume "cloudflare_contains cf a"
    then obtain n where "n \<in> set (cf_networks cf)" "ip_network_contains n a"
      by (auto simp: cloudflare_contains_def list_ex_iff)
    with written obtain l where "l \<in> set (cf_lines source)" "ip_network_parse l = Inr n" by blast
    with \<open>ip_network_contains n a\<close> show "published_for source a"
      unfolding published_for_def parsed_line_contains [OF \<open>ip_network_parse l = Inr n\<close>] by blast
  next
    assume "published_for source a"
    then obtain l where l: "l \<in> set (cf_lines source)"
      "\<exists>address prefix b p. l = address @ CHR ''/'' # prefix \<and> CHR ''/'' \<notin> set address \<and>
         parse_ip address = Some b \<and> parse_unsigned u32_max prefix = Some p \<and> same_prefix p b (normalize_ip a)"
      unfolding published_for_def by blast
    from parsed [OF l(1)] obtain n where n: "n \<in> set (cf_networks cf)" "ip_network_parse l = Inr n" by blast
    with l(2) have "ip_network_contains n a" using parsed_line_contains [OF n(2)] by blast
    with n(1) show "cloudflare_contains cf a" by (auto simp: cloudflare_contains_def list_ex_iff)
  qed
qed

text \<open>No resolved client is an IPv4 address in IPv6 clothes.\<close>

lemma normalized_not_mapped: "normalize_ip ip \<noteq> V6 (ipv4_mapped v4)"
  by (metis normalize_ip_idem normalize_ip_mapped ip_addr.distinct(1))

section \<open>Printed addresses are header values\<close>

lemma join_graphic:
  "list_all is_graphic sep \<Longrightarrow> \<forall>x \<in> set xs. list_all is_graphic x \<Longrightarrow> list_all is_graphic (join sep xs)"
  by (induction sep xs rule: join.induct) auto

lemma show_nat_graphic: "list_all is_graphic (show_nat n)"
  using show_nat_digits by (fastforce simp: list_all_iff is_graphic_def is_ascii_digit_def)

lemma show_hex_graphic: "list_all is_graphic (show_hex n)"
proof (induction n rule: show_hex.induct)
  case (1 n)
  have d: "is_graphic (if k < 10 then char_of (48 + k) else char_of (87 + k))" if "k < 16" for k :: nat
    using that by (simp add: is_graphic_def)
  show ?case
  proof (cases "n < 16")
    case True
    then show ?thesis using d [of n] by (simp add: show_hex.simps [of n])
  next
    case False
    with 1 d [of "n mod 16"] show ?thesis by (simp add: show_hex.simps [of n])
  qed
qed

lemma show_ip_graphic: "list_all is_graphic (show_ip ip)"
proof -
  have dot: "list_all is_graphic ''.''" "list_all is_graphic '':''" "list_all is_graphic ''::''"
    "list_all is_graphic ''::ffff:''"
    by (simp_all add: is_graphic_def byte_def)
  have v4: "list_all is_graphic (show_ipv4 a)" for a
    using dot by (auto simp: show_ipv4_def intro!: join_graphic show_nat_graphic)
  have hex: "list_all is_graphic (join '':'' (map show_hex xs))" for xs
    using dot by (auto intro!: join_graphic show_hex_graphic)
  show ?thesis
    using v4 hex dot
    by (cases ip) (auto simp: show_ipv6_def Let_def split: option.splits prod.splits)
qed

section \<open>Forwarded headers\<close>

text \<open>The fields a forwarded request may not bring along from outside.\<close>

definition dropped_name :: "bool \<Rightarrow> string \<Rightarrow> bool" where
  "dropped_name trusted name \<longleftrightarrow>
     internal_name name \<or> name \<in> set address_headers \<or> (\<not> trusted \<and> starts_with name ''cf-'')"

context header_map
begin

lemma get_all_remove_filtered:
  "hm_get_all lib (hm_remove_all lib h (filter P (hm_keys lib h))) n =
     (if P n then [] else hm_get_all lib h n)"
  by (auto simp: keys_iff)

lemma sanitize_get_all:
  obtains w where "hv_to_str lib w = Some (show_ip (ra_client_ip address))"
    and "\<And>n. hm_get_all lib (sanitize_client_address_headers lib h address) n =
      (if n = ''x-forwarded-proto'' then
         [if ra_trusted_proxy address \<and>
             (\<exists>v. hm_get_all lib h n = [v] \<and> hv_to_str lib v = Some ''http'')
          then ''http'' else ''https'']
       else if n = ''x-forwarded-for'' \<or> n = ''x-real-ip'' then [w]
       else if n = ''cf-connecting-ip'' \<and> ra_trusted_proxy address then [w]
       else if dropped_name (ra_trusted_proxy address) n then []
       else hm_get_all lib h n)"
proof -
  obtain w where v: "hv_from_str lib (show_ip (ra_client_ip address)) = Some w"
    using from_str_visible show_ip_graphic by blast
  have http: "(case hm_get_all lib h n of [] \<Rightarrow> None | x # _ \<Rightarrow> hv_to_str lib x) = Some ''http''
       \<and> length (hm_get_all lib h n) \<le> 1 \<longleftrightarrow>
      (\<exists>x. hm_get_all lib h n = [x] \<and> hv_to_str lib x = Some ''http'')" for n
    by (auto split: list.splits)
  define h1 where "h1 = hm_remove_all lib h (filter internal_name (hm_keys lib h))"
  define h2 where "h2 = hm_remove_all lib h1 address_headers"
  define h3 where "h3 = (if ra_trusted_proxy address then h2
    else hm_remove_all lib h2 (filter (\<lambda>name. starts_with name ''cf-'') (hm_keys lib h2)))"
  have h3: "hm_get_all lib h3 n =
      (if dropped_name (ra_trusted_proxy address) n then [] else hm_get_all lib h n)" for n
  proof -
    have "hm_get_all lib h1 n = (if internal_name n then [] else hm_get_all lib h n)" for n
      by (simp only: h1_def get_all_remove_filtered)
    then have "hm_get_all lib h2 n =
        (if internal_name n \<or> n \<in> set address_headers then [] else hm_get_all lib h n)" for n
      by (simp add: h2_def)
    then show ?thesis
      unfolding h3_def dropped_name_def by (simp only: if_distrib [where f = "\<lambda>h. hm_get_all lib h n"]
        get_all_remove_filtered) simp
  qed
  have "hm_get_all lib (sanitize_client_address_headers lib h address) n =
      (if n = ''x-forwarded-proto'' then
         [if ra_trusted_proxy address \<and>
             (\<exists>v. hm_get_all lib h n = [v] \<and> hv_to_str lib v = Some ''http'')
          then ''http'' else ''https'']
       else if n = ''x-forwarded-for'' \<or> n = ''x-real-ip'' then [w]
       else if n = ''cf-connecting-ip'' \<and> ra_trusted_proxy address then [w]
       else if dropped_name (ra_trusted_proxy address) n then []
       else hm_get_all lib h n)" for n
    unfolding sanitize_client_address_headers_def Let_def v option.case
      h1_def [symmetric] h2_def [symmetric] h3_def [symmetric] http
    by (simp add: h3)
  with to_str_from_str [OF v] that show thesis by blast
qed

end

end
