(* ===== verification/Host_Tables.thy ===== *)
theory Host_Tables
  imports Routing Utf8 "HOL-Library.AList"
begin

text \<open>
  What the three route tables share: the two-level table host/path the code keeps as
  \<open>HashMap<String, HashMap<..>>\<close> (association lists in some iteration order), and the contract of a
  route table, which all three provide.
\<close>

section \<open>Tables by host and path\<close>

type_synonym 'r path_table = "(string \<times> 'r) list"
type_synonym 'r host_table = "(string \<times> 'r path_table) list"

definition host_lookup :: "'r host_table \<Rightarrow> string \<Rightarrow> string \<Rightarrow> 'r option" where
  "host_lookup t host path =
     (case map_of t host of None \<Rightarrow> None | Some paths \<Rightarrow> map_of paths path)"

text \<open>\<open>entry(host).or_default().insert(path, route)\<close>.\<close>

definition host_insert :: "string \<Rightarrow> string \<Rightarrow> 'r \<Rightarrow> 'r host_table \<Rightarrow> 'r host_table" where
  "host_insert host path route t =
     (let paths = (case map_of t host of Some paths \<Rightarrow> paths | None \<Rightarrow> []) in
      AList.update host (AList.update path route paths) t)"

definition host_routes :: "'r host_table \<Rightarrow> 'r list" where
  "host_routes t = concat (map (\<lambda>(host, paths). map snd paths) t)"

declare host_lookup_def [eval_simps] host_insert_def [eval_simps] host_routes_def [eval_simps]

lemma host_lookup_Nil [simp]: "host_lookup [] h p = None"
  by (simp add: host_lookup_def)

lemma host_lookup_insert [simp]:
  "host_lookup (host_insert h p r t) h' p' =
     (if h' = h \<and> p' = p then Some r else host_lookup t h' p')"
  by (auto simp: host_lookup_def host_insert_def Let_def update_conv' split: option.splits)

definition host_table_ok :: "'r host_table \<Rightarrow> bool" where
  "host_table_ok t \<longleftrightarrow> distinct (map fst t) \<and> (\<forall>x \<in> set t. distinct (map fst (snd x)))"

lemma host_table_ok_Nil [simp]: "host_table_ok []"
  by (simp add: host_table_ok_def)

lemma host_table_ok_insert:
  assumes "host_table_ok t"
  shows "host_table_ok (host_insert h p r t)"
proof -
  let ?paths = "case map_of t h of Some paths \<Rightarrow> paths | None \<Rightarrow> []"
  have "distinct (map fst ?paths)"
    using assms by (auto simp: host_table_ok_def dest!: map_of_SomeD split: option.splits)
  then have "distinct (map fst (AList.update p r ?paths))"
    by (rule distinct_update)
  moreover have "x \<in> set (AList.update h w t) \<Longrightarrow> x = (h, w) \<or> x \<in> set t" for x w
    by (induction t) (auto split: if_splits)
  ultimately show ?thesis
    using assms unfolding host_table_ok_def host_insert_def Let_def
    by (metis distinct_update snd_conv)
qed

lemma host_routes_iff:
  assumes "host_table_ok t"
  shows "r \<in> set (host_routes t) \<longleftrightarrow> (\<exists>h p. host_lookup t h p = Some r)"
proof
  assume "r \<in> set (host_routes t)"
  then obtain h paths p where "(h, paths) \<in> set t" "(p, r) \<in> set paths"
    by (auto simp: host_routes_def)
  moreover from this have "map_of t h = Some paths" "map_of paths p = Some r"
    using assms by (auto simp: host_table_ok_def)
  ultimately show "\<exists>h p. host_lookup t h p = Some r"
    by (intro exI [of _ h] exI [of _ p]) (simp add: host_lookup_def)
next
  assume "\<exists>h p. host_lookup t h p = Some r"
  then show "r \<in> set (host_routes t)"
    by (force simp: host_lookup_def host_routes_def dest!: map_of_SomeD split: option.splits)
qed

section \<open>The contract of a route table\<close>

text \<open>
  \<open>key\<close> gives what a specification is looked up by (its normalised host, its path and, for HTTP
  routes, the kind of match), \<open>compile\<close> the route it turns into.  A table that builds has at most
  one specification for a key, enabled or not, and finds exactly the enabled ones.
\<close>

locale keyed_routes =
  fixes build :: "'s list \<Rightarrow> 'e + 't"
    and resolve :: "'t \<Rightarrow> 'k \<Rightarrow> 'r option"
    and enabled :: "'s \<Rightarrow> bool"
    and key :: "'s \<Rightarrow> 'k option"
    and compile :: "'s \<Rightarrow> 'r option"
  assumes resolve_build: "build specs = Inr t \<Longrightarrow>
      resolve t k = Some r \<longleftrightarrow>
        (\<exists>s \<in> set specs. enabled s \<and> key s = Some k \<and> compile s = Some r)"
    and compile_build: "build specs = Inr t \<Longrightarrow> s \<in> set specs \<Longrightarrow> compile s \<noteq> None \<and> key s \<noteq> None"
    and distinct_build: "build specs = Inr t \<Longrightarrow> distinct (map key specs)"
begin

lemma resolve_enabled:
  assumes "build specs = Inr t" "s \<in> set specs" "enabled s" "key s = Some k"
  shows "resolve t k = compile s"
proof -
  from compile_build [OF assms(1,2)] obtain r where r: "compile s = Some r" by blast
  with assms have "resolve t k = Some r"
    using resolve_build [OF assms(1)] by blast
  with r show ?thesis by simp
qed

lemma resolve_disabled:
  assumes "build specs = Inr t" "s \<in> set specs" "\<not> enabled s" "key s = Some k"
  shows "resolve t k = None"
proof (rule ccontr)
  assume "resolve t k \<noteq> None"
  then obtain s' where s': "s' \<in> set specs" "enabled s'" "key s' = Some k"
    using resolve_build [OF assms(1)] by blast
  from distinct_build [OF assms(1)] have "inj_on key (set specs)"
    by (simp add: distinct_map)
  then have "s' = s"
    by (rule inj_onD) (use s' assms in simp_all)
  with s' assms show False by simp
qed

lemma resolve_unknown:
  assumes "build specs = Inr t" "\<forall>s \<in> set specs. key s \<noteq> Some k"
  shows "resolve t k = None"
proof (cases "resolve t k")
  case (Some r)
  with resolve_build [OF assms(1)] assms(2) show ?thesis by blast
qed

lemma resolve_order:
  assumes "build specs = Inr t" "build specs' = Inr t'" "set specs = set specs'"
  shows "resolve t k = resolve t' k"
proof -
  have "resolve t k = Some r \<longleftrightarrow> resolve t' k = Some r" for r
    using resolve_build [OF assms(1)] resolve_build [OF assms(2)] assms(3) by simp
  then show ?thesis by (metis option.exhaust)
qed

end

end
