(* ===== verification/Route_Table.thy ===== *)
theory Route_Table
  imports Host_Tables Client_Address
begin

text \<open>
  \<open>src/routes/table.rs\<close>: the table of WebSocket routes, its validation and its backends.  URL
  parsing is the \<open>uri_parse\<close> operation of the \<open>http_lib\<close> parameter.
\<close>

section \<open>Routes and errors\<close>

datatype websocket_query = Query_Backend | Query_Preserve

record websocket_handshake_config =
  forward_cookie :: bool
  forward_origin :: bool
  wh_query :: websocket_query

definition default_handshake :: websocket_handshake_config where
  "default_handshake =
     \<lparr> forward_cookie = True, forward_origin = True, wh_query = Query_Backend \<rparr>"

record route_spec =
  rs_id :: string
  rs_host :: string
  rs_path :: string
  rs_backend :: string
  rs_enabled :: bool
  rs_security :: route_security
  rs_handshake :: websocket_handshake_config

datatype route_namespace = Pc | Mobile | Uat | Custom

fun namespace_str :: "route_namespace \<Rightarrow> string" where
  "namespace_str Pc = ''pc''"
| "namespace_str Mobile = ''mob''"
| "namespace_str Uat = ''uat''"
| "namespace_str Custom = ''custom''"

datatype backend_kind = Kind_Websocket | Kind_Tcp

record websocket_backend =
  wb_display :: string
  wb_address :: socket_addr
  wb_request_target :: uri
  wb_host_header :: bytes

record tcp_backend =
  tb_display :: string
  tb_address :: socket_addr

datatype backend_endpoint = Backend_Websocket websocket_backend | Backend_Tcp tcp_backend

fun kind_of_backend :: "backend_endpoint \<Rightarrow> backend_kind" where
  "kind_of_backend (Backend_Websocket b) = Kind_Websocket"
| "kind_of_backend (Backend_Tcp b) = Kind_Tcp"

fun backend_address :: "backend_endpoint \<Rightarrow> socket_addr" where
  "backend_address (Backend_Websocket b) = wb_address b"
| "backend_address (Backend_Tcp b) = tb_address b"

fun backend_display :: "backend_endpoint \<Rightarrow> string" where
  "backend_display (Backend_Websocket b) = wb_display b"
| "backend_display (Backend_Tcp b) = tb_display b"

fun backend_websocket :: "backend_endpoint \<Rightarrow> websocket_backend option" where
  "backend_websocket (Backend_Websocket b) = Some b"
| "backend_websocket (Backend_Tcp b) = None"

record route =
  rt_id :: string
  rt_host :: string
  rt_path :: string
  rt_namespace :: route_namespace
  rt_backend :: backend_endpoint
  rt_security :: route_security
  rt_handshake :: websocket_handshake_config

datatype route_error =
    Empty_Id
  | Id_Too_Long string
  | Invalid_Id string
  | Invalid_Path string
  | Path_Too_Long string
  | Duplicate_Id string
  | Duplicate_Host_Path string string
  | Invalid_Host string string
  | Invalid_Backend string string

section \<open>Validation\<close>

definition max_route_id_length :: nat where "max_route_id_length = 128"
definition max_route_path_length :: nat where "max_route_path_length = 2048"

definition validate_id :: "string \<Rightarrow> route_error + unit" where
  "validate_id i =
     (if i = [] then Inl Empty_Id
      else if max_route_id_length < length i then Inl (Id_Too_Long i)
      else if any_char is_whitespace i \<or> any_char is_control i then Inl (Invalid_Id i)
      else Inr ())"

definition validate_public_path :: "string \<Rightarrow> route_error + route_namespace" where
  "validate_public_path path =
     (if max_route_path_length < length path then Inl (Path_Too_Long path)
      else if \<not> starts_with path ''/'' \<or> contains_any [CHR ''?'', CHR ''#'', CHR 0x5C] path
           \<or> any_char is_whitespace path \<or> any_char is_control path then Inl (Invalid_Path path)
      else if path \<noteq> ''/'' \<and>
           list_ex (\<lambda>segment. segment = [] \<or> segment = ''.'' \<or> segment = ''..'')
             (split_on (CHR ''/'') (drop 1 path)) then Inl (Invalid_Path path)
      else if starts_with path ''/api/pc/'' then Inr Pc
      else if starts_with path ''/api/mob/'' then Inr Mobile
      else if starts_with path ''/api/uat/'' then Inr Uat
      else Inr Custom)"

definition trim_brackets :: "string \<Rightarrow> string" where
  "trim_brackets host = trim_end_matches (CHR '']'') (trim_start_matches (CHR ''['') host)"

definition parse_loopback_authority ::
  "string \<Rightarrow> uri \<Rightarrow> nat option \<Rightarrow> bool \<Rightarrow> route_error + socket_addr \<times> string"
where
  "parse_loopback_authority v uri default_port require_explicit_port =
     (let invalid = Invalid_Backend v in
      and_then (ok_or (invalid ''authority is required'') (u_authority uri)) (\<lambda>authority.
      if CHR ''@'' \<in> set authority then Inl (invalid ''userinfo is not allowed'') else
      and_then (ok_or (invalid ''host is required'') (u_host uri)) (\<lambda>host.
      and_then (ok_or (invalid ''host must be an IPv4 or IPv6 loopback address'')
          (parse_ip (trim_brackets host))) (\<lambda>ip.
      if \<not> is_loopback ip then Inl (invalid ''host must be a loopback address'') else
      and_then
        (case u_port uri of
           Some port \<Rightarrow> Inr port
         | None \<Rightarrow>
             if require_explicit_port then Inl (invalid ''an explicit port is required'')
             else ok_or (invalid ''an explicit port is required'') default_port) (\<lambda>port.
      if port = 0 then Inl (invalid ''port must not be zero'')
      else Inr (\<lparr> sa_ip = ip, sa_port = port \<rparr>, authority))))))"

definition path_and_query_or_root :: "uri \<Rightarrow> string" where
  "path_and_query_or_root uri = (case u_path_and_query uri of Some s \<Rightarrow> s | None \<Rightarrow> ''/'')"

definition websocket_backend_from_uri ::
  "('h, 'm) http_lib_scheme \<Rightarrow> string \<Rightarrow> uri \<Rightarrow> route_error + websocket_backend"
where
  "websocket_backend_from_uri lib v uri =
     and_then (parse_loopback_authority v uri (Some 80) False) (\<lambda>(address, authority).
     and_then (map_err (\<lambda>e. Invalid_Backend v (''invalid request target: '' @ e))
         (uri_parse lib (path_and_query_or_root uri))) (\<lambda>request_target.
     and_then (ok_or (Invalid_Backend v (''invalid authority: '' @ hv_invalid lib))
         (hv_from_str lib authority)) (\<lambda>host_header.
     Inr \<lparr> wb_display = v, wb_address = address, wb_request_target = request_target,
           wb_host_header = host_header \<rparr>)))"

definition tcp_backend_from_uri :: "string \<Rightarrow> uri \<Rightarrow> route_error + tcp_backend" where
  "tcp_backend_from_uri v uri =
     and_then (parse_loopback_authority v uri None True) (\<lambda>(address, _).
     if path_and_query_or_root uri \<noteq> ''/''
     then Inl (Invalid_Backend v ''tcp backend URL must not contain a path or query'')
     else Inr \<lparr> tb_display = v, tb_address = address \<rparr>)"

definition backend_parse ::
  "('h, 'm) http_lib_scheme \<Rightarrow> string \<Rightarrow> route_error + backend_endpoint"
where
  "backend_parse lib v =
     (if CHR ''#'' \<in> set v then Inl (Invalid_Backend v ''fragment is not allowed'') else
      and_then (map_err (Invalid_Backend v) (uri_parse lib v)) (\<lambda>uri.
      case u_scheme uri of
        None \<Rightarrow> Inl (Invalid_Backend v ''scheme is required; expected ws or tcp'')
      | Some scheme \<Rightarrow>
          if scheme = ''ws''
          then and_then (websocket_backend_from_uri lib v uri) (\<lambda>b. Inr (Backend_Websocket b))
          else if scheme = ''tcp''
          then and_then (tcp_backend_from_uri v uri) (\<lambda>b. Inr (Backend_Tcp b))
          else Inl (Invalid_Backend v
            (''unsupported scheme '' @ [CHR 0x22] @ scheme @ [CHR 0x22] @ ''; expected ws or tcp''))))"

section \<open>The table\<close>

record route_table =
  tbl_by_host :: "route host_table"
  tbl_enabled_count :: nat
  tbl_configured_count :: nat

record route_build =
  rb_ids :: "string set"
  rb_paths :: "(string \<times> string) set"
  rb_by_host :: "route host_table"
  rb_enabled :: nat

definition route_build_init :: route_build where
  "route_build_init = \<lparr> rb_ids = {}, rb_paths = {}, rb_by_host = [], rb_enabled = 0 \<rparr>"

definition route_build_step ::
  "('h, 'm) http_lib_scheme \<Rightarrow> route_build \<Rightarrow> route_spec \<Rightarrow> route_error + route_build"
where
  "route_build_step lib st spec =
     and_then (validate_id (rs_id spec)) (\<lambda>_.
     and_then (map_err (Invalid_Host (rs_host spec)) (normalize_dns_host (rs_host spec))) (\<lambda>host.
     and_then (validate_public_path (rs_path spec)) (\<lambda>namespace.
     if rs_id spec \<in> rb_ids st then Inl (Duplicate_Id (rs_id spec)) else
     if (host, rs_path spec) \<in> rb_paths st then Inl (Duplicate_Host_Path host (rs_path spec)) else
     and_then (backend_parse lib (rs_backend spec)) (\<lambda>backend.
     let st = st\<lparr>rb_ids := insert (rs_id spec) (rb_ids st),
                 rb_paths := insert (host, rs_path spec) (rb_paths st)\<rparr> in
     if rs_enabled spec then
       let route = \<lparr> rt_id = rs_id spec, rt_host = host, rt_path = rs_path spec,
                     rt_namespace = namespace, rt_backend = backend,
                     rt_security = rs_security spec, rt_handshake = rs_handshake spec \<rparr>
       in Inr (st\<lparr>rb_by_host := host_insert host (rs_path spec) route (rb_by_host st),
                  rb_enabled := rb_enabled st + 1\<rparr>)
     else Inr st))))"

definition route_table_build ::
  "('h, 'm) http_lib_scheme \<Rightarrow> route_spec list \<Rightarrow> route_error + route_table"
where
  "route_table_build lib specs =
     and_then (try_fold (route_build_step lib) route_build_init specs) (\<lambda>st.
       Inr \<lparr> tbl_by_host = rb_by_host st, tbl_enabled_count = rb_enabled st,
             tbl_configured_count = length specs \<rparr>)"

definition route_resolve :: "route_table \<Rightarrow> string \<Rightarrow> string \<Rightarrow> route option" where
  "route_resolve t host path = host_lookup (tbl_by_host t) host path"

declare max_route_id_length_def [eval_simps] max_route_path_length_def [eval_simps]
  validate_id_def [eval_simps] validate_public_path_def [eval_simps] trim_brackets_def [eval_simps]
  parse_loopback_authority_def [eval_simps] path_and_query_or_root_def [eval_simps]
  websocket_backend_from_uri_def [eval_simps] tcp_backend_from_uri_def [eval_simps]
  backend_parse_def [eval_simps] route_build_init_def [eval_simps] route_build_step_def [eval_simps]
  route_table_build_def [eval_simps] route_resolve_def [eval_simps]

section \<open>What a table holds\<close>

definition route_key :: "route_spec \<Rightarrow> (string \<times> string) option" where
  "route_key spec =
     map_option (\<lambda>host. (host, rs_path spec)) (result_ok (normalize_dns_host (rs_host spec)))"

definition route_compile :: "('h, 'm) http_lib_scheme \<Rightarrow> route_spec \<Rightarrow> route option" where
  "route_compile lib spec =
     (case (validate_id (rs_id spec), normalize_dns_host (rs_host spec),
            validate_public_path (rs_path spec), backend_parse lib (rs_backend spec)) of
        (Inr _, Inr host, Inr namespace, Inr backend) \<Rightarrow>
          Some \<lparr> rt_id = rs_id spec, rt_host = host, rt_path = rs_path spec,
                 rt_namespace = namespace, rt_backend = backend,
                 rt_security = rs_security spec, rt_handshake = rs_handshake spec \<rparr>
      | _ \<Rightarrow> None)"

lemma route_compile_key: "route_compile lib s = Some r \<Longrightarrow> \<exists>k. route_key s = Some k"
  by (cases "normalize_dns_host (rs_host s)")
    (auto simp: route_compile_def route_key_def split: sum.splits)

definition route_build_ok :: "('h, 'm) http_lib_scheme \<Rightarrow> route_spec list \<Rightarrow> route_build \<Rightarrow> bool" where
  "route_build_ok lib pre st \<longleftrightarrow>
     rb_ids st = set (map rs_id pre) \<and> distinct (map rs_id pre) \<and>
     Some ` rb_paths st = set (map route_key pre) \<and> distinct (map route_key pre) \<and>
     (\<forall>s \<in> set pre. route_compile lib s \<noteq> None) \<and>
     (\<forall>h p r. host_lookup (rb_by_host st) h p = Some r \<longleftrightarrow>
        (\<exists>s \<in> set pre. rs_enabled s \<and> route_key s = Some (h, p) \<and> route_compile lib s = Some r)) \<and>
     rb_enabled st = length (filter rs_enabled pre)"

lemma route_build_step_Inr:
  assumes "route_build_step lib st spec = Inr st'"
  obtains host r where "route_key spec = Some (host, rs_path spec)"
    "route_compile lib spec = Some r" "rs_id spec \<notin> rb_ids st"
    "(host, rs_path spec) \<notin> rb_paths st"
    "st' = st\<lparr>rb_ids := insert (rs_id spec) (rb_ids st),
              rb_paths := insert (host, rs_path spec) (rb_paths st),
              rb_by_host := (if rs_enabled spec
                then host_insert host (rs_path spec) r (rb_by_host st) else rb_by_host st),
              rb_enabled := (if rs_enabled spec then rb_enabled st + 1 else rb_enabled st)\<rparr>"
proof -
  from assms obtain u host ns b where v: "validate_id (rs_id spec) = Inr u"
    "normalize_dns_host (rs_host spec) = Inr host" "validate_public_path (rs_path spec) = Inr ns"
    "backend_parse lib (rs_backend spec) = Inr b" "rs_id spec \<notin> rb_ids st"
    "(host, rs_path spec) \<notin> rb_paths st"
    by (auto simp: route_build_step_def Let_def map_err_Inr_iff split: if_splits)
  with assms that show thesis
    by (auto simp: route_build_step_def route_key_def route_compile_def Let_def split: if_splits)
qed

lemma route_build_step_ok:
  assumes ok: "route_build_ok lib pre st" and step: "route_build_step lib st spec = Inr st'"
  shows "route_build_ok lib (pre @ [spec]) st'"
proof -
  from step obtain host r where new: "route_key spec = Some (host, rs_path spec)"
    "route_compile lib spec = Some r" "rs_id spec \<notin> rb_ids st"
    "(host, rs_path spec) \<notin> rb_paths st"
    and st': "st' = st\<lparr>rb_ids := insert (rs_id spec) (rb_ids st),
              rb_paths := insert (host, rs_path spec) (rb_paths st),
              rb_by_host := (if rs_enabled spec
                then host_insert host (rs_path spec) r (rb_by_host st) else rb_by_host st),
              rb_enabled := (if rs_enabled spec then rb_enabled st + 1 else rb_enabled st)\<rparr>"
    by (rule route_build_step_Inr)
  have fresh: "route_key spec \<notin> set (map route_key pre)"
  proof -
    have "Some ` rb_paths st = set (map route_key pre)"
      using ok by (simp add: route_build_ok_def)
    with new(1,4) show ?thesis by (auto simp del: set_map)
  qed
  then have "route_key s \<noteq> Some (host, rs_path spec)" if "s \<in> set pre" for s
    using that new(1) by force
  then have lookup: "host_lookup (rb_by_host st') h p = Some x \<longleftrightarrow>
      (\<exists>s \<in> set (pre @ [spec]). rs_enabled s \<and> route_key s = Some (h, p) \<and> route_compile lib s = Some x)"
    for h p x
    using ok new(1,2) by (auto simp: route_build_ok_def st')
  have "distinct (map route_key (pre @ [spec]))"
    using ok fresh by (simp add: route_build_ok_def)
  with lookup show ?thesis
    using ok new(1-3) by (simp add: route_build_ok_def st')
qed

lemma route_table_build_ok:
  assumes "route_table_build lib specs = Inr t"
  obtains st where "route_build_ok lib specs st"
    "t = \<lparr> tbl_by_host = rb_by_host st, tbl_enabled_count = rb_enabled st,
           tbl_configured_count = length specs \<rparr>"
proof -
  from assms obtain st where run: "try_fold (route_build_step lib) route_build_init specs = Inr st"
    and t: "t = \<lparr> tbl_by_host = rb_by_host st, tbl_enabled_count = rb_enabled st,
           tbl_configured_count = length specs \<rparr>"
    by (auto simp: route_table_build_def)
  have "route_build_ok lib ([] @ specs) st"
  proof (rule try_fold_invariant [OF run, where P = "route_build_ok lib"])
    show "route_build_ok lib [] route_build_init"
      by (simp add: route_build_ok_def route_build_init_def)
  qed (rule route_build_step_ok)
  with t that show thesis by simp
qed

interpretation ws_routes:
  keyed_routes "route_table_build lib" "\<lambda>t (host, path). route_resolve t host path" rs_enabled route_key "route_compile lib"
proof
  fix specs t r s and k :: "string \<times> string"
  assume b: "route_table_build lib specs = Inr t"
  then obtain st where st: "route_build_ok lib specs st"
    and t: "t = \<lparr> tbl_by_host = rb_by_host st, tbl_enabled_count = rb_enabled st,
           tbl_configured_count = length specs \<rparr>"
    by (rule route_table_build_ok)
  show "(case k of (host, path) \<Rightarrow> route_resolve t host path) = Some r \<longleftrightarrow>
      (\<exists>s \<in> set specs. rs_enabled s \<and> route_key s = Some k \<and> route_compile lib s = Some r)"
    using st by (cases k) (simp add: route_resolve_def t route_build_ok_def)
  show "distinct (map route_key specs)"
    using st by (simp add: route_build_ok_def)
  show "route_compile lib s \<noteq> None \<and> route_key s \<noteq> None" if "s \<in> set specs"
    using st that route_compile_key [of lib s] by (auto simp: route_build_ok_def)
qed

section \<open>What a resolved route can reach\<close>

lemma parse_loopback_authority_sound:
  assumes "parse_loopback_authority v uri dflt explicit = Inr (address, authority)"
  shows "is_loopback (sa_ip address)" and "sa_port address \<noteq> 0"
    and "CHR ''@'' \<notin> set authority" and "u_authority uri = Some authority"
    and "explicit \<Longrightarrow> u_port uri = Some (sa_port address)"
  using assms
  by (auto simp: parse_loopback_authority_def Let_def split: if_splits option.splits)

lemma websocket_backend_loopback:
  assumes "websocket_backend_from_uri lib v uri = Inr b"
  shows "is_loopback (sa_ip (wb_address b)) \<and> sa_port (wb_address b) \<noteq> 0"
proof -
  from assms obtain address authority where
    "parse_loopback_authority v uri (Some 80) False = Inr (address, authority)"
    and "wb_address b = address"
    by (auto simp: websocket_backend_from_uri_def)
  then show ?thesis using parse_loopback_authority_sound(1,2) by blast
qed

lemma tcp_backend_loopback:
  assumes "tcp_backend_from_uri v uri = Inr b"
  shows "is_loopback (sa_ip (tb_address b)) \<and> sa_port (tb_address b) \<noteq> 0"
proof -
  from assms obtain address authority where
    "parse_loopback_authority v uri None True = Inr (address, authority)"
    and "tb_address b = address"
    by (auto simp: tcp_backend_from_uri_def split: if_splits)
  then show ?thesis using parse_loopback_authority_sound(1,2) by blast
qed

lemma backend_parse_cases:
  assumes "backend_parse lib v = Inr b"
  obtains uri w where "uri_parse lib v = Inr uri" "websocket_backend_from_uri lib v uri = Inr w"
      "b = Backend_Websocket w"
    | uri t where "uri_parse lib v = Inr uri" "tcp_backend_from_uri v uri = Inr t"
      "b = Backend_Tcp t"
proof -
  from assms obtain uri scheme where uri: "uri_parse lib v = Inr uri" "u_scheme uri = Some scheme"
    by (auto simp: backend_parse_def split: if_splits option.splits)
  show thesis
  proof (cases "scheme = ''ws''")
    case True
    with assms uri that(1) show thesis
      by (simp add: backend_parse_def split: if_splits) blast
  next
    case False
    with assms uri that(2) show thesis
      by (simp add: backend_parse_def split: if_splits) blast
  qed
qed

lemma backend_parse_loopback:
  assumes "backend_parse lib v = Inr b"
  shows "is_loopback (sa_ip (backend_address b)) \<and> sa_port (backend_address b) \<noteq> 0"
  using assms
  by (cases rule: backend_parse_cases) (simp_all add: websocket_backend_loopback tcp_backend_loopback)

text \<open>A public path has no segment a backend could resolve away, and no query or fragment.\<close>

definition plain_path :: "string \<Rightarrow> bool" where
  "plain_path path \<longleftrightarrow>
     starts_with path ''/'' \<and> length path \<le> max_route_path_length \<and>
     CHR ''?'' \<notin> set path \<and> CHR ''#'' \<notin> set path \<and> CHR 0x5C \<notin> set path \<and>
     (path = ''/'' \<or> (\<forall>s \<in> set (split_on (CHR ''/'') (drop 1 path)).
        s \<noteq> [] \<and> s \<noteq> ''.'' \<and> s \<noteq> ''..''))"

lemma validate_public_path_plain: "validate_public_path path = Inr ns \<Longrightarrow> plain_path path"
  by (auto simp: validate_public_path_def plain_path_def contains_any_def list_ex_iff not_less
      split: if_splits)

lemma route_compile_sound:
  assumes "route_compile lib s = Some r" "route_key s = Some (host, path)"
  shows "rt_host r = host" "rt_path r = path" "rt_id r = rs_id s" "canonical_host host"
    "plain_path path" "is_loopback (sa_ip (backend_address (rt_backend r)))"
    "sa_port (backend_address (rt_backend r)) \<noteq> 0"
    "rt_security r = rs_security s" "rt_handshake r = rs_handshake s"
  using assms
  by (auto simp: route_compile_def route_key_def normalize_dns_host_canonical
      validate_public_path_plain dest: backend_parse_loopback split: sum.splits)

lemma route_table_counts:
  assumes "route_table_build lib specs = Inr t"
  shows "tbl_enabled_count t = length (filter rs_enabled specs)"
    and "tbl_configured_count t = length specs" and "distinct (map rs_id specs)"
  using assms by (auto elim!: route_table_build_ok simp: route_build_ok_def)

end
