(* ===== verification/Grpc_Routes.thy ===== *)
theory Grpc_Routes
  imports Host_Tables Client_Address
begin

text \<open>
  \<open>src/grpc/routes.rs\<close>: the table of gRPC methods (exact \<open>/package.Service/Method\<close> paths), its
  validation and its \<open>h2c\<close> backends.
\<close>

section \<open>Routes and errors\<close>

record grpc_route_spec =
  gs_id :: string
  gs_host :: string
  gs_path :: string
  gs_backend :: string
  gs_enabled :: bool
  gs_security :: route_security

record grpc_backend =
  gb_display :: string
  gb_address :: socket_addr
  gb_authority :: string
  gb_host_header :: bytes

record grpc_route =
  gr_id :: string
  gr_host :: string
  gr_path :: string
  gr_backend :: grpc_backend
  gr_upstream_uri :: uri
  gr_security :: route_security

datatype grpc_route_error =
    Grpc_Empty_Id
  | Grpc_Id_Too_Long string
  | Grpc_Invalid_Id string
  | Grpc_Invalid_Path string
  | Grpc_Path_Too_Long string
  | Grpc_Duplicate_Id string
  | Grpc_Duplicate_Host_Path string string
  | Grpc_Invalid_Host string string
  | Grpc_Invalid_Backend string string

section \<open>Validation\<close>

definition max_grpc_route_id_length :: nat where "max_grpc_route_id_length = 128"
definition max_grpc_path_length :: nat where "max_grpc_path_length = 2048"

definition grpc_validate_id :: "string \<Rightarrow> grpc_route_error + unit" where
  "grpc_validate_id i =
     (if i = [] then Inl Grpc_Empty_Id
      else if max_grpc_route_id_length < length i then Inl (Grpc_Id_Too_Long i)
      else if any_char is_whitespace i \<or> any_char is_control i then Inl (Grpc_Invalid_Id i)
      else Inr ())"

fun is_proto_identifier :: "string \<Rightarrow> bool" where
  "is_proto_identifier [] = False"
| "is_proto_identifier (first # characters) =
     ((first = CHR ''_'' \<or> is_ascii_alphabetic first) \<and>
      list_all (\<lambda>c. c = CHR ''_'' \<or> is_ascii_alphanumeric c) characters)"

definition validate_grpc_path :: "string \<Rightarrow> grpc_route_error + unit" where
  "validate_grpc_path path =
     (if max_grpc_path_length < length path then Inl (Grpc_Path_Too_Long path)
      else if contains_any [CHR ''?'', CHR ''#'', CHR 0x5C] path
           \<or> any_char is_whitespace path \<or> any_char is_control path then Inl (Grpc_Invalid_Path path)
      else case strip_prefix ''/'' path of
        None \<Rightarrow> Inl (Grpc_Invalid_Path path)
      | Some remainder \<Rightarrow>
          (case split_on (CHR ''/'') remainder of
             service # method # segments \<Rightarrow>
               if segments \<noteq> [] \<or> service = [] \<or> method = []
                  \<or> \<not> list_all is_proto_identifier (split_on (CHR ''.'') service)
                  \<or> \<not> is_proto_identifier method
               then Inl (Grpc_Invalid_Path path) else Inr ()
           | _ \<Rightarrow> Inl (Grpc_Invalid_Path path)))"

definition grpc_backend_parse ::
  "('h, 'm) http_lib_scheme \<Rightarrow> string \<Rightarrow> grpc_route_error + grpc_backend"
where
  "grpc_backend_parse lib v =
     (let invalid = Grpc_Invalid_Backend v in
      and_then (map_err invalid (uri_parse lib v)) (\<lambda>uri.
      if u_scheme uri \<noteq> Some ''h2c'' then Inl (invalid ''scheme must be h2c'') else
      and_then (ok_or (invalid ''authority is required'') (u_authority uri)) (\<lambda>authority.
      if CHR ''@'' \<in> set authority then Inl (invalid ''userinfo is not allowed'') else
      and_then (ok_or (invalid ''host is required'') (u_host uri)) (\<lambda>host.
      and_then (ok_or (invalid ''host must be an IPv4 or IPv6 loopback address'')
          (parse_ip (trim_end_matches (CHR '']'') (trim_start_matches (CHR ''['') host)))) (\<lambda>ip.
      if \<not> is_loopback ip then Inl (invalid ''host must be a loopback address'') else
      and_then
        (case u_port uri of
           Some port \<Rightarrow>
             if port \<noteq> 0 then Inr port else Inl (invalid ''an explicit nonzero port is required'')
         | None \<Rightarrow> Inl (invalid ''an explicit nonzero port is required'')) (\<lambda>port.
      if (case u_path_and_query uri of Some s \<Rightarrow> s | None \<Rightarrow> ''/'') \<noteq> ''/''
      then Inl (invalid ''backend URL must not contain a path or query'') else
      and_then (ok_or (invalid (''invalid authority: '' @ hv_invalid lib))
          (hv_from_str lib authority)) (\<lambda>host_header.
      Inr \<lparr> gb_display = v, gb_address = \<lparr> sa_ip = ip, sa_port = port \<rparr>,
            gb_authority = authority, gb_host_header = host_header \<rparr>)))))))"

section \<open>The table\<close>

record grpc_route_table =
  gt_by_host :: "grpc_route host_table"
  gt_enabled_count :: nat
  gt_configured_count :: nat

record grpc_build =
  gbd_ids :: "string set"
  gbd_paths :: "(string \<times> string) set"
  gbd_by_host :: "grpc_route host_table"
  gbd_enabled :: nat

definition grpc_build_init :: grpc_build where
  "grpc_build_init = \<lparr> gbd_ids = {}, gbd_paths = {}, gbd_by_host = [], gbd_enabled = 0 \<rparr>"

definition grpc_build_step ::
  "('h, 'm) http_lib_scheme \<Rightarrow> grpc_build \<Rightarrow> grpc_route_spec \<Rightarrow> grpc_route_error + grpc_build"
where
  "grpc_build_step lib st spec =
     and_then (grpc_validate_id (gs_id spec)) (\<lambda>_.
     and_then (map_err (Grpc_Invalid_Host (gs_host spec)) (normalize_dns_host (gs_host spec))) (\<lambda>host.
     and_then (validate_grpc_path (gs_path spec)) (\<lambda>_.
     if gs_id spec \<in> gbd_ids st then Inl (Grpc_Duplicate_Id (gs_id spec)) else
     if (host, gs_path spec) \<in> gbd_paths st
     then Inl (Grpc_Duplicate_Host_Path host (gs_path spec)) else
     and_then (grpc_backend_parse lib (gs_backend spec)) (\<lambda>backend.
     and_then (map_err (\<lambda>e. Grpc_Invalid_Backend (gs_backend spec)
           (''failed to build upstream HTTP/2 URI: '' @ e))
         (uri_parse lib (''http://'' @ gb_authority backend @ gs_path spec))) (\<lambda>upstream_uri.
     let st = st\<lparr>gbd_ids := insert (gs_id spec) (gbd_ids st),
                 gbd_paths := insert (host, gs_path spec) (gbd_paths st)\<rparr> in
     if gs_enabled spec then
       let route = \<lparr> gr_id = gs_id spec, gr_host = host, gr_path = gs_path spec,
                     gr_backend = backend, gr_upstream_uri = upstream_uri,
                     gr_security = gs_security spec \<rparr>
       in Inr (st\<lparr>gbd_by_host := host_insert host (gs_path spec) route (gbd_by_host st),
                  gbd_enabled := gbd_enabled st + 1\<rparr>)
     else Inr st)))))"

definition grpc_table_build ::
  "('h, 'm) http_lib_scheme \<Rightarrow> grpc_route_spec list \<Rightarrow> grpc_route_error + grpc_route_table"
where
  "grpc_table_build lib specs =
     and_then (try_fold (grpc_build_step lib) grpc_build_init specs) (\<lambda>st.
       Inr \<lparr> gt_by_host = gbd_by_host st, gt_enabled_count = gbd_enabled st,
             gt_configured_count = length specs \<rparr>)"

definition grpc_resolve :: "grpc_route_table \<Rightarrow> string \<Rightarrow> string \<Rightarrow> grpc_route option" where
  "grpc_resolve t host path = host_lookup (gt_by_host t) host path"

definition grpc_enabled_routes :: "grpc_route_table \<Rightarrow> grpc_route list" where
  "grpc_enabled_routes t = host_routes (gt_by_host t)"

declare max_grpc_route_id_length_def [eval_simps] max_grpc_path_length_def [eval_simps]
  grpc_validate_id_def [eval_simps] validate_grpc_path_def [eval_simps]
  grpc_backend_parse_def [eval_simps] grpc_build_init_def [eval_simps]
  grpc_build_step_def [eval_simps] grpc_table_build_def [eval_simps] grpc_resolve_def [eval_simps]

section \<open>What a table holds\<close>

definition grpc_key :: "grpc_route_spec \<Rightarrow> (string \<times> string) option" where
  "grpc_key spec =
     map_option (\<lambda>host. (host, gs_path spec)) (result_ok (normalize_dns_host (gs_host spec)))"

definition grpc_compile :: "('h, 'm) http_lib_scheme \<Rightarrow> grpc_route_spec \<Rightarrow> grpc_route option" where
  "grpc_compile lib spec =
     (case (grpc_validate_id (gs_id spec), normalize_dns_host (gs_host spec),
            validate_grpc_path (gs_path spec), grpc_backend_parse lib (gs_backend spec)) of
        (Inr _, Inr host, Inr _, Inr backend) \<Rightarrow>
          map_option (\<lambda>upstream_uri.
             \<lparr> gr_id = gs_id spec, gr_host = host, gr_path = gs_path spec, gr_backend = backend,
               gr_upstream_uri = upstream_uri, gr_security = gs_security spec \<rparr>)
           (result_ok (uri_parse lib (''http://'' @ gb_authority backend @ gs_path spec)))
      | _ \<Rightarrow> None)"

lemma grpc_compile_key: "grpc_compile lib s = Some r \<Longrightarrow> \<exists>k. grpc_key s = Some k"
  by (cases "normalize_dns_host (gs_host s)")
    (auto simp: grpc_compile_def grpc_key_def split: sum.splits)

definition grpc_build_ok ::
  "('h, 'm) http_lib_scheme \<Rightarrow> grpc_route_spec list \<Rightarrow> grpc_build \<Rightarrow> bool"
where
  "grpc_build_ok lib pre st \<longleftrightarrow>
     gbd_ids st = set (map gs_id pre) \<and> distinct (map gs_id pre) \<and>
     Some ` gbd_paths st = set (map grpc_key pre) \<and> distinct (map grpc_key pre) \<and>
     (\<forall>s \<in> set pre. grpc_compile lib s \<noteq> None) \<and>
     (\<forall>h p r. host_lookup (gbd_by_host st) h p = Some r \<longleftrightarrow>
        (\<exists>s \<in> set pre. gs_enabled s \<and> grpc_key s = Some (h, p) \<and> grpc_compile lib s = Some r)) \<and>
     host_table_ok (gbd_by_host st) \<and>
     gbd_enabled st = length (filter gs_enabled pre)"

lemma grpc_build_step_Inr:
  assumes "grpc_build_step lib st spec = Inr st'"
  obtains host r where "grpc_key spec = Some (host, gs_path spec)"
    "grpc_compile lib spec = Some r" "gs_id spec \<notin> gbd_ids st"
    "(host, gs_path spec) \<notin> gbd_paths st"
    "st' = st\<lparr>gbd_ids := insert (gs_id spec) (gbd_ids st),
              gbd_paths := insert (host, gs_path spec) (gbd_paths st),
              gbd_by_host := (if gs_enabled spec
                then host_insert host (gs_path spec) r (gbd_by_host st) else gbd_by_host st),
              gbd_enabled := (if gs_enabled spec then gbd_enabled st + 1 else gbd_enabled st)\<rparr>"
proof -
  from assms obtain u host w b x where v: "grpc_validate_id (gs_id spec) = Inr u"
    "normalize_dns_host (gs_host spec) = Inr host" "validate_grpc_path (gs_path spec) = Inr w"
    "grpc_backend_parse lib (gs_backend spec) = Inr b"
    "uri_parse lib (''http://'' @ gb_authority b @ gs_path spec) = Inr x"
    "gs_id spec \<notin> gbd_ids st" "(host, gs_path spec) \<notin> gbd_paths st"
    by (auto simp: grpc_build_step_def Let_def split: if_splits)
  with assms that show thesis
    by (auto simp: grpc_build_step_def grpc_key_def grpc_compile_def Let_def split: if_splits)
qed

lemma grpc_build_step_ok:
  assumes ok: "grpc_build_ok lib pre st" and step: "grpc_build_step lib st spec = Inr st'"
  shows "grpc_build_ok lib (pre @ [spec]) st'"
proof -
  from step obtain host r where new: "grpc_key spec = Some (host, gs_path spec)"
    "grpc_compile lib spec = Some r" "gs_id spec \<notin> gbd_ids st"
    "(host, gs_path spec) \<notin> gbd_paths st"
    and st': "st' = st\<lparr>gbd_ids := insert (gs_id spec) (gbd_ids st),
              gbd_paths := insert (host, gs_path spec) (gbd_paths st),
              gbd_by_host := (if gs_enabled spec
                then host_insert host (gs_path spec) r (gbd_by_host st) else gbd_by_host st),
              gbd_enabled := (if gs_enabled spec then gbd_enabled st + 1 else gbd_enabled st)\<rparr>"
    by (rule grpc_build_step_Inr)
  have fresh: "grpc_key spec \<notin> set (map grpc_key pre)"
  proof -
    have "Some ` gbd_paths st = set (map grpc_key pre)"
      using ok by (simp add: grpc_build_ok_def)
    with new(1,4) show ?thesis by (auto simp del: set_map)
  qed
  then have "grpc_key s \<noteq> Some (host, gs_path spec)" if "s \<in> set pre" for s
    using that new(1) by force
  then have lookup: "host_lookup (gbd_by_host st') h p = Some x \<longleftrightarrow>
      (\<exists>s \<in> set (pre @ [spec]). gs_enabled s \<and> grpc_key s = Some (h, p) \<and> grpc_compile lib s = Some x)"
    for h p x
    using ok new(1,2) by (auto simp: grpc_build_ok_def st')
  have "distinct (map grpc_key (pre @ [spec]))"
    using ok fresh by (simp add: grpc_build_ok_def)
  moreover have "host_table_ok (gbd_by_host st')"
    using ok by (simp add: grpc_build_ok_def st' host_table_ok_insert)
  ultimately show ?thesis
    using ok new(1-3) lookup by (simp add: grpc_build_ok_def st')
qed

lemma grpc_table_build_ok:
  assumes "grpc_table_build lib specs = Inr t"
  obtains st where "grpc_build_ok lib specs st"
    "t = \<lparr> gt_by_host = gbd_by_host st, gt_enabled_count = gbd_enabled st,
           gt_configured_count = length specs \<rparr>"
proof -
  from assms obtain st where run: "try_fold (grpc_build_step lib) grpc_build_init specs = Inr st"
    and t: "t = \<lparr> gt_by_host = gbd_by_host st, gt_enabled_count = gbd_enabled st,
           gt_configured_count = length specs \<rparr>"
    by (auto simp: grpc_table_build_def)
  have "grpc_build_ok lib ([] @ specs) st"
  proof (rule try_fold_invariant [OF run, where P = "grpc_build_ok lib"])
    show "grpc_build_ok lib [] grpc_build_init"
      by (simp add: grpc_build_ok_def grpc_build_init_def)
  qed (rule grpc_build_step_ok)
  with t that show thesis by simp
qed

interpretation grpc_tbl:
  keyed_routes "grpc_table_build lib" "\<lambda>t (host, path). grpc_resolve t host path" gs_enabled grpc_key "grpc_compile lib"
proof
  fix specs t r s and k :: "string \<times> string"
  assume b: "grpc_table_build lib specs = Inr t"
  then obtain st where st: "grpc_build_ok lib specs st"
    and t: "t = \<lparr> gt_by_host = gbd_by_host st, gt_enabled_count = gbd_enabled st,
           gt_configured_count = length specs \<rparr>"
    by (rule grpc_table_build_ok)
  show "(case k of (host, path) \<Rightarrow> grpc_resolve t host path) = Some r \<longleftrightarrow>
      (\<exists>s \<in> set specs. gs_enabled s \<and> grpc_key s = Some k \<and> grpc_compile lib s = Some r)"
    using st by (cases k) (simp add: grpc_resolve_def t grpc_build_ok_def)
  show "distinct (map grpc_key specs)"
    using st by (simp add: grpc_build_ok_def)
  show "grpc_compile lib s \<noteq> None \<and> grpc_key s \<noteq> None" if "s \<in> set specs"
    using st that grpc_compile_key [of lib s] by (auto simp: grpc_build_ok_def)
qed

section \<open>What a resolved method can reach\<close>

lemma grpc_backend_parse_loopback:
  assumes "grpc_backend_parse lib v = Inr b"
  shows "is_loopback (sa_ip (gb_address b))" and "sa_port (gb_address b) \<noteq> 0"
  using assms unfolding grpc_backend_parse_def Let_def by (elim result_elims, clarify, simp)+

text \<open>The exact \<open>/package.Service/Method\<close> form.\<close>

definition grpc_method_path :: "string \<Rightarrow> bool" where
  "grpc_method_path path \<longleftrightarrow>
     (\<exists>service rpc. path = ''/'' @ service @ ''/'' @ rpc \<and>
        list_all is_proto_identifier (split_on (CHR ''.'') service) \<and> is_proto_identifier rpc)"

lemma validate_grpc_path_form:
  assumes "validate_grpc_path path = Inr u"
  shows "grpc_method_path path" and "length path \<le> max_grpc_path_length"
proof -
  from assms obtain remainder service rpc where p: "path = ''/'' @ remainder"
    and r: "split_on (CHR ''/'') remainder = [service, rpc]"
    and ok: "list_all is_proto_identifier (split_on (CHR ''.'') service)" "is_proto_identifier rpc"
    and len: "length path \<le> max_grpc_path_length"
    by (auto simp: validate_grpc_path_def not_less split: if_splits option.splits list.splits)
  have "join ''/'' (split_on (CHR ''/'') remainder) = remainder"
    by simp
  with r have "remainder = service @ ''/'' @ rpc"
    by simp
  with p ok show "grpc_method_path path"
    unfolding grpc_method_path_def by blast
  show "length path \<le> max_grpc_path_length" by (rule len)
qed

lemma grpc_compile_sound:
  assumes "grpc_compile lib s = Some r" "grpc_key s = Some (host, path)"
  shows "gr_host r = host" "gr_path r = path" "gr_id r = gs_id s" "canonical_host host"
    "grpc_method_path path" "is_loopback (sa_ip (gb_address (gr_backend r)))"
    "sa_port (gb_address (gr_backend r)) \<noteq> 0" "gr_security r = gs_security s"
    "uri_parse lib (''http://'' @ gb_authority (gr_backend r) @ path) = Inr (gr_upstream_uri r)"
  using assms
  by (auto simp: grpc_compile_def grpc_key_def normalize_dns_host_canonical
      validate_grpc_path_form dest: grpc_backend_parse_loopback split: sum.splits)

lemma grpc_enabled_routes_iff:
  assumes "grpc_table_build lib specs = Inr t"
  shows "r \<in> set (grpc_enabled_routes t) \<longleftrightarrow> (\<exists>s \<in> set specs. gs_enabled s \<and> grpc_compile lib s = Some r)"
proof -
  from assms obtain st where st: "grpc_build_ok lib specs st"
    and t: "t = \<lparr> gt_by_host = gbd_by_host st, gt_enabled_count = gbd_enabled st,
           gt_configured_count = length specs \<rparr>"
    by (rule grpc_table_build_ok)
  then have "r \<in> set (grpc_enabled_routes t) \<longleftrightarrow> (\<exists>h p. grpc_resolve t h p = Some r)"
    by (simp add: grpc_enabled_routes_def grpc_resolve_def host_routes_iff grpc_build_ok_def)
  also have "\<dots> \<longleftrightarrow> (\<exists>s \<in> set specs. gs_enabled s \<and> grpc_compile lib s = Some r)"
    using grpc_tbl.resolve_build [OF assms, where r = r] grpc_compile_key by (metis case_prod_conv surj_pair)
  finally show ?thesis .
qed

end
