(* ===== verification/Upstream_Config.thy ===== *)
theory Upstream_Config
  imports Routing File_Sys
begin

text \<open>
  \<open>src/http_proxy/config.rs\<close>: the configuration of an HTTP upstream and of its connection pool, and
  their validation.
\<close>

section \<open>Configuration\<close>

datatype upstream_protocol = Proto_Http1 | Proto_Http2
datatype host_header_policy = Host_Preserve | Host_Backend
datatype tls_server_name = Request_Host | Literal string

record pool_config =
  pc_max_connections :: nat
  pc_max_idle_connections :: nat
  pc_max_active_requests :: nat
  pc_max_pending_requests :: nat
  pc_idle_timeout :: duration
  pc_pending_timeout :: duration
  pc_response_header_timeout :: duration
  pc_body_idle_timeout :: duration

record file_pool_config =
  fp_max_connections :: nat
  fp_max_idle_connections :: nat
  fp_max_active_requests :: nat
  fp_max_pending_requests :: nat
  fp_idle_timeout_seconds :: nat
  fp_pending_timeout_seconds :: nat
  fp_response_header_timeout_seconds :: nat
  fp_body_idle_timeout_seconds :: nat

definition default_file_pool_config :: file_pool_config where
  "default_file_pool_config =
     \<lparr> fp_max_connections = 128, fp_max_idle_connections = 16, fp_max_active_requests = 256,
       fp_max_pending_requests = 64, fp_idle_timeout_seconds = 60, fp_pending_timeout_seconds = 5,
       fp_response_header_timeout_seconds = 60, fp_body_idle_timeout_seconds = 60 \<rparr>"

record upstream_config =
  uc_endpoint :: string
  uc_address :: socket_addr
  uc_authority :: string
  uc_tls :: bool
  uc_protocol :: upstream_protocol
  uc_host_header :: host_header_policy
  uc_tls_server_name :: tls_server_name
  uc_ca_file :: "path option"
  uc_pool :: pool_config

record file_upstream_config =
  fu_endpoint :: string
  fu_protocol :: upstream_protocol
  fu_host_header :: host_header_policy
  fu_tls_server_name :: string
  fu_ca_file :: "path option"
  fu_pool :: file_pool_config

record file_http_proxy_config =
  fh_max_connections :: nat

definition default_file_http_proxy_config :: file_http_proxy_config where
  "default_file_http_proxy_config = \<lparr> fh_max_connections = 20000 \<rparr>"

section \<open>Validation\<close>

definition check_between :: "unit \<Rightarrow> string \<times> nat \<times> nat \<Rightarrow> string + unit" where
  "check_between u = (\<lambda>(name, v, mx).
     if v = 0 \<or> mx < v
     then Inl (''upstream.pool.'' @ name @ '' must be between 1 and '' @ show_nat mx)
     else Inr ())"

definition pool_validate :: "file_pool_config \<Rightarrow> string + pool_config" where
  "pool_validate p =
     and_then (try_fold check_between ()
        [(''max_connections'', fp_max_connections p, 65536),
         (''max_active_requests'', fp_max_active_requests p, 65536)]) (\<lambda>_.
     if fp_max_connections p < fp_max_idle_connections p
        \<or> fp_max_active_requests p < fp_max_pending_requests p
     then Inl ''pool idle capacity must not exceed connections; pending capacity must not exceed active requests''
     else
     and_then (try_fold check_between ()
        [(''idle_timeout_seconds'', fp_idle_timeout_seconds p, 3600),
         (''pending_timeout_seconds'', fp_pending_timeout_seconds p, 3600),
         (''response_header_timeout_seconds'', fp_response_header_timeout_seconds p, 3600),
         (''body_idle_timeout_seconds'', fp_body_idle_timeout_seconds p, 3600)]) (\<lambda>_.
     Inr \<lparr> pc_max_connections = fp_max_connections p,
           pc_max_idle_connections = fp_max_idle_connections p,
           pc_max_active_requests = fp_max_active_requests p,
           pc_max_pending_requests = fp_max_pending_requests p,
           pc_idle_timeout = from_secs (fp_idle_timeout_seconds p),
           pc_pending_timeout = from_secs (fp_pending_timeout_seconds p),
           pc_response_header_timeout = from_secs (fp_response_header_timeout_seconds p),
           pc_body_idle_timeout = from_secs (fp_body_idle_timeout_seconds p) \<rparr>))"

definition upstream_validate ::
  "('h, 'm) http_lib_scheme \<Rightarrow> path \<Rightarrow> file_upstream_config \<Rightarrow> string + upstream_config"
where
  "upstream_validate lib directory c =
     (if CHR ''#'' \<in> set (fu_endpoint c)
      then Inl ''upstream.endpoint must not contain a fragment'' else
      and_then (map_err (\<lambda>e. ''invalid upstream.endpoint: '' @ e) (uri_parse lib (fu_endpoint c)))
        (\<lambda>uri.
      and_then
        (if u_scheme uri = Some ''http'' then Inr False
         else if u_scheme uri = Some ''https'' then Inr True
         else Inl ''upstream.endpoint scheme must be http or https'') (\<lambda>tls.
      and_then (ok_or ''upstream.endpoint requires an authority'' (u_authority uri)) (\<lambda>authority.
      if CHR ''@'' \<in> set authority then Inl ''upstream.endpoint must not contain userinfo'' else
      and_then (ok_or ''upstream.endpoint requires a host'' (u_host uri)) (\<lambda>host.
      and_then (ok_or ''upstream.endpoint host must be a literal loopback address''
          (parse_ip (trim_end_matches (CHR '']'') (trim_start_matches (CHR ''['') host)))) (\<lambda>ip.
      if \<not> is_loopback ip
      then Inl ''upstream.endpoint host must be loopback; publish Docker ports locally'' else
      and_then (ok_or ''upstream.endpoint requires an explicit nonzero port''
          (case u_port uri of Some port \<Rightarrow> if port \<noteq> 0 then Some port else None | None \<Rightarrow> None))
        (\<lambda>port.
      if (case u_path_and_query uri of Some v \<Rightarrow> v | None \<Rightarrow> ''/'') \<noteq> ''/''
      then Inl ''upstream.endpoint is an origin only; configure paths with route rewrite'' else
      and_then
        (if fu_tls_server_name c = ''request_host'' then Inr Request_Host
         else and_then (normalize_dns_host (fu_tls_server_name c)) (\<lambda>n. Inr (Literal n)))
        (\<lambda>tls_server_name.
      if \<not> tls \<and> fu_ca_file c \<noteq> None then Inl ''upstream.ca_file requires https'' else
      if fu_ca_file c = Some [] then Inl ''upstream.ca_file must not be empty'' else
      let ca_file = map_option (path_join directory) (fu_ca_file c) in
      and_then (pool_validate (fu_pool c)) (\<lambda>pool.
      Inr \<lparr> uc_endpoint = fu_endpoint c, uc_address = \<lparr> sa_ip = ip, sa_port = port \<rparr>,
            uc_authority = authority, uc_tls = tls, uc_protocol = fu_protocol c,
            uc_host_header = fu_host_header c, uc_tls_server_name = tls_server_name,
            uc_ca_file = ca_file, uc_pool = pool \<rparr>)))))))))"

declare check_between_def [eval_simps] pool_validate_def [eval_simps] upstream_validate_def [eval_simps]

section \<open>Validated configurations\<close>

definition pool_config_ok :: "pool_config \<Rightarrow> bool" where
  "pool_config_ok p \<longleftrightarrow>
     1 \<le> pc_max_connections p \<and> pc_max_connections p \<le> 65536 \<and>
     1 \<le> pc_max_active_requests p \<and> pc_max_active_requests p \<le> 65536 \<and>
     pc_max_idle_connections p \<le> pc_max_connections p \<and>
     pc_max_pending_requests p \<le> pc_max_active_requests p \<and>
     (\<forall>d \<in> {pc_idle_timeout p, pc_pending_timeout p, pc_response_header_timeout p,
             pc_body_idle_timeout p}. from_secs 1 \<le> d \<and> d \<le> from_secs 3600)"

lemma check_between_Inr_iff [simp]:
  "check_between u (name, v, mx) = Inr w \<longleftrightarrow> 1 \<le> v \<and> v \<le> mx"
  by (auto simp: check_between_def)

lemma pool_validate_ok:
  assumes "pool_validate c = Inr p"
  shows "pool_config_ok p"
  using assms unfolding pool_validate_def
  by (elim result_elims, clarify)
    (simp add: pool_config_ok_def from_secs_def)

definition upstream_config_ok :: "upstream_config \<Rightarrow> bool" where
  "upstream_config_ok u \<longleftrightarrow>
     is_loopback (sa_ip (uc_address u)) \<and> sa_port (uc_address u) \<noteq> 0 \<and>
     CHR ''@'' \<notin> set (uc_authority u) \<and> (uc_ca_file u \<noteq> None \<longrightarrow> uc_tls u) \<and>
     (\<forall>n. uc_tls_server_name u = Literal n \<longrightarrow> canonical_host n) \<and> pool_config_ok (uc_pool u)"

lemma upstream_validate_ok:
  assumes "upstream_validate lib directory c = Inr u"
  shows "upstream_config_ok u"
  using assms unfolding upstream_validate_def Let_def
  by (elim result_elims, clarify)
    (auto simp: upstream_config_ok_def pool_validate_ok normalize_dns_host_canonical
      split: option.splits if_splits)

end
