(* ===== verification/Http_Routes.thy ===== *)
theory Http_Routes
  imports Upstream_Config Host_Tables Client_Address
begin

text \<open>
  \<open>src/http_proxy/routes.rs\<close>: the validation of HTTP paths (\<open>validate_http_path\<close>), the table of
  HTTP routes with exact and segment-prefix matches, and the rewriting of request targets.
\<close>

section \<open>Paths\<close>

text \<open>The bytes that no escape may stand for: separators, unreserved and control characters.\<close>

definition escape_forbidden :: "nat \<Rightarrow> bool" where
  "escape_forbidden v \<longleftrightarrow>
     char_of v \<in> {CHR ''/'', CHR 0x5C, CHR ''%''} \<or> is_ascii_alphanumeric (char_of v)
     \<or> char_of v \<in> {CHR ''-'', CHR ''.'', CHR ''_'', CHR ''~''} \<or> v < 32 \<or> v = 127"

fun check_escapes :: "bytes \<Rightarrow> string + unit" where
  "check_escapes [] = Inr ()"
| "check_escapes (b # bs) =
     (if b = CHR ''%'' then
        (case bs of
           h # l # rest \<Rightarrow>
             and_then (ok_or ''invalid percent encoding'' (hex_digit h)) (\<lambda>high.
             and_then (ok_or ''invalid percent encoding'' (hex_digit l)) (\<lambda>low.
             if escape_forbidden (high * 16 + low)
             then Inl ''encoded path separators/unreserved/control/double encoding are not supported''
             else check_escapes rest))
         | _ \<Rightarrow> Inl ''invalid percent encoding'')
      else check_escapes bs)"

definition check_segment :: "unit \<Rightarrow> string \<Rightarrow> string + unit" where
  "check_segment u segment =
     (if segment = ''.'' \<or> segment = ''..'' then Inl ''dot segments are not supported''
      else check_escapes segment)"

definition validate_http_path :: "string \<Rightarrow> string + unit" where
  "validate_http_path path =
     (if \<not> starts_with path ''/'' \<or> 8192 < length path
         \<or> contains_any [CHR ''?'', CHR ''#'', CHR 0x5C] path
         \<or> list_ex (\<lambda>b. byte b \<le> 32 \<or> byte b = 127) path
      then Inl ''invalid HTTP path''
      else if contains_str ''//'' path then Inl ''repeated path separators are not supported''
      else try_fold check_segment () (split_on (CHR ''/'') path))"

section \<open>Routes\<close>

datatype path_match = Exact | Prefix
datatype rewrite = Preserve | Strip_Prefix | Replace_Prefix

record file_http_route_config =
  fr_id :: string
  fr_host :: string
  fr_path :: string
  fr_path_match :: path_match
  fr_rewrite :: rewrite
  fr_replacement_prefix :: "string option"
  fr_enabled :: bool
  fr_security :: route_security
  fr_upstream :: file_upstream_config

record http_route =
  hr_id :: string
  hr_host :: string
  hr_path :: string
  hr_path_match :: path_match
  hr_rewrite :: rewrite
  hr_replacement_prefix :: "string option"
  hr_security :: route_security
  hr_upstream :: upstream_config

definition rewrite_target :: "http_route \<Rightarrow> uri \<Rightarrow> string + string" where
  "rewrite_target route uri =
     and_then (validate_http_path (u_path uri)) (\<lambda>_.
     and_then
       (case hr_rewrite route of
          Preserve \<Rightarrow> Inr (u_path uri)
        | _ \<Rightarrow>
            and_then (ok_or ''route does not match'' (strip_prefix (hr_path route) (u_path uri)))
              (\<lambda>suffix.
            let prefix = (if hr_rewrite route = Replace_Prefix
                          then (case hr_replacement_prefix route of Some p \<Rightarrow> p | None \<Rightarrow> [])
                          else []);
                result = prefix @ suffix
            in Inr (if result = [] then ''/'' else result))) (\<lambda>path.
     Inr (case u_query uri of Some query \<Rightarrow> path @ ''?'' @ query | None \<Rightarrow> path)))"

record host_http_routes =
  hh_exact :: "http_route path_table"
  hh_prefixes :: "http_route path_table"

record http_route_table =
  ht_by_host :: "(string \<times> host_http_routes) list"
  ht_configured_count :: nat
  ht_enabled_count :: nat

section \<open>Building the table\<close>

record http_build =
  hb_ids :: "string set"
  hb_keys :: "(string \<times> string \<times> bool) set"
  hb_by_host :: "(string \<times> host_http_routes) list"
  hb_enabled :: nat

definition http_build_init :: http_build where
  "http_build_init = \<lparr> hb_ids = {}, hb_keys = {}, hb_by_host = [], hb_enabled = 0 \<rparr>"

definition check_http_id :: "string \<Rightarrow> string + unit" where
  "check_http_id i =
     (if i = [] \<or> 128 < length i \<or> any_char (\<lambda>c. is_whitespace c \<or> is_control c) i
      then Inl ''http_routes.id must be 1..128 bytes without control/whitespace''
      else Inr ())"

definition check_http_path :: "file_http_route_config \<Rightarrow> string + unit" where
  "check_http_path spec =
     and_then (validate_http_path (fr_path spec)) (\<lambda>_.
     if fr_path spec = ''/health/live'' \<or> fr_path spec = ''/health/ready''
     then Inl ''HTTP route uses a reserved health path''
     else if fr_path_match spec = Prefix \<and> fr_path spec \<noteq> ''/'' \<and> ends_with (fr_path spec) ''/''
     then Inl ''segment prefixes must not end in slash (except /)''
     else Inr ())"

definition check_http_rewrite :: "file_http_route_config \<Rightarrow> string + unit" where
  "check_http_rewrite spec =
     (if fr_rewrite spec = Strip_Prefix \<and> (fr_path_match spec \<noteq> Prefix \<or> fr_path spec = ''/'')
      then Inl ''strip_prefix requires a non-root segment prefix match''
      else case (fr_rewrite spec, fr_replacement_prefix spec) of
        (Replace_Prefix, Some prefix) \<Rightarrow>
          and_then (validate_http_path prefix) (\<lambda>_.
          if ends_with prefix ''/'' \<and> \<not> (prefix = ''/'' \<and> fr_path_match spec = Exact)
          then Inl ''replacement_prefix must not end in slash (except exact replacement /)''
          else if fr_path spec = ''/'' \<and> fr_path_match spec = Prefix
          then Inl ''replace_prefix of / is ambiguous; use preserve or a non-root prefix''
          else Inr ())
      | (Replace_Prefix, None) \<Rightarrow> Inl ''replace_prefix requires replacement_prefix''
      | (_, Some _) \<Rightarrow> Inl ''replacement_prefix is only valid with replace_prefix''
      | _ \<Rightarrow> Inr ())"

definition http_route_of :: "file_http_route_config \<Rightarrow> string \<Rightarrow> upstream_config \<Rightarrow> http_route" where
  "http_route_of spec host upstream =
     \<lparr> hr_id = fr_id spec, hr_host = host, hr_path = fr_path spec,
       hr_path_match = fr_path_match spec, hr_rewrite = fr_rewrite spec,
       hr_replacement_prefix = fr_replacement_prefix spec, hr_security = fr_security spec,
       hr_upstream = upstream \<rparr>"

definition add_http_route ::
  "string \<Rightarrow> http_route \<Rightarrow> (string \<times> host_http_routes) list \<Rightarrow> (string \<times> host_http_routes) list"
where
  "add_http_route host route by_host =
     (let routes = (case map_of by_host host of
                      Some routes \<Rightarrow> routes
                    | None \<Rightarrow> \<lparr> hh_exact = [], hh_prefixes = [] \<rparr>)
      in AList.update host
           (case hr_path_match route of
              Exact \<Rightarrow> routes\<lparr>hh_exact := AList.update (hr_path route) route (hh_exact routes)\<rparr>
            | Prefix \<Rightarrow> routes\<lparr>hh_prefixes := AList.update (hr_path route) route (hh_prefixes routes)\<rparr>)
           by_host)"

definition http_build_step ::
  "('h, 'm) http_lib_scheme \<Rightarrow> path \<Rightarrow> (string \<times> string) set \<Rightarrow> http_build
   \<Rightarrow> file_http_route_config \<Rightarrow> string + http_build"
where
  "http_build_step lib directory reserved st spec =
     and_then (check_http_id (fr_id spec)) (\<lambda>_.
     if fr_id spec \<in> hb_ids st then Inl (''duplicate HTTP route id '' @ fr_id spec) else
     and_then (normalize_dns_host (fr_host spec)) (\<lambda>host.
     and_then (check_http_path spec) (\<lambda>_.
     if (host, fr_path spec, fr_path_match spec = Prefix) \<in> hb_keys st
     then Inl (''duplicate HTTP match at '' @ host @ fr_path spec)
     else if fr_path_match spec = Exact \<and> (host, fr_path spec) \<in> reserved
     then Inl (''HTTP route at '' @ host @ fr_path spec
               @ '' is shadowed by an explicit WS/gRPC route'')
     else
     and_then (check_http_rewrite spec) (\<lambda>_.
     and_then (map_err (\<lambda>e. ''HTTP route '' @ fr_id spec @ '': '' @ e)
         (upstream_validate lib directory (fr_upstream spec))) (\<lambda>upstream.
     let st = st\<lparr>hb_ids := insert (fr_id spec) (hb_ids st),
                 hb_keys := insert (host, fr_path spec, fr_path_match spec = Prefix) (hb_keys st)\<rparr> in
     if fr_enabled spec
     then Inr (st\<lparr>hb_by_host := add_http_route host (http_route_of spec host upstream) (hb_by_host st),
                  hb_enabled := hb_enabled st + 1\<rparr>)
     else Inr st)))))"

definition http_table_build ::
  "('h, 'm) http_lib_scheme \<Rightarrow> path \<Rightarrow> (string \<times> string) set \<Rightarrow> file_http_route_config list
   \<Rightarrow> string + http_route_table"
where
  "http_table_build lib directory reserved specs =
     (if 4096 < length specs then Inl ''http_routes exceeds 4096 entries'' else
      and_then (try_fold (http_build_step lib directory reserved) http_build_init specs) (\<lambda>st.
      Inr \<lparr> ht_by_host = hb_by_host st, ht_configured_count = length specs,
            ht_enabled_count = hb_enabled st \<rparr>))"

section \<open>Resolving a path\<close>

text \<open>\<open>str::rfind\<close>: the index of the last occurrence.\<close>

definition rfind :: "char \<Rightarrow> string \<Rightarrow> nat option" where
  "rfind c s =
     (if c \<in> set s then Some (length s - 1 - length (takeWhile (\<lambda>x. x \<noteq> c) (rev s))) else None)"

lemma rfind_Some:
  assumes "rfind c s = Some i"
  shows "i < length s" and "s = take i s @ c # drop (Suc i) s" and "c \<notin> set (drop (Suc i) s)"
proof -
  from assms have c: "c \<in> set s" and i: "i = length s - 1 - length (takeWhile (\<lambda>x. x \<noteq> c) (rev s))"
    by (auto simp: rfind_def split: if_splits)
  define a where "a = takeWhile (\<lambda>x. x \<noteq> c) (rev s)"
  have a: "c \<notin> set a" by (auto simp: a_def dest: set_takeWhileD)
  obtain b where b: "rev s = a @ c # b"
  proof -
    have "rev s = a @ dropWhile (\<lambda>x. x \<noteq> c) (rev s)" by (simp add: a_def)
    moreover have "dropWhile (\<lambda>x. x \<noteq> c) (rev s) \<noteq> []" using c by (simp add: dropWhile_eq_Nil_conv)
    moreover from this have "hd (dropWhile (\<lambda>x. x \<noteq> c) (rev s)) = c"
      using hd_dropWhile [of "\<lambda>x. x \<noteq> c" "rev s"] by simp
    ultimately show thesis using that by (metis list.collapse)
  qed
  then have s: "s = rev b @ c # rev a"
    by (metis append.assoc append_Cons append_Nil rev.simps(2) rev_append rev_rev_ident)
  then have "length s = length b + 1 + length a" by simp
  with i have ib: "i = length b" unfolding a_def [symmetric] by simp
  show "i < length s" by (simp add: ib s)
  have t: "take i s = rev b" and d: "drop (Suc i) s = rev a"
    by (simp_all add: ib s)
  show "s = take i s @ c # drop (Suc i) s" unfolding t d by (rule s)
  show "c \<notin> set (drop (Suc i) s)" unfolding d using a by simp
qed

function resolve_prefix :: "'r path_table \<Rightarrow> string \<Rightarrow> 'r option" where
  "resolve_prefix prefixes candidate =
     (case map_of prefixes candidate of
        Some route \<Rightarrow> Some route
      | None \<Rightarrow>
          (case rfind (CHR ''/'') candidate of
             None \<Rightarrow> None
           | Some slash \<Rightarrow>
               if slash = 0 then map_of prefixes ''/''
               else resolve_prefix prefixes (take slash candidate)))"
  by pat_completeness auto
termination
  by (relation "measure (\<lambda>(prefixes, candidate). length candidate)") (auto dest: rfind_Some)

declare resolve_prefix.simps [simp del]

definition http_resolve :: "http_route_table \<Rightarrow> string \<Rightarrow> string \<Rightarrow> http_route option" where
  "http_resolve t host path =
     (case map_of (ht_by_host t) host of
        None \<Rightarrow> None
      | Some routes \<Rightarrow>
          (case map_of (hh_exact routes) path of
             Some route \<Rightarrow> Some route
           | None \<Rightarrow> resolve_prefix (hh_prefixes routes) path))"

definition http_hosts :: "http_route_table \<Rightarrow> string list" where
  "http_hosts t = map fst (ht_by_host t)"

definition http_enabled_routes :: "http_route_table \<Rightarrow> http_route list" where
  "http_enabled_routes t =
     concat (map (\<lambda>(host, routes). map snd (hh_exact routes) @ map snd (hh_prefixes routes))
       (ht_by_host t))"

declare escape_forbidden_def [eval_simps] check_segment_def [eval_simps]
  validate_http_path_def [eval_simps] rewrite_target_def [eval_simps] http_build_init_def [eval_simps]
  check_http_id_def [eval_simps] check_http_path_def [eval_simps] check_http_rewrite_def [eval_simps]
  http_route_of_def [eval_simps] add_http_route_def [eval_simps] http_build_step_def [eval_simps]
  http_table_build_def [eval_simps] rfind_def [eval_simps] resolve_prefix.simps [eval_simps]
  http_resolve_def [eval_simps] http_hosts_def [eval_simps]

section \<open>Valid paths mean what they say\<close>

text \<open>The decoding a backend may apply to the escapes of a path.\<close>

fun pct_decode :: "bytes \<Rightarrow> bytes" where
  "pct_decode [] = []"
| "pct_decode (b # bs) =
     (if b = CHR ''%'' then
        (case bs of
           h # l # rest \<Rightarrow>
             (case (hex_digit h, hex_digit l) of
                (Some high, Some low) \<Rightarrow> char_of (high * 16 + low) # pct_decode rest
              | _ \<Rightarrow> b # pct_decode bs)
         | _ \<Rightarrow> b # pct_decode bs)
      else b # pct_decode bs)"

text \<open>Escapes that pass the check, one by one.\<close>

lemma check_escapes_induct [consumes 1, case_names Nil Escape Char]:
  assumes "check_escapes s = Inr ()"
    and "P []"
    and "\<And>h l v rest. check_escapes rest = Inr () \<Longrightarrow> \<not> escape_forbidden v \<Longrightarrow> v < 256 \<Longrightarrow>
       (\<And>t. pct_decode (CHR ''%'' # h # l # t) = char_of v # pct_decode t) \<Longrightarrow>
       (\<And>t. check_escapes (CHR ''%'' # h # l # t) = check_escapes t) \<Longrightarrow>
       h \<noteq> CHR ''/'' \<Longrightarrow> l \<noteq> CHR ''/'' \<Longrightarrow>
       P rest \<Longrightarrow> P (CHR ''%'' # h # l # rest)"
    and "\<And>b bs. b \<noteq> CHR ''%'' \<Longrightarrow> check_escapes bs = Inr () \<Longrightarrow> P bs \<Longrightarrow> P (b # bs)"
  shows "P s"
  using assms(1)
proof (induction s rule: check_escapes.induct)
  case (2 b bs)
  show ?case
  proof (cases "b = CHR ''%''")
    case True
    with 2(3) obtain h l rest high low where bs: "bs = h # l # rest"
      and d: "hex_digit h = Some high" "hex_digit l = Some low"
      and v: "\<not> escape_forbidden (high * 16 + low)" "check_escapes rest = Inr ()"
      by (auto split: list.splits if_splits)
    have lt: "high * 16 + low < 256"
      using d hex_digit_less [of h high] hex_digit_less [of l low] by simp
    have "h \<noteq> CHR ''/''" "l \<noteq> CHR ''/''"
      using d by (auto simp: hex_digit_def is_ascii_digit_def byte_def split: if_splits)
    moreover have "P rest"
      by (rule 2(1) [OF True bs refl v(1) v(2)])
    ultimately show ?thesis
      using assms(3) [of rest "high * 16 + low" h l] v lt d by (simp add: True bs)
  next
    case False
    with 2 assms(4) show ?thesis by simp
  qed
qed (rule assms(2))

lemma escape_forbidden_byte [simp]:
  "escape_forbidden (byte (CHR ''/''))" "escape_forbidden (byte (CHR ''.''))"
  by (simp_all add: escape_forbidden_def byte_def char_of_eq_iff)

lemma pct_decode_no_slash:
  "check_escapes s = Inr () \<Longrightarrow> CHR ''/'' \<notin> set s \<Longrightarrow> CHR ''/'' \<notin> set (pct_decode s)"
proof (induction rule: check_escapes_induct)
  case (Escape h l v rest)
  have "char_of v \<noteq> CHR ''/''"
    using Escape(2) by (auto simp: escape_forbidden_def)
  with Escape show ?case by simp
qed simp_all

lemma pct_decode_forbidden:
  "check_escapes s = Inr () \<Longrightarrow> \<forall>c \<in> set (pct_decode s). escape_forbidden (byte c) \<Longrightarrow>
     pct_decode s = s"
proof (induction rule: check_escapes_induct)
  case (Escape h l v rest)
  have "escape_forbidden (byte (char_of v))"
    using Escape by simp
  with Escape show ?case by simp
qed auto

lemma pct_decode_append:
  "check_escapes s = Inr () \<Longrightarrow> pct_decode (s @ t) = pct_decode s @ pct_decode t"
  by (induction rule: check_escapes_induct) simp_all

lemma pct_decode_visible:
  "check_escapes s = Inr () \<Longrightarrow> \<forall>c \<in> set s. 32 < byte c \<and> byte c \<noteq> 127 \<Longrightarrow>
     \<forall>c \<in> set (pct_decode s). 32 \<le> byte c \<and> byte c \<noteq> 127"
proof (induction rule: check_escapes_induct)
  case (Escape h l v rest)
  then have "32 \<le> v \<and> v \<noteq> 127" by (auto simp: escape_forbidden_def)
  with Escape show ?case by simp
qed auto

lemma try_fold_check_segment:
  "try_fold check_segment u segs = Inr v \<longleftrightarrow>
     (\<forall>seg \<in> set segs. seg \<noteq> ''.'' \<and> seg \<noteq> ''..'' \<and> check_escapes seg = Inr ())"
  by (induction segs arbitrary: u) (auto simp: check_segment_def)

text \<open>What \<open>validate_http_path\<close> accepts, but for the length.\<close>

definition clean_path :: "string \<Rightarrow> bool" where
  "clean_path path \<longleftrightarrow>
     starts_with path ''/'' \<and>
     (\<forall>c \<in> set path. 32 < byte c \<and> byte c \<noteq> 127 \<and> c \<notin> {CHR ''?'', CHR ''#'', CHR 0x5C}) \<and>
     \<not> contains_str ''//'' path \<and>
     (\<forall>seg \<in> set (split_on (CHR ''/'') path).
        seg \<noteq> ''.'' \<and> seg \<noteq> ''..'' \<and> check_escapes seg = Inr ())"

lemma validate_http_path_iff:
  "validate_http_path path = Inr u \<longleftrightarrow> length path \<le> 8192 \<and> clean_path path"
proof -
  have bytes: "list_ex (\<lambda>b. byte b \<le> 32 \<or> byte b = 127) path \<longleftrightarrow>
      \<not> (\<forall>c \<in> set path. 32 < byte c \<and> byte c \<noteq> 127)"
    by (auto simp: list_ex_iff not_less)
  have query: "contains_any [CHR ''?'', CHR ''#'', CHR 0x5C] path \<longleftrightarrow>
      \<not> (\<forall>c \<in> set path. c \<notin> {CHR ''?'', CHR ''#'', CHR 0x5C})"
    by (auto simp: contains_any_def list_ex_iff)
  show ?thesis
    unfolding validate_http_path_def if_Inl_eq_Inr try_fold_check_segment bytes query clean_path_def
      ball_conj_distrib
    by (simp only: de_Morgan_disj not_not not_less conj_ac)
qed

lemma split_on_decode:
  "\<forall>seg \<in> set (split_on (CHR ''/'') path). check_escapes seg = Inr () \<Longrightarrow>
     split_on (CHR ''/'') (pct_decode path) = map pct_decode (split_on (CHR ''/'') path)"
proof (induction "length path" arbitrary: path rule: less_induct)
  case less
  show ?case
  proof (cases "CHR ''/'' \<in> set path")
    case False
    with less.prems have "check_escapes path = Inr ()" by (simp add: split_on_no_sep_id)
    with False pct_decode_no_slash [of path] show ?thesis by (simp add: split_on_no_sep_id)
  next
    case True
    then obtain a b where path: "path = a @ CHR ''/'' # b" and a: "CHR ''/'' \<notin> set a"
      using split_list_first by fastforce
    then have segs: "split_on (CHR ''/'') path = a # split_on (CHR ''/'') b"
      by (simp add: split_on_append_sep split_on_no_sep_id)
    with less.prems have esc: "check_escapes a = Inr ()" by simp
    have IH: "split_on (CHR ''/'') (pct_decode b) = map pct_decode (split_on (CHR ''/'') b)"
      by (rule less.hyps) (use less.prems segs path in auto)
    have "pct_decode path = pct_decode a @ CHR ''/'' # pct_decode b"
      using esc by (simp add: path pct_decode_append)
    moreover have "CHR ''/'' \<notin> set (pct_decode a)"
      using pct_decode_no_slash [OF esc a] .
    ultimately have "split_on (CHR ''/'') (pct_decode path)
        = pct_decode a # split_on (CHR ''/'') (pct_decode b)"
      by (simp add: split_on_append_sep split_on_no_sep_id)
    then show ?thesis by (simp only: IH segs list.map)
  qed
qed

lemma clean_path_decoded:
  assumes "clean_path path"
  shows "split_on (CHR ''/'') (pct_decode path) = map pct_decode (split_on (CHR ''/'') path)"
    and "seg \<in> set (split_on (CHR ''/'') (pct_decode path)) \<Longrightarrow> seg \<noteq> ''.'' \<and> seg \<noteq> ''..''"
    and "c \<in> set (pct_decode path) \<Longrightarrow> 32 \<le> byte c \<and> byte c \<noteq> 127"
proof -
  let ?segs = "split_on (CHR ''/'') path"
  have esc: "\<forall>seg \<in> set ?segs. check_escapes seg = Inr ()"
    using assms by (simp add: clean_path_def)
  show eq: "split_on (CHR ''/'') (pct_decode path) = map pct_decode ?segs"
    by (rule split_on_decode [OF esc])
  {
    assume "seg \<in> set (split_on (CHR ''/'') (pct_decode path))"
    then obtain x where x: "x \<in> set ?segs" "seg = pct_decode x" unfolding eq by auto
    have "pct_decode x = x" if "set (pct_decode x) \<subseteq> {CHR ''.''}"
      by (rule pct_decode_forbidden) (use esc x that in auto)
    moreover have "x \<noteq> ''.'' \<and> x \<noteq> ''..''" using assms x by (auto simp: clean_path_def)
    ultimately show "seg \<noteq> ''.'' \<and> seg \<noteq> ''..''"
      using x(2) by auto
  }
  assume c: "c \<in> set (pct_decode path)"
  show "32 \<le> byte c \<and> byte c \<noteq> 127"
  proof (cases "c = CHR ''/''")
    case True
    then show ?thesis by (simp add: byte_def)
  next
    case False
    then obtain seg where "seg \<in> set (split_on (CHR ''/'') (pct_decode path))" "c \<in> set seg"
      using split_on_cover [OF c] by blast
    then obtain x where x: "x \<in> set ?segs" "c \<in> set (pct_decode x)" unfolding eq by auto
    then have "\<forall>d \<in> set x. 32 < byte d \<and> byte d \<noteq> 127"
      using split_on_subset [of x "CHR ''/''" path] assms by (auto simp: clean_path_def)
    with pct_decode_visible [of x] esc x show ?thesis by blast
  qed
qed

section \<open>Rewriting keeps paths clean\<close>

lemma contains_str_slashes_append:
  "contains_str ''//'' (a @ b) \<longleftrightarrow>
     contains_str ''//'' a \<or> contains_str ''//'' b \<or>
     (a \<noteq> [] \<and> last a = CHR ''/'' \<and> b \<noteq> [] \<and> hd b = CHR ''/'')"
proof (induction a)
  case (Cons x a)
  have two: "starts_with (x # s) ''//'' \<longleftrightarrow> x = CHR ''/'' \<and> s \<noteq> [] \<and> hd s = CHR ''/''" for s
    by (cases s) (auto simp: starts_with_def)
  show ?case
    using Cons by (cases a) (auto simp: two)
qed simp

text \<open>A segment prefix cut off a clean path leaves nothing or a clean path.\<close>

lemma clean_path_suffix:
  assumes "clean_path (p @ suffix)" "suffix = [] \<or> starts_with suffix ''/''"
  shows "suffix = [] \<or> clean_path suffix"
proof (cases suffix)
  case (Cons c rest)
  with assms have suffix: "suffix = CHR ''/'' # rest" by simp
  have "split_on (CHR ''/'') (p @ suffix) = split_on (CHR ''/'') p @ split_on (CHR ''/'') rest"
    by (simp only: suffix split_on_append_sep)
  with assms(1) show ?thesis
    by (simp add: clean_path_def suffix contains_str_slashes_append del: contains_str.simps)
qed simp

lemma clean_path_append:
  assumes "clean_path p" "\<not> ends_with p ''/''" "suffix = [] \<or> clean_path suffix"
  shows "clean_path (p @ suffix)"
proof (cases suffix)
  case (Cons c rest)
  with assms have suffix: "suffix = CHR ''/'' # rest" and clean: "clean_path suffix"
    by (auto simp: clean_path_def)
  have "split_on (CHR ''/'') (p @ suffix) = split_on (CHR ''/'') p @ split_on (CHR ''/'') rest"
    by (simp only: suffix split_on_append_sep)
  then have segs: "\<forall>seg \<in> set (split_on (CHR ''/'') (p @ suffix)).
      seg \<noteq> ''.'' \<and> seg \<noteq> ''..'' \<and> check_escapes seg = Inr ()"
    using assms(1) clean by (auto simp: clean_path_def suffix)
  have p: "p \<noteq> []" "last p \<noteq> CHR ''/''"
    using assms(1,2) by (auto simp: clean_path_def)
  have "\<not> contains_str ''//'' (p @ suffix)"
    using assms(1) clean p by (simp add: contains_str_slashes_append clean_path_def)
  moreover have "starts_with (p @ suffix) ''/''"
    using assms(1) p by (simp add: clean_path_def)
  moreover have "\<forall>c \<in> set (p @ suffix). 32 < byte c \<and> byte c \<noteq> 127
      \<and> c \<notin> {CHR ''?'', CHR ''#'', CHR 0x5C}"
    using assms(1) clean unfolding clean_path_def set_append ball_Un by (elim conjE) (intro conjI)
  ultimately show ?thesis
    using segs unfolding clean_path_def by (intro conjI)
qed (use assms in simp)

lemma clean_path_root [simp]: "clean_path ''/''"
  by (simp add: clean_path_def byte_def starts_with_def)

section \<open>Prefixes of whole segments\<close>

definition seg_prefix :: "string \<Rightarrow> string \<Rightarrow> bool" where
  "seg_prefix p path \<longleftrightarrow>
     path = p \<or> (p \<noteq> [] \<and> (\<exists>rest. path = p @ ''/'' @ rest)) \<or> (p = ''/'' \<and> starts_with path ''/'')"

definition longest_prefix :: "'r path_table \<Rightarrow> string \<Rightarrow> 'r \<Rightarrow> bool" where
  "longest_prefix prefixes path route \<longleftrightarrow>
     (\<exists>p. map_of prefixes p = Some route \<and> seg_prefix p path \<and>
        (\<forall>q \<in> dom (map_of prefixes). seg_prefix q path \<longrightarrow> length q \<le> length p))"

lemma seg_prefix_refl [simp]: "seg_prefix p p"
  by (simp add: seg_prefix_def)

lemma seg_prefix_length: "seg_prefix p path \<Longrightarrow> length p \<le> length path"
  by (auto simp: seg_prefix_def starts_with_iff)

lemma seg_prefix_prefix: "seg_prefix p path \<Longrightarrow> \<exists>rest. path = p @ rest"
  by (auto simp: seg_prefix_def starts_with_iff)

lemma seg_prefix_unique: "seg_prefix p path \<Longrightarrow> seg_prefix q path \<Longrightarrow> length p = length q \<Longrightarrow> p = q"
  using seg_prefix_prefix [of p path] seg_prefix_prefix [of q path] by auto

text \<open>Cutting the last segment off keeps all shorter segment prefixes.\<close>

lemma seg_prefix_cut:
  assumes "CHR ''/'' \<notin> set rest" "starts_with c ''/''"
  shows "seg_prefix q (c @ CHR ''/'' # rest) \<longleftrightarrow> q = c @ CHR ''/'' # rest \<or> seg_prefix q c"
proof
  assume q: "seg_prefix q (c @ CHR ''/'' # rest)"
  then consider "q = c @ CHR ''/'' # rest" | "q = ''/''"
    | r where "q \<noteq> []" "c @ CHR ''/'' # rest = q @ ''/'' @ r"
    by (auto simp: seg_prefix_def)
  then show "q = c @ CHR ''/'' # rest \<or> seg_prefix q c"
  proof cases
    case 2
    with assms(2) show ?thesis by (simp add: seg_prefix_def)
  next
    case 3
    then consider us where "c = q @ us" "us @ CHR ''/'' # rest = ''/'' @ r"
      | us where "c @ us = q" "CHR ''/'' # rest = us @ ''/'' @ r"
      by (auto simp: append_eq_append_conv2)
    then show ?thesis
    proof cases
      case 1
      show ?thesis
      proof (cases us)
        case Nil
        with 1 show ?thesis by simp
      next
        case (Cons x xs)
        with 1 have "c = q @ ''/'' @ xs" by simp
        with 3 show ?thesis by (auto simp: seg_prefix_def)
      qed
    next
      case 2
      with assms(1) have "us = []" by (cases us) auto
      with 2 show ?thesis by simp
    qed
  qed simp
next
  assume "q = c @ CHR ''/'' # rest \<or> seg_prefix q c"
  then show "seg_prefix q (c @ CHR ''/'' # rest)"
    using assms(2) by (auto simp: seg_prefix_def starts_with_iff)
qed

lemma longest_prefix_here:
  assumes "map_of prefixes path = Some r"
  shows "longest_prefix prefixes path route \<longleftrightarrow> route = r"
proof
  assume "longest_prefix prefixes path route"
  then obtain p where p: "map_of prefixes p = Some route" "seg_prefix p path"
    and longest: "\<forall>q \<in> dom (map_of prefixes). seg_prefix q path \<longrightarrow> length q \<le> length p"
    by (auto simp: longest_prefix_def)
  from assms have "path \<in> dom (map_of prefixes)" by (rule domI)
  with longest seg_prefix_refl have "length path \<le> length p" by blast
  with seg_prefix_length [OF p(2)] have "p = path"
    by (intro seg_prefix_unique [OF p(2)]) simp_all
  with p assms show "route = r" by simp
next
  assume "route = r"
  with assms show "longest_prefix prefixes path route"
    by (auto simp: longest_prefix_def seg_prefix_length intro!: exI [of _ path])
qed

lemma resolve_prefix_iff:
  assumes "starts_with candidate ''/''"
  shows "resolve_prefix prefixes candidate = Some route \<longleftrightarrow> longest_prefix prefixes candidate route"
  using assms
proof (induction prefixes candidate rule: resolve_prefix.induct)
  case (1 prefixes candidate)
  show ?case
  proof (cases "map_of prefixes candidate")
    case (Some r)
    then show ?thesis
      by (auto simp: resolve_prefix.simps [of prefixes candidate] longest_prefix_here)
  next
    case None
    from 1(2) have "CHR ''/'' \<in> set candidate" by (auto simp: starts_with_iff)
    then obtain slash where slash: "rfind (CHR ''/'') candidate = Some slash"
      by (simp add: rfind_def)
    define rest where "rest = drop (Suc slash) candidate"
    have cand: "candidate = take slash candidate @ CHR ''/'' # rest" and rest: "CHR ''/'' \<notin> set rest"
      using rfind_Some [OF slash] by (simp_all add: rest_def)
    show ?thesis
    proof (cases "slash = 0")
      case True
      then have c: "candidate = CHR ''/'' # rest" using cand by simp
      have "seg_prefix q candidate \<longleftrightarrow> q = candidate \<or> q = ''/''" for q
      proof
        assume "seg_prefix q candidate"
        then consider "q = candidate" | "q = ''/''" | r where "q \<noteq> []" "candidate = q @ ''/'' @ r"
          by (auto simp: seg_prefix_def)
        then show "q = candidate \<or> q = ''/''"
        proof cases
          case 3
          with c rest show ?thesis by (cases q) auto
        qed simp_all
      qed (use c in \<open>auto simp: seg_prefix_def\<close>)
      with None have "longest_prefix prefixes candidate route \<longleftrightarrow> map_of prefixes ''/'' = Some route"
        by (auto simp: longest_prefix_def)
      with None slash True show ?thesis
        by (simp add: resolve_prefix.simps [of prefixes candidate])
    next
      case False
      then have start: "starts_with (take slash candidate) ''/''"
        using 1(2) rfind_Some(1) [OF slash] by (cases candidate) (auto simp: take_Cons')
      have cut: "seg_prefix q candidate \<longleftrightarrow> q = candidate \<or> seg_prefix q (take slash candidate)" for q
        using seg_prefix_cut [OF rest start, of q] cand by simp
      have "longest_prefix prefixes candidate route
          \<longleftrightarrow> longest_prefix prefixes (take slash candidate) route"
        unfolding longest_prefix_def cut using None by auto
      with 1(1) [OF None slash False start] None slash False show ?thesis
        by (simp add: resolve_prefix.simps [of prefixes candidate])
    qed
  qed
qed

section \<open>What the table holds\<close>

definition http_table_lookup ::
  "(string \<times> host_http_routes) list \<Rightarrow> string \<times> string \<times> bool \<Rightarrow> http_route option"
where
  "http_table_lookup t k =
     (case k of (host, path, is_prefix) \<Rightarrow>
      case map_of t host of
        None \<Rightarrow> None
      | Some routes \<Rightarrow> map_of (if is_prefix then hh_prefixes routes else hh_exact routes) path)"

lemma http_table_lookup_Nil [simp]: "http_table_lookup [] k = None"
  by (simp add: http_table_lookup_def split: prod.split)

lemma http_table_lookup_add:
  "http_table_lookup (add_http_route host route t) k =
     (if k = (host, hr_path route, hr_path_match route = Prefix) then Some route
      else http_table_lookup t k)"
  by (cases k; cases "hr_path_match route"; cases "map_of t host")
    (auto simp: http_table_lookup_def add_http_route_def Let_def update_conv' split: option.splits)

definition http_key :: "file_http_route_config \<Rightarrow> (string \<times> string \<times> bool) option" where
  "http_key spec =
     map_option (\<lambda>host. (host, fr_path spec, fr_path_match spec = Prefix))
       (result_ok (normalize_dns_host (fr_host spec)))"

definition http_compile ::
  "('h, 'm) http_lib_scheme \<Rightarrow> path \<Rightarrow> (string \<times> string) set \<Rightarrow> file_http_route_config
   \<Rightarrow> http_route option"
where
  "http_compile lib directory reserved spec =
     (case (check_http_id (fr_id spec), normalize_dns_host (fr_host spec), check_http_path spec,
            check_http_rewrite spec, upstream_validate lib directory (fr_upstream spec)) of
        (Inr _, Inr host, Inr _, Inr _, Inr upstream) \<Rightarrow>
          if fr_path_match spec = Exact \<and> (host, fr_path spec) \<in> reserved then None
          else Some (http_route_of spec host upstream)
      | _ \<Rightarrow> None)"

lemma http_compile_cases:
  assumes "http_compile lib directory reserved s = Some r"
  obtains host upstream where "normalize_dns_host (fr_host s) = Inr host"
    "check_http_id (fr_id s) = Inr ()" "check_http_path s = Inr ()" "check_http_rewrite s = Inr ()"
    "upstream_validate lib directory (fr_upstream s) = Inr upstream"
    "\<not> (fr_path_match s = Exact \<and> (host, fr_path s) \<in> reserved)"
    "r = http_route_of s host upstream"
  using assms that by (auto simp: http_compile_def split: sum.splits if_splits)

lemma http_compile_key:
  "http_compile lib directory reserved s = Some r \<Longrightarrow>
     http_key s = Some (hr_host r, hr_path r, hr_path_match r = Prefix)"
  by (elim http_compile_cases) (simp add: http_key_def http_route_of_def)

definition http_build_ok ::
  "('h, 'm) http_lib_scheme \<Rightarrow> path \<Rightarrow> (string \<times> string) set \<Rightarrow> file_http_route_config list
   \<Rightarrow> http_build \<Rightarrow> bool"
where
  "http_build_ok lib directory reserved pre st \<longleftrightarrow>
     hb_ids st = set (map fr_id pre) \<and> distinct (map fr_id pre) \<and>
     Some ` hb_keys st = set (map http_key pre) \<and> distinct (map http_key pre) \<and>
     (\<forall>s \<in> set pre. http_compile lib directory reserved s \<noteq> None) \<and>
     (\<forall>k r. http_table_lookup (hb_by_host st) k = Some r \<longleftrightarrow>
        (\<exists>s \<in> set pre. fr_enabled s \<and> http_key s = Some k
           \<and> http_compile lib directory reserved s = Some r)) \<and>
     hb_enabled st = length (filter fr_enabled pre)"

lemma http_build_step_Inr:
  assumes "http_build_step lib directory reserved st spec = Inr st'"
  obtains k r where "http_key spec = Some k" "http_compile lib directory reserved spec = Some r"
    "fr_id spec \<notin> hb_ids st" "k \<notin> hb_keys st" "fr_enabled spec \<or> \<not> fr_enabled spec"
    "st' = st\<lparr>hb_ids := insert (fr_id spec) (hb_ids st), hb_keys := insert k (hb_keys st),
              hb_by_host := (if fr_enabled spec then add_http_route (hr_host r) r (hb_by_host st)
                             else hb_by_host st),
              hb_enabled := (if fr_enabled spec then hb_enabled st + 1 else hb_enabled st)\<rparr>"
proof -
  obtain host upstream where v: "check_http_id (fr_id spec) = Inr ()"
    "normalize_dns_host (fr_host spec) = Inr host" "check_http_path spec = Inr ()"
    "check_http_rewrite spec = Inr ()"
    "upstream_validate lib directory (fr_upstream spec) = Inr upstream"
    and new: "fr_id spec \<notin> hb_ids st"
    "(host, fr_path spec, fr_path_match spec = Prefix) \<notin> hb_keys st"
    "\<not> (fr_path_match spec = Exact \<and> (host, fr_path spec) \<in> reserved)"
    using assms unfolding http_build_step_def Let_def
    by (elim and_then_InrE if_Inl_InrE map_err_InrE) (metis (full_types) old.unit.exhaust)
  have st': "st' = st\<lparr>hb_ids := insert (fr_id spec) (hb_ids st),
      hb_keys := insert (host, fr_path spec, fr_path_match spec = Prefix) (hb_keys st),
      hb_by_host := (if fr_enabled spec
        then add_http_route host (http_route_of spec host upstream) (hb_by_host st)
        else hb_by_host st),
      hb_enabled := (if fr_enabled spec then hb_enabled st + 1 else hb_enabled st)\<rparr>"
    using assms v new by (simp add: http_build_step_def Let_def split: if_splits)
  show thesis
  proof (rule that)
    show "http_key spec = Some (host, fr_path spec, fr_path_match spec = Prefix)"
      using v by (simp add: http_key_def)
    show "http_compile lib directory reserved spec = Some (http_route_of spec host upstream)"
      using v new by (auto simp: http_compile_def)
  qed (use new st' in \<open>simp_all add: http_route_of_def\<close>)
qed

lemma http_build_step_ok:
  assumes ok: "http_build_ok lib directory reserved pre st"
    and step: "http_build_step lib directory reserved st spec = Inr st'"
  shows "http_build_ok lib directory reserved (pre @ [spec]) st'"
proof -
  from step obtain k r where new: "http_key spec = Some k"
    "http_compile lib directory reserved spec = Some r" "fr_id spec \<notin> hb_ids st"
    "k \<notin> hb_keys st"
    and st': "st' = st\<lparr>hb_ids := insert (fr_id spec) (hb_ids st), hb_keys := insert k (hb_keys st),
              hb_by_host := (if fr_enabled spec then add_http_route (hr_host r) r (hb_by_host st)
                             else hb_by_host st),
              hb_enabled := (if fr_enabled spec then hb_enabled st + 1 else hb_enabled st)\<rparr>"
    by (rule http_build_step_Inr)
  have fresh: "http_key spec \<notin> set (map http_key pre)"
  proof -
    have "Some ` hb_keys st = set (map http_key pre)"
      using ok by (simp add: http_build_ok_def)
    with new(1,4) show ?thesis by (auto simp del: set_map)
  qed
  then have "http_key s \<noteq> Some k" if "s \<in> set pre" for s
    using that new(1) by force
  moreover have k: "k = (hr_host r, hr_path r, hr_path_match r = Prefix)"
    using http_compile_key [OF new(2)] new(1) by simp
  ultimately have lookup: "http_table_lookup (hb_by_host st') q = Some x \<longleftrightarrow>
      (\<exists>s \<in> set (pre @ [spec]). fr_enabled s \<and> http_key s = Some q
         \<and> http_compile lib directory reserved s = Some x)"
    for q x
    using ok new(1,2)
    by (auto simp: http_build_ok_def st' http_table_lookup_add
        simp del: split_paired_All split_paired_Ex)
  have "distinct (map http_key (pre @ [spec]))"
    using ok fresh by (simp add: http_build_ok_def)
  with lookup show ?thesis
    using ok new(1-3) by (simp add: http_build_ok_def st' del: split_paired_All split_paired_Ex)
qed

lemma http_table_build_ok:
  assumes "http_table_build lib directory reserved specs = Inr t"
  obtains st where "http_build_ok lib directory reserved specs st"
    "t = \<lparr> ht_by_host = hb_by_host st, ht_configured_count = length specs,
           ht_enabled_count = hb_enabled st \<rparr>"
proof -
  from assms obtain st where
    run: "try_fold (http_build_step lib directory reserved) http_build_init specs = Inr st"
    and t: "t = \<lparr> ht_by_host = hb_by_host st, ht_configured_count = length specs,
           ht_enabled_count = hb_enabled st \<rparr>"
    by (auto simp: http_table_build_def split: if_splits)
  have "http_build_ok lib directory reserved ([] @ specs) st"
  proof (rule try_fold_invariant [OF run, where P = "http_build_ok lib directory reserved"])
    show "http_build_ok lib directory reserved [] http_build_init"
      by (simp add: http_build_ok_def http_build_init_def)
  qed (rule http_build_step_ok)
  with t that show thesis by simp
qed

interpretation http_tbl:
  keyed_routes "http_table_build lib directory reserved" "\<lambda>t. http_table_lookup (ht_by_host t)"
    fr_enabled http_key "http_compile lib directory reserved"
proof
  fix specs t k r s
  assume b: "http_table_build lib directory reserved specs = Inr t"
  then obtain st where st: "http_build_ok lib directory reserved specs st"
    and t: "t = \<lparr> ht_by_host = hb_by_host st, ht_configured_count = length specs,
           ht_enabled_count = hb_enabled st \<rparr>"
    by (rule http_table_build_ok)
  show "http_table_lookup (ht_by_host t) k = Some r \<longleftrightarrow>
      (\<exists>s \<in> set specs. fr_enabled s \<and> http_key s = Some k
         \<and> http_compile lib directory reserved s = Some r)"
    using st by (simp add: t http_build_ok_def del: split_paired_All split_paired_Ex)
  show "distinct (map http_key specs)"
    using st by (simp add: http_build_ok_def)
  show "http_compile lib directory reserved s \<noteq> None \<and> http_key s \<noteq> None" if "s \<in> set specs"
    using st that http_compile_key [of lib directory reserved s] by (auto simp: http_build_ok_def)
qed

section \<open>What a request resolves to\<close>

lemma http_resolve_lookup:
  assumes "starts_with path ''/''"
  shows "http_resolve t host path = Some r \<longleftrightarrow>
     http_table_lookup (ht_by_host t) (host, path, False) = Some r \<or>
     (http_table_lookup (ht_by_host t) (host, path, False) = None \<and>
      (\<exists>p. http_table_lookup (ht_by_host t) (host, p, True) = Some r \<and> seg_prefix p path \<and>
         (\<forall>q. http_table_lookup (ht_by_host t) (host, q, True) \<noteq> None \<longrightarrow> seg_prefix q path \<longrightarrow>
            length q \<le> length p)))"
proof (cases "map_of (ht_by_host t) host")
  case None
  then show ?thesis by (simp add: http_resolve_def http_table_lookup_def)
next
  case (Some routes)
  have "\<And>q. q \<in> dom (map_of (hh_prefixes routes)) \<longleftrightarrow> map_of (hh_prefixes routes) q \<noteq> None"
    by auto
  then show ?thesis
    using Some resolve_prefix_iff [OF assms, of "hh_prefixes routes" r]
    by (cases "map_of (hh_exact routes) path")
      (simp_all add: http_resolve_def http_table_lookup_def longest_prefix_def Ball_def)
qed

definition serves_exactly ::
  "('h, 'm) http_lib_scheme \<Rightarrow> path \<Rightarrow> (string \<times> string) set \<Rightarrow> file_http_route_config list
   \<Rightarrow> string \<times> string \<times> bool \<Rightarrow> http_route \<Rightarrow> bool"
where
  "serves_exactly lib directory reserved specs k r \<longleftrightarrow>
     (\<exists>s \<in> set specs. fr_enabled s \<and> http_key s = Some k
        \<and> http_compile lib directory reserved s = Some r)"

text \<open>
  An exact route for the path wins; otherwise the enabled prefix route whose prefix, on a segment
  boundary, is the longest.
\<close>

lemma http_resolve_spec:
  assumes "http_table_build lib directory reserved specs = Inr t" "starts_with path ''/''"
  shows "http_resolve t host path = Some r \<longleftrightarrow>
     serves_exactly lib directory reserved specs (host, path, False) r \<or>
     ((\<forall>x. \<not> serves_exactly lib directory reserved specs (host, path, False) x) \<and>
      (\<exists>p. serves_exactly lib directory reserved specs (host, p, True) r \<and> seg_prefix p path \<and>
         (\<forall>q x. serves_exactly lib directory reserved specs (host, q, True) x \<longrightarrow>
            seg_prefix q path \<longrightarrow> length q \<le> length p)))"
proof -
  have k: "http_table_lookup (ht_by_host t) k = Some x \<longleftrightarrow>
      serves_exactly lib directory reserved specs k x" for k x
    unfolding serves_exactly_def by (rule http_tbl.resolve_build [OF assms(1)])
  have none: "http_table_lookup (ht_by_host t) k = None \<longleftrightarrow>
      (\<forall>x. \<not> serves_exactly lib directory reserved specs k x)" for k
    unfolding k [symmetric] by auto
  show ?thesis
    unfolding http_resolve_lookup [OF assms(2)] k none by auto
qed

definition route_matches :: "http_route \<Rightarrow> string \<Rightarrow> bool" where
  "route_matches r path \<longleftrightarrow>
     (case hr_path_match r of Exact \<Rightarrow> path = hr_path r | Prefix \<Rightarrow> seg_prefix (hr_path r) path)"

definition http_route_ok :: "http_route \<Rightarrow> bool" where
  "http_route_ok r \<longleftrightarrow>
     canonical_host (hr_host r) \<and> clean_path (hr_path r) \<and> upstream_config_ok (hr_upstream r) \<and>
     hr_path r \<notin> {''/health/live'', ''/health/ready''} \<and>
     (hr_path_match r = Prefix \<longrightarrow> hr_path r = ''/'' \<or> \<not> ends_with (hr_path r) ''/'') \<and>
     (hr_rewrite r = Strip_Prefix \<longrightarrow> hr_path_match r = Prefix \<and> hr_path r \<noteq> ''/'') \<and>
     (hr_rewrite r = Replace_Prefix \<longrightarrow>
        (\<exists>p. hr_replacement_prefix r = Some p \<and> clean_path p \<and>
           (ends_with p ''/'' \<longrightarrow> hr_path_match r = Exact) \<and>
           (hr_path_match r = Prefix \<longrightarrow> hr_path r \<noteq> ''/'')))"

lemma check_http_path_ok:
  assumes "check_http_path s = Inr u"
  shows "clean_path (fr_path s)" "fr_path s \<notin> {''/health/live'', ''/health/ready''}"
    "fr_path_match s = Prefix \<Longrightarrow> fr_path s = ''/'' \<or> \<not> ends_with (fr_path s) ''/''"
  using assms unfolding check_http_path_def
  by (auto simp: if_Inl_eq_Inr validate_http_path_iff simp del: ends_with_single)

lemma check_http_rewrite_ok:
  assumes "check_http_rewrite s = Inr u"
  shows "fr_rewrite s = Strip_Prefix \<Longrightarrow> fr_path_match s = Prefix \<and> fr_path s \<noteq> ''/''"
    and "fr_rewrite s = Replace_Prefix \<Longrightarrow>
      \<exists>p. fr_replacement_prefix s = Some p \<and> clean_path p \<and>
        (ends_with p ''/'' \<longrightarrow> fr_path_match s = Exact) \<and>
        (fr_path_match s = Prefix \<longrightarrow> fr_path s \<noteq> ''/'')"
proof -
  show "fr_path_match s = Prefix \<and> fr_path s \<noteq> ''/''" if "fr_rewrite s = Strip_Prefix"
    using assms that by (auto simp: check_http_rewrite_def if_Inl_eq_Inr)
  assume r: "fr_rewrite s = Replace_Prefix"
  then obtain p where p: "fr_replacement_prefix s = Some p"
    using assms by (cases "fr_replacement_prefix s") (auto simp: check_http_rewrite_def)
  with assms r show "\<exists>p. fr_replacement_prefix s = Some p \<and> clean_path p \<and>
        (ends_with p ''/'' \<longrightarrow> fr_path_match s = Exact) \<and>
        (fr_path_match s = Prefix \<longrightarrow> fr_path s \<noteq> ''/'')"
    by (auto simp: check_http_rewrite_def if_Inl_eq_Inr validate_http_path_iff
        simp del: ends_with_single)
qed

lemma http_compile_ok:
  assumes "http_compile lib directory reserved s = Some r"
  shows "http_route_ok r" and "hr_security r = fr_security s" and "hr_id r = fr_id s"
    and "hr_path_match r = Exact \<Longrightarrow> (hr_host r, hr_path r) \<notin> reserved"
proof -
  from assms obtain host upstream where v: "normalize_dns_host (fr_host s) = Inr host"
    "check_http_path s = Inr ()" "check_http_rewrite s = Inr ()"
    "upstream_validate lib directory (fr_upstream s) = Inr upstream"
    and r: "r = http_route_of s host upstream"
    and new: "\<not> (fr_path_match s = Exact \<and> (host, fr_path s) \<in> reserved)"
    by (rule http_compile_cases)
  have "canonical_host host" by (rule normalize_dns_host_canonical [OF v(1)])
  moreover have "upstream_config_ok upstream" by (rule upstream_validate_ok [OF v(4)])
  ultimately show "http_route_ok r"
    using check_http_path_ok [OF v(2)] check_http_rewrite_ok [OF v(3)]
    unfolding http_route_ok_def r http_route_of_def http_route.simps by blast
  show "hr_security r = fr_security s" "hr_id r = fr_id s"
    by (simp_all add: r http_route_of_def)
  show "hr_path_match r = Exact \<Longrightarrow> (hr_host r, hr_path r) \<notin> reserved"
    using new by (simp add: r http_route_of_def)
qed

lemma serves_exactly_ok:
  assumes "serves_exactly lib directory reserved specs (host, p, prefixed) r"
  shows "hr_host r = host" "hr_path r = p" "hr_path_match r = Prefix \<longleftrightarrow> prefixed" "http_route_ok r"
  using assms http_compile_key http_compile_ok(1)
  by (fastforce simp: serves_exactly_def)+

lemma http_resolve_route:
  assumes "http_table_build lib directory reserved specs = Inr t" "starts_with path ''/''"
    and "http_resolve t host path = Some r"
  shows "http_route_ok r" "hr_host r = host" "route_matches r path"
proof -
  from assms(3) consider "serves_exactly lib directory reserved specs (host, path, False) r"
    | p where "serves_exactly lib directory reserved specs (host, p, True) r" "seg_prefix p path"
    unfolding http_resolve_spec [OF assms(1,2)] by blast
  then have "http_route_ok r \<and> hr_host r = host \<and> route_matches r path"
  proof cases
    case 1
    with serves_exactly_ok [OF 1] show ?thesis
      by (cases "hr_path_match r") (simp_all add: route_matches_def)
  next
    case 2
    with serves_exactly_ok [OF 2(1)] show ?thesis
      by (cases "hr_path_match r") (simp_all add: route_matches_def)
  qed
  then show "http_route_ok r" "hr_host r = host" "route_matches r path" by blast+
qed

text \<open>The rewritten path of a matching request: it exists, and it is a clean path again.\<close>

lemma rewrite_target_clean:
  assumes ok: "http_route_ok r" and path: "validate_http_path (u_path uri) = Inr ()"
    and m: "route_matches r (u_path uri)"
  obtains target where "clean_path target"
    "rewrite_target r uri = Inr (case u_query uri of Some q \<Rightarrow> target @ ''?'' @ q | None \<Rightarrow> target)"
proof -
  have clean: "clean_path (u_path uri)" using path by (simp add: validate_http_path_iff)
  show thesis
  proof (cases "hr_rewrite r = Preserve")
    case True
    with path clean that show thesis by (simp add: rewrite_target_def)
  next
    case False
    obtain suffix where p: "u_path uri = hr_path r @ suffix"
      and suffix: "suffix = [] \<or> (hr_path_match r = Prefix \<and>
        (hr_path r = ''/'' \<or> starts_with suffix ''/''))"
    proof (cases "hr_path_match r")
      case Exact
      with m that show thesis by (simp add: route_matches_def)
    next
      case Prefix
      with m have "seg_prefix (hr_path r) (u_path uri)" by (simp add: route_matches_def)
      with Prefix that show thesis by (auto simp: seg_prefix_def starts_with_iff)
    qed
    have "suffix = [] \<or> starts_with suffix ''/''"
      using suffix ok False by (cases "hr_rewrite r") (auto simp: http_route_ok_def)
    then have sc: "suffix = [] \<or> clean_path suffix"
      by (rule clean_path_suffix [OF clean [unfolded p]])
    define pre where "pre = (if hr_rewrite r = Replace_Prefix
      then (case hr_replacement_prefix r of Some p \<Rightarrow> p | None \<Rightarrow> []) else [])"
    have "pre = [] \<or> (clean_path pre \<and> (suffix = [] \<or> \<not> ends_with pre ''/''))"
      using ok suffix False
      by (cases "hr_rewrite r") (auto simp: pre_def http_route_ok_def simp del: ends_with_single)
    with sc have c: "clean_path (if pre @ suffix = [] then ''/'' else pre @ suffix)"
      using clean_path_append [of pre suffix] by auto
    show thesis
      by (rule that [OF c], cases "hr_rewrite r"; cases "u_query uri")
        (use path False p in \<open>simp_all add: rewrite_target_def pre_def Let_def\<close>)
  qed
qed

end
