(* ===== verification/Websocket_Message.thy ===== *)
theory Websocket_Message
  imports Utf8
begin

text \<open>
  \<open>src/gateway/websocket_message.rs\<close>: the bound and the order of message fragments and the
  incremental UTF-8 validation of text messages.  The frames are what the WebSocket library reads.
  The specification is about whole messages: \<open>message_spec\<close> keeps the payload received so far.
\<close>

section \<open>Frames and errors\<close>

datatype opcode = Continuation | Text | Binary | Close | Ping | Pong

record frame =
  fm_fin :: bool
  fm_opcode :: opcode
  fm_payload :: bytes

datatype websocket_error =
    Invalid_Fragment
  | Invalid_Continuation_Frame
  | Frame_Too_Large
  | Invalid_UTF8

section \<open>\<open>MessageSequence\<close>\<close>

record message_sequence =
  ms_maximum :: nat
  ms_opcode :: "opcode option"
  ms_bytes :: nat
  ms_utf8_tail :: bytes

definition message_sequence_new :: "nat \<Rightarrow> message_sequence" where
  "message_sequence_new maximum =
     \<lparr> ms_maximum = maximum, ms_opcode = None, ms_bytes = 0, ms_utf8_tail = [] \<rparr>"

text \<open>The last part of \<open>validate_utf8\<close>: the data behind the completed scalar value.\<close>

definition validate_rest :: "bytes \<Rightarrow> bytes \<Rightarrow> bool \<Rightarrow> (websocket_error + unit) \<times> bytes" where
  "validate_rest utf8_tail data final_fragment =
     (case from_utf8 data of
        Utf8_Ok \<Rightarrow> (Inr (), utf8_tail)
      | Utf8_Err valid_up_to error_len \<Rightarrow>
          if error_len = None \<and> \<not> final_fragment
          then (Inr (), utf8_tail @ drop valid_up_to data)
          else (Inl Invalid_UTF8, utf8_tail))"

definition validate_utf8 :: "bytes \<Rightarrow> bytes \<Rightarrow> bool \<Rightarrow> (websocket_error + unit) \<times> bytes" where
  "validate_utf8 utf8_tail data final_fragment =
     (case utf8_tail of
        [] \<Rightarrow> validate_rest [] data final_fragment
      | first # _ \<Rightarrow>
          let width = lead_width first;
              n = min (width - length utf8_tail) (length data);
              utf8_tail = utf8_tail @ take n data;
              data = drop n data
          in case from_utf8 utf8_tail of
               Utf8_Ok \<Rightarrow> validate_rest [] data final_fragment
             | Utf8_Err _ error_len \<Rightarrow>
                 if error_len = None \<and> \<not> final_fragment then (Inr (), utf8_tail)
                 else (Inl Invalid_UTF8, utf8_tail))"

fun is_data_opcode :: "opcode \<Rightarrow> bool" where
  "is_data_opcode Text = True"
| "is_data_opcode Binary = True"
| "is_data_opcode _ = False"

text \<open>The common end of \<open>validate\<close> for data frames.\<close>

definition validate_data :: "message_sequence \<Rightarrow> frame \<Rightarrow> (websocket_error + unit) \<times> message_sequence" where
  "validate_data st frame =
     (case checked_add64 (ms_bytes st) (length (fm_payload frame)) of
        None \<Rightarrow> (Inl Frame_Too_Large, st)
      | Some bytes \<Rightarrow>
          let st = st\<lparr>ms_bytes := bytes\<rparr> in
          if ms_maximum st < bytes then (Inl Frame_Too_Large, st)
          else
            let (r, utf8_tail) =
                  (if ms_opcode st = Some Text
                   then validate_utf8 (ms_utf8_tail st) (fm_payload frame) (fm_fin frame)
                   else (Inr (), ms_utf8_tail st));
                st = st\<lparr>ms_utf8_tail := utf8_tail\<rparr>
            in case r of
                 Inl e \<Rightarrow> (Inl e, st)
               | Inr _ \<Rightarrow>
                   (Inr (), if fm_fin frame then st\<lparr>ms_opcode := None, ms_bytes := 0\<rparr> else st))"

definition sequence_validate ::
  "message_sequence \<Rightarrow> frame \<Rightarrow> (websocket_error + unit) \<times> message_sequence"
where
  "sequence_validate st frame =
     (case fm_opcode frame of
        Continuation \<Rightarrow>
          if ms_opcode st = None then (Inl Invalid_Continuation_Frame, st)
          else validate_data st frame
      | op \<Rightarrow>
          if is_data_opcode op then
            (if ms_opcode st \<noteq> None then (Inl Invalid_Fragment, st)
             else validate_data
                    (st\<lparr>ms_opcode := Some op, ms_bytes := 0, ms_utf8_tail := []\<rparr>) frame)
          else if length (fm_payload frame) \<le> 125 then (Inr (), st)
          else (Inl Frame_Too_Large, st))"

section \<open>\<open>BoundedMessages\<close>\<close>

record bounded_messages =
  bm_sequence :: message_sequence
  bm_fragments :: "(opcode \<times> bytes) option"

definition bounded_messages_new :: "nat \<Rightarrow> bounded_messages" where
  "bounded_messages_new maximum =
     \<lparr> bm_sequence = message_sequence_new maximum, bm_fragments = None \<rparr>"

text \<open>How much capacity a fragment buffer reserves has no effect on what it holds and is left out.\<close>

definition collect_frame ::
  "bounded_messages \<Rightarrow> frame \<Rightarrow> (websocket_error + frame option) \<times> bounded_messages"
where
  "collect_frame bm frame =
     (case sequence_validate (bm_sequence bm) frame of
        (Inl e, sq) \<Rightarrow> (Inl e, bm\<lparr>bm_sequence := sq\<rparr>)
      | (Inr _, sq) \<Rightarrow>
          let bm = bm\<lparr>bm_sequence := sq\<rparr> in
          if is_data_opcode (fm_opcode frame) \<and> \<not> fm_fin frame then
            (Inr None, bm\<lparr>bm_fragments := Some (fm_opcode frame, fm_payload frame)\<rparr>)
          else if fm_opcode frame = Continuation then
            (case bm_fragments bm of
               None \<Rightarrow> (Inl Invalid_Continuation_Frame, bm)
             | Some (op, buffer) \<Rightarrow>
                 (case checked_add64 (length buffer) (length (fm_payload frame)) of
                    None \<Rightarrow> (Inl Frame_Too_Large, bm)
                  | Some len \<Rightarrow>
                      if ms_maximum (bm_sequence bm) < len then (Inl Frame_Too_Large, bm)
                      else
                        let buffer = buffer @ fm_payload frame in
                        if fm_fin frame then
                          (Inr (Some \<lparr> fm_fin = True, fm_opcode = op, fm_payload = buffer \<rparr>),
                           bm\<lparr>bm_fragments := None\<rparr>)
                        else (Inr None, bm\<lparr>bm_fragments := Some (op, buffer)\<rparr>)))
          else
            (Inr (Some \<lparr> fm_fin = fm_fin frame, fm_opcode = fm_opcode frame,
                         fm_payload = fm_payload frame \<rparr>), bm))"

text \<open>A stream of frames up to the first error: the frames passed on.\<close>

fun collect_stream ::
  "bounded_messages \<Rightarrow> frame list \<Rightarrow> frame list \<times> websocket_error option"
where
  "collect_stream bm [] = ([], None)"
| "collect_stream bm (f # fs) =
     (case collect_frame bm f of
        (Inl e, _) \<Rightarrow> ([], Some e)
      | (Inr None, bm') \<Rightarrow> collect_stream bm' fs
      | (Inr (Some m), bm') \<Rightarrow> (let (ms, e) = collect_stream bm' fs in (m # ms, e)))"

declare message_sequence_new_def [eval_simps] validate_rest_def [eval_simps]
  validate_utf8_def [eval_simps] validate_data_def [eval_simps] sequence_validate_def [eval_simps]
  bounded_messages_new_def [eval_simps] collect_frame_def [eval_simps]
  lead_width_def [eval_simps] checked_add64_def [eval_simps] from_utf8_Cons [eval_simps]
  utf8_next_def [eval_simps] is_cont_def [eval_simps] second_of_3_def [eval_simps]
  second_of_4_def [eval_simps]

section \<open>Whole messages\<close>

text \<open>What the bytes of an unfinished text may be: valid, or valid up to an unfinished scalar value.\<close>

definition utf8_prefix :: "bytes \<Rightarrow> bool" where
  "utf8_prefix s \<longleftrightarrow> from_utf8 s = Utf8_Ok \<or> (\<exists>v. from_utf8 s = Utf8_Err v None)"

definition utf8_rest :: "bytes \<Rightarrow> bytes" where
  "utf8_rest s = (case from_utf8 s of Utf8_Ok \<Rightarrow> [] | Utf8_Err v _ \<Rightarrow> drop v s)"

definition text_ok :: "bytes \<Rightarrow> bool \<Rightarrow> bool" where
  "text_ok s fin \<longleftrightarrow> (if fin then from_utf8 s = Utf8_Ok else utf8_prefix s)"

definition message_data ::
  "nat \<Rightarrow> opcode \<Rightarrow> bytes \<Rightarrow> bool \<Rightarrow> websocket_error + (opcode \<times> bytes) option"
where
  "message_data maximum op payload fin =
     (if maximum < length payload then Inl Frame_Too_Large
      else if op = Text \<and> \<not> text_ok payload fin then Inl Invalid_UTF8
      else Inr (if fin then None else Some (op, payload)))"

definition message_spec ::
  "nat \<Rightarrow> (opcode \<times> bytes) option \<Rightarrow> frame \<Rightarrow> websocket_error + (opcode \<times> bytes) option"
where
  "message_spec maximum m f =
     (if fm_opcode f = Continuation then
        (case m of
           None \<Rightarrow> Inl Invalid_Continuation_Frame
         | Some (op, payload) \<Rightarrow> message_data maximum op (payload @ fm_payload f) (fm_fin f))
      else if is_data_opcode (fm_opcode f) then
        (if m \<noteq> None then Inl Invalid_Fragment
         else message_data maximum (fm_opcode f) (fm_payload f) (fm_fin f))
      else if length (fm_payload f) \<le> 125 then Inr m else Inl Frame_Too_Large)"

definition seq_refines :: "message_sequence \<Rightarrow> nat \<Rightarrow> (opcode \<times> bytes) option \<Rightarrow> bool" where
  "seq_refines st maximum m \<longleftrightarrow>
     ms_maximum st = maximum \<and>
     (case m of
        None \<Rightarrow> ms_opcode st = None
      | Some (op, payload) \<Rightarrow>
          ms_opcode st = Some op \<and> is_data_opcode op \<and> ms_bytes st = length payload \<and>
          length payload \<le> maximum \<and>
          (op = Text \<longrightarrow> utf8_prefix payload \<and> ms_utf8_tail st = utf8_rest payload))"

section \<open>The incremental validation is the validation of the whole text\<close>

definition utf8_verdict :: "bytes \<Rightarrow> bool \<Rightarrow> websocket_error + unit" where
  "utf8_verdict s fin = (if text_ok s fin then Inr () else Inl Invalid_UTF8)"

lemma validate_rest_verdict:
  "validate_rest [] d fin = (r, tail) \<Longrightarrow>
     r = utf8_verdict d fin \<and> (\<not> fin \<longrightarrow> is_ok r \<longrightarrow> tail = utf8_rest d)"
  by (auto simp: validate_rest_def utf8_verdict_def text_ok_def utf8_prefix_def utf8_rest_def
      split: utf8_result.splits if_splits)

lemma shift_result_Err_None:
  "(\<exists>v. shift_result k r = Utf8_Err v None) \<longleftrightarrow> (\<exists>v. r = Utf8_Err v None)"
  by (cases r) auto

lemma text_ok_append: "from_utf8 s = Utf8_Ok \<Longrightarrow> text_ok (s @ d) fin = text_ok d fin"
  by (simp add: text_ok_def utf8_prefix_def from_utf8_append_Ok shift_result_Err_None)

lemma utf8_rest_append: "from_utf8 s = Utf8_Ok \<Longrightarrow> utf8_rest (s @ d) = utf8_rest d"
  by (cases "from_utf8 d") (simp_all add: utf8_rest_def from_utf8_append_Ok)

lemma utf8_verdict_append: "from_utf8 s = Utf8_Ok \<Longrightarrow> utf8_verdict (s @ d) fin = utf8_verdict d fin"
  by (simp add: utf8_verdict_def text_ok_append)

text \<open>One unfinished scalar value and the data that follows it.\<close>

lemma validate_utf8_incomplete:
  assumes inc: "utf8_next c cs = Utf8_Incomplete"
    and run: "validate_utf8 (c # cs) d fin = (r, tail)"
  shows "r = utf8_verdict (c # cs @ d) fin \<and>
     (\<not> fin \<longrightarrow> is_ok r \<longrightarrow> tail = utf8_rest (c # cs @ d))"
proof -
  define n where "n = min (lead_width c - length (c # cs)) (length d)"
  define t where "t = c # cs @ take n d"
  have lead: "128 \<le> byte c" "length (c # cs) < lead_width c"
    using utf8_next_Incomplete [OF inc] by simp_all
  have split: "c # cs @ d = t @ drop n d" by (simp add: t_def)
  have run': "(case from_utf8 t of
       Utf8_Ok \<Rightarrow> validate_rest [] (drop n d) fin
     | Utf8_Err _ error_len \<Rightarrow>
         if error_len = None \<and> \<not> fin then (Inr (), t) else (Inl Invalid_UTF8, t)) = (r, tail)"
    using run unfolding validate_utf8_def list.case Let_def n_def t_def append_Cons .
  show ?thesis
  proof (cases "utf8_next c (cs @ take n d)")
    case (Utf8_Char w)
    then have "w = lead_width c" using utf8_next_Char_width lead(1) by blast
    moreover have "w \<le> length t" using utf8_next_Char_bounds [OF Utf8_Char] by (simp add: t_def)
    moreover have "length t \<le> lead_width c" using lead(2) by (simp add: t_def n_def)
    ultimately have "length t = w" by simp
    with Utf8_Char have ok: "from_utf8 t = Utf8_Ok"
      by (simp add: t_def from_utf8_Cons)
    with run' have "validate_rest [] (drop n d) fin = (r, tail)" by simp
    from validate_rest_verdict [OF this] show ?thesis
      unfolding split by (simp add: utf8_verdict_append [OF ok] utf8_rest_append [OF ok])
  next
    case Utf8_Incomplete
    then have "length (c # cs @ take n d) < lead_width c"
      using utf8_next_Incomplete by fastforce
    then have "n = length d" using lead(2) by (auto simp: n_def min_def split: if_splits)
    then have whole: "c # cs @ d = t" by (simp add: t_def)
    have "from_utf8 t = Utf8_Err 0 None"
      using Utf8_Incomplete by (simp add: t_def from_utf8_Cons)
    with run' show ?thesis
      unfolding whole
      by (auto simp: utf8_verdict_def text_ok_def utf8_prefix_def utf8_rest_def split: if_splits)
  next
    case (Utf8_Bad k)
    then have bad: "from_utf8 t = Utf8_Err 0 (Some k)"
      by (simp add: t_def from_utf8_Cons)
    then have "from_utf8 (t @ drop n d) = Utf8_Err 0 (Some k)"
      by (rule from_utf8_append_Bad)
    with run' bad show ?thesis
      unfolding split by (auto simp: utf8_verdict_def text_ok_def utf8_prefix_def)
  qed
qed

lemma utf8_prefix_split:
  assumes "utf8_prefix s"
  obtains good where "s = good @ utf8_rest s" "from_utf8 good = Utf8_Ok"
    "utf8_rest s = [] \<or> (\<exists>c cs. utf8_rest s = c # cs \<and> utf8_next c cs = Utf8_Incomplete)"
proof (cases "from_utf8 s")
  case Utf8_Ok
  with that [of s] show thesis by (simp add: utf8_rest_def)
next
  case (Utf8_Err v e)
  with assms have e: "from_utf8 s = Utf8_Err v None" by (auto simp: utf8_prefix_def)
  from from_utf8_Incomplete [OF e] obtain c cs where "drop v s = c # cs"
    "utf8_next c cs = Utf8_Incomplete" "from_utf8 (take v s) = Utf8_Ok" by blast
  moreover have "utf8_rest s = drop v s" using e by (simp add: utf8_rest_def)
  ultimately show thesis using that [of "take v s"] append_take_drop_id [of v s] by metis
qed

lemma validate_utf8_verdict:
  assumes "utf8_prefix s" and run: "validate_utf8 (utf8_rest s) d fin = (r, tail)"
  shows "r = utf8_verdict (s @ d) fin \<and> (\<not> fin \<longrightarrow> is_ok r \<longrightarrow> tail = utf8_rest (s @ d))"
proof -
  obtain good where s: "s = good @ utf8_rest s" and good: "from_utf8 good = Utf8_Ok"
    and rest: "utf8_rest s = [] \<or>
      (\<exists>c cs. utf8_rest s = c # cs \<and> utf8_next c cs = Utf8_Incomplete)"
    using utf8_prefix_split [OF assms(1)] by blast
  have eq: "s @ d = good @ (utf8_rest s @ d)"
    using arg_cong [OF s, where f = "\<lambda>x. x @ d"] by simp
  have "r = utf8_verdict (utf8_rest s @ d) fin \<and>
      (\<not> fin \<longrightarrow> is_ok r \<longrightarrow> tail = utf8_rest (utf8_rest s @ d))"
    using rest
  proof
    assume "utf8_rest s = []"
    with run show ?thesis using validate_rest_verdict by (simp add: validate_utf8_def)
  next
    assume "\<exists>c cs. utf8_rest s = c # cs \<and> utf8_next c cs = Utf8_Incomplete"
    then obtain c cs where c: "utf8_rest s = c # cs" "utf8_next c cs = Utf8_Incomplete" by blast
    show ?thesis
      using validate_utf8_incomplete [OF c(2) run [unfolded c(1)]] by (simp add: c(1))
  qed
  then show ?thesis
    unfolding eq utf8_verdict_append [OF good] utf8_rest_append [OF good] .
qed

section \<open>Refinement of the message specification\<close>

lemma utf8_prefix_Nil [simp]: "utf8_prefix []" "utf8_rest [] = []"
  by (simp_all add: utf8_prefix_def utf8_rest_def)

text \<open>A data frame continues a message of which \<open>old\<close> is there already.\<close>

lemma validate_data_refines:
  assumes st: "ms_opcode st = Some op" "is_data_opcode op" "ms_bytes st = length old"
    "op = Text \<Longrightarrow> utf8_prefix old \<and> ms_utf8_tail st = utf8_rest old"
    and mx: "ms_maximum st \<le> u64_max"
    and run: "validate_data st f = (r, st')"
  shows "case message_data (ms_maximum st) op (old @ fm_payload f) (fm_fin f) of
       Inl e \<Rightarrow> r = Inl e
     | Inr m \<Rightarrow> r = Inr () \<and> seq_refines st' (ms_maximum st) m"
proof (cases "ms_maximum st < length (old @ fm_payload f)")
  case True
  then show ?thesis
    using st mx run
    by (auto simp: validate_data_def message_data_def checked_add64_def Let_def split: if_splits)
next
  case False
  define v where "v = (if op = Text then validate_utf8 (ms_utf8_tail st) (fm_payload f) (fm_fin f)
    else (Inr (), ms_utf8_tail st))"
  obtain q tail where q: "v = (q, tail)" by (cases v)
  have add: "checked_add64 (length old) (length (fm_payload f)) = Some (length (old @ fm_payload f))"
    using False mx by (simp add: checked_add64_def)
  have res: "(r, st') = (case q of
      Inl e \<Rightarrow> (Inl e, st\<lparr>ms_bytes := length (old @ fm_payload f), ms_utf8_tail := tail\<rparr>)
    | Inr _ \<Rightarrow> (Inr (), if fm_fin f
        then st\<lparr>ms_opcode := None, ms_bytes := 0, ms_utf8_tail := tail\<rparr>
        else st\<lparr>ms_bytes := length (old @ fm_payload f), ms_utf8_tail := tail\<rparr>))"
    using run False st(1,3) q
    by (cases q) (auto simp: validate_data_def add Let_def v_def split: if_splits)
  show ?thesis
  proof (cases "op = Text")
    case True
    with st(4) q have "q = utf8_verdict (old @ fm_payload f) (fm_fin f) \<and>
        (\<not> fm_fin f \<longrightarrow> is_ok q \<longrightarrow> tail = utf8_rest (old @ fm_payload f))"
      using validate_utf8_verdict by (simp add: v_def)
    with res False True st show ?thesis
      by (auto simp: utf8_verdict_def message_data_def seq_refines_def text_ok_def split: if_splits)
  next
    case other: False
    with q have "q = Inr ()" by (simp add: v_def)
    with res False other st show ?thesis
      by (auto simp: message_data_def seq_refines_def split: if_splits)
  qed
qed

lemma sequence_validate_refines:
  assumes st: "seq_refines st maximum m" and mx: "maximum \<le> u64_max"
    and run: "sequence_validate st f = (r, st')"
  shows "case message_spec maximum m f of
       Inl e \<Rightarrow> r = Inl e
     | Inr m' \<Rightarrow> r = Inr () \<and> seq_refines st' maximum m'"
proof -
  have max: "ms_maximum st = maximum" using st by (simp add: seq_refines_def)
  consider (cont) "fm_opcode f = Continuation" | (data) "is_data_opcode (fm_opcode f)"
    | (control) "\<not> is_data_opcode (fm_opcode f)" "fm_opcode f \<noteq> Continuation"
    by (cases "fm_opcode f") auto
  then show ?thesis
  proof cases
    case cont
    show ?thesis
    proof (cases m)
      case None
      with cont st run show ?thesis
        by (auto simp: message_spec_def sequence_validate_def seq_refines_def)
    next
      case (Some op_payload)
      then obtain op old where m: "m = Some (op, old)" by (cases op_payload) auto
      with st have s: "ms_opcode st = Some op" "is_data_opcode op" "ms_bytes st = length old"
        "op = Text \<Longrightarrow> utf8_prefix old \<and> ms_utf8_tail st = utf8_rest old"
        by (auto simp: seq_refines_def)
      have "validate_data st f = (r, st')"
        using run cont s by (simp add: sequence_validate_def)
      from validate_data_refines [OF s _ this, unfolded max] mx cont m show ?thesis
        by (simp add: message_spec_def)
    qed
  next
    case data
    show ?thesis
    proof (cases m)
      case None
      let ?st = "st\<lparr>ms_opcode := Some (fm_opcode f), ms_bytes := 0, ms_utf8_tail := []\<rparr>"
      have "validate_data ?st f = (r, st')"
        using run data st None
        by (cases "fm_opcode f") (simp_all add: sequence_validate_def seq_refines_def)
      have mm: "ms_maximum ?st = maximum" by (simp add: max)
      have "case message_data maximum (fm_opcode f) ([] @ fm_payload f) (fm_fin f) of
           Inl e \<Rightarrow> r = Inl e
         | Inr m \<Rightarrow> r = Inr () \<and> seq_refines st' maximum m"
        by (rule validate_data_refines [where st = ?st, unfolded mm])
          (use data mx \<open>validate_data ?st f = (r, st')\<close> in simp_all)
      then show ?thesis
        using mx data None max by (cases "fm_opcode f") (simp_all add: message_spec_def)
    next
      case (Some x)
      with data st run show ?thesis
        by (cases "fm_opcode f")
          (auto simp: message_spec_def sequence_validate_def seq_refines_def split: prod.splits)
    qed
  next
    case control
    with st run show ?thesis
      by (cases "fm_opcode f")
        (auto simp: message_spec_def sequence_validate_def split: if_splits)
  qed
qed

lemma message_spec_data_opcode:
  "message_spec maximum m f = Inr (Some (op, payload)) \<Longrightarrow>
     (\<And>op p. m = Some (op, p) \<Longrightarrow> is_data_opcode op) \<Longrightarrow> is_data_opcode op"
  by (auto simp: message_spec_def message_data_def split: if_splits option.splits)

text \<open>\<open>BoundedMessages\<close> keeps the payload of the message in progress.\<close>

definition bounded_refines :: "bounded_messages \<Rightarrow> nat \<Rightarrow> (opcode \<times> bytes) option \<Rightarrow> bool" where
  "bounded_refines bm maximum m \<longleftrightarrow> seq_refines (bm_sequence bm) maximum m \<and> bm_fragments bm = m"

text \<open>What a frame delivers: nothing while its message goes on, the whole message at its end, and
  control frames as they are.\<close>

definition delivered :: "(opcode \<times> bytes) option \<Rightarrow> frame \<Rightarrow> frame option" where
  "delivered m f =
     (if fm_opcode f = Continuation \<and> fm_fin f then
        map_option (\<lambda>(op, old).
          \<lparr> fm_fin = True, fm_opcode = op, fm_payload = old @ fm_payload f \<rparr>) m
      else if fm_opcode f = Continuation \<or> (is_data_opcode (fm_opcode f) \<and> \<not> fm_fin f) then None
      else Some f)"

lemma message_data_bound:
  "message_data maximum op payload fin = Inr m \<Longrightarrow> length payload \<le> maximum"
  by (auto simp: message_data_def split: if_splits)

lemma message_data_result:
  "message_data maximum op payload fin = Inr m \<Longrightarrow> m = (if fin then None else Some (op, payload))"
  by (simp add: message_data_def if_Inl_eq_Inr)

lemma collect_frame_refines:
  assumes bm: "bounded_refines bm maximum m" and mx: "maximum \<le> u64_max"
    and run: "collect_frame bm f = (r, bm')"
  shows "case message_spec maximum m f of
       Inl e \<Rightarrow> r = Inl e
     | Inr m' \<Rightarrow> r = Inr (delivered m f) \<and> bounded_refines bm' maximum m'"
proof -
  obtain q sq where v: "sequence_validate (bm_sequence bm) f = (q, sq)"
    by (cases "sequence_validate (bm_sequence bm) f")
  have sr: "seq_refines (bm_sequence bm) maximum m" and frag: "bm_fragments bm = m"
    using bm by (simp_all add: bounded_refines_def)
  note ref = sequence_validate_refines [OF sr mx v]
  show ?thesis
  proof (cases "message_spec maximum m f")
    case (Inl e)
    with ref v run show ?thesis by (auto simp: collect_frame_def)
  next
    case (Inr m')
    with ref have q: "q = Inr ()" and sq: "seq_refines sq maximum m'" by simp_all
    have smax: "ms_maximum sq = maximum" using sq by (simp add: seq_refines_def)
    note run' = run [symmetric, unfolded collect_frame_def v q prod.case sum.case Let_def]
    have same: "\<lparr> fm_fin = fm_fin f, fm_opcode = fm_opcode f, fm_payload = fm_payload f \<rparr> = f"
      by simp
    consider (cont) "fm_opcode f = Continuation" | (data) "is_data_opcode (fm_opcode f)"
      | (control) "\<not> is_data_opcode (fm_opcode f)" "fm_opcode f \<noteq> Continuation"
      by (cases "fm_opcode f") auto
    then have "r = Inr (delivered m f) \<and> bounded_refines bm' maximum m'"
    proof cases
      case cont
      with Inr obtain op old where m: "m = Some (op, old)"
        and d: "message_data maximum op (old @ fm_payload f) (fm_fin f) = Inr m'"
        by (auto simp: message_spec_def split: option.splits)
      have len: "length old + length (fm_payload f) \<le> maximum"
        using message_data_bound [OF d] by simp
      have m': "m' = (if fm_fin f then None else Some (op, old @ fm_payload f))"
        using message_data_result [OF d] .
      have add: "checked_add64 (length old) (length (fm_payload f))
          = Some (length old + length (fm_payload f))"
        unfolding checked_add64_def using len mx by simp
      have nb: "\<not> ms_maximum sq < length old + length (fm_payload f)"
        using len smax by simp
      have res: "(r, bm') = (if fm_fin f
          then (Inr (Some \<lparr> fm_fin = True, fm_opcode = op, fm_payload = old @ fm_payload f \<rparr>),
                bm\<lparr>bm_sequence := sq, bm_fragments := None\<rparr>)
          else (Inr None, bm\<lparr>bm_sequence := sq, bm_fragments := Some (op, old @ fm_payload f)\<rparr>))"
        unfolding run' by (simp add: cont frag m add nb)
      show ?thesis
        using res sq m m' cont
        by (cases "fm_fin f") (auto simp: delivered_def bounded_refines_def)
    next
      case data
      then have "fm_opcode f \<noteq> Continuation" by auto
      with data Inr have "m = None \<and>
          message_data maximum (fm_opcode f) (fm_payload f) (fm_fin f) = Inr m'"
        by (cases m) (simp_all add: message_spec_def if_Inl_eq_Inr)
      then have "m = None" "m' = (if fm_fin f then None else Some (fm_opcode f, fm_payload f))"
        using message_data_result by blast+
      moreover have "(r, bm') = (if fm_fin f then (Inr (Some f), bm\<lparr>bm_sequence := sq\<rparr>)
          else (Inr None, bm\<lparr>bm_sequence := sq, bm_fragments := Some (fm_opcode f, fm_payload f)\<rparr>))"
        unfolding run' same using data by (cases "fm_opcode f") simp_all
      ultimately show ?thesis
        using sq frag data
        by (cases "fm_fin f"; cases "fm_opcode f") (simp_all add: delivered_def bounded_refines_def)
    next
      case control
      with Inr have "m' = m" by (auto simp: message_spec_def split: if_splits)
      moreover have "(r, bm') = (Inr (Some f), bm\<lparr>bm_sequence := sq\<rparr>)"
        unfolding run' same using control by simp
      ultimately show ?thesis
        using sq frag control by (simp add: delivered_def bounded_refines_def)
    qed
    with Inr show ?thesis by simp
  qed
qed

lemma bounded_messages_new_refines: "bounded_refines (bounded_messages_new maximum) maximum None"
  by (simp add: bounded_refines_def bounded_messages_new_def seq_refines_def
      message_sequence_new_def)

text \<open>The specification of a stream.\<close>

fun spec_stream ::
  "nat \<Rightarrow> (opcode \<times> bytes) option \<Rightarrow> frame list \<Rightarrow> frame list \<times> websocket_error option"
where
  "spec_stream maximum m [] = ([], None)"
| "spec_stream maximum m (f # fs) =
     (case message_spec maximum m f of
        Inl e \<Rightarrow> ([], Some e)
      | Inr m' \<Rightarrow>
          (case delivered m f of
             None \<Rightarrow> spec_stream maximum m' fs
           | Some d \<Rightarrow> (let (ds, e) = spec_stream maximum m' fs in (d # ds, e))))"

lemma collect_stream_spec:
  assumes "bounded_refines bm maximum m" "maximum \<le> u64_max"
  shows "collect_stream bm fs = spec_stream maximum m fs"
  using assms(1)
proof (induction fs arbitrary: bm m)
  case (Cons f fs)
  obtain r bm' where run: "collect_frame bm f = (r, bm')" by (cases "collect_frame bm f")
  note ref = collect_frame_refines [OF Cons.prems assms(2) run]
  show ?case
  proof (cases "message_spec maximum m f")
    case (Inl e)
    with ref run show ?thesis by simp
  next
    case (Inr m')
    with ref have "r = Inr (delivered m f)" "bounded_refines bm' maximum m'" by simp_all
    with run Inr Cons.IH [of bm' m'] show ?thesis
      by (cases "delivered m f") simp_all
  qed
qed simp

text \<open>Nothing leaves the stream but bounded, complete, valid messages and short control frames.\<close>

definition deliverable :: "nat \<Rightarrow> frame \<Rightarrow> bool" where
  "deliverable maximum d \<longleftrightarrow>
     (if is_data_opcode (fm_opcode d)
      then fm_fin d \<and> length (fm_payload d) \<le> maximum \<and>
           (fm_opcode d = Text \<longrightarrow> from_utf8 (fm_payload d) = Utf8_Ok)
      else fm_opcode d \<noteq> Continuation \<and> length (fm_payload d) \<le> 125)"

lemma spec_stream_deliverable:
  assumes "\<And>op p. m = Some (op, p) \<Longrightarrow> is_data_opcode op"
  shows "\<forall>d \<in> set (fst (spec_stream maximum m fs)). deliverable maximum d"
  using assms
proof (induction fs arbitrary: m)
  case (Cons f fs)
  show ?case
  proof (cases "message_spec maximum m f")
    case (Inr m')
    have op: "\<And>op p. m' = Some (op, p) \<Longrightarrow> is_data_opcode op"
      using message_spec_data_opcode Inr Cons.prems by blast
    have "deliverable maximum d" if "delivered m f = Some d" for d
      using Inr that Cons.prems
      by (cases "fm_opcode f")
        (auto simp: message_spec_def message_data_def delivered_def deliverable_def text_ok_def
          split: if_splits option.splits)
    with Inr Cons.IH [OF op] show ?thesis
      by (auto split: option.splits prod.splits)
  qed simp
qed simp

section \<open>A fragmented text\<close>

lemma utf8_prefix_of_ok: "from_utf8 (s @ t) = Utf8_Ok \<Longrightarrow> utf8_prefix s"
proof (cases "from_utf8 s")
  case (Utf8_Err v e)
  assume ok: "from_utf8 (s @ t) = Utf8_Ok"
  have "e = None"
    using from_utf8_append_Bad [of s v _ t] Utf8_Err ok by (cases e) auto
  with Utf8_Err show ?thesis by (simp add: utf8_prefix_def)
qed (simp add: utf8_prefix_def)

fun fragments_of :: "bytes list \<Rightarrow> frame list" where
  "fragments_of [] = []"
| "fragments_of [p] = [\<lparr> fm_fin = True, fm_opcode = Continuation, fm_payload = p \<rparr>]"
| "fragments_of (p # ps) =
     \<lparr> fm_fin = False, fm_opcode = Continuation, fm_payload = p \<rparr> # fragments_of ps"

lemma spec_stream_fragments:
  assumes "ps \<noteq> []" "is_data_opcode op"
  shows "spec_stream maximum (Some (op, old)) (fragments_of ps) =
      ([\<lparr> fm_fin = True, fm_opcode = op, fm_payload = old @ concat ps \<rparr>], None) \<longleftrightarrow>
    length (old @ concat ps) \<le> maximum \<and>
    (op = Text \<longrightarrow> from_utf8 (old @ concat ps) = Utf8_Ok)"
  using assms(1)
proof (induction ps arbitrary: old rule: fragments_of.induct)
  case (2 p)
  then show ?case
    by (auto simp: message_spec_def message_data_def delivered_def text_ok_def)
next
  case (3 p q ps)
  have prefix: "from_utf8 (old @ p @ q @ concat ps) = Utf8_Ok \<Longrightarrow> utf8_prefix (old @ p)"
    using utf8_prefix_of_ok [of "old @ p" "q @ concat ps"] by simp
  show ?case
    using 3(1) [of "old @ p"] prefix
    by (auto simp: message_spec_def message_data_def delivered_def text_ok_def)
qed simp

end
