(* ===== verification/Ip_Blocking_Config.thy ===== *)
theory Ip_Blocking_Config
  imports Http_Routes
begin

text \<open>
  \<open>src/security/ip_blocking_config.rs\<close>: the configuration of the IP block list, its defaults and
  its validation.
\<close>

record violation_thresholds =
  vt_invalid_websocket :: nat
  vt_invalid_grpc :: nat
  vt_size_violation :: nat
  vt_namespace_scan :: nat

definition default_thresholds :: violation_thresholds where
  "default_thresholds =
     \<lparr> vt_invalid_websocket = 20, vt_invalid_grpc = 20, vt_size_violation = 5,
       vt_namespace_scan = 60 \<rparr>"

record file_ip_blocking_config =
  fb_enabled :: bool
  fb_state_file :: path
  fb_allow_cidrs :: "string list"
  fb_scan_namespaces :: "string list"
  fb_max_tracked_client_ips :: nat
  fb_max_blocked_client_ips :: nat
  fb_max_pending_activations :: nat
  fb_persistence_batch_size :: nat
  fb_log_client_ip :: bool
  fb_thresholds :: violation_thresholds

definition default_ip_blocking_config :: file_ip_blocking_config where
  "default_ip_blocking_config =
     \<lparr> fb_enabled = False, fb_state_file = ''state/ip-blocklist-v1.json'', fb_allow_cidrs = [],
       fb_scan_namespaces = [], fb_max_tracked_client_ips = 65536,
       fb_max_blocked_client_ips = 50000, fb_max_pending_activations = 1024,
       fb_persistence_batch_size = 128, fb_log_client_ip = False,
       fb_thresholds = default_thresholds \<rparr>"

record ip_blocking_config =
  bc_file :: file_ip_blocking_config
  bc_allow :: "ip_network list"

definition check_namespace :: "string set \<Rightarrow> string \<Rightarrow> anyhow + string set" where
  "check_namespace seen path =
     and_then (map_err (\<lambda>e. [e]) (validate_http_path path)) (\<lambda>_.
     if path = ''/'' \<or> ends_with path ''/'' \<or> 256 < length path \<or> CHR ''?'' \<in> set path
        \<or> CHR ''#'' \<in> set path \<or> starts_with path ''/health'' \<or> path \<in> seen
     then bail ''scan_namespaces require unique non-root segment prefixes excluding /health''
     else Inr (insert path seen))"

definition check_threshold :: "unit \<Rightarrow> nat \<Rightarrow> anyhow + unit" where
  "check_threshold u threshold =
     (if \<not> (1 \<le> threshold \<and> threshold \<le> 1000000) then bail ''thresholds must be 1..1000000''
      else Inr ())"

definition ip_blocking_validate :: "path \<Rightarrow> file_ip_blocking_config \<Rightarrow> anyhow + ip_blocking_config" where
  "ip_blocking_validate directory c =
     (if fb_state_file c = [] \<or> path_file_name (fb_state_file c) = None
      then bail ''state_file requires a file path'' else
      let c = (if \<not> path_is_absolute (fb_state_file c)
               then c\<lparr>fb_state_file := path_join directory (fb_state_file c)\<rparr> else c) in
      if \<not> (64 \<le> fb_max_tracked_client_ips c \<and> fb_max_tracked_client_ips c \<le> 1000000)
      then bail ''max_tracked_client_ips must be 64..1000000''
      else if \<not> (1 \<le> fb_max_blocked_client_ips c \<and> fb_max_blocked_client_ips c \<le> 100000)
      then bail ''max_blocked_client_ips must be 1..100000''
      else if \<not> (1 \<le> fb_max_pending_activations c \<and> fb_max_pending_activations c \<le> 10000)
              \<or> fb_max_tracked_client_ips c < fb_max_pending_activations c
      then bail ''max_pending_activations must be 1..10000 and <= tracked capacity''
      else if fb_persistence_batch_size c = 0
              \<or> fb_max_pending_activations c < fb_persistence_batch_size c
      then bail ''persistence_batch_size must be 1..max_pending_activations''
      else if 128 < length (fb_allow_cidrs c) \<or> 128 < length (fb_scan_namespaces c)
      then bail ''allow_cidrs and scan_namespaces each limited to 128''
      else
        and_then (collect_results (\<lambda>v. map_err (\<lambda>e. [e]) (ip_network_parse v)) (fb_allow_cidrs c))
          (\<lambda>allow.
        and_then (try_fold check_namespace {} (fb_scan_namespaces c)) (\<lambda>_.
        and_then (try_fold check_threshold ()
            [vt_invalid_websocket (fb_thresholds c), vt_invalid_grpc (fb_thresholds c),
             vt_size_violation (fb_thresholds c), vt_namespace_scan (fb_thresholds c)]) (\<lambda>_.
        Inr \<lparr> bc_file = c, bc_allow = allow \<rparr>))))"

definition ip_blocking_config_ok :: "ip_blocking_config \<Rightarrow> bool" where
  "ip_blocking_config_ok c \<longleftrightarrow>
     64 \<le> fb_max_tracked_client_ips (bc_file c) \<and>
     1 \<le> fb_max_blocked_client_ips (bc_file c) \<and>
     1 \<le> fb_max_pending_activations (bc_file c) \<and>
     fb_max_pending_activations (bc_file c) \<le> fb_max_tracked_client_ips (bc_file c) \<and>
     1 \<le> fb_persistence_batch_size (bc_file c) \<and>
     fb_persistence_batch_size (bc_file c) \<le> fb_max_pending_activations (bc_file c) \<and>
     length (bc_allow c) = length (fb_allow_cidrs (bc_file c)) \<and>
     (\<forall>p \<in> set (fb_scan_namespaces (bc_file c)).
        clean_path p \<and> p \<noteq> ''/'' \<and> \<not> starts_with p ''/health'') \<and>
     (\<forall>t \<in> {vt_invalid_websocket, vt_invalid_grpc, vt_size_violation, vt_namespace_scan}.
        1 \<le> t (fb_thresholds (bc_file c)))"

lemma check_namespace_fold:
  assumes "try_fold check_namespace seen paths = Inr seen'"
  shows "\<forall>p \<in> set paths. clean_path p \<and> p \<noteq> ''/'' \<and> \<not> starts_with p ''/health''"
  using assms
proof (induction paths arbitrary: seen)
  case (Cons p ps)
  then obtain s where "check_namespace seen p = Inr s" "try_fold check_namespace s ps = Inr seen'"
    by auto
  moreover from this(1) have "clean_path p \<and> p \<noteq> ''/'' \<and> \<not> starts_with p ''/health''"
    unfolding check_namespace_def bail_def
    by (elim result_elims) (simp add: validate_http_path_iff)
  ultimately show ?case using Cons.IH by simp
qed simp

lemma ip_blocking_validate_ok:
  assumes "ip_blocking_validate directory c = Inr v"
  shows "ip_blocking_config_ok v"
proof -
  define d where "d = (if \<not> path_is_absolute (fb_state_file c)
    then c\<lparr>fb_state_file := path_join directory (fb_state_file c)\<rparr> else c)"
  from assms obtain allow seen where
    n: "64 \<le> fb_max_tracked_client_ips d" "1 \<le> fb_max_blocked_client_ips d"
      "1 \<le> fb_max_pending_activations d"
      "fb_max_pending_activations d \<le> fb_max_tracked_client_ips d"
      "fb_persistence_batch_size d \<noteq> 0" "fb_persistence_batch_size d \<le> fb_max_pending_activations d"
    and allow: "collect_results (\<lambda>v. map_err (\<lambda>e. [e]) (ip_network_parse v)) (fb_allow_cidrs d) = Inr allow"
    and ns: "try_fold check_namespace {} (fb_scan_namespaces d) = Inr seen"
    and th: "try_fold check_threshold ()
      [vt_invalid_websocket (fb_thresholds d), vt_invalid_grpc (fb_thresholds d),
       vt_size_violation (fb_thresholds d), vt_namespace_scan (fb_thresholds d)] = Inr ()"
    and v: "v = \<lparr> bc_file = d, bc_allow = allow \<rparr>"
    unfolding ip_blocking_validate_def Let_def d_def [symmetric] bail_def
    by (elim and_then_InrE if_Inl_InrE) (auto simp: not_less)
  have "length allow = length (fb_allow_cidrs d)"
    using allow by (auto simp: collect_results_Inr_iff dest: map_eq_imp_length_eq)
  with n ns th check_namespace_fold show ?thesis
    by (auto simp: ip_blocking_config_ok_def v check_threshold_def split: if_splits)
qed

end
