(* ===== verification/Ip_Blocking_Persistence.thy ===== *)
theory Ip_Blocking_Persistence
  imports Net File_Sys
begin

text \<open>
  \<open>src/security/ip_blocking_persistence.rs\<close>: the durable block list.  The JSON text of a block
  file is the pair of functions \<open>block_json\<close> (\<open>serde_json\<close>); clocks, faults and the writer lock
  come from the environment.  A poisoned mutex (a panic inside a critical section) is not modelled.
\<close>

section \<open>Records\<close>

datatype violation_rule = Invalid_Websocket | Invalid_Grpc | Size_Violation | Namespace_Scan

record block_record =
  br_client_ip :: ip_addr
  br_created_at_unix_seconds :: nat
  br_expires_at_unix_seconds :: nat
  br_rule :: violation_rule
  br_observed_count :: nat

record block_file =
  bf_version :: nat
  bf_blocks :: "block_record list"

record active_block =
  ab_record :: block_record
  ab_deadline :: instant

text \<open>A \<open>HashMap<IpAddr, ActiveBlock>\<close>, in its iteration order.\<close>

type_synonym block_snapshot = "(ip_addr \<times> active_block) list"

record state_writer =
  sw_path :: path
  sw_cleanup_temp :: "path option"

definition block_seconds :: nat where "block_seconds = 86400"
definition max_state_bytes :: nat where "max_state_bytes = 32 * 1024 * 1024"

record block_json =
  bj_to_vec :: "block_file \<Rightarrow> string + bytes"
  bj_from_slice :: "bytes \<Rightarrow> string + block_file"

text \<open>What \<open>serde_json\<close> documents of the derived implementations: a written file reads back.\<close>

locale json_roundtrip =
  fixes json :: block_json
  assumes from_to: "bj_to_vec json f = Inr b \<Longrightarrow> bj_from_slice json b = Inr f"

section \<open>Writing\<close>

record write_env =
  we_now :: instant
  we_nanos :: "anyhow + unit"
  we_temp :: path
  we_faults :: write_faults
  we_dir_open :: "io_error option"
  we_dir_sync :: "io_error option"
  we_orphan_remove :: fault

definition live_records :: "instant \<Rightarrow> block_snapshot \<Rightarrow> block_record list" where
  "live_records now blocks =
     sort_key br_client_ip
       (map ab_record (filter (\<lambda>b. now < ab_deadline b) (map snd blocks)))"

text \<open>
  Removing a file that may be gone already: the error that counts, if any, and the file system.
\<close>

definition remove_if_present :: "fault \<Rightarrow> path \<Rightarrow> fs \<Rightarrow> io_error option \<times> fs" where
  "remove_if_present f p fs =
     (case fs_step f (Fs_Remove p) fs of
        (Inr _, fs') \<Rightarrow> (None, fs')
      | (Inl e, fs') \<Rightarrow> (if io_kind e = Not_Found then None else Some e, fs'))"

definition io_check :: "string list \<Rightarrow> io_error option \<Rightarrow> anyhow + unit" where
  "io_check context fault = (case fault of None \<Rightarrow> Inr () | Some e \<Rightarrow> Inl (context @ [io_message e]))"

text \<open>The closure of the write: the calls up to the rename, then the sync of the directory.\<close>

definition write_snapshot ::
  "write_env \<Rightarrow> path \<Rightarrow> bytes \<Rightarrow> fs \<Rightarrow> (anyhow + unit) \<times> bool \<times> fs"
where
  "write_snapshot env target data fs =
     (case replace_file_new (we_faults env) (we_temp env) target data fs of
        (Inl (n, e), fs', _) \<Rightarrow>
          (if n = 4 then Inl [''atomically replace block state'', io_message e]
           else Inl [io_message e], 0 < n, fs')
      | (Inr _, fs', _) \<Rightarrow>
          (and_then (io_check [] (we_dir_open env)) (\<lambda>_.
           io_check [''sync block state directory after rename; commit may be on disk'']
             (we_dir_sync env)), True, fs'))"

definition persist_blocklist ::
  "block_json \<Rightarrow> write_env \<Rightarrow> block_snapshot \<Rightarrow> state_writer \<Rightarrow> fs
   \<Rightarrow> (anyhow + unit) \<times> state_writer \<times> fs"
where
  "persist_blocklist json env blocks writer fs =
     (let (failed, fs) =
            (case sw_cleanup_temp writer of
               None \<Rightarrow> (None, fs)
             | Some p \<Rightarrow> remove_if_present (we_orphan_remove env) p fs) in
      case failed of
        Some e \<Rightarrow>
          (Inl [''prior block-state temporary cleanup failed; no new temporary created'',
                io_message e], writer, fs)
      | None \<Rightarrow>
          let writer = writer\<lparr>sw_cleanup_temp := None\<rparr> in
          (case bj_to_vec json \<lparr> bf_version = 1, bf_blocks = live_records (we_now env) blocks \<rparr> of
             Inl e \<Rightarrow> (Inl [e], writer, fs)
           | Inr data \<Rightarrow>
               if max_state_bytes < length data
               then (Inl [''serialized block state exceeds 32 MiB''], writer, fs)
               else case we_nanos env of
                 Inl e \<Rightarrow> (Inl e, writer, fs)
               | Inr _ \<Rightarrow>
                   (case write_snapshot env (sw_path writer) data fs of
                      (Inr _, _, fs') \<Rightarrow> (Inr (), writer, fs')
                    | (Inl e, created, fs') \<Rightarrow>
                        if \<not> created then (Inl e, writer, fs')
                        else
                          let (undeleted, fs') =
                                remove_if_present (wf_remove (we_faults env)) (we_temp env) fs' in
                          (Inl e,
                           if undeleted = None then writer
                           else writer\<lparr>sw_cleanup_temp := Some (we_temp env)\<rparr>, fs'))))"

section \<open>Loading\<close>

record load_env =
  le_mkdir :: "io_error option"
  le_open_lock :: "io_error option"
  le_try_lock :: "io_error option"
  le_open :: "io_error option"
  le_metadata :: "io_error option"
  le_read :: "io_error option"
  le_wall :: "anyhow + nat"
  le_monotonic :: instant
  le_write :: write_env

text \<open>One record of the file: normalised, checked, its clock bounded by the current wall time.\<close>

definition load_record ::
  "nat \<Rightarrow> instant \<Rightarrow> ip_addr set \<times> block_snapshot \<Rightarrow> block_record
   \<Rightarrow> anyhow + ip_addr set \<times> block_snapshot"
where
  "load_record wall monotonic st record =
     (let (seen, blocks) = st;
          ip = normalize_ip (br_client_ip record);
          record = record\<lparr>br_client_ip := ip\<rparr> in
      if checked_sub64 (br_expires_at_unix_seconds record) (br_created_at_unix_seconds record)
           \<noteq> Some block_seconds \<or> br_observed_count record = 0 \<or> ip \<in> seen
      then bail ''invalid block duration/count or duplicate normalized IP''
      else
        let ahead = br_expires_at_unix_seconds record - wall;
            remaining = min ahead block_seconds in
        and_then
          (if block_seconds < ahead then
             and_then (ok_or [''clock timestamp overflow''] (checked_add64 wall block_seconds)) (\<lambda>expires.
             Inr (record\<lparr>br_created_at_unix_seconds := wall, br_expires_at_unix_seconds := expires\<rparr>))
           else Inr record) (\<lambda>record.
        Inr (insert ip seen,
             if remaining \<noteq> 0
             then blocks @ [(ip, \<lparr> ab_record = record,
                                   ab_deadline = monotonic + from_secs remaining \<rparr>)]
             else blocks)))"

definition load_file ::
  "block_json \<Rightarrow> load_env \<Rightarrow> nat \<Rightarrow> bytes \<Rightarrow> anyhow + block_snapshot"
where
  "load_file json env maximum data =
     (if max_state_bytes < length data then bail ''block state exceeds 32 MiB'' else
      and_then (map_err (\<lambda>e. [''invalid block state; preserve file and repair offline'', e])
          (bj_from_slice json data)) (\<lambda>disk.
      if bf_version disk \<noteq> 1 \<or> maximum < length (bf_blocks disk)
      then bail ''unsupported block state version or entry capacity exceeded'' else
      and_then (le_wall env) (\<lambda>wall.
      and_then (try_fold (load_record wall (le_monotonic env)) ({}, []) (bf_blocks disk)) (\<lambda>st.
      Inr (snd st)))))"

definition load_blocklist ::
  "block_json \<Rightarrow> load_env \<Rightarrow> path \<Rightarrow> nat \<Rightarrow> fs \<Rightarrow> (anyhow + state_writer \<times> block_snapshot) \<times> fs"
where
  "load_blocklist json env path maximum fs =
     (case and_then (io_check [''create block state directory''] (le_mkdir env)) (\<lambda>_.
           and_then (io_check [''open block state writer lock''] (le_open_lock env)) (\<lambda>_.
           io_check [''block state is already owned or locking unsupported''] (le_try_lock env))) of
        Inl e \<Rightarrow> (Inl e, fs)
      | Inr _ \<Rightarrow>
          let writer = \<lparr> sw_path = path, sw_cleanup_temp = None \<rparr> in
          let opened = (case le_open env of
                          Some e \<Rightarrow> Inl e
                        | None \<Rightarrow> (case fs path of None \<Rightarrow> Inl not_found | Some data \<Rightarrow> Inr data)) in
          case opened of
            Inl e \<Rightarrow>
              if io_kind e = Not_Found then
                (case persist_blocklist json (le_write env) [] writer fs of
                   (Inl e, _, fs') \<Rightarrow> (Inl e, fs')
                 | (Inr _, writer', fs') \<Rightarrow> (Inr (writer', []), fs'))
              else (Inl [''read block state'', io_message e], fs)
          | Inr data \<Rightarrow>
              (and_then (io_check [] (le_metadata env)) (\<lambda>_.
               if max_state_bytes < length data then bail ''block state exceeds 32 MiB'' else
               and_then (io_check [] (le_read env)) (\<lambda>_.
               and_then (load_file json env maximum data) (\<lambda>blocks.
               Inr (writer, blocks)))), fs))"

section \<open>What a write leaves behind\<close>

lemma remove_if_present_frame:
  "remove_if_present f p fs = (r, fs') \<Longrightarrow> q \<noteq> p \<Longrightarrow> fs' q = fs q"
  using fs_step_frame [of f "Fs_Remove p" fs]
  by (auto simp: remove_if_present_def split: prod.splits sum.splits if_splits)

lemma remove_if_present_gone: "remove_if_present No_Fault p fs = (r, fs') \<Longrightarrow> r = None \<and> fs' p = None"
  by (auto simp: remove_if_present_def not_found_def split: if_splits)

lemma remove_if_present_dom:
  "remove_if_present f p fs = (r, fs') \<Longrightarrow> fs' q = fs q \<or> q = p \<and> fs' q = None"
  by (cases f) (auto simp: remove_if_present_def split: if_splits)

lemma write_snapshot_cases:
  assumes "write_snapshot env target data fs = (r, created, fs')" "we_temp env \<noteq> target"
  shows "is_ok r \<Longrightarrow> fs' = fs(target \<mapsto> data)"
    and "fs' target = fs target \<or> fs' target = Some data"
    and "q \<noteq> we_temp env \<Longrightarrow> q \<noteq> target \<Longrightarrow> fs' q = fs q"
    and "\<not> created \<Longrightarrow> fs' = fs"
proof -
  obtain r1 fs1 seen where run:
    "replace_file_new (we_faults env) (we_temp env) target data fs = (r1, fs1, seen)"
    by (cases "replace_file_new (we_faults env) (we_temp env) target data fs")
  note cases = replace_file_new_cases [OF run assms(2)]
  note frame = replace_file_new_frame [OF run, of q]
  have unchanged: "fs1 = fs" if "r1 = Inl (0, e)" for e
    using run that
    by (cases "wf_create (we_faults env)")
      (auto simp: replace_file_new_def replace_calls_def split: if_splits prod.splits sum.splits)
  have "(is_ok r \<longrightarrow> fs' = fs(target \<mapsto> data)) \<and> fs' = fs1 \<and> (\<not> created \<longrightarrow> fs' = fs)"
    using assms(1) run cases(1) unchanged
    by (auto simp: write_snapshot_def split: sum.splits prod.splits option.splits if_splits)
  moreover have "fs1 target = fs target \<or> fs1 target = Some data"
    using cases(1,2) by (cases "is_ok r1") auto
  ultimately show "is_ok r \<Longrightarrow> fs' = fs(target \<mapsto> data)"
    and "fs' target = fs target \<or> fs' target = Some data"
    and "q \<noteq> we_temp env \<Longrightarrow> q \<noteq> target \<Longrightarrow> fs' q = fs q"
    and "\<not> created \<Longrightarrow> fs' = fs"
    using frame by auto
qed

definition block_file_of :: "instant \<Rightarrow> block_snapshot \<Rightarrow> block_file" where
  "block_file_of now blocks = \<lparr> bf_version = 1, bf_blocks = live_records now blocks \<rparr>"

text \<open>A fault of a removal does not pretend that the file is gone.\<close>

definition honest_fault :: "fault \<Rightarrow> bool" where
  "honest_fault f \<longleftrightarrow> (\<forall>e k. f = Fault e k \<longrightarrow> io_kind e \<noteq> Not_Found)"

lemma remove_honest:
  assumes "remove_if_present f p fs = (None, fs')" "honest_fault f"
  shows "fs' = fs(p := None)"
  using assms
  by (cases f; cases "fs p")
    (auto simp: remove_if_present_def honest_fault_def not_found_def fun_upd_idem_iff
      split: if_splits)

lemma remove_failed:
  assumes "remove_if_present f p fs = (Some e, fs')"
  shows "fs' = fs"
  using assms by (cases f) (auto simp: remove_if_present_def split: if_splits)

text \<open>The run of a write, in the three ways it can go.\<close>

lemma persist_blocklist_cases:
  assumes run: "persist_blocklist json env blocks writer fs = (r, writer', fs')"
  obtains
    (orphan) e where "sw_cleanup_temp writer \<noteq> None" "r = Inl e" "writer' = writer" "fs' = fs"
  | (early) e fs1 where "r = Inl e" "fs' = fs1"
      "sw_cleanup_temp writer = None \<and> fs1 = fs \<or> (\<exists>p. sw_cleanup_temp writer = Some p
         \<and> remove_if_present (we_orphan_remove env) p fs = (None, fs1))"
      "writer' = writer\<lparr>sw_cleanup_temp := None\<rparr>"
  | (wrote) fs1 data w created fs2 where
      "sw_cleanup_temp writer = None \<and> fs1 = fs \<or> (\<exists>p. sw_cleanup_temp writer = Some p
         \<and> remove_if_present (we_orphan_remove env) p fs = (None, fs1))"
      "bj_to_vec json (block_file_of (we_now env) blocks) = Inr data" "length data \<le> max_state_bytes"
      "write_snapshot env (sw_path writer) data fs1 = (w, created, fs2)"
      "r = w"
      "if is_ok w \<or> \<not> created then fs' = fs2 \<and> writer' = writer\<lparr>sw_cleanup_temp := None\<rparr>
       else \<exists>u. remove_if_present (wf_remove (we_faults env)) (we_temp env) fs2 = (u, fs') \<and>
         writer' = writer\<lparr>sw_cleanup_temp := (if u = None then None else Some (we_temp env))\<rparr>"
proof -
  obtain failed fs1 where pre: "(case sw_cleanup_temp writer of
      None \<Rightarrow> (None, fs)
    | Some p \<Rightarrow> remove_if_present (we_orphan_remove env) p fs) = (failed, fs1)"
    by (cases "case sw_cleanup_temp writer of
      None \<Rightarrow> (None, fs)
    | Some p \<Rightarrow> remove_if_present (we_orphan_remove env) p fs")
  note run' = run [symmetric, unfolded persist_blocklist_def pre Let_def prod.case
      block_file_of_def [symmetric]]
  show thesis
  proof (cases failed)
    case (Some e)
    with pre obtain p where p: "sw_cleanup_temp writer = Some p"
      "remove_if_present (we_orphan_remove env) p fs = (Some e, fs1)"
      by (auto split: option.splits)
    with remove_failed have "fs1 = fs" by blast
    with run' Some p orphan show thesis by simp
  next
    case None
    with pre have fs1: "sw_cleanup_temp writer = None \<and> fs1 = fs \<or>
        (\<exists>p. sw_cleanup_temp writer = Some p
         \<and> remove_if_present (we_orphan_remove env) p fs = (None, fs1))"
      by (auto split: option.splits)
    show thesis
    proof (cases "bj_to_vec json (block_file_of (we_now env) blocks)")
      case (Inl e)
      with run' None early [OF _ _ fs1] show thesis by simp
    next
      case (Inr data)
      show thesis
      proof (cases "max_state_bytes < length data \<or> \<not> is_ok (we_nanos env)")
        case True
        with run' None Inr early [OF _ _ fs1] show thesis
          by (cases "we_nanos env") (auto split: if_splits)
      next
        case False
        obtain w created fs2 where w: "write_snapshot env (sw_path writer) data fs1 = (w, created, fs2)"
          by (cases "write_snapshot env (sw_path writer) data fs1")
        obtain u fs3 where u: "remove_if_present (wf_remove (we_faults env)) (we_temp env) fs2 = (u, fs3)"
          by (cases "remove_if_present (wf_remove (we_faults env)) (we_temp env) fs2")
        have res: "(r, writer', fs') = (if is_ok w \<or> \<not> created
            then (w, writer\<lparr>sw_cleanup_temp := None\<rparr>, fs2)
            else (w, writer\<lparr>sw_cleanup_temp := (if u = None then None else Some (we_temp env))\<rparr>, fs3))"
          using run' None Inr False w u by (cases "we_nanos env"; cases w) auto
        show thesis
          by (rule wrote [OF fs1 Inr _ w]) (use False res u in \<open>auto split: if_splits\<close>)
      qed
    qed
  qed
qed

lemma persist_blocklist_target:
  assumes run: "persist_blocklist json env blocks writer fs = (r, writer', fs')"
    and temp: "we_temp env \<noteq> sw_path writer" "sw_cleanup_temp writer \<noteq> Some (sw_path writer)"
  shows "fs' (sw_path writer) = fs (sw_path writer) \<or>
      (\<exists>data. bj_to_vec json (block_file_of (we_now env) blocks) = Inr data
         \<and> fs' (sw_path writer) = Some data)"
    and "is_ok r \<Longrightarrow> \<exists>data. bj_to_vec json (block_file_of (we_now env) blocks) = Inr data
         \<and> fs' (sw_path writer) = Some data \<and> length data \<le> max_state_bytes"
proof -
  have pre: "fs1 (sw_path writer) = fs (sw_path writer)"
    if "sw_cleanup_temp writer = None \<and> fs1 = fs \<or> (\<exists>p. sw_cleanup_temp writer = Some p
         \<and> remove_if_present (we_orphan_remove env) p fs = (None, fs1))" for fs1
    using that temp(2) remove_if_present_frame by metis
  have "(fs' (sw_path writer) = fs (sw_path writer) \<or>
      (\<exists>data. bj_to_vec json (block_file_of (we_now env) blocks) = Inr data
         \<and> fs' (sw_path writer) = Some data)) \<and>
    (is_ok r \<longrightarrow> (\<exists>data. bj_to_vec json (block_file_of (we_now env) blocks) = Inr data
         \<and> fs' (sw_path writer) = Some data \<and> length data \<le> max_state_bytes))"
    using run
  proof (cases rule: persist_blocklist_cases)
    case orphan
    then show ?thesis by simp
  next
    case (early e fs1)
    with pre show ?thesis by simp
  next
    case (wrote fs1 data w created fs2)
    note snap = write_snapshot_cases [OF wrote(4) temp(1)]
    have "fs' (sw_path writer) = fs2 (sw_path writer)"
      using wrote(6) remove_if_present_frame temp(1) by (auto split: if_splits)
    with snap(1,2) wrote pre [OF wrote(1)] show ?thesis by auto
  qed
  then show "fs' (sw_path writer) = fs (sw_path writer) \<or>
      (\<exists>data. bj_to_vec json (block_file_of (we_now env) blocks) = Inr data
         \<and> fs' (sw_path writer) = Some data)"
    and "is_ok r \<Longrightarrow> \<exists>data. bj_to_vec json (block_file_of (we_now env) blocks) = Inr data
         \<and> fs' (sw_path writer) = Some data \<and> length data \<le> max_state_bytes"
    by blast+
qed

text \<open>No file but the target and the one the writer knows about stays behind.\<close>

lemma persist_blocklist_no_litter:
  assumes run: "persist_blocklist json env blocks writer fs = (r, writer', fs')"
    and honest: "honest_fault (we_orphan_remove env)" "honest_fault (wf_remove (we_faults env))"
    and temp: "we_temp env \<noteq> sw_path writer"
    and q: "q \<noteq> sw_path writer" "q \<in> dom fs'"
    and known: "q \<in> dom fs \<Longrightarrow> sw_cleanup_temp writer = Some q"
  shows "sw_cleanup_temp writer' = Some q"
proof -
  have gone: "fs1 q = None"
    if "sw_cleanup_temp writer = None \<and> fs1 = fs \<or> (\<exists>p. sw_cleanup_temp writer = Some p
         \<and> remove_if_present (we_orphan_remove env) p fs = (None, fs1))" for fs1
    using that
  proof
    assume "sw_cleanup_temp writer = None \<and> fs1 = fs"
    with known show ?thesis by (cases "fs q") auto
  next
    assume "\<exists>p. sw_cleanup_temp writer = Some p
         \<and> remove_if_present (we_orphan_remove env) p fs = (None, fs1)"
    then obtain p where p: "sw_cleanup_temp writer = Some p" "fs1 = fs(p := None)"
      using remove_honest [OF _ honest(1)] by blast
    with known show ?thesis by (cases "fs q") auto
  qed
  from run show ?thesis
  proof (cases rule: persist_blocklist_cases)
    case orphan
    with known q show ?thesis by simp
  next
    case (early e fs1)
    from gone [OF early(3)] have "fs1 q = None" .
    with early q show ?thesis by auto
  next
    case (wrote fs1 data w created fs2)
    have gone: "fs1 q = None" by (rule gone [OF wrote(1)])
    note snap = write_snapshot_cases [OF wrote(4) temp]
    show ?thesis
    proof (cases "is_ok w \<or> \<not> created")
      case True
      with wrote(6) snap(1,4) gone q have "fs' q = None" by auto
      with q show ?thesis by auto
    next
      case False
      with wrote(6) obtain u where
        u: "remove_if_present (wf_remove (we_faults env)) (we_temp env) fs2 = (u, fs')"
        and w: "writer' = writer\<lparr>sw_cleanup_temp := (if u = None then None else Some (we_temp env))\<rparr>"
        by auto
      have "q = we_temp env"
      proof (rule ccontr)
        assume other: "q \<noteq> we_temp env"
        with snap(3) [of q] q(1) gone have "fs2 q = None" by simp
        with remove_if_present_frame [OF u other] q(2) show False by auto
      qed
      moreover have "u \<noteq> None"
      proof
        assume "u = None"
        with remove_honest [OF _ honest(2)] u have "fs' = fs2(we_temp env := None)" by blast
        with q(2) \<open>q = we_temp env\<close> show False by auto
      qed
      ultimately show ?thesis by (auto simp: w)
    qed
qed
qed

section \<open>A written list comes back\<close>

definition block_ok :: "ip_addr \<times> active_block \<Rightarrow> bool" where
  "block_ok x \<longleftrightarrow>
     (let r = ab_record (snd x) in
      br_client_ip r = fst x \<and> normalize_ip (fst x) = fst x \<and> br_observed_count r \<noteq> 0 \<and>
      br_expires_at_unix_seconds r = br_created_at_unix_seconds r + block_seconds)"

definition snapshot_ok :: "block_snapshot \<Rightarrow> bool" where
  "snapshot_ok blocks \<longleftrightarrow> distinct (map fst blocks) \<and> (\<forall>x \<in> set blocks. block_ok x)"

text \<open>What a record turns into at a restart, if anything.\<close>

definition restored :: "nat \<Rightarrow> instant \<Rightarrow> block_record \<Rightarrow> active_block option" where
  "restored wall monotonic r =
     (let ahead = br_expires_at_unix_seconds r - wall in
      if ahead = 0 then None
      else Some
        \<lparr> ab_record =
            (if block_seconds < ahead
             then r\<lparr>br_created_at_unix_seconds := wall,
                    br_expires_at_unix_seconds := wall + block_seconds\<rparr>
             else r),
          ab_deadline = monotonic + from_secs (min ahead block_seconds) \<rparr>)"

definition restore_entry :: "nat \<Rightarrow> instant \<Rightarrow> block_record \<Rightarrow> block_snapshot" where
  "restore_entry wall monotonic r =
     (case restored wall monotonic r of None \<Rightarrow> [] | Some b \<Rightarrow> [(br_client_ip r, b)])"

definition record_ok :: "block_record \<Rightarrow> bool" where
  "record_ok r \<longleftrightarrow>
     normalize_ip (br_client_ip r) = br_client_ip r \<and> br_observed_count r \<noteq> 0 \<and>
     br_expires_at_unix_seconds r = br_created_at_unix_seconds r + block_seconds"

lemma load_record_ok:
  assumes "record_ok r" "br_client_ip r \<notin> seen" "wall + block_seconds \<le> u64_max"
  shows "load_record wall monotonic (seen, blocks) r =
     Inr (insert (br_client_ip r) seen, blocks @ restore_entry wall monotonic r)"
proof -
  have same: "r\<lparr>br_client_ip := normalize_ip (br_client_ip r)\<rparr> = r"
    using assms(1) by (simp add: record_ok_def)
  have "checked_sub64 (br_expires_at_unix_seconds r) (br_created_at_unix_seconds r)
      = Some block_seconds"
    using assms(1) by (simp add: record_ok_def checked_sub64_def)
  moreover have "checked_add64 wall block_seconds = Some (wall + block_seconds)"
    using assms(3) by (simp add: checked_add64_def)
  moreover have "0 < block_seconds" by (simp add: block_seconds_def)
  ultimately show ?thesis
    using assms(1,2)
    by (simp add: load_record_def same Let_def restore_entry_def restored_def record_ok_def)
qed

lemma load_records_ok:
  assumes "\<forall>r \<in> set rs. record_ok r" "distinct (map br_client_ip rs)"
    and "br_client_ip ` set rs \<inter> seen = {}" "wall + block_seconds \<le> u64_max"
  shows "try_fold (load_record wall monotonic) (seen, blocks) rs =
     Inr (br_client_ip ` set rs \<union> seen, blocks @ concat (map (restore_entry wall monotonic) rs))"
  using assms
proof (induction rs arbitrary: seen blocks)
  case (Cons r rs)
  then have "try_fold (load_record wall monotonic) (insert (br_client_ip r) seen,
      blocks @ restore_entry wall monotonic r) rs = Inr (br_client_ip ` set rs \<union>
      insert (br_client_ip r) seen, (blocks @ restore_entry wall monotonic r) @
      concat (map (restore_entry wall monotonic) rs))"
    by (intro Cons.IH) auto
  with Cons.prems show ?case by (simp add: load_record_ok)
qed simp

lemma option_eqI: "(\<And>x. a = Some x \<longleftrightarrow> b = Some x) \<Longrightarrow> a = b"
  by (cases a; cases b) auto

lemma map_of_restore:
  "distinct (map br_client_ip rs) \<Longrightarrow>
     map_of (concat (map (restore_entry wall monotonic) rs)) ip = Some b \<longleftrightarrow>
       (\<exists>r \<in> set rs. br_client_ip r = ip \<and> restored wall monotonic r = Some b)"
proof (induction rs)
  case (Cons r rs)
  let ?m = "map_of (concat (map (restore_entry wall monotonic) rs))"
  have IH: "?m ip = Some b \<longleftrightarrow>
       (\<exists>r \<in> set rs. br_client_ip r = ip \<and> restored wall monotonic r = Some b)"
    using Cons by simp
  show ?case
  proof (cases "restored wall monotonic r")
    case None
    then show ?thesis by (simp add: IH restore_entry_def [of _ _ r])
  next
    case (Some b')
    have "?m ip \<noteq> Some b" if "br_client_ip r = ip"
      unfolding IH using Cons.prems that by (force simp: image_iff)
    with Some show ?thesis by (auto simp: IH restore_entry_def [of _ _ r])
  qed
qed simp

lemma live_records_props:
  assumes "snapshot_ok blocks"
  shows "\<forall>r \<in> set (live_records now blocks). record_ok r"
    and "distinct (map br_client_ip (live_records now blocks))"
    and "length (live_records now blocks) \<le> length blocks"
    and "r \<in> set (live_records now blocks) \<longleftrightarrow>
      (\<exists>b. map_of blocks (br_client_ip r) = Some b \<and> now < ab_deadline b \<and> ab_record b = r)"
proof -
  let ?live = "filter (\<lambda>b. now < ab_deadline b) (map snd blocks)"
  have ok: "distinct (map fst blocks)" "\<forall>x \<in> set blocks. block_ok x"
    using assms by (simp_all add: snapshot_ok_def)
  have "map (br_client_ip \<circ> ab_record) (map snd blocks) = map fst blocks"
    using ok(2) by (auto simp: block_ok_def Let_def)
  with ok(1) have d: "distinct (map (br_client_ip \<circ> ab_record) (map snd blocks))"
    by (simp only:)
  have "distinct (map br_client_ip (map ab_record ?live))"
    using distinct_map_filter [OF d, of "\<lambda>b. now < ab_deadline b"] by simp
  then show "distinct (map br_client_ip (live_records now blocks))"
    by (auto simp: live_records_def distinct_map intro: inj_on_imageI inj_on_imageI2)
  show "\<forall>r \<in> set (live_records now blocks). record_ok r"
    using ok(2) by (auto simp: live_records_def record_ok_def block_ok_def Let_def)
  show "length (live_records now blocks) \<le> length blocks"
    using length_filter_le [of "\<lambda>b. now < ab_deadline b" "map snd blocks"]
    by (simp add: live_records_def)
  show "r \<in> set (live_records now blocks) \<longleftrightarrow>
      (\<exists>b. map_of blocks (br_client_ip r) = Some b \<and> now < ab_deadline b \<and> ab_record b = r)"
  proof
    assume "r \<in> set (live_records now blocks)"
    then obtain ip b where b: "(ip, b) \<in> set blocks" "now < ab_deadline b" "ab_record b = r"
      by (auto simp: live_records_def)
    with ok have "ip = br_client_ip r" by (auto simp: block_ok_def Let_def)
    with b ok(1) show "\<exists>b. map_of blocks (br_client_ip r) = Some b \<and> now < ab_deadline b \<and> ab_record b = r"
      by auto
  next
    assume "\<exists>b. map_of blocks (br_client_ip r) = Some b \<and> now < ab_deadline b \<and> ab_record b = r"
    then show "r \<in> set (live_records now blocks)"
      by (force simp: live_records_def dest: map_of_SomeD)
  qed
qed

context json_roundtrip
begin

lemma load_persisted:
  assumes ok: "snapshot_ok blocks" "length blocks \<le> maximum"
    and data: "bj_to_vec json (block_file_of now blocks) = Inr data" "length data \<le> max_state_bytes"
    and wall: "le_wall env = Inr wall" "wall + block_seconds \<le> u64_max"
  obtains blocks' where "load_file json env maximum data = Inr blocks'"
    and "\<And>ip. map_of blocks' ip =
      (case map_of blocks ip of
         None \<Rightarrow> None
       | Some b \<Rightarrow> if now < ab_deadline b then restored wall (le_monotonic env) (ab_record b) else None)"
proof -
  note live = live_records_props [OF ok(1), where now = now]
  let ?rs = "live_records now blocks"
  let ?blocks = "concat (map (restore_entry wall (le_monotonic env)) ?rs)"
  have fold: "try_fold (load_record wall (le_monotonic env)) ({}, []) ?rs
      = Inr (br_client_ip ` set ?rs, ?blocks)"
    using load_records_ok [OF live(1,2) _ wall(2), of "{}" "le_monotonic env" "[]"] by simp
  have load: "load_file json env maximum data = Inr ?blocks"
    using from_to [OF data(1)] data(2) live(3) ok(2) wall(1) fold
    by (simp add: load_file_def block_file_of_def)
  have "map_of ?blocks ip = (case map_of blocks ip of
         None \<Rightarrow> None
       | Some b \<Rightarrow> if now < ab_deadline b then restored wall (le_monotonic env) (ab_record b) else None)"
    for ip
  proof -
    have own: "br_client_ip (ab_record b) = ip" if "map_of blocks ip = Some b" for b
      using ok(1) map_of_SomeD [OF that] by (auto simp: snapshot_ok_def block_ok_def Let_def)
    have "map_of ?blocks ip = Some x \<longleftrightarrow> (\<exists>b. map_of blocks ip = Some b \<and>
        now < ab_deadline b \<and> restored wall (le_monotonic env) (ab_record b) = Some x)" for x
      unfolding map_of_restore [OF live(2)] Bex_def live(4)
      by (metis own)
    then have "map_of ?blocks ip = Some x \<longleftrightarrow> (case map_of blocks ip of
         None \<Rightarrow> None
       | Some b \<Rightarrow> if now < ab_deadline b then restored wall (le_monotonic env) (ab_record b) else None)
        = Some x" for x
      by (cases "map_of blocks ip") simp_all
    then show ?thesis by (rule option_eqI)
  qed
  with load that show thesis by blast
qed

end

text \<open>A restart never makes a block longer.\<close>

lemma restored_bounds:
  assumes "restored wall monotonic r = Some b"
  shows "ab_deadline b \<le> monotonic + from_secs block_seconds" "monotonic < ab_deadline b"
    and "br_expires_at_unix_seconds (ab_record b) \<le> br_expires_at_unix_seconds r"
    and "br_client_ip (ab_record b) = br_client_ip r"
  using assms by (auto simp: restored_def Let_def from_secs_def block_seconds_def split: if_splits)

text \<open>What a load accepts is a snapshot within its bounds.\<close>

lemma load_record_step:
  assumes "load_record wall monotonic (seen, blocks) r = Inr (seen', blocks')"
    and "snapshot_ok blocks" "fst ` set blocks \<subseteq> seen"
    and "\<forall>(ip, b) \<in> set blocks. ab_deadline b \<le> monotonic + from_secs block_seconds"
  shows "snapshot_ok blocks'" "fst ` set blocks' \<subseteq> seen'" "length blocks' \<le> Suc (length blocks)"
    and "\<forall>(ip, b) \<in> set blocks'. ab_deadline b \<le> monotonic + from_secs block_seconds"
proof -
  let ?ip = "normalize_ip (br_client_ip r)"
  define r' where "r' = (if block_seconds < br_expires_at_unix_seconds r - wall
     then r\<lparr>br_client_ip := ?ip, br_created_at_unix_seconds := wall,
            br_expires_at_unix_seconds := wall + block_seconds\<rparr>
     else r\<lparr>br_client_ip := ?ip\<rparr>)"
  from assms(1) have new: "?ip \<notin> seen" "seen' = insert ?ip seen"
    and checked: "br_observed_count r \<noteq> 0"
      "br_expires_at_unix_seconds r = br_created_at_unix_seconds r + block_seconds"
    and b': "blocks' = blocks \<or> blocks' = blocks @ [(?ip, \<lparr> ab_record = r',
      ab_deadline = monotonic + from_secs (min (br_expires_at_unix_seconds r - wall) block_seconds) \<rparr>)]"
    by (auto simp: load_record_def Let_def r'_def split: if_splits)
  have r': "br_client_ip r' = ?ip" "br_observed_count r' \<noteq> 0"
      "br_expires_at_unix_seconds r' = br_created_at_unix_seconds r' + block_seconds"
    using checked by (simp_all add: r'_def)
  have "?ip \<notin> fst ` set blocks" using assms(3) new by auto
  with assms(2) b' r' show "snapshot_ok blocks'"
    by (auto simp: snapshot_ok_def block_ok_def Let_def normalize_ip_idem)
  from assms(3) b' new show "fst ` set blocks' \<subseteq> seen'" by fastforce
  from b' show "length blocks' \<le> Suc (length blocks)" by auto
  from b' assms(4) show "\<forall>(ip, b) \<in> set blocks'. ab_deadline b \<le> monotonic + from_secs block_seconds"
    by (auto simp: from_secs_def)
qed

lemma load_file_ok:
  assumes "load_file json env maximum data = Inr blocks"
  shows "snapshot_ok blocks" "length blocks \<le> maximum"
    and "\<forall>(ip, b) \<in> set blocks. ab_deadline b \<le> le_monotonic env + from_secs block_seconds"
proof -
  let ?P = "\<lambda>done st. snapshot_ok (snd st) \<and> fst ` set (snd st) \<subseteq> fst st \<and>
    length (snd st) \<le> length done \<and>
    (\<forall>(ip, b) \<in> set (snd st). ab_deadline b \<le> le_monotonic env + from_secs block_seconds)"
  from assms obtain wall seen and disk :: block_file where
    run: "try_fold (load_record wall (le_monotonic env)) ({}, []) (bf_blocks disk) = Inr (seen, blocks)"
    and len: "length (bf_blocks disk) \<le> maximum"
    by (auto simp: load_file_def not_less split: if_splits)
  have "?P ([] @ bf_blocks disk) (seen, blocks)"
  proof (rule try_fold_invariant [OF run, where P = ?P])
    show "?P [] ({}, [])" by (simp add: snapshot_ok_def)
    fix pre :: "block_record list" and x s s'
    assume P: "?P pre s" and x: "load_record wall (le_monotonic env) s x = Inr s'"
    obtain a b where s: "s = (a, b)" by (cases s)
    obtain a' b' where s': "s' = (a', b')" by (cases s')
    have P: "snapshot_ok b" "fst ` set b \<subseteq> a" "length b \<le> length pre"
      "\<forall>(ip, b) \<in> set b. ab_deadline b \<le> le_monotonic env + from_secs block_seconds"
      using P by (simp_all add: s)
    note step = load_record_step [OF x [unfolded s s'] P(1,2,4)]
    have "length b' \<le> length (pre @ [x])" using step(3) P(3) by simp
    with step show "?P (pre @ [x]) s'" unfolding s' fst_conv snd_conv by (intro conjI)
  qed
  with len show "snapshot_ok blocks" "length blocks \<le> maximum"
    and "\<forall>(ip, b) \<in> set blocks. ab_deadline b \<le> le_monotonic env + from_secs block_seconds"
    by auto
qed

lemma load_blocklist_ok:
  assumes "load_blocklist json env path maximum fs = (Inr (writer, blocks), fs')"
  shows "snapshot_ok blocks" "length blocks \<le> maximum"
    and "\<forall>(ip, b) \<in> set blocks. ab_deadline b \<le> le_monotonic env + from_secs block_seconds"
proof -
  from assms have "blocks = [] \<or> (\<exists>data. load_file json env maximum data = Inr blocks)"
    by (auto simp: load_blocklist_def Let_def split: sum.splits option.splits if_splits prod.splits)
  then show "snapshot_ok blocks" "length blocks \<le> maximum"
    and "\<forall>(ip, b) \<in> set blocks. ab_deadline b \<le> le_monotonic env + from_secs block_seconds"
    by (auto dest: load_file_ok simp: snapshot_ok_def)
qed

end
