(* ===== verification/Ip_Blocking.thy ===== *)
theory Ip_Blocking
  imports Ip_Blocking_Config Ip_Blocking_Persistence Client_Address "HOL-Library.AList"
begin

text \<open>
  \<open>src/security/ip_blocking.rs\<close>: the runtime of the IP block list.  The fields of
  \<open>IpBlockingRuntime\<close> are the fields of \<open>ip_blocking_runtime\<close>; a table that the code iterates is an
  association list in its iteration order, and the counters are 64-bit words.  \<open>persist_pending\<close> is
  split where the code leaves and re-enters the shared state: the selection of a batch
  (\<open>persist_select\<close>), the blocking transaction (\<open>persist_work\<close>) and the publication of its outcome
  (\<open>persist_finish\<close>).
\<close>

section \<open>State\<close>

definition shards :: nat where "shards = 64"
definition temporary_seconds :: nat where "temporary_seconds = 300"

primrec rule_index :: "violation_rule \<Rightarrow> nat" where
  "rule_index Invalid_Websocket = 0"
| "rule_index Invalid_Grpc = 1"
| "rule_index Size_Violation = 2"
| "rule_index Namespace_Scan = 3"

definition rule_window :: "violation_rule \<Rightarrow> duration" where
  "rule_window rule = from_secs (if rule = Size_Violation then 300 else 60)"

record rule_count =
  rw_since :: instant
  rw_count :: nat

record client_window =
  cw_rules :: "rule_count list"
  cw_last_seen :: instant

record pending_block =
  pb_address :: resolved_client_address
  pb_rule :: violation_rule
  pb_count :: nat
  pb_deadline :: instant

type_synonym pending_table = "(ip_addr \<times> pending_block) list"
type_synonym window_shard = "(ip_addr \<times> client_window) list"

record persisted_batch =
  ob_snapshot :: "block_snapshot option"
  ob_consumed :: "ip_addr list"
  ob_activated :: "pending_block list"
  ob_wall :: nat
  ob_capacity_overflow :: bool

definition empty_batch :: persisted_batch where
  "empty_batch = \<lparr> ob_snapshot = None, ob_consumed = [], ob_activated = [], ob_wall = 0,
     ob_capacity_overflow = False \<rparr>"

record block_counters =
  ct_violations :: "64 word list"
  ct_rejects :: "64 word"
  ct_activated :: "64 word"
  ct_overflow :: "64 word"
  ct_persistence_failures :: "64 word"
  ct_manager_unavailable :: "64 word"

definition zero_counters :: block_counters where
  "zero_counters = \<lparr> ct_violations = [0, 0, 0, 0], ct_rejects = 0, ct_activated = 0,
     ct_overflow = 0, ct_persistence_failures = 0, ct_manager_unavailable = 0 \<rparr>"

record ip_blocking_runtime =
  ib_config :: ip_blocking_config
  ib_durable :: block_snapshot
  ib_temporary :: "(ip_addr \<times> instant) list"
  ib_windows :: "window_shard list"
  ib_pending :: pending_table
  ib_notified :: bool
  ib_accepting :: bool
  ib_writer :: "state_writer option"
  ib_counters :: block_counters

definition ip_blocking_load ::
  "block_json \<Rightarrow> load_env \<Rightarrow> ip_blocking_config \<Rightarrow> fs \<Rightarrow> (anyhow + ip_blocking_runtime) \<times> fs"
where
  "ip_blocking_load json env config fs =
     (let (loaded, fs') =
            (if fb_enabled (bc_file config) then
               (case load_blocklist json env (fb_state_file (bc_file config))
                       (fb_max_blocked_client_ips (bc_file config)) fs of
                  (Inl e, fs') \<Rightarrow> (Inl e, fs')
                | (Inr (writer, blocks), fs') \<Rightarrow> (Inr (Some writer, blocks), fs'))
             else (Inr (None, []), fs)) in
      (and_then loaded (\<lambda>(writer, blocks).
         Inr \<lparr> ib_config = config, ib_durable = blocks, ib_temporary = [],
               ib_windows = replicate shards [], ib_pending = [], ib_notified = False,
               ib_accepting = True, ib_writer = writer, ib_counters = zero_counters \<rparr>), fs'))"

section \<open>Requests\<close>

definition ib_allowed :: "ip_blocking_config \<Rightarrow> ip_addr \<Rightarrow> bool" where
  "ib_allowed config ip \<longleftrightarrow> list_ex (\<lambda>network. ip_network_contains network ip) (bc_allow config)"

text \<open>Whether a table of deadlines holds an address back at this instant.\<close>

definition held :: "(ip_addr \<times> instant) list \<Rightarrow> instant \<Rightarrow> ip_addr \<Rightarrow> bool" where
  "held deadlines now ip \<longleftrightarrow>
     (case map_of deadlines ip of None \<Rightarrow> False | Some until \<Rightarrow> now < until)"

definition deadlines_of :: "block_snapshot \<Rightarrow> (ip_addr \<times> instant) list" where
  "deadlines_of blocks = map (\<lambda>(ip, b). (ip, ab_deadline b)) blocks"

definition restricted :: "ip_blocking_runtime \<Rightarrow> instant \<Rightarrow> ip_addr \<Rightarrow> bool" where
  "restricted rt now ip \<longleftrightarrow>
     held (deadlines_of (ib_durable rt)) now ip \<or> held (ib_temporary rt) now ip"

definition bump_rejects :: "block_counters \<Rightarrow> block_counters" where
  "bump_rejects c = c\<lparr>ct_rejects := ct_rejects c + 1\<rparr>"

definition bump_overflow :: "block_counters \<Rightarrow> block_counters" where
  "bump_overflow c = c\<lparr>ct_overflow := ct_overflow c + 1\<rparr>"

definition bump_manager_unavailable :: "block_counters \<Rightarrow> block_counters" where
  "bump_manager_unavailable c = c\<lparr>ct_manager_unavailable := ct_manager_unavailable c + 1\<rparr>"

definition bump_persistence_failures :: "block_counters \<Rightarrow> block_counters" where
  "bump_persistence_failures c = c\<lparr>ct_persistence_failures := ct_persistence_failures c + 1\<rparr>"

definition bump_violation :: "violation_rule \<Rightarrow> block_counters \<Rightarrow> block_counters" where
  "bump_violation rule c =
     c\<lparr>ct_violations := (ct_violations c)
         [rule_index rule := ct_violations c ! rule_index rule + 1]\<rparr>"

definition count_with ::
  "(block_counters \<Rightarrow> block_counters) \<Rightarrow> ip_blocking_runtime \<Rightarrow> ip_blocking_runtime"
where
  "count_with bump rt = rt\<lparr>ib_counters := bump (ib_counters rt)\<rparr>"

definition is_client_ip_blocked ::
  "instant \<Rightarrow> resolved_client_address \<Rightarrow> ip_blocking_runtime \<Rightarrow> bool \<times> ip_blocking_runtime"
where
  "is_client_ip_blocked now address rt =
     (if \<not> fb_enabled (bc_file (ib_config rt)) \<or> ib_allowed (ib_config rt) (ra_client_ip address)
      then (False, rt)
      else
        let blocked = restricted rt now (ra_client_ip address) in
        (blocked, if blocked then count_with bump_rejects rt else rt))"

definition is_scan_namespace :: "ip_blocking_config \<Rightarrow> string \<Rightarrow> bool" where
  "is_scan_namespace config path \<longleftrightarrow>
     fb_enabled (bc_file config) \<and>
     list_ex (\<lambda>prefix. path = prefix \<or>
         (case strip_prefix prefix path of None \<Rightarrow> False | Some suffix \<Rightarrow> starts_with suffix ''/''))
       (fb_scan_namespaces (bc_file config))"

primrec rule_threshold :: "violation_thresholds \<Rightarrow> violation_rule \<Rightarrow> nat" where
  "rule_threshold t Invalid_Websocket = vt_invalid_websocket t"
| "rule_threshold t Invalid_Grpc = vt_invalid_grpc t"
| "rule_threshold t Size_Violation = vt_size_violation t"
| "rule_threshold t Namespace_Scan = vt_namespace_scan t"

definition shard_capacity :: "nat \<Rightarrow> nat \<Rightarrow> nat" where
  "shard_capacity tracked i = tracked div shards + (if i < tracked mod shards then 1 else 0)"

text \<open>One violation counted in its window, and the counter afterwards.\<close>

definition new_window :: "instant \<Rightarrow> client_window" where
  "new_window now =
     \<lparr> cw_rules = replicate 4 \<lparr> rw_since = now, rw_count = 0 \<rparr>, cw_last_seen = now \<rparr>"

definition count_violation :: "violation_rule \<Rightarrow> instant \<Rightarrow> client_window \<Rightarrow> nat \<times> client_window" where
  "count_violation rule now window =
     (let counter = cw_rules window ! rule_index rule;
          counter = (if rule_window rule \<le> now - rw_since counter
                     then \<lparr> rw_since = now, rw_count = 0 \<rparr> else counter);
          counter = counter\<lparr>rw_count := sat_add32 (rw_count counter) 1\<rparr> in
      (rw_count counter,
       window\<lparr>cw_rules := (cw_rules window)[rule_index rule := counter], cw_last_seen := now\<rparr>))"

text \<open>
  The part of \<open>record_client_protocol_violation\<close> up to the end of the shard's critical section: the
  count, when it reached the threshold.
\<close>

definition record_window ::
  "(ip_addr \<Rightarrow> 64 word) \<Rightarrow> instant \<Rightarrow> resolved_client_address \<Rightarrow> violation_rule
   \<Rightarrow> ip_blocking_runtime \<Rightarrow> nat option \<times> ip_blocking_runtime"
where
  "record_window hash now address rule rt =
     (if \<not> fb_enabled (bc_file (ib_config rt)) then (None, rt) else
      let ip = ra_client_ip address;
          rt = count_with (bump_violation rule) rt in
      if ib_allowed (ib_config rt) ip then (None, rt)
      else if \<not> ib_accepting rt then (None, count_with bump_manager_unavailable rt)
      else if restricted rt now ip then (None, rt)
      else
        let threshold = rule_threshold (fb_thresholds (bc_file (ib_config rt))) rule;
            i = unat (hash ip) mod shards;
            shard = ib_windows rt ! i;
            capacity = shard_capacity (fb_max_tracked_client_ips (bc_file (ib_config rt))) i in
        if map_of shard ip = None \<and> capacity \<le> length shard
        then (None, count_with bump_overflow rt)
        else
          let window = (case map_of shard ip of None \<Rightarrow> new_window now | Some w \<Rightarrow> w);
              (count, window) = count_violation rule now window;
              rt = rt\<lparr>ib_windows := (ib_windows rt)[i := AList.update ip window shard]\<rparr> in
          (if count < threshold then None else Some count, rt))"

definition publish_temporary :: "ip_blocking_runtime \<Rightarrow> ip_blocking_runtime" where
  "publish_temporary rt =
     rt\<lparr>ib_temporary := map (\<lambda>(ip, entry). (ip, pb_deadline entry)) (ib_pending rt)\<rparr>"

text \<open>The rest of it, under the lock of the pending set.\<close>

definition record_pending ::
  "instant \<Rightarrow> resolved_client_address \<Rightarrow> violation_rule \<Rightarrow> nat
   \<Rightarrow> ip_blocking_runtime \<Rightarrow> ip_blocking_runtime"
where
  "record_pending now address rule count rt =
     (let ip = ra_client_ip address in
      if map_of (ib_pending rt) ip \<noteq> None then rt
      else if fb_max_pending_activations (bc_file (ib_config rt)) \<le> length (ib_pending rt)
      then count_with bump_overflow rt
      else
        let entry = \<lparr> pb_address = address, pb_rule = rule, pb_count = count,
                      pb_deadline = now + from_secs temporary_seconds \<rparr>;
            rt = publish_temporary (rt\<lparr>ib_pending := AList.update ip entry (ib_pending rt)\<rparr>) in
        rt\<lparr>ib_notified := True\<rparr>)"

definition record_violation ::
  "(ip_addr \<Rightarrow> 64 word) \<Rightarrow> instant \<Rightarrow> resolved_client_address \<Rightarrow> violation_rule
   \<Rightarrow> ip_blocking_runtime \<Rightarrow> ip_blocking_runtime"
where
  "record_violation hash now address rule rt =
     (case record_window hash now address rule rt of
        (None, rt) \<Rightarrow> rt
      | (Some count, rt) \<Rightarrow> record_pending now address rule count rt)"

section \<open>The manager\<close>

definition sweep_windows :: "instant \<Rightarrow> ip_blocking_runtime \<Rightarrow> ip_blocking_runtime" where
  "sweep_windows now rt =
     rt\<lparr>ib_windows := map (filter (\<lambda>(_, window). now - cw_last_seen window < from_secs 1800))
          (ib_windows rt)\<rparr>"

definition drop_expired :: "instant \<Rightarrow> pending_table \<Rightarrow> pending_table" where
  "drop_expired now pending = filter (\<lambda>(_, entry). now < pb_deadline entry) pending"

definition expire_pending :: "instant \<Rightarrow> ip_blocking_runtime \<Rightarrow> ip_blocking_runtime" where
  "expire_pending now rt =
     (let pending = drop_expired now (ib_pending rt);
          changed = (length pending \<noteq> length (ib_pending rt));
          rt = rt\<lparr>ib_pending := pending\<rparr> in
      if changed then publish_temporary rt else rt)"

text \<open>
  What a commit works on: the snapshot and the first proposals in the table's order, at most a batch
  of them.
\<close>

definition persist_select ::
  "instant \<Rightarrow> ip_blocking_runtime \<Rightarrow> block_snapshot \<times> pending_table"
where
  "persist_select now rt =
     (ib_durable rt,
      take (fb_persistence_batch_size (bc_file (ib_config rt))) (drop_expired now (ib_pending rt)))"

datatype persist_error = Capacity_Reached | Commit_Failed anyhow

record work_env =
  wk_now :: instant
  wk_wall :: "anyhow + nat"
  wk_write :: write_env

fun admit_proposals ::
  "ip_blocking_config \<Rightarrow> instant \<Rightarrow> pending_table \<Rightarrow> block_snapshot \<Rightarrow> persisted_batch
   \<Rightarrow> anyhow + block_snapshot \<times> persisted_batch"
where
  "admit_proposals config now [] candidate outcome = Inr (candidate, outcome)"
| "admit_proposals config now ((ip, proposal) # proposals) candidate outcome =
     (if pb_deadline proposal \<le> now then admit_proposals config now proposals candidate outcome
      else if map_of candidate ip \<noteq> None \<or> ib_allowed config ip
      then admit_proposals config now proposals candidate
             (outcome\<lparr>ob_consumed := ob_consumed outcome @ [ip]\<rparr>)
      else if fb_max_blocked_client_ips (bc_file config) \<le> length candidate
      then Inr (candidate, outcome\<lparr>ob_capacity_overflow := True\<rparr>)
      else
        and_then (ok_or [''block timestamp overflow'']
            (checked_add64 (ob_wall outcome) block_seconds)) (\<lambda>expires.
        let block_rec = \<lparr> br_client_ip = ip, br_created_at_unix_seconds = ob_wall outcome,
                       br_expires_at_unix_seconds = expires, br_rule = pb_rule proposal,
                       br_observed_count = pb_count proposal \<rparr>;
            block = \<lparr> ab_record = block_rec, ab_deadline = now + from_secs block_seconds \<rparr> in
        admit_proposals config now proposals (AList.update ip block candidate)
          (outcome\<lparr>ob_consumed := ob_consumed outcome @ [ip],
                   ob_activated := ob_activated outcome @ [proposal]\<rparr>)))"

text \<open>The transaction: on an error nothing is published.\<close>

definition persist_work ::
  "block_json \<Rightarrow> ip_blocking_config \<Rightarrow> bool \<Rightarrow> work_env \<Rightarrow> block_snapshot \<times> pending_table
   \<Rightarrow> state_writer \<Rightarrow> fs \<Rightarrow> (persist_error + persisted_batch) \<times> state_writer \<times> fs"
where
  "persist_work json config force_compaction env batch writer fs =
     (let (old, pending) = batch;
          now = wk_now env;
          expired = list_ex (\<lambda>(_, b). ab_deadline b \<le> now) old in
      if pending = [] \<and> \<not> expired \<and> \<not> force_compaction then (Inr empty_batch, writer, fs)
      else if pending \<noteq> [] \<and> fb_max_blocked_client_ips (bc_file config) \<le> length old
              \<and> \<not> expired \<and> \<not> force_compaction
      then (Inl Capacity_Reached, writer, fs)
      else
        let candidate = filter (\<lambda>(_, b). now < ab_deadline b) old in
        case and_then (wk_wall env) (\<lambda>wall.
             admit_proposals config now pending candidate (empty_batch\<lparr>ob_wall := wall\<rparr>)) of
          Inl e \<Rightarrow> (Inl (Commit_Failed e), writer, fs)
        | Inr (candidate, outcome) \<Rightarrow>
            if ob_activated outcome \<noteq> [] \<or> expired \<or> force_compaction then
              (case persist_blocklist json (wk_write env) candidate writer fs of
                 (Inl e, writer', fs') \<Rightarrow> (Inl (Commit_Failed e), writer', fs')
               | (Inr _, writer', fs') \<Rightarrow>
                   (Inr (outcome\<lparr>ob_snapshot := Some candidate\<rparr>), writer', fs'))
            else if ob_capacity_overflow outcome \<and> ob_consumed outcome = []
            then (Inl Capacity_Reached, writer, fs)
            else (Inr outcome, writer, fs))"

definition consume_pending :: "ip_addr list \<Rightarrow> ip_blocking_runtime \<Rightarrow> ip_blocking_runtime" where
  "consume_pending ips rt =
     publish_temporary
       (rt\<lparr>ib_pending := filter (\<lambda>(ip, _). ip \<notin> set ips) (ib_pending rt)\<rparr>)"

definition persist_finish ::
  "persist_error + persisted_batch \<Rightarrow> ip_blocking_runtime
   \<Rightarrow> (persist_error + unit) \<times> ip_blocking_runtime"
where
  "persist_finish result rt =
     (case result of
        Inl e \<Rightarrow> (Inl e, if e = Capacity_Reached then count_with bump_overflow rt else rt)
      | Inr outcome \<Rightarrow>
          let rt = (case ob_snapshot outcome of None \<Rightarrow> rt | Some c \<Rightarrow> rt\<lparr>ib_durable := c\<rparr>);
              rt = (if ob_consumed outcome \<noteq> [] then consume_pending (ob_consumed outcome) rt else rt);
              rt = (if ob_capacity_overflow outcome then count_with bump_overflow rt else rt) in
          (Inr (),
           count_with (\<lambda>c. c\<lparr>ct_activated :=
             ct_activated c + of_nat (length (ob_activated outcome))\<rparr>) rt))"

definition persist_pending ::
  "block_json \<Rightarrow> bool \<Rightarrow> instant \<Rightarrow> work_env \<Rightarrow> ip_blocking_runtime \<Rightarrow> fs
   \<Rightarrow> (persist_error + unit) \<times> ip_blocking_runtime \<times> fs"
where
  "persist_pending json force_compaction now env rt fs =
     (case ib_writer rt of
        None \<Rightarrow> (Inl (Commit_Failed [''block state writer missing'']), rt, fs)
      | Some writer \<Rightarrow>
          let (result, writer', fs') =
                persist_work json (ib_config rt) force_compaction env (persist_select now rt) writer fs;
              (r, rt') = persist_finish result (rt\<lparr>ib_writer := Some writer'\<rparr>) in
          (r, rt', fs'))"

text \<open>The local variables of \<open>run_manager\<close>, and one turn of its loop.\<close>

record manager =
  mg_backoff :: duration
  mg_retry_after :: instant
  mg_first_sweep :: bool
  mg_last_sweep :: instant

definition manager_start :: "instant \<Rightarrow> manager" where
  "manager_start now = \<lparr> mg_backoff = from_secs 1, mg_retry_after = now, mg_first_sweep = True,
     mg_last_sweep = now \<rparr>"

record tick_env =
  tk_now :: instant
  tk_select :: instant
  tk_work :: work_env
  tk_after :: instant

definition after_commit :: "instant \<Rightarrow> persist_error + unit \<Rightarrow> manager \<Rightarrow> manager" where
  "after_commit now result m =
     (case result of
        Inr _ \<Rightarrow> m\<lparr>mg_first_sweep := False, mg_backoff := from_secs 1, mg_retry_after := now\<rparr>
      | Inl _ \<Rightarrow> m\<lparr>mg_retry_after := now + mg_backoff m,
                 mg_backoff := min (mg_backoff m * 2) (from_secs 60)\<rparr>)"

definition manager_tick ::
  "block_json \<Rightarrow> tick_env \<Rightarrow> manager \<Rightarrow> ip_blocking_runtime \<Rightarrow> fs
   \<Rightarrow> manager \<times> ip_blocking_runtime \<times> fs"
where
  "manager_tick json env m rt fs =
     (let now = tk_now env;
          sweep_due = (from_secs 30 \<le> now - mg_last_sweep m);
          rt = (if sweep_due then sweep_windows now rt else rt);
          m = (if sweep_due then m\<lparr>mg_last_sweep := now\<rparr> else m);
          rt = expire_pending now rt;
          has_pending = (ib_pending rt \<noteq> []) in
      if mg_retry_after m \<le> now \<and> (has_pending \<or> mg_first_sweep m \<or> sweep_due) then
        let (result, rt, fs) =
              persist_pending json (mg_first_sweep m) (tk_select env) (tk_work env) rt fs;
            rt = (case result of
                    Inl e \<Rightarrow> if e = Capacity_Reached then rt
                             else count_with bump_persistence_failures rt
                  | Inr _ \<Rightarrow> rt) in
        (after_commit (tk_after env) result m, rt, fs)
      else (m, rt, fs))"

text \<open>
  The loop after the shutdown signal, with the clock readings of each turn; fuel bounds the turns and
  None is a loop that has not ended.
\<close>

record shutdown_env =
  se_retain :: instant
  se_select :: instant
  se_work :: work_env

definition shutdown_retain :: "instant \<Rightarrow> ip_blocking_runtime \<Rightarrow> ip_blocking_runtime" where
  "shutdown_retain now rt =
     publish_temporary (rt\<lparr>ib_pending := drop_expired now (ib_pending rt)\<rparr>)"

fun shutdown_loop ::
  "block_json \<Rightarrow> (nat \<Rightarrow> shutdown_env) \<Rightarrow> nat \<Rightarrow> nat \<Rightarrow> ip_blocking_runtime \<Rightarrow> fs
   \<Rightarrow> (ip_blocking_runtime \<times> fs) option"
where
  "shutdown_loop json env turn 0 rt fs = None"
| "shutdown_loop json env turn (Suc fuel) rt fs =
     (let rt = shutdown_retain (se_retain (env turn)) rt in
      if ib_pending rt = [] then Some (rt, fs)
      else
        let (result, rt, fs) =
              persist_pending json False (se_select (env turn)) (se_work (env turn)) rt fs in
        if \<not> is_ok result \<or> fb_max_blocked_client_ips (bc_file (ib_config rt)) \<le> length (ib_durable rt)
        then Some (rt, fs)
        else shutdown_loop json env (Suc turn) fuel rt fs)"

declare shards_def [eval_simps] temporary_seconds_def [eval_simps] rule_window_def [eval_simps]
  empty_batch_def [eval_simps] zero_counters_def [eval_simps] ip_blocking_load_def [eval_simps]
  ib_allowed_def [eval_simps] held_def [eval_simps] deadlines_of_def [eval_simps]
  restricted_def [eval_simps] bump_rejects_def [eval_simps] bump_overflow_def [eval_simps]
  bump_manager_unavailable_def [eval_simps] bump_persistence_failures_def [eval_simps]
  bump_violation_def [eval_simps] count_with_def [eval_simps] is_client_ip_blocked_def [eval_simps]
  is_scan_namespace_def [eval_simps] shard_capacity_def [eval_simps] new_window_def [eval_simps]
  count_violation_def [eval_simps] record_window_def [eval_simps] publish_temporary_def [eval_simps]
  record_pending_def [eval_simps] record_violation_def [eval_simps] sweep_windows_def [eval_simps]
  drop_expired_def [eval_simps] expire_pending_def [eval_simps] persist_select_def [eval_simps]
  persist_work_def [eval_simps] consume_pending_def [eval_simps] persist_finish_def [eval_simps]
  persist_pending_def [eval_simps] manager_start_def [eval_simps] after_commit_def [eval_simps]
  manager_tick_def [eval_simps] shutdown_retain_def [eval_simps]

section \<open>Interleavings\<close>

text \<open>
  The threads around the runtime: requests that have counted a violation but not yet queued it, and
  the commit in progress.  Every step is one of the code's critical sections, at the clock of the
  state.
\<close>

datatype commit_job =
    Selected bool "block_snapshot \<times> pending_table"
  | Worked "persist_error + persisted_batch"

record block_system =
  bs_runtime :: ip_blocking_runtime
  bs_clock :: instant
  bs_counting :: "(resolved_client_address \<times> violation_rule \<times> nat) list"
  bs_job :: "commit_job option"
  bs_fs :: fs

inductive ib_step :: "block_json \<Rightarrow> (ip_addr \<Rightarrow> 64 word) \<Rightarrow> block_system \<Rightarrow> block_system \<Rightarrow> bool"
  for json hash
where
  Step_Clock: "bs_clock s \<le> t \<Longrightarrow> ib_step json hash s (s\<lparr>bs_clock := t\<rparr>)"
| Step_Request:
    "is_client_ip_blocked (bs_clock s) address (bs_runtime s) = (b, rt) \<Longrightarrow>
     ib_step json hash s (s\<lparr>bs_runtime := rt\<rparr>)"
| Step_Below:
    "normalize_ip (ra_client_ip address) = ra_client_ip address \<Longrightarrow>
     record_window hash (bs_clock s) address rule (bs_runtime s) = (None, rt) \<Longrightarrow>
     ib_step json hash s (s\<lparr>bs_runtime := rt\<rparr>)"
| Step_Counted:
    "normalize_ip (ra_client_ip address) = ra_client_ip address \<Longrightarrow>
     record_window hash (bs_clock s) address rule (bs_runtime s) = (Some count, rt) \<Longrightarrow>
     ib_step json hash s
       (s\<lparr>bs_runtime := rt, bs_counting := (address, rule, count) # bs_counting s\<rparr>)"
| Step_Queue:
    "(address, rule, count) \<in> set (bs_counting s) \<Longrightarrow> now \<le> bs_clock s \<Longrightarrow>
     ib_step json hash s
       (s\<lparr>bs_runtime := record_pending now address rule count (bs_runtime s),
          bs_counting := remove1 (address, rule, count) (bs_counting s)\<rparr>)"
| Step_Sweep:
    "ib_step json hash s (s\<lparr>bs_runtime := sweep_windows (bs_clock s) (bs_runtime s)\<rparr>)"
| Step_Expire:
    "ib_step json hash s (s\<lparr>bs_runtime := expire_pending (bs_clock s) (bs_runtime s)\<rparr>)"
| Step_Select:
    "bs_job s = None \<Longrightarrow>
     ib_step json hash s
       (s\<lparr>bs_job := Some (Selected force_compaction (persist_select (bs_clock s) (bs_runtime s)))\<rparr>)"
| Step_Work:
    "bs_job s = Some (Selected force_compaction batch) \<Longrightarrow> wk_now env = bs_clock s \<Longrightarrow>
     ib_writer (bs_runtime s) = Some writer \<Longrightarrow>
     persist_work json (ib_config (bs_runtime s)) force_compaction env batch writer (bs_fs s)
       = (result, writer', fs') \<Longrightarrow>
     ib_step json hash s
       (s\<lparr>bs_runtime := (bs_runtime s)\<lparr>ib_writer := Some writer'\<rparr>,
          bs_job := Some (Worked result), bs_fs := fs'\<rparr>)"
| Step_Finish:
    "bs_job s = Some (Worked result) \<Longrightarrow> persist_finish result (bs_runtime s) = (r, rt) \<Longrightarrow>
     ib_step json hash s (s\<lparr>bs_runtime := rt, bs_job := None\<rparr>)"
| Step_Close:
    "ib_step json hash s (s\<lparr>bs_runtime := (bs_runtime s)\<lparr>ib_accepting := False\<rparr>\<rparr>)"

definition ib_reachable ::
  "block_json \<Rightarrow> (ip_addr \<Rightarrow> 64 word) \<Rightarrow> block_system \<Rightarrow> block_system \<Rightarrow> bool"
where
  "ib_reachable json hash = (ib_step json hash)\<^sup>*\<^sup>*"

section \<open>Invariants\<close>

definition windows_ok :: "ip_blocking_config \<Rightarrow> window_shard list \<Rightarrow> bool" where
  "windows_ok config ws \<longleftrightarrow>
     length ws = shards \<and>
     (\<forall>i < shards. distinct (map fst (ws ! i)) \<and>
        length (ws ! i) \<le> shard_capacity (fb_max_tracked_client_ips (bc_file config)) i)"

text \<open>Who may be restricted: an address outside the allow list whose count reached its threshold.\<close>

definition earned :: "ip_blocking_config \<Rightarrow> ip_addr \<Rightarrow> violation_rule \<Rightarrow> nat \<Rightarrow> bool" where
  "earned config ip rule count \<longleftrightarrow>
     normalize_ip ip = ip \<and> \<not> ib_allowed config ip \<and>
     rule_threshold (fb_thresholds (bc_file config)) rule \<le> count"

definition pending_ok :: "ip_blocking_config \<Rightarrow> instant \<Rightarrow> pending_table \<Rightarrow> bool" where
  "pending_ok config now pending \<longleftrightarrow>
     distinct (map fst pending) \<and>
     (\<forall>(ip, p) \<in> set pending. ip = ra_client_ip (pb_address p) \<and>
        earned config ip (pb_rule p) (pb_count p) \<and>
        pb_deadline p \<le> now + from_secs temporary_seconds)"

definition durable_ok ::
  "ip_blocking_config \<Rightarrow> block_snapshot \<Rightarrow> instant \<Rightarrow> block_snapshot \<Rightarrow> bool"
where
  "durable_ok config initial now blocks \<longleftrightarrow>
     snapshot_ok blocks \<and> length blocks \<le> fb_max_blocked_client_ips (bc_file config) \<and>
     (\<forall>(ip, b) \<in> set blocks. ab_deadline b \<le> now + from_secs block_seconds \<and>
        ((ip, b) \<in> set initial \<or>
         earned config ip (br_rule (ab_record b)) (br_observed_count (ab_record b))))"

definition thresholds_ok :: "ip_blocking_config \<Rightarrow> bool" where
  "thresholds_ok config \<longleftrightarrow> (\<forall>rule. 1 \<le> rule_threshold (fb_thresholds (bc_file config)) rule)"

lemma thresholds_ok_config: "ip_blocking_config_ok config \<Longrightarrow> thresholds_ok config"
  unfolding thresholds_ok_def
proof
  fix rule
  assume "ip_blocking_config_ok config"
  then show "1 \<le> rule_threshold (fb_thresholds (bc_file config)) rule"
    by (cases rule) (auto simp: ip_blocking_config_ok_def)
qed

text \<open>The addresses under observation are bounded by the configured total.\<close>

lemma sum_shard_capacity: "(\<Sum>i < shards. shard_capacity n i) = n"
proof -
  have "(\<Sum>i < shards. if i < n mod shards then 1 else (0::nat)) = card {i. i < shards \<and> i < n mod shards}"
    by (simp add: sum.If_cases Int_def)
  also have "{i. i < shards \<and> i < n mod shards} = {..< n mod shards}"
    by (auto simp: shards_def)
  finally have "(\<Sum>i < shards. shard_capacity n i) = shards * (n div shards) + n mod shards"
    by (simp add: shard_capacity_def sum.distrib)
  then show ?thesis by simp
qed

lemma windows_ok_total:
  assumes "windows_ok config ws"
  shows "sum_list (map length ws) \<le> fb_max_tracked_client_ips (bc_file config)"
proof -
  have "sum_list (map length ws) = (\<Sum>i < shards. length (ws ! i))"
    using assms by (simp add: windows_ok_def sum_list_sum_nth atLeast0LessThan)
  also have "\<dots> \<le> (\<Sum>i < shards. shard_capacity (fb_max_tracked_client_ips (bc_file config)) i)"
    using assms by (intro sum_mono) (simp add: windows_ok_def)
  finally show ?thesis by (simp add: sum_shard_capacity)
qed

lemma length_update:
  "length (AList.update k v xs) = (if map_of xs k = None then Suc (length xs) else length xs)"
  by (induction xs) auto

lemma update_new: "map_of xs k = None \<Longrightarrow> AList.update k v xs = xs @ [(k, v)]"
  by (induction xs) (auto split: if_splits)

lemma windows_ok_update:
  assumes "windows_ok config ws" "i < shards"
    and "map_of (ws ! i) ip \<noteq> None \<or>
         length (ws ! i) < shard_capacity (fb_max_tracked_client_ips (bc_file config)) i"
  shows "windows_ok config (ws[i := AList.update ip w (ws ! i)])"
  using assms
  by (auto simp: windows_ok_def nth_list_update length_update distinct_update)

lemma windows_ok_sweep:
  "windows_ok config ws \<Longrightarrow> windows_ok config (map (filter P) ws)"
  by (auto simp: windows_ok_def intro: distinct_map_filter le_trans [OF length_filter_le])

text \<open>The runtime as a whole.\<close>

definition runtime_ok :: "block_snapshot \<Rightarrow> instant \<Rightarrow> ip_blocking_runtime \<Rightarrow> bool" where
  "runtime_ok initial now rt \<longleftrightarrow>
     thresholds_ok (ib_config rt) \<and>
     windows_ok (ib_config rt) (ib_windows rt) \<and>
     pending_ok (ib_config rt) now (ib_pending rt) \<and>
     length (ib_pending rt) \<le> fb_max_pending_activations (bc_file (ib_config rt)) \<and>
     ib_temporary rt = map (\<lambda>(ip, entry). (ip, pb_deadline entry)) (ib_pending rt) \<and>
     durable_ok (ib_config rt) initial now (ib_durable rt)"

lemma runtime_ok_clock:
  assumes "runtime_ok initial now rt" "now \<le> t"
  shows "runtime_ok initial t rt"
  using assms by (fastforce simp: runtime_ok_def pending_ok_def durable_ok_def)

lemma runtime_ok_fields [simp]:
  "runtime_ok initial now (rt\<lparr>ib_counters := c\<rparr>) = runtime_ok initial now rt"
  "runtime_ok initial now (rt\<lparr>ib_accepting := a\<rparr>) = runtime_ok initial now rt"
  "runtime_ok initial now (rt\<lparr>ib_notified := b\<rparr>) = runtime_ok initial now rt"
  "runtime_ok initial now (rt\<lparr>ib_writer := w\<rparr>) = runtime_ok initial now rt"
  "runtime_ok initial now (count_with bump rt) = runtime_ok initial now rt"
  by (simp_all add: runtime_ok_def count_with_def)

lemma count_with_simps [simp]:
  "ib_config (count_with bump rt) = ib_config rt"
  "ib_durable (count_with bump rt) = ib_durable rt"
  "ib_temporary (count_with bump rt) = ib_temporary rt"
  "ib_windows (count_with bump rt) = ib_windows rt"
  "ib_pending (count_with bump rt) = ib_pending rt"
  "ib_accepting (count_with bump rt) = ib_accepting rt"
  "ib_notified (count_with bump rt) = ib_notified rt"
  "ib_writer (count_with bump rt) = ib_writer rt"
  by (simp_all add: count_with_def)

lemma is_client_ip_blocked_ok:
  assumes "is_client_ip_blocked now address rt = (b, rt')"
  shows "runtime_ok initial t rt' = runtime_ok initial t rt \<and> ib_config rt' = ib_config rt"
  using assms by (auto simp: is_client_ip_blocked_def Let_def split: if_splits)

lemma runtime_ok_windows:
  "runtime_ok initial now rt \<Longrightarrow> windows_ok (ib_config rt) ws \<Longrightarrow>
     runtime_ok initial now (rt\<lparr>ib_windows := ws\<rparr>)"
  by (simp add: runtime_ok_def)

lemma record_window_ok:
  assumes run: "record_window hash now address rule rt = (c, rt')"
    and ok: "runtime_ok initial t rt"
  shows "runtime_ok initial t rt'" "ib_config rt' = ib_config rt"
    and "c = Some count \<Longrightarrow> normalize_ip (ra_client_ip address) = ra_client_ip address \<Longrightarrow>
      earned (ib_config rt) (ra_client_ip address) rule count"
proof -
  let ?ip = "ra_client_ip address"
  let ?i = "unat (hash ?ip) mod shards"
  let ?shard = "ib_windows rt ! ?i"
  let ?rt = "count_with (bump_violation rule) rt"
  have i: "?i < shards" by (simp add: shards_def)
  have "(runtime_ok initial t rt' \<and> ib_config rt' = ib_config rt) \<and>
      (c = Some count \<longrightarrow> \<not> ib_allowed (ib_config rt) ?ip \<and>
         rule_threshold (fb_thresholds (bc_file (ib_config rt))) rule \<le> count)"
  proof (cases "\<not> fb_enabled (bc_file (ib_config rt)) \<or> ib_allowed (ib_config rt) ?ip
      \<or> \<not> ib_accepting rt \<or> restricted ?rt now ?ip \<or>
      map_of ?shard ?ip = None \<and>
        shard_capacity (fb_max_tracked_client_ips (bc_file (ib_config rt))) ?i \<le> length ?shard")
    case True
    with run have "c = None \<and> (rt' = rt \<or> (\<exists>bump. rt' = count_with bump ?rt) \<or> rt' = ?rt)"
      by (auto simp: record_window_def Let_def split: if_splits)
    with ok show ?thesis by auto
  next
    case False
    define w where "w = (case map_of ?shard ?ip of None \<Rightarrow> new_window now | Some w \<Rightarrow> w)"
    obtain n w' where n: "count_violation rule now w = (n, w')"
      by (cases "count_violation rule now w")
    from run False n have r: "rt' = ?rt\<lparr>ib_windows := (ib_windows rt)[?i := AList.update ?ip w' ?shard]\<rparr>"
      and c: "c = (if n < rule_threshold (fb_thresholds (bc_file (ib_config rt))) rule
        then None else Some n)"
      by (auto simp: record_window_def Let_def w_def)
    have "windows_ok (ib_config rt) (ib_windows rt)" using ok by (simp add: runtime_ok_def)
    from windows_ok_update [OF this i, of ?ip w'] False
    have "windows_ok (ib_config rt) ((ib_windows rt)[?i := AList.update ?ip w' ?shard])"
      by linarith
    then have "runtime_ok initial t rt'"
      unfolding r using runtime_ok_windows [of initial t ?rt] ok by simp
    then show ?thesis using c False by (auto simp: r split: if_splits)
  qed
  then show "runtime_ok initial t rt'" "ib_config rt' = ib_config rt"
    and "c = Some count \<Longrightarrow> normalize_ip (ra_client_ip address) = ra_client_ip address \<Longrightarrow>
      earned (ib_config rt) (ra_client_ip address) rule count"
    by (auto simp: earned_def)
qed

lemma record_pending_ok:
  assumes ok: "runtime_ok initial t rt" and now: "now \<le> t"
    and e: "earned (ib_config rt) (ra_client_ip address) rule count"
  shows "runtime_ok initial t (record_pending now address rule count rt)"
    and "ib_config (record_pending now address rule count rt) = ib_config rt"
proof -
  let ?ip = "ra_client_ip address"
  let ?p = "\<lparr> pb_address = address, pb_rule = rule, pb_count = count,
              pb_deadline = now + from_secs temporary_seconds \<rparr>"
  have "pending_ok (ib_config rt) t (AList.update ?ip ?p (ib_pending rt))"
    if new: "map_of (ib_pending rt) ?ip = None"
  proof -
    have "AList.update ?ip ?p (ib_pending rt) = ib_pending rt @ [(?ip, ?p)]"
      using new by (rule update_new)
    then show ?thesis
      using ok e now new by (auto simp: runtime_ok_def pending_ok_def map_of_eq_None_iff)
  qed
  then show "runtime_ok initial t (record_pending now address rule count rt)"
    using ok by (auto simp: record_pending_def Let_def runtime_ok_def publish_temporary_def length_update)
  show "ib_config (record_pending now address rule count rt) = ib_config rt"
    by (simp add: record_pending_def Let_def publish_temporary_def)
qed

lemma filter_same_length: "length (filter P xs) = length xs \<Longrightarrow> filter P xs = xs"
  by (metis filter_id_conv length_filter_less less_irrefl)

lemma pending_ok_filter: "pending_ok config now p \<Longrightarrow> pending_ok config now (filter P p)"
  by (auto simp: pending_ok_def intro: distinct_map_filter)

lemma pending_ok_take: "pending_ok config now p \<Longrightarrow> pending_ok config now (take n p)"
  by (auto simp: pending_ok_def take_map [symmetric] dest: in_set_takeD)

lemma runtime_ok_sweep:
  "runtime_ok initial t rt \<Longrightarrow> runtime_ok initial t (sweep_windows now rt)"
  by (simp add: sweep_windows_def runtime_ok_def windows_ok_sweep)

lemma runtime_ok_publish_filter:
  "runtime_ok initial t rt \<Longrightarrow>
     runtime_ok initial t (publish_temporary (rt\<lparr>ib_pending := filter P (ib_pending rt)\<rparr>))"
  by (auto simp: publish_temporary_def runtime_ok_def pending_ok_filter
      intro: le_trans [OF length_filter_le])

lemma runtime_ok_expire:
  assumes "runtime_ok initial t rt"
  shows "runtime_ok initial t (expire_pending now rt)"
proof (cases "length (drop_expired now (ib_pending rt)) = length (ib_pending rt)")
  case True
  then have "drop_expired now (ib_pending rt) = ib_pending rt"
    unfolding drop_expired_def by (rule filter_same_length)
  with assms show ?thesis by (simp add: expire_pending_def Let_def)
next
  case False
  with assms runtime_ok_publish_filter show ?thesis
    by (simp add: expire_pending_def Let_def drop_expired_def)
qed

text \<open>A transaction builds an acceptable snapshot from an acceptable one.\<close>

lemma durable_ok_filter:
  assumes "durable_ok config initial now blocks"
  shows "durable_ok config initial now (filter P blocks)"
  using assms
  by (auto simp: durable_ok_def snapshot_ok_def
      intro: distinct_map_filter le_trans [OF length_filter_le])

lemma durable_ok_insert:
  assumes "durable_ok config initial now blocks" "thresholds_ok config"
    and "earned config ip rule count" "map_of blocks ip = None"
    and "length blocks < fb_max_blocked_client_ips (bc_file config)"
  shows "durable_ok config initial now (AList.update ip
      \<lparr> ab_record = \<lparr> br_client_ip = ip, br_created_at_unix_seconds = wall,
          br_expires_at_unix_seconds = wall + block_seconds, br_rule = rule,
          br_observed_count = count \<rparr>,
        ab_deadline = now + from_secs block_seconds \<rparr> blocks)"
proof -
  have "1 \<le> rule_threshold (fb_thresholds (bc_file config)) rule"
    using assms(2) by (simp add: thresholds_ok_def)
  with assms(3) have "0 < count" "normalize_ip ip = ip" by (auto simp: earned_def)
  with assms show ?thesis
    by (auto simp: durable_ok_def snapshot_ok_def update_new block_ok_def Let_def map_of_eq_None_iff)
qed

lemma admit_proposals_ok:
  assumes "admit_proposals config now ps candidate outcome = Inr (candidate', outcome')"
    and "durable_ok config initial now candidate" "thresholds_ok config"
    and "\<forall>(ip, p) \<in> set ps. earned config ip (pb_rule p) (pb_count p)"
  shows "durable_ok config initial now candidate' \<and> ob_snapshot outcome' = ob_snapshot outcome"
  using assms
proof (induction config now ps candidate outcome rule: admit_proposals.induct)
  case (2 config now ip proposal ps candidate outcome)
  show ?case
  proof (cases "pb_deadline proposal \<le> now \<or> map_of candidate ip \<noteq> None \<or> ib_allowed config ip
      \<or> fb_max_blocked_client_ips (bc_file config) \<le> length candidate")
    case True
    with 2 show ?thesis by (auto split: if_splits)
  next
    case False
    let ?b = "\<lparr> ab_record = \<lparr> br_client_ip = ip, br_created_at_unix_seconds = ob_wall outcome,
          br_expires_at_unix_seconds = ob_wall outcome + block_seconds, br_rule = pb_rule proposal,
          br_observed_count = pb_count proposal \<rparr>,
        ab_deadline = now + from_secs block_seconds \<rparr>"
    let ?o = "outcome\<lparr>ob_consumed := ob_consumed outcome @ [ip],
                   ob_activated := ob_activated outcome @ [proposal]\<rparr>"
    from False 2(4) have run: "admit_proposals config now ps (AList.update ip ?b candidate) ?o
        = Inr (candidate', outcome')" and fits: "ob_wall outcome + block_seconds \<le> u64_max"
      by auto
    have "durable_ok config initial now (AList.update ip ?b candidate)"
      using False 2(5-7) by (intro durable_ok_insert) auto
    with 2(3) run fits False 2(6,7) show ?thesis
      by (auto simp: Let_def)
  qed
qed simp

lemma persist_work_ok:
  assumes run: "persist_work json config force env (old, pending) writer fs = (Inr outcome, writer', fs')"
    and ok: "durable_ok config initial (wk_now env) old" "thresholds_ok config"
      "pending_ok config (wk_now env) pending"
    and snap: "ob_snapshot outcome = Some candidate"
  shows "durable_ok config initial (wk_now env) candidate"
    and "persist_blocklist json (wk_write env) candidate writer fs = (Inr (), writer', fs')"
proof -
  let ?now = "wk_now env"
  let ?candidate = "filter (\<lambda>(_, b). ?now < ab_deadline b) old"
  let ?admit = "and_then (wk_wall env) (\<lambda>wall.
             admit_proposals config ?now pending ?candidate (empty_batch\<lparr>ob_wall := wall\<rparr>))"
  define expired where "expired = list_ex (\<lambda>(_, b). ab_deadline b \<le> ?now) old"
  note run = run [unfolded persist_work_def Let_def prod.case expired_def [symmetric]]
  have early: "\<not> (pending = [] \<and> \<not> expired \<and> \<not> force)"
  proof
    assume "pending = [] \<and> \<not> expired \<and> \<not> force"
    with run have "outcome = empty_batch" by simp
    with snap show False by (simp add: empty_batch_def)
  qed
  show "durable_ok config initial ?now candidate"
    and "persist_blocklist json (wk_write env) candidate writer fs = (Inr (), writer', fs')"
  proof (atomize (full), cases ?admit)
    case (Inl e)
    with run early show "durable_ok config initial ?now candidate \<and>
      persist_blocklist json (wk_write env) candidate writer fs = (Inr (), writer', fs')"
      by (auto split: if_splits)
  next
    case (Inr st)
    obtain c o1 where st: "st = (c, o1)" by (cases st)
    from Inr obtain wall where a:
      "admit_proposals config ?now pending ?candidate (empty_batch\<lparr>ob_wall := wall\<rparr>) = Inr (c, o1)"
      by (auto simp: st)
    have c: "durable_ok config initial ?now c \<and> ob_snapshot o1 = None"
      using admit_proposals_ok [OF a durable_ok_filter [OF ok(1)] ok(2)] ok(3)
      by (auto simp: pending_ok_def empty_batch_def)
    obtain r w f where p: "persist_blocklist json (wk_write env) c writer fs = (r, w, f)"
      by (cases "persist_blocklist json (wk_write env) c writer fs")
    from run early Inr p c snap have "c = candidate \<and> (r, w, f) = (Inr (), writer', fs')"
      by (auto simp: st split: if_splits sum.splits)
    with c p show "durable_ok config initial ?now candidate \<and>
      persist_blocklist json (wk_write env) candidate writer fs = (Inr (), writer', fs')"
      by simp
  qed
qed

lemma persist_finish_ok:
  assumes "persist_finish result rt = (r, rt')" "runtime_ok initial t rt"
    and "\<And>out c. result = Inr out \<Longrightarrow> ob_snapshot out = Some c \<Longrightarrow> durable_ok (ib_config rt) initial t c"
  shows "runtime_ok initial t rt' \<and> ib_config rt' = ib_config rt"
proof (cases result)
  case (Inl e)
  with assms show ?thesis by (auto simp: persist_finish_def split: if_splits)
next
  case (Inr out)
  define rt1 where "rt1 = (case ob_snapshot out of None \<Rightarrow> rt | Some c \<Rightarrow> rt\<lparr>ib_durable := c\<rparr>)"
  define rt2 where "rt2 = (if ob_consumed out \<noteq> [] then consume_pending (ob_consumed out) rt1 else rt1)"
  have 1: "runtime_ok initial t rt1 \<and> ib_config rt1 = ib_config rt"
    using assms(2,3) Inr by (auto simp: rt1_def runtime_ok_def split: option.splits)
  then have 2: "runtime_ok initial t rt2 \<and> ib_config rt2 = ib_config rt"
    using runtime_ok_publish_filter [of initial t rt1 "\<lambda>(ip, _). ip \<notin> set (ob_consumed out)"]
    by (auto simp: rt2_def consume_pending_def) (simp add: publish_temporary_def)
  from assms(1) Inr 2 show ?thesis
    by (auto simp: persist_finish_def Let_def rt1_def [symmetric] rt2_def [symmetric])
qed

section \<open>Every interleaving keeps the bounds\<close>

primrec job_ok :: "ip_blocking_config \<Rightarrow> block_snapshot \<Rightarrow> instant \<Rightarrow> commit_job \<Rightarrow> bool" where
  "job_ok config initial now (Selected force_compaction batch) \<longleftrightarrow>
     durable_ok config initial now (fst batch) \<and> pending_ok config now (snd batch)"
| "job_ok config initial now (Worked result) \<longleftrightarrow>
     (\<forall>out c. result = Inr out \<longrightarrow> ob_snapshot out = Some c \<longrightarrow> durable_ok config initial now c)"

definition system_ok :: "ip_blocking_config \<Rightarrow> block_snapshot \<Rightarrow> block_system \<Rightarrow> bool" where
  "system_ok config initial s \<longleftrightarrow>
     runtime_ok initial (bs_clock s) (bs_runtime s) \<and> ib_config (bs_runtime s) = config \<and>
     (\<forall>(address, rule, count) \<in> set (bs_counting s).
        earned config (ra_client_ip address) rule count) \<and>
     (\<forall>job. bs_job s = Some job \<longrightarrow> job_ok config initial (bs_clock s) job)"

lemma durable_ok_clock:
  "durable_ok config initial now blocks \<Longrightarrow> now \<le> t \<Longrightarrow> durable_ok config initial t blocks"
  by (fastforce simp: durable_ok_def)

lemma pending_ok_clock:
  "pending_ok config now pending \<Longrightarrow> now \<le> t \<Longrightarrow> pending_ok config t pending"
  by (fastforce simp: pending_ok_def)

lemma job_ok_clock:
  "job_ok config initial now job \<Longrightarrow> now \<le> t \<Longrightarrow> job_ok config initial t job"
  by (cases job) (auto intro: durable_ok_clock pending_ok_clock)

lemma system_ok_step:
  assumes "ib_step json hash s s'" "system_ok config initial s"
  shows "system_ok config initial s'"
  using assms
proof (cases rule: ib_step.cases)
  case (Step_Clock t)
  with assms(2) show ?thesis
    by (auto simp: system_ok_def intro: runtime_ok_clock job_ok_clock)
next
  case (Step_Request address b rt)
  with assms(2) is_client_ip_blocked_ok [OF Step_Request(2)] show ?thesis
    by (auto simp: system_ok_def)
next
  case (Step_Below address rule rt)
  with assms(2) record_window_ok [OF Step_Below(3)] show ?thesis
    by (auto simp: system_ok_def)
next
  case (Step_Counted address rule count rt)
  with assms(2) record_window_ok [OF Step_Counted(3)] show ?thesis
    by (auto simp: system_ok_def)
next
  case (Step_Queue address rule count now)
  have "earned config (ra_client_ip address) rule count"
    using assms(2) Step_Queue(2) by (auto simp: system_ok_def)
  with assms(2) Step_Queue record_pending_ok [of initial "bs_clock s" "bs_runtime s" now] show ?thesis
    by (auto simp: system_ok_def dest: in_set_remove1 [THEN iffD1, rotated] notin_set_remove1)
next
  case Step_Sweep
  with assms(2) runtime_ok_sweep show ?thesis
    by (auto simp: system_ok_def sweep_windows_def)
next
  case Step_Expire
  with assms(2) runtime_ok_expire show ?thesis
    by (auto simp: system_ok_def expire_pending_def Let_def publish_temporary_def)
next
  case (Step_Select force_compaction)
  with assms(2) show ?thesis
    by (auto simp: system_ok_def persist_select_def runtime_ok_def drop_expired_def
        intro: pending_ok_take pending_ok_filter)
next
  case (Step_Work force_compaction batch env writer result writer' fs')
  have "job_ok config initial (bs_clock s) (Worked result)"
    using Step_Work assms(2) persist_work_ok(1) [of json config force_compaction env "fst batch" "snd batch"]
    by (fastforce simp: system_ok_def runtime_ok_def)
  with assms(2) Step_Work show ?thesis by (auto simp: system_ok_def)
next
  case (Step_Finish result r rt)
  with assms(2) persist_finish_ok [OF Step_Finish(3)] show ?thesis
    by (auto simp: system_ok_def)
next
  case Step_Close
  with assms(2) show ?thesis by (auto simp: system_ok_def)
qed

lemma system_ok_reachable:
  assumes "ib_reachable json hash s s'" "system_ok config initial s"
  shows "system_ok config initial s'"
  using assms unfolding ib_reachable_def
  by (induction rule: rtranclp_induct) (auto intro: system_ok_step)

text \<open>A runtime that was just loaded starts the invariant.\<close>

definition loaded_system :: "instant \<Rightarrow> ip_blocking_runtime \<Rightarrow> fs \<Rightarrow> block_system" where
  "loaded_system now rt fs =
     \<lparr> bs_runtime = rt, bs_clock = now, bs_counting = [], bs_job = None, bs_fs = fs \<rparr>"

lemma system_ok_loaded:
  assumes load: "ip_blocking_load json env config fs = (Inr rt, fs')"
    and config: "ip_blocking_config_ok config"
    and now: "le_monotonic env \<le> now"
  shows "system_ok config (ib_durable rt) (loaded_system now rt fs')"
proof -
  have "ib_config rt = config \<and> ib_pending rt = [] \<and> ib_temporary rt = [] \<and>
      ib_windows rt = replicate shards [] \<and> snapshot_ok (ib_durable rt) \<and>
      length (ib_durable rt) \<le> fb_max_blocked_client_ips (bc_file config) \<and>
      (\<forall>(ip, b) \<in> set (ib_durable rt). ab_deadline b \<le> le_monotonic env + from_secs block_seconds)"
  proof (cases "fb_enabled (bc_file config)")
    case True
    with load obtain writer blocks where
      l: "load_blocklist json env (fb_state_file (bc_file config))
        (fb_max_blocked_client_ips (bc_file config)) fs = (Inr (writer, blocks), fs')"
      and rt: "rt = \<lparr> ib_config = config, ib_durable = blocks, ib_temporary = [],
               ib_windows = replicate shards [], ib_pending = [], ib_notified = False,
               ib_accepting = True, ib_writer = Some writer, ib_counters = zero_counters \<rparr>"
      by (auto simp: ip_blocking_load_def split: prod.splits sum.splits)
    from load_blocklist_ok [OF l] show ?thesis by (simp add: rt)
  next
    case False
    with load show ?thesis by (auto simp: ip_blocking_load_def snapshot_ok_def)
  qed
  moreover have "windows_ok config (replicate shards [])"
    by (simp add: windows_ok_def)
  moreover have "thresholds_ok config" using config by (rule thresholds_ok_config)
  ultimately show ?thesis
    using now by (fastforce simp: system_ok_def loaded_system_def runtime_ok_def pending_ok_def durable_ok_def)
qed

section \<open>The threshold\<close>

definition window_of :: "(ip_addr \<Rightarrow> 64 word) \<Rightarrow> ip_blocking_runtime \<Rightarrow> ip_addr \<Rightarrow> client_window option" where
  "window_of hash rt ip = map_of (ib_windows rt ! (unat (hash ip) mod shards)) ip"

text \<open>
  \<open>watching\<close>: after some violations the runtime differs from an earlier one only in its counters and
  in the windows, and the counter of the rule stands at n since its first violation.
\<close>

definition watching ::
  "(ip_addr \<Rightarrow> 64 word) \<Rightarrow> ip_addr \<Rightarrow> violation_rule \<Rightarrow> instant \<Rightarrow> nat
   \<Rightarrow> ip_blocking_runtime \<Rightarrow> ip_blocking_runtime \<Rightarrow> bool"
where
  "watching hash ip rule since n rt rt' \<longleftrightarrow>
     ib_config rt' = ib_config rt \<and> ib_durable rt' = ib_durable rt \<and>
     ib_temporary rt' = ib_temporary rt \<and> ib_pending rt' = ib_pending rt \<and>
     ib_accepting rt' = ib_accepting rt \<and> length (ib_windows rt') = shards \<and>
     (\<exists>w. window_of hash rt' ip = Some w \<and> length (cw_rules w) = 4 \<and>
        cw_rules w ! rule_index rule = \<lparr> rw_since = since, rw_count = n \<rparr>)"

lemma rule_index_less: "rule_index rule < 4"
  by (cases rule) simp_all

text \<open>The conditions under which a violation is counted at all.\<close>

definition counted :: "ip_blocking_runtime \<Rightarrow> instant \<Rightarrow> ip_addr \<Rightarrow> bool" where
  "counted rt now ip \<longleftrightarrow>
     fb_enabled (bc_file (ib_config rt)) \<and> \<not> ib_allowed (ib_config rt) ip \<and>
     ib_accepting rt \<and> \<not> restricted rt now ip"

definition threshold_of :: "ip_blocking_runtime \<Rightarrow> violation_rule \<Rightarrow> nat" where
  "threshold_of rt rule = rule_threshold (fb_thresholds (bc_file (ib_config rt))) rule"

lemma record_window_first:
  assumes "counted rt now ip" "ip = ra_client_ip address"
    and "length (ib_windows rt) = shards" "window_of hash rt ip = None"
    and "length (ib_windows rt ! (unat (hash ip) mod shards))
       < shard_capacity (fb_max_tracked_client_ips (bc_file (ib_config rt))) (unat (hash ip) mod shards)"
  obtains rt' where "record_window hash now address rule rt =
      (if Suc 0 < threshold_of rt rule then None else Some (Suc 0), rt')"
    and "watching hash ip rule now (Suc 0) rt rt'"
proof -
  let ?i = "unat (hash ip) mod shards"
  have i: "?i < length (ib_windows rt)" using assms(3) by (simp add: shards_def)
  have "from_secs 300 \<noteq> 0" "from_secs 60 \<noteq> 0" by (simp_all add: from_secs_def)
  then have cv: "count_violation rule now (new_window now) = (1, \<lparr> cw_rules =
      (replicate 4 \<lparr> rw_since = now, rw_count = 0 \<rparr>) [rule_index rule :=
        \<lparr> rw_since = now, rw_count = 1 \<rparr>], cw_last_seen = now \<rparr>)"
    using rule_index_less [of rule]
    by (simp add: count_violation_def new_window_def Let_def rule_window_def sat_add32_def u32_max_def)
  have restr: "restricted (count_with bump rt) = restricted rt" for bump
    by (auto simp: restricted_def fun_eq_iff)
  have "map_of (ib_windows rt ! ?i) ip = None" using assms(4) by (simp add: window_of_def)
  then show thesis
    using assms i cv rule_index_less [of rule] that
    by (simp add: record_window_def Let_def counted_def restr threshold_of_def watching_def
        window_of_def update_conv')
qed

lemma record_window_next:
  assumes watch: "watching hash ip rule since n rt rt1" and ip: "ip = ra_client_ip address"
    and "counted rt now ip" "now - since < rule_window rule" "n < u32_max"
  obtains rt' where "record_window hash now address rule rt1 =
      (if Suc n < threshold_of rt rule then None else Some (Suc n), rt')"
    and "watching hash ip rule since (Suc n) rt rt'"
proof -
  let ?i = "unat (hash ip) mod shards"
  from watch obtain w where w: "map_of (ib_windows rt1 ! ?i) ip = Some w" "length (cw_rules w) = 4"
      "cw_rules w ! rule_index rule = \<lparr> rw_since = since, rw_count = n \<rparr>"
    and same: "ib_config rt1 = ib_config rt" "ib_durable rt1 = ib_durable rt"
      "ib_temporary rt1 = ib_temporary rt" "ib_pending rt1 = ib_pending rt"
      "ib_accepting rt1 = ib_accepting rt" "length (ib_windows rt1) = shards"
    by (auto simp: watching_def window_of_def)
  have i: "?i < length (ib_windows rt1)" using same by (simp add: shards_def)
  have restr: "restricted (count_with bump rt1) = restricted rt" for bump
    using same by (auto simp: restricted_def fun_eq_iff)
  have cv: "count_violation rule now w = (Suc n, w\<lparr> cw_rules := (cw_rules w) [rule_index rule :=
        \<lparr> rw_since = since, rw_count = Suc n \<rparr>], cw_last_seen := now \<rparr>)"
    using assms(4,5) w by (simp add: count_violation_def Let_def sat_add32_def)
  show thesis
    using assms(3) i cv w same rule_index_less [of rule] that ip
    by (simp add: record_window_def Let_def counted_def restr threshold_of_def watching_def
        window_of_def update_conv')
qed

text \<open>A client's violations of one rule, one after the other.\<close>

definition record_all ::
  "(ip_addr \<Rightarrow> 64 word) \<Rightarrow> resolved_client_address \<Rightarrow> violation_rule \<Rightarrow> instant list
   \<Rightarrow> ip_blocking_runtime \<Rightarrow> ip_blocking_runtime"
where
  "record_all hash address rule moments rt =
     fold (\<lambda>now. record_violation hash now address rule) moments rt"

text \<open>The situation the threshold speaks of: a client that is new, and room for it.\<close>

definition fresh_client ::
  "(ip_addr \<Rightarrow> 64 word) \<Rightarrow> ip_blocking_runtime \<Rightarrow> violation_rule \<Rightarrow> instant list \<Rightarrow> ip_addr \<Rightarrow> bool"
where
  "fresh_client hash rt rule moments ip \<longleftrightarrow>
     length (ib_windows rt) = shards \<and> window_of hash rt ip = None \<and>
     length (ib_windows rt ! (unat (hash ip) mod shards))
       < shard_capacity (fb_max_tracked_client_ips (bc_file (ib_config rt)))
           (unat (hash ip) mod shards) \<and>
     (\<forall>t \<in> set moments. counted rt t ip \<and> t - hd moments < rule_window rule)"

lemma record_all_below:
  assumes "fresh_client hash rt rule moments ip" "ip = ra_client_ip address"
    and "moments \<noteq> []" "length moments < threshold_of rt rule" "threshold_of rt rule \<le> u32_max"
  shows "watching hash ip rule (hd moments) (length moments) rt (record_all hash address rule moments rt)"
  using assms(1,3,4)
proof (induction moments rule: rev_induct)
  case (snoc now moments)
  show ?case
  proof (cases moments)
    case Nil
    with snoc.prems have f: "counted rt now ip" "length (ib_windows rt) = shards"
      "window_of hash rt ip = None"
      "length (ib_windows rt ! (unat (hash ip) mod shards))
       < shard_capacity (fb_max_tracked_client_ips (bc_file (ib_config rt))) (unat (hash ip) mod shards)"
      by (auto simp: fresh_client_def)
    obtain rt' where "record_window hash now address rule rt =
        (if Suc 0 < threshold_of rt rule then None else Some (Suc 0), rt')"
      "watching hash ip rule now (Suc 0) rt rt'"
      by (rule record_window_first [OF f(1) assms(2) f(2-4)])
    with Nil snoc.prems show ?thesis by (simp add: record_all_def record_violation_def)
  next
    case (Cons t ts)
    then have hd: "hd (moments @ [now]) = hd moments" by simp
    with Cons snoc.prems have "watching hash ip rule (hd moments) (length moments) rt
        (record_all hash address rule moments rt)"
      by (intro snoc.IH) (auto simp: fresh_client_def)
    moreover have "counted rt now ip" "now - hd moments < rule_window rule"
      using snoc.prems(1) hd by (auto simp: fresh_client_def)
    moreover have "length moments < u32_max" using snoc.prems(3) assms(5) by simp
    ultimately obtain rt' where "record_window hash now address rule (record_all hash address rule moments rt) =
        (if Suc (length moments) < threshold_of rt rule then None else Some (Suc (length moments)), rt')"
      "watching hash ip rule (hd moments) (Suc (length moments)) rt rt'"
      using record_window_next [OF _ assms(2)] by metis
    with snoc.prems hd show ?thesis by (simp add: record_all_def record_violation_def)
  qed
qed simp

lemma record_all_last:
  assumes fresh: "fresh_client hash rt rule moments ip" and ip: "ip = ra_client_ip address"
    and n: "length moments = threshold_of rt rule" "1 \<le> threshold_of rt rule"
      "threshold_of rt rule \<le> u32_max"
  obtains rt' where "watching hash ip rule (hd moments) (length moments) rt rt'"
    and "record_all hash address rule moments rt = record_pending (last moments) address rule (length moments) rt'"
proof -
  obtain ts now where ts: "moments = ts @ [now]"
    using n by (metis append_butlast_last_id length_0_conv not_one_le_zero)
  have c: "counted rt now ip" using fresh by (auto simp: fresh_client_def ts)
  show thesis
  proof (cases "ts = []")
    case True
    with fresh have f: "length (ib_windows rt) = shards" "window_of hash rt ip = None"
      "length (ib_windows rt ! (unat (hash ip) mod shards))
       < shard_capacity (fb_max_tracked_client_ips (bc_file (ib_config rt))) (unat (hash ip) mod shards)"
      by (auto simp: fresh_client_def)
    obtain rt' where "record_window hash now address rule rt =
        (if Suc 0 < threshold_of rt rule then None else Some (Suc 0), rt')"
      "watching hash ip rule now (Suc 0) rt rt'"
      by (rule record_window_first [OF c ip f])
    with that n True ts show thesis by (simp add: record_all_def record_violation_def)
  next
    case False
    then have hd: "hd moments = hd ts" by (simp add: ts)
    have "watching hash ip rule (hd ts) (length ts) rt (record_all hash address rule ts rt)"
      using fresh False n ts hd by (intro record_all_below ip) (auto simp: fresh_client_def)
    moreover have "now - hd ts < rule_window rule"
      using fresh hd by (auto simp: fresh_client_def ts)
    moreover have "length ts < u32_max" using n ts by simp
    ultimately obtain rt' where "record_window hash now address rule (record_all hash address rule ts rt) =
        (if Suc (length ts) < threshold_of rt rule then None else Some (Suc (length ts)), rt')"
      "watching hash ip rule (hd ts) (Suc (length ts)) rt rt'"
      using record_window_next [OF _ ip c] by metis
    with that n ts hd show thesis by (simp add: record_all_def record_violation_def)
  qed
qed

lemma held_later: "held deadlines t ip \<Longrightarrow> now \<le> t \<Longrightarrow> held deadlines now ip"
  by (auto simp: held_def split: option.splits)

lemma map_of_deadlines:
  "map_of (map (\<lambda>(ip, entry). (ip, pb_deadline entry)) pending) ip = map_option pb_deadline (map_of pending ip)"
  by (induction pending) auto

text \<open>
  Fewer violations than the threshold change nothing for anybody; the violation that reaches it
  restricts the client, for five minutes from then, when the pending set has room.
\<close>

lemma record_all_restricts:
  assumes fresh: "fresh_client hash rt rule moments (ra_client_ip address)"
    and n: "1 \<le> threshold_of rt rule" "threshold_of rt rule \<le> u32_max"
    and room: "length (ib_pending rt) < fb_max_pending_activations (bc_file (ib_config rt))"
    and new: "map_of (ib_pending rt) (ra_client_ip address) = None"
  shows "length moments < threshold_of rt rule \<Longrightarrow>
      restricted (record_all hash address rule moments rt) t ip = restricted rt t ip"
    and "length moments = threshold_of rt rule \<Longrightarrow> last moments \<le> t \<Longrightarrow>
      restricted (record_all hash address rule moments rt) t (ra_client_ip address)
        \<longleftrightarrow> t < last moments + from_secs temporary_seconds"
proof -
  assume len: "length moments < threshold_of rt rule"
  show "restricted (record_all hash address rule moments rt) t ip = restricted rt t ip"
  proof (cases "moments = []")
    case False
    with record_all_below [OF fresh refl _ len n(2)]
    show ?thesis by (simp add: watching_def restricted_def)
  qed (simp add: record_all_def)
next
  assume len: "length moments = threshold_of rt rule" and t: "last moments \<le> t"
  obtain rt' where w: "watching hash (ra_client_ip address) rule (hd moments) (length moments) rt rt'"
    and r: "record_all hash address rule moments rt = record_pending (last moments) address rule (length moments) rt'"
    by (rule record_all_last [OF fresh refl len n])
  have "moments \<noteq> []" using len n by auto
  then have "\<not> restricted rt (last moments) (ra_client_ip address)"
    using fresh by (auto simp: fresh_client_def counted_def)
  then have "\<not> held (deadlines_of (ib_durable rt)) t (ra_client_ip address)"
    using held_later t by (auto simp: restricted_def)
  with w room new show "restricted (record_all hash address rule moments rt) t (ra_client_ip address)
        \<longleftrightarrow> t < last moments + from_secs temporary_seconds"
    by (simp add: r record_pending_def Let_def restricted_def watching_def publish_temporary_def
        held_def map_of_deadlines update_conv')
qed

section \<open>The shutdown loop ends\<close>

lemma admit_proposals_consumed:
  "admit_proposals config now ps candidate outcome = Inr (candidate', outcome') \<Longrightarrow>
     set (ob_consumed outcome) \<subseteq> set (ob_consumed outcome')"
proof (induction config now ps candidate outcome rule: admit_proposals.induct)
  case (2 config now ip proposal ps candidate outcome)
  consider (skip) "pb_deadline proposal \<le> now"
    | (known) "\<not> pb_deadline proposal \<le> now" "map_of candidate ip \<noteq> None \<or> ib_allowed config ip"
    | (full) "\<not> pb_deadline proposal \<le> now" "\<not> (map_of candidate ip \<noteq> None \<or> ib_allowed config ip)"
        "fb_max_blocked_client_ips (bc_file config) \<le> length candidate"
    | (new) "\<not> pb_deadline proposal \<le> now" "\<not> (map_of candidate ip \<noteq> None \<or> ib_allowed config ip)"
        "\<not> fb_max_blocked_client_ips (bc_file config) \<le> length candidate"
    by blast
  then show ?case
  proof cases
    case skip
    with 2 show ?thesis by simp
  next
    case known
    with 2(2) [OF known] 2(4) show ?thesis by auto
  next
    case full
    with 2(4) show ?thesis by auto
  next
    case new
    with 2(3) [OF new refl refl] 2(4) show ?thesis by (auto simp: Let_def)
  qed
qed auto

text \<open>The first proposal is dealt with, unless the candidate is full.\<close>

lemma admit_proposals_first:
  assumes "admit_proposals config now ((ip, p) # ps) candidate outcome = Inr (candidate', outcome')"
    and "now < pb_deadline p" "ob_consumed outcome = []" "ob_activated outcome = []"
  shows "ip \<in> set (ob_consumed outcome') \<or>
     candidate' = candidate \<and> ob_capacity_overflow outcome' \<and> ob_consumed outcome' = [] \<and>
     ob_activated outcome' = [] \<and> fb_max_blocked_client_ips (bc_file config) \<le> length candidate"
proof (cases "map_of candidate ip \<noteq> None \<or> ib_allowed config ip")
  case True
  with assms admit_proposals_consumed show ?thesis by fastforce
next
  case False
  show ?thesis
  proof (cases "fb_max_blocked_client_ips (bc_file config) \<le> length candidate")
    case True
    with assms False show ?thesis by auto
  next
    case new: False
    with assms False obtain c o2 where "admit_proposals config now ps c o2 = Inr (candidate', outcome')"
      "ip \<in> set (ob_consumed o2)"
      by (auto simp: Let_def)
    with admit_proposals_consumed show ?thesis by blast
  qed
qed

lemma persist_work_first:
  assumes run: "persist_work json config False env (old, (ip, p) # ps) writer fs = (Inr outcome, writer', fs')"
    and alive: "wk_now env < pb_deadline p"
  shows "ip \<in> set (ob_consumed outcome) \<or>
     (\<exists>c. ob_snapshot outcome = Some c \<and> fb_max_blocked_client_ips (bc_file config) \<le> length c)"
proof -
  let ?now = "wk_now env"
  let ?candidate = "filter (\<lambda>(_, b). ?now < ab_deadline b) old"
  let ?admit = "and_then (wk_wall env) (\<lambda>wall.
             admit_proposals config ?now ((ip, p) # ps) ?candidate (empty_batch\<lparr>ob_wall := wall\<rparr>))"
  define expired where "expired = list_ex (\<lambda>(_, b). ab_deadline b \<le> ?now) old"
  note run = run [unfolded persist_work_def Let_def prod.case expired_def [symmetric]]
  show ?thesis
  proof (cases ?admit)
    case (Inl e)
    with run show ?thesis by (auto split: if_splits)
  next
    case (Inr st)
    obtain c o1 where st: "st = (c, o1)" by (cases st)
    from Inr obtain wall where a:
      "admit_proposals config ?now ((ip, p) # ps) ?candidate (empty_batch\<lparr>ob_wall := wall\<rparr>) = Inr (c, o1)"
      unfolding st by (elim and_then_InrE)
    have first: "ip \<in> set (ob_consumed o1) \<or>
      c = ?candidate \<and> ob_capacity_overflow o1 \<and> ob_consumed o1 = [] \<and> ob_activated o1 = [] \<and>
      fb_max_blocked_client_ips (bc_file config) \<le> length ?candidate"
      by (rule admit_proposals_first [OF a alive]) (simp_all add: empty_batch_def)
    obtain r w f where p: "persist_blocklist json (wk_write env) c writer fs = (r, w, f)"
      by (cases "persist_blocklist json (wk_write env) c writer fs")
    from run have "(case ?admit of
          Inl e \<Rightarrow> (Inl (Commit_Failed e), writer, fs)
        | Inr (candidate, outcome) \<Rightarrow>
            if ob_activated outcome \<noteq> [] \<or> expired \<or> False then
              (case persist_blocklist json (wk_write env) candidate writer fs of
                 (Inl e, writer', fs') \<Rightarrow> (Inl (Commit_Failed e), writer', fs')
               | (Inr _, writer', fs') \<Rightarrow>
                   (Inr (outcome\<lparr>ob_snapshot := Some candidate\<rparr>), writer', fs'))
            else if ob_capacity_overflow outcome \<and> ob_consumed outcome = []
            then (Inl Capacity_Reached, writer, fs)
            else (Inr outcome, writer, fs)) = (Inr outcome, writer', fs')"
      by (metis Pair_inject list.distinct(1) Inl_Inr_False)
    then have "outcome = o1\<lparr>ob_snapshot := Some c\<rparr> \<or>
        outcome = o1 \<and> \<not> (ob_capacity_overflow o1 \<and> ob_consumed o1 = [])"
      unfolding Inr by (auto simp: st p split: if_splits sum.splits)
    with first show ?thesis by auto
  qed
qed

lemma persist_pending_progress:
  assumes run: "persist_pending json False now env rt fs = (Inr u, rt', fs')"
    and clock: "now \<le> wk_now env" "wk_now env \<le> t"
    and some: "ib_pending rt \<noteq> []" and batch: "1 \<le> fb_persistence_batch_size (bc_file (ib_config rt))"
    and free: "length (ib_durable rt') < fb_max_blocked_client_ips (bc_file (ib_config rt))"
  shows "length (drop_expired t (ib_pending rt')) < length (ib_pending rt)"
    and "ib_config rt' = ib_config rt"
proof -
  from run obtain writer outcome writer' where
    w: "persist_work json (ib_config rt) False env (persist_select now rt) writer fs = (Inr outcome, writer', fs')"
    and f: "persist_finish (Inr outcome) (rt\<lparr>ib_writer := Some writer'\<rparr>) = (Inr u, rt')"
    by (auto simp: persist_pending_def Let_def persist_finish_def split: option.splits prod.splits sum.splits)
  have pending: "ib_pending rt' = filter (\<lambda>(ip, _). ip \<notin> set (ob_consumed outcome)) (ib_pending rt)"
    and durable: "ib_durable rt' = (case ob_snapshot outcome of None \<Rightarrow> ib_durable rt | Some c \<Rightarrow> c)"
    and config: "ib_config rt' = ib_config rt"
    using f by (auto simp: persist_finish_def Let_def consume_pending_def publish_temporary_def
        split: option.splits)
  have "\<exists>(ip, p) \<in> set (ib_pending rt). pb_deadline p \<le> t \<or> ip \<in> set (ob_consumed outcome)"
  proof (rule ccontr)
    assume none: "\<not> ?thesis"
    with clock have "drop_expired now (ib_pending rt) = ib_pending rt"
      unfolding drop_expired_def filter_id_conv by fastforce
    moreover obtain ip p ps where ps: "ib_pending rt = (ip, p) # ps"
      using some by (cases "ib_pending rt") auto
    moreover obtain n where "fb_persistence_batch_size (bc_file (ib_config rt)) = Suc n"
      using batch by (cases "fb_persistence_batch_size (bc_file (ib_config rt))") auto
    ultimately have "persist_select now rt = (ib_durable rt, (ip, p) # take n ps)"
      by (simp add: persist_select_def)
    moreover have "wk_now env < pb_deadline p" using none clock ps by auto
    ultimately have "ip \<in> set (ob_consumed outcome) \<or>
       (\<exists>c. ob_snapshot outcome = Some c \<and>
         fb_max_blocked_client_ips (bc_file (ib_config rt)) \<le> length c)"
      using persist_work_first w by simp
    with none ps durable free show False by auto
  qed
  then obtain x where "x \<in> set (ib_pending rt)"
    "\<not> (t < pb_deadline (snd x) \<and> fst x \<notin> set (ob_consumed outcome))"
    by fastforce
  then have "length (filter (\<lambda>x. t < pb_deadline (snd x) \<and> fst x \<notin> set (ob_consumed outcome))
      (ib_pending rt)) < length (ib_pending rt)"
    by (rule length_filter_less)
  then show "length (drop_expired t (ib_pending rt')) < length (ib_pending rt)"
    by (simp add: pending drop_expired_def case_prod_unfold conj_commute)
  show "ib_config rt' = ib_config rt" by (rule config)
qed

text \<open>The readings of a clock that never goes back.\<close>

definition clock_forward :: "(nat \<Rightarrow> shutdown_env) \<Rightarrow> bool" where
  "clock_forward env \<longleftrightarrow>
     (\<forall>turn. se_retain (env turn) \<le> se_select (env turn) \<and>
        se_select (env turn) \<le> wk_now (se_work (env turn)) \<and>
        wk_now (se_work (env turn)) \<le> se_retain (env (Suc turn)))"

lemma shutdown_loop_ends:
  assumes "clock_forward env" "1 \<le> fb_persistence_batch_size (bc_file (ib_config rt))"
    and "length (drop_expired (se_retain (env turn)) (ib_pending rt)) < fuel"
  obtains rt' fs' where "shutdown_loop json env turn fuel rt fs = Some (rt', fs')"
  using assms
proof (induction fuel arbitrary: turn rt fs thesis)
  case (Suc fuel)
  define rt1 where "rt1 = shutdown_retain (se_retain (env turn)) rt"
  have rt1: "ib_pending rt1 = drop_expired (se_retain (env turn)) (ib_pending rt)"
    "ib_config rt1 = ib_config rt"
    by (simp_all add: rt1_def shutdown_retain_def publish_temporary_def)
  obtain result rt2 fs2 where p: "persist_pending json False (se_select (env turn))
      (se_work (env turn)) rt1 fs = (result, rt2, fs2)"
    by (cases "persist_pending json False (se_select (env turn)) (se_work (env turn)) rt1 fs")
  show ?case
  proof (cases "ib_pending rt1 = [] \<or> \<not> is_ok result \<or>
      fb_max_blocked_client_ips (bc_file (ib_config rt2)) \<le> length (ib_durable rt2)")
    case True
    then show ?thesis
      by (cases "ib_pending rt1 = []") (auto intro: Suc.prems(1) simp: Let_def rt1_def [symmetric] p)
  next
    case False
    then have some: "ib_pending rt1 \<noteq> []" and ok: "result = Inr ()"
      by (auto simp: is_ok_iff)
    have c: "ib_config rt2 = ib_config rt1"
      using p ok by (auto simp: persist_pending_def persist_finish_def Let_def consume_pending_def
          publish_temporary_def split: option.splits prod.splits sum.splits)
    have "length (drop_expired (se_retain (env (Suc turn))) (ib_pending rt2)) < length (ib_pending rt1)"
      using Suc.prems(2,3) False some ok p c rt1(2)
      by (intro persist_pending_progress(1) [of json "se_select (env turn)" "se_work (env turn)" _ fs "()" _ fs2])
        (auto simp: clock_forward_def)
    then have "length (drop_expired (se_retain (env (Suc turn))) (ib_pending rt2)) < fuel"
      using Suc.prems(4) rt1(1) by simp
    then obtain rt' fs' where "shutdown_loop json env (Suc turn) fuel rt2 fs2 = Some (rt', fs')"
      using Suc.IH [where turn = "Suc turn" and rt = rt2 and fs = fs2] Suc.prems(2,3) c rt1(2) by auto
    with False p show ?thesis
      by (intro Suc.prems(1)) (auto simp: Let_def rt1_def [symmetric])
  qed
qed simp

section \<open>What a commit publishes\<close>

lemma persist_finish_durable:
  assumes "persist_finish result rt = (r, rt')"
  shows "result = Inl e \<Longrightarrow> r = Inl e \<and> ib_durable rt' = ib_durable rt"
    and "result = Inr out \<Longrightarrow> r = Inr () \<and> ib_durable rt' =
      (case ob_snapshot out of None \<Rightarrow> ib_durable rt | Some c \<Rightarrow> c)"
  using assms
  by (auto simp: persist_finish_def Let_def consume_pending_def publish_temporary_def
      split: if_splits option.splits)

lemma persist_pending_published:
  assumes run: "persist_pending json force now env rt fs = (r, rt', fs')"
    and ok: "runtime_ok initial (wk_now env) rt"
    and writer: "ib_writer rt = Some writer" "we_temp (wk_write env) \<noteq> sw_path writer"
      "sw_cleanup_temp writer \<noteq> Some (sw_path writer)"
  shows "ib_durable rt' = ib_durable rt \<or> is_ok r \<and>
    (\<exists>data. bj_to_vec json (block_file_of (we_now (wk_write env)) (ib_durable rt')) = Inr data \<and>
       fs' (sw_path writer) = Some data)"
proof -
  obtain result writer' where
    w: "persist_work json (ib_config rt) force env (persist_select now rt) writer fs = (result, writer', fs')"
    and f: "persist_finish result (rt\<lparr>ib_writer := Some writer'\<rparr>) = (r, rt')"
    using run writer(1) by (auto simp: persist_pending_def Let_def split: prod.splits)
  show ?thesis
  proof (cases result)
    case (Inl e)
    with persist_finish_durable(1) [OF f] show ?thesis by simp
  next
    case (Inr out)
    note d = persist_finish_durable(2) [OF f Inr]
    show ?thesis
    proof (cases "ob_snapshot out")
      case None
      with d show ?thesis by simp
    next
      case (Some c)
      have "pending_ok (ib_config rt) (wk_now env) (snd (persist_select now rt))"
        using ok by (auto simp: persist_select_def runtime_ok_def drop_expired_def
            intro: pending_ok_take pending_ok_filter)
      then have "persist_blocklist json (wk_write env) c writer fs = (Inr (), writer', fs')"
        using persist_work_ok(2) [of json "ib_config rt" force env "ib_durable rt"
            "snd (persist_select now rt)" writer fs out writer' fs' initial c] w Inr Some ok
        by (simp add: persist_select_def runtime_ok_def)
      from persist_blocklist_target(2) [OF this writer(2,3)] d Some show ?thesis
        by (auto simp: is_ok_iff)
    qed
  qed
qed

section \<open>Retrying\<close>

definition failed_commits :: "(instant \<times> persist_error) list \<Rightarrow> manager \<Rightarrow> manager" where
  "failed_commits failures m = fold (\<lambda>(now, e). after_commit now (Inl e)) failures m"

lemma failed_commits_backoff:
  assumes "mg_backoff m = from_secs 1"
  shows "mg_backoff (failed_commits failures m) = min (from_secs (2 ^ length failures)) (from_secs 60)"
proof (induction failures rule: rev_induct)
  case Nil
  then show ?case using assms by (simp add: failed_commits_def from_secs_def)
next
  case (snoc x failures)
  then show ?case
    by (cases x) (auto simp: failed_commits_def after_commit_def from_secs_def min_def)
qed

lemma sweep_windows_durable [simp]: "ib_durable (sweep_windows now rt) = ib_durable rt"
  by (simp add: sweep_windows_def)

lemma expire_pending_durable [simp]: "ib_durable (expire_pending now rt) = ib_durable rt"
  by (simp add: expire_pending_def Let_def publish_temporary_def)

lemma manager_tick_waits:
  assumes "manager_tick json env m rt fs = (m', rt', fs')" "tk_now env < mg_retry_after m"
  shows "fs' = fs \<and> ib_durable rt' = ib_durable rt \<and> mg_backoff m' = mg_backoff m \<and>
    mg_retry_after m' = mg_retry_after m"
proof -
  let ?due = "from_secs 30 \<le> tk_now env - mg_last_sweep m"
  define m1 where "m1 = (if ?due then m\<lparr>mg_last_sweep := tk_now env\<rparr> else m)"
  define rt1 where "rt1 = (if ?due then sweep_windows (tk_now env) rt else rt)"
  have "\<not> mg_retry_after m1 \<le> tk_now env" using assms(2) by (simp add: m1_def)
  with assms(1) have "m' = m1 \<and> rt' = expire_pending (tk_now env) rt1 \<and> fs' = fs"
    unfolding manager_tick_def Let_def m1_def [symmetric] rt1_def [symmetric] by simp
  then show ?thesis by (simp add: m1_def rt1_def)
qed

end
