(* ===== verification/Http_Headers.thy ===== *)
theory Http_Headers
  imports Client_Address Routing
begin

text \<open>
  \<open>src/http_proxy/headers.rs\<close>: what of a message's fields is forwarded.  Hop-by-hop fields end at
  the gateway, trailers cannot redefine routing, framing or identity, and the frames of a body are
  checked one by one.
\<close>

section \<open>The code\<close>

definition request_authority :: "('h, 'm) http_lib_scheme \<Rightarrow> 'h request \<Rightarrow> string + string" where
  "request_authority lib request =
     and_then (resolve_request_host lib request) (\<lambda>_.
       ok_or ''request authority required''
         (case u_authority (rq_uri request) of
            Some authority \<Rightarrow> Some authority
          | None \<Rightarrow> Option.bind (hm_get lib (rq_headers request) ''host'') (hv_to_str lib)))"

text \<open>The comma-separated tokens of all fields of a name whose value is a string.\<close>

definition field_tokens :: "('h, 'm) http_lib_scheme \<Rightarrow> 'h \<Rightarrow> string \<Rightarrow> string list" where
  "field_tokens lib headers name =
     concat (map (split_on (CHR '','')) (List.map_filter (hv_to_str lib) (hm_get_all lib headers name)))"

definition connection_names :: "('h, 'm) http_lib_scheme \<Rightarrow> 'h \<Rightarrow> string list" where
  "connection_names lib headers =
     List.map_filter (\<lambda>name. hn_from_bytes lib (trim name)) (field_tokens lib headers ''connection'')"

definition hop_fields :: "string list" where
  "hop_fields = [''proxy-connection'', ''keep-alive'', ''transfer-encoding'']"

definition sanitize_hop_headers :: "('h, 'm) http_lib_scheme \<Rightarrow> bool \<Rightarrow> 'h \<Rightarrow> 'h" where
  "sanitize_hop_headers lib upgrade headers =
     (let named = connection_names lib headers;
          headers = hm_remove_all lib headers (filter (\<lambda>name. \<not> upgrade \<or> name \<noteq> ''upgrade'') named);
          headers = hm_remove lib headers ''connection'';
          headers = (if upgrade then hm_insert lib headers ''connection'' ''upgrade''
                     else hm_remove lib headers ''upgrade'');
          headers = hm_remove_all lib headers hop_fields
      in hm_remove lib headers ''transfer-encoding'')"

definition sanitize_request :: "('h, 'm) http_lib_scheme \<Rightarrow> bool \<Rightarrow> 'h \<Rightarrow> 'h" where
  "sanitize_request lib upgrade headers =
     (let headers = sanitize_hop_headers lib upgrade headers;
          headers = hm_remove lib headers ''proxy-authorization'';
          headers = hm_remove lib headers ''proxy-authenticate'';
          headers = hm_remove lib headers ''te''
      in if \<not> upgrade then hm_insert lib headers ''te'' ''trailers'' else headers)"

definition sanitize_response :: "('h, 'm) http_lib_scheme \<Rightarrow> bool \<Rightarrow> 'h \<Rightarrow> 'h" where
  "sanitize_response lib upgrade headers =
     hm_remove lib (hm_remove lib (sanitize_hop_headers lib upgrade headers) ''te'') ''proxy-authenticate''"

definition identity_name :: "string \<Rightarrow> bool" where
  "identity_name name \<longleftrightarrow>
     starts_with name ''x-forwarded-'' \<or> starts_with name ''x-edge-gateway-'' \<or> starts_with name ''cf-''"

definition trailer_fields :: "string list" where
  "trailer_fields =
     [''host'', ''content-length'', ''content-type'', ''content-encoding'', ''trailer'', ''te'',
      ''authorization'', ''proxy-authorization'', ''cookie'', ''set-cookie'', ''x-real-ip'',
      ''forwarded'', ''true-client-ip'', ''x-original-url'', ''x-rewrite-url'']"

definition sanitize_trailers :: "('h, 'm) http_lib_scheme \<Rightarrow> 'h \<Rightarrow> 'h" where
  "sanitize_trailers lib headers =
     (let headers = sanitize_hop_headers lib False headers;
          headers = hm_remove_all lib headers (filter identity_name (hm_keys lib headers))
      in hm_remove_all lib headers trailer_fields)"

definition declare_trailer ::
  "('h, 'm) http_lib_scheme \<Rightarrow> string set \<Rightarrow> string \<Rightarrow> string + string set"
where
  "declare_trailer lib names name =
     and_then (ok_or ''invalid Trailer declaration'' (hn_from_bytes lib (trim name))) (\<lambda>name.
     let names = insert name names in
     if 100 < card names then Inl ''too many declared trailers'' else Inr names)"

definition declare_trailers ::
  "('h, 'm) http_lib_scheme \<Rightarrow> string set \<Rightarrow> bytes \<Rightarrow> string + string set"
where
  "declare_trailers lib names v =
     and_then (ok_or ''invalid Trailer declaration'' (hv_to_str lib v)) (\<lambda>v.
       try_fold (declare_trailer lib) names (split_on (CHR '','') v))"

definition declared_trailer_names :: "('h, 'm) http_lib_scheme \<Rightarrow> 'h \<Rightarrow> string + string set" where
  "declared_trailer_names lib headers =
     try_fold (declare_trailers lib) {} (hm_get_all lib headers ''trailer'')"

text \<open>The frames of a streamed body.\<close>

datatype 'h body_frame = Data_Frame bytes | Trailers_Frame 'h

definition trailer_bytes :: "(string \<times> bytes) list \<Rightarrow> nat" where
  "trailer_bytes entries =
     fold (\<lambda>(name, v) total. sat_add64 (sat_add64 (sat_add64 total (length name)) (length v)) 32)
       entries 0"

definition sanitize_stream_frame ::
  "('h, 'm) http_lib_scheme \<Rightarrow> string set option \<Rightarrow> 'h body_frame \<Rightarrow> string + 'h body_frame"
where
  "sanitize_stream_frame lib declared frame =
     (case frame of
        Data_Frame data \<Rightarrow> Inr (Data_Frame data)
      | Trailers_Frame trailers \<Rightarrow>
          let entries = hm_fields lib trailers in
          if 100 < length entries \<or> 32768 < trailer_bytes entries then Inl ''HTTP trailer limit exceeded''
          else
            let trailers = sanitize_trailers lib trailers in
            if (case declared of
                  None \<Rightarrow> False
                | Some names \<Rightarrow> list_ex (\<lambda>name. name \<notin> names) (hm_keys lib trailers))
            then Inl ''H1 trailers require a prior Trailer header declaration''
            else Inr (Trailers_Frame trailers))"

declare request_authority_def [eval_simps] field_tokens_def [eval_simps]
  connection_names_def [eval_simps] hop_fields_def [eval_simps] sanitize_hop_headers_def [eval_simps]
  sanitize_request_def [eval_simps] sanitize_response_def [eval_simps] identity_name_def [eval_simps]
  trailer_fields_def [eval_simps] sanitize_trailers_def [eval_simps] declare_trailer_def [eval_simps]
  declare_trailers_def [eval_simps] declared_trailer_names_def [eval_simps]
  trailer_bytes_def [eval_simps] sanitize_stream_frame_def [eval_simps]

section \<open>What is forwarded\<close>

text \<open>A field that ends here: named by a \<open>Connection\<close> field, or hop-by-hop by its nature.\<close>

definition hop_name :: "('h, 'm) http_lib_scheme \<Rightarrow> 'h \<Rightarrow> string \<Rightarrow> bool" where
  "hop_name lib headers name \<longleftrightarrow>
     name \<in> set (connection_names lib headers) \<or> name \<in> {''connection'', ''upgrade''} \<union> set hop_fields"

lemma hop_fields_mem: "''transfer-encoding'' \<in> set hop_fields"
  by (simp add: hop_fields_def)

context header_map
begin

lemma hop_headers_get_all:
  "hm_get_all lib (sanitize_hop_headers lib False headers) n =
     (if hop_name lib headers n then [] else hm_get_all lib headers n)"
  by (auto simp: sanitize_hop_headers_def Let_def hop_name_def hop_fields_def)

lemma hop_headers_upgrade:
  "hm_get_all lib (sanitize_hop_headers lib True headers) n =
     (if n = ''connection'' then [''upgrade'']
      else if n = ''upgrade'' then hm_get_all lib headers n
      else if hop_name lib headers n then [] else hm_get_all lib headers n)"
  by (auto simp: sanitize_hop_headers_def Let_def hop_name_def hop_fields_def)

lemma sanitize_request_get_all:
  "hm_get_all lib (sanitize_request lib False headers) n =
     (if n = ''te'' then [''trailers'']
      else if hop_name lib headers n \<or> n \<in> {''proxy-authorization'', ''proxy-authenticate''} then []
      else hm_get_all lib headers n)"
  by (auto simp: sanitize_request_def Let_def hop_headers_get_all)

lemma sanitize_response_get_all:
  "hm_get_all lib (sanitize_response lib False headers) n =
     (if hop_name lib headers n \<or> n \<in> {''te'', ''proxy-authenticate''} then []
      else hm_get_all lib headers n)"
  by (auto simp: sanitize_response_def hop_headers_get_all)

lemma sanitize_trailers_get_all:
  "hm_get_all lib (sanitize_trailers lib headers) n =
     (if hop_name lib headers n \<or> identity_name n \<or> n \<in> set trailer_fields then []
      else hm_get_all lib headers n)"
proof -
  define h1 where "h1 = sanitize_hop_headers lib False headers"
  have "hm_get_all lib (sanitize_trailers lib headers) n =
      (if n \<in> set trailer_fields then []
       else if identity_name n then [] else hm_get_all lib h1 n)"
    unfolding sanitize_trailers_def Let_def h1_def [symmetric]
    by (auto simp: keys_iff)
  then show ?thesis by (auto simp: h1_def hop_headers_get_all)
qed

text \<open>A trailers frame that passes is small, declared when it must be, and carries no field that matters.\<close>

lemma sanitize_stream_frame_ok:
  assumes "sanitize_stream_frame lib declared (Trailers_Frame trailers) = Inr frame"
  shows "frame = Trailers_Frame (sanitize_trailers lib trailers)"
    and "length (hm_fields lib trailers) \<le> 100"
    and "declared = Some names \<Longrightarrow> hm_contains lib (sanitize_trailers lib trailers) n \<Longrightarrow> n \<in> names"
  using assms keys_contains [of "sanitize_trailers lib trailers"]
  by (auto simp: sanitize_stream_frame_def Let_def not_less list_ex_iff split: if_splits option.splits)

end

text \<open>At most a hundred names are ever declared.\<close>

lemma declare_trailers_card:
  assumes "declare_trailers lib names v = Inr names'" "card names \<le> 100"
  shows "card names' \<le> 100"
proof -
  from assms(1) obtain s where "try_fold (declare_trailer lib) names (split_on (CHR '','') s) = Inr names'"
    by (auto simp: declare_trailers_def)
  then show ?thesis
    by (rule try_fold_inv [where I = "\<lambda>ns. card ns \<le> 100"])
      (use assms(2) in \<open>auto simp: declare_trailer_def Let_def split: if_splits\<close>)
qed

lemma declared_trailer_names_card:
  assumes "declared_trailer_names lib headers = Inr names"
  shows "card names \<le> 100"
  using assms unfolding declared_trailer_names_def
  by (rule try_fold_inv [where I = "\<lambda>ns. card ns \<le> 100"]) (auto intro: declare_trailers_card)

end
