(* ===== verification/Settings.thy ===== *)
theory Settings
  imports Client_Address Upstream_Config Route_Table Grpc_Routes Http_Routes Ip_Blocking
begin

text \<open>
  The sections of \<open>src/config/mod.rs\<close> that do not depend on each other: the checks of single values,
  the TLS, ACME, observability, fallback and security sections with what their validation returns,
  and the defaults.  \<open>Config\<close> puts them together.
\<close>

section \<open>Errors\<close>

datatype config_error =
    Read_Error path io_error
  | Parse_Error path string
  | Invalid string
  | Route_Failed route_error
  | Grpc_Route_Failed grpc_route_error

text \<open>A string as \<open>{:?}\<close> prints it; characters beyond ASCII are left as they are.\<close>

fun debug_char :: "char \<Rightarrow> string" where
  "debug_char c =
     (if c = CHR 0x22 \<or> c = CHR 0x5C then [CHR 0x5C, c]
      else if byte c = 9 then [CHR 0x5C, CHR ''t'']
      else if byte c = 10 then [CHR 0x5C, CHR ''n'']
      else if byte c = 13 then [CHR 0x5C, CHR ''r'']
      else if byte c = 0 then [CHR 0x5C, CHR ''0'']
      else if byte c < 32 \<or> byte c = 127 then CHR 0x5C # ''u{'' @ show_hex (byte c) @ ''}''
      else [c])"

definition debug_str :: "string \<Rightarrow> string" where
  "debug_str s = CHR 0x22 # concat (map debug_char s) @ [CHR 0x22]"

text \<open>An error of \<open>anyhow\<close> as \<open>{:#}\<close> prints it.\<close>

definition alternate :: "anyhow \<Rightarrow> string" where
  "alternate e = join '': '' e"

section \<open>Checks of single values\<close>

definition validate_seconds :: "string \<Rightarrow> nat \<Rightarrow> nat \<Rightarrow> config_error + duration" where
  "validate_seconds field seconds maximum =
     (if seconds = 0 then Inl (Invalid (field @ '' must be greater than zero''))
      else if maximum < seconds
      then Inl (Invalid (field @ '' must not exceed '' @ show_nat maximum @ '' seconds''))
      else Inr (from_secs seconds))"

definition validate_size :: "string \<Rightarrow> nat \<Rightarrow> nat \<Rightarrow> config_error + nat" where
  "validate_size field v maximum =
     (if v = 0 then Inl (Invalid (field @ '' must be greater than zero''))
      else if maximum < v
      then Inl (Invalid (field @ '' must not exceed '' @ show_nat maximum @ '' bytes''))
      else Inr v)"

definition validate_count :: "string \<Rightarrow> nat \<Rightarrow> nat \<Rightarrow> config_error + nat" where
  "validate_count field v maximum =
     (if v = 0 then Inl (Invalid (field @ '' must be greater than zero''))
      else if maximum < v
      then Inl (Invalid (field @ '' must not exceed '' @ show_nat maximum))
      else Inr v)"

definition validate_path :: "string \<Rightarrow> path \<Rightarrow> config_error + unit" where
  "validate_path field path =
     (if path = [] then Inl (Invalid (field @ '' must not be empty'')) else Inr ())"

definition validate_suffix :: "string \<Rightarrow> string \<Rightarrow> config_error + unit" where
  "validate_suffix field suffix =
     (if suffix = [] then Inl (Invalid (field @ '' must not be empty''))
      else if CHR ''/'' \<in> set suffix \<or> CHR 0x5C \<in> set suffix
      then Inl (Invalid (field @ '' must be a filename suffix, not a path''))
      else Inr ())"

definition certificate_char :: "char \<Rightarrow> bool" where
  "certificate_char c \<longleftrightarrow> is_ascii_alphanumeric c \<or> c \<in> set ''-_.''"

definition validate_certificate_id :: "string \<Rightarrow> string \<Rightarrow> config_error + unit" where
  "validate_certificate_id field i =
     (if i = [] then Inl (Invalid (field @ '' must not be empty''))
      else if \<not> list_all certificate_char i
      then Inl (Invalid (field @ '' may contain only ASCII letters, digits, '' @ [CHR 0x27, CHR ''.'', CHR 0x27]
        @ '', '' @ [CHR 0x27, CHR ''-'', CHR 0x27] @ '' and '' @ [CHR 0x27, CHR ''_'', CHR 0x27]))
      else Inr ())"

definition check_domain_label :: "unit \<Rightarrow> string \<Rightarrow> string + unit" where
  "check_domain_label u label =
     (if label = [] \<or> 63 < length label
      then Inl ''DNS labels must contain between 1 and 63 characters''
      else if starts_with label ''-'' \<or> ends_with label ''-''
      then Inl (''DNS labels must not start or end with '' @ [CHR 0x27, CHR ''-'', CHR 0x27])
      else if \<not> list_all (\<lambda>b. is_ascii_alphanumeric b \<or> b = CHR ''-'') label
      then Inl (''DNS labels may contain only ASCII letters, digits and '' @ [CHR 0x27, CHR ''-'', CHR 0x27])
      else Inr ())"

definition normalize_domain :: "string \<Rightarrow> string + string" where
  "normalize_domain domain =
     (let domain = to_ascii_lowercase (trim_end_matches (CHR ''.'') (trim domain)) in
      if domain = [] then Inl ''domain must not be empty''
      else if starts_with domain ''*.''
      then Inl ''wildcard domains require DNS-01 and are not supported by built-in HTTP-01''
      else if 253 < length domain \<or> \<not> list_all is_ascii domain
      then Inl ''domain must be an ASCII DNS name no longer than 253 characters''
      else if parse_ip domain \<noteq> None
      then Inl ''IP identifiers are not supported by built-in ACME''
      else and_then (try_fold check_domain_label () (split_on (CHR ''.'') domain)) (\<lambda>_. Inr domain))"

definition resolve_config_path :: "path \<Rightarrow> path \<Rightarrow> path" where
  "resolve_config_path directory path =
     (if path_is_absolute path then path else path_join directory path)"

section \<open>Transport security\<close>

record tls_config =
  tc_cert_dir :: path
  tc_cert_suffix :: string
  tc_key_suffix :: string
  tc_default_certificate :: "string option"

definition cert_path :: "tls_config \<Rightarrow> string \<Rightarrow> path" where
  "cert_path tls i = path_join (tc_cert_dir tls) (i @ tc_cert_suffix tls)"

definition key_path :: "tls_config \<Rightarrow> string \<Rightarrow> path" where
  "key_path tls i = path_join (tc_cert_dir tls) (i @ tc_key_suffix tls)"

record file_tls_config =
  ft_cert_dir :: path
  ft_cert_suffix :: string
  ft_key_suffix :: string
  ft_default_certificate :: "string option"

definition default_tls_cert_suffix :: string where "default_tls_cert_suffix = ''.fullchain.pem''"
definition default_tls_key_suffix :: string where "default_tls_key_suffix = ''.key.pem''"

definition tls_validate :: "path \<Rightarrow> file_tls_config \<Rightarrow> config_error + tls_config" where
  "tls_validate directory c =
     and_then (validate_path ''tls.cert_dir'' (ft_cert_dir c)) (\<lambda>_.
     and_then (validate_suffix ''tls.cert_suffix'' (ft_cert_suffix c)) (\<lambda>_.
     and_then (validate_suffix ''tls.key_suffix'' (ft_key_suffix c)) (\<lambda>_.
     if ft_cert_suffix c = ft_key_suffix c \<or> ends_with (ft_cert_suffix c) (ft_key_suffix c)
        \<or> ends_with (ft_key_suffix c) (ft_cert_suffix c)
     then Inl (Invalid ''tls.cert_suffix and tls.key_suffix must be distinct and non-overlapping'')
     else and_then
       (case ft_default_certificate c of
          None \<Rightarrow> Inr ()
        | Some i \<Rightarrow> validate_certificate_id ''tls.default_certificate'' i) (\<lambda>_.
     Inr \<lparr> tc_cert_dir = resolve_config_path directory (ft_cert_dir c),
           tc_cert_suffix = ft_cert_suffix c, tc_key_suffix = ft_key_suffix c,
           tc_default_certificate = ft_default_certificate c \<rparr>))))"

section \<open>Certificates from an authority\<close>

datatype acme_environment = Acme_Production | Acme_Staging
datatype file_acme_environment = File_Production | File_Staging

primrec acme_environment_of :: "file_acme_environment \<Rightarrow> acme_environment" where
  "acme_environment_of File_Production = Acme_Production"
| "acme_environment_of File_Staging = Acme_Staging"

record acme_certificate_config =
  cc_id :: string
  cc_domains :: "string list"

record acme_config =
  ac_enabled :: bool
  ac_http01_listen :: socket_addr
  ac_email :: "string option"
  ac_environment :: acme_environment
  ac_state_dir :: path
  ac_fallback_renew_before :: duration
  ac_check_interval :: duration
  ac_certificates :: "acme_certificate_config list"

definition manages_certificate :: "acme_config \<Rightarrow> string \<Rightarrow> bool" where
  "manages_certificate c i \<longleftrightarrow> list_ex (\<lambda>certificate. cc_id certificate = i) (ac_certificates c)"

definition default_acme_http01_listen :: socket_addr where
  "default_acme_http01_listen = \<lparr> sa_ip = V4 0, sa_port = 80 \<rparr>"

definition default_acme_state_dir :: path where "default_acme_state_dir = ''state/acme''"
definition default_acme_fallback_renew_before_days :: nat where
  "default_acme_fallback_renew_before_days = 30"
definition default_acme_check_interval_hours :: nat where "default_acme_check_interval_hours = 12"
definition max_acme_fallback_renew_before_days :: nat where "max_acme_fallback_renew_before_days = 90"
definition max_acme_check_interval_hours :: nat where "max_acme_check_interval_hours = 7 * 24"

definition acme_disabled :: "path \<Rightarrow> acme_config" where
  "acme_disabled directory =
     \<lparr> ac_enabled = False, ac_http01_listen = default_acme_http01_listen, ac_email = None,
       ac_environment = Acme_Production,
       ac_state_dir = resolve_config_path directory ''state/acme'',
       ac_fallback_renew_before = from_secs (default_acme_fallback_renew_before_days * 24 * 60 * 60),
       ac_check_interval = from_secs (default_acme_check_interval_hours * 60 * 60),
       ac_certificates = [] \<rparr>"

record file_acme_config =
  fa_enabled :: bool
  fa_http01_listen :: socket_addr
  fa_email :: "string option"
  fa_environment :: file_acme_environment
  fa_state_dir :: path
  fa_fallback_renew_before_days :: nat
  fa_check_interval_hours :: nat
  fa_certificates :: "acme_certificate_config list"

text \<open>The domains of one certificate: the loop keeps those of this one, those of all, the list.\<close>

definition acme_domain_step ::
  "nat \<Rightarrow> string \<Rightarrow> string set \<times> string set \<times> string list \<Rightarrow> string
   \<Rightarrow> config_error + string set \<times> string set \<times> string list"
where
  "acme_domain_step index i = (\<lambda>(local_domains, managed_domains, domains) domain.
     and_then (map_err (\<lambda>reason. Invalid (''invalid acme.certificates['' @ show_nat index @ ''] domain ''
          @ debug_str domain @ '': '' @ reason)) (normalize_domain domain)) (\<lambda>domain.
     if domain \<in> local_domains
     then Inl (Invalid (''duplicate domain '' @ debug_str domain @ '' in ACME certificate '' @ debug_str i))
     else if domain \<in> managed_domains
     then Inl (Invalid (''ACME domain '' @ debug_str domain
       @ '' is assigned to more than one certificate''))
     else Inr (insert domain local_domains, insert domain managed_domains, domains @ [domain])))"

record acme_build =
  ab_index :: nat
  ab_ids :: "string set"
  ab_managed :: "string set"
  ab_certificates :: "acme_certificate_config list"

definition acme_certificate_step ::
  "acme_build \<Rightarrow> acme_certificate_config \<Rightarrow> config_error + acme_build"
where
  "acme_certificate_step st certificate =
     (let index = ab_index st in
      and_then (validate_certificate_id (''acme.certificates['' @ show_nat index @ ''].id'')
          (cc_id certificate)) (\<lambda>_.
      if cc_id certificate \<in> ab_ids st
      then Inl (Invalid (''duplicate ACME certificate id '' @ debug_str (cc_id certificate)))
      else if cc_domains certificate = []
      then Inl (Invalid (''acme.certificates['' @ show_nat index @ ''].domains must not be empty''))
      else and_then (try_fold (acme_domain_step index (cc_id certificate)) ({}, ab_managed st, [])
          (cc_domains certificate)) (\<lambda>(_, managed_domains, domains).
      Inr \<lparr> ab_index = index + 1, ab_ids = insert (cc_id certificate) (ab_ids st),
            ab_managed = managed_domains,
            ab_certificates = ab_certificates st @
              [\<lparr> cc_id = cc_id certificate, cc_domains = sort domains \<rparr>] \<rparr>)))"

definition acme_validate :: "path \<Rightarrow> file_acme_config \<Rightarrow> config_error + acme_config" where
  "acme_validate directory c =
     and_then (validate_path ''acme.state_dir'' (fa_state_dir c)) (\<lambda>_.
     if fa_fallback_renew_before_days c = 0
        \<or> max_acme_fallback_renew_before_days < fa_fallback_renew_before_days c
     then Inl (Invalid (''acme.fallback_renew_before_days must be between 1 and ''
       @ show_nat max_acme_fallback_renew_before_days))
     else if fa_check_interval_hours c = 0
        \<or> max_acme_check_interval_hours < fa_check_interval_hours c
     then Inl (Invalid (''acme.check_interval_hours must be between 1 and ''
       @ show_nat max_acme_check_interval_hours))
     else
       let email = Option.bind (map_option trim (fa_email c)) (\<lambda>v. if v = [] then None else Some v) in
       if fa_enabled c \<and> email = None
       then Inl (Invalid ''acme.email is required when ACME is enabled'')
       else if (case email of None \<Rightarrow> False | Some v \<Rightarrow> any_char is_whitespace v \<or> CHR ''@'' \<notin> set v)
       then Inl (Invalid ''acme.email must be a plain email address'')
       else if fa_enabled c \<and> fa_certificates c = []
       then Inl (Invalid ''acme.certificates must contain at least one managed certificate when ACME is enabled'')
       else and_then (try_fold acme_certificate_step
           \<lparr> ab_index = 0, ab_ids = {}, ab_managed = {}, ab_certificates = [] \<rparr>
           (fa_certificates c)) (\<lambda>st.
     Inr \<lparr> ac_enabled = fa_enabled c, ac_http01_listen = fa_http01_listen c, ac_email = email,
           ac_environment = acme_environment_of (fa_environment c),
           ac_state_dir = resolve_config_path directory (fa_state_dir c),
           ac_fallback_renew_before = from_secs (fa_fallback_renew_before_days c * 24 * 60 * 60),
           ac_check_interval = from_secs (fa_check_interval_hours c * 60 * 60),
           ac_certificates = ab_certificates st \<rparr>))"

section \<open>Observability\<close>

datatype observability_mode = Mode_Off | Mode_Production | Mode_Diagnostic
datatype file_observability_mode = File_Mode_Off | File_Mode_Production | File_Mode_Diagnostic

primrec observability_mode_of :: "file_observability_mode \<Rightarrow> observability_mode" where
  "observability_mode_of File_Mode_Off = Mode_Off"
| "observability_mode_of File_Mode_Production = Mode_Production"
| "observability_mode_of File_Mode_Diagnostic = Mode_Diagnostic"

record observability_config =
  oc_mode :: observability_mode
  oc_summary_interval :: duration
  oc_summary_file :: path
  oc_diagnostic_interval :: duration
  oc_diagnostic_file :: path
  oc_connection_event_logs_enabled :: bool
  oc_detailed_frame_observation_enabled :: bool

definition observability_off :: observability_config where
  "observability_off =
     \<lparr> oc_mode = Mode_Off, oc_summary_interval = from_secs 300, oc_summary_file = [],
       oc_diagnostic_interval = from_secs 60, oc_diagnostic_file = [],
       oc_connection_event_logs_enabled = False, oc_detailed_frame_observation_enabled = False \<rparr>"

record file_observability_config =
  fo_mode :: file_observability_mode
  fo_summary_interval_seconds :: nat
  fo_summary_file :: path
  fo_diagnostic_interval_seconds :: nat
  fo_diagnostic_file :: path
  fo_connection_event_logs_enabled :: bool
  fo_detailed_frame_observation_enabled :: bool

definition max_observability_interval_seconds :: nat where
  "max_observability_interval_seconds = 24 * 60 * 60"

definition observability_validate ::
  "path \<Rightarrow> file_observability_config \<Rightarrow> config_error + observability_config"
where
  "observability_validate directory c =
     and_then (validate_seconds ''observability.summary_interval_seconds''
         (fo_summary_interval_seconds c) max_observability_interval_seconds) (\<lambda>summary_interval.
     and_then (validate_seconds ''observability.diagnostic_interval_seconds''
         (fo_diagnostic_interval_seconds c) max_observability_interval_seconds) (\<lambda>diagnostic_interval.
     and_then (validate_path ''observability.summary_file'' (fo_summary_file c)) (\<lambda>_.
     and_then (validate_path ''observability.diagnostic_file'' (fo_diagnostic_file c)) (\<lambda>_.
     Inr \<lparr> oc_mode = observability_mode_of (fo_mode c), oc_summary_interval = summary_interval,
           oc_summary_file = resolve_config_path directory (fo_summary_file c),
           oc_diagnostic_interval = diagnostic_interval,
           oc_diagnostic_file = resolve_config_path directory (fo_diagnostic_file c),
           oc_connection_event_logs_enabled = fo_connection_event_logs_enabled c,
           oc_detailed_frame_observation_enabled = fo_detailed_frame_observation_enabled c \<rparr>))))"

section \<open>Fallback\<close>

record fallback_config =
  fc_hosts :: "string set"
  fc_security :: route_security
  fc_upstream :: upstream_config

definition fallback_permits_host :: "fallback_config \<Rightarrow> string \<Rightarrow> bool" where
  "fallback_permits_host f host \<longleftrightarrow> host \<in> fc_hosts f"

record file_fallback_config =
  ff_hosts :: "string list"
  ff_enabled :: bool
  ff_security :: route_security
  ff_upstream :: file_upstream_config

definition fallback_host_step :: "string set \<Rightarrow> string \<Rightarrow> config_error + string set" where
  "fallback_host_step hosts host =
     and_then (map_err (\<lambda>reason. Invalid (''fallback.hosts: '' @ reason)) (normalize_dns_host host))
       (\<lambda>host.
     if host \<in> hosts then Inl (Invalid (''duplicate fallback host '' @ host))
     else Inr (insert host hosts))"

definition fallback_validate ::
  "('h, 'm) http_lib_scheme \<Rightarrow> path \<Rightarrow> file_fallback_config \<Rightarrow> config_error + fallback_config option"
where
  "fallback_validate lib directory c =
     (if ff_hosts c = [] \<or> 1024 < length (ff_hosts c)
      then Inl (Invalid ''fallback.hosts must contain 1..1024 names'') else
      and_then (try_fold fallback_host_step {} (ff_hosts c)) (\<lambda>hosts.
      and_then (map_err (\<lambda>reason. Invalid (''fallback: '' @ reason))
          (upstream_validate lib directory (ff_upstream c))) (\<lambda>upstream.
      Inr (if ff_enabled c
           then Some \<lparr> fc_hosts = hosts, fc_security = ff_security c, fc_upstream = upstream \<rparr>
           else None))))"

section \<open>Security\<close>

record file_security_config =
  fs_health_peer_cidrs :: "string list"
  fs_cloudflare :: "path option"
  fs_ip_blocking :: file_ip_blocking_config

definition default_health_peer_cidrs :: "string list" where
  "default_health_peer_cidrs = [''127.0.0.0/8'', ''::1/128'']"

definition default_cloudflare_cache :: path where
  "default_cloudflare_cache = ''state/cloudflare-cidrs.txt''"

definition default_file_security_config :: file_security_config where
  "default_file_security_config =
     \<lparr> fs_health_peer_cidrs = default_health_peer_cidrs, fs_cloudflare = None,
       fs_ip_blocking = default_ip_blocking_config \<rparr>"

text \<open>What the environment answers while the state of the security section is loaded.\<close>

record security_env =
  sv_json :: block_json
  sv_blocklist :: load_env
  sv_cache_read :: "io_error option"
  sv_download_v4 :: "anyhow + string"
  sv_download_v6 :: "anyhow + string"
  sv_cache_write :: persist_env

definition security_networks :: "file_security_config \<Rightarrow> config_error + ip_network list" where
  "security_networks c =
     (if 128 < length (fs_health_peer_cidrs c)
      then Inl (Invalid ''security.health_peer_cidrs exceeds 128 entries'') else
      collect_results (\<lambda>v. map_err (\<lambda>reason.
          Invalid (''security.health_peer_cidrs '' @ debug_str v @ '': '' @ reason)) (ip_network_parse v))
        (fs_health_peer_cidrs c))"

definition security_cache_file ::
  "path \<Rightarrow> bool \<Rightarrow> file_security_config \<Rightarrow> config_error + path option"
where
  "security_cache_file directory needs_cloudflare c =
     (if needs_cloudflare \<or> fs_cloudflare c \<noteq> None then
        let cache_file = (case fs_cloudflare c of None \<Rightarrow> default_cloudflare_cache | Some f \<Rightarrow> f) in
        and_then (validate_path ''security.cloudflare.cache_file'' cache_file) (\<lambda>_.
        Inr (Some (resolve_config_path directory cache_file)))
      else Inr None)"

definition security_checks ::
  "path \<Rightarrow> bool \<Rightarrow> file_security_config
   \<Rightarrow> config_error + ip_network list \<times> path option \<times> ip_blocking_config"
where
  "security_checks directory needs_cloudflare c =
     and_then (security_networks c) (\<lambda>health.
     and_then (security_cache_file directory needs_cloudflare c) (\<lambda>cache_file.
     and_then (map_err (\<lambda>e. Invalid (''security.ip_blocking: '' @ alternate e))
         (ip_blocking_validate directory (fs_ip_blocking c))) (\<lambda>block_config.
     Inr (health, cache_file, block_config))))"

text \<open>The address policy of the requests and the block list it consults.\<close>

definition security_validate ::
  "security_env \<Rightarrow> path \<Rightarrow> bool \<Rightarrow> file_security_config \<Rightarrow> fs
   \<Rightarrow> (config_error + client_address_policy \<times> ip_blocking_runtime) \<times> fs"
where
  "security_validate env directory needs_cloudflare c fs =
     (case security_checks directory needs_cloudflare c of
        Inl e \<Rightarrow> (Inl e, fs)
      | Inr (health, cache_file, block_config) \<Rightarrow>
        (case ip_blocking_load (sv_json env) (sv_blocklist env) block_config fs of
           (Inl e, fs) \<Rightarrow> (Inl (Invalid (''security.ip_blocking: '' @ alternate e)), fs)
         | (Inr ip_blocking, fs) \<Rightarrow>
           (case cf_load (sv_cache_read env) (sv_download_v4 env) (sv_download_v6 env)
                  (sv_cache_write env) cache_file fs of
              (Inl e, fs) \<Rightarrow> (Inl (Invalid (''security.cloudflare: '' @ alternate e)), fs)
            | (Inr networks, fs) \<Rightarrow>
                (Inr (\<lparr> ca_cloudflare = networks, ca_health_peer_networks = health \<rparr>, ip_blocking),
                 fs))))"

declare debug_str_def [eval_simps] alternate_def [eval_simps] validate_seconds_def [eval_simps]
  validate_size_def [eval_simps] validate_count_def [eval_simps] validate_path_def [eval_simps]
  validate_suffix_def [eval_simps] certificate_char_def [eval_simps]
  validate_certificate_id_def [eval_simps] check_domain_label_def [eval_simps]
  normalize_domain_def [eval_simps] resolve_config_path_def [eval_simps] cert_path_def [eval_simps]
  key_path_def [eval_simps] default_tls_cert_suffix_def [eval_simps]
  default_tls_key_suffix_def [eval_simps] tls_validate_def [eval_simps]
  manages_certificate_def [eval_simps] default_acme_http01_listen_def [eval_simps]
  default_acme_state_dir_def [eval_simps] default_acme_fallback_renew_before_days_def [eval_simps]
  default_acme_check_interval_hours_def [eval_simps]
  max_acme_fallback_renew_before_days_def [eval_simps] max_acme_check_interval_hours_def [eval_simps]
  acme_disabled_def [eval_simps] acme_domain_step_def [eval_simps]
  acme_certificate_step_def [eval_simps] acme_validate_def [eval_simps]
  observability_off_def [eval_simps] max_observability_interval_seconds_def [eval_simps]
  observability_validate_def [eval_simps] fallback_permits_host_def [eval_simps]
  fallback_host_step_def [eval_simps] fallback_validate_def [eval_simps]
  default_health_peer_cidrs_def [eval_simps] default_cloudflare_cache_def [eval_simps]
  default_file_security_config_def [eval_simps] security_networks_def [eval_simps]
  security_cache_file_def [eval_simps] security_checks_def [eval_simps]
  security_validate_def [eval_simps]

section \<open>What validation establishes\<close>

lemma validate_seconds_Inr_iff [simp]:
  "validate_seconds field s m = Inr d \<longleftrightarrow> 1 \<le> s \<and> s \<le> m \<and> d = from_secs s"
  by (auto simp: validate_seconds_def)

lemma validate_size_Inr_iff [simp]: "validate_size field v m = Inr w \<longleftrightarrow> 1 \<le> v \<and> v \<le> m \<and> w = v"
  by (auto simp: validate_size_def)

lemma validate_count_Inr_iff [simp]: "validate_count field v m = Inr w \<longleftrightarrow> 1 \<le> v \<and> v \<le> m \<and> w = v"
  by (auto simp: validate_count_def)

lemma validate_path_Inr_iff [simp]: "validate_path field p = Inr u \<longleftrightarrow> p \<noteq> []"
  by (auto simp: validate_path_def)

lemma validate_suffix_Inr_iff [simp]:
  "validate_suffix field s = Inr u \<longleftrightarrow> s \<noteq> [] \<and> CHR ''/'' \<notin> set s \<and> CHR 0x5C \<notin> set s"
  by (auto simp: validate_suffix_def)

definition certificate_id :: "string \<Rightarrow> bool" where
  "certificate_id i \<longleftrightarrow> i \<noteq> [] \<and> list_all certificate_char i"

lemma validate_certificate_id_Inr_iff [simp]:
  "validate_certificate_id field i = Inr u \<longleftrightarrow> certificate_id i"
  by (auto simp: validate_certificate_id_def certificate_id_def)

lemma certificate_id_no_slash: "certificate_id i \<Longrightarrow> CHR ''/'' \<notin> set i"
  by (auto simp: certificate_id_def list_all_iff certificate_char_def is_ascii_alphanumeric_def
      is_ascii_alphabetic_def is_ascii_upper_def is_ascii_lower_def is_ascii_digit_def byte_def)

text \<open>The domains a certificate may carry are canonical routing hosts.\<close>

lemma check_domain_labels:
  "try_fold check_domain_label u labels = Inr v \<longleftrightarrow> list_all label_ok labels"
  by (induction labels) (auto simp: check_domain_label_def label_ok_def)

lemma normalize_domain_canonical: "normalize_domain d = Inr h \<Longrightarrow> canonical_host h"
  by (auto simp: normalize_domain_def Let_def canonical_host_def check_domain_labels split: if_splits)

text \<open>No certificate file is the key file of this or another certificate.\<close>

definition tls_config_ok :: "tls_config \<Rightarrow> bool" where
  "tls_config_ok t \<longleftrightarrow>
     tc_cert_dir t \<noteq> [] \<and> CHR ''/'' \<notin> set (tc_cert_suffix t) \<and> CHR ''/'' \<notin> set (tc_key_suffix t) \<and>
     \<not> ends_with (tc_cert_suffix t) (tc_key_suffix t) \<and>
     \<not> ends_with (tc_key_suffix t) (tc_cert_suffix t) \<and>
     (\<forall>i. tc_default_certificate t = Some i \<longrightarrow> certificate_id i)"

lemma resolve_config_path_nonempty: "p \<noteq> [] \<Longrightarrow> resolve_config_path directory p \<noteq> []"
  by (auto simp: resolve_config_path_def path_join_def)

lemma tls_validate_ok:
  assumes "tls_validate directory c = Inr t"
  shows "tls_config_ok t"
  using assms unfolding tls_validate_def
  by (elim result_elims, clarify)
    (auto simp: tls_config_ok_def resolve_config_path_nonempty split: option.splits)

lemma path_join_file:
  assumes "CHR ''/'' \<notin> set name" "CHR ''/'' \<notin> set name'" "path_join directory name = path_join directory name'"
  shows "name = name'"
proof -
  have "\<not> path_is_absolute name" "\<not> path_is_absolute name'"
    using assms(1,2) by (auto simp: path_is_absolute_def starts_with_iff)
  then show ?thesis using assms(3) by (auto simp: path_join_def split: if_splits)
qed

lemma cert_key_paths_distinct:
  assumes t: "tls_config_ok t" and i: "certificate_id i" and j: "certificate_id j"
  shows "cert_path t i \<noteq> key_path t j"
    and "cert_path t i = cert_path t j \<longleftrightarrow> i = j" and "key_path t i = key_path t j \<longleftrightarrow> i = j"
proof -
  have plain: "CHR ''/'' \<notin> set (i @ tc_cert_suffix t)" "CHR ''/'' \<notin> set (j @ tc_key_suffix t)"
    "CHR ''/'' \<notin> set (i @ tc_key_suffix t)" "CHR ''/'' \<notin> set (j @ tc_cert_suffix t)"
    using t i j by (simp_all add: tls_config_ok_def certificate_id_no_slash)
  show "cert_path t i \<noteq> key_path t j"
  proof
    assume "cert_path t i = key_path t j"
    then have "i @ tc_cert_suffix t = j @ tc_key_suffix t"
      unfolding cert_path_def key_path_def by (rule path_join_file [OF plain(1,2)])
    then have "ends_with (tc_key_suffix t) (tc_cert_suffix t) \<or> ends_with (tc_cert_suffix t) (tc_key_suffix t)"
      unfolding append_eq_append_conv2 ends_with_iff by metis
    with t show False by (auto simp: tls_config_ok_def)
  qed
  show "cert_path t i = cert_path t j \<longleftrightarrow> i = j"
    using path_join_file [OF plain(1) plain(4), of "tc_cert_dir t"] by (auto simp: cert_path_def)
  show "key_path t i = key_path t j \<longleftrightarrow> i = j"
    using path_join_file [OF plain(3) plain(2), of "tc_cert_dir t"] by (auto simp: key_path_def)
qed

text \<open>
  An accepted set of managed certificates: distinct identifiers, every certificate with a sorted
  list of canonical domains, and no domain twice.
\<close>

definition certificates_ok :: "acme_certificate_config list \<Rightarrow> bool" where
  "certificates_ok cs \<longleftrightarrow>
     distinct (map cc_id cs) \<and> distinct (concat (map cc_domains cs)) \<and>
     (\<forall>c \<in> set cs. certificate_id (cc_id c) \<and> cc_domains c \<noteq> [] \<and> sorted (cc_domains c) \<and>
        list_all canonical_host (cc_domains c))"

definition acme_config_ok :: "acme_config \<Rightarrow> bool" where
  "acme_config_ok c \<longleftrightarrow>
     certificates_ok (ac_certificates c) \<and> ac_state_dir c \<noteq> [] \<and>
     from_secs (24 * 60 * 60) \<le> ac_fallback_renew_before c \<and>
     ac_fallback_renew_before c \<le> from_secs (90 * 24 * 60 * 60) \<and>
     from_secs (60 * 60) \<le> ac_check_interval c \<and> ac_check_interval c \<le> from_secs (7 * 24 * 60 * 60) \<and>
     (ac_enabled c \<longrightarrow> ac_email c \<noteq> None \<and> ac_certificates c \<noteq> []) \<and>
     (\<forall>e. ac_email c = Some e \<longrightarrow> e \<noteq> [] \<and> CHR ''@'' \<in> set e \<and> \<not> any_char is_whitespace e)"

lemma acme_domain_fold:
  assumes "try_fold (acme_domain_step index i) (l, m, ds) domains = Inr (l', m', ds')"
    and "l = set ds" "distinct ds" "list_all canonical_host ds" "set ds \<inter> seen = {}" "m = set ds \<union> seen"
  shows "distinct ds' \<and> list_all canonical_host ds' \<and> set ds' \<inter> seen = {} \<and> m' = set ds' \<union> seen \<and>
    length ds' = length ds + length domains"
  using assms
proof (induction domains arbitrary: l m ds)
  case (Cons d domains)
  then obtain l1 m1 ds1 where step: "acme_domain_step index i (l, m, ds) d = Inr (l1, m1, ds1)"
    and rest: "try_fold (acme_domain_step index i) (l1, m1, ds1) domains = Inr (l', m', ds')"
    by auto
  from step obtain h where h: "normalize_domain d = Inr h" "h \<notin> l" "h \<notin> m"
    and new: "l1 = insert h l" "m1 = insert h m" "ds1 = ds @ [h]"
    by (auto simp: acme_domain_step_def split: if_splits)
  have "distinct ds' \<and> list_all canonical_host ds' \<and> set ds' \<inter> seen = {} \<and> m' = set ds' \<union> seen \<and>
      length ds' = length ds1 + length domains"
    by (rule Cons.IH [OF rest]) (use Cons.prems h new normalize_domain_canonical [OF h(1)] in auto)
  then show ?case by (simp add: new)
qed auto

definition acme_build_ok :: "acme_certificate_config list \<Rightarrow> acme_build \<Rightarrow> bool" where
  "acme_build_ok pre st \<longleftrightarrow>
     certificates_ok (ab_certificates st) \<and> map cc_id (ab_certificates st) = map cc_id pre \<and>
     ab_ids st = cc_id ` set pre \<and>
     ab_managed st = set (concat (map cc_domains (ab_certificates st)))"

lemma acme_certificate_step_ok:
  assumes ok: "acme_build_ok pre st" and step: "acme_certificate_step st c = Inr st'"
  shows "acme_build_ok (pre @ [c]) st'"
proof -
  from step obtain l m ds where c: "certificate_id (cc_id c)" "cc_id c \<notin> ab_ids st" "cc_domains c \<noteq> []"
    and run: "try_fold (acme_domain_step (ab_index st) (cc_id c)) ({}, ab_managed st, []) (cc_domains c) = Inr (l, m, ds)"
    and st': "st' = \<lparr> ab_index = ab_index st + 1, ab_ids = insert (cc_id c) (ab_ids st), ab_managed = m,
      ab_certificates = ab_certificates st @ [\<lparr> cc_id = cc_id c, cc_domains = sort ds \<rparr>] \<rparr>"
    unfolding acme_certificate_step_def Let_def
    by (elim result_elims) simp
  from acme_domain_fold [OF run, of "ab_managed st"]
  have ds: "distinct ds" "list_all canonical_host ds" "set ds \<inter> ab_managed st = {}"
    "m = set ds \<union> ab_managed st" "length ds = length (cc_domains c)"
    by simp_all
  from ds(5) c(3) have "ds \<noteq> []" by auto
  moreover have "sort ds \<noteq> []" using \<open>ds \<noteq> []\<close> by (metis set_empty set_sort)
  moreover have "cc_id c \<notin> set (map cc_id (ab_certificates st))"
    using ok c(2) unfolding acme_build_ok_def by (metis set_map)
  ultimately show ?thesis
    using ok ds c unfolding acme_build_ok_def certificates_ok_def st'
    by (auto simp: list_all_iff)
qed

lemma acme_validate_ok:
  assumes "acme_validate directory c = Inr a"
  shows "acme_config_ok a" and "map cc_id (ac_certificates a) = map cc_id (fa_certificates c)"
proof -
  define email where "email = Option.bind (map_option trim (fa_email c)) (\<lambda>v. if v = [] then None else Some v)"
  from assms obtain st where b: "fa_state_dir c \<noteq> []"
      "fa_fallback_renew_before_days c \<noteq> 0" "fa_fallback_renew_before_days c \<le> 90"
      "fa_check_interval_hours c \<noteq> 0" "fa_check_interval_hours c \<le> 7 * 24"
    and e: "fa_enabled c \<Longrightarrow> email \<noteq> None \<and> fa_certificates c \<noteq> []"
      "\<And>v. email = Some v \<Longrightarrow> CHR ''@'' \<in> set v \<and> \<not> any_char is_whitespace v"
    and run: "try_fold acme_certificate_step
        \<lparr> ab_index = 0, ab_ids = {}, ab_managed = {}, ab_certificates = [] \<rparr> (fa_certificates c) = Inr st"
    and a: "a = \<lparr> ac_enabled = fa_enabled c, ac_http01_listen = fa_http01_listen c, ac_email = email,
        ac_environment = acme_environment_of (fa_environment c),
        ac_state_dir = resolve_config_path directory (fa_state_dir c),
        ac_fallback_renew_before = from_secs (fa_fallback_renew_before_days c * 24 * 60 * 60),
        ac_check_interval = from_secs (fa_check_interval_hours c * 60 * 60),
        ac_certificates = ab_certificates st \<rparr>"
    unfolding acme_validate_def Let_def email_def [symmetric] max_acme_fallback_renew_before_days_def
      max_acme_check_interval_hours_def
    by (elim result_elims) (auto split: option.splits)
  have "acme_build_ok ([] @ fa_certificates c) st"
  proof (rule try_fold_invariant [OF run])
    show "acme_build_ok [] \<lparr> ab_index = 0, ab_ids = {}, ab_managed = {}, ab_certificates = [] \<rparr>"
      by (simp add: acme_build_ok_def certificates_ok_def)
  qed (rule acme_certificate_step_ok)
  then have st: "certificates_ok (ab_certificates st)"
    "map cc_id (ab_certificates st) = map cc_id (fa_certificates c)"
    by (simp_all add: acme_build_ok_def)
  then show "map cc_id (ac_certificates a) = map cc_id (fa_certificates c)" by (simp add: a)
  have "v \<noteq> []" if "email = Some v" for v
    using that by (auto simp: email_def bind_eq_Some_conv split: if_splits)
  moreover have "ab_certificates st \<noteq> []" if "fa_certificates c \<noteq> []"
    using st(2) that by auto
  ultimately show "acme_config_ok a"
    using b e st(1) by (auto simp: acme_config_ok_def a resolve_config_path_nonempty)
qed

lemma observability_validate_ok:
  assumes "observability_validate directory c = Inr v"
  shows "from_secs 1 \<le> oc_summary_interval v \<and> oc_summary_interval v \<le> from_secs (24 * 60 * 60)"
    and "from_secs 1 \<le> oc_diagnostic_interval v \<and> oc_diagnostic_interval v \<le> from_secs (24 * 60 * 60)"
    and "oc_summary_file v \<noteq> [] \<and> oc_diagnostic_file v \<noteq> []"
  using assms
  by (auto simp: observability_validate_def max_observability_interval_seconds_def
      resolve_config_path_nonempty)

text \<open>The fallback serves the canonical forms of its configured names.\<close>

lemma fallback_host_step_Inr_iff:
  "fallback_host_step hosts n = Inr hosts' \<longleftrightarrow>
     (\<exists>h. normalize_dns_host n = Inr h \<and> h \<notin> hosts \<and> hosts' = insert h hosts)"
  by (auto simp: fallback_host_step_def)

lemma fallback_hosts_fold:
  "try_fold fallback_host_step hosts names = Inr hosts' \<Longrightarrow>
     hosts' = hosts \<union> canonical_hosts names \<and> (\<forall>n \<in> set names. is_ok (normalize_dns_host n))"
proof (induction names arbitrary: hosts)
  case (Cons n names)
  then obtain h where h: "normalize_dns_host n = Inr h" "h \<notin> hosts"
    and "try_fold fallback_host_step (insert h hosts) names = Inr hosts'"
    by (auto simp: fallback_host_step_Inr_iff)
  from Cons.IH [OF this(3)] h show ?case by (auto simp: canonical_hosts_def is_ok_iff)
qed (simp add: canonical_hosts_def)

definition fallback_config_ok :: "fallback_config \<Rightarrow> bool" where
  "fallback_config_ok f \<longleftrightarrow>
     finite (fc_hosts f) \<and> fc_hosts f \<noteq> {} \<and> (\<forall>h \<in> fc_hosts f. canonical_host h) \<and>
     upstream_config_ok (fc_upstream f)"

lemma fallback_validate_ok:
  assumes "fallback_validate lib directory c = Inr f"
  shows "f = None \<longleftrightarrow> \<not> ff_enabled c"
    and "f = Some g \<Longrightarrow> fallback_config_ok g \<and> fc_hosts g = canonical_hosts (ff_hosts c) \<and>
      fc_security g = ff_security c"
proof -
  from assms obtain hosts u where ne: "ff_hosts c \<noteq> []"
    and fold: "try_fold fallback_host_step {} (ff_hosts c) = Inr hosts"
    and u: "upstream_validate lib directory (ff_upstream c) = Inr u"
    and f: "f = (if ff_enabled c
           then Some \<lparr> fc_hosts = hosts, fc_security = ff_security c, fc_upstream = u \<rparr> else None)"
    unfolding fallback_validate_def by (elim result_elims) auto
  then show "f = None \<longleftrightarrow> \<not> ff_enabled c" by simp
  assume g: "f = Some g"
  have hosts: "hosts = canonical_hosts (ff_hosts c)" "\<forall>n \<in> set (ff_hosts c). is_ok (normalize_dns_host n)"
    using fallback_hosts_fold [OF fold] by simp_all
  have image: "canonical_hosts (ff_hosts c) = (\<lambda>n. projr (normalize_dns_host n)) ` set (ff_hosts c)"
    using hosts(2) by (force simp: canonical_hosts_def is_ok_iff)
  show "fallback_config_ok g \<and> fc_hosts g = canonical_hosts (ff_hosts c) \<and> fc_security g = ff_security c"
    using g f ne hosts(1) image upstream_validate_ok [OF u]
    by (auto simp: fallback_config_ok_def canonical_hosts_def dest: normalize_dns_host_canonical
        split: if_splits)
qed

text \<open>The loaded security state: a valid snapshot whenever it is needed, and a well-formed block list.\<close>

lemma security_validate_ok:
  assumes "security_validate env directory needs_cloudflare c fs = (Inr (policy, rt), fs')"
  obtains health cache_file block_config fs1 where
    "collect_results ip_network_parse (fs_health_peer_cidrs c) = Inr health"
    "ca_health_peer_networks policy = health"
    "ip_blocking_config_ok block_config"
    "ip_blocking_load (sv_json env) (sv_blocklist env) block_config fs = (Inr rt, fs1)"
    "cf_valid (ca_cloudflare policy)"
    "needs_cloudflare \<Longrightarrow> cf_cache_file (ca_cloudflare policy) \<noteq> None"
proof -
  from assms obtain health cache_file block_config where
    checks: "security_checks directory needs_cloudflare c = Inr (health, cache_file, block_config)"
    by (auto simp: security_validate_def split: sum.splits)
  from assms obtain fs1 networks where
    load: "ip_blocking_load (sv_json env) (sv_blocklist env) block_config fs = (Inr rt, fs1)"
    and cf: "cf_load (sv_cache_read env) (sv_download_v4 env) (sv_download_v6 env)
        (sv_cache_write env) cache_file fs1 = (Inr networks, fs')"
    and policy: "policy = \<lparr> ca_cloudflare = networks, ca_health_peer_networks = health \<rparr>"
    by (auto simp: security_validate_def checks split: sum.splits prod.splits)
  from checks have c: "security_networks c = Inr health"
    "security_cache_file directory needs_cloudflare c = Inr cache_file"
    "ip_blocking_validate directory (fs_ip_blocking c) = Inr block_config"
    by (auto simp: security_checks_def)
  from c(1) have "collect_results ip_network_parse (fs_health_peer_cidrs c) = Inr health"
    by (auto simp: security_networks_def collect_results_Inr_iff list_eq_iff_nth_eq)
  moreover have "cache_file \<noteq> None" if needs_cloudflare
    using c(2) that by (auto simp: security_cache_file_def Let_def)
  moreover have "cf_cache_file networks = cache_file"
    by (rule cf_load_cache_file [OF cf])
  ultimately show thesis
    using that [OF _ _ ip_blocking_validate_ok [OF c(3)] load] cf_load_valid [OF cf]
    by (simp add: policy)
qed

end
