(* ===== verification/Config.thy ===== *)
theory Config
  imports Settings
begin

text \<open>
  \<open>FileConfig::validate\<close> and \<open>Config::load\<close> of \<open>src/config/mod.rs\<close>: the bounds of the server
  section, the three route tables with the keys they must not share, the hosts the routing policy
  covers, and the order in which all of it is checked.  The parser of TOML is a parameter.
\<close>

section \<open>The server section\<close>

record server_config =
  sc_listen :: socket_addr
  sc_tls_handshake_timeout :: duration
  sc_websocket_upgrade_timeout :: duration
  sc_backend_connect_timeout :: duration
  sc_shutdown_grace :: duration
  sc_max_websocket_message_size :: nat
  sc_max_grpc_concurrent_streams_per_backend :: nat
  sc_max_connections :: nat
  sc_max_concurrent_tls_handshakes :: nat
  sc_max_active_requests :: nat
  sc_max_http_header_count :: nat
  sc_max_http_header_bytes :: nat
  sc_max_http2_concurrent_streams :: nat
  sc_max_http2_send_buffer_bytes :: nat
  sc_http_header_read_timeout :: duration

record file_server_config =
  fsv_listen :: socket_addr
  fsv_tls_handshake_timeout_seconds :: nat
  fsv_websocket_upgrade_timeout_seconds :: nat
  fsv_backend_connect_timeout_seconds :: nat
  fsv_shutdown_grace_seconds :: nat
  fsv_max_websocket_message_size_bytes :: nat
  fsv_max_grpc_concurrent_streams_per_backend :: nat
  fsv_max_connections :: nat
  fsv_max_concurrent_tls_handshakes :: nat
  fsv_max_active_requests :: nat
  fsv_max_http_header_count :: nat
  fsv_max_http_header_bytes :: nat
  fsv_max_http2_concurrent_streams :: nat
  fsv_max_http2_send_buffer_bytes :: nat
  fsv_http_header_read_timeout_seconds :: nat

text \<open>What a file that only names the listening address gets.\<close>

definition default_tls_handshake_timeout_seconds :: nat where
  "default_tls_handshake_timeout_seconds = 10"
definition default_websocket_upgrade_timeout_seconds :: nat where
  "default_websocket_upgrade_timeout_seconds = 10"
definition default_backend_connect_timeout_seconds :: nat where
  "default_backend_connect_timeout_seconds = 10"
definition default_shutdown_grace_seconds :: nat where "default_shutdown_grace_seconds = 30"
definition default_max_websocket_message_size_bytes :: nat where
  "default_max_websocket_message_size_bytes = 1024 * 1024"
definition default_max_grpc_concurrent_streams_per_backend :: nat where
  "default_max_grpc_concurrent_streams_per_backend = 256"
definition default_max_connections :: nat where "default_max_connections = 20000"
definition default_max_concurrent_tls_handshakes :: nat where
  "default_max_concurrent_tls_handshakes = 512"
definition default_max_active_requests :: nat where "default_max_active_requests = 20000"
definition default_max_http_header_count :: nat where "default_max_http_header_count = 100"
definition default_max_http_header_bytes :: nat where "default_max_http_header_bytes = 32768"
definition default_max_http2_concurrent_streams :: nat where
  "default_max_http2_concurrent_streams = 256"
definition default_max_http2_send_buffer_bytes :: nat where
  "default_max_http2_send_buffer_bytes = 65536"
definition default_http_header_read_timeout_seconds :: nat where
  "default_http_header_read_timeout_seconds = 10"

definition default_file_server_config :: "socket_addr \<Rightarrow> file_server_config" where
  "default_file_server_config listen =
     \<lparr> fsv_listen = listen,
       fsv_tls_handshake_timeout_seconds = default_tls_handshake_timeout_seconds,
       fsv_websocket_upgrade_timeout_seconds = default_websocket_upgrade_timeout_seconds,
       fsv_backend_connect_timeout_seconds = default_backend_connect_timeout_seconds,
       fsv_shutdown_grace_seconds = default_shutdown_grace_seconds,
       fsv_max_websocket_message_size_bytes = default_max_websocket_message_size_bytes,
       fsv_max_grpc_concurrent_streams_per_backend = default_max_grpc_concurrent_streams_per_backend,
       fsv_max_connections = default_max_connections,
       fsv_max_concurrent_tls_handshakes = default_max_concurrent_tls_handshakes,
       fsv_max_active_requests = default_max_active_requests,
       fsv_max_http_header_count = default_max_http_header_count,
       fsv_max_http_header_bytes = default_max_http_header_bytes,
       fsv_max_http2_concurrent_streams = default_max_http2_concurrent_streams,
       fsv_max_http2_send_buffer_bytes = default_max_http2_send_buffer_bytes,
       fsv_http_header_read_timeout_seconds = default_http_header_read_timeout_seconds \<rparr>"

definition max_tls_handshake_timeout_seconds :: nat where "max_tls_handshake_timeout_seconds = 300"
definition max_websocket_upgrade_timeout_seconds :: nat where
  "max_websocket_upgrade_timeout_seconds = 300"
definition max_backend_connect_timeout_seconds :: nat where
  "max_backend_connect_timeout_seconds = 300"
definition max_shutdown_grace_seconds :: nat where "max_shutdown_grace_seconds = 600"
definition max_websocket_message_size_bytes :: nat where
  "max_websocket_message_size_bytes = 64 * 1024 * 1024"
definition max_grpc_concurrent_streams_per_backend :: nat where
  "max_grpc_concurrent_streams_per_backend = 4096"

text \<open>The two groups of server checks, before and after the number of routes is looked at.\<close>

definition server_timeouts ::
  "file_server_config \<Rightarrow> config_error + duration \<times> duration \<times> duration \<times> duration \<times> nat \<times> nat"
where
  "server_timeouts s =
     and_then (validate_seconds ''server.tls_handshake_timeout_seconds''
         (fsv_tls_handshake_timeout_seconds s) max_tls_handshake_timeout_seconds) (\<lambda>tls_handshake.
     and_then (validate_seconds ''server.websocket_upgrade_timeout_seconds''
         (fsv_websocket_upgrade_timeout_seconds s) max_websocket_upgrade_timeout_seconds) (\<lambda>upgrade.
     and_then (validate_seconds ''server.backend_connect_timeout_seconds''
         (fsv_backend_connect_timeout_seconds s) max_backend_connect_timeout_seconds) (\<lambda>connect.
     and_then (validate_seconds ''server.shutdown_grace_seconds''
         (fsv_shutdown_grace_seconds s) max_shutdown_grace_seconds) (\<lambda>grace.
     and_then (validate_size ''server.max_websocket_message_size_bytes''
         (fsv_max_websocket_message_size_bytes s) max_websocket_message_size_bytes) (\<lambda>message.
     and_then (validate_count ''server.max_grpc_concurrent_streams_per_backend''
         (fsv_max_grpc_concurrent_streams_per_backend s)
         max_grpc_concurrent_streams_per_backend) (\<lambda>streams.
     Inr (tls_handshake, upgrade, connect, grace, message, streams)))))))"

definition server_limits ::
  "file_server_config \<Rightarrow> duration \<times> duration \<times> duration \<times> duration \<times> nat \<times> nat
   \<Rightarrow> config_error + server_config"
where
  "server_limits s = (\<lambda>(tls_handshake, upgrade, connect, grace, message, streams).
     and_then (validate_count ''server.max_connections'' (fsv_max_connections s) 1000000)
       (\<lambda>connections.
     and_then (validate_count ''server.max_concurrent_tls_handshakes''
         (fsv_max_concurrent_tls_handshakes s) 65536) (\<lambda>handshakes.
     and_then (validate_count ''server.max_active_requests'' (fsv_max_active_requests s) 1000000)
       (\<lambda>requests.
     and_then (validate_count ''server.max_http_header_count'' (fsv_max_http_header_count s) 1024)
       (\<lambda>header_count.
     and_then (validate_count ''server.max_http_header_bytes'' (fsv_max_http_header_bytes s) 1048576)
       (\<lambda>header_bytes.
     and_then (validate_count ''server.max_http2_concurrent_streams''
         (fsv_max_http2_concurrent_streams s) 65536) (\<lambda>http2_streams.
     and_then (validate_count ''server.max_http2_send_buffer_bytes''
         (fsv_max_http2_send_buffer_bytes s) 1048576) (\<lambda>send_buffer.
     and_then (validate_seconds ''server.http_header_read_timeout_seconds''
         (fsv_http_header_read_timeout_seconds s) 300) (\<lambda>header_read.
     if header_bytes < 8192
     then Inl (Invalid ''server.max_http_header_bytes must be at least 8192'')
     else if connections < handshakes
     then Inl (Invalid ''TLS handshake capacity must not exceed max_connections'')
     else Inr
       \<lparr> sc_listen = fsv_listen s, sc_tls_handshake_timeout = tls_handshake,
         sc_websocket_upgrade_timeout = upgrade, sc_backend_connect_timeout = connect,
         sc_shutdown_grace = grace, sc_max_websocket_message_size = message,
         sc_max_grpc_concurrent_streams_per_backend = streams, sc_max_connections = connections,
         sc_max_concurrent_tls_handshakes = handshakes, sc_max_active_requests = requests,
         sc_max_http_header_count = header_count, sc_max_http_header_bytes = header_bytes,
         sc_max_http2_concurrent_streams = http2_streams,
         sc_max_http2_send_buffer_bytes = send_buffer,
         sc_http_header_read_timeout = header_read \<rparr>)))))))))"

section \<open>The file\<close>

text \<open>
  A WebSocket or gRPC route of the file has the fields of \<open>RouteSpec\<close> and \<open>GrpcRouteSpec\<close>, so the
  conversion that copies them one by one is the identity.
\<close>

record file_sni_binding =
  sb_sni :: string
  sb_hosts :: "string list"

record file_routing_config =
  frc_require_sni :: bool
  frc_sni_bindings :: "file_sni_binding list"

definition default_file_routing_config :: file_routing_config where
  "default_file_routing_config = \<lparr> frc_require_sni = True, frc_sni_bindings = [] \<rparr>"

record file_config =
  fl_security :: file_security_config
  fl_http_proxy :: file_http_proxy_config
  fl_routing :: file_routing_config
  fl_server :: file_server_config
  fl_tls :: file_tls_config
  fl_acme :: "file_acme_config option"
  fl_observability :: "file_observability_config option"
  fl_fallback :: "file_fallback_config option"
  fl_routes :: "route_spec list"
  fl_grpc_routes :: "grpc_route_spec list"
  fl_http_routes :: "file_http_route_config list"

record config =
  co_server :: server_config
  co_routing :: routing_policy
  co_client_address :: client_address_policy
  co_ip_blocking :: ip_blocking_runtime
  co_tls :: tls_config
  co_acme :: acme_config
  co_observability :: observability_config
  co_fallback :: "fallback_config option"
  co_routes :: route_table
  co_grpc_routes :: grpc_route_table
  co_http_routes :: http_route_table
  co_max_http_upstream_connections :: nat

definition needs_cloudflare :: "file_config \<Rightarrow> bool" where
  "needs_cloudflare c \<longleftrightarrow>
     list_ex (\<lambda>r. rs_enabled r \<and> cloudflare_only (rs_security r)) (fl_routes c) \<or>
     list_ex (\<lambda>r. gs_enabled r \<and> cloudflare_only (gs_security r)) (fl_grpc_routes c) \<or>
     list_ex (\<lambda>r. fr_enabled r \<and> cloudflare_only (fr_security r)) (fl_http_routes c) \<or>
     (case fl_fallback c of
        None \<Rightarrow> False | Some f \<Rightarrow> ff_enabled f \<and> cloudflare_only (ff_security f))"

text \<open>The keys taken so far and the hosts of the enabled routes.\<close>

type_synonym claimed = "string set \<times> (string \<times> string) set"

definition claim_websocket :: "claimed \<Rightarrow> route_spec \<Rightarrow> config_error + claimed" where
  "claim_websocket = (\<lambda>(hosts, paths) r.
     if rs_path r = ''/health/live'' \<or> rs_path r = ''/health/ready''
     then Inl (Invalid ''WebSocket routes must not use reserved health paths'') else
     and_then (map_err (\<lambda>reason. Invalid (''routes.path: '' @ reason)) (validate_http_path (rs_path r)))
       (\<lambda>_.
     and_then (map_err (\<lambda>reason. Invalid (''routes.host: '' @ reason)) (normalize_dns_host (rs_host r)))
       (\<lambda>host.
     Inr (if rs_enabled r then insert host hosts else hosts, insert (host, rs_path r) paths))))"

definition claim_grpc :: "claimed \<Rightarrow> grpc_route_spec \<Rightarrow> config_error + claimed" where
  "claim_grpc = (\<lambda>(hosts, paths) r.
     and_then (map_err (\<lambda>reason. Invalid (''grpc_routes.host: '' @ reason))
         (normalize_dns_host (gs_host r))) (\<lambda>host.
     if (host, gs_path r) \<in> paths
     then Inl (Invalid (''WS and gRPC conflict at '' @ host @ gs_path r))
     else Inr (if gs_enabled r then insert host hosts else hosts, insert (host, gs_path r) paths)))"

definition build_routes ::
  "('h, 'm) http_lib_scheme \<Rightarrow> path \<Rightarrow> file_config \<Rightarrow> fallback_config option
   \<Rightarrow> config_error + route_table \<times> grpc_route_table \<times> http_route_table \<times> routing_policy"
where
  "build_routes lib directory c fallback =
     and_then (try_fold claim_websocket ({}, {}) (fl_routes c)) (\<lambda>claimed.
     and_then (map_err Route_Failed (route_table_build lib (fl_routes c))) (\<lambda>routes.
     and_then (try_fold claim_grpc claimed (fl_grpc_routes c)) (\<lambda>(hosts, paths).
     and_then (map_err Grpc_Route_Failed (grpc_table_build lib (fl_grpc_routes c))) (\<lambda>grpc_routes.
     and_then (map_err Invalid (http_table_build lib directory paths (fl_http_routes c)))
       (\<lambda>http_routes.
     let hosts = hosts \<union> set (http_hosts http_routes);
         hosts = hosts \<union> (case fallback of None \<Rightarrow> {} | Some f \<Rightarrow> fc_hosts f) in
     and_then (map_err Invalid (routing_policy_build hosts (frc_require_sni (fl_routing c))
         (map (\<lambda>b. (sb_sni b, sb_hosts b)) (frc_sni_bindings (fl_routing c))))) (\<lambda>routing.
     Inr (routes, grpc_routes, http_routes, routing)))))))"

text \<open>Everything that is checked before the security state is loaded.\<close>

definition static_checks ::
  "('h, 'm) http_lib_scheme \<Rightarrow> path \<Rightarrow> file_config
   \<Rightarrow> config_error + (client_address_policy \<times> ip_blocking_runtime \<Rightarrow> config)"
where
  "static_checks lib directory c =
     and_then (server_timeouts (fl_server c)) (\<lambda>timeouts.
     if 4096 < length (fl_routes c) + length (fl_grpc_routes c) + length (fl_http_routes c)
     then Inl (Invalid ''total configured routes must not exceed 4096'') else
     and_then (validate_count ''http_proxy.max_connections'' (fh_max_connections (fl_http_proxy c))
         1000000) (\<lambda>upstream_connections.
     and_then (server_limits (fl_server c) timeouts) (\<lambda>server.
     and_then (tls_validate directory (fl_tls c)) (\<lambda>tls.
     and_then (transpose_opt (map_option (acme_validate directory) (fl_acme c))) (\<lambda>acme.
     and_then (transpose_opt (map_option (observability_validate directory) (fl_observability c)))
       (\<lambda>observability.
     and_then (transpose_opt (map_option (fallback_validate lib directory) (fl_fallback c)))
       (\<lambda>fallback.
     let fallback = Option.bind fallback (\<lambda>f. f) in
     and_then (build_routes lib directory c fallback) (\<lambda>(routes, grpc_routes, http_routes, routing).
     Inr (\<lambda>(client_address, ip_blocking).
       \<lparr> co_server = server, co_routing = routing, co_client_address = client_address,
         co_ip_blocking = ip_blocking, co_tls = tls,
         co_acme = (case acme of None \<Rightarrow> acme_disabled directory | Some a \<Rightarrow> a),
         co_observability = (case observability of None \<Rightarrow> observability_off | Some v \<Rightarrow> v),
         co_fallback = fallback, co_routes = routes, co_grpc_routes = grpc_routes,
         co_http_routes = http_routes,
         co_max_http_upstream_connections = upstream_connections \<rparr>)))))))))"

definition config_validate ::
  "('h, 'm) http_lib_scheme \<Rightarrow> security_env \<Rightarrow> path \<Rightarrow> file_config \<Rightarrow> fs
   \<Rightarrow> (config_error + config) \<times> fs"
where
  "config_validate lib env directory c fs =
     (case static_checks lib directory c of
        Inl e \<Rightarrow> (Inl e, fs)
      | Inr complete \<Rightarrow>
        (case security_validate env directory (needs_cloudflare c) (fl_security c) fs of
           (Inl e, fs) \<Rightarrow> (Inl e, fs)
         | (Inr security, fs) \<Rightarrow> (Inr (complete security), fs)))"

text \<open>\<open>Path::parent\<close>, with an empty component list for paths without one.\<close>

definition path_parent :: "path \<Rightarrow> path option" where
  "path_parent p =
     (case rev (path_components p) of
        [] \<Rightarrow> None
      | c # rest \<Rightarrow> Some ((if path_is_absolute p then ''/'' else []) @ join ''/'' (rev rest)))"

definition config_load ::
  "('h, 'm) http_lib_scheme \<Rightarrow> (string \<Rightarrow> string + file_config) \<Rightarrow> io_error option \<Rightarrow> security_env
   \<Rightarrow> path \<Rightarrow> fs \<Rightarrow> (config_error + config) \<times> fs"
where
  "config_load lib toml fault env path fs =
     (let source =
        (case fault of
           Some e \<Rightarrow> Inl e
         | None \<Rightarrow>
           (case fs path of
              None \<Rightarrow> Inl not_found
            | Some data \<Rightarrow>
              if from_utf8 data = Utf8_Ok then Inr data
              else Inl \<lparr> io_kind = Other_Error, io_message = ''stream did not contain valid UTF-8'' \<rparr>))
      in case and_then (map_err (Read_Error path) source)
                (\<lambda>source. map_err (Parse_Error path) (toml source)) of
           Inl e \<Rightarrow> (Inl e, fs)
         | Inr c \<Rightarrow>
             config_validate lib env (case path_parent path of Some d \<Rightarrow> d | None \<Rightarrow> ''.'') c fs)"

declare default_file_server_config_def [eval_simps]
  default_tls_handshake_timeout_seconds_def [eval_simps]
  default_websocket_upgrade_timeout_seconds_def [eval_simps]
  default_backend_connect_timeout_seconds_def [eval_simps]
  default_shutdown_grace_seconds_def [eval_simps]
  default_max_websocket_message_size_bytes_def [eval_simps]
  default_max_grpc_concurrent_streams_per_backend_def [eval_simps]
  default_max_connections_def [eval_simps]
  default_max_concurrent_tls_handshakes_def [eval_simps]
  default_max_active_requests_def [eval_simps]
  default_max_http_header_count_def [eval_simps]
  default_max_http_header_bytes_def [eval_simps]
  default_max_http2_concurrent_streams_def [eval_simps]
  default_max_http2_send_buffer_bytes_def [eval_simps]
  default_http_header_read_timeout_seconds_def [eval_simps]
  max_tls_handshake_timeout_seconds_def [eval_simps]
  max_websocket_upgrade_timeout_seconds_def [eval_simps]
  max_backend_connect_timeout_seconds_def [eval_simps] max_shutdown_grace_seconds_def [eval_simps]
  max_websocket_message_size_bytes_def [eval_simps]
  max_grpc_concurrent_streams_per_backend_def [eval_simps] server_timeouts_def [eval_simps]
  server_limits_def [eval_simps] default_file_routing_config_def [eval_simps]
  needs_cloudflare_def [eval_simps] claim_websocket_def [eval_simps] claim_grpc_def [eval_simps]
  build_routes_def [eval_simps] static_checks_def [eval_simps] config_validate_def [eval_simps]
  path_parent_def [eval_simps] config_load_def [eval_simps]

section \<open>Bounds\<close>

definition server_config_ok :: "server_config \<Rightarrow> bool" where
  "server_config_ok s \<longleftrightarrow>
     list_all (\<lambda>(d, mx). from_secs 1 \<le> d \<and> d \<le> from_secs mx)
       [(sc_tls_handshake_timeout s, 300), (sc_websocket_upgrade_timeout s, 300),
        (sc_backend_connect_timeout s, 300), (sc_shutdown_grace s, 600),
        (sc_http_header_read_timeout s, 300)] \<and>
     list_all (\<lambda>(n, mx). 1 \<le> n \<and> n \<le> mx)
       [(sc_max_websocket_message_size s, 67108864),
        (sc_max_grpc_concurrent_streams_per_backend s, 4096), (sc_max_connections s, 1000000),
        (sc_max_concurrent_tls_handshakes s, sc_max_connections s),
        (sc_max_concurrent_tls_handshakes s, 65536), (sc_max_active_requests s, 1000000),
        (sc_max_http_header_count s, 1024), (sc_max_http2_concurrent_streams s, 65536),
        (sc_max_http2_send_buffer_bytes s, 1048576)] \<and>
     8192 \<le> sc_max_http_header_bytes s \<and> sc_max_http_header_bytes s \<le> 1048576"

lemmas server_maxima =
  max_tls_handshake_timeout_seconds_def max_websocket_upgrade_timeout_seconds_def
  max_backend_connect_timeout_seconds_def max_shutdown_grace_seconds_def
  max_websocket_message_size_bytes_def max_grpc_concurrent_streams_per_backend_def

lemma server_checks_ok:
  assumes "server_timeouts s = Inr t" "server_limits s t = Inr v"
  shows "server_config_ok v" and "sc_listen v = fsv_listen s"
  using assms unfolding server_timeouts_def server_limits_def
  by (elim result_elims, clarify, simp add: server_config_ok_def server_maxima)+

section \<open>Keys and hosts\<close>

definition route_keys :: "route_spec list \<Rightarrow> (string \<times> string) set" where
  "route_keys specs = {k. \<exists>s \<in> set specs. route_key s = Some k}"

definition grpc_keys :: "grpc_route_spec list \<Rightarrow> (string \<times> string) set" where
  "grpc_keys specs = {k. \<exists>s \<in> set specs. grpc_key s = Some k}"

definition hosts_of :: "('s \<Rightarrow> bool) \<Rightarrow> ('s \<Rightarrow> string) \<Rightarrow> 's list \<Rightarrow> string set" where
  "hosts_of enabled host specs =
     {h. \<exists>s \<in> set specs. enabled s \<and> normalize_dns_host (host s) = Inr h}"

lemma claim_websocket_Inr_iff:
  "claim_websocket (hosts, paths) r = Inr claimed \<longleftrightarrow>
     rs_path r \<notin> {''/health/live'', ''/health/ready''} \<and> is_ok (validate_http_path (rs_path r)) \<and>
     (\<exists>h. normalize_dns_host (rs_host r) = Inr h \<and>
        claimed = (if rs_enabled r then insert h hosts else hosts, insert (h, rs_path r) paths))"
  by (auto simp: claim_websocket_def is_ok_iff)

lemma claim_grpc_Inr_iff:
  "claim_grpc (hosts, paths) r = Inr claimed \<longleftrightarrow>
     (\<exists>h. normalize_dns_host (gs_host r) = Inr h \<and> (h, gs_path r) \<notin> paths \<and>
        claimed = (if gs_enabled r then insert h hosts else hosts, insert (h, gs_path r) paths))"
  by (auto simp: claim_grpc_def)

lemma claim_websocket_fold:
  assumes "try_fold claim_websocket (hosts, paths) specs = Inr (hosts', paths')"
  shows "paths' = paths \<union> route_keys specs \<and> hosts' = hosts \<union> hosts_of rs_enabled rs_host specs \<and>
    (\<forall>s \<in> set specs. rs_path s \<notin> {''/health/live'', ''/health/ready''} \<and> clean_path (rs_path s))"
  using assms
proof (induction specs arbitrary: hosts paths)
  case (Cons s specs)
  then obtain h where h: "normalize_dns_host (rs_host s) = Inr h"
    and ok: "rs_path s \<notin> {''/health/live'', ''/health/ready''}" "clean_path (rs_path s)"
    and run: "try_fold claim_websocket
      (if rs_enabled s then insert h hosts else hosts, insert (h, rs_path s) paths) specs = Inr (hosts', paths')"
    by (auto simp: claim_websocket_Inr_iff is_ok_iff validate_http_path_iff split: if_splits)
  from Cons.IH [OF run] h ok show ?case
    by (auto simp: route_keys_def route_key_def hosts_of_def)
qed (simp add: route_keys_def hosts_of_def)

lemma claim_grpc_fold:
  assumes "try_fold claim_grpc (hosts, paths) specs = Inr (hosts', paths')"
  shows "paths' = paths \<union> grpc_keys specs \<and> hosts' = hosts \<union> hosts_of gs_enabled gs_host specs \<and>
    paths \<inter> grpc_keys specs = {}"
  using assms
proof (induction specs arbitrary: hosts paths)
  case (Cons s specs)
  then obtain h where h: "normalize_dns_host (gs_host s) = Inr h" "(h, gs_path s) \<notin> paths"
    and run: "try_fold claim_grpc
      (if gs_enabled s then insert h hosts else hosts, insert (h, gs_path s) paths) specs = Inr (hosts', paths')"
    by (auto simp: claim_grpc_Inr_iff split: if_splits)
  have "grpc_keys (s # specs) = insert (h, gs_path s) (grpc_keys specs)"
    "hosts_of gs_enabled gs_host (s # specs) =
      (if gs_enabled s then insert h (hosts_of gs_enabled gs_host specs) else hosts_of gs_enabled gs_host specs)"
    using h by (auto simp: grpc_keys_def grpc_key_def hosts_of_def)
  with Cons.IH [OF run] h show ?case by (auto split: if_splits)
qed (simp add: grpc_keys_def hosts_of_def)

lemma http_build_hosts:
  assumes "try_fold (http_build_step lib directory reserved) st specs = Inr st'"
  shows "set (map fst (hb_by_host st')) =
    set (map fst (hb_by_host st)) \<union> hosts_of fr_enabled fr_host specs"
  using assms
proof (induction specs arbitrary: st)
  case (Cons s specs)
  then obtain st1 where step: "http_build_step lib directory reserved st s = Inr st1"
    and rest: "try_fold (http_build_step lib directory reserved) st1 specs = Inr st'"
    by auto
  from step obtain k r where r: "http_compile lib directory reserved s = Some r"
    and st1: "hb_by_host st1 = (if fr_enabled s then add_http_route (hr_host r) r (hb_by_host st)
       else hb_by_host st)"
    by (rule http_build_step_Inr) auto
  from r have "normalize_dns_host (fr_host s) = Inr (hr_host r)"
    by (elim http_compile_cases) (simp add: http_route_of_def)
  moreover have "set (map fst (add_http_route host r t)) = insert host (set (map fst t))" for host t
    by (auto simp: add_http_route_def Let_def dom_update)
  ultimately show ?case
    using Cons.IH [OF rest] by (auto simp: st1 hosts_of_def)
qed (simp add: hosts_of_def)

lemma http_hosts_iff:
  assumes "http_table_build lib directory reserved specs = Inr t"
  shows "set (http_hosts t) = hosts_of fr_enabled fr_host specs"
proof -
  from assms obtain st where
    "try_fold (http_build_step lib directory reserved) http_build_init specs = Inr st"
    "ht_by_host t = hb_by_host st"
    by (auto simp: http_table_build_def split: if_splits)
  from http_build_hosts [OF this(1)] this(2) show ?thesis
    by (simp add: http_hosts_def http_build_init_def)
qed

text \<open>The hosts of a configuration: those of its enabled routes and of its fallback.\<close>

definition served_hosts :: "file_config \<Rightarrow> fallback_config option \<Rightarrow> string set" where
  "served_hosts c fallback =
     hosts_of rs_enabled rs_host (fl_routes c) \<union> hosts_of gs_enabled gs_host (fl_grpc_routes c) \<union>
     hosts_of fr_enabled fr_host (fl_http_routes c) \<union>
     (case fallback of None \<Rightarrow> {} | Some f \<Rightarrow> fc_hosts f)"

lemma build_routes_ok:
  assumes "build_routes lib directory c fallback = Inr (routes, grpc_routes, http_routes, policy)"
  shows "route_table_build lib (fl_routes c) = Inr routes"
    and "grpc_table_build lib (fl_grpc_routes c) = Inr grpc_routes"
    and "http_table_build lib directory (route_keys (fl_routes c) \<union> grpc_keys (fl_grpc_routes c))
      (fl_http_routes c) = Inr http_routes"
    and "route_keys (fl_routes c) \<inter> grpc_keys (fl_grpc_routes c) = {}"
    and "\<forall>s \<in> set (fl_routes c). rs_path s \<notin> {''/health/live'', ''/health/ready''} \<and> clean_path (rs_path s)"
    and "routing_policy_build (served_hosts c fallback) (frc_require_sni (fl_routing c))
      (map (\<lambda>b. (sb_sni b, sb_hosts b)) (frc_sni_bindings (fl_routing c))) = Inr policy"
proof -
  from assms obtain hosts1 paths1 hosts2 paths2 where
    ws: "try_fold claim_websocket ({}, {}) (fl_routes c) = Inr (hosts1, paths1)"
    and r: "route_table_build lib (fl_routes c) = Inr routes"
    and grpc: "try_fold claim_grpc (hosts1, paths1) (fl_grpc_routes c) = Inr (hosts2, paths2)"
    and g: "grpc_table_build lib (fl_grpc_routes c) = Inr grpc_routes"
    and h: "http_table_build lib directory paths2 (fl_http_routes c) = Inr http_routes"
    and p: "routing_policy_build (hosts2 \<union> set (http_hosts http_routes) \<union>
        (case fallback of None \<Rightarrow> {} | Some f \<Rightarrow> fc_hosts f)) (frc_require_sni (fl_routing c))
      (map (\<lambda>b. (sb_sni b, sb_hosts b)) (frc_sni_bindings (fl_routing c))) = Inr policy"
    unfolding build_routes_def Let_def by (elim and_then_InrE map_err_InrE case_prod_InrE) auto
  from claim_websocket_fold [OF ws]
  have 1: "paths1 = route_keys (fl_routes c)" "hosts1 = hosts_of rs_enabled rs_host (fl_routes c)"
    "\<forall>s \<in> set (fl_routes c). rs_path s \<notin> {''/health/live'', ''/health/ready''} \<and> clean_path (rs_path s)"
    by simp_all
  from claim_grpc_fold [OF grpc] 1
  have 2: "paths2 = route_keys (fl_routes c) \<union> grpc_keys (fl_grpc_routes c)"
    "hosts2 = hosts_of rs_enabled rs_host (fl_routes c) \<union> hosts_of gs_enabled gs_host (fl_grpc_routes c)"
    "route_keys (fl_routes c) \<inter> grpc_keys (fl_grpc_routes c) = {}"
    by simp_all
  show "route_table_build lib (fl_routes c) = Inr routes"
    "grpc_table_build lib (fl_grpc_routes c) = Inr grpc_routes" by (rule r, rule g)
  show "http_table_build lib directory (route_keys (fl_routes c) \<union> grpc_keys (fl_grpc_routes c))
      (fl_http_routes c) = Inr http_routes" using h by (simp add: 2)
  show "routing_policy_build (served_hosts c fallback) (frc_require_sni (fl_routing c))
      (map (\<lambda>b. (sb_sni b, sb_hosts b)) (frc_sni_bindings (fl_routing c))) = Inr policy"
    using p by (simp add: served_hosts_def http_hosts_iff [OF h] 2)
  show "route_keys (fl_routes c) \<inter> grpc_keys (fl_grpc_routes c) = {}" by (rule 2(3))
  show "\<forall>s \<in> set (fl_routes c). rs_path s \<notin> {''/health/live'', ''/health/ready''} \<and> clean_path (rs_path s)"
    by (rule 1(3))
qed

section \<open>An accepted configuration\<close>

text \<open>
  What a successful validation is made of, in the terms of the components: the checked sections, the
  tables built from the routes, the policy over the served hosts and the loaded security state.
\<close>

definition accepted ::
  "('h, 'm) http_lib_scheme \<Rightarrow> security_env \<Rightarrow> path \<Rightarrow> file_config \<Rightarrow> fs \<Rightarrow> config \<Rightarrow> fs \<Rightarrow> bool"
where
  "accepted lib env directory c fs co fs' \<longleftrightarrow>
     server_config_ok (co_server co) \<and> sc_listen (co_server co) = fsv_listen (fl_server c) \<and>
     1 \<le> co_max_http_upstream_connections co \<and> co_max_http_upstream_connections co \<le> 1000000 \<and>
     length (fl_routes c) + length (fl_grpc_routes c) + length (fl_http_routes c) \<le> 4096 \<and>
     tls_validate directory (fl_tls c) = Inr (co_tls co) \<and>
     (case fl_acme c of None \<Rightarrow> co_acme co = acme_disabled directory
      | Some a \<Rightarrow> acme_validate directory a = Inr (co_acme co)) \<and>
     (case fl_observability c of None \<Rightarrow> co_observability co = observability_off
      | Some v \<Rightarrow> observability_validate directory v = Inr (co_observability co)) \<and>
     (case fl_fallback c of None \<Rightarrow> co_fallback co = None
      | Some f \<Rightarrow> fallback_validate lib directory f = Inr (co_fallback co)) \<and>
     build_routes lib directory c (co_fallback co) =
       Inr (co_routes co, co_grpc_routes co, co_http_routes co, co_routing co) \<and>
     security_validate env directory (needs_cloudflare c) (fl_security c) fs =
       (Inr (co_client_address co, co_ip_blocking co), fs')"

lemma config_validate_accepted:
  assumes "config_validate lib env directory c fs = (Inr co, fs')"
  shows "accepted lib env directory c fs co fs'"
proof -
  from assms obtain complete policy rt where
    checks: "static_checks lib directory c = Inr complete"
    and security: "security_validate env directory (needs_cloudflare c) (fl_security c) fs =
      (Inr (policy, rt), fs')"
    and co: "co = complete (policy, rt)"
    by (auto simp: config_validate_def split: sum.splits prod.splits)
  from checks obtain t n server tls acme observability fallback routes grpc_routes http_routes routing
    where parts: "server_timeouts (fl_server c) = Inr t"
      "length (fl_routes c) + length (fl_grpc_routes c) + length (fl_http_routes c) \<le> 4096"
      "validate_count ''http_proxy.max_connections'' (fh_max_connections (fl_http_proxy c)) 1000000 = Inr n"
      "server_limits (fl_server c) t = Inr server"
      "tls_validate directory (fl_tls c) = Inr tls"
      "transpose_opt (map_option (acme_validate directory) (fl_acme c)) = Inr acme"
      "transpose_opt (map_option (observability_validate directory) (fl_observability c)) = Inr observability"
      "transpose_opt (map_option (fallback_validate lib directory) (fl_fallback c)) = Inr fallback"
      "build_routes lib directory c (Option.bind fallback (\<lambda>f. f)) =
        Inr (routes, grpc_routes, http_routes, routing)"
    and complete: "complete = (\<lambda>(client_address, ip_blocking).
       \<lparr> co_server = server, co_routing = routing, co_client_address = client_address,
         co_ip_blocking = ip_blocking, co_tls = tls,
         co_acme = (case acme of None \<Rightarrow> acme_disabled directory | Some a \<Rightarrow> a),
         co_observability = (case observability of None \<Rightarrow> observability_off | Some v \<Rightarrow> v),
         co_fallback = Option.bind fallback (\<lambda>f. f), co_routes = routes, co_grpc_routes = grpc_routes,
         co_http_routes = http_routes, co_max_http_upstream_connections = n \<rparr>)"
    unfolding static_checks_def Let_def
    by (elim and_then_InrE if_Inl_InrE case_prod_InrE) (auto simp del: validate_count_Inr_iff)
  have acme: "case fl_acme c of None \<Rightarrow> acme = None | Some a \<Rightarrow> \<exists>v. acme_validate directory a = Inr v \<and> acme = Some v"
    using parts(6) by (auto split: option.splits)
  have obs: "case fl_observability c of None \<Rightarrow> observability = None
      | Some a \<Rightarrow> \<exists>v. observability_validate directory a = Inr v \<and> observability = Some v"
    using parts(7) by (auto split: option.splits)
  have fb: "case fl_fallback c of None \<Rightarrow> fallback = None
      | Some a \<Rightarrow> \<exists>v. fallback_validate lib directory a = Inr v \<and> fallback = Some v"
    using parts(8) by (auto split: option.splits)
  show ?thesis
    unfolding accepted_def co complete prod.case config.simps
    using parts(2,3,5,9) server_checks_ok [OF parts(1,4)] security acme obs fb
    by (auto split: option.splits)
qed

text \<open>A file that cannot be read or parsed changes nothing; otherwise the directory of the file counts.\<close>

lemma config_load_accepted:
  assumes "config_load lib toml fault env path fs = (Inr co, fs')"
  obtains data c where "fs path = Some data" "from_utf8 data = Utf8_Ok" "toml data = Inr c"
    "accepted lib env (case path_parent path of Some d \<Rightarrow> d | None \<Rightarrow> ''.'') c fs co fs'"
proof -
  from assms obtain data c where d: "fs path = Some data" "from_utf8 data = Utf8_Ok" "toml data = Inr c"
    and v: "config_validate lib env (case path_parent path of Some d \<Rightarrow> d | None \<Rightarrow> ''.'') c fs = (Inr co, fs')"
    by (auto simp: config_load_def Let_def split: sum.splits option.splits if_splits)
  show thesis by (rule that [OF d config_validate_accepted [OF v]])
qed

text \<open>The keys of the three tables.\<close>

lemma accepted_resolve:
  assumes "accepted lib env directory c fs co fs'"
  shows "route_resolve (co_routes co) host path = Some r \<Longrightarrow> (host, path) \<in> route_keys (fl_routes c)"
    and "grpc_resolve (co_grpc_routes co) host path = Some g \<Longrightarrow> (host, path) \<in> grpc_keys (fl_grpc_routes c)"
    and "http_table_lookup (ht_by_host (co_http_routes co)) (host, path, False) = Some h \<Longrightarrow>
      (host, path) \<notin> route_keys (fl_routes c) \<union> grpc_keys (fl_grpc_routes c)"
proof -
  have "build_routes lib directory c (co_fallback co) =
      Inr (co_routes co, co_grpc_routes co, co_http_routes co, co_routing co)"
    using assms by (simp add: accepted_def)
  note b = build_routes_ok [OF this]
  show "(host, path) \<in> route_keys (fl_routes c)" if "route_resolve (co_routes co) host path = Some r"
    using ws_routes.resolve_build [OF b(1), of "(host, path)" r] that by (auto simp: route_keys_def)
  show "(host, path) \<in> grpc_keys (fl_grpc_routes c)" if "grpc_resolve (co_grpc_routes co) host path = Some g"
    using grpc_tbl.resolve_build [OF b(2), of "(host, path)" g] that by (auto simp: grpc_keys_def)
  assume "http_table_lookup (ht_by_host (co_http_routes co)) (host, path, False) = Some h"
  then obtain s where s: "http_key s = Some (host, path, False)"
    "http_compile lib directory (route_keys (fl_routes c) \<union> grpc_keys (fl_grpc_routes c)) s = Some h"
    using http_tbl.resolve_build [OF b(3)] by auto
  with http_compile_key [OF s(2)] have "hr_host h = host" "hr_path h = path" "hr_path_match h = Exact"
    by (cases "hr_path_match h"; auto)+
  with http_compile_ok(4) [OF s(2)] show "(host, path) \<notin> route_keys (fl_routes c) \<union> grpc_keys (fl_grpc_routes c)"
    by auto
qed

lemma routing_policy_build_hosts: "routing_policy_build hosts sni bindings = Inr p \<Longrightarrow> rp_hosts p = hosts"
  by (auto simp: routing_policy_build_def)

lemma cf_valid_networks: "cf_valid cf \<Longrightarrow> cf_cache_file cf \<noteq> None \<Longrightarrow> cf_networks cf \<noteq> []"
  by (drule cf_valid_facts) auto

lemma accepted_hosts:
  assumes "accepted lib env directory c fs co fs'"
  shows "rp_hosts (co_routing co) = served_hosts c (co_fallback co)"
    and "permits_request_host (co_routing co) host sni \<Longrightarrow> host \<in> served_hosts c (co_fallback co)"
proof -
  have "build_routes lib directory c (co_fallback co) =
      Inr (co_routes co, co_grpc_routes co, co_http_routes co, co_routing co)"
    using assms by (simp add: accepted_def)
  note policy = build_routes_ok(6) [OF this]
  show "rp_hosts (co_routing co) = served_hosts c (co_fallback co)"
    by (rule routing_policy_build_hosts [OF policy])
  then show "permits_request_host (co_routing co) host sni \<Longrightarrow> host \<in> served_hosts c (co_fallback co)"
    by (simp add: permits_request_host_def)
qed

text \<open>A policy that only lets Cloudflare in is never enforced with an empty list of networks.\<close>

lemma accepted_needs_cloudflare:
  assumes ok: "accepted lib env directory c fs co fs'" and needs: "needs_cloudflare c"
  shows "cf_networks (ca_cloudflare (co_client_address co)) \<noteq> []"
proof -
  have "security_validate env directory True (fl_security c) fs =
      (Inr (co_client_address co, co_ip_blocking co), fs')"
    using ok needs by (simp add: accepted_def)
  from this obtain "cf_valid (ca_cloudflare (co_client_address co))"
    and "cf_cache_file (ca_cloudflare (co_client_address co)) \<noteq> None"
    by (rule security_validate_ok) simp
  then show ?thesis by (rule cf_valid_networks)
qed

lemma accepted_cloudflare_only:
  assumes ok: "accepted lib env directory c fs co fs'"
  shows "route_resolve (co_routes co) host path = Some r \<Longrightarrow> cloudflare_only (rt_security r) \<Longrightarrow> needs_cloudflare c"
    and "grpc_resolve (co_grpc_routes co) host path = Some g \<Longrightarrow> cloudflare_only (gr_security g) \<Longrightarrow> needs_cloudflare c"
    and "starts_with path ''/'' \<Longrightarrow> http_resolve (co_http_routes co) host path = Some h \<Longrightarrow>
      cloudflare_only (hr_security h) \<Longrightarrow> needs_cloudflare c"
    and "co_fallback co = Some f \<Longrightarrow> cloudflare_only (fc_security f) \<Longrightarrow> needs_cloudflare c"
proof -
  have build: "build_routes lib directory c (co_fallback co) =
      Inr (co_routes co, co_grpc_routes co, co_http_routes co, co_routing co)"
    using ok by (simp add: accepted_def)
  note b = build_routes_ok [OF build]
  show "needs_cloudflare c" if r: "route_resolve (co_routes co) host path = Some r" "cloudflare_only (rt_security r)"
  proof -
    from ws_routes.resolve_build [OF b(1), of "(host, path)" r] r obtain s where
      "s \<in> set (fl_routes c)" "rs_enabled s" "route_key s = Some (host, path)" "route_compile lib s = Some r"
      by auto
    then show ?thesis
      using route_compile_sound(8) [of lib s r host path] r(2) by (auto simp: needs_cloudflare_def list_ex_iff)
  qed
  show "needs_cloudflare c" if g: "grpc_resolve (co_grpc_routes co) host path = Some g" "cloudflare_only (gr_security g)"
  proof -
    from grpc_tbl.resolve_build [OF b(2), of "(host, path)" g] g obtain s where
      "s \<in> set (fl_grpc_routes c)" "gs_enabled s" "grpc_key s = Some (host, path)" "grpc_compile lib s = Some g"
      by auto
    then show ?thesis
      using grpc_compile_sound(8) [of lib s g host path] g(2) by (auto simp: needs_cloudflare_def list_ex_iff)
  qed
  show "needs_cloudflare c" if h: "starts_with path ''/''" "http_resolve (co_http_routes co) host path = Some h"
    "cloudflare_only (hr_security h)"
  proof -
    from http_resolve_lookup [OF h(1), of "co_http_routes co" host h] h(2) obtain k where
      "http_table_lookup (ht_by_host (co_http_routes co)) k = Some h" by blast
    with http_tbl.resolve_build [OF b(3), of k h] obtain s where
      "s \<in> set (fl_http_routes c)" "fr_enabled s"
      "http_compile lib directory (route_keys (fl_routes c) \<union> grpc_keys (fl_grpc_routes c)) s = Some h"
      by auto
    then show ?thesis
      using http_compile_ok(2) [of lib directory _ s h] h(3) by (fastforce simp: needs_cloudflare_def list_ex_iff)
  qed
  show "needs_cloudflare c" if f: "co_fallback co = Some f" "cloudflare_only (fc_security f)"
  proof (cases "fl_fallback c")
    case (Some ff)
    then have v: "fallback_validate lib directory ff = Inr (Some f)"
      using ok f(1) by (simp add: accepted_def)
    from fallback_validate_ok(1) [OF v] fallback_validate_ok(2) [OF v refl] f(2) Some show ?thesis
      by (simp add: needs_cloudflare_def)
  qed (use ok f in \<open>simp add: accepted_def\<close>)
qed

lemma accepted_build:
  assumes "accepted lib env directory c fs co fs'"
  shows "build_routes lib directory c (co_fallback co) =
    Inr (co_routes co, co_grpc_routes co, co_http_routes co, co_routing co)"
  using assms by (simp add: accepted_def)

lemma accepted_fallback:
  assumes "accepted lib env directory c fs co fs'" "co_fallback co = Some f"
  shows "fallback_config_ok f"
proof (cases "fl_fallback c")
  case (Some ff)
  then have "fallback_validate lib directory ff = Inr (Some f)" using assms by (simp add: accepted_def)
  from fallback_validate_ok(2) [OF this refl] show ?thesis by simp
qed (use assms in \<open>simp add: accepted_def\<close>)

lemma accepted_counts:
  assumes "accepted lib env directory c fs co fs'"
  shows "tbl_configured_count (co_routes co) + gt_configured_count (co_grpc_routes co)
      + ht_configured_count (co_http_routes co) \<le> 4096"
proof -
  note b = build_routes_ok [OF accepted_build [OF assms]]
  obtain st where "ht_configured_count (co_http_routes co) = length (fl_http_routes c)"
    by (rule http_table_build_ok [OF b(3)]) simp
  moreover obtain st2 where "gt_configured_count (co_grpc_routes co) = length (fl_grpc_routes c)"
    by (rule grpc_table_build_ok [OF b(2)]) simp
  ultimately show ?thesis
    using assms route_table_counts(2) [OF b(1)] by (simp add: accepted_def)
qed

lemma accepted_acme:
  assumes "accepted lib env directory c fs co fs'"
  shows "certificates_ok (ac_certificates (co_acme co))"
    and "ac_enabled (co_acme co) \<Longrightarrow> ac_certificates (co_acme co) \<noteq> [] \<and> ac_email (co_acme co) \<noteq> None"
proof -
  have ok: "acme_config_ok (co_acme co)" if "fl_acme c = Some a" for a
    using assms that acme_validate_ok(1) [of directory a] by (simp add: accepted_def)
  have off: "co_acme co = acme_disabled directory" if "fl_acme c = None"
    using assms that by (simp add: accepted_def)
  show "certificates_ok (ac_certificates (co_acme co))"
    using ok off by (cases "fl_acme c") (simp_all add: acme_config_ok_def acme_disabled_def certificates_ok_def)
  show "ac_enabled (co_acme co) \<Longrightarrow> ac_certificates (co_acme co) \<noteq> [] \<and> ac_email (co_acme co) \<noteq> None"
    using ok off by (cases "fl_acme c") (simp_all add: acme_config_ok_def acme_disabled_def)
qed

lemma accepted_tls:
  assumes "accepted lib env directory c fs co fs'"
  shows "tls_config_ok (co_tls co)"
  using assms tls_validate_ok by (auto simp: accepted_def)

text \<open>The hosts of the three tables and of the fallback are the hosts the policy knows.\<close>

lemma accepted_served:
  assumes "accepted lib env directory c fs co fs'"
  shows "route_resolve (co_routes co) host path = Some r \<Longrightarrow> host \<in> rp_hosts (co_routing co)"
    and "grpc_resolve (co_grpc_routes co) host path = Some g \<Longrightarrow> host \<in> rp_hosts (co_routing co)"
    and "http_table_lookup (ht_by_host (co_http_routes co)) (host, p, b) = Some h \<Longrightarrow> host \<in> rp_hosts (co_routing co)"
    and "co_fallback co = Some f \<Longrightarrow> fallback_permits_host f host \<Longrightarrow> host \<in> rp_hosts (co_routing co)"
proof -
  note b = build_routes_ok [OF accepted_build [OF assms]]
  note hosts = accepted_hosts(1) [OF assms] served_hosts_def
  show "host \<in> rp_hosts (co_routing co)" if "route_resolve (co_routes co) host path = Some r"
    using ws_routes.resolve_build [OF b(1), of "(host, path)" r] that
    by (auto simp: hosts hosts_of_def route_key_def)
  show "host \<in> rp_hosts (co_routing co)" if "grpc_resolve (co_grpc_routes co) host path = Some g"
    using grpc_tbl.resolve_build [OF b(2), of "(host, path)" g] that
    by (auto simp: hosts hosts_of_def grpc_key_def)
  show "host \<in> rp_hosts (co_routing co)" if "http_table_lookup (ht_by_host (co_http_routes co)) (host, p, b) = Some h"
    using http_tbl.resolve_build [OF b(3), of "(host, p, b)" h] that
    by (auto simp: hosts hosts_of_def http_key_def)
  show "host \<in> rp_hosts (co_routing co)" if "co_fallback co = Some f" "fallback_permits_host f host"
    using that by (simp add: hosts fallback_permits_host_def)
qed

end
