(* ===== verification/Semaphores.thy ===== *)
theory Semaphores
  imports Prelude
begin

text \<open>
  The semaphores of \<open>tokio::sync\<close> the gateway bounds its work with.  Their code is not part of the
  repository, so they are a parameter: a record of the operations over an arbitrary type of
  semaphores.  The documented laws are the locale \<open>semaphore\<close>, and a counter provides them.  A permit
  is not a value of the model: whoever holds one says so, and giving it back is \<open>sem_release\<close>, what
  dropping an \<open>OwnedSemaphorePermit\<close> does.
\<close>

record 's sem_lib =
  sem_new :: "nat \<Rightarrow> 's"
  sem_available :: "'s \<Rightarrow> nat"
  sem_try_acquire :: "'s \<Rightarrow> 's option"
  sem_release :: "'s \<Rightarrow> 's"

locale semaphore =
  fixes sem :: "'s sem_lib"
  assumes available_new: "sem_available sem (sem_new sem n) = n"
    and try_acquire_Some: "sem_try_acquire sem s = Some s' \<Longrightarrow> sem_available sem s = Suc (sem_available sem s')"
    and try_acquire_None: "sem_try_acquire sem s = None \<longleftrightarrow> sem_available sem s = 0"
    and available_release: "sem_available sem (sem_release sem s) = Suc (sem_available sem s)"
begin

lemmas semaphore_simps [simp] = available_new available_release

lemma try_acquire_pos: "sem_try_acquire sem s = Some s' \<Longrightarrow> 0 < sem_available sem s"
  by (simp add: try_acquire_Some)

lemma try_acquire_ex: "0 < sem_available sem s \<Longrightarrow> \<exists>s'. sem_try_acquire sem s = Some s'"
  using try_acquire_None [of s] by (cases "sem_try_acquire sem s") auto

text \<open>Taking a permit and giving it back leaves the number of available ones.\<close>

lemma release_acquired:
  "sem_try_acquire sem s = Some s' \<Longrightarrow> sem_available sem (sem_release sem s') = sem_available sem s"
  by (simp add: try_acquire_Some)

end

section \<open>Semaphores as counters\<close>

definition counter_sem :: "nat sem_lib" where
  "counter_sem = \<lparr> sem_new = (\<lambda>n. n), sem_available = (\<lambda>s. s),
     sem_try_acquire = (\<lambda>s. if s = 0 then None else Some (s - 1)), sem_release = Suc \<rparr>"

declare counter_sem_def [eval_simps]

interpretation counter: semaphore counter_sem
  by unfold_locales (auto simp: counter_sem_def split: if_splits)

lemma semaphore_counter_sem: "semaphore counter_sem"
  by (rule counter.semaphore_axioms)

end
