(* ===== verification/Upstream_Pool.thy ===== *)
theory Upstream_Pool
  imports Semaphores Upstream_Config Http_Headers "HOL-Library.Multiset"
begin

text \<open>
  \<open>src/http_proxy/pool.rs\<close>: the connections to one upstream.  Every resource is a permit (local and
  global connections, active exchanges, pending waits, the gate of connection establishment); idle
  HTTP/1 connections are kept for reuse, one HTTP/2 connection is shared.  The operations are the
  code between two suspension points; where a task waits, it is in a phase that says which permits it
  holds.  Which wake-up comes first, whether a connection is closed and how I/O ends are up to the
  environment.  Time-outs are wake-ups.
\<close>

section \<open>The state\<close>

text \<open>
  A \<open>ConnectionControl\<close> lives as long as its driver task or one of its other holders; its two permits
  are given back with it.  Connections are numbered in the order of their controls.
\<close>

record control =
  ctl_cancelled :: bool
  ctl_driver :: bool
  ctl_refs :: nat

definition live :: "control \<Rightarrow> bool" where
  "live c \<longleftrightarrow> ctl_driver c \<or> 0 < ctl_refs c"

record 's upstream_pool =
  up_config :: upstream_config
  up_tls_name :: "string option"
  up_connections :: 's
  up_global :: 's
  up_active :: 's
  up_pending :: 's
  up_gate :: 's
  up_idle :: "(instant \<times> nat) list"
  up_http2 :: "nat option"
  up_last_activity :: instant
  up_shutdown :: bool
  up_opened :: u64
  up_reused :: u64
  up_rejected :: u64
  up_controls :: "control list"

datatype pool_error = Pool_Overload | Pool_Failure string

text \<open>
  The certificate file of an upstream: how reading it, splitting it into certificates and adding
  those to the roots ended (how many were usable and how many were not).
\<close>

definition check_upstream_ca :: "path option \<Rightarrow> anyhow + (anyhow + nat \<times> nat) \<Rightarrow> anyhow + unit" where
  "check_upstream_ca ca_file outcome =
     (case ca_file of
        None \<Rightarrow> Inr ()
      | Some path \<Rightarrow>
          and_then (add_context (''cannot read upstream CA '' @ path) outcome) (\<lambda>certs.
          and_then certs (\<lambda>(added, ignored).
          if added = 0 \<or> ignored \<noteq> 0
          then bail ''upstream CA file must contain usable certificates only'' else Inr ())))"

definition pool_new ::
  "'s sem_lib \<Rightarrow> upstream_config \<Rightarrow> string \<Rightarrow> 's \<Rightarrow> anyhow + (anyhow + nat \<times> nat) \<Rightarrow> instant
   \<Rightarrow> anyhow + 's upstream_pool"
where
  "pool_new sem c host global ca now =
     (let tls_name =
        (if uc_tls c then
           Some (case uc_tls_server_name c of Request_Host \<Rightarrow> host | Literal name \<Rightarrow> name)
         else None)
      in and_then (if uc_tls c then check_upstream_ca (uc_ca_file c) ca else Inr ()) (\<lambda>_.
      Inr \<lparr> up_config = c, up_tls_name = tls_name,
            up_connections = sem_new sem (pc_max_connections (uc_pool c)), up_global = global,
            up_active = sem_new sem (pc_max_active_requests (uc_pool c)),
            up_pending = sem_new sem (pc_max_pending_requests (uc_pool c)),
            up_gate = sem_new sem 1, up_idle = [], up_http2 = None, up_last_activity = now,
            up_shutdown = False, up_opened = 0, up_reused = 0, up_rejected = 0,
            up_controls = [] \<rparr>))"

section \<open>Holders of a connection\<close>

definition update_control :: "nat \<Rightarrow> (control \<Rightarrow> control) \<Rightarrow> 's upstream_pool \<Rightarrow> 's upstream_pool" where
  "update_control i f p = p\<lparr>up_controls := (up_controls p)[i := f (up_controls p ! i)]\<rparr>"

definition release_connection :: "'s sem_lib \<Rightarrow> 's upstream_pool \<Rightarrow> 's upstream_pool" where
  "release_connection sem p =
     p\<lparr>up_connections := sem_release sem (up_connections p), up_global := sem_release sem (up_global p)\<rparr>"

text \<open>Dropping a reference, and the end of the driver; the last one gives the permits back.\<close>

definition drop_control :: "'s sem_lib \<Rightarrow> nat \<Rightarrow> 's upstream_pool \<Rightarrow> 's upstream_pool" where
  "drop_control sem i p =
     (let p = update_control i (\<lambda>c. c\<lparr>ctl_refs := ctl_refs c - 1\<rparr>) p in
      if live (up_controls p ! i) then p else release_connection sem p)"

definition end_driver :: "'s sem_lib \<Rightarrow> nat \<Rightarrow> 's upstream_pool \<Rightarrow> 's upstream_pool" where
  "end_driver sem i p =
     (let p = update_control i (\<lambda>c. c\<lparr>ctl_driver := False\<rparr>) p in
      if live (up_controls p ! i) then p else release_connection sem p)"

definition clone_control :: "nat \<Rightarrow> 's upstream_pool \<Rightarrow> 's upstream_pool" where
  "clone_control i = update_control i (\<lambda>c. c\<lparr>ctl_refs := ctl_refs c + 1\<rparr>)"

definition spawn_driver :: "nat \<Rightarrow> 's upstream_pool \<Rightarrow> 's upstream_pool" where
  "spawn_driver i = update_control i (\<lambda>c. c\<lparr>ctl_driver := True\<rparr>)"

text \<open>\<open>Http1Connection::drop\<close> and \<open>Http2Connection::drop\<close>: the driver is told to stop.\<close>

definition drop_connection :: "'s sem_lib \<Rightarrow> nat \<Rightarrow> 's upstream_pool \<Rightarrow> 's upstream_pool" where
  "drop_connection sem i p =
     drop_control sem i (update_control i (\<lambda>c. c\<lparr>ctl_cancelled := True\<rparr>) p)"

definition drop_connections :: "'s sem_lib \<Rightarrow> nat list \<Rightarrow> 's upstream_pool \<Rightarrow> 's upstream_pool" where
  "drop_connections sem is p = fold (drop_connection sem) is p"

section \<open>Exchanges and capacity\<close>

definition record_activity :: "instant \<Rightarrow> 's upstream_pool \<Rightarrow> 's upstream_pool" where
  "record_activity now p = p\<lparr>up_last_activity := now\<rparr>"

definition begin_exchange ::
  "'s sem_lib \<Rightarrow> instant \<Rightarrow> 's upstream_pool \<Rightarrow> (pool_error + unit) \<times> 's upstream_pool"
where
  "begin_exchange sem now p =
     (if up_shutdown p then (Inl (Pool_Failure ''HTTP proxy shutting down''), p) else
      (case sem_try_acquire sem (up_active p) of
         None \<Rightarrow> (Inl Pool_Overload, p\<lparr>up_rejected := up_rejected p + 1\<rparr>)
       | Some s \<Rightarrow> (Inr (), record_activity now (p\<lparr>up_active := s\<rparr>))))"

text \<open>
  \<open>acquire_capacity\<close> of one of the semaphores: granted at once, or refused, or the task waits with a
  pending permit.
\<close>

datatype capacity = Granted | Queued | Refused pool_error

type_synonym 's pool_sem =
  "('s upstream_pool \<Rightarrow> 's) \<times> (('s \<Rightarrow> 's) \<Rightarrow> 's upstream_pool \<Rightarrow> 's upstream_pool)"

definition global_sem :: "'s pool_sem" where "global_sem = (up_global, up_global_update)"
definition connections_sem :: "'s pool_sem" where
  "connections_sem = (up_connections, up_connections_update)"
definition gate_sem :: "'s pool_sem" where "gate_sem = (up_gate, up_gate_update)"

definition take_pending :: "'s sem_lib \<Rightarrow> 's upstream_pool \<Rightarrow> 's upstream_pool option" where
  "take_pending sem p = map_option (\<lambda>s. p\<lparr>up_pending := s\<rparr>) (sem_try_acquire sem (up_pending p))"

definition release_pending :: "'s sem_lib \<Rightarrow> 's upstream_pool \<Rightarrow> 's upstream_pool" where
  "release_pending sem p = p\<lparr>up_pending := sem_release sem (up_pending p)\<rparr>"

definition take_permit ::
  "'s sem_lib \<Rightarrow> 's pool_sem \<Rightarrow> 's upstream_pool \<Rightarrow> 's upstream_pool option"
where
  "take_permit sem = (\<lambda>(get, update) p.
     map_option (\<lambda>s. update (\<lambda>_. s) p) (sem_try_acquire sem (get p)))"

definition acquire_capacity ::
  "'s sem_lib \<Rightarrow> 's pool_sem \<Rightarrow> 's upstream_pool \<Rightarrow> capacity \<times> 's upstream_pool"
where
  "acquire_capacity sem which p =
     (case take_permit sem which p of
        Some p' \<Rightarrow> (Granted, p')
      | None \<Rightarrow>
          (case take_pending sem p of
             None \<Rightarrow> (Refused Pool_Overload, p)
           | Some p' \<Rightarrow> (Queued, p')))"

datatype wake = Shutdown_Seen | Timed_Out | Woken

definition await_capacity ::
  "'s sem_lib \<Rightarrow> 's pool_sem \<Rightarrow> wake \<Rightarrow> 's upstream_pool \<Rightarrow> capacity \<times> 's upstream_pool"
where
  "await_capacity sem which w p =
     (case w of
        Shutdown_Seen \<Rightarrow>
          (Refused (Pool_Failure ''HTTP proxy shutting down''), release_pending sem p)
      | Timed_Out \<Rightarrow> (Refused Pool_Overload, release_pending sem p)
      | Woken \<Rightarrow>
          (case take_permit sem which p of
             None \<Rightarrow> (Queued, p)
           | Some p' \<Rightarrow> (Granted, release_pending sem p')))"

section \<open>Establishing a connection\<close>

text \<open>With both permits the control is made; then come TCP and TLS, then the handshake of HTTP.\<close>

definition new_control :: "'s upstream_pool \<Rightarrow> nat \<times> 's upstream_pool" where
  "new_control p =
     (length (up_controls p),
      p\<lparr>up_controls := up_controls p @ [\<lparr> ctl_cancelled = False, ctl_driver = False, ctl_refs = 1 \<rparr>]\<rparr>)"

text \<open>
  How the transport came up: an error of TCP or TLS, the shutdown, the time-out, or a stream with the
  protocol TLS negotiated.
\<close>

datatype transport = Transport_Error string | Transport_Ready "string option"

definition connect_finish ::
  "'s sem_lib \<Rightarrow> transport \<Rightarrow> nat \<Rightarrow> 's upstream_pool \<Rightarrow> (pool_error + unit) \<times> 's upstream_pool"
where
  "connect_finish sem t i p =
     (case t of
        Transport_Error e \<Rightarrow> (Inl (Pool_Failure e), drop_control sem i p)
      | Transport_Ready alpn \<Rightarrow>
          if uc_tls (up_config p) \<and> uc_protocol (up_config p) = Proto_Http2 \<and> alpn \<noteq> Some ''h2''
          then (Inl (Pool_Failure ''HTTP/2 TLS upstream did not negotiate h2''), drop_control sem i p)
          else (Inr (), p\<lparr>up_opened := up_opened p + 1\<rparr>))"

section \<open>HTTP/1 connections\<close>

text \<open>
  The most recently returned idle connection is at the head.  Connections that are too old or closed
  are dropped on the way.
\<close>

fun pop_idle ::
  "(nat \<Rightarrow> bool) \<Rightarrow> duration \<Rightarrow> instant \<Rightarrow> (instant \<times> nat) list
   \<Rightarrow> nat option \<times> (instant \<times> nat) list \<times> nat list"
where
  "pop_idle closed idle_timeout now [] = (None, [], [])"
| "pop_idle closed idle_timeout now ((since, i) # rest) =
     (if now - since < idle_timeout \<and> \<not> closed i then (Some i, rest, [])
      else (case pop_idle closed idle_timeout now rest of
              (found, rest, dropped) \<Rightarrow> (found, rest, i # dropped)))"

definition take_idle_http1 ::
  "'s sem_lib \<Rightarrow> (nat \<Rightarrow> bool) \<Rightarrow> instant \<Rightarrow> 's upstream_pool \<Rightarrow> nat option \<times> 's upstream_pool"
where
  "take_idle_http1 sem closed now p =
     (case pop_idle closed (pc_idle_timeout (uc_pool (up_config p))) now (up_idle p) of
        (found, rest, dropped) \<Rightarrow>
          (found, drop_connections sem dropped
             (p\<lparr>up_idle := rest,
                up_reused := up_reused p + (if found = None then 0 else 1)\<rparr>)))"

text \<open>
  The phases of \<open>acquire_http1\<close> and \<open>connect\<close>.  With a pending permit the task is about to look at
  the idle list again (\<open>A1_Check\<close>) or waits for a connection or a permit (\<open>A1_Select\<close>); then it holds
  a local permit, while it waits for a global one also a pending permit, and finally the control of
  the connection that is being established.
\<close>

datatype acquire1 =
    A1_Start
  | A1_Check
  | A1_Select
  | A1_Local
  | A1_Global_Wait
  | A1_Connect nat
  | A1_Handshake nat
  | A1_Ready nat
  | A1_Failed pool_error

definition acquire1_start ::
  "'s sem_lib \<Rightarrow> (nat \<Rightarrow> bool) \<Rightarrow> instant \<Rightarrow> 's upstream_pool \<Rightarrow> acquire1 \<times> 's upstream_pool"
where
  "acquire1_start sem closed now p =
     (case take_idle_http1 sem closed now p of
        (Some i, p) \<Rightarrow> (A1_Ready i, p)
      | (None, p) \<Rightarrow>
          (case take_permit sem connections_sem p of
             Some p \<Rightarrow> (A1_Local, p)
           | None \<Rightarrow>
               (case take_pending sem p of
                  None \<Rightarrow> (A1_Failed Pool_Overload, p)
                | Some p \<Rightarrow> (A1_Check, p))))"

definition acquire1_check ::
  "'s sem_lib \<Rightarrow> (nat \<Rightarrow> bool) \<Rightarrow> instant \<Rightarrow> 's upstream_pool \<Rightarrow> acquire1 \<times> 's upstream_pool"
where
  "acquire1_check sem closed now p =
     (case take_idle_http1 sem closed now p of
        (Some i, p) \<Rightarrow> (A1_Ready i, release_pending sem p)
      | (None, p) \<Rightarrow> (A1_Select, p))"

text \<open>What ends the wait: a notification from the idle list, or one of the wake-ups of a semaphore.\<close>

datatype idle_wake = Notified | Connection_Wake wake

definition acquire1_select ::
  "'s sem_lib \<Rightarrow> idle_wake \<Rightarrow> 's upstream_pool \<Rightarrow> acquire1 \<times> 's upstream_pool"
where
  "acquire1_select sem w p =
     (case w of
        Notified \<Rightarrow> (A1_Check, p)
      | Connection_Wake w \<Rightarrow>
          (case await_capacity sem connections_sem w p of
             (Granted, p) \<Rightarrow> (A1_Local, p)
           | (Queued, p) \<Rightarrow> (A1_Select, p)
           | (Refused e, p) \<Rightarrow> (A1_Failed e, p)))"

text \<open>\<open>connect\<close> with a reserved local permit, which is dropped when the global one is refused.\<close>

definition release_local :: "'s sem_lib \<Rightarrow> 's upstream_pool \<Rightarrow> 's upstream_pool" where
  "release_local sem p = p\<lparr>up_connections := sem_release sem (up_connections p)\<rparr>"

definition acquire1_global ::
  "'s sem_lib \<Rightarrow> capacity \<times> 's upstream_pool \<Rightarrow> acquire1 \<times> 's upstream_pool"
where
  "acquire1_global sem = (\<lambda>(result, p).
     case result of
       Granted \<Rightarrow> (case new_control p of (i, p) \<Rightarrow> (A1_Connect i, p))
     | Queued \<Rightarrow> (A1_Global_Wait, p)
     | Refused e \<Rightarrow> (A1_Failed e, release_local sem p))"

definition acquire1_connect ::
  "'s sem_lib \<Rightarrow> transport \<Rightarrow> nat \<Rightarrow> 's upstream_pool \<Rightarrow> acquire1 \<times> 's upstream_pool"
where
  "acquire1_connect sem t i p =
     (case connect_finish sem t i p of
        (Inl e, p) \<Rightarrow> (A1_Failed e, p)
      | (Inr _, p) \<Rightarrow> (A1_Handshake i, p))"

definition acquire1_handshake ::
  "'s sem_lib \<Rightarrow> string + unit \<Rightarrow> nat \<Rightarrow> 's upstream_pool \<Rightarrow> acquire1 \<times> 's upstream_pool"
where
  "acquire1_handshake sem result i p =
     (case result of
        Inl e \<Rightarrow> (A1_Failed (Pool_Failure e), drop_control sem i p)
      | Inr _ \<Rightarrow> (A1_Ready i, spawn_driver i p))"

text \<open>\<open>wait_http1_ready\<close>: a connection that is not ready is waited for with a pending permit.\<close>

definition ready_start ::
  "'s sem_lib \<Rightarrow> bool \<Rightarrow> 's upstream_pool \<Rightarrow> (pool_error + bool) \<times> 's upstream_pool"
where
  "ready_start sem ready p =
     (if ready then (Inr False, p)
      else (case take_pending sem p of
              None \<Rightarrow> (Inl Pool_Overload, p)
            | Some p \<Rightarrow> (Inr True, p)))"

definition ready_finish ::
  "'s sem_lib \<Rightarrow> bool \<Rightarrow> pool_error + unit \<Rightarrow> 's upstream_pool \<Rightarrow> (pool_error + unit) \<times> 's upstream_pool"
where
  "ready_finish sem pending result p =
     (result, if pending then release_pending sem p else p)"

section \<open>The HTTP/2 connection\<close>

definition drop_http2 :: "'s sem_lib \<Rightarrow> 's upstream_pool \<Rightarrow> 's upstream_pool" where
  "drop_http2 sem p =
     (case up_http2 p of None \<Rightarrow> p | Some i \<Rightarrow> drop_connection sem i (p\<lparr>up_http2 := None\<rparr>))"

text \<open>The connection of the slot with a reference for the caller; a closed one is dropped first.\<close>

definition current_http2 ::
  "'s sem_lib \<Rightarrow> (nat \<Rightarrow> bool) \<Rightarrow> 's upstream_pool \<Rightarrow> nat option \<times> 's upstream_pool"
where
  "current_http2 sem closed p =
     (let p = (if (case up_http2 p of None \<Rightarrow> False | Some i \<Rightarrow> closed i) then drop_http2 sem p else p) in
      (up_http2 p, case up_http2 p of None \<Rightarrow> p | Some i \<Rightarrow> clone_control i p))"

text \<open>
  The phases of \<open>acquire_http2\<close>: waiting for the gate, behind the gate, waiting for or holding a local
  permit, waiting for a global one, establishing the connection.
\<close>

datatype acquire2 =
    A2_Start
  | A2_Gate_Wait
  | A2_Gated
  | A2_Local_Wait
  | A2_Local
  | A2_Global_Wait
  | A2_Connect nat
  | A2_Handshake nat
  | A2_Ready nat
  | A2_Failed pool_error

definition release_gate :: "'s sem_lib \<Rightarrow> 's upstream_pool \<Rightarrow> 's upstream_pool" where
  "release_gate sem p = p\<lparr>up_gate := sem_release sem (up_gate p)\<rparr>"

definition count_reused :: "'s upstream_pool \<Rightarrow> 's upstream_pool" where
  "count_reused p = p\<lparr>up_reused := up_reused p + 1\<rparr>"

definition acquire2_start ::
  "'s sem_lib \<Rightarrow> (nat \<Rightarrow> bool) \<Rightarrow> 's upstream_pool \<Rightarrow> acquire2 \<times> 's upstream_pool"
where
  "acquire2_start sem closed p =
     (case current_http2 sem closed p of
        (Some i, p) \<Rightarrow> (A2_Ready i, count_reused p)
      | (None, p) \<Rightarrow>
          (case acquire_capacity sem gate_sem p of
             (Granted, p) \<Rightarrow> (A2_Gated, p)
           | (Queued, p) \<Rightarrow> (A2_Gate_Wait, p)
           | (Refused e, p) \<Rightarrow> (A2_Failed e, p)))"

definition acquire2_gate ::
  "'s sem_lib \<Rightarrow> wake \<Rightarrow> 's upstream_pool \<Rightarrow> acquire2 \<times> 's upstream_pool"
where
  "acquire2_gate sem w p =
     (case await_capacity sem gate_sem w p of
        (Granted, p) \<Rightarrow> (A2_Gated, p)
      | (Queued, p) \<Rightarrow> (A2_Gate_Wait, p)
      | (Refused e, p) \<Rightarrow> (A2_Failed e, p))"

definition acquire2_local ::
  "'s sem_lib \<Rightarrow> capacity \<times> 's upstream_pool \<Rightarrow> acquire2 \<times> 's upstream_pool"
where
  "acquire2_local sem = (\<lambda>(result, p).
     case result of
       Granted \<Rightarrow> (A2_Local, p)
     | Queued \<Rightarrow> (A2_Local_Wait, p)
     | Refused e \<Rightarrow> (A2_Failed e, release_gate sem p))"

definition acquire2_gated ::
  "'s sem_lib \<Rightarrow> (nat \<Rightarrow> bool) \<Rightarrow> 's upstream_pool \<Rightarrow> acquire2 \<times> 's upstream_pool"
where
  "acquire2_gated sem closed p =
     (case current_http2 sem closed p of
        (Some i, p) \<Rightarrow> (A2_Ready i, release_gate sem (count_reused p))
      | (None, p) \<Rightarrow> acquire2_local sem (acquire_capacity sem connections_sem p))"

definition acquire2_global ::
  "'s sem_lib \<Rightarrow> capacity \<times> 's upstream_pool \<Rightarrow> acquire2 \<times> 's upstream_pool"
where
  "acquire2_global sem = (\<lambda>(result, p).
     case result of
       Granted \<Rightarrow> (case new_control p of (i, p) \<Rightarrow> (A2_Connect i, p))
     | Queued \<Rightarrow> (A2_Global_Wait, p)
     | Refused e \<Rightarrow> (A2_Failed e, release_gate sem (release_local sem p)))"

definition acquire2_connect ::
  "'s sem_lib \<Rightarrow> transport \<Rightarrow> nat \<Rightarrow> 's upstream_pool \<Rightarrow> acquire2 \<times> 's upstream_pool"
where
  "acquire2_connect sem t i p =
     (case connect_finish sem t i p of
        (Inl e, p) \<Rightarrow> (A2_Failed e, release_gate sem p)
      | (Inr _, p) \<Rightarrow> (A2_Handshake i, p))"

definition acquire2_handshake ::
  "'s sem_lib \<Rightarrow> string + unit \<Rightarrow> nat \<Rightarrow> 's upstream_pool \<Rightarrow> acquire2 \<times> 's upstream_pool"
where
  "acquire2_handshake sem result i p =
     (case result of
        Inl e \<Rightarrow> (A2_Failed (Pool_Failure e), release_gate sem (drop_control sem i p))
      | Inr _ \<Rightarrow>
          (A2_Ready i, release_gate sem
             ((drop_http2 sem (clone_control i (spawn_driver i p)))\<lparr>up_http2 := Some i\<rparr>)))"

section \<open>Idle connections\<close>

definition return_http1 ::
  "'s sem_lib \<Rightarrow> (nat \<Rightarrow> bool) \<Rightarrow> instant \<Rightarrow> nat \<Rightarrow> 's upstream_pool \<Rightarrow> 's upstream_pool"
where
  "return_http1 sem closed now i p =
     (let p = record_activity now p in
      if up_shutdown p \<or> closed i then drop_connection sem i p
      else if length (up_idle p) < pc_max_idle_connections (uc_pool (up_config p))
      then p\<lparr>up_idle := (now, i) # up_idle p\<rparr>
      else drop_connection sem i p)"

definition reap_idle ::
  "'s sem_lib \<Rightarrow> (nat \<Rightarrow> bool) \<Rightarrow> instant \<Rightarrow> 's upstream_pool \<Rightarrow> 's upstream_pool"
where
  "reap_idle sem closed now p =
     (let idle_timeout = pc_idle_timeout (uc_pool (up_config p));
          retained = (\<lambda>(since, i). \<not> up_shutdown p \<and> now - since < idle_timeout \<and> \<not> closed i);
          dropped = map snd (filter (\<lambda>x. \<not> retained x) (up_idle p));
          p = drop_connections sem dropped (p\<lparr>up_idle := filter retained (up_idle p)\<rparr>);
          idle_expired = (idle_timeout \<le> now - up_last_activity p)
      in if up_shutdown p \<or>
            sem_available sem (up_active p) = pc_max_active_requests (uc_pool (up_config p)) \<and>
            (idle_expired \<or> pc_max_idle_connections (uc_pool (up_config p)) = 0)
         then drop_http2 sem p else p)"

section \<open>Bodies\<close>

text \<open>
  An exchange is shared by the upload body and the response body; its active permit is given back
  when both are gone.
\<close>

datatype 'a poll = Pending | Ready 'a

record lease =
  ls_upload_complete :: bool
  ls_cancelled :: bool

definition sanitize_frame ::
  "('h, 'm) http_lib_scheme \<Rightarrow> string set option \<Rightarrow> (string + 'h body_frame) option
   \<Rightarrow> (string + 'h body_frame) option"
where
  "sanitize_frame lib declared =
     map_option (\<lambda>result. and_then result (sanitize_stream_frame lib declared))"

definition frame_error :: "(string + 'h body_frame) option \<Rightarrow> bool" where
  "frame_error frame = (case frame of Some (Inl e) \<Rightarrow> True | _ \<Rightarrow> False)"

definition upload_poll ::
  "('h, 'm) http_lib_scheme \<Rightarrow> string set option \<Rightarrow> bool \<Rightarrow> (string + 'h body_frame) option poll
   \<Rightarrow> bool \<Rightarrow> bool \<Rightarrow> lease \<Rightarrow> (string + 'h body_frame) option poll \<times> lease"
where
  "upload_poll lib declared shutdown inner end_stream expired ls =
     (if ls_cancelled ls \<or> shutdown then (Ready (Some (Inl ''HTTP upload cancelled'')), ls) else
      (case inner of
         Ready frame \<Rightarrow>
           let frame = sanitize_frame lib declared frame in
           (Ready frame,
            if frame = None \<or> (\<not> frame_error frame \<and> end_stream)
            then ls\<lparr>ls_upload_complete := True\<rparr> else ls)
       | Pending \<Rightarrow>
           if expired
           then (Ready (Some (Inl ''HTTP upload idle timeout'')), ls\<lparr>ls_cancelled := True\<rparr>)
           else (Pending, ls)))"

record response_body =
  rb_http1 :: "nat option"
  rb_http2 :: "nat option"
  rb_healthy :: bool

definition finish_http1 ::
  "'s sem_lib \<Rightarrow> (nat \<Rightarrow> bool) \<Rightarrow> instant \<Rightarrow> bool \<Rightarrow> lease \<Rightarrow> response_body \<times> 's upstream_pool
   \<Rightarrow> response_body \<times> 's upstream_pool"
where
  "finish_http1 sem closed now end_stream ls = (\<lambda>(body, p).
     (body\<lparr>rb_http1 := None\<rparr>,
      record_activity now
        (case rb_http1 body of
           None \<Rightarrow> p
         | Some i \<Rightarrow>
             if rb_healthy body \<and> end_stream \<and> ls_upload_complete ls
             then return_http1 sem closed now i p else drop_connection sem i p)))"

definition response_poll ::
  "('h, 'm) http_lib_scheme \<Rightarrow> 's sem_lib \<Rightarrow> string set option \<Rightarrow> (nat \<Rightarrow> bool) \<Rightarrow> instant
   \<Rightarrow> (string + 'h body_frame) option poll \<Rightarrow> bool \<Rightarrow> bool \<Rightarrow> response_body \<times> lease \<times> 's upstream_pool
   \<Rightarrow> (string + 'h body_frame) option poll \<times> response_body \<times> lease \<times> 's upstream_pool"
where
  "response_poll lib sem declared closed now inner end_stream expired = (\<lambda>(body, ls, p).
     case inner of
       Ready frame \<Rightarrow>
         let frame = sanitize_frame lib declared frame;
             body = (if frame_error frame then body\<lparr>rb_healthy := False\<rparr> else body);
             (body, p) = (if frame = None \<or> end_stream
                          then finish_http1 sem closed now end_stream ls (body, p) else (body, p))
         in (Ready frame, body, ls, p)
     | Pending \<Rightarrow>
         if expired then
           (Ready (Some (Inl ''HTTP response idle timeout'')),
            body\<lparr>rb_healthy := False, rb_http1 := None\<rparr>, ls\<lparr>ls_cancelled := True\<rparr>,
            case rb_http1 body of None \<Rightarrow> p | Some i \<Rightarrow> drop_connection sem i p)
         else (Pending, body, ls, p))"

text \<open>Dropping the response body ends the exchange for the response side.\<close>

definition response_drop ::
  "'s sem_lib \<Rightarrow> (nat \<Rightarrow> bool) \<Rightarrow> instant \<Rightarrow> bool \<Rightarrow> response_body \<times> lease \<times> 's upstream_pool
   \<Rightarrow> lease \<times> 's upstream_pool"
where
  "response_drop sem closed now end_stream = (\<lambda>(body, ls, p).
     case finish_http1 sem closed now end_stream ls (body, p) of
       (body, p) \<Rightarrow>
         (ls\<lparr>ls_cancelled := True\<rparr>,
          case rb_http2 body of None \<Rightarrow> p | Some i \<Rightarrow> drop_control sem i p))"

text \<open>The hint of both bodies: nothing is promised when the body is sent in chunks.\<close>

definition body_size_hint :: "bool \<Rightarrow> 'hint \<Rightarrow> 'hint \<Rightarrow> 'hint" where
  "body_size_hint force_chunked default_hint inner = (if force_chunked then default_hint else inner)"

end
