(* ===== verification/Pool_Accounts.thy ===== *)
theory Pool_Accounts
  imports Upstream_Pool
begin

text \<open>
  The books of an upstream pool: which permits and references the tasks around it hold.  \<open>pool_ok\<close>
  balances them with what the pool itself has; every operation of \<open>Upstream_Pool\<close> moves entries
  between the two sides and keeps the balance, so its lemma holds beside any other tasks.
\<close>

section \<open>Counting\<close>

definition lives :: "'s upstream_pool \<Rightarrow> nat" where
  "lives p = length (filter live (up_controls p))"

definition slot_refs :: "nat option \<Rightarrow> nat multiset" where
  "slot_refs slot = (case slot of None \<Rightarrow> {#} | Some i \<Rightarrow> {#i#})"

lemma slot_refs_simps [simp]: "slot_refs None = {#}" "slot_refs (Some i) = {#i#}"
  by (simp_all add: slot_refs_def)

text \<open>The references the pool holds itself, by its idle list and its HTTP/2 connection.\<close>

definition pool_refs :: "'s upstream_pool \<Rightarrow> nat multiset" where
  "pool_refs p = mset (map snd (up_idle p)) + slot_refs (up_http2 p)"

text \<open>
  The references the tasks hold (\<open>held\<close>) and those of the pool are exactly those the controls count;
  without HTTP/2 nothing is shared.
\<close>

definition refs_ok :: "nat multiset \<Rightarrow> 's upstream_pool \<Rightarrow> bool" where
  "refs_ok held p \<longleftrightarrow>
     set_mset (held + pool_refs p) \<subseteq> {..<length (up_controls p)} \<and>
     (\<forall>i < length (up_controls p). ctl_refs (up_controls p ! i) = count (held + pool_refs p) i) \<and>
     (uc_protocol (up_config p) = Proto_Http1 \<longrightarrow> (\<forall>i. count (held + pool_refs p) i \<le> 1))"

text \<open>
  The balance.  \<open>most\<close> is the configuration of the pool with the size of the global semaphore, \<open>others\<close>
  counts the global permits that belong to no control of this pool.
\<close>

definition pool_ok ::
  "'s sem_lib \<Rightarrow> upstream_config \<times> nat \<Rightarrow> nat \<Rightarrow> nat \<Rightarrow> nat \<Rightarrow> nat \<Rightarrow> nat \<Rightarrow> nat multiset \<Rightarrow> 's upstream_pool \<Rightarrow> bool"
where
  "pool_ok sem most others pending local gate active held p \<longleftrightarrow>
     (let limits = uc_pool (fst most) in
      up_config p = fst most \<and>
      sem_available sem (up_pending p) + pending = pc_max_pending_requests limits \<and>
      sem_available sem (up_connections p) + local + lives p = pc_max_connections limits \<and>
      sem_available sem (up_global p) + others + lives p = snd most \<and>
      sem_available sem (up_gate p) + gate = 1 \<and>
      sem_available sem (up_active p) + active = pc_max_active_requests limits \<and>
      length (up_idle p) \<le> pc_max_idle_connections limits \<and>
      refs_ok held p)"

lemmas account_defs = pool_ok_def Let_def refs_ok_def lives_def pool_refs_def

text \<open>The semaphores and counters have nothing to do with the references.\<close>

lemma refs_update [simp]:
  "pool_refs (p\<lparr>up_pending := a0\<rparr>) = pool_refs p" "lives (p\<lparr>up_pending := a0\<rparr>) = lives p"
  "refs_ok held (p\<lparr>up_pending := a0\<rparr>) = refs_ok held p"
  "pool_refs (p\<lparr>up_connections := a1\<rparr>) = pool_refs p" "lives (p\<lparr>up_connections := a1\<rparr>) = lives p"
  "refs_ok held (p\<lparr>up_connections := a1\<rparr>) = refs_ok held p"
  "pool_refs (p\<lparr>up_global := a2\<rparr>) = pool_refs p" "lives (p\<lparr>up_global := a2\<rparr>) = lives p"
  "refs_ok held (p\<lparr>up_global := a2\<rparr>) = refs_ok held p"
  "pool_refs (p\<lparr>up_gate := a3\<rparr>) = pool_refs p" "lives (p\<lparr>up_gate := a3\<rparr>) = lives p"
  "refs_ok held (p\<lparr>up_gate := a3\<rparr>) = refs_ok held p"
  "pool_refs (p\<lparr>up_active := a4\<rparr>) = pool_refs p" "lives (p\<lparr>up_active := a4\<rparr>) = lives p"
  "refs_ok held (p\<lparr>up_active := a4\<rparr>) = refs_ok held p"
  "pool_refs (p\<lparr>up_reused := a5\<rparr>) = pool_refs p" "lives (p\<lparr>up_reused := a5\<rparr>) = lives p"
  "refs_ok held (p\<lparr>up_reused := a5\<rparr>) = refs_ok held p"
  "pool_refs (p\<lparr>up_opened := a6\<rparr>) = pool_refs p" "lives (p\<lparr>up_opened := a6\<rparr>) = lives p"
  "refs_ok held (p\<lparr>up_opened := a6\<rparr>) = refs_ok held p"
  "pool_refs (p\<lparr>up_rejected := a7\<rparr>) = pool_refs p" "lives (p\<lparr>up_rejected := a7\<rparr>) = lives p"
  "refs_ok held (p\<lparr>up_rejected := a7\<rparr>) = refs_ok held p"
  "pool_refs (p\<lparr>up_shutdown := a8\<rparr>) = pool_refs p" "lives (p\<lparr>up_shutdown := a8\<rparr>) = lives p"
  "refs_ok held (p\<lparr>up_shutdown := a8\<rparr>) = refs_ok held p"
  "pool_refs (p\<lparr>up_last_activity := a9\<rparr>) = pool_refs p" "lives (p\<lparr>up_last_activity := a9\<rparr>) = lives p"
  "refs_ok held (p\<lparr>up_last_activity := a9\<rparr>) = refs_ok held p"
  by (simp_all add: pool_refs_def lives_def refs_ok_def)

lemma refs_ok_member:
  assumes "refs_ok held p" "i \<in># held"
  shows "i < length (up_controls p)" "1 \<le> ctl_refs (up_controls p ! i)"
proof -
  show i: "i < length (up_controls p)"
    using assms by (auto simp: refs_ok_def)
  have "ctl_refs (up_controls p ! i) = count held i + count (pool_refs p) i"
    using assms(1) i by (simp add: refs_ok_def)
  moreover have "0 < count held i" using assms(2) by (simp only: count_greater_zero_iff)
  ultimately show "1 \<le> ctl_refs (up_controls p ! i)" by linarith
qed

lemma refs_ok_unshared:
  assumes "refs_ok held p" "uc_protocol (up_config p) = Proto_Http1"
  shows "count held i + count (pool_refs p) i \<le> 1"
    and "i < length (up_controls p) \<Longrightarrow> ctl_refs (up_controls p ! i) \<le> 1"
  using assms by (simp_all add: refs_ok_def)

text \<open>References that move between the pool and its tasks.\<close>

lemma pool_ok_regroup:
  assumes "pool_ok sem most others pn lc gt ac held p"
    and "held' + pool_refs p' = held + pool_refs p"
    and "length (up_idle p') \<le> pc_max_idle_connections (uc_pool (up_config p))"
    and "up_config p' = up_config p" "up_connections p' = up_connections p" "up_global p' = up_global p"
    "up_active p' = up_active p" "up_pending p' = up_pending p" "up_gate p' = up_gate p"
    "up_controls p' = up_controls p"
  shows "pool_ok sem most others pn lc gt ac held' p'"
proof -
  have "refs_ok held' p' = refs_ok held p"
    unfolding refs_ok_def assms(2,4,10) ..
  with assms(1,3) show ?thesis by (simp add: pool_ok_def Let_def lives_def assms(4-10))
qed

text \<open>A pool that only changed in parts the books do not look at.\<close>

lemma pool_ok_cong:
  assumes "up_config p' = up_config p" "up_connections p' = up_connections p" "up_global p' = up_global p"
    "up_active p' = up_active p" "up_pending p' = up_pending p" "up_gate p' = up_gate p"
    "up_idle p' = up_idle p" "up_http2 p' = up_http2 p" "up_controls p' = up_controls p"
  shows "pool_ok sem most others pn lc gt ac held p' = pool_ok sem most others pn lc gt ac held p"
  by (simp add: account_defs assms)

lemma pool_ok_counters [simp]:
  "pool_ok sem most ot pn lc gt ac held (p\<lparr>up_reused := a\<rparr>) = pool_ok sem most ot pn lc gt ac held p"
  "pool_ok sem most ot pn lc gt ac held (p\<lparr>up_opened := a\<rparr>) = pool_ok sem most ot pn lc gt ac held p"
  "pool_ok sem most ot pn lc gt ac held (p\<lparr>up_rejected := a\<rparr>) = pool_ok sem most ot pn lc gt ac held p"
  "pool_ok sem most ot pn lc gt ac held (record_activity now p) = pool_ok sem most ot pn lc gt ac held p"
  "pool_ok sem most ot pn lc gt ac held (count_reused p) = pool_ok sem most ot pn lc gt ac held p"
  "pool_ok sem most ot pn lc gt ac held (p\<lparr>up_shutdown := b\<rparr>) = pool_ok sem most ot pn lc gt ac held p"
  by (rule pool_ok_cong; simp add: record_activity_def count_reused_def)+

section \<open>Controls\<close>

text \<open>Changing one control: what happens to the number of live ones.\<close>

lemma lives_update:
  assumes "i < length (up_controls p)"
  shows "lives (update_control i f p) + (if live (up_controls p ! i) then 1 else 0) =
     lives p + (if live (f (up_controls p ! i)) then 1 else 0)"
  using filter_length_update [OF assms, of live "f (up_controls p ! i)"]
  by (simp add: lives_def update_control_def)

lemma update_control_sel [simp]:
  "up_config (update_control i f p) = up_config p"
  "up_connections (update_control i f p) = up_connections p"
  "up_global (update_control i f p) = up_global p" "up_active (update_control i f p) = up_active p"
  "up_pending (update_control i f p) = up_pending p" "up_gate (update_control i f p) = up_gate p"
  "up_idle (update_control i f p) = up_idle p" "up_http2 (update_control i f p) = up_http2 p"
  "up_controls (update_control i f p) = (up_controls p)[i := f (up_controls p ! i)]"
  "pool_refs (update_control i f p) = pool_refs p" "up_shutdown (update_control i f p) = up_shutdown p"
  "up_reused (update_control i f p) = up_reused p"
  by (simp_all add: update_control_def pool_refs_def)

text \<open>A change of a control that keeps its count and its being alive.\<close>

lemma pool_ok_update_control:
  assumes "pool_ok sem most ot pn lc gt ac held p" "i < length (up_controls p)"
    and "live (f (up_controls p ! i)) = live (up_controls p ! i)"
    and "ctl_refs (f (up_controls p ! i)) = ctl_refs (up_controls p ! i)"
  shows "pool_ok sem most ot pn lc gt ac held (update_control i f p)"
proof -
  have "lives (update_control i f p) = lives p"
    using lives_update [OF assms(2), of f] assms(3) by (simp split: if_splits)
  then show ?thesis
    using assms by (simp add: pool_ok_def Let_def refs_ok_def nth_list_update)
qed

lemma pool_ok_cancel:
  assumes "pool_ok sem most ot pn lc gt ac held p" "i < length (up_controls p)"
  shows "pool_ok sem most ot pn lc gt ac held (update_control i (\<lambda>c. c\<lparr>ctl_cancelled := True\<rparr>) p)"
  by (rule pool_ok_update_control [OF assms]) (simp_all add: live_def)

lemma pool_ok_spawn_driver:
  assumes "pool_ok sem most ot pn lc gt ac held p" "i \<in># held"
  shows "pool_ok sem most ot pn lc gt ac held (spawn_driver i p)"
proof -
  have "refs_ok held p" using assms(1) by (simp add: pool_ok_def Let_def)
  note m = refs_ok_member [OF this assms(2)]
  show ?thesis
    unfolding spawn_driver_def by (rule pool_ok_update_control [OF assms(1) m(1)]) (use m(2) in \<open>simp_all add: live_def\<close>)
qed

text \<open>A reference that is counted is moved from or to the tasks.\<close>

lemma refs_ok_recount:
  assumes "refs_ok held p" "i < length (up_controls p)"
    and "ctl_refs c = count (held' + pool_refs p) i" "\<And>j. j \<noteq> i \<Longrightarrow> count held' j = count held j"
    and "uc_protocol (up_config p) = Proto_Http1 \<Longrightarrow> ctl_refs c \<le> 1"
  shows "refs_ok held' (p\<lparr>up_controls := (up_controls p)[i := c]\<rparr>)"
proof -
  have refs: "pool_refs (p\<lparr>up_controls := (up_controls p)[i := c]\<rparr>) = pool_refs p"
    by (simp add: pool_refs_def)
  have "set_mset held' \<subseteq> insert i (set_mset held)"
    using assms(4) by (metis count_eq_zero_iff insertCI subsetI)
  moreover have "count (held' + pool_refs p) j \<le> 1" if "uc_protocol (up_config p) = Proto_Http1" for j
    using refs_ok_unshared(1) [OF assms(1) that, of j] assms(3,4,5) that by (cases "j = i") auto
  ultimately show ?thesis
    using assms(1-4) unfolding refs_ok_def refs
    by (auto simp: nth_list_update)
qed

context semaphore
begin

lemma release_connection_simps [simp]:
  "sem_available sem (up_connections (release_connection sem p)) = Suc (sem_available sem (up_connections p))"
  "sem_available sem (up_global (release_connection sem p)) = Suc (sem_available sem (up_global p))"
  "up_controls (release_connection sem p) = up_controls p" "up_config (release_connection sem p) = up_config p"
  "up_idle (release_connection sem p) = up_idle p" "up_http2 (release_connection sem p) = up_http2 p"
  "up_active (release_connection sem p) = up_active p" "up_pending (release_connection sem p) = up_pending p"
  "up_gate (release_connection sem p) = up_gate p" "pool_refs (release_connection sem p) = pool_refs p"
  "lives (release_connection sem p) = lives p" "refs_ok held (release_connection sem p) = refs_ok held p"
  by (simp_all add: release_connection_def pool_refs_def lives_def refs_ok_def)

lemma pool_ok_drop_control:
  assumes "pool_ok sem most ot pn lc gt ac (add_mset i held) p"
  shows "pool_ok sem most ot pn lc gt ac held (drop_control sem i p)"
proof -
  have refs: "refs_ok (add_mset i held) p" using assms by (simp add: pool_ok_def Let_def)
  note m = refs_ok_member [OF refs, of i, simplified]
  define q where "q = update_control i (\<lambda>c. c\<lparr>ctl_refs := ctl_refs c - 1\<rparr>) p"
  have "refs_ok held q"
    unfolding q_def update_control_def
    by (rule refs_ok_recount [OF refs m(1)])
      (use refs m refs_ok_unshared(2) [OF refs _ m(1)] in \<open>auto simp: refs_ok_def\<close>)
  moreover have "lives q + 1 = lives p + (if live (up_controls q ! i) then 1 else 0)"
    using lives_update [OF m(1), of "\<lambda>c. c\<lparr>ctl_refs := ctl_refs c - 1\<rparr>"] m
    by (simp add: q_def live_def split: if_splits)
  moreover have "drop_control sem i p = (if live (up_controls q ! i) then q else release_connection sem q)"
    by (simp add: drop_control_def q_def Let_def)
  ultimately show ?thesis
    using assms by (auto simp: pool_ok_def Let_def q_def)
qed

lemma pool_ok_end_driver:
  assumes "pool_ok sem most ot pn lc gt ac held p" "i < length (up_controls p)"
    and "ctl_driver (up_controls p ! i)"
  shows "pool_ok sem most ot pn lc gt ac held (end_driver sem i p)"
proof -
  define q where "q = update_control i (\<lambda>c. c\<lparr>ctl_driver := False\<rparr>) p"
  have refs: "refs_ok held p" using assms by (simp add: pool_ok_def Let_def)
  have "refs_ok held q"
    unfolding q_def update_control_def
    by (rule refs_ok_recount [OF refs assms(2)])
      (use refs assms(2) refs_ok_unshared(2) [OF refs _ assms(2)] in \<open>auto simp: refs_ok_def\<close>)
  moreover have "lives q + 1 = lives p + (if live (up_controls q ! i) then 1 else 0)"
    using lives_update [OF assms(2), of "\<lambda>c. c\<lparr>ctl_driver := False\<rparr>"] assms(2,3)
    by (simp add: q_def live_def split: if_splits)
  moreover have "end_driver sem i p = (if live (up_controls q ! i) then q else release_connection sem q)"
    by (simp add: end_driver_def q_def Let_def)
  ultimately show ?thesis
    using assms by (auto simp: pool_ok_def Let_def q_def)
qed

lemma pool_ok_drop_connection:
  assumes "pool_ok sem most ot pn lc gt ac (add_mset i held) p"
  shows "pool_ok sem most ot pn lc gt ac held (drop_connection sem i p)"
proof -
  have "i < length (up_controls p)"
    using assms refs_ok_member(1) [of "add_mset i held" p i] by (simp add: pool_ok_def Let_def)
  from pool_ok_cancel [OF assms this] show ?thesis
    unfolding drop_connection_def by (rule pool_ok_drop_control)
qed

lemma pool_ok_drop_connections:
  "pool_ok sem most ot pn lc gt ac (mset is + held) p \<Longrightarrow>
     pool_ok sem most ot pn lc gt ac held (drop_connections sem is p)"
proof (induction "is" arbitrary: p)
  case (Cons i "is")
  then have "pool_ok sem most ot pn lc gt ac (mset is + held) (drop_connection sem i p)"
    by (intro pool_ok_drop_connection) simp
  with Cons.IH show ?case by (simp add: drop_connections_def)
qed (simp add: drop_connections_def)

lemma pool_ok_clone:
  assumes "pool_ok sem most ot pn lc gt ac held p" "i \<in># held + pool_refs p"
    and "uc_protocol (up_config p) = Proto_Http2"
  shows "pool_ok sem most ot pn lc gt ac (add_mset i held) (clone_control i p)"
proof -
  have refs: "refs_ok held p" using assms by (simp add: pool_ok_def Let_def)
  then have i: "i < length (up_controls p)" using assms(2) unfolding refs_ok_def by blast
  have "0 < count (held + pool_refs p) i" using assms(2) by (simp only: count_greater_zero_iff)
  then have pos: "0 < ctl_refs (up_controls p ! i)" using refs i unfolding refs_ok_def by simp
  have "refs_ok (add_mset i held) (clone_control i p)"
    unfolding clone_control_def update_control_def
    by (rule refs_ok_recount [OF refs i]) (use refs i assms(3) in \<open>auto simp: refs_ok_def\<close>)
  moreover have "lives (clone_control i p) = lives p"
    using lives_update [OF i, of "\<lambda>c. c\<lparr>ctl_refs := ctl_refs c + 1\<rparr>"] pos
    by (simp add: clone_control_def live_def)
  ultimately show ?thesis
    using assms(1) by (simp add: pool_ok_def Let_def clone_control_def)
qed

text \<open>A new control takes the local and the global permit that were set aside for it.\<close>

lemma pool_ok_new_control:
  assumes "pool_ok sem most (Suc ot) pn (Suc lc) gt ac held p" "new_control p = (i, p')"
  shows "pool_ok sem most ot pn lc gt ac (add_mset i held) p'"
proof -
  have refs: "refs_ok held p" using assms by (simp add: pool_ok_def Let_def)
  from assms(2) have i: "i = length (up_controls p)"
    and p': "p' = p\<lparr>up_controls := up_controls p @ [\<lparr> ctl_cancelled = False, ctl_driver = False, ctl_refs = 1 \<rparr>]\<rparr>"
    by (auto simp: new_control_def)
  have "i \<notin># held + pool_refs p" using refs unfolding refs_ok_def i by blast
  then have zero: "count held i = 0" "count (pool_refs p) i = 0"
    by (auto simp: not_in_iff)
  have "pool_refs p' = pool_refs p" by (simp add: pool_refs_def p')
  then have "refs_ok (add_mset i held) p'"
    using refs zero by (auto simp: refs_ok_def p' i nth_append less_Suc_eq)
  moreover have "lives p' = Suc (lives p)" by (simp add: lives_def p' live_def)
  ultimately show ?thesis using assms(1) by (simp add: pool_ok_def Let_def p')
qed

end

end
