(* ===== verification/Pool_System.thy ===== *)
theory Pool_System
  imports Pool_Accounts
begin

text \<open>
  An upstream pool with the exchanges around it.  Each exchange is in one of the phases of
  \<open>acquire_http1\<close>, \<open>acquire_http2\<close>, \<open>connect\<close>, \<open>wait_http1_ready\<close>, \<open>send_http2\<close> or streams its bodies;
  a step is one operation of \<open>Upstream_Pool\<close>, an exchange may be dropped at any suspension point,
  drivers end, the pool is reaped and shut down, and other pools take and return global permits.
  The books balance in every reachable state.
\<close>

section \<open>The operations keep the books\<close>

lemma pop_idle_split:
  assumes "pop_idle closed t now idle = (found, rest, dropped)"
  shows "mset (map snd idle) = slot_refs found + mset dropped + mset (map snd rest)"
    and "length rest \<le> length idle"
    and "found = Some i \<Longrightarrow> \<not> closed i \<and> (\<exists>since. (since, i) \<in> set idle \<and> now - since < t)"
  using assms
  by (induction idle arbitrary: found rest dropped) (auto split: if_splits prod.splits; blast)+

context semaphore
begin

lemma pool_ok_take_pending:
  assumes "take_pending sem p = Some p'" "pool_ok sem most ot pn lc gt ac held p"
  shows "pool_ok sem most ot (Suc pn) lc gt ac held p'"
  using assms by (auto simp: take_pending_def pool_ok_def Let_def dest!: try_acquire_Some)

lemma pool_ok_release_pending:
  "pool_ok sem most ot (Suc pn) lc gt ac held p \<Longrightarrow> pool_ok sem most ot pn lc gt ac held (release_pending sem p)"
  by (simp add: release_pending_def pool_ok_def Let_def)

lemma pool_ok_release_local:
  "pool_ok sem most ot pn (Suc lc) gt ac held p \<Longrightarrow> pool_ok sem most ot pn lc gt ac held (release_local sem p)"
  by (simp add: release_local_def pool_ok_def Let_def)

lemma pool_ok_release_gate:
  "pool_ok sem most ot pn lc (Suc gt) ac held p \<Longrightarrow> pool_ok sem most ot pn lc gt ac held (release_gate sem p)"
  by (simp add: release_gate_def pool_ok_def Let_def)

lemma pool_ok_take_connection:
  assumes "take_permit sem connections_sem p = Some p'" "pool_ok sem most ot pn lc gt ac held p"
  shows "pool_ok sem most ot pn (Suc lc) gt ac held p'"
  using assms
  by (auto simp: take_permit_def connections_sem_def pool_ok_def Let_def dest!: try_acquire_Some)

lemma pool_ok_take_global:
  assumes "take_permit sem global_sem p = Some p'" "pool_ok sem most ot pn lc gt ac held p"
  shows "pool_ok sem most (Suc ot) pn lc gt ac held p'"
  using assms
  by (auto simp: take_permit_def global_sem_def pool_ok_def Let_def dest!: try_acquire_Some)

lemma pool_ok_take_gate:
  assumes "take_permit sem gate_sem p = Some p'" "pool_ok sem most ot pn lc gt ac held p"
  shows "pool_ok sem most ot pn lc (Suc gt) ac held p'"
  using assms
  by (auto simp: take_permit_def gate_sem_def pool_ok_def Let_def dest!: try_acquire_Some)

text \<open>
  What asking and waiting for a permit come to, for any of the semaphores: \<open>P n\<close> holds with \<open>n\<close> pending
  permits, \<open>Q n\<close> when the permit has been taken as well.
\<close>

lemma acquire_capacity_ok:
  assumes "acquire_capacity sem which p = (r, p')" "P pn p"
    and take: "\<And>p p' pn. take_permit sem which p = Some p' \<Longrightarrow> P pn p \<Longrightarrow> Q pn p'"
    and pending: "\<And>p p' pn. take_pending sem p = Some p' \<Longrightarrow> P pn p \<Longrightarrow> P (Suc pn) p'"
  shows "case r of Granted \<Rightarrow> Q pn p' | Queued \<Rightarrow> P (Suc pn) p' | Refused e \<Rightarrow> P pn p'"
  using assms(1,2) by (auto simp: acquire_capacity_def split: option.splits intro: take pending)

lemma await_capacity_ok:
  assumes "await_capacity sem which w p = (r, p')" "P (Suc pn) p"
    and take: "\<And>p p' pn. take_permit sem which p = Some p' \<Longrightarrow> P pn p \<Longrightarrow> Q pn p'"
    and release: "\<And>p pn. P (Suc pn) p \<Longrightarrow> P pn (release_pending sem p)"
      "\<And>p pn. Q (Suc pn) p \<Longrightarrow> Q pn (release_pending sem p)"
  shows "case r of Granted \<Rightarrow> Q pn p' | Queued \<Rightarrow> P (Suc pn) p' | Refused e \<Rightarrow> P pn p'"
  using assms(1,2) by (auto simp: await_capacity_def split: wake.splits option.splits intro: take release)

lemma connections_capacity_ok:
  assumes "pool_ok sem most ot pn lc gt ac held p" "acquire_capacity sem connections_sem p = (r, p')"
  shows "case r of Granted \<Rightarrow> pool_ok sem most ot pn (Suc lc) gt ac held p'
    | Queued \<Rightarrow> pool_ok sem most ot (Suc pn) lc gt ac held p' | Refused e \<Rightarrow> pool_ok sem most ot pn lc gt ac held p'"
  by (rule acquire_capacity_ok [OF assms(2), where P = "\<lambda>pn. pool_ok sem most ot pn lc gt ac held"
      and Q = "\<lambda>pn. pool_ok sem most ot pn (Suc lc) gt ac held", OF assms(1)])
    (erule (1) pool_ok_take_connection, erule (1) pool_ok_take_pending)

lemma connections_await_ok:
  assumes "pool_ok sem most ot (Suc pn) lc gt ac held p" "await_capacity sem connections_sem w p = (r, p')"
  shows "case r of Granted \<Rightarrow> pool_ok sem most ot pn (Suc lc) gt ac held p'
    | Queued \<Rightarrow> pool_ok sem most ot (Suc pn) lc gt ac held p' | Refused e \<Rightarrow> pool_ok sem most ot pn lc gt ac held p'"
  by (rule await_capacity_ok [OF assms(2), where P = "\<lambda>pn. pool_ok sem most ot pn lc gt ac held"
      and Q = "\<lambda>pn. pool_ok sem most ot pn (Suc lc) gt ac held", OF assms(1)])
    (erule (1) pool_ok_take_connection, (erule pool_ok_release_pending)+)

lemma global_capacity_ok:
  assumes "pool_ok sem most ot pn lc gt ac held p" "acquire_capacity sem global_sem p = (r, p')"
  shows "case r of Granted \<Rightarrow> pool_ok sem most (Suc ot) pn lc gt ac held p'
    | Queued \<Rightarrow> pool_ok sem most ot (Suc pn) lc gt ac held p' | Refused e \<Rightarrow> pool_ok sem most ot pn lc gt ac held p'"
  by (rule acquire_capacity_ok [OF assms(2), where P = "\<lambda>pn. pool_ok sem most ot pn lc gt ac held"
      and Q = "\<lambda>pn. pool_ok sem most (Suc ot) pn lc gt ac held", OF assms(1)])
    (erule (1) pool_ok_take_global, erule (1) pool_ok_take_pending)

lemma global_await_ok:
  assumes "pool_ok sem most ot (Suc pn) lc gt ac held p" "await_capacity sem global_sem w p = (r, p')"
  shows "case r of Granted \<Rightarrow> pool_ok sem most (Suc ot) pn lc gt ac held p'
    | Queued \<Rightarrow> pool_ok sem most ot (Suc pn) lc gt ac held p' | Refused e \<Rightarrow> pool_ok sem most ot pn lc gt ac held p'"
  by (rule await_capacity_ok [OF assms(2), where P = "\<lambda>pn. pool_ok sem most ot pn lc gt ac held"
      and Q = "\<lambda>pn. pool_ok sem most (Suc ot) pn lc gt ac held", OF assms(1)])
    (erule (1) pool_ok_take_global, (erule pool_ok_release_pending)+)

lemma gate_capacity_ok:
  assumes "pool_ok sem most ot pn lc gt ac held p" "acquire_capacity sem gate_sem p = (r, p')"
  shows "case r of Granted \<Rightarrow> pool_ok sem most ot pn lc (Suc gt) ac held p'
    | Queued \<Rightarrow> pool_ok sem most ot (Suc pn) lc gt ac held p' | Refused e \<Rightarrow> pool_ok sem most ot pn lc gt ac held p'"
  by (rule acquire_capacity_ok [OF assms(2), where P = "\<lambda>pn. pool_ok sem most ot pn lc gt ac held"
      and Q = "\<lambda>pn. pool_ok sem most ot pn lc (Suc gt) ac held", OF assms(1)])
    (erule (1) pool_ok_take_gate, erule (1) pool_ok_take_pending)

lemma gate_await_ok:
  assumes "pool_ok sem most ot (Suc pn) lc gt ac held p" "await_capacity sem gate_sem w p = (r, p')"
  shows "case r of Granted \<Rightarrow> pool_ok sem most ot pn lc (Suc gt) ac held p'
    | Queued \<Rightarrow> pool_ok sem most ot (Suc pn) lc gt ac held p' | Refused e \<Rightarrow> pool_ok sem most ot pn lc gt ac held p'"
  by (rule await_capacity_ok [OF assms(2), where P = "\<lambda>pn. pool_ok sem most ot pn lc gt ac held"
      and Q = "\<lambda>pn. pool_ok sem most ot pn lc (Suc gt) ac held", OF assms(1)])
    (erule (1) pool_ok_take_gate, (erule pool_ok_release_pending)+)

text \<open>Taking from and adding to the idle list moves references between the pool and its tasks.\<close>

lemma pool_ok_set_idle:
  assumes "pool_ok sem most ot pn lc gt ac held p" "length idle \<le> pc_max_idle_connections (uc_pool (up_config p))"
    and "held' + mset (map snd idle) = held + mset (map snd (up_idle p))"
  shows "pool_ok sem most ot pn lc gt ac held' (p\<lparr>up_idle := idle\<rparr>)"
  by (rule pool_ok_regroup [OF assms(1)])
    (use assms(2,3) in \<open>simp_all add: pool_refs_def flip: add.assoc\<close>)

lemma pool_ok_take_idle:
  assumes "take_idle_http1 sem closed now p = (found, p')" "pool_ok sem most ot pn lc gt ac held p"
  shows "pool_ok sem most ot pn lc gt ac (slot_refs found + held) p'"
proof -
  obtain rest dropped where pop:
    "pop_idle closed (pc_idle_timeout (uc_pool (up_config p))) now (up_idle p) = (found, rest, dropped)"
    and p': "p' = drop_connections sem dropped
        (p\<lparr>up_idle := rest, up_reused := up_reused p + (if found = None then 0 else 1)\<rparr>)"
    using assms(1) by (auto simp: take_idle_http1_def split: prod.splits)
  have le: "length (up_idle p) \<le> pc_max_idle_connections (uc_pool (up_config p))"
    using assms(2) by (simp add: pool_ok_def Let_def)
  have "pool_ok sem most ot pn lc gt ac (mset dropped + (slot_refs found + held)) (p\<lparr>up_idle := rest\<rparr>)"
    by (rule pool_ok_set_idle [OF assms(2)])
      (use pop_idle_split(1,2) [OF pop] le in \<open>simp_all add: ac_simps\<close>)
  then show ?thesis
    unfolding p' by (intro pool_ok_drop_connections) (simp add: pool_ok_cong)
qed

lemma pool_ok_return_http1:
  assumes "pool_ok sem most ot pn lc gt ac (add_mset i held) p"
  shows "pool_ok sem most ot pn lc gt ac held (return_http1 sem closed now i p)"
proof -
  have a: "pool_ok sem most ot pn lc gt ac (add_mset i held) (record_activity now p)"
    using assms by simp
  show ?thesis
    unfolding return_http1_def Let_def
    by (auto intro!: pool_ok_drop_connection [OF a] pool_ok_set_idle [OF a])
qed

lemma pool_ok_drop_http2:
  assumes "pool_ok sem most ot pn lc gt ac held p"
  shows "pool_ok sem most ot pn lc gt ac held (drop_http2 sem p)"
proof (cases "up_http2 p")
  case (Some i)
  have "add_mset i held + pool_refs (p\<lparr>up_http2 := None\<rparr>) = held + pool_refs p"
    by (simp add: pool_refs_def Some)
  then have "pool_ok sem most ot pn lc gt ac (add_mset i held) (p\<lparr>up_http2 := None\<rparr>)"
    by (rule pool_ok_regroup [OF assms]) (use assms in \<open>simp_all add: pool_ok_def Let_def\<close>)
  then show ?thesis by (simp add: drop_http2_def Some pool_ok_drop_connection)
qed (use assms in \<open>simp add: drop_http2_def\<close>)

lemma pool_ok_set_http2:
  assumes "pool_ok sem most ot pn lc gt ac (add_mset i held) p" "up_http2 p = None"
  shows "pool_ok sem most ot pn lc gt ac held (p\<lparr>up_http2 := Some i\<rparr>)"
proof -
  have "held + pool_refs (p\<lparr>up_http2 := Some i\<rparr>) = add_mset i held + pool_refs p"
    using assms(2) by (simp add: pool_refs_def)
  then show ?thesis
    by (rule pool_ok_regroup [OF assms(1)]) (use assms in \<open>simp_all add: pool_ok_def Let_def\<close>)
qed

lemma drop_control_sel [simp]:
  "up_config (drop_control sem i p) = up_config p" "up_http2 (drop_control sem i p) = up_http2 p"
  "length (up_controls (drop_control sem i p)) = length (up_controls p)"
  by (simp_all add: drop_control_def Let_def)

lemma drop_connection_sel [simp]:
  "up_config (drop_connection sem i p) = up_config p" "up_http2 (drop_connection sem i p) = up_http2 p"
  "length (up_controls (drop_connection sem i p)) = length (up_controls p)"
  by (simp_all add: drop_connection_def)

lemma drop_http2_sel [simp]:
  "up_config (drop_http2 sem p) = up_config p" "up_http2 (drop_http2 sem p) = None"
  by (simp_all add: drop_http2_def split: option.splits)

lemma pool_ok_current_http2:
  assumes "current_http2 sem closed p = (found, p')" "pool_ok sem most ot pn lc gt ac held p"
    and "uc_protocol (up_config p) = Proto_Http2"
  shows "pool_ok sem most ot pn lc gt ac (slot_refs found + held) p'" and "up_config p' = up_config p"
proof -
  define q where "q = (if (case up_http2 p of None \<Rightarrow> False | Some i \<Rightarrow> closed i) then drop_http2 sem p else p)"
  have q: "pool_ok sem most ot pn lc gt ac held q" "up_config q = up_config p"
    using assms(2) by (simp_all add: q_def pool_ok_drop_http2)
  have r: "found = up_http2 q" "p' = (case up_http2 q of None \<Rightarrow> q | Some i \<Rightarrow> clone_control i q)"
    using assms(1) unfolding current_http2_def Let_def q_def [symmetric] by auto
  show "pool_ok sem most ot pn lc gt ac (slot_refs found + held) p'"
    using q assms(3) by (auto simp: r pool_refs_def split: option.splits intro!: pool_ok_clone)
  show "up_config p' = up_config p"
    by (auto simp: r q(2) clone_control_def split: option.splits)
qed

lemma pool_ok_reap_idle:
  assumes "pool_ok sem most ot pn lc gt ac held p"
  shows "pool_ok sem most ot pn lc gt ac held (reap_idle sem closed now p)"
proof -
  define retained where "retained = (\<lambda>(since, i). \<not> up_shutdown p \<and>
    now - since < pc_idle_timeout (uc_pool (up_config p)) \<and> \<not> closed i)"
  define q where "q = drop_connections sem (map snd (filter (\<lambda>x. \<not> retained x) (up_idle p)))
    (p\<lparr>up_idle := filter retained (up_idle p)\<rparr>)"
  have "mset (map snd (filter (\<lambda>x. \<not> retained x) xs)) + mset (map snd (filter retained xs)) =
      mset (map snd xs)" for xs
    by (induction xs) auto
  note this [of "up_idle p"]
  moreover have "length (filter retained (up_idle p)) \<le> pc_max_idle_connections (uc_pool (up_config p))"
    using assms order_trans [OF length_filter_le] by (auto simp: pool_ok_def Let_def)
  ultimately have "pool_ok sem most ot pn lc gt ac held q"
    unfolding q_def
    by (intro pool_ok_drop_connections pool_ok_set_idle [OF assms]) (simp_all add: ac_simps)
  then show ?thesis
    unfolding reap_idle_def Let_def retained_def [symmetric] q_def [symmetric]
    by (simp add: pool_ok_drop_http2)
qed

end

section \<open>Exchanges\<close>

text \<open>The life of an exchange; the flags of \<open>Waiting1\<close> and \<open>Waiting2\<close> say whether it is pending.\<close>

datatype phase =
    Acquire1 acquire1
  | Acquire2 acquire2
  | Waiting1 nat bool
  | Waiting2 nat bool
  | Sending1 nat
  | Sending2 nat
  | Streaming response_body
  | Over

primrec acquire1_account :: "acquire1 \<Rightarrow> nat \<times> nat \<times> nat multiset" where
  "acquire1_account A1_Start = (0, 0, {#})"
| "acquire1_account A1_Check = (1, 0, {#})"
| "acquire1_account A1_Select = (1, 0, {#})"
| "acquire1_account A1_Local = (0, 1, {#})"
| "acquire1_account A1_Global_Wait = (1, 1, {#})"
| "acquire1_account (A1_Connect i) = (0, 0, {#i#})"
| "acquire1_account (A1_Handshake i) = (0, 0, {#i#})"
| "acquire1_account (A1_Ready i) = (0, 0, {#i#})"
| "acquire1_account (A1_Failed e) = (0, 0, {#})"

primrec acquire2_account :: "acquire2 \<Rightarrow> nat \<times> nat \<times> nat \<times> nat multiset" where
  "acquire2_account A2_Start = (0, 0, 0, {#})"
| "acquire2_account A2_Gate_Wait = (1, 0, 0, {#})"
| "acquire2_account A2_Gated = (0, 0, 1, {#})"
| "acquire2_account A2_Local_Wait = (1, 0, 1, {#})"
| "acquire2_account A2_Local = (0, 1, 1, {#})"
| "acquire2_account A2_Global_Wait = (1, 1, 1, {#})"
| "acquire2_account (A2_Connect i) = (0, 0, 1, {#i#})"
| "acquire2_account (A2_Handshake i) = (0, 0, 1, {#i#})"
| "acquire2_account (A2_Ready i) = (0, 0, 0, {#i#})"
| "acquire2_account (A2_Failed e) = (0, 0, 0, {#})"

text \<open>Pending, local and gate permits and the references held in a phase.\<close>

primrec phase_account :: "phase \<Rightarrow> nat \<times> nat \<times> nat \<times> nat multiset" where
  "phase_account (Acquire1 a) = (case acquire1_account a of (pn, lc, h) \<Rightarrow> (pn, lc, 0, h))"
| "phase_account (Acquire2 a) = acquire2_account a"
| "phase_account (Waiting1 i b) = (of_bool b, 0, 0, {#i#})"
| "phase_account (Waiting2 i b) = (of_bool b, 0, 0, {#i#})"
| "phase_account (Sending1 i) = (0, 0, 0, {#i#})"
| "phase_account (Sending2 i) = (0, 0, 0, {#i#})"
| "phase_account (Streaming body) = (0, 0, 0, slot_refs (rb_http1 body) + slot_refs (rb_http2 body))"
| "phase_account Over = (0, 0, 0, {#})"

text \<open>The steps of \<open>acquire_http1\<close>; the environment chooses the arguments that occur only here.\<close>

inductive acquire1_step ::
  "'s sem_lib \<Rightarrow> acquire1 \<Rightarrow> 's upstream_pool \<Rightarrow> acquire1 \<Rightarrow> 's upstream_pool \<Rightarrow> bool"
  for sem :: "'s sem_lib"
where
  "acquire1_start sem closed now p = (a, p') \<Longrightarrow> acquire1_step sem A1_Start p a p'"
| "acquire1_check sem closed now p = (a, p') \<Longrightarrow> acquire1_step sem A1_Check p a p'"
| "acquire1_select sem w p = (a, p') \<Longrightarrow> acquire1_step sem A1_Select p a p'"
| "acquire1_global sem (acquire_capacity sem global_sem p) = (a, p') \<Longrightarrow> acquire1_step sem A1_Local p a p'"
| "acquire1_global sem (await_capacity sem global_sem w p) = (a, p') \<Longrightarrow>
     acquire1_step sem A1_Global_Wait p a p'"
| "acquire1_connect sem t i p = (a, p') \<Longrightarrow> acquire1_step sem (A1_Connect i) p a p'"
| "acquire1_handshake sem r i p = (a, p') \<Longrightarrow> acquire1_step sem (A1_Handshake i) p a p'"

inductive acquire2_step ::
  "'s sem_lib \<Rightarrow> acquire2 \<Rightarrow> 's upstream_pool \<Rightarrow> acquire2 \<Rightarrow> 's upstream_pool \<Rightarrow> bool"
  for sem :: "'s sem_lib"
where
  "acquire2_start sem closed p = (a, p') \<Longrightarrow> acquire2_step sem A2_Start p a p'"
| "acquire2_gate sem w p = (a, p') \<Longrightarrow> acquire2_step sem A2_Gate_Wait p a p'"
| "acquire2_gated sem closed p = (a, p') \<Longrightarrow> acquire2_step sem A2_Gated p a p'"
| "acquire2_local sem (await_capacity sem connections_sem w p) = (a, p') \<Longrightarrow>
     acquire2_step sem A2_Local_Wait p a p'"
| "acquire2_global sem (acquire_capacity sem global_sem p) = (a, p') \<Longrightarrow> acquire2_step sem A2_Local p a p'"
| "acquire2_global sem (await_capacity sem global_sem w p) = (a, p') \<Longrightarrow>
     acquire2_step sem A2_Global_Wait p a p'"
| "acquire2_connect sem t i p = (a, p') \<Longrightarrow> acquire2_step sem (A2_Connect i) p a p'"
| "acquire2_handshake sem r i p = (a, p') \<Longrightarrow> acquire2_step sem (A2_Handshake i) p a p'"

text \<open>
  What dropping the future of an exchange releases: time-outs, the shutdown and a client that goes
  away end it at any suspension point.
\<close>

primrec release_acquire1 :: "'s sem_lib \<Rightarrow> acquire1 \<Rightarrow> 's upstream_pool \<Rightarrow> 's upstream_pool" where
  "release_acquire1 sem A1_Start p = p"
| "release_acquire1 sem A1_Check p = release_pending sem p"
| "release_acquire1 sem A1_Select p = release_pending sem p"
| "release_acquire1 sem A1_Local p = release_local sem p"
| "release_acquire1 sem A1_Global_Wait p = release_local sem (release_pending sem p)"
| "release_acquire1 sem (A1_Connect i) p = drop_control sem i p"
| "release_acquire1 sem (A1_Handshake i) p = drop_control sem i p"
| "release_acquire1 sem (A1_Ready i) p = drop_connection sem i p"
| "release_acquire1 sem (A1_Failed e) p = p"

primrec release_acquire2 :: "'s sem_lib \<Rightarrow> acquire2 \<Rightarrow> 's upstream_pool \<Rightarrow> 's upstream_pool" where
  "release_acquire2 sem A2_Start p = p"
| "release_acquire2 sem A2_Gate_Wait p = release_pending sem p"
| "release_acquire2 sem A2_Gated p = release_gate sem p"
| "release_acquire2 sem A2_Local_Wait p = release_gate sem (release_pending sem p)"
| "release_acquire2 sem A2_Local p = release_gate sem (release_local sem p)"
| "release_acquire2 sem A2_Global_Wait p = release_gate sem (release_local sem (release_pending sem p))"
| "release_acquire2 sem (A2_Connect i) p = release_gate sem (drop_control sem i p)"
| "release_acquire2 sem (A2_Handshake i) p = release_gate sem (drop_control sem i p)"
| "release_acquire2 sem (A2_Ready i) p = drop_control sem i p"
| "release_acquire2 sem (A2_Failed e) p = p"

definition release_slot ::
  "('s sem_lib \<Rightarrow> nat \<Rightarrow> 's upstream_pool \<Rightarrow> 's upstream_pool) \<Rightarrow> 's sem_lib \<Rightarrow> nat option
   \<Rightarrow> 's upstream_pool \<Rightarrow> 's upstream_pool"
where
  "release_slot drop_it sem slot p = (case slot of None \<Rightarrow> p | Some i \<Rightarrow> drop_it sem i p)"

primrec release_phase :: "'s sem_lib \<Rightarrow> phase \<Rightarrow> 's upstream_pool \<Rightarrow> 's upstream_pool" where
  "release_phase sem (Acquire1 a) p = release_acquire1 sem a p"
| "release_phase sem (Acquire2 a) p = release_acquire2 sem a p"
| "release_phase sem (Waiting1 i b) p =
     drop_connection sem i (if b then release_pending sem p else p)"
| "release_phase sem (Waiting2 i b) p = drop_control sem i (if b then release_pending sem p else p)"
| "release_phase sem (Sending1 i) p = drop_connection sem i p"
| "release_phase sem (Sending2 i) p = drop_control sem i p"
| "release_phase sem (Streaming body) p =
     release_slot drop_control sem (rb_http2 body) (release_slot drop_connection sem (rb_http1 body) p)"
| "release_phase sem Over p = p"

inductive phase_step ::
  "'s sem_lib \<Rightarrow> ('h, 'm) http_lib_scheme \<Rightarrow> lease \<Rightarrow> phase \<Rightarrow> 's upstream_pool
   \<Rightarrow> lease \<Rightarrow> phase \<Rightarrow> 's upstream_pool \<Rightarrow> bool"
  for sem :: "'s sem_lib" and lib :: "('h, 'm) http_lib_scheme" and ls :: lease
where
  phase_acquire1: "acquire1_step sem a p a' p' \<Longrightarrow>
     phase_step sem lib ls (Acquire1 a) p ls (Acquire1 a') p'"
| phase_acquire2: "acquire2_step sem a p a' p' \<Longrightarrow>
     phase_step sem lib ls (Acquire2 a) p ls (Acquire2 a') p'"
| phase_ready1: "ready_start sem ready p = (Inr b, p') \<Longrightarrow>
     phase_step sem lib ls (Acquire1 (A1_Ready i)) p ls (Waiting1 i b) p'"
| phase_ready2: "ready_start sem ready p = (Inr b, p') \<Longrightarrow>
     phase_step sem lib ls (Acquire2 (A2_Ready i)) p ls (Waiting2 i b) p'"
| phase_send1: "ready_finish sem b (Inr ()) p = (Inr (), p') \<Longrightarrow>
     phase_step sem lib ls (Waiting1 i b) p ls (Sending1 i) p'"
| phase_send2: "ready_finish sem b (Inr ()) p = (Inr (), p') \<Longrightarrow>
     phase_step sem lib ls (Waiting2 i b) p ls (Sending2 i) p'"
| phase_respond1: "phase_step sem lib ls (Sending1 i) p
     ls (Streaming \<lparr> rb_http1 = Some i, rb_http2 = None, rb_healthy = True \<rparr>) p"
| phase_respond2: "phase_step sem lib ls (Sending2 i) p
     ls (Streaming \<lparr> rb_http1 = None, rb_http2 = Some i, rb_healthy = True \<rparr>) p"
| phase_poll: "response_poll lib sem declared closed now inner end_stream expired (body, ls, p) =
       (frame, body', ls', p') \<Longrightarrow>
     phase_step sem lib ls (Streaming body) p ls' (Streaming body') p'"
| phase_drop: "response_drop sem closed now end_stream (body, ls, p) = (ls', p') \<Longrightarrow>
     phase_step sem lib ls (Streaming body) p ls' Over p'"
| phase_abort: "\<forall>body. ph \<noteq> Streaming body \<Longrightarrow> ls' \<in> {ls, ls\<lparr>ls_cancelled := True\<rparr>} \<Longrightarrow>
     phase_step sem lib ls ph p ls' Over (release_phase sem ph p)"

section \<open>Every step keeps the books\<close>

context semaphore
begin

text \<open>The books of a pool whose tasks hold \<open>account\<close> beside what the others hold.\<close>

lemma pool_ok_acquire1_global:
  assumes "acquire1_global sem (r, p) = (a, p')"
    and "case r of Granted \<Rightarrow> pool_ok sem most (Suc ot) pn (Suc lc) gt ac held p
      | Queued \<Rightarrow> pool_ok sem most ot (Suc pn) (Suc lc) gt ac held p
      | Refused e \<Rightarrow> pool_ok sem most ot pn (Suc lc) gt ac held p"
  shows "case acquire1_account a of (pn', lc', h) \<Rightarrow>
    pool_ok sem most ot (pn' + pn) (lc' + lc) gt ac (h + held) p'"
  using assms
  by (cases r) (auto simp: acquire1_global_def pool_ok_release_local dest: pool_ok_new_control
      split: prod.splits)

lemma pool_ok_connect_finish:
  assumes "connect_finish sem t i p = (r, p')" "pool_ok sem most ot pn lc gt ac (add_mset i held) p"
  shows "pool_ok sem most ot pn lc gt ac (if is_ok r then add_mset i held else held) p'"
  using assms by (auto simp: connect_finish_def intro: pool_ok_drop_control split: transport.splits if_splits)

lemma acquire1_step_ok:
  assumes "acquire1_step sem a p a' p'"
    and "case acquire1_account a of (pn', lc', h) \<Rightarrow>
      pool_ok sem most ot (pn' + pn) (lc' + lc) gt ac (h + held) p"
  shows "case acquire1_account a' of (pn', lc', h) \<Rightarrow>
    pool_ok sem most ot (pn' + pn) (lc' + lc) gt ac (h + held) p'"
  using assms
proof cases
  case (1 closed now)
  obtain found q where take: "take_idle_http1 sem closed now p = (found, q)" by force
  from pool_ok_take_idle [OF this] assms(2) 1(1)
  have q: "pool_ok sem most ot pn lc gt ac (slot_refs found + held) q" by simp
  with 1 take show ?thesis
    by (auto simp: acquire1_start_def split: option.splits
        intro: pool_ok_take_connection pool_ok_take_pending)
next
  case (2 closed now)
  obtain found q where take: "take_idle_http1 sem closed now p = (found, q)" by force
  from pool_ok_take_idle [OF this] assms(2) 2(1)
  have q: "pool_ok sem most ot (Suc pn) lc gt ac (slot_refs found + held) q" by simp
  with 2 take show ?thesis
    by (auto simp: acquire1_check_def split: option.splits intro: pool_ok_release_pending)
next
  case (3 w)
  then have p: "pool_ok sem most ot (Suc pn) lc gt ac held p" using assms(2) by simp
  show ?thesis
  proof (cases w)
    case Notified
    with 3 p show ?thesis by (auto simp: acquire1_select_def)
  next
    case (Connection_Wake v)
    obtain r q where w: "await_capacity sem connections_sem v p = (r, q)" by force
    from connections_await_ok [OF p w] 3 Connection_Wake w show ?thesis
      by (auto simp: acquire1_select_def split: capacity.splits)
  qed
next
  case 4
  obtain r q where c: "acquire_capacity sem global_sem p = (r, q)" by force
  have "pool_ok sem most ot pn (Suc lc) gt ac held p" using assms(2) 4(1) by simp
  from global_capacity_ok [OF this c] show ?thesis
    by (intro pool_ok_acquire1_global [OF 4(2) [unfolded c]])
next
  case (5 w)
  obtain r q where c: "await_capacity sem global_sem w p = (r, q)" by force
  have "pool_ok sem most ot (Suc pn) (Suc lc) gt ac held p" using assms(2) 5(1) by simp
  from global_await_ok [OF this c] show ?thesis
    by (intro pool_ok_acquire1_global [OF 5(2) [unfolded c]])
next
  case (6 t i)
  obtain r q where c: "connect_finish sem t i p = (r, q)" by force
  have "pool_ok sem most ot pn lc gt ac (add_mset i held) p" using assms(2) 6(1) by simp
  from pool_ok_connect_finish [OF c this] 6 c show ?thesis
    by (auto simp: acquire1_connect_def split: sum.splits)
next
  case (7 r i)
  have "pool_ok sem most ot pn lc gt ac (add_mset i held) p" using assms(2) 7(1) by simp
  with 7 show ?thesis
    by (auto simp: acquire1_handshake_def split: sum.splits
        intro: pool_ok_drop_control pool_ok_spawn_driver)
qed

lemma pool_ok_acquire2_local:
  assumes "acquire2_local sem (r, p) = (a, p')"
    and "case r of Granted \<Rightarrow> pool_ok sem most ot pn (Suc lc) (Suc gt) ac held p
      | Queued \<Rightarrow> pool_ok sem most ot (Suc pn) lc (Suc gt) ac held p
      | Refused e \<Rightarrow> pool_ok sem most ot pn lc (Suc gt) ac held p"
  shows "case acquire2_account a of (pn', lc', gt', h) \<Rightarrow>
    pool_ok sem most ot (pn' + pn) (lc' + lc) (gt' + gt) ac (h + held) p'"
  using assms by (cases r) (auto simp: acquire2_local_def pool_ok_release_gate)

lemma pool_ok_acquire2_global:
  assumes "acquire2_global sem (r, p) = (a, p')"
    and "case r of Granted \<Rightarrow> pool_ok sem most (Suc ot) pn (Suc lc) (Suc gt) ac held p
      | Queued \<Rightarrow> pool_ok sem most ot (Suc pn) (Suc lc) (Suc gt) ac held p
      | Refused e \<Rightarrow> pool_ok sem most ot pn (Suc lc) (Suc gt) ac held p"
  shows "case acquire2_account a of (pn', lc', gt', h) \<Rightarrow>
    pool_ok sem most ot (pn' + pn) (lc' + lc) (gt' + gt) ac (h + held) p'"
  using assms
  by (cases r) (auto simp: acquire2_global_def pool_ok_release_local pool_ok_release_gate
      dest: pool_ok_new_control split: prod.splits)

lemma acquire2_step_ok:
  assumes "acquire2_step sem a p a' p'" "uc_protocol (up_config p) = Proto_Http2"
    and "case acquire2_account a of (pn', lc', gt', h) \<Rightarrow>
      pool_ok sem most ot (pn' + pn) (lc' + lc) (gt' + gt) ac (h + held) p"
  shows "case acquire2_account a' of (pn', lc', gt', h) \<Rightarrow>
    pool_ok sem most ot (pn' + pn) (lc' + lc) (gt' + gt) ac (h + held) p'"
  using assms(1)
proof cases
  case (1 closed)
  obtain found q where cur: "current_http2 sem closed p = (found, q)" by force
  from pool_ok_current_http2 [OF this _ assms(2)] assms(3) 1(1)
  have q: "pool_ok sem most ot pn lc gt ac (slot_refs found + held) q" by simp
  show ?thesis
  proof (cases found)
    case None
    obtain r q' where c: "acquire_capacity sem gate_sem q = (r, q')" by force
    from gate_capacity_ok [OF q c] 1 cur None c show ?thesis
      by (auto simp: acquire2_start_def split: capacity.splits)
  qed (use 1 cur q in \<open>auto simp: acquire2_start_def\<close>)
next
  case (2 w)
  obtain r q where c: "await_capacity sem gate_sem w p = (r, q)" by force
  have "pool_ok sem most ot (Suc pn) lc gt ac held p" using assms(3) 2(1) by simp
  from gate_await_ok [OF this c] 2 c show ?thesis
    by (auto simp: acquire2_gate_def split: capacity.splits)
next
  case (3 closed)
  obtain found q where cur: "current_http2 sem closed p = (found, q)" by force
  from pool_ok_current_http2 [OF this _ assms(2)] assms(3) 3(1)
  have q: "pool_ok sem most ot pn lc (Suc gt) ac (slot_refs found + held) q" by simp
  show ?thesis
  proof (cases found)
    case None
    obtain r q' where c: "acquire_capacity sem connections_sem q = (r, q')" by force
    from connections_capacity_ok [OF q c] None
    have "case r of Granted \<Rightarrow> pool_ok sem most ot pn (Suc lc) (Suc gt) ac held q'
      | Queued \<Rightarrow> pool_ok sem most ot (Suc pn) lc (Suc gt) ac held q'
      | Refused e \<Rightarrow> pool_ok sem most ot pn lc (Suc gt) ac held q'" by (cases r) simp_all
    moreover have "acquire2_local sem (r, q') = (a', p')"
      using 3 cur None c by (simp add: acquire2_gated_def)
    ultimately show ?thesis by (rule pool_ok_acquire2_local [rotated])
  qed (use 3 cur q in \<open>auto simp: acquire2_gated_def intro: pool_ok_release_gate\<close>)
next
  case (4 w)
  obtain r q where c: "await_capacity sem connections_sem w p = (r, q)" by force
  have "pool_ok sem most ot (Suc pn) lc (Suc gt) ac held p" using assms(3) 4(1) by simp
  from connections_await_ok [OF this c] show ?thesis
    by (intro pool_ok_acquire2_local [OF 4(2) [unfolded c]])
next
  case 5
  obtain r q where c: "acquire_capacity sem global_sem p = (r, q)" by force
  have "pool_ok sem most ot pn (Suc lc) (Suc gt) ac held p" using assms(3) 5(1) by simp
  from global_capacity_ok [OF this c] show ?thesis
    by (intro pool_ok_acquire2_global [OF 5(2) [unfolded c]])
next
  case (6 w)
  obtain r q where c: "await_capacity sem global_sem w p = (r, q)" by force
  have "pool_ok sem most ot (Suc pn) (Suc lc) (Suc gt) ac held p" using assms(3) 6(1) by simp
  from global_await_ok [OF this c] show ?thesis
    by (intro pool_ok_acquire2_global [OF 6(2) [unfolded c]])
next
  case (7 t i)
  obtain r q where c: "connect_finish sem t i p = (r, q)" by force
  have "pool_ok sem most ot pn lc (Suc gt) ac (add_mset i held) p" using assms(3) 7(1) by simp
  from pool_ok_connect_finish [OF c this] 7 c show ?thesis
    by (auto simp: acquire2_connect_def split: sum.splits intro: pool_ok_release_gate)
next
  case (8 r i)
  have p: "pool_ok sem most ot pn lc (Suc gt) ac (add_mset i held) p" using assms(3) 8(1) by simp
  show ?thesis
  proof (cases r)
    case (Inl e)
    with 8 pool_ok_drop_control [OF p] show ?thesis
      by (auto simp: acquire2_handshake_def intro: pool_ok_release_gate)
  next
    case (Inr u)
    define q where "q = clone_control i (spawn_driver i p)"
    from pool_ok_spawn_driver [OF p, of i]
    have "pool_ok sem most ot pn lc (Suc gt) ac (add_mset i (add_mset i held)) q"
      unfolding q_def by (intro pool_ok_clone) (simp_all add: spawn_driver_def assms(2))
    then have "pool_ok sem most ot pn lc (Suc gt) ac (add_mset i held) ((drop_http2 sem q)\<lparr>up_http2 := Some i\<rparr>)"
      by (intro pool_ok_set_http2 pool_ok_drop_http2) simp_all
    from pool_ok_release_gate [OF this] Inr 8 show ?thesis
      by (auto simp: acquire2_handshake_def q_def)
  qed
qed

end

text \<open>An HTTP/1 upstream is never used with the phases of HTTP/2 and conversely.\<close>

primrec phase_protocol :: "phase \<Rightarrow> upstream_protocol option" where
  "phase_protocol (Acquire1 a) = Some Proto_Http1"
| "phase_protocol (Acquire2 a) = Some Proto_Http2"
| "phase_protocol (Waiting1 i b) = Some Proto_Http1"
| "phase_protocol (Waiting2 i b) = Some Proto_Http2"
| "phase_protocol (Sending1 i) = Some Proto_Http1"
| "phase_protocol (Sending2 i) = Some Proto_Http2"
| "phase_protocol (Streaming body) = None"
| "phase_protocol Over = None"

context semaphore
begin

lemma finish_http1_ok:
  assumes "finish_http1 sem closed now end_stream ls (body, p) = (body', p')"
    and "pool_ok sem most ot pn lc gt ac (slot_refs (rb_http1 body) + held) p"
  shows "pool_ok sem most ot pn lc gt ac held p'" and "body' = body\<lparr>rb_http1 := None\<rparr>"
  using assms
  by (auto simp: finish_http1_def split: option.splits if_splits
      intro: pool_ok_return_http1 pool_ok_drop_connection)

text \<open>An end of the response gives its HTTP/1 connection back or drops it; anything else keeps it.\<close>

lemma response_poll_ok:
  assumes "response_poll lib sem declared closed now inner end_stream expired (body, ls, p) = (frame, body', ls', p')"
    and "pool_ok sem most ot pn lc gt ac (slot_refs (rb_http1 body) + slot_refs (rb_http2 body) + held) p"
  shows "pool_ok sem most ot pn lc gt ac (slot_refs (rb_http1 body') + slot_refs (rb_http2 body') + held) p'"
proof (cases inner)
  case Pending
  have p: "pool_ok sem most ot pn lc gt ac (slot_refs (rb_http1 body) + (slot_refs (rb_http2 body) + held)) p"
    using assms(2) by (simp add: add.assoc)
  show ?thesis
    using assms Pending p
    by (auto simp: response_poll_def split: if_splits option.splits intro: pool_ok_drop_connection)
next
  case (Ready fr)
  define b where "b = (if frame_error (sanitize_frame lib declared fr) then body\<lparr>rb_healthy := False\<rparr> else body)"
  have b: "rb_http1 b = rb_http1 body" "rb_http2 b = rb_http2 body" by (simp_all add: b_def)
  show ?thesis
  proof (cases "sanitize_frame lib declared fr = None \<or> end_stream")
    case True
    with assms(1) Ready have f: "finish_http1 sem closed now end_stream ls (b, p) = (body', p')"
      by (auto simp: response_poll_def Let_def b_def split: prod.splits)
    from finish_http1_ok [OF f, of most ot pn lc gt ac "slot_refs (rb_http2 body) + held"] assms(2) b
    show ?thesis by (simp add: add.assoc)
  next
    case False
    with assms(1) Ready have "body' = b" "p' = p"
      by (auto simp: response_poll_def Let_def b_def split: prod.splits)
    with assms(2) b show ?thesis by simp
  qed
qed

lemma response_drop_ok:
  assumes "response_drop sem closed now end_stream (body, ls, p) = (ls', p')"
    and "pool_ok sem most ot pn lc gt ac (slot_refs (rb_http1 body) + slot_refs (rb_http2 body) + held) p"
  shows "pool_ok sem most ot pn lc gt ac held p'"
proof -
  obtain b q where f: "finish_http1 sem closed now end_stream ls (body, p) = (b, q)" by force
  from finish_http1_ok [OF f, of most ot pn lc gt ac "slot_refs (rb_http2 body) + held"] assms(2)
  have "pool_ok sem most ot pn lc gt ac (slot_refs (rb_http2 body) + held) q" "rb_http2 b = rb_http2 body"
    by (simp_all add: add.assoc)
  with assms(1) f show ?thesis
    by (auto simp: response_drop_def split: option.splits intro: pool_ok_drop_control)
qed

lemma release_acquire1_ok:
  assumes "case acquire1_account a of (pn', lc', h) \<Rightarrow> pool_ok sem most ot (pn' + pn) (lc' + lc) gt ac (h + held) p"
  shows "pool_ok sem most ot pn lc gt ac held (release_acquire1 sem a p)"
  using assms by (cases a) (auto intro: pool_ok_release_pending pool_ok_release_local
      pool_ok_drop_control pool_ok_drop_connection)

lemma release_acquire2_ok:
  assumes "case acquire2_account a of (pn', lc', gt', h) \<Rightarrow>
    pool_ok sem most ot (pn' + pn) (lc' + lc) (gt' + gt) ac (h + held) p"
  shows "pool_ok sem most ot pn lc gt ac held (release_acquire2 sem a p)"
  using assms by (cases a) (auto intro: pool_ok_release_pending pool_ok_release_local pool_ok_release_gate
      pool_ok_drop_control)

lemma release_phase_ok:
  assumes "case phase_account ph of (pn', lc', gt', h) \<Rightarrow>
    pool_ok sem most ot (pn' + pn) (lc' + lc) (gt' + gt) ac (h + held) p"
  shows "pool_ok sem most ot pn lc gt ac held (release_phase sem ph p)"
proof (cases ph)
  case (Acquire1 a)
  with assms show ?thesis by (auto simp: split: prod.splits intro: release_acquire1_ok)
next
  case (Acquire2 a)
  with assms show ?thesis by (auto intro: release_acquire2_ok)
next
  case (Streaming body)
  then have p: "pool_ok sem most ot pn lc gt ac (slot_refs (rb_http1 body) + (slot_refs (rb_http2 body) + held)) p"
    using assms by (simp add: add.assoc)
  have "pool_ok sem most ot pn lc gt ac (slot_refs (rb_http2 body) + held)
      (release_slot drop_connection sem (rb_http1 body) p)"
    using p by (auto simp: release_slot_def split: option.splits intro: pool_ok_drop_connection)
  then show ?thesis
    by (auto simp: Streaming release_slot_def [of drop_control] split: option.splits intro: pool_ok_drop_control)
qed (use assms in \<open>auto simp: of_bool_def split: if_splits
    intro: pool_ok_drop_control pool_ok_drop_connection pool_ok_release_pending\<close>)

lemma phase_step_ok:
  assumes "phase_step sem lib ls ph p ls' ph' p'"
    and "\<And>x. phase_protocol ph = Some x \<Longrightarrow> uc_protocol (up_config p) = x"
    and "case phase_account ph of (pn', lc', gt', h) \<Rightarrow>
      pool_ok sem most ot (pn' + pn) (lc' + lc) (gt' + gt) ac (h + held) p"
  shows "case phase_account ph' of (pn', lc', gt', h) \<Rightarrow>
    pool_ok sem most ot (pn' + pn) (lc' + lc) (gt' + gt) ac (h + held) p'"
  using assms
proof (induction rule: phase_step.induct)
  case (phase_acquire1 a p a' p')
  then have "case acquire1_account a of (pn', lc', h) \<Rightarrow>
      pool_ok sem most ot (pn' + pn) (lc' + lc) gt ac (h + held) p"
    by (auto split: prod.splits)
  from acquire1_step_ok [OF phase_acquire1(1) this] show ?case by (auto split: prod.splits)
next
  case (phase_acquire2 a p a' p')
  from acquire2_step_ok [OF phase_acquire2(1)] phase_acquire2(2,3) show ?case by simp
next
  case (phase_poll declared closed now inner end_stream expired body p frame body' l p')
  from response_poll_ok [OF phase_poll(1)] phase_poll(3) show ?case by (simp add: add.assoc)
next
  case (phase_drop closed now end_stream body p l p')
  from response_drop_ok [OF phase_drop(1)] phase_drop(3) show ?case by (simp add: add.assoc)
next
  case (phase_abort ph l p)
  then show ?case by (simp add: release_phase_ok)
qed (auto simp: ready_start_def ready_finish_def split: if_splits option.splits
    intro: pool_ok_take_pending pool_ok_release_pending)

end

section \<open>The whole\<close>

record exchange =
  ex_phase :: phase
  ex_upload :: bool
  ex_lease :: lease

text \<open>The exchange holds its active permit as long as its upload body or its response side exists.\<close>

definition ex_active :: "exchange \<Rightarrow> nat" where
  "ex_active ex = of_bool (ex_upload ex \<or> ex_phase ex \<noteq> Over)"

definition settle :: "'s sem_lib \<Rightarrow> exchange \<Rightarrow> 's upstream_pool \<Rightarrow> 's upstream_pool" where
  "settle sem ex p = (if ex_active ex = 0 then p\<lparr>up_active := sem_release sem (up_active p)\<rparr> else p)"

record 's pool_system =
  ps_pool :: "'s upstream_pool"
  ps_exchanges :: "exchange list"
  ps_others :: nat

definition new_exchange :: "upstream_protocol \<Rightarrow> bool \<Rightarrow> exchange" where
  "new_exchange protocol upload_complete =
     \<lparr> ex_phase = (case protocol of Proto_Http1 \<Rightarrow> Acquire1 A1_Start | Proto_Http2 \<Rightarrow> Acquire2 A2_Start),
       ex_upload = True,
       ex_lease = \<lparr> ls_upload_complete = upload_complete, ls_cancelled = False \<rparr> \<rparr>"

inductive pool_step ::
  "'s sem_lib \<Rightarrow> ('h, 'm) http_lib_scheme \<Rightarrow> 's pool_system \<Rightarrow> 's pool_system \<Rightarrow> bool"
  for sem :: "'s sem_lib" and lib :: "('h, 'm) http_lib_scheme"
where
  ps_begin: "begin_exchange sem now (ps_pool s) = (Inr (), p') \<Longrightarrow>
     pool_step sem lib s (s\<lparr>ps_pool := p',
       ps_exchanges := ps_exchanges s @ [new_exchange (uc_protocol (up_config (ps_pool s))) complete]\<rparr>)"
| ps_reject: "begin_exchange sem now (ps_pool s) = (Inl e, p') \<Longrightarrow>
     pool_step sem lib s (s\<lparr>ps_pool := p'\<rparr>)"
| ps_phase: "i < length (ps_exchanges s) \<Longrightarrow> ps_exchanges s ! i = ex \<Longrightarrow> ex_phase ex \<noteq> Over \<Longrightarrow>
     phase_step sem lib (ex_lease ex) (ex_phase ex) (ps_pool s) ls' ph' p' \<Longrightarrow>
     ex' = ex\<lparr>ex_phase := ph', ex_lease := ls'\<rparr> \<Longrightarrow>
     pool_step sem lib s (s\<lparr>ps_pool := settle sem ex' p', ps_exchanges := (ps_exchanges s)[i := ex']\<rparr>)"
| ps_upload: "i < length (ps_exchanges s) \<Longrightarrow> ps_exchanges s ! i = ex \<Longrightarrow> ex_upload ex \<Longrightarrow>
     upload_poll lib declared (up_shutdown (ps_pool s)) inner end_stream expired (ex_lease ex) =
       (frame, ls') \<Longrightarrow>
     pool_step sem lib s (s\<lparr>ps_exchanges := (ps_exchanges s)[i := ex\<lparr>ex_lease := ls'\<rparr>]\<rparr>)"
| ps_upload_drop: "i < length (ps_exchanges s) \<Longrightarrow> ps_exchanges s ! i = ex \<Longrightarrow> ex_upload ex \<Longrightarrow>
     ex' = ex\<lparr>ex_upload := False\<rparr> \<Longrightarrow>
     pool_step sem lib s
       (s\<lparr>ps_pool := settle sem ex' (ps_pool s), ps_exchanges := (ps_exchanges s)[i := ex']\<rparr>)"
| ps_driver: "i < length (up_controls (ps_pool s)) \<Longrightarrow> ctl_driver (up_controls (ps_pool s) ! i) \<Longrightarrow>
     pool_step sem lib s (s\<lparr>ps_pool := end_driver sem i (ps_pool s)\<rparr>)"
| ps_reap: "pool_step sem lib s (s\<lparr>ps_pool := reap_idle sem closed now (ps_pool s)\<rparr>)"
| ps_shutdown: "pool_step sem lib s (s\<lparr>ps_pool := (ps_pool s)\<lparr>up_shutdown := True\<rparr>\<rparr>)"
| ps_other_take: "sem_try_acquire sem (up_global (ps_pool s)) = Some g \<Longrightarrow>
     pool_step sem lib s (s\<lparr>ps_pool := (ps_pool s)\<lparr>up_global := g\<rparr>, ps_others := Suc (ps_others s)\<rparr>)"
| ps_other_return: "ps_others s = Suc n \<Longrightarrow>
     pool_step sem lib s (s\<lparr>ps_pool := (ps_pool s)\<lparr>up_global := sem_release sem (up_global (ps_pool s))\<rparr>,
       ps_others := n\<rparr>)"

definition pool_reachable ::
  "'s sem_lib \<Rightarrow> ('h, 'm) http_lib_scheme \<Rightarrow> 's pool_system \<Rightarrow> 's pool_system \<Rightarrow> bool"
where
  "pool_reachable sem lib = (pool_step sem lib)\<^sup>*\<^sup>*"

text \<open>What the exchanges hold together.\<close>

definition total :: "(nat \<times> nat \<times> nat \<times> nat multiset \<Rightarrow> 'a :: comm_monoid_add) \<Rightarrow> exchange list \<Rightarrow> 'a" where
  "total f xs = sum_list (map (\<lambda>ex. f (phase_account (ex_phase ex))) xs)"

definition held_pending :: "exchange list \<Rightarrow> nat" where "held_pending = total fst"
definition held_local :: "exchange list \<Rightarrow> nat" where "held_local = total (\<lambda>a. fst (snd a))"
definition held_gate :: "exchange list \<Rightarrow> nat" where "held_gate = total (\<lambda>a. fst (snd (snd a)))"
definition held_refs :: "exchange list \<Rightarrow> nat multiset" where "held_refs = total (\<lambda>a. snd (snd (snd a)))"
definition held_active :: "exchange list \<Rightarrow> nat" where "held_active xs = sum_list (map ex_active xs)"

definition pool_system_ok ::
  "'s sem_lib \<Rightarrow> upstream_config \<Rightarrow> nat \<Rightarrow> 's pool_system \<Rightarrow> bool"
where
  "pool_system_ok sem config most s \<longleftrightarrow>
     pool_ok sem (config, most) (ps_others s) (held_pending (ps_exchanges s)) (held_local (ps_exchanges s))
       (held_gate (ps_exchanges s)) (held_active (ps_exchanges s)) (held_refs (ps_exchanges s)) (ps_pool s) \<and>
     (\<forall>ex \<in> set (ps_exchanges s). \<forall>x. phase_protocol (ex_phase ex) = Some x \<longrightarrow> uc_protocol config = x)"

lemma sum_list_pick:
  fixes f :: "'a \<Rightarrow> 'b :: comm_monoid_add"
  assumes "i < length xs"
  shows "\<exists>rest. sum_list (map f xs) = f (xs ! i) + rest \<and> (\<forall>y. sum_list (map f (xs[i := y])) = f y + rest)"
  using assms
proof (induction xs arbitrary: i)
  case (Cons x xs)
  show ?case
  proof (cases i)
    case 0
    then show ?thesis by auto
  next
    case (Suc j)
    with Cons obtain rest where "sum_list (map f xs) = f (xs ! j) + rest"
      "\<forall>y. sum_list (map f (xs[j := y])) = f y + rest" by force
    then show ?thesis
      by (intro exI [of _ "f x + rest"]) (simp add: Suc ac_simps)
  qed
qed simp

lemma total_pick:
  assumes "i < length xs"
  shows "\<exists>rest. \<forall>y. total f (xs[i := y]) = f (phase_account (ex_phase y)) + rest"
  using sum_list_pick [OF assms, of "\<lambda>ex. f (phase_account (ex_phase ex))"] by (auto simp: total_def)

text \<open>One exchange beside the others: what it holds can be looked at apart and put back.\<close>

definition beside ::
  "'s sem_lib \<Rightarrow> upstream_config \<Rightarrow> nat \<Rightarrow> nat \<Rightarrow> nat \<Rightarrow> nat \<Rightarrow> nat \<Rightarrow> nat \<Rightarrow> nat multiset
   \<Rightarrow> exchange \<Rightarrow> 's upstream_pool \<Rightarrow> bool"
where
  "beside sem config most others pn lc gt ac h ex p \<longleftrightarrow>
     (case phase_account (ex_phase ex) of (pn', lc', gt', h') \<Rightarrow>
        pool_ok sem (config, most) others (pn' + pn) (lc' + lc) (gt' + gt) (ex_active ex + ac) (h' + h) p)"

lemma system_pick:
  assumes ok: "pool_system_ok sem config most s" and i: "i < length (ps_exchanges s)" "ps_exchanges s ! i = ex"
  obtains pn lc gt ac h where
    "beside sem config most (ps_others s) pn lc gt ac h ex (ps_pool s)"
    "\<And>y p'. beside sem config most (ps_others s) pn lc gt ac h y p' \<Longrightarrow>
       (\<And>x. phase_protocol (ex_phase y) = Some x \<Longrightarrow> uc_protocol config = x) \<Longrightarrow>
       pool_system_ok sem config most (s\<lparr>ps_pool := p', ps_exchanges := (ps_exchanges s)[i := y]\<rparr>)"
proof -
  let ?xs = "ps_exchanges s"
  obtain ac where 1: "\<forall>y. held_active (?xs[i := y]) = ex_active y + ac"
    using sum_list_pick [OF i(1), of ex_active] by (auto simp: held_active_def)
  obtain pn where 2: "\<forall>y. held_pending (?xs[i := y]) = fst (phase_account (ex_phase y)) + pn"
    using total_pick [OF i(1), of fst] by (auto simp: held_pending_def)
  obtain lc where 3: "\<forall>y. held_local (?xs[i := y]) = fst (snd (phase_account (ex_phase y))) + lc"
    using total_pick [OF i(1), of "\<lambda>a. fst (snd a)"] by (auto simp: held_local_def)
  obtain gt where 4: "\<forall>y. held_gate (?xs[i := y]) = fst (snd (snd (phase_account (ex_phase y)))) + gt"
    using total_pick [OF i(1), of "\<lambda>a. fst (snd (snd a))"] by (auto simp: held_gate_def)
  obtain h where 5: "\<forall>y. held_refs (?xs[i := y]) = snd (snd (snd (phase_account (ex_phase y)))) + h"
    using total_pick [OF i(1), of "\<lambda>a. snd (snd (snd a))"] by (auto simp: held_refs_def)
  have same: "?xs[i := ex] = ?xs" by (metis i(2) list_update_id)
  show thesis
  proof (rule that [of pn lc gt ac h])
    show "beside sem config most (ps_others s) pn lc gt ac h ex (ps_pool s)"
      using ok 1 [rule_format, of ex] 2 [rule_format, of ex] 3 [rule_format, of ex]
        4 [rule_format, of ex] 5 [rule_format, of ex]
      by (auto simp: beside_def pool_system_ok_def same split: prod.splits)
  next
    fix y p'
    assume y: "beside sem config most (ps_others s) pn lc gt ac h y p'"
      and proto: "\<And>x. phase_protocol (ex_phase y) = Some x \<Longrightarrow> uc_protocol config = x"
    have "\<forall>ex \<in> set (?xs[i := y]). \<forall>x. phase_protocol (ex_phase ex) = Some x \<longrightarrow> uc_protocol config = x"
      using ok proto set_update_subset_insert [of ?xs i y] by (auto simp: pool_system_ok_def)
    then show "pool_system_ok sem config most (s\<lparr>ps_pool := p', ps_exchanges := ?xs[i := y]\<rparr>)"
      using y 1 2 3 4 5 by (auto simp: beside_def pool_system_ok_def split: prod.splits)
  qed
qed

lemma phase_step_protocol:
  "phase_step sem lib ls ph p ls' ph' p' \<Longrightarrow> phase_protocol ph' = Some x \<Longrightarrow> phase_protocol ph = Some x"
  by (induction rule: phase_step.induct) auto

context semaphore
begin

lemma pool_ok_settle:
  assumes "pool_ok sem most ot pn lc gt (Suc ac) held p"
  shows "pool_ok sem most ot pn lc gt (ex_active ex + ac) held (settle sem ex p)"
  using assms by (auto simp: settle_def ex_active_def pool_ok_def Let_def)

lemma begin_exchange_ok:
  assumes "begin_exchange sem now p = (r, p')" "pool_ok sem most ot pn lc gt ac held p"
  shows "pool_ok sem most ot pn lc gt (if is_ok r then Suc ac else ac) held p'"
  using assms
  by (auto simp: begin_exchange_def pool_ok_def Let_def record_activity_def split: if_splits option.splits
      dest!: try_acquire_Some)

lemma pool_step_ok:
  assumes "pool_step sem lib s s'" "pool_system_ok sem config most s"
  shows "pool_system_ok sem config most s'"
  using assms
proof (induction rule: pool_step.induct)
  case (ps_begin now s p' complete)
  then have p: "pool_ok sem (config, most) (ps_others s) (held_pending (ps_exchanges s)) (held_local (ps_exchanges s))
       (held_gate (ps_exchanges s)) (held_active (ps_exchanges s)) (held_refs (ps_exchanges s)) (ps_pool s)"
    by (simp add: pool_system_ok_def)
  then have c: "up_config (ps_pool s) = config" by (simp add: pool_ok_def Let_def)
  from begin_exchange_ok [OF ps_begin(1) p] ps_begin(2) c show ?case
    by (cases "uc_protocol config")
      (auto simp: pool_system_ok_def held_pending_def held_local_def held_gate_def held_active_def
        held_refs_def total_def new_exchange_def ex_active_def)
next
  case (ps_reject now s e p')
  with begin_exchange_ok [OF ps_reject(1)] show ?case by (auto simp: pool_system_ok_def)
next
  case (ps_phase i s ex ls' ph' p' ex')
  from system_pick [OF ps_phase(6,1,2)] obtain pn lc gt ac h where
    before: "beside sem config most (ps_others s) pn lc gt ac h ex (ps_pool s)"
    and put: "\<And>y p'. beside sem config most (ps_others s) pn lc gt ac h y p' \<Longrightarrow>
       (\<And>x. phase_protocol (ex_phase y) = Some x \<Longrightarrow> uc_protocol config = x) \<Longrightarrow>
       pool_system_ok sem config most (s\<lparr>ps_pool := p', ps_exchanges := (ps_exchanges s)[i := y]\<rparr>)"
    by blast
  have "ex_active ex = 1" using ps_phase(3) by (simp add: ex_active_def)
  with before have ok: "case phase_account (ex_phase ex) of (pn', lc', gt', h') \<Rightarrow>
      pool_ok sem (config, most) (ps_others s) (pn' + pn) (lc' + lc) (gt' + gt) (Suc ac) (h' + h) (ps_pool s)"
    by (simp add: beside_def)
  then have "up_config (ps_pool s) = config" by (auto simp: pool_ok_def Let_def split: prod.splits)
  moreover have proto: "\<And>x. phase_protocol (ex_phase ex) = Some x \<Longrightarrow> uc_protocol config = x"
    using ps_phase(1,2,6) by (auto simp: pool_system_ok_def)
  ultimately have "case phase_account ph' of (pn', lc', gt', h') \<Rightarrow>
      pool_ok sem (config, most) (ps_others s) (pn' + pn) (lc' + lc) (gt' + gt) (Suc ac) (h' + h) p'"
    by (intro phase_step_ok [OF ps_phase(4) _ ok]) simp
  then have "beside sem config most (ps_others s) pn lc gt ac h ex' (settle sem ex' p')"
    by (auto simp: beside_def ps_phase(5) split: prod.splits intro: pool_ok_settle)
  then show ?case
    by (rule put) (use phase_step_protocol [OF ps_phase(4)] proto in \<open>auto simp: ps_phase(5)\<close>)
next
  case (ps_upload i s ex declared inner end_stream expired frame ls')
  from system_pick [OF ps_upload(5,1,2)] obtain pn lc gt ac h where
    before: "beside sem config most (ps_others s) pn lc gt ac h ex (ps_pool s)"
    and put: "\<And>y p'. beside sem config most (ps_others s) pn lc gt ac h y p' \<Longrightarrow>
       (\<And>x. phase_protocol (ex_phase y) = Some x \<Longrightarrow> uc_protocol config = x) \<Longrightarrow>
       pool_system_ok sem config most (s\<lparr>ps_pool := p', ps_exchanges := (ps_exchanges s)[i := y]\<rparr>)"
    by blast
  have "beside sem config most (ps_others s) pn lc gt ac h (ex\<lparr>ex_lease := ls'\<rparr>) (ps_pool s)"
    using before by (simp add: beside_def ex_active_def)
  moreover have "\<And>x. phase_protocol (ex_phase ex) = Some x \<Longrightarrow> uc_protocol config = x"
    using ps_upload(1,2,5) by (auto simp: pool_system_ok_def)
  ultimately show ?case using put [of "ex\<lparr>ex_lease := ls'\<rparr>" "ps_pool s"] by simp
next
  case (ps_upload_drop i s ex ex')
  from system_pick [OF ps_upload_drop(5,1,2)] obtain pn lc gt ac h where
    before: "beside sem config most (ps_others s) pn lc gt ac h ex (ps_pool s)"
    and put: "\<And>y p'. beside sem config most (ps_others s) pn lc gt ac h y p' \<Longrightarrow>
       (\<And>x. phase_protocol (ex_phase y) = Some x \<Longrightarrow> uc_protocol config = x) \<Longrightarrow>
       pool_system_ok sem config most (s\<lparr>ps_pool := p', ps_exchanges := (ps_exchanges s)[i := y]\<rparr>)"
    by blast
  have "ex_active ex = 1" using ps_upload_drop(3) by (simp add: ex_active_def)
  with before have "beside sem config most (ps_others s) pn lc gt ac h ex' (settle sem ex' (ps_pool s))"
    by (auto simp: beside_def ps_upload_drop(4) split: prod.splits intro: pool_ok_settle)
  then show ?case
  proof (rule put)
    show "\<And>x. phase_protocol (ex_phase ex') = Some x \<Longrightarrow> uc_protocol config = x"
      using ps_upload_drop(1,2,4,5) by (auto simp: pool_system_ok_def)
  qed
next
  case (ps_driver i s)
  then show ?case by (auto simp: pool_system_ok_def intro: pool_ok_end_driver)
next
  case (ps_reap s closed now)
  then show ?case by (auto simp: pool_system_ok_def intro: pool_ok_reap_idle)
next
  case (ps_shutdown s)
  then show ?case by (simp add: pool_system_ok_def)
next
  case (ps_other_take s g)
  then show ?case by (auto simp: pool_system_ok_def pool_ok_def Let_def dest!: try_acquire_Some)
next
  case (ps_other_return s n)
  then show ?case by (auto simp: pool_system_ok_def pool_ok_def Let_def)
qed

lemma pool_reachable_ok:
  assumes "pool_reachable sem lib s s'" "pool_system_ok sem config most s"
  shows "pool_system_ok sem config most s'"
  using assms unfolding pool_reachable_def
  by (induction rule: rtranclp_induct) (auto intro: pool_step_ok)

text \<open>A new pool starts balanced, with nobody around it.\<close>

lemma pool_new_ok:
  assumes "pool_new sem config host global ca now = Inr p"
  shows "pool_system_ok sem config (sem_available sem global + others)
    \<lparr> ps_pool = p, ps_exchanges = [], ps_others = others \<rparr>"
proof -
  have p: "p = \<lparr> up_config = config,
      up_tls_name = (if uc_tls config then
           Some (case uc_tls_server_name config of Request_Host \<Rightarrow> host | Literal name \<Rightarrow> name) else None),
      up_connections = sem_new sem (pc_max_connections (uc_pool config)), up_global = global,
      up_active = sem_new sem (pc_max_active_requests (uc_pool config)),
      up_pending = sem_new sem (pc_max_pending_requests (uc_pool config)),
      up_gate = sem_new sem 1, up_idle = [], up_http2 = None, up_last_activity = now,
      up_shutdown = False, up_opened = 0, up_reused = 0, up_rejected = 0, up_controls = [] \<rparr>"
    using assms unfolding pool_new_def Let_def by (elim and_then_InrE) simp
  show ?thesis
    by (simp add: pool_system_ok_def p account_defs held_pending_def held_local_def held_gate_def
        held_active_def held_refs_def total_def)
qed

end

section \<open>What the books mean\<close>

definition pool_limits_ok :: "upstream_config \<Rightarrow> nat \<Rightarrow> 's pool_system \<Rightarrow> bool" where
  "pool_limits_ok config most s \<longleftrightarrow>
     held_active (ps_exchanges s) \<le> pc_max_active_requests (uc_pool config) \<and>
     held_pending (ps_exchanges s) \<le> pc_max_pending_requests (uc_pool config) \<and>
     lives (ps_pool s) + held_local (ps_exchanges s) \<le> pc_max_connections (uc_pool config) \<and>
     lives (ps_pool s) + ps_others s \<le> most \<and>
     length (up_idle (ps_pool s)) \<le> pc_max_idle_connections (uc_pool config) \<and>
     held_gate (ps_exchanges s) \<le> 1"

lemma pool_system_ok_limits: "pool_system_ok sem config most s \<Longrightarrow> pool_limits_ok config most s"
  by (auto simp: pool_system_ok_def pool_ok_def Let_def pool_limits_ok_def)

text \<open>The HTTP/1 connections an exchange or the idle list holds.\<close>

definition exchange_refs :: "exchange \<Rightarrow> nat multiset" where
  "exchange_refs ex = snd (snd (snd (phase_account (ex_phase ex))))"

lemma held_refs_Cons [simp]: "held_refs (ex # xs) = exchange_refs ex + held_refs xs"
  by (simp add: held_refs_def total_def exchange_refs_def)

lemma exchange_refs_le: "ex \<in> set xs \<Longrightarrow> count (exchange_refs ex) n \<le> count (held_refs xs) n"
  by (induction xs) auto

lemma exchange_refs_two:
  assumes "i < j" "j < length xs"
  shows "count (exchange_refs (xs ! i)) n + count (exchange_refs (xs ! j)) n \<le> count (held_refs xs) n"
  using assms
proof (induction xs arbitrary: i j)
  case (Cons x xs)
  then obtain k where k: "j = Suc k" "k < length xs" by (cases j) auto
  show ?case
  proof (cases i)
    case 0
    with k exchange_refs_le [of "xs ! k" xs n] show ?thesis by simp
  next
    case (Suc i')
    with Cons.IH [of i' k] Cons.prems k show ?thesis by simp
  qed
qed simp

lemma pool_system_ok_exclusive:
  assumes ok: "pool_system_ok sem config most s" and http1: "uc_protocol config = Proto_Http1"
  shows "i < length (ps_exchanges s) \<Longrightarrow> j < length (ps_exchanges s) \<Longrightarrow> i \<noteq> j \<Longrightarrow>
      set_mset (exchange_refs (ps_exchanges s ! i)) \<inter> set_mset (exchange_refs (ps_exchanges s ! j)) = {}"
    and "ex \<in> set (ps_exchanges s) \<Longrightarrow> set_mset (exchange_refs ex) \<inter> snd ` set (up_idle (ps_pool s)) = {}"
    and "distinct (map snd (up_idle (ps_pool s)))"
proof -
  let ?H = "held_refs (ps_exchanges s)" and ?P = "pool_refs (ps_pool s)"
  have "refs_ok ?H (ps_pool s)" "up_config (ps_pool s) = config"
    using ok by (simp_all add: pool_system_ok_def pool_ok_def Let_def)
  then have one: "count ?H n + count ?P n \<le> 1" for n
    using refs_ok_unshared(1) http1 by blast
  have two: "set_mset (exchange_refs (ps_exchanges s ! a)) \<inter> set_mset (exchange_refs (ps_exchanges s ! b)) = {}"
    if "a < b" "b < length (ps_exchanges s)" for a b
  proof (rule ccontr)
    assume "set_mset (exchange_refs (ps_exchanges s ! a)) \<inter> set_mset (exchange_refs (ps_exchanges s ! b)) \<noteq> {}"
    then obtain n where "0 < count (exchange_refs (ps_exchanges s ! a)) n" "0 < count (exchange_refs (ps_exchanges s ! b)) n"
      by (auto simp del: count_greater_zero_iff simp: count_greater_zero_iff [symmetric])
    with exchange_refs_two [OF that, of n] one [of n] show False by linarith
  qed
  show "set_mset (exchange_refs (ps_exchanges s ! i)) \<inter> set_mset (exchange_refs (ps_exchanges s ! j)) = {}"
    if "i < length (ps_exchanges s)" "j < length (ps_exchanges s)" "i \<noteq> j"
    using two [of i j] two [of j i] that by (cases "i < j") auto
  have idle: "count (mset (map snd (up_idle (ps_pool s)))) n \<le> count ?P n" for n
    by (simp add: pool_refs_def)
  show "set_mset (exchange_refs ex) \<inter> snd ` set (up_idle (ps_pool s)) = {}" if ex: "ex \<in> set (ps_exchanges s)"
  proof (rule ccontr)
    assume "set_mset (exchange_refs ex) \<inter> snd ` set (up_idle (ps_pool s)) \<noteq> {}"
    then obtain n where "n \<in># exchange_refs ex" "n \<in># mset (map snd (up_idle (ps_pool s)))"
      by auto
    then have "0 < count (exchange_refs ex) n" "0 < count (mset (map snd (up_idle (ps_pool s)))) n"
      by (simp_all only: count_greater_zero_iff)
    with exchange_refs_le [OF ex, of n] idle [of n] one [of n] show False by linarith
  qed
  show "distinct (map snd (up_idle (ps_pool s)))"
    unfolding distinct_count_atmost_1
  proof
    fix n
    let ?idle = "map snd (up_idle (ps_pool s))"
    have "count (mset ?idle) n \<le> 1" using idle [of n] one [of n] by linarith
    moreover have "n \<in> set ?idle \<longleftrightarrow> 0 < count (mset ?idle) n"
      by (simp only: count_greater_zero_iff set_mset_mset)
    ultimately show "count (mset ?idle) n = (if n \<in> set ?idle then 1 else 0)"
      by (simp only: split: if_split) linarith
  qed
qed

text \<open>When everything is over and every driver has ended, all permits are back.\<close>

definition quiet :: "'s pool_system \<Rightarrow> bool" where
  "quiet s \<longleftrightarrow>
     (\<forall>ex \<in> set (ps_exchanges s). ex_phase ex = Over \<and> \<not> ex_upload ex) \<and>
     up_idle (ps_pool s) = [] \<and> up_http2 (ps_pool s) = None \<and>
     (\<forall>c \<in> set (up_controls (ps_pool s)). \<not> ctl_driver c)"

lemma quiet_held:
  assumes "\<forall>ex \<in> set xs. ex_phase ex = Over \<and> \<not> ex_upload ex"
  shows "held_pending xs = 0" "held_local xs = 0" "held_gate xs = 0" "held_active xs = 0" "held_refs xs = {#}"
proof -
  have zero: "phase_account (ex_phase ex) = (0, 0, 0, {#})" "ex_active ex = 0" if "ex \<in> set xs" for ex
    using assms that by (simp_all add: ex_active_def)
  show "held_pending xs = 0" "held_local xs = 0" "held_gate xs = 0" "held_active xs = 0"
    by (simp_all add: held_pending_def held_local_def held_gate_def held_active_def total_def zero)
  have "total (\<lambda>a. snd (snd (snd a))) xs = sum_list (map (\<lambda>ex. {#}) xs)"
    unfolding total_def by (rule arg_cong [where f = sum_list], rule map_cong) (simp_all add: zero)
  then show "held_refs xs = {#}" by (simp add: held_refs_def)
qed

lemma quiet_lives:
  assumes "quiet s" "pool_system_ok sem config most s"
  shows "lives (ps_pool s) = 0"
proof -
  have "held_refs (ps_exchanges s) = {#}" using assms(1) quiet_held(5) by (auto simp: quiet_def)
  moreover have "pool_refs (ps_pool s) = {#}" using assms(1) by (simp add: quiet_def pool_refs_def)
  ultimately have "ctl_refs c = 0" if "c \<in> set (up_controls (ps_pool s))" for c
    using assms(2) that by (auto simp: pool_system_ok_def pool_ok_def Let_def refs_ok_def in_set_conv_nth)
  then have "\<not> live c" if "c \<in> set (up_controls (ps_pool s))" for c
    using assms(1) that by (auto simp: quiet_def live_def)
  then show ?thesis by (simp add: lives_def filter_empty_conv)
qed

section \<open>Reuse\<close>

lemma drop_connection_idle [simp]: "up_idle (drop_connection sem i p) = up_idle p"
  by (simp add: drop_connection_def drop_control_def Let_def release_connection_def)

text \<open>What \<open>finish_http1\<close> puts on the idle list, and nothing else does.\<close>

lemma finish_http1_idle:
  assumes "finish_http1 sem closed now end_stream ls (body, p) = (body', p')"
  shows "up_idle p' = up_idle p \<or>
    (\<exists>i. rb_http1 body = Some i \<and> up_idle p' = (now, i) # up_idle p \<and> rb_healthy body \<and> end_stream \<and>
       ls_upload_complete ls \<and> \<not> closed i \<and> \<not> up_shutdown p \<and>
       length (up_idle p) < pc_max_idle_connections (uc_pool (up_config p)))"
  using assms
  by (auto simp: finish_http1_def return_http1_def Let_def record_activity_def split: option.splits if_splits)

text \<open>
  A connection is idle again only when the response ended without an error, with every frame accepted
  before, and the upload was complete.
\<close>

lemma response_poll_idle:
  assumes "response_poll lib sem declared closed now inner end_stream expired (body, ls, p) = (frame, body', ls', p')"
  shows "up_idle p' = up_idle p \<or>
    (\<exists>i. rb_http1 body = Some i \<and> up_idle p' = (now, i) # up_idle p \<and> rb_healthy body \<and> end_stream \<and>
       ls_upload_complete ls \<and> \<not> closed i \<and> \<not> up_shutdown p \<and>
       (\<exists>fr. frame = Ready fr \<and> \<not> frame_error fr))"
proof (cases inner)
  case Pending
  with assms show ?thesis by (auto simp: response_poll_def split: if_splits option.splits)
next
  case (Ready fr)
  define b where "b = (if frame_error (sanitize_frame lib declared fr) then body\<lparr>rb_healthy := False\<rparr> else body)"
  show ?thesis
  proof (cases "sanitize_frame lib declared fr = None \<or> end_stream")
    case True
    with assms Ready have f: "finish_http1 sem closed now end_stream ls (b, p) = (body', p')"
      and fr: "frame = Ready (sanitize_frame lib declared fr)"
      by (auto simp: response_poll_def Let_def b_def split: prod.splits)
    from finish_http1_idle [OF f] fr show ?thesis by (auto simp: b_def split: if_splits)
  next
    case False
    with assms Ready show ?thesis by (auto simp: response_poll_def Let_def split: prod.splits)
  qed
qed

text \<open>The upload counts as complete only at its end, after an accepted last frame.\<close>

lemma upload_poll_complete:
  assumes "upload_poll lib declared shutdown inner end_stream expired ls = (frame, ls')"
    and "ls_upload_complete ls'"
  shows "ls_upload_complete ls \<or> (\<exists>fr. frame = Ready fr \<and> (fr = None \<or> (\<not> frame_error fr \<and> end_stream)))"
  using assms by (auto simp: upload_poll_def Let_def split: if_splits poll.splits)

end
