(* ===== verification/Http_Proxy.thy ===== *)
theory Http_Proxy
  imports Pool_System Http_Routes Config
begin

text \<open>
  \<open>src/http_proxy/runtime.rs\<close>: from a routed request to the request that is sent upstream, and from
  the upstream response to what the client gets.  Sending itself is the work of \<open>Upstream_Pool\<close>; here
  its outcome is an argument.  A response made by the gateway is its status and its text.
\<close>

section \<open>Requests and responses\<close>

text \<open>What the code asks of a body: whether it has ended and its size, when that is known.\<close>

record body_info =
  bi_end_stream :: bool
  bi_exact :: "nat option"

record 'h response =
  re_status :: nat
  re_version :: http_version
  re_headers :: 'h

type_synonym reply = "nat \<times> string"

definition text_response :: "('h, 'm) http_lib_scheme \<Rightarrow> reply \<Rightarrow> 'h response \<times> string" where
  "text_response lib = (\<lambda>(status, message).
     (\<lparr> re_status = status, re_version = Http_11,
        re_headers = hm_insert lib (hm_empty lib) ''content-type'' ''text/plain; charset=utf-8'' \<rparr>,
      message))"

text \<open>Whether one of the comma-separated tokens of a field is a given word, in any case.\<close>

definition has_token :: "('h, 'm) http_lib_scheme \<Rightarrow> 'h \<Rightarrow> string \<Rightarrow> string \<Rightarrow> bool" where
  "has_token lib headers name word \<longleftrightarrow>
     list_ex (\<lambda>t. eq_ignore_ascii_case (trim t) word) (field_tokens lib headers name)"

definition is_http1_upgrade :: "('h, 'm) http_lib_scheme \<Rightarrow> 'h request \<Rightarrow> bool" where
  "is_http1_upgrade lib request \<longleftrightarrow>
     rq_version request = Http_11 \<and> hm_contains lib (rq_headers request) ''upgrade'' \<and>
     has_token lib (rq_headers request) ''connection'' ''upgrade''"

definition get_str :: "('h, 'm) http_lib_scheme \<Rightarrow> 'h \<Rightarrow> string \<Rightarrow> string option" where
  "get_str lib headers name = Option.bind (hm_get lib headers name) (hv_to_str lib)"

section \<open>Admission\<close>

text \<open>What is decided about a request before it takes a place in the pool.\<close>

record admitted =
  ad_upgrade :: bool
  ad_expected_upgrade :: "bytes option"
  ad_authority :: string
  ad_upstream_authority :: string
  ad_uri :: uri
  ad_declared_trailers :: "string set option"
  ad_force_chunked :: bool
  ad_response_can_have_body :: bool

definition valid_upgrade :: "('h, 'm) http_lib_scheme \<Rightarrow> 'h request \<Rightarrow> body_info \<Rightarrow> bool" where
  "valid_upgrade lib request body \<longleftrightarrow>
     is_http1_upgrade lib request \<and> rq_method request = ''GET'' \<and>
     length (hm_get_all lib (rq_headers request) ''upgrade'') = 1 \<and>
     (case get_str lib (rq_headers request) ''upgrade'' of
        None \<Rightarrow> False | Some v \<Rightarrow> eq_ignore_ascii_case v ''websocket'') \<and>
     get_str lib (rq_headers request) ''sec-websocket-version'' = Some ''13'' \<and>
     length (hm_get_all lib (rq_headers request) ''sec-websocket-key'') = 1 \<and>
     bi_end_stream body"

definition proxy_admit ::
  "('h, 'm) http_lib_scheme \<Rightarrow> bool \<Rightarrow> upstream_config \<Rightarrow> string \<Rightarrow> 'h request \<Rightarrow> body_info
   \<Rightarrow> reply + admitted"
where
  "proxy_admit lib shutdown upstream target request body =
     (let headers = rq_headers request;
          is_upgrade = is_http1_upgrade lib request in
      if shutdown then Inl (503, ''gateway shutting down\<newline>'')
      else if rq_method request = ''CONNECT''
      then Inl (405, ''CONNECT requires an explicit WebSocket route\<newline>'')
      else if hm_contains lib headers ''upgrade'' \<and> \<not> valid_upgrade lib request body
      then Inl (400, ''only WebSocket HTTP Upgrade is supported\<newline>'')
      else if is_upgrade \<and> uc_protocol upstream \<noteq> Proto_Http1
      then Inl (400, ''HTTP Upgrade requires an HTTP/1 upstream\<newline>'')
      else and_then (map_err (\<lambda>_. (400, ''invalid authority\<newline>'')) (request_authority lib request))
        (\<lambda>authority.
      let upstream_authority = (case uc_host_header upstream of
            Host_Preserve \<Rightarrow> authority | Host_Backend \<Rightarrow> uc_authority upstream);
          uri = (case uc_protocol upstream of
            Proto_Http1 \<Rightarrow> target
          | Proto_Http2 \<Rightarrow> (if uc_tls upstream then ''https'' else ''http'') @ ''://''
              @ upstream_authority @ target) in
      and_then (map_err (\<lambda>_. (400, ''invalid request target\<newline>'')) (uri_parse lib uri)) (\<lambda>uri.
      and_then
        (if uc_protocol upstream = Proto_Http1
         then and_then (map_err (\<lambda>_. (400, ''invalid Trailer declaration\<newline>''))
                (declared_trailer_names lib headers)) (\<lambda>names. Inr (Some names))
         else Inr None) (\<lambda>declared.
      Inr \<lparr> ad_upgrade = is_upgrade, ad_expected_upgrade = hm_get lib headers ''upgrade'',
            ad_authority = authority, ad_upstream_authority = upstream_authority, ad_uri = uri,
            ad_declared_trailers = declared,
            ad_force_chunked = (uc_protocol upstream = Proto_Http1 \<and>
              ((rq_version request = Http_2 \<and> \<not> bi_end_stream body)
               \<or> hm_contains lib headers ''trailer''
               \<or> (\<not> bi_end_stream body \<and> bi_exact body = None))),
            ad_response_can_have_body = (rq_method request \<noteq> ''HEAD'') \<rparr>))))"

section \<open>The request that is sent\<close>

definition forward_headers ::
  "('h, 'm) http_lib_scheme \<Rightarrow> upstream_config \<Rightarrow> resolved_client_address \<Rightarrow> admitted \<Rightarrow> 'h
   \<Rightarrow> reply + 'h"
where
  "forward_headers lib upstream address ad headers =
     (let headers = sanitize_request lib (ad_upgrade ad) headers;
          headers = sanitize_client_address_headers lib headers address;
          headers = (case hv_from_str lib (ad_authority ad) of
            Some v \<Rightarrow> hm_insert lib headers ''x-forwarded-host'' v | None \<Rightarrow> headers) in
      case uc_protocol upstream of
        Proto_Http1 \<Rightarrow>
          and_then (ok_or (502, ''invalid upstream host\<newline>'') (hv_from_str lib (ad_upstream_authority ad)))
            (\<lambda>v.
          let headers = hm_insert lib headers ''host'' v;
              headers = (if ad_upgrade ad then headers else hm_insert lib headers ''connection'' ''TE'')
          in Inr (if ad_force_chunked ad
                  then hm_insert lib (hm_remove lib headers ''content-length'') ''transfer-encoding'' ''chunked''
                  else headers))
      | Proto_Http2 \<Rightarrow> Inr (hm_remove lib headers ''host''))"

definition forward_request ::
  "('h, 'm) http_lib_scheme \<Rightarrow> upstream_config \<Rightarrow> resolved_client_address \<Rightarrow> admitted \<Rightarrow> 'h request
   \<Rightarrow> reply + 'h request"
where
  "forward_request lib upstream address ad request =
     and_then (forward_headers lib upstream address ad (rq_headers request)) (\<lambda>headers.
     Inr (request\<lparr>rq_uri := ad_uri ad,
       rq_version := (case uc_protocol upstream of Proto_Http1 \<Rightarrow> Http_11 | Proto_Http2 \<Rightarrow> Http_2),
       rq_headers := headers\<rparr>))"

text \<open>The way to the upstream: admission, a place in the pool, the forwarded request.\<close>

definition proxy_start ::
  "('h, 'm) http_lib_scheme \<Rightarrow> 's sem_lib \<Rightarrow> bool \<Rightarrow> instant \<Rightarrow> string \<Rightarrow> resolved_client_address
   \<Rightarrow> 'h request \<Rightarrow> body_info \<Rightarrow> 's upstream_pool
   \<Rightarrow> (reply + admitted \<times> 'h request) \<times> 's upstream_pool"
where
  "proxy_start lib sem shutdown now target address request body pool =
     (case proxy_admit lib shutdown (up_config pool) target request body of
        Inl r \<Rightarrow> (Inl r, pool)
      | Inr ad \<Rightarrow>
          (case begin_exchange sem now pool of
             (Inl e, pool) \<Rightarrow> (Inl (503, ''upstream capacity reached\<newline>''), pool)
           | (Inr _, pool) \<Rightarrow>
               (case forward_request lib (up_config pool) address ad request of
                  Inl r \<Rightarrow> (Inl r, pool\<lparr>up_active := sem_release sem (up_active pool)\<rparr>)
                | Inr sent \<Rightarrow> (Inr (ad, sent), pool))))"

section \<open>The response\<close>

datatype 'r send_outcome =
    Send_Shutdown
  | Send_Timeout
  | Send_Failed pool_error
  | Send_Response 'r

text \<open>Nothing is retried; an overload counts as a rejection.\<close>

definition send_reply ::
  "'r send_outcome \<Rightarrow> 's upstream_pool \<Rightarrow> (reply + 'r) \<times> 's upstream_pool"
where
  "send_reply outcome pool =
     (case outcome of
        Send_Shutdown \<Rightarrow> (Inl (503, ''gateway shutting down\<newline>''), pool)
      | Send_Timeout \<Rightarrow> (Inl (504, ''upstream response timeout\<newline>''), pool)
      | Send_Failed Pool_Overload \<Rightarrow>
          (Inl (503, ''upstream unavailable\<newline>''), pool\<lparr>up_rejected := up_rejected pool + 1\<rparr>)
      | Send_Failed (Pool_Failure e) \<Rightarrow> (Inl (502, ''upstream unavailable\<newline>''), pool)
      | Send_Response r \<Rightarrow> (Inr r, pool))"

text \<open>
  A switch of protocols is passed on when the client asked for exactly that one; then both sides are
  joined by a tunnel.  Any other response is streamed.
\<close>

definition upgrade_accepted ::
  "('h, 'm) http_lib_scheme \<Rightarrow> admitted \<Rightarrow> bool \<Rightarrow> 'h \<Rightarrow> bool"
where
  "upgrade_accepted lib ad has_connection headers \<longleftrightarrow>
     ad_upgrade ad \<and>
     (case (get_str lib headers ''upgrade'', Option.bind (ad_expected_upgrade ad) (hv_to_str lib)) of
        (Some answer, Some offered) \<Rightarrow> eq_ignore_ascii_case answer offered
      | _ \<Rightarrow> False) \<and>
     has_token lib headers ''connection'' ''upgrade'' \<and>
     length (hm_get_all lib headers ''upgrade'') = 1 \<and> has_connection"

datatype 'h proxied =
    Tunnel "'h response"
  | Stream "'h response" "string set option" bool

definition finish_response ::
  "('h, 'm) http_lib_scheme \<Rightarrow> http_version \<Rightarrow> admitted \<Rightarrow> bool \<Rightarrow> body_info \<Rightarrow> 'h response
   \<Rightarrow> reply + 'h proxied"
where
  "finish_response lib downstream_version ad has_connection body response =
     (if re_status response = 101 then
        if \<not> upgrade_accepted lib ad has_connection (re_headers response)
        then Inl (502, ''invalid upstream upgrade\<newline>'')
        else Inr (Tunnel (response\<lparr>re_headers := sanitize_response lib True (re_headers response),
               re_version := downstream_version\<rparr>))
      else
        let headers = sanitize_response lib False (re_headers response) in
        and_then
          (if downstream_version \<noteq> Http_2
           then and_then (map_err (\<lambda>_. (502, ''invalid upstream Trailer declaration\<newline>''))
                  (declared_trailer_names lib headers)) (\<lambda>names. Inr (Some names))
           else Inr None) (\<lambda>declared.
        let force_chunked = (downstream_version = Http_11 \<and> ad_response_can_have_body ad
              \<and> hm_contains lib headers ''trailer'' \<and> \<not> bi_end_stream body);
            headers = (if force_chunked then hm_remove lib headers ''content-length'' else headers)
        in Inr (Stream (response\<lparr>re_headers := headers, re_version := downstream_version\<rparr>)
                  declared force_chunked)))"

section \<open>The runtime\<close>

record 's proxy_runtime =
  pr_routes :: "string \<rightharpoonup> 's upstream_pool"
  pr_fallback :: "string \<rightharpoonup> 's upstream_pool"

text \<open>A pool for every enabled route and for every host of the fallback.\<close>

definition add_pool ::
  "'s sem_lib \<Rightarrow> 's \<Rightarrow> (path option \<Rightarrow> anyhow + (anyhow + nat \<times> nat)) \<Rightarrow> instant
   \<Rightarrow> (string \<rightharpoonup> 's upstream_pool) \<Rightarrow> string \<times> string \<times> upstream_config
   \<Rightarrow> anyhow + (string \<rightharpoonup> 's upstream_pool)"
where
  "add_pool sem capacity ca now pools = (\<lambda>(key, host, upstream).
     and_then (pool_new sem upstream host capacity (ca (uc_ca_file upstream)) now) (\<lambda>pool.
     Inr (pools(key \<mapsto> pool))))"

definition proxy_runtime_new ::
  "'s sem_lib \<Rightarrow> (path option \<Rightarrow> anyhow + (anyhow + nat \<times> nat)) \<Rightarrow> instant \<Rightarrow> http_route list
   \<Rightarrow> (string list \<times> upstream_config) option \<Rightarrow> nat \<Rightarrow> anyhow + 's proxy_runtime"
where
  "proxy_runtime_new sem ca now routes fallback max_connections =
     (let capacity = sem_new sem max_connections in
      and_then (try_fold (add_pool sem capacity ca now) Map.empty
          (map (\<lambda>r. (hr_id r, hr_host r, hr_upstream r)) routes)) (\<lambda>route_pools.
      and_then (try_fold (add_pool sem capacity ca now) Map.empty
          (case fallback of
             None \<Rightarrow> [] | Some (hosts, upstream) \<Rightarrow> map (\<lambda>h. (h, h, upstream)) hosts)) (\<lambda>fallback_pools.
      Inr \<lparr> pr_routes = route_pools, pr_fallback = fallback_pools \<rparr>)))"

text \<open>Which pool a request goes to, and with which target.\<close>

definition proxy_route ::
  "'s proxy_runtime \<Rightarrow> http_route \<Rightarrow> 'h request \<Rightarrow> reply + string \<times> 's upstream_pool"
where
  "proxy_route rt route request =
     and_then (map_err (\<lambda>_. (400, ''invalid path\<newline>'')) (rewrite_target route (rq_uri request)))
       (\<lambda>target.
     and_then (ok_or (503, ''upstream unavailable\<newline>'') (pr_routes rt (hr_id route))) (\<lambda>pool.
     Inr (target, pool)))"

definition proxy_fallback ::
  "'s proxy_runtime \<Rightarrow> string \<Rightarrow> 'h request \<Rightarrow> reply + string \<times> 's upstream_pool"
where
  "proxy_fallback rt host request =
     and_then (map_err (\<lambda>_. (400, ''invalid path\<newline>'')) (validate_http_path (u_path (rq_uri request))))
       (\<lambda>_.
     let target = (case u_path_and_query (rq_uri request) of Some v \<Rightarrow> v | None \<Rightarrow> ''/'') in
     and_then (ok_or (404, ''not found\<newline>'') (pr_fallback rt host)) (\<lambda>pool.
     Inr (target, pool)))"

declare text_response_def [eval_simps] has_token_def [eval_simps] is_http1_upgrade_def [eval_simps]
  get_str_def [eval_simps] valid_upgrade_def [eval_simps] proxy_admit_def [eval_simps]
  forward_headers_def [eval_simps] forward_request_def [eval_simps] proxy_start_def [eval_simps]
  send_reply_def [eval_simps] upgrade_accepted_def [eval_simps] finish_response_def [eval_simps]
  add_pool_def [eval_simps] proxy_runtime_new_def [eval_simps] proxy_route_def [eval_simps]
  proxy_fallback_def [eval_simps]

section \<open>What is forwarded\<close>

definition forwarded_names :: "string list" where
  "forwarded_names = [''x-forwarded-for'', ''x-forwarded-proto'', ''x-forwarded-host'']"

lemma plain_names:
  "\<not> dropped_name b ''host''" "\<not> dropped_name b ''te''" "\<not> dropped_name b ''connection''"
  "\<not> dropped_name b ''upgrade''" "\<not> dropped_name b ''content-length''"
  "\<not> dropped_name b ''transfer-encoding''"
  by (simp_all add: dropped_name_def internal_name_def address_headers_def starts_with_def)

context header_map
begin

text \<open>The address fields of a forwarded request are written by the gateway and by nobody else.\<close>

lemma forward_headers_address:
  assumes "forward_headers lib upstream address ad headers = Inr h"
  obtains w where "hv_to_str lib w = Some (show_ip (ra_client_ip address))"
    "hm_get_all lib h ''x-forwarded-for'' = [w]" "hm_get_all lib h ''x-real-ip'' = [w]"
    "\<And>n. internal_name n \<Longrightarrow> n \<notin> set forwarded_names \<Longrightarrow> hm_get_all lib h n = []"
    "\<And>n. \<not> ra_trusted_proxy address \<Longrightarrow> starts_with n ''cf-'' \<Longrightarrow> hm_get_all lib h n = []"
    "\<And>v. hv_from_str lib (ad_authority ad) = Some v \<Longrightarrow> hm_get_all lib h ''x-forwarded-host'' = [v]"
proof -
  define h1 where "h1 = sanitize_request lib (ad_upgrade ad) headers"
  define h2 where "h2 = sanitize_client_address_headers lib h1 address"
  define h3 where "h3 = (case hv_from_str lib (ad_authority ad) of
    Some v \<Rightarrow> hm_insert lib h2 ''x-forwarded-host'' v | None \<Rightarrow> h2)"
  obtain w where w: "hv_to_str lib w = Some (show_ip (ra_client_ip address))"
    and get: "\<And>n. hm_get_all lib h2 n =
      (if n = ''x-forwarded-proto'' then
         [if ra_trusted_proxy address \<and>
             (\<exists>v. hm_get_all lib h1 n = [v] \<and> hv_to_str lib v = Some ''http'')
          then ''http'' else ''https'']
       else if n = ''x-forwarded-for'' \<or> n = ''x-real-ip'' then [w]
       else if n = ''cf-connecting-ip'' \<and> ra_trusted_proxy address then [w]
       else if dropped_name (ra_trusted_proxy address) n then [] else hm_get_all lib h1 n)"
    by (rule sanitize_get_all [of address h1, folded h2_def]) (rule that)
  have keep: "hm_get_all lib h n = hm_get_all lib h3 n"
    if "n \<notin> {''host'', ''connection'', ''content-length'', ''transfer-encoding''}" for n
    using assms that
    unfolding forward_headers_def Let_def h1_def [symmetric] h2_def [symmetric] h3_def [symmetric]
    by (auto split: upstream_protocol.splits if_splits)
  have h3: "hm_get_all lib h3 n = hm_get_all lib h2 n" if "n \<noteq> ''x-forwarded-host''" for n
    using that by (simp add: h3_def split: option.split)
  have special: "n \<notin> {''host'', ''connection'', ''content-length'', ''transfer-encoding'', ''x-forwarded-host'',
      ''x-forwarded-proto'', ''x-forwarded-for'', ''x-real-ip''}"
    if "internal_name n \<and> n \<notin> set forwarded_names \<or> starts_with n ''cf-''" for n
    using that by (auto simp: internal_name_def starts_with_def forwarded_names_def)
  have internal: "n \<noteq> ''cf-connecting-ip''" if "internal_name n" for n
    using that by (auto simp: internal_name_def starts_with_def)
  show thesis
  proof (rule that [OF w])
    show "hm_get_all lib h ''x-forwarded-for'' = [w]" "hm_get_all lib h ''x-real-ip'' = [w]"
      by (simp_all add: keep h3 get)
    show "hm_get_all lib h n = []" if "internal_name n" "n \<notin> set forwarded_names" for n
      using special [of n] internal [OF that(1)] that by (simp add: keep h3 get dropped_name_def)
    show "hm_get_all lib h n = []" if "\<not> ra_trusted_proxy address" "starts_with n ''cf-''" for n
      using special [of n] that by (simp add: keep h3 get dropped_name_def)
    show "hm_get_all lib h ''x-forwarded-host'' = [v]" if "hv_from_str lib (ad_authority ad) = Some v" for v
      using that by (simp add: keep h3_def)
  qed
qed

lemma sanitize_plain:
  assumes "\<not> dropped_name (ra_trusted_proxy address) n"
    and "n \<notin> {''x-forwarded-proto'', ''x-forwarded-for'', ''x-real-ip'', ''cf-connecting-ip''}"
  shows "hm_get_all lib (sanitize_client_address_headers lib h address) n = hm_get_all lib h n"
proof -
  obtain w where "\<And>k. hm_get_all lib (sanitize_client_address_headers lib h address) k =
      (if k = ''x-forwarded-proto'' then
         [if ra_trusted_proxy address \<and>
             (\<exists>v. hm_get_all lib h k = [v] \<and> hv_to_str lib v = Some ''http'')
          then ''http'' else ''https'']
       else if k = ''x-forwarded-for'' \<or> k = ''x-real-ip'' then [w]
       else if k = ''cf-connecting-ip'' \<and> ra_trusted_proxy address then [w]
       else if dropped_name (ra_trusted_proxy address) k then [] else hm_get_all lib h k)"
    by (rule sanitize_get_all [of address h]) (rule that)
  from this [of n] show ?thesis using assms by simp
qed

text \<open>The framing fields after the sanitisation of hop-by-hop fields.\<close>

lemma sanitize_request_framing:
  "hm_get_all lib (sanitize_request lib upgrade headers) ''transfer-encoding'' = []"
  "\<not> upgrade \<Longrightarrow> hm_get_all lib (sanitize_request lib upgrade headers) ''te'' = [''trailers'']"
  "\<not> upgrade \<Longrightarrow> hm_get_all lib (sanitize_request lib upgrade headers) ''upgrade'' = []"
  "hm_get_all lib (sanitize_request lib upgrade headers) ''connection'' = (if upgrade then [''upgrade''] else [])"
  by (cases upgrade;
      simp add: sanitize_request_def Let_def hop_headers_get_all hop_headers_upgrade hop_name_def hop_fields_def)+

lemma forward_headers_framing:
  assumes "forward_headers lib upstream address ad headers = Inr h"
  shows "uc_protocol upstream = Proto_Http1 \<Longrightarrow>
      hm_get_all lib h ''transfer-encoding'' = (if ad_force_chunked ad then [''chunked''] else []) \<and>
      (ad_force_chunked ad \<longrightarrow> hm_get_all lib h ''content-length'' = []) \<and>
      (\<exists>v. hv_from_str lib (ad_upstream_authority ad) = Some v \<and> hm_get_all lib h ''host'' = [v]) \<and>
      hm_get_all lib h ''connection'' = [if ad_upgrade ad then ''upgrade'' else ''TE'']"
    and "uc_protocol upstream = Proto_Http2 \<Longrightarrow>
      hm_get_all lib h ''transfer-encoding'' = [] \<and> hm_get_all lib h ''host'' = [] \<and>
      hm_get_all lib h ''connection'' = (if ad_upgrade ad then [''upgrade''] else [])"
proof -
  define h1 where "h1 = sanitize_request lib (ad_upgrade ad) headers"
  define h2 where "h2 = sanitize_client_address_headers lib h1 address"
  define h3 where "h3 = (case hv_from_str lib (ad_authority ad) of
    Some v \<Rightarrow> hm_insert lib h2 ''x-forwarded-host'' v | None \<Rightarrow> h2)"
  have keep: "hm_get_all lib h2 n = hm_get_all lib h1 n"
    if "n \<in> {''host'', ''connection'', ''content-length'', ''transfer-encoding''}" for n
    unfolding h2_def by (rule sanitize_plain) (use that plain_names in auto)
  have h3: "hm_get_all lib h3 n = hm_get_all lib h1 n"
    if "n \<in> {''host'', ''connection'', ''content-length'', ''transfer-encoding''}" for n
    using that keep [OF that] by (auto simp: h3_def split: option.split)
  note step = assms [unfolded forward_headers_def Let_def, folded h1_def, folded h2_def, folded h3_def]
  note fields = h3 [of "''transfer-encoding''"] h3 [of "''connection''"]
    sanitize_request_framing [of "ad_upgrade ad" headers, folded h1_def]
  show "hm_get_all lib h ''transfer-encoding'' = (if ad_force_chunked ad then [''chunked''] else []) \<and>
      (ad_force_chunked ad \<longrightarrow> hm_get_all lib h ''content-length'' = []) \<and>
      (\<exists>v. hv_from_str lib (ad_upstream_authority ad) = Some v \<and> hm_get_all lib h ''host'' = [v]) \<and>
      hm_get_all lib h ''connection'' = [if ad_upgrade ad then ''upgrade'' else ''TE'']"
    if "uc_protocol upstream = Proto_Http1"
  proof -
    define h4 where "h4 v = (if ad_upgrade ad then hm_insert lib h3 ''host'' v
      else hm_insert lib (hm_insert lib h3 ''host'' v) ''connection'' ''TE'')" for v
    from step [folded h4_def] that obtain v where v: "hv_from_str lib (ad_upstream_authority ad) = Some v"
      and "Inr h = Inr (if ad_force_chunked ad
        then hm_insert lib (hm_remove lib (h4 v) ''content-length'') ''transfer-encoding'' ''chunked'' else h4 v)"
      by (cases "hv_from_str lib (ad_upstream_authority ad)") auto
    then have h: "h = (if ad_force_chunked ad
        then hm_insert lib (hm_remove lib (h4 v) ''content-length'') ''transfer-encoding'' ''chunked'' else h4 v)"
      by simp
    have "hm_get_all lib (h4 v) ''transfer-encoding'' = []" "hm_get_all lib (h4 v) ''host'' = [v]"
      "hm_get_all lib (h4 v) ''connection'' = [if ad_upgrade ad then ''upgrade'' else ''TE'']"
      by (simp_all add: h4_def fields)
    then show ?thesis by (simp add: h v)
  qed
  show "hm_get_all lib h ''transfer-encoding'' = [] \<and> hm_get_all lib h ''host'' = [] \<and>
      hm_get_all lib h ''connection'' = (if ad_upgrade ad then [''upgrade''] else [])"
    if "uc_protocol upstream = Proto_Http2"
  proof -
    have "h = hm_remove lib h3 ''host''" using step that by simp
    then show ?thesis by (simp add: fields)
  qed
qed

end

section \<open>Upgrades\<close>

text \<open>A tunnel is only opened for a well-formed WebSocket upgrade that the upstream accepted.\<close>

lemma proxy_admit_upgrade:
  assumes "proxy_admit lib shutdown upstream target request body = Inr ad"
  shows "ad_upgrade ad \<longleftrightarrow> hm_contains lib (rq_headers request) ''upgrade''"
    and "ad_upgrade ad \<Longrightarrow> valid_upgrade lib request body \<and> uc_protocol upstream = Proto_Http1"
    and "\<not> shutdown" and "rq_method request \<noteq> ''CONNECT''"
    and "ad_expected_upgrade ad = hm_get lib (rq_headers request) ''upgrade''"
    and "ad_force_chunked ad \<Longrightarrow> uc_protocol upstream = Proto_Http1"
    and "request_authority lib request = Inr (ad_authority ad)"
proof -
  have u: "is_http1_upgrade lib request \<Longrightarrow> hm_contains lib (rq_headers request) ''upgrade''"
    by (simp add: is_http1_upgrade_def)
  from assms obtain authority uri declared where c: "\<not> shutdown" "rq_method request \<noteq> ''CONNECT''"
    "hm_contains lib (rq_headers request) ''upgrade'' \<Longrightarrow> valid_upgrade lib request body"
    "is_http1_upgrade lib request \<Longrightarrow> uc_protocol upstream = Proto_Http1"
    "request_authority lib request = Inr authority"
    and ad: "ad_upgrade ad = is_http1_upgrade lib request" "ad_authority ad = authority"
      "ad_expected_upgrade ad = hm_get lib (rq_headers request) ''upgrade''"
      "ad_force_chunked ad \<Longrightarrow> uc_protocol upstream = Proto_Http1"
    unfolding proxy_admit_def Let_def by (elim result_elims) auto
  show "\<not> shutdown" "rq_method request \<noteq> ''CONNECT''"
    "ad_expected_upgrade ad = hm_get lib (rq_headers request) ''upgrade''"
    "ad_force_chunked ad \<Longrightarrow> uc_protocol upstream = Proto_Http1"
    "request_authority lib request = Inr (ad_authority ad)"
    using c ad by simp_all
  show "ad_upgrade ad \<longleftrightarrow> hm_contains lib (rq_headers request) ''upgrade''"
    using c(3) ad(1) u by (auto simp: valid_upgrade_def)
  show "ad_upgrade ad \<Longrightarrow> valid_upgrade lib request body \<and> uc_protocol upstream = Proto_Http1"
    using c(3,4) ad(1) u by auto
qed

lemma finish_response_tunnel:
  assumes "finish_response lib version ad has_connection body response = Inr (Tunnel r)"
  shows "re_status response = 101" "upgrade_accepted lib ad has_connection (re_headers response)"
    "re_status r = 101" "re_version r = version"
  using assms by (auto simp: finish_response_def Let_def split: if_splits)

lemma finish_response_stream:
  assumes "finish_response lib version ad has_connection body response = Inr (Stream r declared force_chunked)"
  shows "re_status r = re_status response" "re_status r \<noteq> 101" "re_version r = version"
    "force_chunked \<Longrightarrow> version = Http_11"
    "version \<noteq> Http_2 \<Longrightarrow> \<exists>names. declared = Some names \<and>
      declared_trailer_names lib (sanitize_response lib False (re_headers response)) = Inr names"
    "re_headers r = (if force_chunked
       then hm_remove lib (sanitize_response lib False (re_headers response)) ''content-length''
       else sanitize_response lib False (re_headers response))"
proof -
  define h where "h = sanitize_response lib False (re_headers response)"
  from assms obtain d where s: "re_status response \<noteq> 101"
    and d: "(if version \<noteq> Http_2
       then and_then (map_err (\<lambda>_. (502, ''invalid upstream Trailer declaration\<newline>'') :: reply)
                  (declared_trailer_names lib h)) (\<lambda>names. Inr (Some names))
           else Inr None) = Inr d"
    and e: "Stream (response\<lparr>re_headers :=
          if version = Http_11 \<and> ad_response_can_have_body ad \<and> hm_contains lib h ''trailer'' \<and> \<not> bi_end_stream body
          then hm_remove lib h ''content-length'' else h, re_version := version\<rparr>) d
        (version = Http_11 \<and> ad_response_can_have_body ad \<and> hm_contains lib h ''trailer'' \<and> \<not> bi_end_stream body)
      = Stream r declared force_chunked"
    unfolding finish_response_def Let_def h_def [symmetric]
    by (cases "re_status response = 101") (auto split: if_splits)
  from e have r: "r = response\<lparr>re_headers := if force_chunked then hm_remove lib h ''content-length'' else h,
      re_version := version\<rparr>" "d = declared" "force_chunked \<Longrightarrow> version = Http_11"
    by auto
  show "re_status r = re_status response" "re_status r \<noteq> 101" "re_version r = version"
    using r(1) s by simp_all
  show "force_chunked \<Longrightarrow> version = Http_11" by (rule r(3))
  show "version \<noteq> Http_2 \<Longrightarrow> \<exists>names. declared = Some names \<and>
      declared_trailer_names lib (sanitize_response lib False (re_headers response)) = Inr names"
    using d by (auto simp: r(2) h_def)
  show "re_headers r = (if force_chunked
       then hm_remove lib (sanitize_response lib False (re_headers response)) ''content-length''
       else sanitize_response lib False (re_headers response))"
    by (simp add: r(1) h_def)
qed

section \<open>Every route has its pool\<close>

lemma add_pool_Inr_iff:
  "add_pool sem capacity ca now pools (key, host, upstream) = Inr pools' \<longleftrightarrow>
     (\<exists>pool. pool_new sem upstream host capacity (ca (uc_ca_file upstream)) now = Inr pool \<and>
        pools' = pools(key \<mapsto> pool))"
  by (auto simp: add_pool_def)

lemma add_pool_fold:
  assumes "try_fold (add_pool sem capacity ca now) pools ks = Inr pools'"
  shows "(\<exists>host upstream. (key, host, upstream) \<in> set ks \<and>
      (\<exists>pool. pools' key = Some pool \<and> pool_new sem upstream host capacity (ca (uc_ca_file upstream)) now = Inr pool))
    \<or> key \<notin> fst ` set ks \<and> pools' key = pools key"
  using assms
proof (induction ks arbitrary: pools)
  case (Cons k ks)
  obtain j host upstream where k: "k = (j, host, upstream)" by (cases k)
  from Cons.prems obtain pool where
    p: "pool_new sem upstream host capacity (ca (uc_ca_file upstream)) now = Inr pool"
    and rest: "try_fold (add_pool sem capacity ca now) (pools(j \<mapsto> pool)) ks = Inr pools'"
    by (auto simp: k add_pool_Inr_iff)
  from Cons.IH [OF rest] p k show ?case by (cases "key = j") auto
qed simp

text \<open>Everything in the tables is the compiled form of an enabled route of the file.\<close>

definition host_routes_in :: "(string \<times> host_http_routes) list \<Rightarrow> http_route set" where
  "host_routes_in t =
     (\<Union>(host, routes) \<in> set t. snd ` set (hh_exact routes) \<union> snd ` set (hh_prefixes routes))"

lemma http_enabled_routes_set: "set (http_enabled_routes t) = host_routes_in (ht_by_host t)"
  by (auto simp: http_enabled_routes_def host_routes_in_def image_iff)

lemma set_update_snd: "snd ` set (AList.update k v t) \<subseteq> insert v (snd ` set t)"
  by (induction t) auto

lemma set_update_pairs: "set (AList.update k v t) \<subseteq> insert (k, v) (set t)"
  by (induction t) auto

lemma host_routes_in_add:
  "host_routes_in (add_http_route host r t) \<subseteq> insert r (host_routes_in t)"
proof -
  define old where "old = (case map_of t host of Some routes \<Rightarrow> routes | None \<Rightarrow> \<lparr> hh_exact = [], hh_prefixes = [] \<rparr>)"
  define new where "new = (case hr_path_match r of
      Exact \<Rightarrow> old\<lparr>hh_exact := AList.update (hr_path r) r (hh_exact old)\<rparr>
    | Prefix \<Rightarrow> old\<lparr>hh_prefixes := AList.update (hr_path r) r (hh_prefixes old)\<rparr>)"
  have "(host, old) \<in> set t \<or> old = \<lparr> hh_exact = [], hh_prefixes = [] \<rparr>"
    by (cases "map_of t host") (simp_all add: old_def map_of_SomeD)
  then have old: "snd ` set (hh_exact old) \<subseteq> host_routes_in t" "snd ` set (hh_prefixes old) \<subseteq> host_routes_in t"
    unfolding host_routes_in_def by (elim disjE; force)+
  have "snd ` set (hh_exact new) \<subseteq> insert r (host_routes_in t) \<and>
    snd ` set (hh_prefixes new) \<subseteq> insert r (host_routes_in t)"
  proof (cases "hr_path_match r")
    case Exact
    have "snd ` set (AList.update (hr_path r) r (hh_exact old)) \<subseteq> insert r (host_routes_in t)"
      by (rule subset_trans [OF set_update_snd insert_mono [OF old(1)]])
    with old(2) show ?thesis by (simp add: new_def Exact subset_insertI2)
  next
    case Prefix
    have "snd ` set (AList.update (hr_path r) r (hh_prefixes old)) \<subseteq> insert r (host_routes_in t)"
      by (rule subset_trans [OF set_update_snd insert_mono [OF old(2)]])
    with old(1) show ?thesis by (simp add: new_def Prefix subset_insertI2)
  qed
  moreover have "add_http_route host r t = AList.update host new t"
    unfolding add_http_route_def Let_def new_def old_def ..
  moreover have "x \<in> insert r (host_routes_in t)"
    if x: "x \<in> host_routes_in (AList.update host new t)"
      and n: "snd ` set (hh_exact new) \<subseteq> insert r (host_routes_in t) \<and>
        snd ` set (hh_prefixes new) \<subseteq> insert r (host_routes_in t)" for x
  proof -
    from x obtain h routes where m: "(h, routes) \<in> set (AList.update host new t)"
      and x': "x \<in> snd ` set (hh_exact routes) \<union> snd ` set (hh_prefixes routes)"
      unfolding host_routes_in_def by blast
    from m set_update_pairs [of host new t] consider "routes = new" | "(h, routes) \<in> set t" by blast
    then show ?thesis
    proof cases
      case 1
      with n x' show ?thesis by blast
    next
      case 2
      with x' show ?thesis unfolding host_routes_in_def by blast
    qed
  qed
  ultimately show ?thesis by (metis subsetI)
qed

lemma http_build_routes:
  assumes "try_fold (http_build_step lib directory reserved) st specs = Inr st'"
  shows "host_routes_in (hb_by_host st') \<subseteq> host_routes_in (hb_by_host st) \<union>
    {r. \<exists>s \<in> set specs. fr_enabled s \<and> http_compile lib directory reserved s = Some r}"
  using assms
proof (induction specs arbitrary: st)
  case (Cons s specs)
  then obtain st1 where step: "http_build_step lib directory reserved st s = Inr st1"
    and rest: "try_fold (http_build_step lib directory reserved) st1 specs = Inr st'" by auto
  from step obtain k r where r: "http_compile lib directory reserved s = Some r"
    and st1: "hb_by_host st1 = (if fr_enabled s then add_http_route (hr_host r) r (hb_by_host st)
       else hb_by_host st)"
    by (rule http_build_step_Inr) auto
  from Cons.IH [OF rest] r host_routes_in_add [of "hr_host r" r "hb_by_host st"] show ?case
    by (auto simp: st1 split: if_splits)
qed simp

lemma http_enabled_compiled:
  assumes "http_table_build lib directory reserved specs = Inr t" "r \<in> set (http_enabled_routes t)"
  shows "\<exists>s \<in> set specs. fr_enabled s \<and> http_compile lib directory reserved s = Some r"
proof -
  from assms(1) obtain st where
    "try_fold (http_build_step lib directory reserved) http_build_init specs = Inr st"
    "ht_by_host t = hb_by_host st"
    by (auto simp: http_table_build_def split: if_splits)
  moreover have "host_routes_in (hb_by_host http_build_init) = {}"
    by (simp add: http_build_init_def host_routes_in_def)
  ultimately show ?thesis
    using http_build_routes [of lib directory reserved http_build_init specs st] assms(2)
    by (auto simp: http_enabled_routes_set)
qed

lemma http_enabled_ids:
  assumes t: "http_table_build lib directory reserved specs = Inr t"
    and r: "r \<in> set (http_enabled_routes t)" "r' \<in> set (http_enabled_routes t)" "hr_id r = hr_id r'"
  shows "r = r'"
proof -
  obtain st where "http_build_ok lib directory reserved specs st"
    using t by (rule http_table_build_ok)
  then have d: "distinct (map fr_id specs)" by (simp add: http_build_ok_def)
  from http_enabled_compiled [OF t r(1)] http_enabled_compiled [OF t r(2)] obtain s s' where
    s: "s \<in> set specs" "http_compile lib directory reserved s = Some r"
    and s': "s' \<in> set specs" "http_compile lib directory reserved s' = Some r'" by blast
  have "fr_id s = fr_id s'"
    using http_compile_ok(3) [OF s(2)] http_compile_ok(3) [OF s'(2)] r(3) by simp
  with d s(1) s'(1) have "s = s'" by (auto simp: distinct_map inj_on_def)
  with s s' show ?thesis by simp
qed

lemma resolve_prefix_member: "resolve_prefix prefixes path = Some r \<Longrightarrow> r \<in> snd ` set prefixes"
proof (induction prefixes path rule: resolve_prefix.induct)
  case (1 prefixes path)
  then show ?case
    by (subst (asm) (2) resolve_prefix.simps)
      (auto split: option.splits if_splits dest!: map_of_SomeD intro: rev_image_eqI)
qed

lemma http_resolve_enabled:
  assumes "http_resolve t host path = Some r"
  shows "r \<in> set (http_enabled_routes t)"
proof -
  from assms obtain routes where routes: "map_of (ht_by_host t) host = Some routes"
    and "map_of (hh_exact routes) path = Some r \<or> resolve_prefix (hh_prefixes routes) path = Some r"
    by (auto simp: http_resolve_def split: option.splits)
  then have "r \<in> snd ` set (hh_exact routes) \<union> snd ` set (hh_prefixes routes)"
    by (auto dest: map_of_SomeD resolve_prefix_member intro: rev_image_eqI)
  with map_of_SomeD [OF routes] show ?thesis
    by (force simp: http_enabled_routes_set host_routes_in_def)
qed

lemma resolved_route_pool:
  assumes t: "http_table_build lib directory reserved specs = Inr t"
    and rt: "proxy_runtime_new sem ca now (http_enabled_routes t) fallback most = Inr rt"
    and r: "http_resolve t host path = Some r"
  obtains pool where "pr_routes rt (hr_id r) = Some pool"
    "pool_new sem (hr_upstream r) (hr_host r) (sem_new sem most) (ca (uc_ca_file (hr_upstream r))) now = Inr pool"
proof -
  let ?ks = "map (\<lambda>r. (hr_id r, hr_host r, hr_upstream r)) (http_enabled_routes t)"
  from rt have fold: "try_fold (add_pool sem (sem_new sem most) ca now) Map.empty ?ks = Inr (pr_routes rt)"
    by (auto simp: proxy_runtime_new_def Let_def)
  have mem: "r \<in> set (http_enabled_routes t)" by (rule http_resolve_enabled [OF r])
  then have "hr_id r \<in> fst ` set ?ks" by force
  with add_pool_fold [OF fold, of "hr_id r"] obtain h u pool where
    k: "(hr_id r, h, u) \<in> set ?ks" and pool: "pr_routes rt (hr_id r) = Some pool"
      "pool_new sem u h (sem_new sem most) (ca (uc_ca_file u)) now = Inr pool" by blast
  from k obtain r' where r': "r' \<in> set (http_enabled_routes t)" "hr_id r = hr_id r'" "h = hr_host r'" "u = hr_upstream r'"
    by auto
  with http_enabled_ids [OF t mem r'(1,2)] pool that show thesis by simp
qed

lemma pool_new_config: "pool_new sem c host global ca now = Inr p \<Longrightarrow> up_config p = c"
  unfolding pool_new_def Let_def by (elim and_then_InrE) auto

end
