(* ===== verification/Observability.thy ===== *)
theory Observability
  imports Settings
begin

text \<open>
  \<open>src/observability/runtime.rs\<close>: the counters of the data plane, the sampling of rejections in the
  log, the gauges of live connections and the summary lines that are appended to a file.  Every
  counter is an \<open>AtomicU64\<close> and wraps.
\<close>

section \<open>Counters\<close>

datatype connection_kind = Transport | Web_Socket

datatype relay_direction = Client_To_Backend | Backend_To_Client

datatype close_class =
    Class_Client_Closed | Class_Backend_Closed | Class_Gateway_Shutdown
  | Class_Relay_Error | Class_Internal_Error

record direction_counters =
  dc_bytes :: u64
  dc_forwarded_frames :: u64
  dc_small_frames :: u64
  dc_control_frames :: u64
  dc_le_64 :: u64
  dc_le_1024 :: u64
  dc_le_16384 :: u64
  dc_le_65536 :: u64
  dc_le_262144 :: u64
  dc_gt_262144 :: u64

definition direction_counters_default :: direction_counters where
  "direction_counters_default =
     \<lparr> dc_bytes = 0, dc_forwarded_frames = 0, dc_small_frames = 0, dc_control_frames = 0, dc_le_64 = 0,
       dc_le_1024 = 0, dc_le_16384 = 0, dc_le_65536 = 0, dc_le_262144 = 0, dc_gt_262144 = 0 \<rparr>"

datatype admission_rejection =
  Origin_Peer | Connection_Capacity | Handshake_Capacity | Request_Capacity
  | Client_Identity | Authority | Headers

record counters =
  ct_rejections :: "admission_rejection \<Rightarrow> u64"
  ct_active_transport :: u64
  ct_peak_transport :: u64
  ct_transport_total :: u64
  ct_tls_success :: u64
  ct_tls_failures :: u64
  ct_tls_timeouts :: u64
  ct_http_errors :: u64
  ct_active_websocket :: u64
  ct_peak_websocket :: u64
  ct_websocket_total :: u64
  ct_backend_failures :: u64
  ct_backend_timeouts :: u64
  ct_upgrade_failures :: u64
  ct_upgrade_timeouts :: u64
  ct_relay_failures :: u64
  ct_idle_events :: u64
  ct_no_progress_events :: u64
  ct_long_lived :: u64
  ct_short_lived :: u64
  ct_client_closed :: u64
  ct_backend_closed :: u64
  ct_gateway_shutdown :: u64
  ct_directions :: "relay_direction \<Rightarrow> direction_counters"

definition counters_default :: counters where
  "counters_default =
     \<lparr> ct_rejections = (\<lambda>_. 0), ct_active_transport = 0, ct_peak_transport = 0, ct_transport_total = 0,
       ct_tls_success = 0, ct_tls_failures = 0, ct_tls_timeouts = 0, ct_http_errors = 0,
       ct_active_websocket = 0, ct_peak_websocket = 0, ct_websocket_total = 0, ct_backend_failures = 0,
       ct_backend_timeouts = 0, ct_upgrade_failures = 0, ct_upgrade_timeouts = 0, ct_relay_failures = 0,
       ct_idle_events = 0, ct_no_progress_events = 0, ct_long_lived = 0, ct_short_lived = 0,
       ct_client_closed = 0, ct_backend_closed = 0, ct_gateway_shutdown = 0,
       ct_directions = (\<lambda>_. direction_counters_default) \<rparr>"

record observability =
  ob_mode :: observability_mode
  ob_connection_event_logs :: bool
  ob_detailed_frames :: bool
  ob_summary_interval_seconds :: nat
  ob_diagnostic_interval_seconds :: nat
  ob_next_transport_id :: u64
  ob_next_websocket_id :: u64
  ob_counters :: counters

text \<open>\<open>Duration::as_secs\<close> of the configured intervals.\<close>

definition as_secs :: "duration \<Rightarrow> nat" where
  "as_secs d = d div 1000000000"

definition observability_new :: "observability_config \<Rightarrow> observability" where
  "observability_new c =
     \<lparr> ob_mode = oc_mode c, ob_connection_event_logs = oc_connection_event_logs_enabled c,
       ob_detailed_frames = oc_detailed_frame_observation_enabled c,
       ob_summary_interval_seconds = as_secs (oc_summary_interval c),
       ob_diagnostic_interval_seconds = as_secs (oc_diagnostic_interval c),
       ob_next_transport_id = 1, ob_next_websocket_id = 1, ob_counters = counters_default \<rparr>"

text \<open>Which file the writer task appends to, if there is one, and how often.\<close>

definition observability_output :: "observability_config \<Rightarrow> (path \<times> duration) option" where
  "observability_output c =
     (case oc_mode c of
        Mode_Production \<Rightarrow> Some (oc_summary_file c, oc_summary_interval c)
      | Mode_Diagnostic \<Rightarrow> Some (oc_diagnostic_file c, oc_diagnostic_interval c)
      | Mode_Off \<Rightarrow> None)"

definition detailed_frame_observation :: "observability \<Rightarrow> bool" where
  "detailed_frame_observation ob \<longleftrightarrow> ob_mode ob = Mode_Diagnostic \<or> ob_detailed_frames ob"

definition observation_interval_seconds :: "observability \<Rightarrow> nat" where
  "observation_interval_seconds ob =
     (case ob_mode ob of
        Mode_Production \<Rightarrow> ob_summary_interval_seconds ob
      | Mode_Diagnostic \<Rightarrow> ob_diagnostic_interval_seconds ob
      | Mode_Off \<Rightarrow> ob_diagnostic_interval_seconds ob)"

section \<open>Recording\<close>

definition tally :: "(counters \<Rightarrow> counters) \<Rightarrow> observability \<Rightarrow> observability" where
  "tally f ob = ob\<lparr>ob_counters := f (ob_counters ob)\<rparr>"

definition count_diagnostic :: "(counters \<Rightarrow> counters) \<Rightarrow> observability \<Rightarrow> observability" where
  "count_diagnostic f ob = (if ob_mode ob = Mode_Diagnostic then tally f ob else ob)"

definition increment :: "u64 \<Rightarrow> u64" where
  "increment n = n + 1"

definition saturating_add_one :: "u64 \<Rightarrow> u64" where
  "saturating_add_one n = (if n = -1 then n else n + 1)"

text \<open>\<open>u64::is_power_of_two\<close>.\<close>

definition is_power_of_two :: "u64 \<Rightarrow> bool" where
  "is_power_of_two n \<longleftrightarrow> list_ex (\<lambda>k. n = push_bit k 1) [0..<64]"

text \<open>A rejection is counted; whether it is logged depends on its number.\<close>

definition record_admission_rejection ::
  "admission_rejection \<Rightarrow> observability \<Rightarrow> bool \<times> observability"
where
  "record_admission_rejection reason ob =
     (let previous = ct_rejections (ob_counters ob) reason in
      (is_power_of_two (saturating_add_one previous),
       tally (ct_rejections_update (\<lambda>r. r(reason := increment previous))) ob))"

definition increment_active :: "u64 \<Rightarrow> u64 \<times> u64" where
  "increment_active active = (saturating_add_one active, increment active)"

definition begin_transport_connection :: "observability \<Rightarrow> u64 \<times> observability" where
  "begin_transport_connection ob =
     (let id = ob_next_transport_id ob;
          ob = ob\<lparr>ob_next_transport_id := id + 1\<rparr>;
          ob = tally (ct_transport_total_update increment) ob;
          (current, active) = increment_active (ct_active_transport (ob_counters ob))
      in (id, tally (\<lambda>c. c\<lparr>ct_active_transport := active, ct_peak_transport := max (ct_peak_transport c) current\<rparr>) ob))"

definition next_websocket_connection_id :: "observability \<Rightarrow> u64 \<times> observability" where
  "next_websocket_connection_id ob =
     (ob_next_websocket_id ob, ob\<lparr>ob_next_websocket_id := ob_next_websocket_id ob + 1\<rparr>)"

definition begin_websocket_connection :: "observability \<Rightarrow> observability" where
  "begin_websocket_connection ob =
     (let ob = tally (ct_websocket_total_update increment) ob;
          (current, active) = increment_active (ct_active_websocket (ob_counters ob))
      in tally (\<lambda>c. c\<lparr>ct_active_websocket := active, ct_peak_websocket := max (ct_peak_websocket c) current\<rparr>) ob)"

text \<open>\<open>ActiveConnection\<close>: what is live now, and its \<open>drop\<close>.\<close>

definition active_connections :: "connection_kind \<Rightarrow> observability \<Rightarrow> u64" where
  "active_connections kind ob =
     (case kind of
        Transport \<Rightarrow> ct_active_transport (ob_counters ob)
      | Web_Socket \<Rightarrow> ct_active_websocket (ob_counters ob))"

definition drop_active :: "connection_kind \<Rightarrow> observability \<Rightarrow> observability" where
  "drop_active kind =
     tally (case kind of
        Transport \<Rightarrow> ct_active_transport_update (\<lambda>n. n - 1)
      | Web_Socket \<Rightarrow> ct_active_websocket_update (\<lambda>n. n - 1))"

definition record_tls_handshake_success :: "observability \<Rightarrow> observability" where
  "record_tls_handshake_success = count_diagnostic (ct_tls_success_update increment)"

definition record_tls_handshake_failure :: "observability \<Rightarrow> observability" where
  "record_tls_handshake_failure = tally (ct_tls_failures_update increment)"

definition record_tls_handshake_timeout :: "observability \<Rightarrow> observability" where
  "record_tls_handshake_timeout = tally (ct_tls_timeouts_update increment)"

definition record_http_connection_error :: "observability \<Rightarrow> observability" where
  "record_http_connection_error = count_diagnostic (ct_http_errors_update increment)"

definition record_websocket_backend_connect_failure :: "observability \<Rightarrow> observability" where
  "record_websocket_backend_connect_failure = tally (ct_backend_failures_update increment)"

definition record_websocket_backend_connect_timeout :: "observability \<Rightarrow> observability" where
  "record_websocket_backend_connect_timeout = tally (ct_backend_timeouts_update increment)"

definition record_websocket_upgrade_failure :: "observability \<Rightarrow> observability" where
  "record_websocket_upgrade_failure = count_diagnostic (ct_upgrade_failures_update increment)"

definition record_websocket_upgrade_timeout :: "observability \<Rightarrow> observability" where
  "record_websocket_upgrade_timeout = count_diagnostic (ct_upgrade_timeouts_update increment)"

definition record_websocket_idle_event :: "observability \<Rightarrow> observability" where
  "record_websocket_idle_event = count_diagnostic (ct_idle_events_update increment)"

definition record_websocket_no_progress_event :: "observability \<Rightarrow> observability" where
  "record_websocket_no_progress_event = tally (ct_no_progress_events_update increment)"

definition count_direction ::
  "relay_direction \<Rightarrow> (direction_counters \<Rightarrow> direction_counters) \<Rightarrow> counters \<Rightarrow> counters"
where
  "count_direction direction f = ct_directions_update (\<lambda>d. d(direction := f (d direction)))"

definition frame_size_class :: "nat \<Rightarrow> direction_counters \<Rightarrow> direction_counters" where
  "frame_size_class payload_bytes =
     (if payload_bytes \<le> 64 then dc_le_64_update increment
      else if payload_bytes \<le> 1024 then dc_le_1024_update increment
      else if payload_bytes \<le> 16384 then dc_le_16384_update increment
      else if payload_bytes \<le> 65536 then dc_le_65536_update increment
      else if payload_bytes \<le> 262144 then dc_le_262144_update increment
      else dc_gt_262144_update increment)"

definition record_forwarded_frame :: "relay_direction \<Rightarrow> nat \<Rightarrow> observability \<Rightarrow> observability" where
  "record_forwarded_frame direction payload_bytes ob =
     (if ob_mode ob = Mode_Off then ob else
      let ob = tally (count_direction direction (dc_bytes_update (\<lambda>n. n + of_nat payload_bytes))) ob in
      if ob_mode ob \<noteq> Mode_Diagnostic then ob
      else tally (count_direction direction (\<lambda>d.
             let d = dc_forwarded_frames_update increment d;
                 d = (if payload_bytes \<le> 1024 then dc_small_frames_update increment d else d)
             in frame_size_class payload_bytes d)) ob)"

definition record_control_frame :: "relay_direction \<Rightarrow> observability \<Rightarrow> observability" where
  "record_control_frame direction =
     count_diagnostic (count_direction direction (dc_control_frames_update increment))"

definition record_websocket_closed :: "close_class \<Rightarrow> bool \<Rightarrow> bool \<Rightarrow> observability \<Rightarrow> observability" where
  "record_websocket_closed class long_lived short_lived ob =
     (if ob_mode ob = Mode_Off then ob else
      let ob = (if class = Class_Relay_Error \<or> class = Class_Internal_Error
                then tally (ct_relay_failures_update increment) ob else ob) in
      if ob_mode ob \<noteq> Mode_Diagnostic then ob
      else tally (\<lambda>c.
             let c = (if long_lived then ct_long_lived_update increment c else c);
                 c = (if short_lived then ct_short_lived_update increment c else c)
             in case class of
                  Class_Client_Closed \<Rightarrow> ct_client_closed_update increment c
                | Class_Backend_Closed \<Rightarrow> ct_backend_closed_update increment c
                | Class_Gateway_Shutdown \<Rightarrow> ct_gateway_shutdown_update increment c
                | Class_Relay_Error \<Rightarrow> c
                | Class_Internal_Error \<Rightarrow> c) ob)"

section \<open>The summary line\<close>

definition quoted :: "string \<Rightarrow> string" where
  "quoted s = CHR 0x22 # s @ [CHR 0x22]"

definition json_number :: "string \<Rightarrow> u64 \<Rightarrow> string" where
  "json_number name n = quoted name @ '':'' @ show_nat (unat n)"

definition json_text :: "string \<Rightarrow> string \<Rightarrow> string" where
  "json_text name v = quoted name @ '':'' @ quoted v"

primrec mode_name :: "observability_mode \<Rightarrow> string" where
  "mode_name Mode_Off = ''off''"
| "mode_name Mode_Production = ''production''"
| "mode_name Mode_Diagnostic = ''diagnostic''"

primrec rejection_name :: "admission_rejection \<Rightarrow> string" where
  "rejection_name Origin_Peer = ''origin_peer_rejections_total''"
| "rejection_name Connection_Capacity = ''connection_capacity_rejections_total''"
| "rejection_name Handshake_Capacity = ''handshake_capacity_rejections_total''"
| "rejection_name Request_Capacity = ''request_capacity_rejections_total''"
| "rejection_name Client_Identity = ''client_identity_rejections_total''"
| "rejection_name Authority = ''authority_rejections_total''"
| "rejection_name Headers = ''http_header_rejections_total''"

primrec direction_name :: "relay_direction \<Rightarrow> string" where
  "direction_name Client_To_Backend = ''client_to_backend''"
| "direction_name Backend_To_Client = ''backend_to_client''"

definition saturating_add :: "u64 \<Rightarrow> u64 \<Rightarrow> u64" where
  "saturating_add a b = (if a \<le> a + b then a + b else -1)"

definition summary_fields :: "counters \<Rightarrow> (string \<times> u64) list" where
  "summary_fields c =
     [(''active_connections'', saturating_add (ct_active_transport c) (ct_active_websocket c)),
      (''total_connections'', ct_transport_total c),
      (''active_transport_connections'', ct_active_transport c),
      (''active_websocket_connections'', ct_active_websocket c),
      (''peak_transport_connections'', ct_peak_transport c),
      (''peak_websocket_connections'', ct_peak_websocket c),
      (''transport_connections_total'', ct_transport_total c),
      (''websocket_connections_total'', ct_websocket_total c),
      (''client_to_backend_bytes_total'', dc_bytes (ct_directions c Client_To_Backend)),
      (''backend_to_client_bytes_total'', dc_bytes (ct_directions c Backend_To_Client)),
      (''tls_handshake_failures_total'', ct_tls_failures c),
      (''tls_handshake_timeouts_total'', ct_tls_timeouts c),
      (''websocket_backend_connect_failures_total'', ct_backend_failures c),
      (''websocket_backend_connect_timeouts_total'', ct_backend_timeouts c),
      (''websocket_relay_failures_total'', ct_relay_failures c),
      (''data_plane_no_progress_events_total'', ct_no_progress_events c)]
     @ map (\<lambda>r. (rejection_name r, ct_rejections c r))
         [Origin_Peer, Connection_Capacity, Handshake_Capacity, Request_Capacity, Client_Identity,
          Authority, Headers]"

definition direction_fields :: "string \<Rightarrow> direction_counters \<Rightarrow> (string \<times> u64) list" where
  "direction_fields prefix d =
     [(prefix @ ''_forwarded_frames_total'', dc_forwarded_frames d),
      (prefix @ ''_small_frames_total'', dc_small_frames d),
      (prefix @ ''_control_frames_total'', dc_control_frames d),
      (prefix @ ''_frames_le_64_bytes_total'', dc_le_64 d),
      (prefix @ ''_frames_le_1024_bytes_total'', dc_le_1024 d),
      (prefix @ ''_frames_le_16384_bytes_total'', dc_le_16384 d),
      (prefix @ ''_frames_le_65536_bytes_total'', dc_le_65536 d),
      (prefix @ ''_frames_le_262144_bytes_total'', dc_le_262144 d),
      (prefix @ ''_frames_gt_262144_bytes_total'', dc_gt_262144 d)]"

definition diagnostic_fields :: "counters \<Rightarrow> (string \<times> u64) list" where
  "diagnostic_fields c =
     [(''tls_handshake_success_total'', ct_tls_success c),
      (''http_connection_errors_total'', ct_http_errors c),
      (''websocket_upgrade_failures_total'', ct_upgrade_failures c),
      (''websocket_upgrade_timeouts_total'', ct_upgrade_timeouts c),
      (''websocket_idle_events_total'', ct_idle_events c),
      (''websocket_long_lived_connections_total'', ct_long_lived c),
      (''websocket_short_lived_connections_total'', ct_short_lived c),
      (''websocket_client_closed_total'', ct_client_closed c),
      (''websocket_backend_closed_total'', ct_backend_closed c),
      (''websocket_gateway_shutdown_total'', ct_gateway_shutdown c)]
     @ direction_fields (direction_name Client_To_Backend) (ct_directions c Client_To_Backend)
     @ direction_fields (direction_name Backend_To_Client) (ct_directions c Backend_To_Client)"

definition snapshot_fields :: "observability \<Rightarrow> (string \<times> u64) list" where
  "snapshot_fields ob =
     summary_fields (ob_counters ob)
     @ (if ob_mode ob = Mode_Diagnostic then diagnostic_fields (ob_counters ob) else [])"

definition snapshot_json :: "nat \<Rightarrow> observability \<Rightarrow> string" where
  "snapshot_json unix_millis ob =
     ''{'' @ quoted ''ts_unix_ms'' @ '':'' @ show_nat unix_millis @ '',''
     @ json_text ''role'' ''gateway'' @ '',''
     @ json_text ''profile'' (mode_name (ob_mode ob))
     @ concat (map (\<lambda>(name, n). '','' @ json_number name n) (snapshot_fields ob))
     @ ''}''"

text \<open>
  The writer appends one record when it starts, one at every tick and one at shutdown.  A failing
  write may have stored a part of its bytes; the loop goes on.
\<close>

datatype append_fault = Append_Ok | Append_Failed nat io_error

definition append_all :: "append_fault \<Rightarrow> bytes \<Rightarrow> bytes \<Rightarrow> (io_error + unit) \<times> bytes" where
  "append_all fault data content =
     (case fault of
        Append_Ok \<Rightarrow> (Inr (), content @ data)
      | Append_Failed n e \<Rightarrow> (Inl e, content @ take n data))"

record snapshot_faults =
  sf_line :: append_fault
  sf_end :: append_fault
  sf_flush :: "io_error option"

definition append_snapshot ::
  "snapshot_faults \<Rightarrow> nat \<Rightarrow> observability \<Rightarrow> bytes \<Rightarrow> (anyhow + unit) \<times> bytes"
where
  "append_snapshot faults unix_millis ob content =
     (case append_all (sf_line faults) (snapshot_json unix_millis ob) content of
        (Inl e, content) \<Rightarrow> (Inl [''failed to append observability JSONL'', io_message e], content)
      | (Inr _, content) \<Rightarrow>
          (case append_all (sf_end faults) [CHR 0x0A] content of
             (Inl e, content) \<Rightarrow>
               (Inl [''failed to terminate observability JSONL record'', io_message e], content)
           | (Inr _, content) \<Rightarrow>
               (case sf_flush faults of
                  Some e \<Rightarrow> (Inl [''failed to flush observability JSONL record'', io_message e], content)
                | None \<Rightarrow> (Inr (), content))))"

text \<open>What the task has appended after its first record, some ticks and, last, the one of the shutdown.\<close>

definition run_writer :: "(snapshot_faults \<times> nat \<times> observability) list \<Rightarrow> bytes \<Rightarrow> bytes" where
  "run_writer rounds content =
     fold (\<lambda>(faults, unix_millis, ob) content. snd (append_snapshot faults unix_millis ob content))
       rounds content"

section \<open>How many rejections are logged\<close>

lemma push_bit_one_unat: "k < 64 \<Longrightarrow> unat (push_bit k 1 :: u64) = 2 ^ k"
  by (simp only: unsigned_push_bit_eq unsigned_1) (simp add: push_bit_eq_mult take_bit_nat_eq_self)

lemma unat_max64: "unat (- 1 :: u64) = u64_max"
  by (simp add: unsigned_minus_1_eq_mask mask_eq_exp_minus_1 u64_max_def)

lemma unat_Suc64: "unat (n :: u64) < u64_max \<Longrightarrow> n \<noteq> - 1 \<and> unat (n + 1) = Suc (unat n)"
  by (metis Suc_eq_plus1 add.right_inverse unatSuc add.commute add_eq_0_iff less_irrefl unat_max64)

lemma is_power_of_two_iff: "is_power_of_two n \<longleftrightarrow> (\<exists>k < 64. unat n = 2 ^ k)"
proof -
  have "n = push_bit k 1 \<longleftrightarrow> unat n = 2 ^ k" if "k < 64" for k
    using push_bit_one_unat [OF that] by (metis unsigned_word_eqI)
  then show ?thesis by (auto simp: is_power_of_two_def list_ex_iff)
qed

definition rejections :: "admission_rejection \<Rightarrow> observability \<Rightarrow> nat" where
  "rejections reason ob = unat (ct_rejections (ob_counters ob) reason)"

lemma record_admission_rejection_counts:
  assumes "rejections reason ob < u64_max"
  shows "rejections reason (snd (record_admission_rejection reason ob)) = Suc (rejections reason ob)"
    and "fst (record_admission_rejection reason ob) \<longleftrightarrow> (\<exists>k < 64. Suc (rejections reason ob) = 2 ^ k)"
    and "other \<noteq> reason \<Longrightarrow>
      rejections other (snd (record_admission_rejection reason ob)) = rejections other ob"
proof -
  let ?n = "ct_rejections (ob_counters ob) reason"
  have n: "?n \<noteq> -1" "unat (?n + 1) = Suc (unat ?n)"
    using unat_Suc64 assms by (simp_all add: rejections_def)
  then have "saturating_add_one ?n = ?n + 1" by (simp add: saturating_add_one_def)
  with n show
    "rejections reason (snd (record_admission_rejection reason ob)) = Suc (rejections reason ob)"
    "fst (record_admission_rejection reason ob) \<longleftrightarrow> (\<exists>k < 64. Suc (rejections reason ob) = 2 ^ k)"
    "other \<noteq> reason \<Longrightarrow>
      rejections other (snd (record_admission_rejection reason ob)) = rejections other ob"
    by (simp_all add: record_admission_rejection_def rejections_def tally_def increment_def Let_def
        is_power_of_two_iff)
qed

text \<open>A flood of rejections for one reason: what is logged.\<close>

fun reject_flood :: "admission_rejection \<Rightarrow> nat \<Rightarrow> observability \<Rightarrow> bool list \<times> observability" where
  "reject_flood reason 0 ob = ([], ob)"
| "reject_flood reason (Suc n) ob =
     (let (logged, ob) = reject_flood reason n ob;
          (l, ob) = record_admission_rejection reason ob
      in (logged @ [l], ob))"

lemma reject_flood_logs:
  assumes "rejections reason ob = 0" "n \<le> u64_max"
  shows "rejections reason (snd (reject_flood reason n ob)) = n \<and>
    fst (reject_flood reason n ob) = map (\<lambda>i. \<exists>k < 64. Suc i = 2 ^ k) [0..<n]"
  using assms(2)
proof (induction n)
  case (Suc n)
  obtain logged ob' where run: "reject_flood reason n ob = (logged, ob')" by fastforce
  obtain l ob'' where step: "record_admission_rejection reason ob' = (l, ob'')" by fastforce
  from Suc run have n: "rejections reason ob' = n" "logged = map (\<lambda>i. \<exists>k < 64. Suc i = 2 ^ k) [0..<n]"
    by simp_all
  with Suc.prems have "rejections reason ob' < u64_max" by simp
  note counts = record_admission_rejection_counts(1,2) [OF this, unfolded step n, simplified]
  then show ?case by (simp add: run step n)
qed (use assms(1) in simp)

lemma card_powers_le: "card {i. i < n \<and> (\<exists>k < 64. Suc i = 2 ^ k)} \<le> 64"
proof -
  have "{i. i < n \<and> (\<exists>k < 64. Suc i = 2 ^ k)} \<subseteq> (\<lambda>k. 2 ^ k - 1) ` {..<64::nat}" by force
  from card_mono [OF _ this] have "card {i. i < n \<and> (\<exists>k < 64. Suc i = 2 ^ k)} \<le> card ((\<lambda>k. 2 ^ k - 1 :: nat) ` {..<64::nat})"
    by simp
  also have "\<dots> \<le> 64" using card_image_le [of "{..<64::nat}"] by (metis card_lessThan finite_lessThan)
  finally show ?thesis .
qed

lemma reject_flood_few_logs:
  assumes "rejections reason ob = 0" "n \<le> u64_max"
  shows "length (filter (\<lambda>l. l) (fst (reject_flood reason n ob))) \<le> 64"
  unfolding reject_flood_logs [OF assms, THEN conjunct2] filter_map length_map o_def
  using card_powers_le [of n] by (simp add: length_filter_conv_card cong: conj_cong)

section \<open>The gauges under interleaving\<close>

text \<open>
  Registering a connection is two atomic operations: \<open>fetch_add\<close> on the gauge, which tells the new
  value, and later \<open>fetch_max\<close> of that value on the peak.  Between them other tasks run.  \<open>gs_most\<close>
  records the largest number of connections that were ever live at once.
\<close>

record gauge_system =
  gs_active :: u64
  gs_peak :: u64
  gs_pending :: "u64 list"
  gs_live :: nat
  gs_most :: nat

definition gauge_start :: gauge_system where
  "gauge_start = \<lparr> gs_active = 0, gs_peak = 0, gs_pending = [], gs_live = 0, gs_most = 0 \<rparr>"

inductive gauge_step :: "gauge_system \<Rightarrow> gauge_system \<Rightarrow> bool" where
  gs_enter: "gs_live g < u64_max \<Longrightarrow> increment_active (gs_active g) = (current, active) \<Longrightarrow>
    gauge_step g (g\<lparr>gs_active := active, gs_pending := gs_pending g @ [current],
      gs_live := Suc (gs_live g), gs_most := max (gs_most g) (Suc (gs_live g))\<rparr>)"
| gs_publish: "gs_pending g = before @ current # after \<Longrightarrow>
    gauge_step g (g\<lparr>gs_peak := max (gs_peak g) current, gs_pending := before @ after\<rparr>)"
| gs_leave: "0 < gs_live g \<Longrightarrow>
    gauge_step g (g\<lparr>gs_active := gs_active g - 1, gs_live := gs_live g - 1\<rparr>)"

definition gauge_ok :: "gauge_system \<Rightarrow> bool" where
  "gauge_ok g \<longleftrightarrow> unat (gs_active g) = gs_live g \<and> gs_live g \<le> gs_most g \<and>
     Max (insert (unat (gs_peak g)) (unat ` set (gs_pending g))) = gs_most g"

lemma gauge_start_ok: "gauge_ok gauge_start"
  by (simp add: gauge_ok_def gauge_start_def)

lemma unat_max_word: "unat (max a b) = max (unat a) (unat b)"
  by (simp add: max_def word_le_nat_alt)

lemma Max_insert_max:
  "finite S \<Longrightarrow> Max (insert (max a b) S) = Max (insert a (insert b S))"
  by (cases "S = {}") (simp_all add: max.assoc)

lemma gauge_step_ok:
  assumes "gauge_step g g'" "gauge_ok g"
  shows "gauge_ok g'"
  using assms
proof (induction rule: gauge_step.induct)
  case (gs_enter g current active)
  have live: "unat (gs_active g) = gs_live g" using gs_enter(3) by (simp add: gauge_ok_def)
  with gs_enter(1) have "gs_active g \<noteq> -1" "unat (gs_active g + 1) = Suc (unat (gs_active g))"
    using unat_Suc64 by simp_all
  with gs_enter(2) live have new: "unat active = Suc (gs_live g)" "unat current = Suc (gs_live g)"
    by (auto simp: increment_active_def increment_def saturating_add_one_def)
  let ?s = "insert (unat (gs_peak g)) (unat ` set (gs_pending g))"
  have "insert (unat (gs_peak g)) (unat ` set (gs_pending g @ [current])) = insert (Suc (gs_live g)) ?s"
    using new by auto
  moreover have "Max (insert (Suc (gs_live g)) ?s) = max (Suc (gs_live g)) (gs_most g)"
    using gs_enter(3) by (subst Max_insert) (simp_all add: gauge_ok_def)
  ultimately show ?case
    using new by (simp add: gauge_ok_def max.commute)
next
  case (gs_publish g before current after)
  then show ?case
    by (simp add: gauge_ok_def unat_max_word Max_insert_max del: Max_insert)
next
  case (gs_leave g)
  then have "unat (gs_active g) = gs_live g" by (simp add: gauge_ok_def)
  with gs_leave(1) have "unat (gs_active g - 1) = gs_live g - 1"
    by (metis unat_gt_0 unat_minus_one)
  then show ?case using gs_leave by (simp add: gauge_ok_def) linarith
qed

lemma gauge_reachable_ok: "gauge_step\<^sup>*\<^sup>* gauge_start g \<Longrightarrow> gauge_ok g"
  by (induction rule: rtranclp_induct) (auto intro: gauge_start_ok gauge_step_ok)

text \<open>Without a registration under way, the peak is the largest number of connections there ever was.\<close>

lemma gauge_exact:
  assumes "gauge_step\<^sup>*\<^sup>* gauge_start g" "gs_pending g = []"
  shows "unat (gs_peak g) = gs_most g" "unat (gs_active g) = gs_live g"
  using gauge_reachable_ok [OF assms(1)] assms(2) by (simp_all add: gauge_ok_def)

section \<open>One record per line\<close>

definition plain_name :: "string \<Rightarrow> bool" where
  "plain_name s \<longleftrightarrow> CHR 0x0A \<notin> set s"

lemma show_nat_plain: "CHR 0x0A \<notin> set (show_nat n)"
  using show_nat_digits [of "CHR 0x0A" n] by (auto simp: is_ascii_digit_def byte_def)

lemma snapshot_names_plain: "f \<in> set (snapshot_fields ob) \<Longrightarrow> plain_name (fst f)"
  unfolding snapshot_fields_def summary_fields_def diagnostic_fields_def direction_fields_def
  by (auto simp: plain_name_def split: if_splits)

lemma json_number_plain: "plain_name name \<Longrightarrow> CHR 0x0A \<notin> set (json_number name n)"
  by (simp add: json_number_def quoted_def plain_name_def show_nat_plain)

lemma snapshot_json_plain: "CHR 0x0A \<notin> set (snapshot_json unix_millis ob)"
proof -
  have "CHR 0x0A \<notin> set (mode_name (ob_mode ob))" by (cases "ob_mode ob") simp_all
  then show ?thesis
    using snapshot_names_plain [of _ ob]
    by (auto simp: snapshot_json_def json_text_def quoted_def show_nat_plain json_number_plain)
qed

definition no_append_faults :: "snapshot_faults \<Rightarrow> bool" where
  "no_append_faults faults \<longleftrightarrow> sf_line faults = Append_Ok \<and> sf_end faults = Append_Ok"

lemma append_snapshot_appends:
  "\<exists>data. snd (append_snapshot faults unix_millis ob content) = content @ data"
  by (auto simp: append_snapshot_def append_all_def split: append_fault.splits option.splits)

lemma append_snapshot_line:
  "no_append_faults faults \<Longrightarrow>
     snd (append_snapshot faults unix_millis ob content) = content @ snapshot_json unix_millis ob @ [CHR 0x0A]"
  by (simp add: append_snapshot_def append_all_def no_append_faults_def split: option.splits)

lemma run_writer_appends: "\<exists>data. run_writer rounds content = content @ data"
proof (induction rounds arbitrary: content)
  case (Cons r rounds)
  obtain faults unix_millis ob where r: "r = (faults, unix_millis, ob)" by (cases r)
  obtain d where d: "snd (append_snapshot faults unix_millis ob content) = content @ d"
    using append_snapshot_appends by blast
  from Cons.IH [of "content @ d"] show ?case by (auto simp: run_writer_def r d)
qed (simp add: run_writer_def)

lemma run_writer_lines:
  assumes "\<forall>(faults, unix_millis, ob) \<in> set rounds. no_append_faults faults"
    and "content = [] \<or> last content = CHR 0x0A"
  shows "split_on (CHR 0x0A) (run_writer rounds content) =
    butlast (split_on (CHR 0x0A) content)
    @ map (\<lambda>(faults, unix_millis, ob). snapshot_json unix_millis ob) rounds @ [[]]"
  using assms
proof (induction rounds arbitrary: content)
  case Nil
  then show ?case
  proof (cases "content = []")
    case False
    with Nil obtain s where "content = s @ [CHR 0x0A]" by (metis append_butlast_last_id)
    then show ?thesis by (simp add: run_writer_def split_on_append_sep)
  qed (simp add: run_writer_def)
next
  case (Cons r rounds)
  obtain faults unix_millis ob where r: "r = (faults, unix_millis, ob)" by (cases r)
  let ?line = "snapshot_json unix_millis ob"
  have "no_append_faults faults" using Cons.prems(1) by (simp add: r)
  note line = append_snapshot_line [OF this]
  have ended: "content @ ?line @ [CHR 0x0A] = [] \<or> last (content @ ?line @ [CHR 0x0A]) = CHR 0x0A" by simp
  have "butlast (split_on (CHR 0x0A) (content @ ?line @ [CHR 0x0A])) =
      butlast (split_on (CHR 0x0A) content) @ [?line]"
  proof (cases "content = []")
    case True
    then show ?thesis
      using split_on_append_sep [of "CHR 0x0A" ?line "[]"] split_on_no_sep_id [OF snapshot_json_plain]
      by simp
  next
    case False
    with Cons.prems(2) obtain s where s: "content = s @ [CHR 0x0A]" by (metis append_butlast_last_id)
    have "split_on (CHR 0x0A) (s @ CHR 0x0A # ?line @ CHR 0x0A # []) = split_on (CHR 0x0A) s @ [?line] @ [[]]"
      unfolding split_on_append_sep by (simp add: split_on_no_sep_id [OF snapshot_json_plain])
    then show ?thesis by (simp add: s butlast_append split_on_append_sep [of _ s "[]", simplified])
  qed
  with Cons.IH [OF _ ended] Cons.prems(1) show ?case
    by (simp add: run_writer_def r line)
qed

declare observability_new_def [eval_simps] as_secs_def [eval_simps] tally_def [eval_simps]
  count_diagnostic_def [eval_simps] increment_def [eval_simps] saturating_add_one_def [eval_simps]
  is_power_of_two_def [eval_simps] record_admission_rejection_def [eval_simps]
  counters_default_def [eval_simps] direction_counters_default_def [eval_simps]
  increment_active_def [eval_simps] begin_transport_connection_def [eval_simps]
  begin_websocket_connection_def [eval_simps] record_forwarded_frame_def [eval_simps]
  frame_size_class_def [eval_simps] count_direction_def [eval_simps]
  record_control_frame_def [eval_simps] record_websocket_closed_def [eval_simps]

end
