(* ===== verification/Relay_Diagnostics.thy ===== *)
theory Relay_Diagnostics
  imports Observability Websocket_Message
begin

text \<open>
  \<open>src/gateway/relay.rs\<close>, the bookkeeping of a relay: the stage and the counters of a direction, what a
  snapshot of them says, how a pump reports its end, why a relay closes, and which episodes without
  progress are counted.  An atomic \<open>u8\<close> that holds a stage holds its number; times are milliseconds
  since the relay started, read from the clock and given as arguments.
\<close>

section \<open>Stages\<close>

datatype relay_stage =
    Awaiting_Read | Waiting_Writer_Lock | Writing_Data_Frame | Writing_Control_Frame
  | Writing_Stream_Bytes | Flushing_Frame | Stage_Peer_Closed | Stage_Cancelled | Stage_Ended

primrec stage_u8 :: "relay_stage \<Rightarrow> u8" where
  "stage_u8 Awaiting_Read = 0"
| "stage_u8 Waiting_Writer_Lock = 1"
| "stage_u8 Writing_Data_Frame = 2"
| "stage_u8 Writing_Control_Frame = 3"
| "stage_u8 Writing_Stream_Bytes = 4"
| "stage_u8 Flushing_Frame = 5"
| "stage_u8 Stage_Peer_Closed = 6"
| "stage_u8 Stage_Cancelled = 7"
| "stage_u8 Stage_Ended = 8"

definition stage_from_u8 :: "u8 \<Rightarrow> relay_stage" where
  "stage_from_u8 n =
     (if n = 0 then Awaiting_Read else if n = 1 then Waiting_Writer_Lock
      else if n = 2 then Writing_Data_Frame else if n = 3 then Writing_Control_Frame
      else if n = 4 then Writing_Stream_Bytes else if n = 5 then Flushing_Frame
      else if n = 6 then Stage_Peer_Closed else if n = 7 then Stage_Cancelled else Stage_Ended)"

primrec stage_name :: "relay_stage \<Rightarrow> string" where
  "stage_name Awaiting_Read = ''awaiting_read''"
| "stage_name Waiting_Writer_Lock = ''waiting_writer_lock''"
| "stage_name Writing_Data_Frame = ''writing_data_frame''"
| "stage_name Writing_Control_Frame = ''writing_control_frame''"
| "stage_name Writing_Stream_Bytes = ''writing_stream_bytes''"
| "stage_name Flushing_Frame = ''flushing_frame''"
| "stage_name Stage_Peer_Closed = ''peer_closed''"
| "stage_name Stage_Cancelled = ''cancelled''"
| "stage_name Stage_Ended = ''ended''"

definition is_waiting_for_input :: "relay_stage \<Rightarrow> bool" where
  "is_waiting_for_input stage \<longleftrightarrow> stage = Awaiting_Read"

definition is_write_path :: "relay_stage \<Rightarrow> bool" where
  "is_write_path stage \<longleftrightarrow>
     stage \<in> {Waiting_Writer_Lock, Writing_Data_Frame, Writing_Control_Frame, Writing_Stream_Bytes,
              Flushing_Frame}"

lemma stage_from_to_u8 [simp]: "stage_from_u8 (stage_u8 stage) = stage"
  by (cases stage) (simp_all add: stage_from_u8_def)

section \<open>Counters of a direction\<close>

text \<open>The wire value of an opcode, and the name a snapshot gives it.\<close>

primrec opcode_u8 :: "opcode \<Rightarrow> u8" where
  "opcode_u8 Continuation = 0x0"
| "opcode_u8 Text = 0x1"
| "opcode_u8 Binary = 0x2"
| "opcode_u8 Close = 0x8"
| "opcode_u8 Ping = 0x9"
| "opcode_u8 Pong = 0xA"

definition opcode_name :: "u8 \<Rightarrow> string" where
  "opcode_name n =
     (if n = 0x0 then ''continuation'' else if n = 0x1 then ''text'' else if n = 0x2 then ''binary''
      else if n = 0x8 then ''close'' else if n = 0x9 then ''ping'' else if n = 0xA then ''pong''
      else ''none'')"

record diagnostics =
  dg_enabled :: bool
  dg_detailed :: bool
  dg_stage :: u8
  dg_read_frames :: u64
  dg_forwarded_frames :: u64
  dg_read_bytes :: u64
  dg_forwarded_bytes :: u64
  dg_small_frames :: u64
  dg_control_frames :: u64
  dg_minimum_frame_bytes :: u64
  dg_maximum_frame_bytes :: u64
  dg_last_frame_elapsed :: u64
  dg_last_read_elapsed :: u64
  dg_last_write_elapsed :: u64
  dg_last_activity_elapsed :: u64
  dg_max_inter_frame_gap :: u64
  dg_last_frame_opcode :: u8
  dg_last_frame_fin :: u8
  dg_last_frame_payload_bytes :: u64

definition diagnostics_new :: "bool \<Rightarrow> bool \<Rightarrow> diagnostics" where
  "diagnostics_new enabled detailed =
     \<lparr> dg_enabled = enabled, dg_detailed = detailed, dg_stage = stage_u8 Awaiting_Read,
       dg_read_frames = 0, dg_forwarded_frames = 0, dg_read_bytes = 0, dg_forwarded_bytes = 0,
       dg_small_frames = 0, dg_control_frames = 0, dg_minimum_frame_bytes = -1,
       dg_maximum_frame_bytes = 0, dg_last_frame_elapsed = 0, dg_last_read_elapsed = 0,
       dg_last_write_elapsed = 0, dg_last_activity_elapsed = 0, dg_max_inter_frame_gap = 0,
       dg_last_frame_opcode = -1, dg_last_frame_fin = 0, dg_last_frame_payload_bytes = 0 \<rparr>"

definition saturating_sub :: "u64 \<Rightarrow> u64 \<Rightarrow> u64" where
  "saturating_sub a b = (if b \<le> a then a - b else 0)"

definition set_stage :: "relay_stage \<Rightarrow> diagnostics \<Rightarrow> diagnostics" where
  "set_stage stage d = (if \<not> dg_enabled d then d else d\<lparr>dg_stage := stage_u8 stage\<rparr>)"

definition record_last_frame :: "opcode \<Rightarrow> bool \<Rightarrow> u64 \<Rightarrow> diagnostics \<Rightarrow> diagnostics" where
  "record_last_frame op fin payload_bytes d =
     d\<lparr>dg_last_frame_opcode := opcode_u8 op, dg_last_frame_fin := (if fin then 1 else 0),
       dg_last_frame_payload_bytes := payload_bytes\<rparr>"

definition record_read :: "u64 \<Rightarrow> opcode \<Rightarrow> bool \<Rightarrow> nat \<Rightarrow> diagnostics \<Rightarrow> diagnostics" where
  "record_read now op fin payload_len d =
     (if \<not> dg_enabled d then d
      else if \<not> dg_detailed d then d
      else
        let payload_bytes = of_nat payload_len;
            previous = dg_last_frame_elapsed d;
            d = d\<lparr>dg_last_frame_elapsed := now\<rparr>;
            d = (if 0 < previous
                 then d\<lparr>dg_max_inter_frame_gap := max (dg_max_inter_frame_gap d) (saturating_sub now previous)\<rparr>
                 else d);
            d = d\<lparr>dg_last_activity_elapsed := now, dg_last_read_elapsed := now\<rparr>;
            d = record_last_frame op fin payload_bytes d;
            d = d\<lparr>dg_read_frames := dg_read_frames d + 1, dg_read_bytes := dg_read_bytes d + payload_bytes\<rparr>;
            d = (if payload_bytes \<le> 1024 then d\<lparr>dg_small_frames := dg_small_frames d + 1\<rparr> else d)
        in d\<lparr>dg_minimum_frame_bytes := min (dg_minimum_frame_bytes d) payload_bytes,
             dg_maximum_frame_bytes := max (dg_maximum_frame_bytes d) payload_bytes\<rparr>)"

text \<open>The clock is read twice.\<close>

definition record_forwarded :: "u64 \<Rightarrow> u64 \<Rightarrow> nat \<Rightarrow> diagnostics \<Rightarrow> diagnostics" where
  "record_forwarded now later payload_len d =
     (if \<not> dg_enabled d then d
      else
        let d = d\<lparr>dg_forwarded_frames := dg_forwarded_frames d + 1,
                  dg_forwarded_bytes := dg_forwarded_bytes d + of_nat payload_len\<rparr> in
        if \<not> dg_detailed d then set_stage Awaiting_Read d
        else set_stage Awaiting_Read (d\<lparr>dg_last_activity_elapsed := now, dg_last_write_elapsed := later\<rparr>))"

definition diagnose_control_frame :: "u64 \<Rightarrow> opcode \<Rightarrow> bool \<Rightarrow> nat \<Rightarrow> diagnostics \<Rightarrow> diagnostics" where
  "diagnose_control_frame now op fin payload_len d =
     (if \<not> dg_detailed d then d
      else record_last_frame op fin (of_nat payload_len)
             (d\<lparr>dg_control_frames := dg_control_frames d + 1, dg_last_activity_elapsed := now,
               dg_last_read_elapsed := now\<rparr>))"

record snapshot =
  sn_stage :: relay_stage
  sn_read_frames :: u64
  sn_forwarded_frames :: u64
  sn_read_bytes :: u64
  sn_forwarded_bytes :: u64
  sn_small_frames :: u64
  sn_control_frames :: u64
  sn_minimum_frame_bytes :: "u64 option"
  sn_maximum_frame_bytes :: u64
  sn_max_inter_frame_gap :: u64
  sn_last_activity_idle :: u64
  sn_last_read_idle :: u64
  sn_last_write_idle :: u64
  sn_last_frame_opcode :: string
  sn_last_frame_fin :: bool
  sn_last_frame_payload_bytes :: u64

definition diagnostics_snapshot :: "u64 \<Rightarrow> diagnostics \<Rightarrow> snapshot" where
  "diagnostics_snapshot now d =
     \<lparr> sn_stage = stage_from_u8 (dg_stage d), sn_read_frames = dg_read_frames d,
       sn_forwarded_frames = dg_forwarded_frames d, sn_read_bytes = dg_read_bytes d,
       sn_forwarded_bytes = dg_forwarded_bytes d, sn_small_frames = dg_small_frames d,
       sn_control_frames = dg_control_frames d,
       sn_minimum_frame_bytes =
         (if dg_minimum_frame_bytes d \<noteq> -1 then Some (dg_minimum_frame_bytes d) else None),
       sn_maximum_frame_bytes = dg_maximum_frame_bytes d,
       sn_max_inter_frame_gap = dg_max_inter_frame_gap d,
       sn_last_activity_idle = saturating_sub now (dg_last_activity_elapsed d),
       sn_last_read_idle = saturating_sub now (dg_last_read_elapsed d),
       sn_last_write_idle = saturating_sub now (dg_last_write_elapsed d),
       sn_last_frame_opcode = opcode_name (dg_last_frame_opcode d),
       sn_last_frame_fin = (dg_last_frame_fin d \<noteq> 0),
       sn_last_frame_payload_bytes = dg_last_frame_payload_bytes d \<rparr>"

definition diagnostics_finish :: "u64 \<Rightarrow> relay_stage \<Rightarrow> diagnostics \<Rightarrow> snapshot \<times> diagnostics" where
  "diagnostics_finish now stage d =
     (let d = set_stage stage d in (diagnostics_snapshot now d, d))"

definition finish_current_stage :: "u64 \<Rightarrow> diagnostics \<Rightarrow> snapshot \<times> diagnostics" where
  "finish_current_stage now d = (diagnostics_snapshot now d, set_stage Stage_Ended d)"

text \<open>\<open>elapsed_millis\<close>: whole milliseconds since the start, at most \<open>u64::MAX\<close>.\<close>

definition elapsed_millis :: "instant \<Rightarrow> instant \<Rightarrow> u64" where
  "elapsed_millis started now = of_nat (min ((now - started) div 1000000) u64_max)"

section \<open>The end of a pump and of a relay\<close>

text \<open>
  The errors of the WebSocket library that the gateway tells apart; the message checks of
  \<open>Websocket_Message\<close> are among them.  \<open>Other_Error\<close> stands for all others, I/O errors included.
\<close>

datatype relay_error =
    Message_Error websocket_error
  | Ping_Frame_Too_Large
  | Invalid_Close_Frame
  | Invalid_Close_Code
  | Reserved_Bits_Not_Zero
  | Control_Frame_Fragmented
  | Invalid_Value
  | Connection_Closed
  | Other_Error string

datatype pump_end = End_Peer_Closed | End_Cancelled | End_Error relay_error

record pump_report =
  pr_direction :: relay_direction
  pr_final_snapshot :: snapshot
  pr_end :: pump_end

definition report_cancelled :: "relay_direction \<Rightarrow> u64 \<Rightarrow> diagnostics \<Rightarrow> pump_report \<times> diagnostics" where
  "report_cancelled direction now d =
     (let (s, d) = diagnostics_finish now Stage_Cancelled d in
      (\<lparr> pr_direction = direction, pr_final_snapshot = s, pr_end = End_Cancelled \<rparr>, d))"

definition report_peer_closed :: "relay_direction \<Rightarrow> u64 \<Rightarrow> diagnostics \<Rightarrow> pump_report \<times> diagnostics" where
  "report_peer_closed direction now d =
     (let (s, d) = diagnostics_finish now Stage_Peer_Closed d in
      (\<lparr> pr_direction = direction, pr_final_snapshot = s, pr_end = End_Peer_Closed \<rparr>, d))"

definition report_error ::
  "relay_direction \<Rightarrow> u64 \<Rightarrow> relay_error \<Rightarrow> diagnostics \<Rightarrow> pump_report \<times> diagnostics"
where
  "report_error direction now e d =
     (let (s, d) = finish_current_stage now d in
      (\<lparr> pr_direction = direction, pr_final_snapshot = s, pr_end = End_Error e \<rparr>, d))"

datatype close_reason =
  Client_Closed | Backend_Closed | Gateway_Shutdown | Relay_Failed | Internal_Error

definition report_close_reason :: "pump_report \<Rightarrow> close_reason" where
  "report_close_reason r =
     (case (pr_end r, pr_direction r) of
        (End_Peer_Closed, Client_To_Backend) \<Rightarrow> Client_Closed
      | (End_Peer_Closed, Backend_To_Client) \<Rightarrow> Backend_Closed
      | (End_Error _, _) \<Rightarrow> Relay_Failed
      | (End_Cancelled, _) \<Rightarrow> Internal_Error)"

primrec close_reason_name :: "close_reason \<Rightarrow> string" where
  "close_reason_name Client_Closed = ''client_closed''"
| "close_reason_name Backend_Closed = ''backend_closed''"
| "close_reason_name Gateway_Shutdown = ''gateway_shutdown''"
| "close_reason_name Relay_Failed = ''relay_error''"
| "close_reason_name Internal_Error = ''internal_error''"

primrec close_reason_class :: "close_reason \<Rightarrow> close_class" where
  "close_reason_class Client_Closed = Class_Client_Closed"
| "close_reason_class Backend_Closed = Class_Backend_Closed"
| "close_reason_class Gateway_Shutdown = Class_Gateway_Shutdown"
| "close_reason_class Relay_Failed = Class_Relay_Error"
| "close_reason_class Internal_Error = Class_Internal_Error"

section \<open>Episodes without progress\<close>

record progress_tracker =
  pt_forwarded_frames :: u64
  pt_forwarded_bytes :: u64
  pt_idle_reported :: bool
  pt_no_progress_reported :: bool

definition progress_tracker_new :: progress_tracker where
  "progress_tracker_new =
     \<lparr> pt_forwarded_frames = 0, pt_forwarded_bytes = 0, pt_idle_reported = False,
       pt_no_progress_reported = False \<rparr>"

text \<open>Without the log line that the configuration may ask for.\<close>

definition observe_progress ::
  "snapshot \<Rightarrow> snapshot \<Rightarrow> progress_tracker \<Rightarrow> observability \<Rightarrow> progress_tracker \<times> observability"
where
  "observe_progress upstream downstream tracker ob =
     (let forwarded_frames = sn_forwarded_frames upstream + sn_forwarded_frames downstream;
          forwarded_bytes = sn_forwarded_bytes upstream + sn_forwarded_bytes downstream;
          progressed = (forwarded_frames \<noteq> pt_forwarded_frames tracker);
          (tracker, ob) =
            (if progressed
             then (tracker\<lparr>pt_idle_reported := False, pt_no_progress_reported := False\<rparr>, ob)
             else if is_waiting_for_input (sn_stage upstream) \<and> is_waiting_for_input (sn_stage downstream)
             then (if \<not> pt_idle_reported tracker
                   then (tracker\<lparr>pt_idle_reported := True\<rparr>, record_websocket_idle_event ob)
                   else (tracker, ob))
             else if (is_write_path (sn_stage upstream) \<or> is_write_path (sn_stage downstream))
                     \<and> \<not> pt_no_progress_reported tracker
             then (tracker\<lparr>pt_no_progress_reported := True\<rparr>, record_websocket_no_progress_event ob)
             else (tracker, ob))
      in (tracker\<lparr>pt_forwarded_frames := forwarded_frames, pt_forwarded_bytes := forwarded_bytes\<rparr>, ob))"

declare stage_from_u8_def [eval_simps] is_waiting_for_input_def [eval_simps] is_write_path_def [eval_simps]
  opcode_name_def [eval_simps] diagnostics_new_def [eval_simps] saturating_sub_def [eval_simps]
  set_stage_def [eval_simps] record_last_frame_def [eval_simps] record_read_def [eval_simps]
  record_forwarded_def [eval_simps] diagnose_control_frame_def [eval_simps]
  diagnostics_snapshot_def [eval_simps] diagnostics_finish_def [eval_simps]
  finish_current_stage_def [eval_simps] report_cancelled_def [eval_simps]
  report_peer_closed_def [eval_simps] report_error_def [eval_simps] report_close_reason_def [eval_simps]
  progress_tracker_new_def [eval_simps] observe_progress_def [eval_simps]
  record_websocket_idle_event_def [eval_simps] record_websocket_no_progress_event_def [eval_simps]

end
