(* ===== verification/Relay_Pump.thy ===== *)
theory Relay_Pump
  imports Relay_Diagnostics Ip_Blocking
begin

text \<open>
  \<open>src/gateway/relay.rs\<close>, the pumps: one task per direction reads frames or bytes and forwards them.
  The WebSocket library that parses frames is not part of the repository.  What it does between two
  suspension points of a pump is an event: a frame was read, the library wants a control frame
  answered, reading failed, or the cancellation was noticed first.  What became of a write is part of
  the event.
\<close>

section \<open>Writers\<close>

text \<open>
  What a writer was given: a frame that was written and flushed, one whose flush did not finish, or
  one of which an unknown part was written.  Every entry says which code wrote it: the pump that
  forwards, the answer to a control frame, or the end of the relay.
\<close>

datatype wire_item = Sent frame | Unflushed frame | Cut frame
datatype wire_source = Forwarded | Replied | Closing
type_synonym wire = "(wire_source \<times> wire_item) list"

primrec item_frame :: "wire_item \<Rightarrow> frame" where
  "item_frame (Sent f) = f"
| "item_frame (Unflushed f) = f"
| "item_frame (Cut f) = f"

text \<open>
  How \<open>select!\<close> over the cancellation and \<open>write_frame_and_flush\<close> ends.  \<open>None\<close> for an error means
  that the cancellation was noticed.
\<close>

datatype write_outcome =
    Write_Done
  | Lock_Cancelled
  | Write_Cut "relay_error option"
  | Flush_Cut "relay_error option"

fun write_cancelled :: "write_outcome \<Rightarrow> bool" where
  "write_cancelled Lock_Cancelled = True"
| "write_cancelled (Write_Cut None) = True"
| "write_cancelled (Flush_Cut None) = True"
| "write_cancelled _ = False"

primrec cut_error :: "relay_error option \<Rightarrow> relay_error" where
  "cut_error None = Connection_Closed"
| "cut_error (Some e) = e"

definition forward_frame ::
  "write_outcome \<Rightarrow> wire_source \<Rightarrow> frame \<Rightarrow> relay_stage \<Rightarrow> diagnostics \<times> wire
   \<Rightarrow> (relay_error + unit) \<times> diagnostics \<times> wire"
where
  "forward_frame outcome source frame write_stage = (\<lambda>(d, wire).
     let d = set_stage Waiting_Writer_Lock d in
     case outcome of
       Lock_Cancelled \<Rightarrow> (Inl Connection_Closed, d, wire)
     | Write_Cut e \<Rightarrow> (Inl (cut_error e), set_stage write_stage d, wire @ [(source, Cut frame)])
     | Flush_Cut e \<Rightarrow>
         (Inl (cut_error e), set_stage Flushing_Frame (set_stage write_stage d),
          wire @ [(source, Unflushed frame)])
     | Write_Done \<Rightarrow>
         (Inr (), set_stage Flushing_Frame (set_stage write_stage d), wire @ [(source, Sent frame)]))"

text \<open>
  \<open>best_effort_close\<close>: a time-out counts as an error; the result is ignored.  The library makes the
  frame, from a code and a reason.
\<close>

type_synonym close_frames = "nat \<Rightarrow> string \<Rightarrow> frame"

definition best_effort_close ::
  "close_frames \<Rightarrow> write_outcome \<Rightarrow> nat \<Rightarrow> string \<Rightarrow> wire \<Rightarrow> wire"
where
  "best_effort_close frame_close outcome code reason wire =
     (case outcome of
        Lock_Cancelled \<Rightarrow> wire
      | Write_Cut _ \<Rightarrow> wire @ [(Closing, Cut (frame_close code reason))]
      | Flush_Cut _ \<Rightarrow> wire @ [(Closing, Unflushed (frame_close code reason))]
      | Write_Done \<Rightarrow> wire @ [(Closing, Sent (frame_close code reason))])"

section \<open>Errors that count against the client\<close>

definition error_rule :: "relay_error \<Rightarrow> violation_rule option" where
  "error_rule e =
     (case e of
        Message_Error Frame_Too_Large \<Rightarrow> Some Size_Violation
      | Ping_Frame_Too_Large \<Rightarrow> Some Size_Violation
      | Message_Error Invalid_Fragment \<Rightarrow> Some Invalid_Websocket
      | Message_Error Invalid_UTF8 \<Rightarrow> Some Invalid_Websocket
      | Message_Error Invalid_Continuation_Frame \<Rightarrow> Some Invalid_Websocket
      | Invalid_Close_Frame \<Rightarrow> Some Invalid_Websocket
      | Invalid_Close_Code \<Rightarrow> Some Invalid_Websocket
      | Reserved_Bits_Not_Zero \<Rightarrow> Some Invalid_Websocket
      | Control_Frame_Fragmented \<Rightarrow> Some Invalid_Websocket
      | Invalid_Value \<Rightarrow> Some Invalid_Websocket
      | Connection_Closed \<Rightarrow> None
      | Other_Error _ \<Rightarrow> None)"

text \<open>The calls of \<open>record_client_protocol_violation\<close> are collected; only one pump has a client to blame.\<close>

definition record_client_error ::
  "bool \<Rightarrow> relay_error \<Rightarrow> violation_rule list \<Rightarrow> violation_rule list"
where
  "record_client_error client e violations =
     (case error_rule e of
        None \<Rightarrow> violations
      | Some rule \<Rightarrow> if client then violations @ [rule] else violations)"

section \<open>The pump between two WebSockets\<close>

record link =
  lk_own :: wire
  lk_target :: wire
  lk_ob :: observability
  lk_violations :: "violation_rule list"

record clock =
  ck_read :: u64
  ck_forwarded :: u64
  ck_written :: u64
  ck_end :: u64

record pump =
  pu_messages :: bounded_messages
  pu_frames :: "frame list"
  pu_diagnostics :: diagnostics
  pu_report :: "pump_report option"

datatype pump_event =
    Ev_Cancelled
  | Ev_Control frame write_outcome
  | Ev_Frame frame write_outcome
  | Ev_Read_Error relay_error

definition pump_new :: "nat \<Rightarrow> diagnostics \<Rightarrow> pump" where
  "pump_new maximum d =
     \<lparr> pu_messages = bounded_messages_new maximum, pu_frames = [],
       pu_diagnostics = set_stage Awaiting_Read d, pu_report = None \<rparr>"

definition pump_fail ::
  "relay_direction \<Rightarrow> clock \<Rightarrow> relay_error \<Rightarrow> pump \<Rightarrow> pump"
where
  "pump_fail direction clk e pump =
     (let (r, d) = report_error direction (ck_end clk) e (pu_diagnostics pump)
      in pump\<lparr>pu_report := Some r, pu_diagnostics := d\<rparr>)"

definition control_seen ::
  "relay_direction \<Rightarrow> clock \<Rightarrow> frame \<Rightarrow> pump \<times> link \<Rightarrow> pump \<times> link"
where
  "control_seen direction clk frame = (\<lambda>(pump, link).
     (pump\<lparr>pu_diagnostics := diagnose_control_frame (ck_read clk) (fm_opcode frame) (fm_fin frame)
         (length (fm_payload frame)) (pu_diagnostics pump)\<rparr>,
      link\<lparr>lk_ob := record_control_frame direction (lk_ob link)\<rparr>))"

text \<open>\<open>send_control\<close>: the library answers a ping or a close on the writer of its own side.\<close>

definition send_control ::
  "relay_direction \<Rightarrow> clock \<Rightarrow> frame \<Rightarrow> write_outcome \<Rightarrow> pump \<times> link \<Rightarrow> pump \<times> link"
where
  "send_control direction clk frame outcome st =
     (let (pump, link) = control_seen direction clk frame st;
          (r, d, wire) = forward_frame outcome Replied frame Writing_Control_Frame
            (pu_diagnostics pump, lk_own link)
      in (pump\<lparr>pu_diagnostics := d\<rparr>, link\<lparr>lk_own := wire\<rparr>))"

text \<open>The branches for a complete message.  The loop starts over by awaiting the next one.\<close>

definition pump_data ::
  "relay_direction \<Rightarrow> clock \<Rightarrow> frame \<Rightarrow> write_outcome \<Rightarrow> pump \<times> link \<Rightarrow> pump \<times> link"
where
  "pump_data direction clk frame outcome = (\<lambda>(pump, link).
     let payload_bytes = length (fm_payload frame);
         d = record_read (ck_read clk) (fm_opcode frame) (fm_fin frame) payload_bytes (pu_diagnostics pump)
     in case forward_frame outcome Forwarded frame Writing_Data_Frame (d, lk_target link) of
          (Inl e, d, wire) \<Rightarrow>
            (pump_fail direction clk e (pump\<lparr>pu_diagnostics := d\<rparr>), link\<lparr>lk_target := wire\<rparr>)
        | (Inr _, d, wire) \<Rightarrow>
            (pump\<lparr>pu_diagnostics := set_stage Awaiting_Read
               (record_forwarded (ck_forwarded clk) (ck_written clk) payload_bytes d)\<rparr>,
             link\<lparr>lk_target := wire,
                  lk_ob := record_forwarded_frame direction payload_bytes (lk_ob link)\<rparr>))"

definition pump_close ::
  "relay_direction \<Rightarrow> clock \<Rightarrow> frame \<Rightarrow> write_outcome \<Rightarrow> pump \<times> link \<Rightarrow> pump \<times> link"
where
  "pump_close direction clk frame outcome st =
     (let (pump, link) = control_seen direction clk frame st
      in case forward_frame outcome Forwarded frame Writing_Control_Frame
              (pu_diagnostics pump, lk_target link) of
           (Inl e, d, wire) \<Rightarrow>
             (pump_fail direction clk e (pump\<lparr>pu_diagnostics := d\<rparr>), link\<lparr>lk_target := wire\<rparr>)
         | (Inr _, d, wire) \<Rightarrow>
             let (r, d) = report_peer_closed direction (ck_end clk) d
             in (pump\<lparr>pu_report := Some r, pu_diagnostics := d\<rparr>, link\<lparr>lk_target := wire\<rparr>))"

definition pump_message ::
  "relay_direction \<Rightarrow> clock \<Rightarrow> frame \<Rightarrow> write_outcome \<Rightarrow> pump \<times> link \<Rightarrow> pump \<times> link"
where
  "pump_message direction clk frame outcome st =
     (case fm_opcode frame of
        Text \<Rightarrow> pump_data direction clk frame outcome st
      | Binary \<Rightarrow> pump_data direction clk frame outcome st
      | Close \<Rightarrow> pump_close direction clk frame outcome st
      | _ \<Rightarrow>
          let (pump, link) = control_seen direction clk frame st
          in (pump\<lparr>pu_diagnostics := set_stage Awaiting_Read (pu_diagnostics pump)\<rparr>, link))"

definition pump_read_error ::
  "relay_direction \<Rightarrow> bool \<Rightarrow> clock \<Rightarrow> relay_error \<Rightarrow> pump \<times> link \<Rightarrow> pump \<times> link"
where
  "pump_read_error direction client clk e = (\<lambda>(pump, link).
     (pump_fail direction clk e pump,
      link\<lparr>lk_violations := record_client_error client e (lk_violations link)\<rparr>))"

definition pump_step ::
  "relay_direction \<Rightarrow> bool \<Rightarrow> clock \<Rightarrow> pump_event \<Rightarrow> pump \<times> link \<Rightarrow> pump \<times> link"
where
  "pump_step direction client clk event = (\<lambda>(pump, link).
     case event of
       Ev_Cancelled \<Rightarrow>
         let (r, d) = report_cancelled direction (ck_end clk) (pu_diagnostics pump)
         in (pump\<lparr>pu_report := Some r, pu_diagnostics := d\<rparr>, link)
     | Ev_Control frame outcome \<Rightarrow> send_control direction clk frame outcome (pump, link)
     | Ev_Read_Error e \<Rightarrow> pump_read_error direction client clk e (pump, link)
     | Ev_Frame frame outcome \<Rightarrow>
         let (r, messages) = collect_frame (pu_messages pump) frame;
             pump = pump\<lparr>pu_messages := messages, pu_frames := pu_frames pump @ [frame]\<rparr>
         in case r of
              Inl e \<Rightarrow> pump_read_error direction client clk (Message_Error e) (pump, link)
            | Inr None \<Rightarrow> (pump, link)
            | Inr (Some message) \<Rightarrow> pump_message direction clk message outcome (pump, link))"

section \<open>The pumps between a WebSocket and a TCP stream\<close>

text \<open>
  The stream takes bytes; a write that fails has stored a part of them.  \<open>ts_shutdown\<close> says that the
  sending side was closed.
\<close>

record tcp_stream =
  ts_bytes :: bytes
  ts_shutdown :: bool

datatype stream_outcome = Stream_Done | Stream_Cancelled nat | Stream_Failed nat string

record tcp_link =
  tk_own :: wire
  tk_stream :: tcp_stream
  tk_ob :: observability
  tk_violations :: "violation_rule list"

record ws_tcp_pump =
  wt_messages :: message_sequence
  wt_frames :: "frame list"
  wt_diagnostics :: diagnostics
  wt_report :: "pump_report option"

datatype ws_tcp_event =
    Wt_Cancelled
  | Wt_Control frame write_outcome
  | Wt_Frame frame stream_outcome bool
  | Wt_Read_Error relay_error

definition ws_tcp_new :: "nat \<Rightarrow> diagnostics \<Rightarrow> ws_tcp_pump" where
  "ws_tcp_new maximum d =
     \<lparr> wt_messages = message_sequence_new maximum, wt_frames = [],
       wt_diagnostics = set_stage Awaiting_Read d, wt_report = None \<rparr>"

definition wt_fail :: "clock \<Rightarrow> relay_error \<Rightarrow> ws_tcp_pump \<Rightarrow> ws_tcp_pump" where
  "wt_fail clk e pump =
     (let (r, d) = report_error Client_To_Backend (ck_end clk) e (wt_diagnostics pump)
      in pump\<lparr>wt_report := Some r, wt_diagnostics := d\<rparr>)"

definition wt_cancel :: "clock \<Rightarrow> ws_tcp_pump \<Rightarrow> ws_tcp_pump" where
  "wt_cancel clk pump =
     (let (r, d) = report_cancelled Client_To_Backend (ck_end clk) (wt_diagnostics pump)
      in pump\<lparr>wt_report := Some r, wt_diagnostics := d\<rparr>)"

definition wt_control_seen :: "clock \<Rightarrow> frame \<Rightarrow> ws_tcp_pump \<times> tcp_link \<Rightarrow> ws_tcp_pump \<times> tcp_link" where
  "wt_control_seen clk frame = (\<lambda>(pump, link).
     (pump\<lparr>wt_diagnostics := diagnose_control_frame (ck_read clk) (fm_opcode frame) (fm_fin frame)
         (length (fm_payload frame)) (wt_diagnostics pump)\<rparr>,
      link\<lparr>tk_ob := record_control_frame Client_To_Backend (tk_ob link)\<rparr>))"

definition wt_send_control ::
  "clock \<Rightarrow> frame \<Rightarrow> write_outcome \<Rightarrow> ws_tcp_pump \<times> tcp_link \<Rightarrow> ws_tcp_pump \<times> tcp_link"
where
  "wt_send_control clk frame outcome st =
     (let (pump, link) = wt_control_seen clk frame st;
          (r, d, wire) = forward_frame outcome Replied frame Writing_Control_Frame
            (wt_diagnostics pump, tk_own link)
      in (pump\<lparr>wt_diagnostics := d\<rparr>, link\<lparr>tk_own := wire\<rparr>))"

definition stream_write :: "bytes \<Rightarrow> tcp_stream \<Rightarrow> tcp_stream" where
  "stream_write data stream = stream\<lparr>ts_bytes := ts_bytes stream @ data\<rparr>"

definition wt_data ::
  "clock \<Rightarrow> frame \<Rightarrow> stream_outcome \<Rightarrow> ws_tcp_pump \<times> tcp_link \<Rightarrow> ws_tcp_pump \<times> tcp_link"
where
  "wt_data clk frame outcome = (\<lambda>(pump, link).
     let payload = fm_payload frame;
         payload_bytes = length payload;
         d = record_read (ck_read clk) (fm_opcode frame) (fm_fin frame) payload_bytes (wt_diagnostics pump);
         pump = pump\<lparr>wt_diagnostics := set_stage Writing_Stream_Bytes d\<rparr>
     in case outcome of
          Stream_Cancelled n \<Rightarrow>
            (wt_cancel clk pump, link\<lparr>tk_stream := stream_write (take n payload) (tk_stream link)\<rparr>)
        | Stream_Failed n e \<Rightarrow>
            (wt_fail clk (Other_Error e) pump,
             link\<lparr>tk_stream := stream_write (take n payload) (tk_stream link)\<rparr>)
        | Stream_Done \<Rightarrow>
            (pump\<lparr>wt_diagnostics := set_stage Awaiting_Read
               (record_forwarded (ck_forwarded clk) (ck_written clk) payload_bytes (wt_diagnostics pump))\<rparr>,
             link\<lparr>tk_stream := stream_write payload (tk_stream link),
                  tk_ob := record_forwarded_frame Client_To_Backend payload_bytes (tk_ob link)\<rparr>))"

text \<open>A close frame shuts the sending side of the stream down, if that succeeds in time; then the pump returns.\<close>

definition wt_close ::
  "clock \<Rightarrow> frame \<Rightarrow> bool \<Rightarrow> ws_tcp_pump \<times> tcp_link \<Rightarrow> ws_tcp_pump \<times> tcp_link"
where
  "wt_close clk frame shut st =
     (let (pump, link) = wt_control_seen clk frame st;
          (r, d) = report_peer_closed Client_To_Backend (ck_end clk) (wt_diagnostics pump)
      in (pump\<lparr>wt_report := Some r, wt_diagnostics := d\<rparr>,
          if shut then link\<lparr>tk_stream := (tk_stream link)\<lparr>ts_shutdown := True\<rparr>\<rparr> else link))"

definition wt_read_error ::
  "bool \<Rightarrow> clock \<Rightarrow> relay_error \<Rightarrow> ws_tcp_pump \<times> tcp_link \<Rightarrow> ws_tcp_pump \<times> tcp_link"
where
  "wt_read_error client clk e = (\<lambda>(pump, link).
     (wt_fail clk e pump, link\<lparr>tk_violations := record_client_error client e (tk_violations link)\<rparr>))"

definition ws_tcp_turn ::
  "bool \<Rightarrow> clock \<Rightarrow> ws_tcp_event \<Rightarrow> ws_tcp_pump \<times> tcp_link \<Rightarrow> ws_tcp_pump \<times> tcp_link"
where
  "ws_tcp_turn client clk event = (\<lambda>(pump, link).
     case event of
       Wt_Cancelled \<Rightarrow> (wt_cancel clk pump, link)
     | Wt_Control frame outcome \<Rightarrow> wt_send_control clk frame outcome (pump, link)
     | Wt_Read_Error e \<Rightarrow> wt_read_error client clk e (pump, link)
     | Wt_Frame frame outcome shut \<Rightarrow>
         let (r, messages) = sequence_validate (wt_messages pump) frame;
             pump = pump\<lparr>wt_messages := messages, wt_frames := wt_frames pump @ [frame]\<rparr>
         in case r of
              Inl e \<Rightarrow> wt_read_error client clk (Message_Error e) (pump, link)
            | Inr _ \<Rightarrow>
                (case fm_opcode frame of
                   Text \<Rightarrow> wt_data clk frame outcome (pump, link)
                 | Binary \<Rightarrow> wt_data clk frame outcome (pump, link)
                 | Continuation \<Rightarrow> wt_data clk frame outcome (pump, link)
                 | Close \<Rightarrow> wt_close clk frame shut (pump, link)
                 | _ \<Rightarrow>
                     let (pump, link) = wt_control_seen clk frame (pump, link)
                     in (pump\<lparr>wt_diagnostics := set_stage Awaiting_Read (wt_diagnostics pump)\<rparr>, link)))"

text \<open>
  The pump owns the writing half of the stream.  When it returns, for whatever reason, the half is
  dropped, and dropping it shuts the sending side down (as the library documents it).
\<close>

definition drop_write_half :: "tcp_stream \<Rightarrow> tcp_stream" where
  "drop_write_half stream = stream\<lparr>ts_shutdown := True\<rparr>"

definition ws_tcp_step ::
  "bool \<Rightarrow> clock \<Rightarrow> ws_tcp_event \<Rightarrow> ws_tcp_pump \<times> tcp_link \<Rightarrow> ws_tcp_pump \<times> tcp_link"
where
  "ws_tcp_step client clk event st =
     (let (pump, link) = ws_tcp_turn client clk event st
      in (pump, if wt_report pump = None then link else link\<lparr>tk_stream := drop_write_half (tk_stream link)\<rparr>))"

text \<open>Towards the client every read of the stream, at most a buffer full, is one binary frame.\<close>

definition tcp_bridge_read_buffer_bytes :: nat where
  "tcp_bridge_read_buffer_bytes = 64 * 1024"

record tcp_ws_pump =
  tw_read :: bytes
  tw_diagnostics :: diagnostics
  tw_report :: "pump_report option"

record client_link =
  cl_writer :: wire
  cl_ob :: observability

datatype tcp_ws_event =
    Tw_Cancelled
  | Tw_Read bytes write_outcome
  | Tw_Read_Error string

definition tcp_ws_new :: "diagnostics \<Rightarrow> tcp_ws_pump" where
  "tcp_ws_new d = \<lparr> tw_read = [], tw_diagnostics = set_stage Awaiting_Read d, tw_report = None \<rparr>"

definition tw_fail :: "clock \<Rightarrow> relay_error \<Rightarrow> tcp_ws_pump \<Rightarrow> tcp_ws_pump" where
  "tw_fail clk e pump =
     (let (r, d) = report_error Backend_To_Client (ck_end clk) e (tw_diagnostics pump)
      in pump\<lparr>tw_report := Some r, tw_diagnostics := d\<rparr>)"

definition tcp_ws_step ::
  "clock \<Rightarrow> tcp_ws_event \<Rightarrow> tcp_ws_pump \<times> client_link \<Rightarrow> tcp_ws_pump \<times> client_link"
where
  "tcp_ws_step clk event = (\<lambda>(pump, link).
     case event of
       Tw_Cancelled \<Rightarrow>
         let (r, d) = report_cancelled Backend_To_Client (ck_end clk) (tw_diagnostics pump)
         in (pump\<lparr>tw_report := Some r, tw_diagnostics := d\<rparr>, link)
     | Tw_Read_Error e \<Rightarrow> (tw_fail clk (Other_Error e) pump, link)
     | Tw_Read arrived outcome \<Rightarrow>
         let data = take tcp_bridge_read_buffer_bytes arrived;
             pump = pump\<lparr>tw_read := tw_read pump @ data\<rparr> in
         if data = [] then
           let (r, d) = report_peer_closed Backend_To_Client (ck_end clk) (tw_diagnostics pump)
           in (pump\<lparr>tw_report := Some r, tw_diagnostics := d\<rparr>, link)
         else
           let d = record_read (ck_read clk) Binary True (length data) (tw_diagnostics pump);
               frame = \<lparr> fm_fin = True, fm_opcode = Binary, fm_payload = data \<rparr>
           in case forward_frame outcome Forwarded frame Writing_Data_Frame (d, cl_writer link) of
                (Inl e, d, wire) \<Rightarrow>
                  (tw_fail clk e (pump\<lparr>tw_diagnostics := d\<rparr>), link\<lparr>cl_writer := wire\<rparr>)
              | (Inr _, d, wire) \<Rightarrow>
                  (pump\<lparr>tw_diagnostics := set_stage Awaiting_Read
                     (record_forwarded (ck_forwarded clk) (ck_written clk) (length data) d)\<rparr>,
                   link\<lparr>cl_writer := wire,
                        cl_ob := record_forwarded_frame Backend_To_Client (length data) (cl_ob link)\<rparr>))"

declare forward_frame_def [eval_simps] best_effort_close_def [eval_simps]
  error_rule_def [eval_simps] record_client_error_def [eval_simps] pump_new_def [eval_simps]
  pump_fail_def [eval_simps] control_seen_def [eval_simps] send_control_def [eval_simps]
  pump_data_def [eval_simps] pump_close_def [eval_simps] pump_message_def [eval_simps]
  pump_read_error_def [eval_simps] pump_step_def [eval_simps] ws_tcp_new_def [eval_simps]
  wt_fail_def [eval_simps] wt_cancel_def [eval_simps] wt_control_seen_def [eval_simps]
  wt_send_control_def [eval_simps] stream_write_def [eval_simps] wt_data_def [eval_simps]
  wt_close_def [eval_simps] wt_read_error_def [eval_simps] ws_tcp_turn_def [eval_simps]
  drop_write_half_def [eval_simps] ws_tcp_step_def [eval_simps]
  tcp_bridge_read_buffer_bytes_def [eval_simps] tcp_ws_new_def [eval_simps] tw_fail_def [eval_simps]
  tcp_ws_step_def [eval_simps]

end
