(* ===== verification/Relay_Correct.thy ===== *)
theory Relay_Correct
  imports Relay_Pump
begin

text \<open>
  What the pumps guarantee, one step at a time: the frames a pump forwards are the messages the frames
  it has read consist of, in order, each once and unchanged; only the last one may be incomplete, and
  then the pump has ended.  Only the client is blamed for protocol errors, at most once.
\<close>

section \<open>The messages in what was read\<close>

fun collect_after :: "bounded_messages \<Rightarrow> frame list \<Rightarrow> bounded_messages" where
  "collect_after bm [] = bm"
| "collect_after bm (f # fs) = collect_after (snd (collect_frame bm f)) fs"

lemma collect_after_append: "collect_after bm (fs @ gs) = collect_after (collect_after bm fs) gs"
  by (induction fs arbitrary: bm) simp_all

lemma collect_stream_snoc:
  assumes "snd (collect_stream bm fs) = None"
  shows "collect_stream bm (fs @ [f]) =
    (case collect_frame (collect_after bm fs) f of
       (Inl e, _) \<Rightarrow> (fst (collect_stream bm fs), Some e)
     | (Inr None, _) \<Rightarrow> (fst (collect_stream bm fs), None)
     | (Inr (Some m), _) \<Rightarrow> (fst (collect_stream bm fs) @ [m], None))"
  using assms
proof (induction fs arbitrary: bm)
  case Nil
  then show ?case by (simp split: prod.splits sum.splits option.splits)
next
  case (Cons g fs)
  obtain r bm' where g: "collect_frame bm g = (r, bm')" by fastforce
  show ?case
  proof (cases r)
    case (Inl e)
    with Cons.prems g show ?thesis by simp
  next
    case (Inr m)
    then have "snd (collect_stream bm' fs) = None"
      using Cons.prems g by (cases m) (simp_all add: case_prod_beta)
    from Cons.IH [OF this] show ?thesis
      using g Inr
      by (cases m; cases "collect_frame (collect_after bm' fs) f")
        (auto simp: case_prod_beta split: sum.splits option.splits)
  qed
qed

section \<open>The forwarding invariant\<close>

definition passes :: "frame \<Rightarrow> bool" where
  "passes m \<longleftrightarrow> fm_opcode m \<in> {Text, Binary, Close}"

definition items_of :: "wire_source \<Rightarrow> wire \<Rightarrow> wire_item list" where
  "items_of source wire = map snd (filter (\<lambda>x. fst x = source) wire)"

lemma items_of_simps [simp]:
  "items_of source [] = []"
  "items_of source (v @ w) = items_of source v @ items_of source w"
  "items_of source [(s, i)] = (if s = source then [i] else [])"
  by (simp_all add: items_of_def)

text \<open>What was forwarded out of what was due: all of it whole, except that the last may be cut or missing.\<close>

definition cut_short :: "wire_item list \<Rightarrow> frame list \<Rightarrow> bool" where
  "cut_short items due \<longleftrightarrow>
     items = map Sent due \<or>
     (\<exists>whole m. due = whole @ [m] \<and>
        items \<in> {map Sent whole, map Sent whole @ [Unflushed m], map Sent whole @ [Cut m]})"

definition due_frames :: "nat \<Rightarrow> frame list \<Rightarrow> frame list" where
  "due_frames maximum frames = filter passes (fst (collect_stream (bounded_messages_new maximum) frames))"

definition pump_ok :: "nat \<Rightarrow> pump \<Rightarrow> wire \<Rightarrow> bool" where
  "pump_ok maximum pump wire \<longleftrightarrow>
     (case pu_report pump of
        None \<Rightarrow>
          snd (collect_stream (bounded_messages_new maximum) (pu_frames pump)) = None \<and>
          pu_messages pump = collect_after (bounded_messages_new maximum) (pu_frames pump) \<and>
          items_of Forwarded wire = map Sent (due_frames maximum (pu_frames pump)) \<and>
          (\<forall>m \<in> set (due_frames maximum (pu_frames pump)). fm_opcode m \<noteq> Close)
      | Some r \<Rightarrow>
          cut_short (items_of Forwarded wire) (due_frames maximum (pu_frames pump)) \<and>
          (pr_end r = End_Peer_Closed \<longrightarrow>
             items_of Forwarded wire = map Sent (due_frames maximum (pu_frames pump)) \<and>
             due_frames maximum (pu_frames pump) \<noteq> [] \<and>
             fm_opcode (last (due_frames maximum (pu_frames pump))) = Close))"

lemma pump_ok_same:
  assumes "pu_report p' = pu_report p" "pu_frames p' = pu_frames p" "pu_messages p' = pu_messages p"
    and "items_of Forwarded w' = items_of Forwarded w"
  shows "pump_ok maximum p' w' \<longleftrightarrow> pump_ok maximum p w"
  unfolding pump_ok_def assms ..

lemma pump_new_ok: "items_of Forwarded wire = [] \<Longrightarrow> pump_ok maximum (pump_new maximum d) wire"
  by (simp add: pump_ok_def pump_new_def due_frames_def)

lemma cut_short_all [simp]: "cut_short (map Sent due) due" "cut_short (map Sent due @ [Sent m]) (due @ [m])"
  by (simp_all add: cut_short_def)

lemma forward_frame_result:
  assumes "forward_frame outcome source frame stage (d, wire) = (r, d', wire')"
  shows "r = Inr () \<Longrightarrow> wire' = wire @ [(source, Sent frame)]"
    and "r = Inl e \<Longrightarrow> wire' \<in> {wire, wire @ [(source, Unflushed frame)], wire @ [(source, Cut frame)]}"
    and "s \<noteq> source \<Longrightarrow> items_of s wire' = items_of s wire"
  using assms by (auto simp: forward_frame_def Let_def split: write_outcome.splits)

lemma report_error_end: "report_error direction now e d = (r, d') \<Longrightarrow> pr_end r = End_Error e"
  by (auto simp: report_error_def Let_def split: prod.splits)

lemma pump_fail_simps [simp]:
  "pu_frames (pump_fail direction clk e pump) = pu_frames pump"
  "pu_messages (pump_fail direction clk e pump) = pu_messages pump"
  "\<exists>r. pu_report (pump_fail direction clk e pump) = Some r \<and> pr_end r = End_Error e"
  by (auto simp: pump_fail_def report_error_def split: prod.splits)

lemma control_seen_simps:
  assumes "control_seen direction clk frame (pump, link) = (pump', link')"
  shows "pu_frames pump' = pu_frames pump" "pu_messages pump' = pu_messages pump"
    "pu_report pump' = pu_report pump" "lk_own link' = lk_own link" "lk_target link' = lk_target link"
    "lk_violations link' = lk_violations link"
  using assms by (auto simp: control_seen_def)

text \<open>A complete message, from a state in which it is the last one that is due.\<close>

lemma pump_message_ok:
  assumes "pump_message direction clk m outcome (pump, link) = (pump', link')"
    and "pu_report pump = None" and due: "due_frames maximum (pu_frames pump) = due @ (if passes m then [m] else [])"
    and "snd (collect_stream (bounded_messages_new maximum) (pu_frames pump)) = None"
    and "pu_messages pump = collect_after (bounded_messages_new maximum) (pu_frames pump)"
    and "items_of Forwarded (lk_target link) = map Sent due" "\<forall>m \<in> set due. fm_opcode m \<noteq> Close"
  shows "pump_ok maximum pump' (lk_target link')" "lk_own link' = lk_own link"
    "lk_violations link' = lk_violations link"
    "s \<noteq> Forwarded \<Longrightarrow> items_of s (lk_target link') = items_of s (lk_target link)"
proof -
  let ?goal = "pump_ok maximum pump' (lk_target link') \<and> lk_own link' = lk_own link \<and>
    lk_violations link' = lk_violations link \<and>
    (s \<noteq> Forwarded \<longrightarrow> items_of s (lk_target link') = items_of s (lk_target link))"
  have data: ?goal if run: "pump_data direction clk m outcome (pump, link) = (pump', link')"
    and op: "fm_opcode m \<in> {Text, Binary}"
  proof -
    let ?d = "record_read (ck_read clk) (fm_opcode m) (fm_fin m) (length (fm_payload m)) (pu_diagnostics pump)"
    obtain r d wire where f: "forward_frame outcome Forwarded m Writing_Data_Frame (?d, lk_target link) = (r, d, wire)"
      by (metis surj_pair)
    have m: "passes m" using op by (auto simp: passes_def)
    note result = forward_frame_result [OF f]
    show ?thesis
    proof (cases r)
      case (Inl e)
      obtain rep where rep: "pu_report (pump_fail direction clk e (pump\<lparr>pu_diagnostics := d\<rparr>)) = Some rep" "pr_end rep = End_Error e"
        using pump_fail_simps(3) by blast
      have "cut_short (items_of Forwarded wire) (due @ [m])"
        using result(2) [OF Inl] assms(6) by (auto simp: cut_short_def)
      with run f Inl rep due m result(3) [of s] show ?thesis
        by (auto simp: pump_data_def pump_ok_def Let_def)
    next
      case (Inr u)
      with run f due m result(1,3) assms(2,4-7) op show ?thesis
        by (auto simp: pump_data_def pump_ok_def Let_def)
    qed
  qed
  have close: ?goal if run: "pump_close direction clk m outcome (pump, link) = (pump', link')"
    and op: "fm_opcode m = Close"
  proof -
    obtain pump1 link1 where c: "control_seen direction clk m (pump, link) = (pump1, link1)" by fastforce
    note c1 = control_seen_simps [OF c]
    obtain r d wire where f: "forward_frame outcome Forwarded m Writing_Control_Frame (pu_diagnostics pump1, lk_target link1) = (r, d, wire)"
      by (metis surj_pair)
    have m: "passes m" using op by (simp add: passes_def)
    note result = forward_frame_result [OF f]
    show ?thesis
    proof (cases r)
      case (Inl e)
      obtain rep where rep: "pu_report (pump_fail direction clk e (pump1\<lparr>pu_diagnostics := d\<rparr>)) = Some rep" "pr_end rep = End_Error e"
        using pump_fail_simps(3) by blast
      have "cut_short (items_of Forwarded wire) (due @ [m])"
        using result(2) [OF Inl] assms(6) c1 by (auto simp: cut_short_def)
      with run f c Inl rep due m c1 result(3) [of s] show ?thesis
        by (auto simp: pump_close_def pump_ok_def Let_def)
    next
      case (Inr u)
      with run f c due m c1 result(1,3) assms(6) op show ?thesis
        by (auto simp: pump_close_def pump_ok_def Let_def report_peer_closed_def split: prod.splits)
    qed
  qed
  have other: ?goal if op: "fm_opcode m \<in> {Continuation, Ping, Pong}"
  proof -
    obtain pump1 link1 where c: "control_seen direction clk m (pump, link) = (pump1, link1)" by fastforce
    have "\<not> passes m" using op by (auto simp: passes_def)
    with op assms c control_seen_simps [OF c] show ?thesis
      by (auto simp: pump_message_def pump_ok_def)
  qed
  have ?goal
    using assms(1) data close other by (cases "fm_opcode m") (auto simp: pump_message_def)
  then show "pump_ok maximum pump' (lk_target link')" "lk_own link' = lk_own link"
    "lk_violations link' = lk_violations link"
    "s \<noteq> Forwarded \<Longrightarrow> items_of s (lk_target link') = items_of s (lk_target link)"
    by blast+
qed

text \<open>Every event of a pump that has not ended.\<close>

lemma pump_read_error_ok:
  assumes "pump_read_error direction client clk e (pump, link) = (pump', link')"
    and "items_of Forwarded (lk_target link) = map Sent (due_frames maximum (pu_frames pump))"
  shows "pump_ok maximum pump' (lk_target link') \<and> lk_own link' = lk_own link \<and> lk_target link' = lk_target link \<and>
    lk_violations link' = record_client_error client e (lk_violations link)"
proof -
  obtain rep where "pu_report (pump_fail direction clk e pump) = Some rep" "pr_end rep = End_Error e"
    using pump_fail_simps(3) by blast
  with assms show ?thesis by (auto simp: pump_read_error_def pump_ok_def)
qed

lemma send_control_simps:
  assumes "send_control direction clk frame outcome (pump, link) = (pump', link')"
  shows "pu_frames pump' = pu_frames pump" "pu_messages pump' = pu_messages pump"
    "pu_report pump' = pu_report pump" "lk_target link' = lk_target link"
    "s \<noteq> Replied \<Longrightarrow> items_of s (lk_own link') = items_of s (lk_own link)"
    "lk_violations link' = lk_violations link"
proof -
  obtain pump1 link1 where c: "control_seen direction clk frame (pump, link) = (pump1, link1)" by fastforce
  obtain r d wire where f: "forward_frame outcome Replied frame Writing_Control_Frame (pu_diagnostics pump1, lk_own link1) = (r, d, wire)"
    by (metis surj_pair)
  have eq: "pump' = pump1\<lparr>pu_diagnostics := d\<rparr>" "link' = link1\<lparr>lk_own := wire\<rparr>"
    using assms c f by (simp_all add: send_control_def)
  note c1 = control_seen_simps [OF c]
  show "pu_frames pump' = pu_frames pump" "pu_messages pump' = pu_messages pump"
    "pu_report pump' = pu_report pump" "lk_target link' = lk_target link"
    "s \<noteq> Replied \<Longrightarrow> items_of s (lk_own link') = items_of s (lk_own link)"
    "lk_violations link' = lk_violations link"
    using c1 forward_frame_result(3) [OF f, of s] by (simp_all add: eq)
qed

definition blamed :: "violation_rule list \<Rightarrow> violation_rule list \<Rightarrow> bool \<Rightarrow> pump_report option \<Rightarrow> bool" where
  "blamed before after client report \<longleftrightarrow>
     after = before \<or>
     client \<and> (\<exists>r e rule. report = Some r \<and> pr_end r = End_Error e \<and> error_rule e = Some rule \<and>
       after = before @ [rule])"

lemma record_client_error_blamed:
  assumes "\<exists>r. report = Some r \<and> pr_end r = End_Error e"
  shows "blamed before (record_client_error client e before) client report"
  using assms by (auto simp: blamed_def record_client_error_def split: option.splits)

lemma pump_step_ok:
  assumes run: "pump_step direction client clk event (pump, link) = (pump', link')"
    and ok: "pump_ok maximum pump (lk_target link)" and live: "pu_report pump = None"
  shows "pump_ok maximum pump' (lk_target link') \<and>
    (s \<noteq> Replied \<longrightarrow> items_of s (lk_own link') = items_of s (lk_own link)) \<and>
    (s \<noteq> Forwarded \<longrightarrow> items_of s (lk_target link') = items_of s (lk_target link)) \<and>
    blamed (lk_violations link) (lk_violations link') client (pu_report pump')"
proof -
  let ?new = "bounded_messages_new maximum"
  let ?due = "due_frames maximum (pu_frames pump)"
  note inv = ok [unfolded pump_ok_def live, simplified]
  show ?thesis
  proof (cases event)
    case Ev_Cancelled
    then show ?thesis
      using run inv by (auto simp: pump_step_def Let_def report_cancelled_def pump_ok_def blamed_def split: prod.splits)
  next
    case (Ev_Control frame outcome)
    then have "send_control direction clk frame outcome (pump, link) = (pump', link')"
      using run by (simp add: pump_step_def)
    note c = send_control_simps [OF this]
    then show ?thesis using ok pump_ok_same [of pump' pump] by (simp add: blamed_def)
  next
    case (Ev_Read_Error e)
    then have e: "pump_read_error direction client clk e (pump, link) = (pump', link')"
      using run by (simp add: pump_step_def)
    moreover have "pu_report pump' = pu_report (pump_fail direction clk e pump)"
      using e by (auto simp: pump_read_error_def)
    ultimately show ?thesis
      using pump_read_error_ok [OF e conjunct1 [OF conjunct2 [OF conjunct2 [OF inv]]]] pump_fail_simps(3) [of direction clk e pump]
      by (auto intro!: record_client_error_blamed)
  next
    case (Ev_Frame frame outcome)
    obtain r messages where c: "collect_frame (pu_messages pump) frame = (r, messages)" by fastforce
    define pump1 where "pump1 = pump\<lparr>pu_messages := messages, pu_frames := pu_frames pump @ [frame]\<rparr>"
    have frames: "pu_frames pump1 = pu_frames pump @ [frame]" "pu_report pump1 = None"
      "pu_messages pump1 = collect_after ?new (pu_frames pump1)"
      using live c inv by (simp_all add: pump1_def collect_after_append)
    note snoc = collect_stream_snoc [of ?new "pu_frames pump" frame]
    have c': "collect_frame (collect_after ?new (pu_frames pump)) frame = (r, messages)"
      using c inv by simp
    show ?thesis
    proof (cases r)
      case (Inl e)
      then have e: "pump_read_error direction client clk (Message_Error e) (pump1, link) = (pump', link')"
        using run Ev_Frame c by (simp add: pump_step_def pump1_def)
      have "due_frames maximum (pu_frames pump1) = ?due"
        using snoc inv c' Inl by (simp add: due_frames_def frames)
      then have "items_of Forwarded (lk_target link) = map Sent (due_frames maximum (pu_frames pump1))"
        using inv by simp
      from pump_read_error_ok [OF e this]
      have ok': "pump_ok maximum pump' (lk_target link')" "lk_own link' = lk_own link" "lk_target link' = lk_target link"
        "lk_violations link' = record_client_error client (Message_Error e) (lk_violations link)" by blast+
      have "pu_report pump' = pu_report (pump_fail direction clk (Message_Error e) pump1)"
        using e by (auto simp: pump_read_error_def)
      then have "\<exists>r. pu_report pump' = Some r \<and> pr_end r = End_Error (Message_Error e)"
        using pump_fail_simps(3) by metis
      from record_client_error_blamed [OF this] ok' show ?thesis by simp
    next
      case (Inr got)
      show ?thesis
      proof (cases got)
        case None
        then have "pump' = pump1" "link' = link"
          using run Ev_Frame c Inr by (simp_all add: pump_step_def pump1_def)
        then show ?thesis
          using snoc inv c' Inr None frames by (simp add: pump_ok_def due_frames_def blamed_def)
      next
        case (Some m)
        then have m: "pump_message direction clk m outcome (pump1, link) = (pump', link')"
          using run Ev_Frame c Inr by (simp add: pump_step_def pump1_def)
        have due: "due_frames maximum (pu_frames pump1) = ?due @ (if passes m then [m] else [])"
          and none: "snd (collect_stream ?new (pu_frames pump1)) = None"
          using snoc inv c' Inr Some by (simp_all add: due_frames_def frames)
        from pump_message_ok [OF m frames(2) due none frames(3)] inv
        have "pump_ok maximum pump' (lk_target link')" "lk_own link' = lk_own link"
          "lk_violations link' = lk_violations link"
          "s \<noteq> Forwarded \<Longrightarrow> items_of s (lk_target link') = items_of s (lk_target link)" by blast+
        then show ?thesis by (simp add: blamed_def)
      qed
    qed
  qed
qed

end
