(* ===== verification/Relay.thy ===== *)
theory Relay
  imports Relay_Correct
begin

text \<open>
  \<open>src/gateway/relay.rs\<close>, \<open>run\<close> and \<open>run_tcp_backend\<close>: two pumps and the task that supervises them.
  The supervisor waits for the shutdown or for the first pump to end, cancels the other one, waits for
  it, and then closes what nobody has closed.  A relay is a step relation: which task runs next, what
  the peers send and which branch a \<open>select!\<close> takes is up to the environment, but a cancellation is
  noticed only after it was given.
\<close>

section \<open>Two WebSockets\<close>

datatype relay_phase = Running | Draining close_reason | Ended close_reason
datatype task_state = Task_Active | Task_Panicked | Task_Joined

record relay =
  ry_phase :: relay_phase
  ry_up :: pump
  ry_up_task :: task_state
  ry_down :: pump
  ry_down_task :: task_state
  ry_client :: wire
  ry_backend :: wire
  ry_ob :: observability
  ry_violations :: "violation_rule list"
  ry_reports :: "pump_report list"
  ry_tracker :: progress_tracker

definition close_write_timeout :: duration where "close_write_timeout = from_secs 1"
definition short_lived_threshold :: duration where "short_lived_threshold = from_secs 30"
definition long_lived_threshold :: duration where "long_lived_threshold = from_secs (5 * 60)"

definition relay_diagnostics :: "observability \<Rightarrow> diagnostics" where
  "relay_diagnostics ob =
     diagnostics_new (ob_mode ob \<noteq> Mode_Off \<or> detailed_frame_observation ob)
       (detailed_frame_observation ob)"

definition relay_start :: "nat \<Rightarrow> observability \<Rightarrow> relay" where
  "relay_start maximum ob =
     \<lparr> ry_phase = Running, ry_up = pump_new maximum (relay_diagnostics ob), ry_up_task = Task_Active,
       ry_down = pump_new maximum (relay_diagnostics ob), ry_down_task = Task_Active,
       ry_client = [], ry_backend = [], ry_ob = ob, ry_violations = [], ry_reports = [],
       ry_tracker = progress_tracker_new \<rparr>"

text \<open>The limit of the library is one larger than the gateway's, so that the gateway decides.\<close>

definition sdk_message_limit :: "nat \<Rightarrow> nat" where
  "sdk_message_limit maximum = sat_add64 maximum 1"

definition close_code :: "close_reason \<Rightarrow> nat \<times> string" where
  "close_code reason =
     (case reason of
        Gateway_Shutdown \<Rightarrow> (1001, ''gateway shutdown'')
      | Relay_Failed \<Rightarrow> (1011, ''gateway relay error'')
      | Internal_Error \<Rightarrow> (1011, ''gateway relay error'')
      | Client_Closed \<Rightarrow> (1000, '''')
      | Backend_Closed \<Rightarrow> (1000, ''''))"

definition closes_pair :: "close_reason \<Rightarrow> bool" where
  "closes_pair reason \<longleftrightarrow> reason \<in> {Gateway_Shutdown, Relay_Failed, Internal_Error}"

definition record_relay_closed :: "close_reason \<Rightarrow> duration \<Rightarrow> observability \<Rightarrow> observability" where
  "record_relay_closed reason lived =
     record_websocket_closed (close_reason_class reason) (long_lived_threshold \<le> lived)
       (lived \<le> short_lived_threshold)"

text \<open>An event or an outcome that is there only because the cancellation was noticed.\<close>

fun event_cancels :: "pump_event \<Rightarrow> bool" where
  "event_cancels Ev_Cancelled = True"
| "event_cancels (Ev_Control _ outcome) = write_cancelled outcome"
| "event_cancels (Ev_Frame _ outcome) = write_cancelled outcome"
| "event_cancels (Ev_Read_Error _) = False"

definition up_link :: "relay \<Rightarrow> link" where
  "up_link s = \<lparr> lk_own = ry_client s, lk_target = ry_backend s, lk_ob = ry_ob s,
     lk_violations = ry_violations s \<rparr>"

definition down_link :: "relay \<Rightarrow> link" where
  "down_link s = \<lparr> lk_own = ry_backend s, lk_target = ry_client s, lk_ob = ry_ob s,
     lk_violations = ry_violations s \<rparr>"

definition is_ended :: "relay_phase \<Rightarrow> bool" where
  "is_ended phase \<longleftrightarrow> (\<exists>reason. phase = Ended reason)"

text \<open>What the supervisor learns when a task is joined: a report, or that it panicked.\<close>

definition join_result :: "pump_report option \<Rightarrow> task_state \<Rightarrow> pump_report option option" where
  "join_result report task =
     (case task of
        Task_Joined \<Rightarrow> None
      | Task_Panicked \<Rightarrow> Some None
      | Task_Active \<Rightarrow> map_option Some report)"

definition joined_reason :: "pump_report option \<Rightarrow> close_reason" where
  "joined_reason r = (case r of None \<Rightarrow> Internal_Error | Some r \<Rightarrow> report_close_reason r)"

definition joined_reports :: "pump_report option \<Rightarrow> pump_report list \<Rightarrow> pump_report list" where
  "joined_reports r reports = (case r of None \<Rightarrow> reports | Some r \<Rightarrow> reports @ [r])"

definition relay_close ::
  "close_frames \<Rightarrow> write_outcome \<Rightarrow> write_outcome \<Rightarrow> close_reason \<Rightarrow> duration \<Rightarrow> relay \<Rightarrow> relay"
where
  "relay_close frame_close client_outcome backend_outcome reason lived s =
     (let (code, text) = close_code reason;
          s = (if closes_pair reason
               then s\<lparr>ry_client := best_effort_close frame_close client_outcome code text (ry_client s),
                      ry_backend := best_effort_close frame_close backend_outcome code text (ry_backend s)\<rparr>
               else s)
      in s\<lparr>ry_phase := Ended reason, ry_ob := record_relay_closed reason lived (ry_ob s)\<rparr>)"

definition first_error :: "pump_report list \<Rightarrow> pump_report option" where
  "first_error reports = find (\<lambda>r. \<exists>e. pr_end r = End_Error e) reports"

text \<open>
  A pump that has not ended may be anywhere between reading a frame and having flushed it when the
  supervisor looks: the stage it is seen in is up to the environment, the counts of what it has
  forwarded are not.
\<close>

definition seen_diagnostics :: "relay_stage option \<Rightarrow> pump_report option \<Rightarrow> diagnostics \<Rightarrow> diagnostics" where
  "seen_diagnostics stage report d =
     (case stage of None \<Rightarrow> d | Some st \<Rightarrow> if report = None then set_stage st d else d)"

inductive relay_step :: "close_frames \<Rightarrow> relay \<Rightarrow> relay \<Rightarrow> bool" for frame_close where
  ry_up_event: "\<not> is_ended (ry_phase s) \<Longrightarrow> ry_up_task s = Task_Active \<Longrightarrow> pu_report (ry_up s) = None \<Longrightarrow>
    event_cancels event \<longrightarrow> ry_phase s \<noteq> Running \<Longrightarrow>
    pump_step Client_To_Backend True clk event (ry_up s, up_link s) = (pump, link) \<Longrightarrow>
    relay_step frame_close s (s\<lparr>ry_up := pump, ry_client := lk_own link, ry_backend := lk_target link,
      ry_ob := lk_ob link, ry_violations := lk_violations link\<rparr>)"
| ry_down_event: "\<not> is_ended (ry_phase s) \<Longrightarrow> ry_down_task s = Task_Active \<Longrightarrow> pu_report (ry_down s) = None \<Longrightarrow>
    event_cancels event \<longrightarrow> ry_phase s \<noteq> Running \<Longrightarrow>
    pump_step Backend_To_Client False clk event (ry_down s, down_link s) = (pump, link) \<Longrightarrow>
    relay_step frame_close s (s\<lparr>ry_down := pump, ry_backend := lk_own link, ry_client := lk_target link,
      ry_ob := lk_ob link, ry_violations := lk_violations link\<rparr>)"
| ry_up_panic: "\<not> is_ended (ry_phase s) \<Longrightarrow> ry_up_task s = Task_Active \<Longrightarrow> pu_report (ry_up s) = None \<Longrightarrow>
    relay_step frame_close s (s\<lparr>ry_up_task := Task_Panicked\<rparr>)"
| ry_down_panic: "\<not> is_ended (ry_phase s) \<Longrightarrow> ry_down_task s = Task_Active \<Longrightarrow> pu_report (ry_down s) = None \<Longrightarrow>
    relay_step frame_close s (s\<lparr>ry_down_task := Task_Panicked\<rparr>)"
| ry_shutdown: "ry_phase s = Running \<Longrightarrow>
    relay_step frame_close s (s\<lparr>ry_phase := Draining Gateway_Shutdown\<rparr>)"
| ry_tick: "ry_phase s = Running \<Longrightarrow> ob_mode (ry_ob s) \<noteq> Mode_Off \<Longrightarrow>
    observe_progress (diagnostics_snapshot now (seen_diagnostics up_stage (pu_report (ry_up s)) (pu_diagnostics (ry_up s))))
      (diagnostics_snapshot now' (seen_diagnostics down_stage (pu_report (ry_down s)) (pu_diagnostics (ry_down s))))
      (ry_tracker s) (ry_ob s) = (tracker, ob) \<Longrightarrow>
    relay_step frame_close s (s\<lparr>ry_tracker := tracker, ry_ob := ob\<rparr>)"
| ry_up_join: "\<not> is_ended (ry_phase s) \<Longrightarrow> join_result (pu_report (ry_up s)) (ry_up_task s) = Some r \<Longrightarrow>
    relay_step frame_close s (s\<lparr>ry_up_task := Task_Joined, ry_reports := joined_reports r (ry_reports s),
      ry_phase := (if ry_phase s = Running then Draining (joined_reason r) else ry_phase s)\<rparr>)"
| ry_down_join: "\<not> is_ended (ry_phase s) \<Longrightarrow> join_result (pu_report (ry_down s)) (ry_down_task s) = Some r \<Longrightarrow>
    relay_step frame_close s (s\<lparr>ry_down_task := Task_Joined, ry_reports := joined_reports r (ry_reports s),
      ry_phase := (if ry_phase s = Running then Draining (joined_reason r) else ry_phase s)\<rparr>)"
| ry_close: "ry_phase s = Draining reason \<Longrightarrow> ry_up_task s = Task_Joined \<Longrightarrow> ry_down_task s = Task_Joined \<Longrightarrow>
    relay_step frame_close s (relay_close frame_close client_outcome backend_outcome reason lived s)"

definition relay_reachable :: "close_frames \<Rightarrow> relay \<Rightarrow> relay \<Rightarrow> bool" where
  "relay_reachable frame_close = (relay_step frame_close)\<^sup>*\<^sup>*"

section \<open>The invariant of a relay\<close>

definition blame_ok :: "violation_rule list \<Rightarrow> pump_report option \<Rightarrow> bool" where
  "blame_ok violations report \<longleftrightarrow>
     violations = [] \<or>
     (\<exists>r e rule. report = Some r \<and> pr_end r = End_Error e \<and> error_rule e = Some rule \<and>
        violations = [rule])"

definition open_wire :: "wire \<Rightarrow> bool" where
  "open_wire wire \<longleftrightarrow> items_of Closing wire = []"

text \<open>A closed writer got at most one close frame from the gateway, and nothing after it.\<close>

definition closed_wire :: "close_frames \<Rightarrow> close_reason \<Rightarrow> wire \<Rightarrow> bool" where
  "closed_wire frame_close reason wire \<longleftrightarrow>
     open_wire wire \<or>
     closes_pair reason \<and>
     (\<exists>before item. wire = before @ [(Closing, item)] \<and> open_wire before \<and>
        item_frame item = frame_close (fst (close_code reason)) (snd (close_code reason)))"

definition reports_for :: "relay_direction \<Rightarrow> pump_report option \<Rightarrow> bool" where
  "reports_for direction report \<longleftrightarrow> (\<forall>r. report = Some r \<longrightarrow> pr_direction r = direction)"

definition reason_ok :: "close_reason \<Rightarrow> pump_report option \<Rightarrow> pump_report option \<Rightarrow> bool" where
  "reason_ok reason up down \<longleftrightarrow>
     (reason = Client_Closed \<longrightarrow> (\<exists>r. up = Some r \<and> pr_end r = End_Peer_Closed)) \<and>
     (reason = Backend_Closed \<longrightarrow> (\<exists>r. down = Some r \<and> pr_end r = End_Peer_Closed)) \<and>
     (reason = Relay_Failed \<longrightarrow>
        (\<exists>r e. (up = Some r \<or> down = Some r) \<and> pr_end r = End_Error e))"

definition phase_ok :: "close_frames \<Rightarrow> relay \<Rightarrow> bool" where
  "phase_ok frame_close s \<longleftrightarrow>
     (case ry_phase s of
        Running \<Rightarrow> open_wire (ry_client s) \<and> open_wire (ry_backend s)
      | Draining reason \<Rightarrow>
          open_wire (ry_client s) \<and> open_wire (ry_backend s) \<and> reason_ok reason (pu_report (ry_up s)) (pu_report (ry_down s))
      | Ended reason \<Rightarrow>
          closed_wire frame_close reason (ry_client s) \<and> closed_wire frame_close reason (ry_backend s) \<and>
          reason_ok reason (pu_report (ry_up s)) (pu_report (ry_down s)) \<and>
          ry_up_task s = Task_Joined \<and> ry_down_task s = Task_Joined)"

definition relay_ok :: "close_frames \<Rightarrow> nat \<Rightarrow> relay \<Rightarrow> bool" where
  "relay_ok frame_close maximum s \<longleftrightarrow>
     pump_ok maximum (ry_up s) (ry_backend s) \<and> pump_ok maximum (ry_down s) (ry_client s) \<and>
     reports_for Client_To_Backend (pu_report (ry_up s)) \<and> reports_for Backend_To_Client (pu_report (ry_down s)) \<and>
     blame_ok (ry_violations s) (pu_report (ry_up s)) \<and> phase_ok frame_close s"

lemmas relay_ok_simps = relay_ok_def phase_ok_def

lemma relay_start_ok: "relay_ok frame_close maximum (relay_start maximum ob)"
  by (simp add: relay_ok_simps relay_start_def pump_new_ok reports_for_def blame_ok_def open_wire_def)
    (simp add: pump_new_def)

text \<open>A report of a pump is about its direction, and it stays.\<close>

lemma pump_fail_report:
  "pu_report (pump_fail direction clk e pump) = Some r \<Longrightarrow> pr_direction r = direction"
  by (auto simp: pump_fail_def report_error_def split: prod.splits)

lemma report_peer_closed_direction: "report_peer_closed direction now d = (r, d') \<Longrightarrow> pr_direction r = direction"
  by (auto simp: report_peer_closed_def split: prod.splits)

lemma pump_message_direction:
  assumes "pump_message direction clk m outcome (pump, link) = (pump', link')"
    and "pu_report pump = None" "pu_report pump' = Some r"
  shows "pr_direction r = direction"
proof -
  obtain pump1 link1 where c: "control_seen direction clk m (pump, link) = (pump1, link1)" by fastforce
  note c1 = control_seen_simps(3) [OF c]
  from assms c c1 show ?thesis
    by (cases "fm_opcode m")
      (auto simp: pump_message_def pump_data_def pump_close_def Let_def
        dest: pump_fail_report report_peer_closed_direction split: prod.splits sum.splits)
qed

lemma pump_step_direction:
  assumes "pump_step direction client clk event (pump, link) = (pump', link')"
    and "pu_report pump = None" "pu_report pump' = Some r"
  shows "pr_direction r = direction"
proof (cases event)
  case (Ev_Control frame outcome)
  then have "send_control direction clk frame outcome (pump, link) = (pump', link')"
    using assms(1) by (simp add: pump_step_def)
  with send_control_simps(3) assms(2,3) show ?thesis by force
next
  case (Ev_Frame frame outcome)
  obtain r' messages where c: "collect_frame (pu_messages pump) frame = (r', messages)" by fastforce
  show ?thesis
  proof (cases r')
    case (Inl e)
    with assms Ev_Frame c show ?thesis
      by (auto simp: pump_step_def pump_read_error_def dest: pump_fail_report)
  next
    case (Inr got)
    with assms Ev_Frame c show ?thesis
      by (cases got) (auto simp: pump_step_def elim: pump_message_direction)
  qed
qed (use assms in \<open>auto simp: pump_step_def pump_read_error_def report_cancelled_def Let_def
       dest: pump_fail_report split: prod.splits\<close>)

lemma reason_ok_step:
  assumes "reason_ok reason up down" "up = None \<or> up' = up" "down = None \<or> down' = down"
  shows "reason_ok reason up' down'"
  using assms unfolding reason_ok_def by (metis option.distinct(1))

lemma open_wire_snoc [simp]: "open_wire (w @ [(s, i)]) \<longleftrightarrow> open_wire w \<and> s \<noteq> Closing"
  by (auto simp: open_wire_def)

lemma best_effort_close_ok:
  assumes "open_wire wire" "closes_pair reason" "close_code reason = (code, text)"
  shows "closed_wire frame_close reason (best_effort_close frame_close outcome code text wire)"
  using assms
  by (auto simp: closed_wire_def best_effort_close_def split: write_outcome.splits)

lemma best_effort_close_others:
  "s \<noteq> Closing \<Longrightarrow> items_of s (best_effort_close frame_close outcome code text wire) = items_of s wire"
  by (auto simp: best_effort_close_def split: write_outcome.splits)

lemma phase_ok_live:
  assumes "phase_ok frame_close s" "\<not> is_ended (ry_phase s)"
    and "ry_phase s' = ry_phase s" "items_of Closing (ry_client s') = items_of Closing (ry_client s)"
    "items_of Closing (ry_backend s') = items_of Closing (ry_backend s)"
    and "pu_report (ry_up s) = None \<or> pu_report (ry_up s') = pu_report (ry_up s)"
    and "pu_report (ry_down s) = None \<or> pu_report (ry_down s') = pu_report (ry_down s)"
  shows "phase_ok frame_close s'"
  using assms reason_ok_step [OF _ assms(6,7)]
  by (auto simp: phase_ok_def is_ended_def open_wire_def split: relay_phase.splits)

lemma joined_reason_ok:
  assumes "join_result report task = Some r" "reports_for direction report"
  shows "direction = Client_To_Backend \<Longrightarrow> reason_ok (joined_reason r) report down"
    and "direction = Backend_To_Client \<Longrightarrow> reason_ok (joined_reason r) up report"
  using assms
  by (auto simp: join_result_def joined_reason_def reason_ok_def reports_for_def report_close_reason_def
      split: task_state.splits pump_end.splits relay_direction.splits)

lemma relay_step_ok:
  assumes "relay_step frame_close s s'" "relay_ok frame_close maximum s"
  shows "relay_ok frame_close maximum s'"
  using assms
proof (induction rule: relay_step.induct)
  case (ry_up_event s event clk pump link)
  have ok: "pump_ok maximum (ry_up s) (lk_target (up_link s))"
    using ry_up_event(6) by (simp add: relay_ok_simps up_link_def)
  have step: "pump_ok maximum pump (lk_target link) \<and>
      (k \<noteq> Replied \<longrightarrow> items_of k (lk_own link) = items_of k (lk_own (up_link s))) \<and>
      (k \<noteq> Forwarded \<longrightarrow> items_of k (lk_target link) = items_of k (lk_target (up_link s))) \<and>
      blamed (lk_violations (up_link s)) (lk_violations link) True (pu_report pump)" for k
    by (rule pump_step_ok [OF ry_up_event(5) ok ry_up_event(3)])
  let ?s = "s\<lparr>ry_up := pump, ry_client := lk_own link, ry_backend := lk_target link,
      ry_ob := lk_ob link, ry_violations := lk_violations link\<rparr>"
  have "pump_ok maximum (ry_down s) (lk_own link)"
    using ry_up_event(6) step [of Forwarded] pump_ok_same [of "ry_down s" "ry_down s" "lk_own link" "ry_client s"]
    by (simp add: relay_ok_simps up_link_def)
  moreover have "blame_ok (lk_violations link) (pu_report pump)"
    using step ry_up_event(3,6) by (auto simp: relay_ok_simps blame_ok_def blamed_def up_link_def)
  moreover have "phase_ok frame_close ?s"
    by (rule phase_ok_live [of frame_close s])
      (use ry_up_event step [of Closing] in \<open>auto simp: relay_ok_simps up_link_def\<close>)
  ultimately show ?case
    using step ry_up_event(3,6) pump_step_direction [OF ry_up_event(5,3)]
    by (auto simp: relay_ok_simps reports_for_def)
next
  case (ry_down_event s event clk pump link)
  have ok: "pump_ok maximum (ry_down s) (lk_target (down_link s))"
    using ry_down_event(6) by (simp add: relay_ok_simps down_link_def)
  have step: "pump_ok maximum pump (lk_target link) \<and>
      (k \<noteq> Replied \<longrightarrow> items_of k (lk_own link) = items_of k (lk_own (down_link s))) \<and>
      (k \<noteq> Forwarded \<longrightarrow> items_of k (lk_target link) = items_of k (lk_target (down_link s))) \<and>
      blamed (lk_violations (down_link s)) (lk_violations link) False (pu_report pump)" for k
    by (rule pump_step_ok [OF ry_down_event(5) ok ry_down_event(3)])
  let ?s = "s\<lparr>ry_down := pump, ry_backend := lk_own link, ry_client := lk_target link,
      ry_ob := lk_ob link, ry_violations := lk_violations link\<rparr>"
  have "pump_ok maximum (ry_up s) (lk_own link)"
    using ry_down_event(6) step [of Forwarded] pump_ok_same [of "ry_up s" "ry_up s" "lk_own link" "ry_backend s"]
    by (simp add: relay_ok_simps down_link_def)
  moreover have "blame_ok (lk_violations link) (pu_report (ry_up s))"
    using step ry_down_event(6) by (auto simp: relay_ok_simps blamed_def down_link_def)
  moreover have "phase_ok frame_close ?s"
    by (rule phase_ok_live [of frame_close s])
      (use ry_down_event step [of Closing] in \<open>auto simp: relay_ok_simps down_link_def\<close>)
  ultimately show ?case
    using step ry_down_event(3,6) pump_step_direction [OF ry_down_event(5,3)]
    by (auto simp: relay_ok_simps reports_for_def)
next
  case (ry_up_panic s)
  then show ?case by (auto simp: relay_ok_simps is_ended_def split: relay_phase.splits)
next
  case (ry_down_panic s)
  then show ?case by (auto simp: relay_ok_simps is_ended_def split: relay_phase.splits)
next
  case (ry_shutdown s)
  then show ?case by (simp add: relay_ok_simps reason_ok_def)
next
  case (ry_tick s now up_stage now' down_stage tracker ob)
  then show ?case by (simp add: relay_ok_simps)
next
  case (ry_up_join s r)
  have "reason_ok (joined_reason r) (pu_report (ry_up s)) (pu_report (ry_down s))"
    by (rule joined_reason_ok(1) [OF ry_up_join(2) _ refl]) (use ry_up_join(3) in \<open>simp add: relay_ok_simps\<close>)
  with ry_up_join show ?case by (auto simp: relay_ok_simps is_ended_def split: relay_phase.splits)
next
  case (ry_down_join s r)
  have "reason_ok (joined_reason r) (pu_report (ry_up s)) (pu_report (ry_down s))"
    by (rule joined_reason_ok(2) [OF ry_down_join(2) _ refl]) (use ry_down_join(3) in \<open>simp add: relay_ok_simps\<close>)
  with ry_down_join show ?case by (auto simp: relay_ok_simps is_ended_def split: relay_phase.splits)
next
  case (ry_close s reason client_outcome backend_outcome lived)
  obtain code why where code: "close_code reason = (code, why)" by fastforce
  let ?s' = "relay_close frame_close client_outcome backend_outcome reason lived s"
  have same: "items_of Forwarded (ry_client ?s') = items_of Forwarded (ry_client s)"
    "items_of Forwarded (ry_backend ?s') = items_of Forwarded (ry_backend s)"
    by (simp_all add: relay_close_def code best_effort_close_others)
  have keep: "ry_up ?s' = ry_up s" "ry_down ?s' = ry_down s" "ry_violations ?s' = ry_violations s"
    "ry_phase ?s' = Ended reason" "ry_up_task ?s' = Task_Joined" "ry_down_task ?s' = Task_Joined"
    using ry_close(2,3) by (simp_all add: relay_close_def code)
  have "closed_wire frame_close reason (ry_client ?s') \<and> closed_wire frame_close reason (ry_backend ?s')"
    using ry_close(1,4) best_effort_close_ok [OF _ _ code]
    by (auto simp: relay_close_def code relay_ok_simps closed_wire_def)
  with ry_close(1,4) keep pump_ok_same [of "ry_up s" "ry_up s", OF refl refl refl same(2)]
    pump_ok_same [of "ry_down s" "ry_down s", OF refl refl refl same(1)]
  show ?case by (simp add: relay_ok_simps)
qed

lemma relay_reachable_ok:
  assumes "relay_reachable frame_close (relay_start maximum ob) s"
  shows "relay_ok frame_close maximum s"
  using assms unfolding relay_reachable_def
  by (induction rule: rtranclp_induct) (auto intro: relay_start_ok relay_step_ok)

section \<open>A relay can always end\<close>

lemma reachable_step:
  "relay_reachable frame_close s t \<Longrightarrow> relay_step frame_close t u \<Longrightarrow> relay_reachable frame_close s u"
  unfolding relay_reachable_def by (rule rtranclp.rtrancl_into_rtrancl)

lemma reachable_refl [simp]: "relay_reachable frame_close s s"
  by (simp add: relay_reachable_def)

text \<open>
  Work that is left until an aim is reached, where some step always does one unit of it: after as many
  steps as there is work, it is done.
\<close>

locale drain =
  fixes step :: "'s \<Rightarrow> 's \<Rightarrow> bool" and work :: "'s \<Rightarrow> nat" and aim :: "'s \<Rightarrow> 'a"
  assumes progress: "0 < work s \<Longrightarrow> \<exists>t. step s t \<and> Suc (work t) = work s \<and> aim t = aim s"
begin

lemma drained: "\<exists>t. (step ^^ work s) s t \<and> work t = 0 \<and> aim t = aim s"
proof (induction "work s" arbitrary: s)
  case 0
  then show ?case by (intro exI [of _ s]) simp
next
  case (Suc n)
  then obtain u where u: "step s u" "Suc (work u) = work s" "aim u = aim s"
    using progress [of s] by auto
  with Suc obtain t where t: "(step ^^ work u) u t" "work t = 0" "aim t = aim u" by force
  have "(step ^^ Suc (work u)) s t" using u(1) t(1) by (rule relpowp_Suc_I2)
  with u t show ?case by (intro exI [of _ t]) simp
qed

end

text \<open>What is left to do: end a task, join it, notice the shutdown, close.\<close>

definition task_work :: "task_state \<Rightarrow> pump_report option \<Rightarrow> nat" where
  "task_work task report =
     (case task of
        Task_Joined \<Rightarrow> 0
      | Task_Panicked \<Rightarrow> 1
      | Task_Active \<Rightarrow> if report = None then 2 else 1)"

definition phase_work :: "relay_phase \<Rightarrow> nat" where
  "phase_work phase = (case phase of Running \<Rightarrow> 2 | Draining _ \<Rightarrow> 1 | Ended _ \<Rightarrow> 0)"

definition drain_work :: "relay \<Rightarrow> nat" where
  "drain_work s =
     (if is_ended (ry_phase s) then 0
      else phase_work (ry_phase s) + task_work (ry_up_task s) (pu_report (ry_up s))
        + task_work (ry_down_task s) (pu_report (ry_down s)))"

text \<open>The reason a relay ends with if it is told to end now.\<close>

definition drain_reason :: "relay_phase \<Rightarrow> close_reason" where
  "drain_reason phase =
     (case phase of Running \<Rightarrow> Gateway_Shutdown | Draining reason \<Rightarrow> reason | Ended reason \<Rightarrow> reason)"

definition frames_read :: "relay \<Rightarrow> frame list \<times> frame list" where
  "frames_read s = (pu_frames (ry_up s), pu_frames (ry_down s))"

definition frames_written :: "relay \<Rightarrow> wire_source \<Rightarrow> wire_item list \<times> wire_item list" where
  "frames_written s source = (items_of source (ry_client s), items_of source (ry_backend s))"

text \<open>A pump goes on as it was, or ends because it noticed the cancellation.\<close>

definition only_cancelled :: "pump_report option \<Rightarrow> pump_report option \<Rightarrow> bool" where
  "only_cancelled report report' \<longleftrightarrow>
     report' = report \<or> report = None \<and> (\<exists>r. report' = Some r \<and> pr_end r = End_Cancelled)"

definition no_panic :: "task_state \<Rightarrow> task_state \<Rightarrow> bool" where
  "no_panic task task' \<longleftrightarrow> (task' = Task_Panicked \<longrightarrow> task = Task_Panicked)"

text \<open>
  A step of the shutdown alone: no frame is read, forwarded or answered, no pump fails or panics and
  nobody is blamed; pumps end by the cancellation only.
\<close>

definition relay_shutdown_step :: "close_frames \<Rightarrow> relay \<Rightarrow> relay \<Rightarrow> bool" where
  "relay_shutdown_step frame_close s t \<longleftrightarrow>
     relay_step frame_close s t \<and>
     frames_read t = frames_read s \<and> frames_written t Forwarded = frames_written s Forwarded \<and>
     frames_written t Replied = frames_written s Replied \<and> ry_violations t = ry_violations s \<and>
     only_cancelled (pu_report (ry_up s)) (pu_report (ry_up t)) \<and>
     only_cancelled (pu_report (ry_down s)) (pu_report (ry_down t)) \<and>
     no_panic (ry_up_task s) (ry_up_task t) \<and> no_panic (ry_down_task s) (ry_down_task t)"

lemmas relay_shutdown_simps =
  frames_read_def frames_written_def only_cancelled_def no_panic_def drain_work_def task_work_def phase_work_def
  drain_reason_def

text \<open>A step in which a peer moved: a frame arrived, or the library had a control frame to answer.\<close>

fun moved_by_peer :: "pump_event \<Rightarrow> bool" where
  "moved_by_peer (Ev_Frame _ _) = True"
| "moved_by_peer (Ev_Control _ _) = True"
| "moved_by_peer Ev_Cancelled = False"
| "moved_by_peer (Ev_Read_Error _) = False"

definition peer_step :: "relay \<Rightarrow> relay \<Rightarrow> bool" where
  "peer_step s t \<longleftrightarrow>
     (\<exists>clk event. moved_by_peer event \<and>
        (pump_step Client_To_Backend True clk event (ry_up s, up_link s) = (ry_up t, up_link t) \<or>
         pump_step Backend_To_Client False clk event (ry_down s, down_link s) = (ry_down t, down_link t)))"

lemma pump_step_cancelled:
  obtains r pump' where "pump_step direction client clk Ev_Cancelled (pump, link) = (pump', link)"
    "pu_report pump' = Some r" "pr_end r = End_Cancelled" "pu_frames pump' = pu_frames pump"
proof -
  obtain r d where "report_cancelled direction (ck_end clk) (pu_diagnostics pump) = (r, d)" "pr_end r = End_Cancelled"
    by (cases "diagnostics_finish (ck_end clk) Stage_Cancelled (pu_diagnostics pump)")
      (auto simp: report_cancelled_def)
  then show thesis
    by (intro that [of "pump\<lparr>pu_report := Some r, pu_diagnostics := d\<rparr>" r]) (simp_all add: pump_step_def)
qed

text \<open>What is joined can be joined by a step of the shutdown; what runs can be cancelled.\<close>

lemma drain_join:
  assumes "ry_phase s = Draining reason"
  shows "join_result (pu_report (ry_up s)) (ry_up_task s) = Some r \<Longrightarrow>
      \<exists>t. relay_shutdown_step frame_close s t \<and> Suc (drain_work t) = drain_work s \<and> ry_phase t = Draining reason"
    and "join_result (pu_report (ry_down s)) (ry_down_task s) = Some r \<Longrightarrow>
      \<exists>t. relay_shutdown_step frame_close s t \<and> Suc (drain_work t) = drain_work s \<and> ry_phase t = Draining reason"
proof -
  have live: "\<not> is_ended (ry_phase s)" using assms by (simp add: is_ended_def)
  show "\<exists>t. relay_shutdown_step frame_close s t \<and> Suc (drain_work t) = drain_work s \<and> ry_phase t = Draining reason"
    if "join_result (pu_report (ry_up s)) (ry_up_task s) = Some r"
    by (intro exI conjI, unfold relay_shutdown_step_def, intro conjI, rule ry_up_join [OF live that])
      (use assms that in \<open>auto simp: relay_shutdown_simps join_result_def is_ended_def split: task_state.splits option.splits\<close>)
  show "\<exists>t. relay_shutdown_step frame_close s t \<and> Suc (drain_work t) = drain_work s \<and> ry_phase t = Draining reason"
    if "join_result (pu_report (ry_down s)) (ry_down_task s) = Some r"
    by (intro exI conjI, unfold relay_shutdown_step_def, intro conjI, rule ry_down_join [OF live that])
      (use assms that in \<open>auto simp: relay_shutdown_simps join_result_def is_ended_def split: task_state.splits option.splits\<close>)
qed

lemma drain_cancel:
  assumes "ry_phase s = Draining reason"
  shows "ry_up_task s = Task_Active \<Longrightarrow> pu_report (ry_up s) = None \<Longrightarrow>
      \<exists>t. relay_shutdown_step frame_close s t \<and> Suc (drain_work t) = drain_work s \<and> ry_phase t = Draining reason"
    and "ry_down_task s = Task_Active \<Longrightarrow> pu_report (ry_down s) = None \<Longrightarrow>
      \<exists>t. relay_shutdown_step frame_close s t \<and> Suc (drain_work t) = drain_work s \<and> ry_phase t = Draining reason"
proof -
  have live: "\<not> is_ended (ry_phase s)" "event_cancels Ev_Cancelled \<longrightarrow> ry_phase s \<noteq> Running"
    using assms by (simp_all add: is_ended_def)
  show "\<exists>t. relay_shutdown_step frame_close s t \<and> Suc (drain_work t) = drain_work s \<and> ry_phase t = Draining reason"
    if on: "ry_up_task s = Task_Active" "pu_report (ry_up s) = None"
  proof -
    obtain clk r pump where c: "pump_step Client_To_Backend True clk Ev_Cancelled (ry_up s, up_link s) = (pump, up_link s)"
      "pu_report pump = Some r" "pr_end r = End_Cancelled" "pu_frames pump = pu_frames (ry_up s)"
      by (rule pump_step_cancelled)
    show ?thesis
      by (intro exI conjI, unfold relay_shutdown_step_def, intro conjI, rule ry_up_event [OF live(1) on live(2) c(1)])
        (use assms on c in \<open>simp_all add: relay_shutdown_simps up_link_def is_ended_def\<close>)
  qed
  show "\<exists>t. relay_shutdown_step frame_close s t \<and> Suc (drain_work t) = drain_work s \<and> ry_phase t = Draining reason"
    if on: "ry_down_task s = Task_Active" "pu_report (ry_down s) = None"
  proof -
    obtain clk r pump where c: "pump_step Backend_To_Client False clk Ev_Cancelled (ry_down s, down_link s) = (pump, down_link s)"
      "pu_report pump = Some r" "pr_end r = End_Cancelled" "pu_frames pump = pu_frames (ry_down s)"
      by (rule pump_step_cancelled)
    show ?thesis
      by (intro exI conjI, unfold relay_shutdown_step_def, intro conjI, rule ry_down_event [OF live(1) on live(2) c(1)])
        (use assms on c in \<open>simp_all add: relay_shutdown_simps down_link_def is_ended_def\<close>)
  qed
qed

lemma drain_close:
  assumes "ry_phase s = Draining reason" "ry_up_task s = Task_Joined" "ry_down_task s = Task_Joined"
  shows "\<exists>t. relay_shutdown_step frame_close s t \<and> Suc (drain_work t) = drain_work s \<and> ry_phase t = Ended reason"
proof -
  let ?t = "relay_close frame_close Write_Done Write_Done reason 0 s"
  have "relay_step frame_close s ?t" using assms by (rule ry_close)
  then have "relay_shutdown_step frame_close s ?t"
    by (auto simp: relay_shutdown_step_def relay_shutdown_simps relay_close_def best_effort_close_others split: prod.splits)
  then show ?thesis
    using assms by (intro exI [of _ ?t])
      (simp add: relay_shutdown_simps is_ended_def relay_close_def split: prod.splits)
qed

lemma drain_progress:
  assumes "0 < drain_work s"
  shows "\<exists>t. relay_shutdown_step frame_close s t \<and> Suc (drain_work t) = drain_work s \<and>
    drain_reason (ry_phase t) = drain_reason (ry_phase s)"
proof (cases "ry_phase s")
  case Running
  let ?t = "s\<lparr>ry_phase := Draining Gateway_Shutdown\<rparr>"
  have "relay_shutdown_step frame_close s ?t"
    using ry_shutdown [OF Running] by (simp add: relay_shutdown_step_def relay_shutdown_simps)
  with Running show ?thesis by (intro exI [of _ ?t]) (simp add: relay_shutdown_simps is_ended_def)
next
  case (Draining reason)
  have up: "ry_up_task s = Task_Joined \<or> join_result (pu_report (ry_up s)) (ry_up_task s) \<noteq> None \<or>
      ry_up_task s = Task_Active \<and> pu_report (ry_up s) = None"
    by (cases "ry_up_task s") (auto simp: join_result_def)
  have down: "ry_down_task s = Task_Joined \<or> join_result (pu_report (ry_down s)) (ry_down_task s) \<noteq> None \<or>
      ry_down_task s = Task_Active \<and> pu_report (ry_down s) = None"
    by (cases "ry_down_task s") (auto simp: join_result_def)
  have "\<exists>t. relay_shutdown_step frame_close s t \<and> Suc (drain_work t) = drain_work s \<and>
      (ry_phase t = Draining reason \<or> ry_phase t = Ended reason)"
    using up down drain_join [OF Draining] drain_cancel [OF Draining] drain_close [OF Draining] by blast
  then show ?thesis using Draining by (auto simp: drain_reason_def)
qed (use assms in \<open>simp add: drain_work_def is_ended_def\<close>)

interpretation relay_drain: drain "relay_shutdown_step frame_close" drain_work "\<lambda>s. drain_reason (ry_phase s)" for frame_close
  by unfold_locales (rule drain_progress)

lemma drain_work_0: "drain_work s = 0 \<longleftrightarrow> is_ended (ry_phase s)"
  by (auto simp: drain_work_def phase_work_def is_ended_def split: relay_phase.splits)

lemma drain_work_le: "drain_work s \<le> 6"
  by (auto simp: drain_work_def phase_work_def task_work_def split: relay_phase.splits task_state.splits)

text \<open>
  Once the relay is draining, every step that is not a move of a peer does some of the work: if the
  peers are silent it ends, whatever the environment chooses.
\<close>

lemma drain_or_peer:
  assumes "relay_step frame_close s t" "ry_phase s \<noteq> Running"
  shows "peer_step s t \<or> drain_work t < drain_work s"
  using assms
proof (induction rule: relay_step.induct)
  case (ry_up_event s event clk pump link)
  let ?t = "s\<lparr>ry_up := pump, ry_client := lk_own link, ry_backend := lk_target link,
      ry_ob := lk_ob link, ry_violations := lk_violations link\<rparr>"
  have same: "up_link ?t = link" by (simp add: up_link_def)
  have "pu_report pump \<noteq> None" if "\<not> moved_by_peer event"
    using ry_up_event(5) that
    by (cases event) (auto simp: pump_step_def pump_read_error_def pump_fail_def Let_def split: prod.splits)
  moreover have "peer_step s ?t" if "moved_by_peer event"
    unfolding peer_step_def same using that ry_up_event(5) by (intro exI [of _ clk] exI [of _ event]) simp
  ultimately show ?case
    using ry_up_event(1-3) by (cases "moved_by_peer event") (auto simp: drain_work_def task_work_def)
next
  case (ry_down_event s event clk pump link)
  let ?t = "s\<lparr>ry_down := pump, ry_backend := lk_own link, ry_client := lk_target link,
      ry_ob := lk_ob link, ry_violations := lk_violations link\<rparr>"
  have same: "down_link ?t = link" by (simp add: down_link_def)
  have "pu_report pump \<noteq> None" if "\<not> moved_by_peer event"
    using ry_down_event(5) that
    by (cases event) (auto simp: pump_step_def pump_read_error_def pump_fail_def Let_def split: prod.splits)
  moreover have "peer_step s ?t" if "moved_by_peer event"
    unfolding peer_step_def same using that ry_down_event(5) by (intro exI [of _ clk] exI [of _ event]) simp
  ultimately show ?case
    using ry_down_event(1-3) by (cases "moved_by_peer event") (auto simp: drain_work_def task_work_def)
qed (auto simp: drain_work_def task_work_def phase_work_def is_ended_def join_result_def relay_close_def
    split: relay_phase.splits task_state.splits option.splits prod.splits)

end
