(* ===== verification/Tcp_Relay.thy ===== *)
theory Tcp_Relay
  imports Relay "HOL-Library.Sublist"
begin

text \<open>
  \<open>src/gateway/relay.rs\<close>, \<open>run_tcp_backend\<close>: a WebSocket client in front of a backend that speaks
  plain TCP.  Message boundaries disappear towards the backend and every read becomes one binary
  frame towards the client; no byte is added or reordered in either direction, and only a suffix is
  lost when a direction is cut off.
\<close>

section \<open>The supervisor\<close>

record tcp_relay =
  tr_phase :: relay_phase
  tr_up :: ws_tcp_pump
  tr_up_task :: task_state
  tr_down :: tcp_ws_pump
  tr_down_task :: task_state
  tr_client :: wire
  tr_stream :: tcp_stream
  tr_ob :: observability
  tr_violations :: "violation_rule list"
  tr_reports :: "pump_report list"
  tr_tracker :: progress_tracker

definition tcp_relay_start :: "nat \<Rightarrow> observability \<Rightarrow> tcp_relay" where
  "tcp_relay_start maximum ob =
     \<lparr> tr_phase = Running, tr_up = ws_tcp_new maximum (relay_diagnostics ob), tr_up_task = Task_Active,
       tr_down = tcp_ws_new (relay_diagnostics ob), tr_down_task = Task_Active,
       tr_client = [], tr_stream = \<lparr> ts_bytes = [], ts_shutdown = False \<rparr>, tr_ob = ob,
       tr_violations = [], tr_reports = [], tr_tracker = progress_tracker_new \<rparr>"

fun ws_tcp_cancels :: "ws_tcp_event \<Rightarrow> bool" where
  "ws_tcp_cancels Wt_Cancelled = True"
| "ws_tcp_cancels (Wt_Control _ outcome) = write_cancelled outcome"
| "ws_tcp_cancels (Wt_Frame _ outcome _) = (case outcome of Stream_Cancelled _ \<Rightarrow> True | _ \<Rightarrow> False)"
| "ws_tcp_cancels (Wt_Read_Error _) = False"

fun tcp_ws_cancels :: "tcp_ws_event \<Rightarrow> bool" where
  "tcp_ws_cancels Tw_Cancelled = True"
| "tcp_ws_cancels (Tw_Read _ outcome) = write_cancelled outcome"
| "tcp_ws_cancels (Tw_Read_Error _) = False"

definition tr_up_link :: "tcp_relay \<Rightarrow> tcp_link" where
  "tr_up_link s = \<lparr> tk_own = tr_client s, tk_stream = tr_stream s, tk_ob = tr_ob s,
     tk_violations = tr_violations s \<rparr>"

definition tr_down_link :: "tcp_relay \<Rightarrow> client_link" where
  "tr_down_link s = \<lparr> cl_writer = tr_client s, cl_ob = tr_ob s \<rparr>"

text \<open>The client always gets a close frame from the gateway, as far as its writer still takes one.\<close>

definition tcp_relay_close ::
  "close_frames \<Rightarrow> write_outcome \<Rightarrow> close_reason \<Rightarrow> duration \<Rightarrow> tcp_relay \<Rightarrow> tcp_relay"
where
  "tcp_relay_close frame_close outcome reason lived s =
     (let (code, text) = close_code reason
      in s\<lparr>tr_client := best_effort_close frame_close outcome code text (tr_client s),
           tr_phase := Ended reason, tr_ob := record_relay_closed reason lived (tr_ob s)\<rparr>)"

inductive tcp_relay_step :: "close_frames \<Rightarrow> tcp_relay \<Rightarrow> tcp_relay \<Rightarrow> bool" for frame_close where
  tr_up_event: "\<not> is_ended (tr_phase s) \<Longrightarrow> tr_up_task s = Task_Active \<Longrightarrow> wt_report (tr_up s) = None \<Longrightarrow>
    ws_tcp_cancels event \<longrightarrow> tr_phase s \<noteq> Running \<Longrightarrow>
    ws_tcp_step True clk event (tr_up s, tr_up_link s) = (pump, link) \<Longrightarrow>
    tcp_relay_step frame_close s (s\<lparr>tr_up := pump, tr_client := tk_own link, tr_stream := tk_stream link,
      tr_ob := tk_ob link, tr_violations := tk_violations link\<rparr>)"
| tr_down_event: "\<not> is_ended (tr_phase s) \<Longrightarrow> tr_down_task s = Task_Active \<Longrightarrow> tw_report (tr_down s) = None \<Longrightarrow>
    tcp_ws_cancels event \<longrightarrow> tr_phase s \<noteq> Running \<Longrightarrow>
    tcp_ws_step clk event (tr_down s, tr_down_link s) = (pump, link) \<Longrightarrow>
    tcp_relay_step frame_close s (s\<lparr>tr_down := pump, tr_client := cl_writer link, tr_ob := cl_ob link\<rparr>)"
| tr_up_panic: "\<not> is_ended (tr_phase s) \<Longrightarrow> tr_up_task s = Task_Active \<Longrightarrow> wt_report (tr_up s) = None \<Longrightarrow>
    tcp_relay_step frame_close s (s\<lparr>tr_up_task := Task_Panicked, tr_stream := drop_write_half (tr_stream s)\<rparr>)"
| tr_down_panic: "\<not> is_ended (tr_phase s) \<Longrightarrow> tr_down_task s = Task_Active \<Longrightarrow> tw_report (tr_down s) = None \<Longrightarrow>
    tcp_relay_step frame_close s (s\<lparr>tr_down_task := Task_Panicked\<rparr>)"
| tr_shutdown: "tr_phase s = Running \<Longrightarrow>
    tcp_relay_step frame_close s (s\<lparr>tr_phase := Draining Gateway_Shutdown\<rparr>)"
| tr_tick: "tr_phase s = Running \<Longrightarrow> ob_mode (tr_ob s) \<noteq> Mode_Off \<Longrightarrow>
    observe_progress (diagnostics_snapshot now (seen_diagnostics up_stage (wt_report (tr_up s)) (wt_diagnostics (tr_up s))))
      (diagnostics_snapshot now' (seen_diagnostics down_stage (tw_report (tr_down s)) (tw_diagnostics (tr_down s))))
      (tr_tracker s) (tr_ob s) = (tracker, ob) \<Longrightarrow>
    tcp_relay_step frame_close s (s\<lparr>tr_tracker := tracker, tr_ob := ob\<rparr>)"
| tr_up_join: "\<not> is_ended (tr_phase s) \<Longrightarrow> join_result (wt_report (tr_up s)) (tr_up_task s) = Some r \<Longrightarrow>
    tcp_relay_step frame_close s (s\<lparr>tr_up_task := Task_Joined, tr_reports := joined_reports r (tr_reports s),
      tr_phase := (if tr_phase s = Running then Draining (joined_reason r) else tr_phase s)\<rparr>)"
| tr_down_join: "\<not> is_ended (tr_phase s) \<Longrightarrow> join_result (tw_report (tr_down s)) (tr_down_task s) = Some r \<Longrightarrow>
    tcp_relay_step frame_close s (s\<lparr>tr_down_task := Task_Joined, tr_reports := joined_reports r (tr_reports s),
      tr_phase := (if tr_phase s = Running then Draining (joined_reason r) else tr_phase s)\<rparr>)"
| tr_close: "tr_phase s = Draining reason \<Longrightarrow> tr_up_task s = Task_Joined \<Longrightarrow> tr_down_task s = Task_Joined \<Longrightarrow>
    tcp_relay_step frame_close s (tcp_relay_close frame_close outcome reason lived s)"

definition tcp_relay_reachable :: "close_frames \<Rightarrow> tcp_relay \<Rightarrow> tcp_relay \<Rightarrow> bool" where
  "tcp_relay_reachable frame_close = (tcp_relay_step frame_close)\<^sup>*\<^sup>*"

section \<open>The bytes for the backend\<close>

definition is_data_frame :: "frame \<Rightarrow> bool" where
  "is_data_frame f \<longleftrightarrow> fm_opcode f \<in> {Text, Binary, Continuation}"

definition frame_bytes :: "frame \<Rightarrow> bytes" where
  "frame_bytes f = (if is_data_frame f then fm_payload f else [])"

text \<open>The payload of the data frames up to the first violation of the protocol, which it names.\<close>

fun bridge_bytes :: "message_sequence \<Rightarrow> frame list \<Rightarrow> bytes \<times> websocket_error option" where
  "bridge_bytes sq [] = ([], None)"
| "bridge_bytes sq (f # fs) =
     (case sequence_validate sq f of
        (Inl e, _) \<Rightarrow> ([], Some e)
      | (Inr _, sq') \<Rightarrow> let (bs, e) = bridge_bytes sq' fs in (frame_bytes f @ bs, e))"

fun validate_after :: "message_sequence \<Rightarrow> frame list \<Rightarrow> message_sequence" where
  "validate_after sq [] = sq"
| "validate_after sq (f # fs) = validate_after (snd (sequence_validate sq f)) fs"

lemma validate_after_append: "validate_after sq (fs @ gs) = validate_after (validate_after sq fs) gs"
  by (induction fs arbitrary: sq) simp_all

lemma bridge_bytes_snoc:
  assumes "snd (bridge_bytes sq fs) = None"
  shows "bridge_bytes sq (fs @ [f]) =
    (case sequence_validate (validate_after sq fs) f of
       (Inl e, _) \<Rightarrow> (fst (bridge_bytes sq fs), Some e)
     | (Inr _, _) \<Rightarrow> (fst (bridge_bytes sq fs) @ frame_bytes f, None))"
  using assms
proof (induction fs arbitrary: sq)
  case Nil
  then show ?case by (simp split: prod.splits sum.splits)
next
  case (Cons g fs)
  obtain r sq' where g: "sequence_validate sq g = (r, sq')" by fastforce
  show ?case
  proof (cases r)
    case (Inl e)
    with Cons.prems g show ?thesis by simp
  next
    case (Inr u)
    then have "snd (bridge_bytes sq' fs) = None"
      using Cons.prems g by (simp add: case_prod_beta)
    from Cons.IH [OF this] show ?thesis
      using g Inr
      by (cases "sequence_validate (validate_after sq' fs) f")
        (auto simp: case_prod_beta split: sum.splits)
  qed
qed

definition backend_bytes :: "nat \<Rightarrow> frame list \<Rightarrow> bytes" where
  "backend_bytes maximum frames = fst (bridge_bytes (message_sequence_new maximum) frames)"

definition ws_tcp_ok :: "nat \<Rightarrow> ws_tcp_pump \<Rightarrow> tcp_stream \<Rightarrow> bool" where
  "ws_tcp_ok maximum pump stream \<longleftrightarrow>
     prefix (ts_bytes stream) (backend_bytes maximum (wt_frames pump)) \<and>
     (case wt_report pump of
        None \<Rightarrow>
          snd (bridge_bytes (message_sequence_new maximum) (wt_frames pump)) = None \<and>
          wt_messages pump = validate_after (message_sequence_new maximum) (wt_frames pump) \<and>
          ts_bytes stream = backend_bytes maximum (wt_frames pump)
      | Some r \<Rightarrow> pr_end r = End_Peer_Closed \<longrightarrow> ts_bytes stream = backend_bytes maximum (wt_frames pump))"

text \<open>What the client was sent of the bytes the stream delivered.\<close>

definition client_bytes :: "wire \<Rightarrow> bytes" where
  "client_bytes wire = concat (map (\<lambda>i. fm_payload (item_frame i)) (items_of Forwarded wire))"

definition binary_item :: "wire_item \<Rightarrow> bool" where
  "binary_item i \<longleftrightarrow>
     fm_fin (item_frame i) \<and> fm_opcode (item_frame i) = Binary \<and> fm_payload (item_frame i) \<noteq> [] \<and>
     length (fm_payload (item_frame i)) \<le> tcp_bridge_read_buffer_bytes"

definition is_sent :: "wire_item \<Rightarrow> bool" where
  "is_sent i \<longleftrightarrow> (\<exists>f. i = Sent f)"

definition tcp_ws_ok :: "tcp_ws_pump \<Rightarrow> wire \<Rightarrow> bool" where
  "tcp_ws_ok pump wire \<longleftrightarrow>
     list_all binary_item (items_of Forwarded wire) \<and> list_all is_sent (butlast (items_of Forwarded wire)) \<and>
     prefix (client_bytes wire) (tw_read pump) \<and>
     (case tw_report pump of
        None \<Rightarrow> list_all is_sent (items_of Forwarded wire) \<and> client_bytes wire = tw_read pump
      | Some r \<Rightarrow>
          pr_end r = End_Peer_Closed \<longrightarrow>
            list_all is_sent (items_of Forwarded wire) \<and> client_bytes wire = tw_read pump)"

section \<open>The pumps keep their promises\<close>

lemma ws_tcp_new_ok: "ws_tcp_ok maximum (ws_tcp_new maximum d) \<lparr> ts_bytes = [], ts_shutdown = False \<rparr>"
  by (simp add: ws_tcp_ok_def ws_tcp_new_def backend_bytes_def)

lemma tcp_ws_new_ok: "items_of Forwarded wire = [] \<Longrightarrow> tcp_ws_ok (tcp_ws_new d) wire"
  by (simp add: tcp_ws_ok_def tcp_ws_new_def client_bytes_def)

lemma tcp_ws_ok_same: "items_of Forwarded w' = items_of Forwarded w \<Longrightarrow> tcp_ws_ok p w' \<longleftrightarrow> tcp_ws_ok p w"
  by (simp only: tcp_ws_ok_def client_bytes_def)

lemma wt_fail_simps [simp]:
  "wt_frames (wt_fail clk e pump) = wt_frames pump"
  "\<exists>r. wt_report (wt_fail clk e pump) = Some r \<and> pr_end r = End_Error e \<and> pr_direction r = Client_To_Backend"
  by (auto simp: wt_fail_def report_error_def split: prod.splits)

lemma wt_cancel_simps [simp]:
  "wt_frames (wt_cancel clk pump) = wt_frames pump"
  "\<exists>r. wt_report (wt_cancel clk pump) = Some r \<and> pr_end r = End_Cancelled \<and> pr_direction r = Client_To_Backend"
  by (auto simp: wt_cancel_def report_cancelled_def split: prod.splits)

lemma wt_control_seen_simps:
  assumes "wt_control_seen clk frame (pump, link) = (pump', link')"
  shows "wt_frames pump' = wt_frames pump" "wt_messages pump' = wt_messages pump"
    "wt_report pump' = wt_report pump" "tk_own link' = tk_own link" "tk_stream link' = tk_stream link"
    "tk_violations link' = tk_violations link"
  using assms by (auto simp: wt_control_seen_def)

text \<open>What a step of the pump towards the backend promises about the new pump and its links.\<close>

definition wt_step_ok :: "nat \<Rightarrow> bool \<Rightarrow> tcp_link \<Rightarrow> ws_tcp_pump \<times> tcp_link \<Rightarrow> bool" where
  "wt_step_ok maximum client link = (\<lambda>(pump', link').
     ws_tcp_ok maximum pump' (tk_stream link') \<and> reports_for Client_To_Backend (wt_report pump') \<and>
     (wt_report pump' = None \<longrightarrow> ts_shutdown (tk_stream link') = ts_shutdown (tk_stream link)) \<and>
     items_of Forwarded (tk_own link') = items_of Forwarded (tk_own link) \<and>
     items_of Closing (tk_own link') = items_of Closing (tk_own link) \<and>
     blamed (tk_violations link) (tk_violations link') client (wt_report pump'))"

lemma wt_read_error_ok:
  assumes "prefix (ts_bytes (tk_stream link)) (backend_bytes maximum (wt_frames pump))"
  shows "wt_step_ok maximum client link (wt_read_error client clk e (pump, link))"
proof -
  obtain r where r: "wt_report (wt_fail clk e pump) = Some r" "pr_end r = End_Error e" "pr_direction r = Client_To_Backend"
    using wt_fail_simps(2) by blast
  then have "blamed (tk_violations link) (record_client_error client e (tk_violations link)) client (Some r)"
    by (intro record_client_error_blamed) blast
  with assms r show ?thesis
    by (simp add: wt_step_ok_def wt_read_error_def ws_tcp_ok_def reports_for_def)
qed

lemma blamed_refl [simp]: "blamed v v client report"
  by (simp add: blamed_def)

lemma ws_tcp_turn_ok:
  assumes ok: "ws_tcp_ok maximum pump (tk_stream link)" and live: "wt_report pump = None"
  shows "wt_step_ok maximum client link (ws_tcp_turn client clk event (pump, link))"
proof -
  let ?new = "message_sequence_new maximum"
  note inv = ok [unfolded ws_tcp_ok_def live, simplified]
  show ?thesis
  proof (cases event)
    case Wt_Cancelled
    obtain r where "wt_report (wt_cancel clk pump) = Some r" "pr_end r = End_Cancelled" "pr_direction r = Client_To_Backend"
      using wt_cancel_simps(2) by blast
    with Wt_Cancelled inv show ?thesis
      by (simp add: ws_tcp_turn_def wt_step_ok_def ws_tcp_ok_def reports_for_def)
  next
    case (Wt_Control frame outcome)
    obtain pump1 link1 where c: "wt_control_seen clk frame (pump, link) = (pump1, link1)" by fastforce
    obtain r d wire where f: "forward_frame outcome Replied frame Writing_Control_Frame (wt_diagnostics pump1, tk_own link1) = (r, d, wire)"
      by (metis surj_pair)
    note c1 = wt_control_seen_simps [OF c]
    show ?thesis
      using Wt_Control c f c1 ok live forward_frame_result(3) [OF f]
      by (simp add: ws_tcp_turn_def wt_send_control_def wt_step_ok_def ws_tcp_ok_def reports_for_def)
  next
    case (Wt_Read_Error e)
    then show ?thesis
      using wt_read_error_ok [of link maximum pump client clk e] inv by (simp add: ws_tcp_turn_def)
  next
    case (Wt_Frame frame outcome shut)
    obtain r messages where c: "sequence_validate (wt_messages pump) frame = (r, messages)" by fastforce
    define pump1 where "pump1 = pump\<lparr>wt_messages := messages, wt_frames := wt_frames pump @ [frame]\<rparr>"
    have p1: "wt_frames pump1 = wt_frames pump @ [frame]" "wt_report pump1 = None"
      "wt_messages pump1 = validate_after ?new (wt_frames pump1)"
      using live c inv by (simp_all add: pump1_def validate_after_append)
    have c': "sequence_validate (validate_after ?new (wt_frames pump)) frame = (r, messages)"
      using c inv by simp
    have none0: "snd (bridge_bytes ?new (wt_frames pump)) = None" using inv by blast
    note snoc = bridge_bytes_snoc [OF this, of frame, unfolded c', simplified]
    show ?thesis
    proof (cases r)
      case (Inl e)
      have "backend_bytes maximum (wt_frames pump1) = backend_bytes maximum (wt_frames pump)"
        using snoc Inl by (simp add: backend_bytes_def p1)
      then show ?thesis
        using wt_read_error_ok [of link maximum pump1 client clk "Message_Error e"] inv Wt_Frame c Inl
        by (simp add: ws_tcp_turn_def pump1_def)
    next
      case (Inr u)
      have bytes: "backend_bytes maximum (wt_frames pump1) = backend_bytes maximum (wt_frames pump) @ frame_bytes frame"
        and none: "snd (bridge_bytes ?new (wt_frames pump1)) = None"
        using snoc Inr by (simp_all add: backend_bytes_def p1)
      have data: ?thesis if op: "is_data_frame frame"
        and step: "ws_tcp_turn client clk event (pump, link) = wt_data clk frame outcome (pump1, link)"
      proof -
        let ?d = "record_read (ck_read clk) (fm_opcode frame) (fm_fin frame) (length (fm_payload frame)) (wt_diagnostics pump1)"
        let ?pump = "pump1\<lparr>wt_diagnostics := set_stage Writing_Stream_Bytes ?d\<rparr>"
        have fb: "frame_bytes frame = fm_payload frame" using op by (simp add: frame_bytes_def)
        show ?thesis
        proof (cases outcome)
          case Stream_Done
          then show ?thesis
            using inv p1 bytes none fb step
            by (simp add: wt_data_def Let_def wt_step_ok_def ws_tcp_ok_def stream_write_def reports_for_def)
        next
          case (Stream_Cancelled n)
          obtain rep where "wt_report (wt_cancel clk ?pump) = Some rep" "pr_end rep = End_Cancelled" "pr_direction rep = Client_To_Backend"
            using wt_cancel_simps(2) by blast
          with Stream_Cancelled show ?thesis
            using inv p1 bytes none fb step take_is_prefix [of n "fm_payload frame"]
            by (simp add: wt_data_def Let_def wt_step_ok_def ws_tcp_ok_def stream_write_def reports_for_def)
        next
          case (Stream_Failed n e)
          obtain rep where "wt_report (wt_fail clk (Other_Error e) ?pump) = Some rep" "pr_end rep = End_Error (Other_Error e)"
            "pr_direction rep = Client_To_Backend"
            using wt_fail_simps(2) by blast
          with Stream_Failed show ?thesis
            using inv p1 bytes none fb step take_is_prefix [of n "fm_payload frame"]
            by (simp add: wt_data_def Let_def wt_step_ok_def ws_tcp_ok_def stream_write_def reports_for_def)
        qed
      qed
      obtain pump2 link2 where s: "wt_control_seen clk frame (pump1, link) = (pump2, link2)" by fastforce
      note seen = wt_control_seen_simps [OF s]
      have close: ?thesis if op: "fm_opcode frame = Close"
      proof -
        have "frame_bytes frame = []" using op by (simp add: frame_bytes_def is_data_frame_def)
        moreover obtain rep d where "report_peer_closed Client_To_Backend (ck_end clk) (wt_diagnostics pump2) = (rep, d)"
          "pr_end rep = End_Peer_Closed" "pr_direction rep = Client_To_Backend"
          by (cases "report_peer_closed Client_To_Backend (ck_end clk) (wt_diagnostics pump2)")
            (auto simp: report_peer_closed_def split: prod.splits)
        ultimately show ?thesis
          using Wt_Frame c Inr op s seen inv bytes p1
          by (simp add: ws_tcp_turn_def pump1_def wt_close_def wt_step_ok_def ws_tcp_ok_def reports_for_def)
      qed
      have other: ?thesis if op: "fm_opcode frame \<in> {Ping, Pong}"
      proof -
        have "frame_bytes frame = []" using op by (auto simp: frame_bytes_def is_data_frame_def)
        then show ?thesis
          using Wt_Frame c Inr op s seen inv bytes none p1
          by (auto simp: ws_tcp_turn_def pump1_def wt_step_ok_def ws_tcp_ok_def reports_for_def)
      qed
      show ?thesis
        using data close other Wt_Frame c Inr
        by (cases "fm_opcode frame") (simp_all add: ws_tcp_turn_def pump1_def is_data_frame_def)
    qed
  qed
qed

lemma ws_tcp_ok_drop [simp]:
  "ws_tcp_ok maximum pump (drop_write_half stream) \<longleftrightarrow> ws_tcp_ok maximum pump stream"
  "ts_shutdown (drop_write_half stream)"
  by (auto simp: ws_tcp_ok_def drop_write_half_def split: option.splits)

text \<open>The stream is shut down when the pump has returned, and not before.\<close>

lemma ws_tcp_step_ok:
  assumes "ws_tcp_ok maximum pump (tk_stream link)" "wt_report pump = None"
    and run: "ws_tcp_step client clk event (pump, link) = (pump', link')"
  shows "wt_step_ok maximum client link (pump', link')"
    and "\<not> ts_shutdown (tk_stream link) \<Longrightarrow> ts_shutdown (tk_stream link') \<longleftrightarrow> wt_report pump' \<noteq> None"
proof -
  obtain pump1 link1 where t: "ws_tcp_turn client clk event (pump, link) = (pump1, link1)" by fastforce
  note ok = ws_tcp_turn_ok [OF assms(1,2), of client clk event, unfolded t]
  from ok t run show "wt_step_ok maximum client link (pump', link')"
    by (auto simp: ws_tcp_step_def wt_step_ok_def split: if_splits)
  show "ts_shutdown (tk_stream link') \<longleftrightarrow> wt_report pump' \<noteq> None" if "\<not> ts_shutdown (tk_stream link)"
    using that ok t run by (auto simp: ws_tcp_step_def wt_step_ok_def drop_write_half_def split: if_splits)
qed

lemma tw_fail_simps [simp]:
  "tw_read (tw_fail clk e pump) = tw_read pump"
  "\<exists>r. tw_report (tw_fail clk e pump) = Some r \<and> pr_end r = End_Error e \<and> pr_direction r = Backend_To_Client"
  by (auto simp: tw_fail_def report_error_def split: prod.splits)

lemma client_bytes_snoc [simp]:
  "client_bytes (w @ [(s, i)]) = client_bytes w @ (if s = Forwarded then fm_payload (item_frame i) else [])"
  by (simp add: client_bytes_def)

lemma tcp_ws_step_ok:
  assumes run: "tcp_ws_step clk event (pump, link) = (pump', link')"
    and ok: "tcp_ws_ok pump (cl_writer link)" and live: "tw_report pump = None"
  shows "tcp_ws_ok pump' (cl_writer link') \<and> reports_for Backend_To_Client (tw_report pump') \<and>
    items_of Closing (cl_writer link') = items_of Closing (cl_writer link)"
proof -
  note inv = ok [unfolded tcp_ws_ok_def live, simplified]
  show ?thesis
  proof (cases event)
    case Tw_Cancelled
    then show ?thesis
      using run inv by (auto simp: tcp_ws_step_def Let_def report_cancelled_def tcp_ws_ok_def reports_for_def split: prod.splits)
  next
    case (Tw_Read_Error e)
    obtain r where "tw_report (tw_fail clk (Other_Error e) pump) = Some r" "pr_end r = End_Error (Other_Error e)"
      "pr_direction r = Backend_To_Client"
      using tw_fail_simps(2) by blast
    with Tw_Read_Error run inv show ?thesis
      by (auto simp: tcp_ws_step_def tcp_ws_ok_def reports_for_def)
  next
    case (Tw_Read arrived outcome)
    define data where "data = take tcp_bridge_read_buffer_bytes arrived"
    define pump1 where "pump1 = pump\<lparr>tw_read := tw_read pump @ data\<rparr>"
    show ?thesis
    proof (cases "data = []")
      case True
      then show ?thesis
        using run inv Tw_Read
        by (auto simp: tcp_ws_step_def Let_def data_def [symmetric] report_peer_closed_def tcp_ws_ok_def reports_for_def
            split: prod.splits)
    next
      case False
      let ?f = "\<lparr> fm_fin = True, fm_opcode = Binary, fm_payload = data \<rparr>"
      let ?d = "record_read (ck_read clk) Binary True (length data) (tw_diagnostics pump1)"
      have bin: "binary_item i" if "item_frame i = ?f" for i
        using False that by (auto simp: binary_item_def data_def)
      obtain r d wire where f: "forward_frame outcome Forwarded ?f Writing_Data_Frame (?d, cl_writer link) = (r, d, wire)"
        by (metis surj_pair)
      note result = forward_frame_result [OF f]
      show ?thesis
      proof (cases r)
        case (Inl e)
        obtain rep where rep: "tw_report (tw_fail clk e (pump1\<lparr>tw_diagnostics := d\<rparr>)) = Some rep" "pr_end rep = End_Error e"
          "pr_direction rep = Backend_To_Client"
          using tw_fail_simps(2) by blast
        have "tcp_ws_step clk event (pump, link) = (tw_fail clk e (pump1\<lparr>tw_diagnostics := d\<rparr>), link\<lparr>cl_writer := wire\<rparr>)"
          using Tw_Read False f Inl by (simp add: tcp_ws_step_def Let_def data_def [symmetric] pump1_def)
        with run have eq: "pump' = tw_fail clk e (pump1\<lparr>tw_diagnostics := d\<rparr>)" "link' = link\<lparr>cl_writer := wire\<rparr>"
          by simp_all
        have "list_all binary_item (items_of Forwarded wire) \<and> list_all is_sent (butlast (items_of Forwarded wire)) \<and>
            prefix (client_bytes wire) (tw_read pump1)"
          using result(2) [OF Inl] inv bin [of "Unflushed ?f"] bin [of "Cut ?f"]
          by (auto simp: pump1_def client_bytes_def)
        then show ?thesis
          using rep result(3) [of Closing] by (simp add: eq tcp_ws_ok_def reports_for_def pump1_def)
      next
        case (Inr u)
        then have wire: "wire = cl_writer link @ [(Forwarded, Sent ?f)]" using result(1) by simp
        have "tcp_ws_step clk event (pump, link) =
            (pump1\<lparr>tw_diagnostics := set_stage Awaiting_Read
               (record_forwarded (ck_forwarded clk) (ck_written clk) (length data) d)\<rparr>,
             link\<lparr>cl_writer := wire, cl_ob := record_forwarded_frame Backend_To_Client (length data) (cl_ob link)\<rparr>)"
          using Tw_Read False f Inr by (simp add: tcp_ws_step_def Let_def data_def [symmetric] pump1_def)
        with run have eq: "tw_report pump' = None" "tw_read pump' = tw_read pump @ data" "cl_writer link' = wire"
          using live by (auto simp: pump1_def)
        then show ?thesis
          using inv bin [of "Sent ?f"] by (simp add: wire tcp_ws_ok_def reports_for_def is_sent_def)
      qed
    qed
  qed
qed

section \<open>The invariant\<close>

definition closed_client :: "close_frames \<Rightarrow> close_reason \<Rightarrow> wire \<Rightarrow> bool" where
  "closed_client frame_close reason wire \<longleftrightarrow>
     open_wire wire \<or>
     (\<exists>before item. wire = before @ [(Closing, item)] \<and> open_wire before \<and>
        item_frame item = frame_close (fst (close_code reason)) (snd (close_code reason)))"

definition tcp_phase_ok :: "close_frames \<Rightarrow> tcp_relay \<Rightarrow> bool" where
  "tcp_phase_ok frame_close s \<longleftrightarrow>
     (case tr_phase s of
        Running \<Rightarrow> open_wire (tr_client s)
      | Draining reason \<Rightarrow> open_wire (tr_client s) \<and> reason_ok reason (wt_report (tr_up s)) (tw_report (tr_down s))
      | Ended reason \<Rightarrow>
          closed_client frame_close reason (tr_client s) \<and>
          reason_ok reason (wt_report (tr_up s)) (tw_report (tr_down s)))"

definition tcp_relay_ok :: "close_frames \<Rightarrow> nat \<Rightarrow> tcp_relay \<Rightarrow> bool" where
  "tcp_relay_ok frame_close maximum s \<longleftrightarrow>
     ws_tcp_ok maximum (tr_up s) (tr_stream s) \<and> tcp_ws_ok (tr_down s) (tr_client s) \<and>
     (ts_shutdown (tr_stream s) \<longleftrightarrow> tr_up_task s \<noteq> Task_Active \<or> wt_report (tr_up s) \<noteq> None) \<and>
     reports_for Client_To_Backend (wt_report (tr_up s)) \<and>
     reports_for Backend_To_Client (tw_report (tr_down s)) \<and>
     blame_ok (tr_violations s) (wt_report (tr_up s)) \<and> tcp_phase_ok frame_close s"

lemmas tcp_relay_ok_simps = tcp_relay_ok_def tcp_phase_ok_def

lemma tcp_relay_start_ok: "tcp_relay_ok frame_close maximum (tcp_relay_start maximum ob)"
  by (simp add: tcp_relay_ok_simps tcp_relay_start_def ws_tcp_new_ok tcp_ws_new_ok blame_ok_def open_wire_def)
    (simp add: ws_tcp_new_def tcp_ws_new_def reports_for_def)

lemma tcp_phase_ok_live:
  assumes "tcp_phase_ok frame_close s" "\<not> is_ended (tr_phase s)"
    and "tr_phase s' = tr_phase s" "items_of Closing (tr_client s') = items_of Closing (tr_client s)"
    and "wt_report (tr_up s) = None \<or> wt_report (tr_up s') = wt_report (tr_up s)"
    and "tw_report (tr_down s) = None \<or> tw_report (tr_down s') = tw_report (tr_down s)"
  shows "tcp_phase_ok frame_close s'"
  using assms reason_ok_step [OF _ assms(5,6)]
  by (auto simp: tcp_phase_ok_def is_ended_def open_wire_def split: relay_phase.splits)

lemma tcp_relay_step_ok:
  assumes "tcp_relay_step frame_close s s'" "tcp_relay_ok frame_close maximum s"
  shows "tcp_relay_ok frame_close maximum s'"
  using assms
proof (induction rule: tcp_relay_step.induct)
  case (tr_up_event s event clk pump link)
  have "ws_tcp_ok maximum (tr_up s) (tk_stream (tr_up_link s))"
    using tr_up_event(6) by (simp add: tcp_relay_ok_def tr_up_link_def)
  note run = ws_tcp_step_ok [OF this tr_up_event(3,5)]
  have shut: "ts_shutdown (tk_stream link) \<longleftrightarrow> wt_report pump \<noteq> None"
    by (rule run(2)) (use tr_up_event(2,3,6) in \<open>simp add: tcp_relay_ok_def tr_up_link_def\<close>)
  from run(1) have step: "ws_tcp_ok maximum pump (tk_stream link)" "reports_for Client_To_Backend (wt_report pump)"
    "items_of Forwarded (tk_own link) = items_of Forwarded (tr_client s)"
    "items_of Closing (tk_own link) = items_of Closing (tr_client s)"
    "blamed (tr_violations s) (tk_violations link) True (wt_report pump)"
    by (simp_all add: wt_step_ok_def tr_up_link_def)
  let ?s = "s\<lparr>tr_up := pump, tr_client := tk_own link, tr_stream := tk_stream link,
      tr_ob := tk_ob link, tr_violations := tk_violations link\<rparr>"
  have "tcp_phase_ok frame_close ?s"
    by (rule tcp_phase_ok_live [of frame_close s])
      (use tr_up_event step(4) in \<open>auto simp: tcp_relay_ok_simps\<close>)
  moreover have "blame_ok (tk_violations link) (wt_report pump)"
    using step(5) tr_up_event(3,6) by (auto simp: tcp_relay_ok_simps blame_ok_def blamed_def)
  ultimately show ?case
    using step(1,2) shut tr_up_event(2,6) tcp_ws_ok_same [OF step(3)] by (simp add: tcp_relay_ok_def)
next
  case (tr_down_event s event clk pump link)
  have "tcp_ws_ok (tr_down s) (cl_writer (tr_down_link s))"
    using tr_down_event(6) by (simp add: tcp_relay_ok_def tr_down_link_def)
  from tcp_ws_step_ok [OF tr_down_event(5) this tr_down_event(3)]
  have step: "tcp_ws_ok pump (cl_writer link)" "reports_for Backend_To_Client (tw_report pump)"
    "items_of Closing (cl_writer link) = items_of Closing (tr_client s)"
    by (simp_all add: tr_down_link_def)
  let ?s = "s\<lparr>tr_down := pump, tr_client := cl_writer link, tr_ob := cl_ob link\<rparr>"
  have "tcp_phase_ok frame_close ?s"
    by (rule tcp_phase_ok_live [of frame_close s])
      (use tr_down_event step(3) in \<open>auto simp: tcp_relay_ok_simps\<close>)
  with step(1,2) tr_down_event(6) show ?case by (simp add: tcp_relay_ok_def)
next
  case (tr_up_join s r)
  have "reason_ok (joined_reason r) (wt_report (tr_up s)) (tw_report (tr_down s))"
    by (rule joined_reason_ok(1) [OF tr_up_join(2) _ refl]) (use tr_up_join(3) in \<open>simp add: tcp_relay_ok_simps\<close>)
  with tr_up_join show ?case by (auto simp: tcp_relay_ok_simps is_ended_def join_result_def split: relay_phase.splits)
next
  case (tr_down_join s r)
  have "reason_ok (joined_reason r) (wt_report (tr_up s)) (tw_report (tr_down s))"
    by (rule joined_reason_ok(2) [OF tr_down_join(2) _ refl]) (use tr_down_join(3) in \<open>simp add: tcp_relay_ok_simps\<close>)
  with tr_down_join show ?case by (auto simp: tcp_relay_ok_simps is_ended_def split: relay_phase.splits)
next
  case (tr_close s reason outcome lived)
  obtain code why where code: "close_code reason = (code, why)" by fastforce
  let ?w = "best_effort_close frame_close outcome code why (tr_client s)"
  have "closed_client frame_close reason ?w"
    using tr_close(1,4)
    by (auto simp: closed_client_def best_effort_close_def code tcp_relay_ok_simps split: write_outcome.splits)
  moreover have "tcp_ws_ok (tr_down s) ?w"
    using tr_close(4) tcp_ws_ok_same [of ?w "tr_client s"] by (simp add: tcp_relay_ok_def best_effort_close_others)
  ultimately show ?case
    using tr_close(1,4) by (simp add: tcp_relay_close_def code tcp_relay_ok_simps)
next
  case (tr_up_panic s)
  then show ?case by (auto simp: tcp_relay_ok_simps split: relay_phase.splits)
qed (auto simp: tcp_relay_ok_simps reason_ok_def split: relay_phase.splits)

lemma tcp_relay_reachable_ok:
  assumes "tcp_relay_reachable frame_close (tcp_relay_start maximum ob) s"
  shows "tcp_relay_ok frame_close maximum s"
  using assms unfolding tcp_relay_reachable_def
  by (induction rule: rtranclp_induct) (auto intro: tcp_relay_start_ok tcp_relay_step_ok)

end
