(* ===== verification/Websocket_Accept.thy ===== *)
theory Websocket_Accept
  imports Http_Proxy Tcp_Relay
begin

text \<open>
  \<open>src/gateway/websocket.rs\<close>: the handshakes of a WebSocket route.  The request of the client is
  checked, a request for the backend is built from scratch and from a few of the client's fields, the
  answer of the backend is checked, and the client is answered.  The handshakes themselves belong to
  the WebSocket library: whether a request is an upgrade, the response to it, the random key and the
  answer of the backend are parameters.
\<close>

section \<open>The request of the client\<close>

datatype downstream_handshake = Http1_Upgrade | Http2_Extended_Connect

primrec handshake_name :: "downstream_handshake \<Rightarrow> string" where
  "handshake_name Http1_Upgrade = ''http1_upgrade''"
| "handshake_name Http2_Extended_Connect = ''rfc8441_extended_connect''"

datatype accept_error =
    Http1_Upgrade_Required
  | Http2_Extended_Connect_Required
  | Unsupported_Http_Version
  | Invalid_Handshake relay_error
  | Ambiguous_Authorization
  | Invalid_Application_Headers
  | Invalid_Internal_State
  | Shutting_Down
  | Backend_Timeout
  | Backend_Failed anyhow

primrec accept_status :: "accept_error \<Rightarrow> nat" where
  "accept_status Http1_Upgrade_Required = 426"
| "accept_status Http2_Extended_Connect_Required = 400"
| "accept_status Unsupported_Http_Version = 505"
| "accept_status (Invalid_Handshake e) = 400"
| "accept_status Ambiguous_Authorization = 400"
| "accept_status Invalid_Application_Headers = 400"
| "accept_status Invalid_Internal_State = 500"
| "accept_status Shutting_Down = 503"
| "accept_status Backend_Timeout = 502"
| "accept_status (Backend_Failed e) = 502"

primrec accept_message :: "accept_error \<Rightarrow> string" where
  "accept_message Http1_Upgrade_Required = ''HTTP/1.1 websocket upgrade required\<newline>''"
| "accept_message Http2_Extended_Connect_Required =
     ''HTTP/2 RFC 8441 websocket extended CONNECT required\<newline>''"
| "accept_message Unsupported_Http_Version = ''unsupported websocket HTTP version\<newline>''"
| "accept_message (Invalid_Handshake e) = ''invalid websocket handshake\<newline>''"
| "accept_message Ambiguous_Authorization = ''invalid websocket authorization headers\<newline>''"
| "accept_message Invalid_Application_Headers = ''invalid websocket application headers\<newline>''"
| "accept_message Invalid_Internal_State = ''internal websocket state error\<newline>''"
| "accept_message Shutting_Down = ''gateway is shutting down\<newline>''"
| "accept_message Backend_Timeout = ''backend unavailable\<newline>''"
| "accept_message (Backend_Failed e) = ''backend unavailable\<newline>''"

fun should_advertise_http1_upgrade :: "accept_error \<Rightarrow> bool" where
  "should_advertise_http1_upgrade Http1_Upgrade_Required = True"
| "should_advertise_http1_upgrade _ = False"

fun is_client_protocol_violation :: "accept_error \<Rightarrow> bool" where
  "is_client_protocol_violation Http1_Upgrade_Required = True"
| "is_client_protocol_violation Http2_Extended_Connect_Required = True"
| "is_client_protocol_violation Unsupported_Http_Version = True"
| "is_client_protocol_violation (Invalid_Handshake e) = True"
| "is_client_protocol_violation Ambiguous_Authorization = True"
| "is_client_protocol_violation Invalid_Application_Headers = True"
| "is_client_protocol_violation _ = False"

fun is_backend_failure :: "accept_error \<Rightarrow> bool" where
  "is_backend_failure Backend_Timeout = True"
| "is_backend_failure (Backend_Failed e) = True"
| "is_backend_failure _ = False"

text \<open>What the WebSocket library makes of a request, and the key it generates for the backend.\<close>

record 'h ws_lib =
  wl_is_upgrade :: "'h request \<Rightarrow> bool"
  wl_upgrade :: "'h request \<Rightarrow> relay_error + 'h response"
  wl_key :: string

text \<open>The \<open>:protocol\<close> of an extended CONNECT is an extension of the request.\<close>

definition validate_downstream_handshake ::
  "('h, 'm) http_lib_scheme \<Rightarrow> 'h ws_lib \<Rightarrow> 'h request \<Rightarrow> string option
   \<Rightarrow> accept_error + downstream_handshake"
where
  "validate_downstream_handshake lib ws request protocol =
     (case rq_version request of
        Http_11 \<Rightarrow>
          if rq_method request = ''GET'' \<and> wl_is_upgrade ws request then Inr Http1_Upgrade
          else Inl Http1_Upgrade_Required
      | Http_2 \<Rightarrow>
          let is_websocket_connect = (rq_method request = ''CONNECT'' \<and>
                (case protocol of None \<Rightarrow> False | Some p \<Rightarrow> eq_ignore_ascii_case p ''websocket''));
              is_version_13 = (get_str lib (rq_headers request) ''sec-websocket-version'' = Some ''13'')
          in if is_websocket_connect \<and> is_version_13 then Inr Http2_Extended_Connect
             else Inl Http2_Extended_Connect_Required
      | _ \<Rightarrow> Inl Unsupported_Http_Version)"

primrec http_version_name :: "http_version \<Rightarrow> string" where
  "http_version_name Http_09 = ''HTTP/0.9''"
| "http_version_name Http_10 = ''HTTP/1.0''"
| "http_version_name Http_11 = ''HTTP/1.1''"
| "http_version_name Http_2 = ''HTTP/2''"
| "http_version_name Http_3 = ''HTTP/3''"

section \<open>What the backend is told\<close>

record 'h backend_headers =
  bh_authorization :: "bytes option"
  bh_protocols :: "bytes list"
  bh_application :: 'h
  bh_query :: "string option"

record backend_metadata =
  bm_transport_id :: u64
  bm_connection_id :: u64
  bm_peer :: socket_addr
  bm_cf_ray :: "string option"
  bm_http_version :: string
  bm_handshake :: string

definition application_names :: "string list" where
  "application_names = [''x-forwarded-for'', ''x-real-ip'', ''x-forwarded-proto'', ''cf-connecting-ip'']"

definition copy_field :: "('h, 'm) http_lib_scheme \<Rightarrow> 'h \<Rightarrow> 'h \<Rightarrow> string \<Rightarrow> 'h" where
  "copy_field lib source target name =
     (case hm_get lib source name of None \<Rightarrow> target | Some v \<Rightarrow> hm_insert lib target name v)"

definition cookie_field :: "('h, 'm) http_lib_scheme \<Rightarrow> 'h \<Rightarrow> 'h \<Rightarrow> accept_error + 'h" where
  "cookie_field lib headers application =
     and_then (collect_results (\<lambda>v. ok_or Invalid_Application_Headers (hv_to_str lib v))
         (hm_get_all lib headers ''cookie'')) (\<lambda>cookies.
     if cookies = [] then Inr application
     else and_then (ok_or Invalid_Application_Headers (hv_from_str lib (join ''; '' cookies)))
            (\<lambda>v. Inr (hm_insert lib application ''cookie'' v)))"

definition origin_field :: "('h, 'm) http_lib_scheme \<Rightarrow> 'h \<Rightarrow> 'h \<Rightarrow> accept_error + 'h" where
  "origin_field lib headers application =
     (case hm_get_all lib headers ''origin'' of
        [] \<Rightarrow> Inr application
      | origin # others \<Rightarrow>
          if others \<noteq> [] then Inl Invalid_Application_Headers
          else Inr (hm_insert lib application ''origin'' origin))"

definition backend_headers_from ::
  "('h, 'm) http_lib_scheme \<Rightarrow> 'h request \<Rightarrow> route \<Rightarrow> accept_error + 'h backend_headers"
where
  "backend_headers_from lib request route =
     (let headers = rq_headers request;
          authorizations = hm_get_all lib headers ''authorization'' in
      if 1 < length authorizations then Inl Ambiguous_Authorization
      else
        and_then (if forward_cookie (rt_handshake route) then cookie_field lib headers (hm_empty lib)
                  else Inr (hm_empty lib)) (\<lambda>application.
        and_then (if forward_origin (rt_handshake route) then origin_field lib headers application
                  else Inr application) (\<lambda>application.
        let application = foldl (copy_field lib headers) application application_names in
        and_then (map_err (\<lambda>_. Invalid_Application_Headers) (request_authority lib request)) (\<lambda>authority.
        and_then (ok_or Invalid_Application_Headers (hv_from_str lib authority)) (\<lambda>v.
        Inr \<lparr> bh_authorization = hm_get lib headers ''authorization'',
              bh_protocols = hm_get_all lib headers ''sec-websocket-protocol'',
              bh_application = hm_insert lib application ''x-forwarded-host'' v,
              bh_query = u_query (rq_uri request) \<rparr>)))))"

section \<open>The backend\<close>

definition show_socket_addr :: "socket_addr \<Rightarrow> string" where
  "show_socket_addr a =
     (case sa_ip a of
        V4 _ \<Rightarrow> show_ip (sa_ip a)
      | V6 _ \<Rightarrow> ''['' @ show_ip (sa_ip a) @ '']'') @ '':'' @ show_nat (sa_port a)"

text \<open>\<open>Builder::header\<close>: the first invalid value is the error of the finished request.\<close>

definition builder_header ::
  "('h, 'm) http_lib_scheme \<Rightarrow> string \<Rightarrow> string \<Rightarrow> anyhow + 'h \<Rightarrow> anyhow + 'h"
where
  "builder_header lib name value builder =
     and_then builder (\<lambda>headers.
     and_then (ok_or [''failed to build WebSocket backend handshake request'', hv_invalid lib]
         (hv_from_str lib value)) (\<lambda>v.
     Inr (hm_append lib headers name v)))"

definition uat_fields :: "backend_metadata \<Rightarrow> (string \<times> string) list" where
  "uat_fields metadata =
     [(''x-edge-gateway-ingress-transport-id'', show_nat (unat (bm_transport_id metadata))),
      (''x-edge-gateway-websocket-id'', show_nat (unat (bm_connection_id metadata))),
      (''x-edge-gateway-ingress-peer'', show_socket_addr (bm_peer metadata)),
      (''x-edge-gateway-downstream-http-version'', bm_http_version metadata),
      (''x-edge-gateway-downstream-handshake'', bm_handshake metadata)]
     @ (case bm_cf_ray metadata of None \<Rightarrow> [] | Some ray \<Rightarrow> [(''x-edge-gateway-cf-ray'', ray)])"

definition handshake_fields :: "'h ws_lib \<Rightarrow> (string \<times> string) list" where
  "handshake_fields ws =
     [(''upgrade'', ''websocket''), (''connection'', ''upgrade''), (''sec-websocket-key'', wl_key ws),
      (''sec-websocket-version'', ''13'')]"

definition backend_target ::
  "('h, 'm) http_lib_scheme \<Rightarrow> route \<Rightarrow> websocket_backend \<Rightarrow> string option \<Rightarrow> anyhow + uri"
where
  "backend_target lib route endpoint query =
     (if wh_query (rt_handshake route) = Query_Preserve then
        let path = u_path (wb_request_target endpoint) in
        map_err (\<lambda>e. [''invalid WS upstream target'', e])
          (uri_parse lib (case query of Some query \<Rightarrow> path @ ''?'' @ query | None \<Rightarrow> path))
      else Inr (wb_request_target endpoint))"

definition backend_request ::
  "('h, 'm) http_lib_scheme \<Rightarrow> 'h ws_lib \<Rightarrow> route \<Rightarrow> websocket_backend \<Rightarrow> backend_metadata
   \<Rightarrow> 'h backend_headers \<Rightarrow> anyhow + 'h request"
where
  "backend_request lib ws route endpoint metadata headers =
     and_then (backend_target lib route endpoint (bh_query headers)) (\<lambda>target.
     and_then (fold (\<lambda>(name, v). builder_header lib name v)
         (handshake_fields ws @ (if rt_namespace route = Uat then uat_fields metadata else []))
         (Inr (hm_append lib (hm_empty lib) ''host'' (wb_host_header endpoint)))) (\<lambda>fields.
     let fields = (case bh_authorization headers of
           None \<Rightarrow> fields | Some v \<Rightarrow> hm_insert lib fields ''authorization'' v);
         fields = foldl (\<lambda>h (name, v). hm_append lib h name v) fields (hm_fields lib (bh_application headers));
         fields = foldl (\<lambda>h v. hm_append lib h ''sec-websocket-protocol'' v) fields (bh_protocols headers)
     in Inr \<lparr> rq_method = ''GET'', rq_uri = target, rq_version = Http_11, rq_headers = fields \<rparr>))"

definition is_ascii_whitespace :: "char \<Rightarrow> bool" where
  "is_ascii_whitespace c \<longleftrightarrow> byte c \<in> {32, 9, 10, 12, 13}"

definition trim_ascii_whitespace :: "bytes \<Rightarrow> bytes" where
  "trim_ascii_whitespace v =
     rev (dropWhile is_ascii_whitespace (rev (dropWhile is_ascii_whitespace v)))"

definition protocol_offered :: "bytes \<Rightarrow> bytes list \<Rightarrow> bool" where
  "protocol_offered selected offered \<longleftrightarrow>
     list_ex (\<lambda>v. list_ex (\<lambda>t. trim_ascii_whitespace t = selected) (split_on (CHR '','') v)) offered"

definition validate_backend_subprotocol ::
  "('h, 'm) http_lib_scheme \<Rightarrow> 'h \<Rightarrow> bytes list \<Rightarrow> anyhow + bytes option"
where
  "validate_backend_subprotocol lib response_headers offered =
     (case hm_get_all lib response_headers ''sec-websocket-protocol'' of
        [] \<Rightarrow> Inr None
      | selected # others \<Rightarrow>
          if others \<noteq> [] \<or> CHR '','' \<in> set selected
          then bail ''WebSocket backend selected multiple subprotocols''
          else if \<not> protocol_offered selected offered
          then bail ''WebSocket backend selected a subprotocol not offered downstream''
          else Inr (Some selected))"

datatype backend_connection =
    Websocket_Connection "bytes option" "bytes list"
  | Tcp_Connection

primrec selected_subprotocol :: "backend_connection \<Rightarrow> bytes option" where
  "selected_subprotocol (Websocket_Connection protocol cookies) = protocol"
| "selected_subprotocol Tcp_Connection = None"

primrec response_cookies :: "backend_connection \<Rightarrow> bytes list" where
  "response_cookies (Websocket_Connection protocol cookies) = cookies"
| "response_cookies Tcp_Connection = []"

text \<open>What the network and the handshake of the library answered.\<close>

record 'h backend_outcome =
  bo_tcp :: "string + unit"
  bo_nodelay :: "string + unit"
  bo_handshake :: "anyhow + 'h"

definition connect_tcp_backend :: "route \<Rightarrow> 'h backend_outcome \<Rightarrow> anyhow + backend_connection" where
  "connect_tcp_backend route outcome =
     and_then (map_err (\<lambda>e. [''failed to connect to TCP backend '' @ backend_display (rt_backend route), e])
         (bo_tcp outcome)) (\<lambda>_.
     and_then (map_err (\<lambda>e. [''failed to enable TCP_NODELAY for TCP backend'', e]) (bo_nodelay outcome)) (\<lambda>_.
     Inr Tcp_Connection))"

definition connect_websocket_backend ::
  "('h, 'm) http_lib_scheme \<Rightarrow> 'h ws_lib \<Rightarrow> route \<Rightarrow> backend_metadata \<Rightarrow> 'h backend_headers
   \<Rightarrow> 'h backend_outcome \<Rightarrow> anyhow + backend_connection"
where
  "connect_websocket_backend lib ws route metadata headers outcome =
     and_then (ok_or [''WebSocket route resolved without a WebSocket backend endpoint'']
         (backend_websocket (rt_backend route))) (\<lambda>endpoint.
     and_then (map_err (\<lambda>e. [''failed to connect to WebSocket backend '' @ wb_display endpoint, e])
         (bo_tcp outcome)) (\<lambda>_.
     and_then (map_err (\<lambda>e. [''failed to enable TCP_NODELAY for WebSocket backend'', e])
         (bo_nodelay outcome)) (\<lambda>_.
     and_then (backend_request lib ws route endpoint metadata headers) (\<lambda>request.
     and_then (add_context ''WebSocket backend handshake failed'' (bo_handshake outcome)) (\<lambda>response.
     and_then (validate_backend_subprotocol lib response (bh_protocols headers)) (\<lambda>protocol.
     Inr (Websocket_Connection protocol (hm_get_all lib response ''set-cookie''))))))))"

definition connect_backend ::
  "('h, 'm) http_lib_scheme \<Rightarrow> 'h ws_lib \<Rightarrow> route \<Rightarrow> backend_metadata \<Rightarrow> 'h backend_headers
   \<Rightarrow> 'h backend_outcome \<Rightarrow> anyhow + backend_connection"
where
  "connect_backend lib ws route metadata headers outcome =
     (case kind_of_backend (rt_backend route) of
        Kind_Websocket \<Rightarrow> connect_websocket_backend lib ws route metadata headers outcome
      | Kind_Tcp \<Rightarrow> connect_tcp_backend route outcome)"

section \<open>Accepting a connection\<close>

text \<open>
  The race of the connection attempt against the shutdown and the time-out, and what is spawned after
  the answer: over HTTP/1 a task that first waits for the upgrade of the client's connection, over
  HTTP/2 the relay itself.
\<close>

datatype connect_race = Race_Shutdown | Race_Timeout | Race_Done

record 'h accept_env =
  ae_lease :: bool
  ae_shutdown :: bool
  ae_protocol :: "string option"
  ae_race :: connect_race
  ae_outcome :: "'h backend_outcome"

record launch =
  la_handshake :: downstream_handshake
  la_connection_id :: u64
  la_backend :: backend_connection

definition answer_fields ::
  "('h, 'm) http_lib_scheme \<Rightarrow> backend_connection \<Rightarrow> 'h \<Rightarrow> 'h"
where
  "answer_fields lib backend headers =
     (let headers = foldl (\<lambda>h cookie. hm_append lib h ''set-cookie'' cookie) headers (response_cookies backend)
      in case selected_subprotocol backend of
           None \<Rightarrow> headers
         | Some protocol \<Rightarrow> hm_insert lib headers ''sec-websocket-protocol'' protocol)"

definition race_backend ::
  "connect_race \<Rightarrow> anyhow + backend_connection \<Rightarrow> observability
   \<Rightarrow> (accept_error + backend_connection) \<times> observability"
where
  "race_backend race connected ob =
     (case race of
        Race_Shutdown \<Rightarrow> (Inl Shutting_Down, ob)
      | Race_Timeout \<Rightarrow> (Inl Backend_Timeout, record_websocket_backend_connect_timeout ob)
      | Race_Done \<Rightarrow>
          (case connected of
             Inl e \<Rightarrow> (Inl (Backend_Failed e), record_websocket_backend_connect_failure ob)
           | Inr backend \<Rightarrow> (Inr backend, ob)))"

definition accept_metadata ::
  "('h, 'm) http_lib_scheme \<Rightarrow> 'h request \<Rightarrow> resolved_client_address \<Rightarrow> u64 \<Rightarrow> u64
   \<Rightarrow> downstream_handshake \<Rightarrow> backend_metadata"
where
  "accept_metadata lib request address transport_id connection_id kind =
     \<lparr> bm_transport_id = transport_id, bm_connection_id = connection_id, bm_peer = ra_peer address,
       bm_cf_ray = get_str lib (rq_headers request) ''cf-ray'',
       bm_http_version = http_version_name (rq_version request), bm_handshake = handshake_name kind \<rparr>"

text \<open>An upgrade is only prepared over HTTP/1; its response is the library's.\<close>

definition upgrade_response ::
  "('h, 'm) http_lib_scheme \<Rightarrow> 'h ws_lib \<Rightarrow> downstream_handshake \<Rightarrow> 'h request
   \<Rightarrow> accept_error + 'h response"
where
  "upgrade_response lib ws kind request =
     (case kind of
        Http1_Upgrade \<Rightarrow> map_err Invalid_Handshake (wl_upgrade ws request)
      | Http2_Extended_Connect \<Rightarrow>
          Inr \<lparr> re_status = 200, re_version = Http_11, re_headers = hm_empty lib \<rparr>)"

definition websocket_accept ::
  "('h, 'm) http_lib_scheme \<Rightarrow> 'h ws_lib \<Rightarrow> 'h accept_env \<Rightarrow> 'h request \<Rightarrow> route
   \<Rightarrow> resolved_client_address \<Rightarrow> u64 \<Rightarrow> observability
   \<Rightarrow> (accept_error + 'h response \<times> launch) \<times> observability"
where
  "websocket_accept lib ws env request route address transport_id ob =
     (if \<not> ae_lease env then (Inl Invalid_Internal_State, ob)
      else if ae_shutdown env then (Inl Shutting_Down, ob)
      else case validate_downstream_handshake lib ws request (ae_protocol env) of
        Inl e \<Rightarrow> (Inl e, ob)
      | Inr kind \<Rightarrow>
        (case backend_headers_from lib request route of
           Inl e \<Rightarrow> (Inl e, ob)
         | Inr headers \<Rightarrow>
           let (connection_id, ob) = next_websocket_connection_id ob;
               metadata = accept_metadata lib request address transport_id connection_id kind in
           (case upgrade_response lib ws kind request of
              Inl e \<Rightarrow> (Inl e, ob)
            | Inr response \<Rightarrow>
              (case race_backend (ae_race env)
                      (connect_backend lib ws route metadata headers (ae_outcome env)) ob of
                 (Inl e, ob) \<Rightarrow> (Inl e, ob)
               | (Inr backend, ob) \<Rightarrow>
                   (Inr (response\<lparr>re_headers := answer_fields lib backend (re_headers response)\<rparr>,
                      \<lparr> la_handshake = kind, la_connection_id = connection_id, la_backend = backend \<rparr>),
                    ob)))))"

text \<open>The spawned task: a relay is registered and started, unless the upgrade of the client fails.\<close>

datatype upgrade_race = Upgrade_Done | Upgrade_Failed | Upgrade_Timeout

datatype started = Started_Relay relay | Started_Tcp_Relay tcp_relay

definition start_relay :: "nat \<Rightarrow> backend_connection \<Rightarrow> observability \<Rightarrow> started \<times> observability" where
  "start_relay maximum backend ob =
     (let ob = begin_websocket_connection ob in
      (case backend of
         Websocket_Connection _ _ \<Rightarrow> Started_Relay (relay_start maximum ob)
       | Tcp_Connection \<Rightarrow> Started_Tcp_Relay (tcp_relay_start maximum ob), ob))"

definition run_launch ::
  "nat \<Rightarrow> upgrade_race \<Rightarrow> launch \<Rightarrow> observability \<Rightarrow> started option \<times> observability"
where
  "run_launch maximum race la ob =
     (case la_handshake la of
        Http2_Extended_Connect \<Rightarrow> map_prod Some id (start_relay maximum (la_backend la) ob)
      | Http1_Upgrade \<Rightarrow>
          (case race of
             Upgrade_Done \<Rightarrow> map_prod Some id (start_relay maximum (la_backend la) ob)
           | Upgrade_Failed \<Rightarrow> (None, record_websocket_upgrade_failure ob)
           | Upgrade_Timeout \<Rightarrow> (None, record_websocket_upgrade_timeout ob)))"

declare validate_downstream_handshake_def [eval_simps] application_names_def [eval_simps]
  copy_field_def [eval_simps] cookie_field_def [eval_simps] origin_field_def [eval_simps]
  backend_headers_from_def [eval_simps] show_socket_addr_def [eval_simps]
  builder_header_def [eval_simps] uat_fields_def [eval_simps] handshake_fields_def [eval_simps]
  backend_target_def [eval_simps] backend_request_def [eval_simps] is_ascii_whitespace_def [eval_simps]
  trim_ascii_whitespace_def [eval_simps] protocol_offered_def [eval_simps]
  validate_backend_subprotocol_def [eval_simps] connect_tcp_backend_def [eval_simps]
  connect_websocket_backend_def [eval_simps] connect_backend_def [eval_simps]
  answer_fields_def [eval_simps] race_backend_def [eval_simps] accept_metadata_def [eval_simps]
  upgrade_response_def [eval_simps] websocket_accept_def [eval_simps] start_relay_def [eval_simps]
  run_launch_def [eval_simps] next_websocket_connection_id_def [eval_simps]

section \<open>What reaches the backend\<close>

text \<open>The fields that may come from the client, and under which condition.\<close>

definition client_fields :: "route \<Rightarrow> string set" where
  "client_fields route =
     {''authorization'', ''sec-websocket-protocol'', ''x-forwarded-host''} \<union> set application_names
     \<union> (if forward_cookie (rt_handshake route) then {''cookie''} else {})
     \<union> (if forward_origin (rt_handshake route) then {''origin''} else {})"

lemma client_fields_members:
  "''x-forwarded-host'' \<in> client_fields route"
  "n \<in> set application_names \<Longrightarrow> n \<in> client_fields route"
  "forward_cookie (rt_handshake route) \<Longrightarrow> ''cookie'' \<in> client_fields route"
  "forward_origin (rt_handshake route) \<Longrightarrow> ''origin'' \<in> client_fields route"
  by (simp_all add: client_fields_def)

lemma application_names_other:
  "''authorization'' \<notin> set application_names" "''sec-websocket-protocol'' \<notin> set application_names"
  by (simp_all add: application_names_def)

lemma builder_header_simps:
  "builder_header lib name s (Inl e) = Inl e"
  "builder_header lib name s (Inr h) =
     (case hv_from_str lib s of
        None \<Rightarrow> Inl [''failed to build WebSocket backend handshake request'', hv_invalid lib]
      | Some v \<Rightarrow> Inr (hm_append lib h name v))"
  by (simp_all add: builder_header_def split: option.split)

context header_map
begin

lemma append_fields_get_all:
  "hm_get_all lib (foldl (\<lambda>h (name, v). hm_append lib h name v) h fs) n =
     hm_get_all lib h n @ map snd (filter (\<lambda>f. fst f = n) fs)"
  by (induction fs arbitrary: h) auto

lemma append_values_get_all:
  "hm_get_all lib (foldl (\<lambda>h v. hm_append lib h m v) h vs) n =
     (if n = m then hm_get_all lib h n @ vs else hm_get_all lib h n)"
  by (induction vs arbitrary: h) auto

lemma copy_fields_get_all:
  assumes "distinct names"
  shows "hm_get_all lib (foldl (copy_field lib source) h names) n =
     (if n \<in> set names \<and> hm_contains lib source n then [hd (hm_get_all lib source n)]
      else hm_get_all lib h n)"
  using assms
proof (induction names arbitrary: h)
  case (Cons m names)
  have "hm_get_all lib (copy_field lib source h m) n =
      (if n = m \<and> hm_contains lib source n then [hd (hm_get_all lib source n)] else hm_get_all lib h n)" for h
    by (cases "hm_get_all lib source m") (auto simp: copy_field_def hm_get_def hm_contains_def)
  with Cons show ?case by auto
qed simp

lemma builder_error: "fold (\<lambda>(name, v). builder_header lib name v) pairs (Inl e) = Inl e"
  by (induction pairs) (auto simp: builder_header_simps)

lemma builder_get_all:
  assumes "fold (\<lambda>(name, v). builder_header lib name v) pairs (Inr h) = Inr h'"
  obtains vs where "hm_get_all lib h' n = hm_get_all lib h n @ vs"
    "list_all2 (\<lambda>s v. hv_from_str lib s = Some v) (map snd (filter (\<lambda>p. fst p = n) pairs)) vs"
  using assms
proof (induction pairs arbitrary: h thesis)
  case (Cons p pairs)
  obtain name s where p: "p = (name, s)" by (cases p)
  obtain v where v: "hv_from_str lib s = Some v"
    "fold (\<lambda>(name, v). builder_header lib name v) pairs (Inr (hm_append lib h name v)) = Inr h'"
    using Cons.prems(2) by (cases "hv_from_str lib s") (auto simp: p builder_header_simps builder_error)
  obtain vs where "hm_get_all lib h' n = hm_get_all lib (hm_append lib h name v) n @ vs"
    "list_all2 (\<lambda>s v. hv_from_str lib s = Some v) (map snd (filter (\<lambda>p. fst p = n) pairs)) vs"
    using Cons.IH [OF _ v(2)] by blast
  then show ?case
    using v(1) by (intro Cons.prems(1) [of "if name = n then v # vs else vs"]) (auto simp: p)
qed simp

lemma cookie_field_get_all:
  "cookie_field lib headers h = Inr h' \<Longrightarrow> n \<noteq> ''cookie'' \<Longrightarrow> hm_get_all lib h' n = hm_get_all lib h n"
  by (auto simp: cookie_field_def split: if_splits)

lemma origin_field_get_all:
  "origin_field lib headers h = Inr h' \<Longrightarrow> n \<noteq> ''origin'' \<Longrightarrow> hm_get_all lib h' n = hm_get_all lib h n"
  "origin_field lib headers h = Inr h' \<Longrightarrow> hm_get_all lib h' ''origin'' \<noteq> [] \<Longrightarrow> hm_get_all lib h ''origin'' = []
    \<Longrightarrow> hm_get_all lib h' ''origin'' = hm_get_all lib headers ''origin''"
  by (auto simp: origin_field_def split: list.splits if_splits)

end

definition gateway_fields :: "string list" where
  "gateway_fields =
     [''host'', ''upgrade'', ''connection'', ''sec-websocket-key'', ''sec-websocket-version'']"

definition uat_names :: "string list" where
  "uat_names =
     [''x-edge-gateway-ingress-transport-id'', ''x-edge-gateway-websocket-id'',
      ''x-edge-gateway-ingress-peer'', ''x-edge-gateway-downstream-http-version'',
      ''x-edge-gateway-downstream-handshake'', ''x-edge-gateway-cf-ray'']"

lemma uat_fields_names: "fst ` set (uat_fields metadata) \<subseteq> set uat_names"
  by (auto simp: uat_fields_def uat_names_def split: option.splits)

lemma uat_names_other:
  "n \<in> set uat_names \<Longrightarrow> n \<notin> client_fields route \<and> n \<notin> set gateway_fields"
  by (auto simp: uat_names_def client_fields_def gateway_fields_def application_names_def)

lemma handshake_fields_filter:
  "n \<notin> set gateway_fields \<Longrightarrow> filter (\<lambda>p. fst p = n) (handshake_fields ws) = []"
  by (auto simp: handshake_fields_def gateway_fields_def filter_empty_conv)

lemma uat_fields_filter:
  "n \<notin> set uat_names \<Longrightarrow> filter (\<lambda>p. fst p = n) (uat_fields metadata) = []"
  using uat_fields_names [of metadata] by (force simp: filter_empty_conv)

context header_map
begin

lemma backend_headers_parts:
  assumes "backend_headers_from lib request route = Inr headers"
  obtains a1 a2 v where "length (hm_get_all lib (rq_headers request) ''authorization'') \<le> 1"
    "(if forward_cookie (rt_handshake route) then cookie_field lib (rq_headers request) (hm_empty lib)
      else Inr (hm_empty lib)) = Inr a1"
    "(if forward_origin (rt_handshake route) then origin_field lib (rq_headers request) a1 else Inr a1) = Inr a2"
    "headers = \<lparr> bh_authorization = hm_get lib (rq_headers request) ''authorization'',
       bh_protocols = hm_get_all lib (rq_headers request) ''sec-websocket-protocol'',
       bh_application = hm_insert lib (foldl (copy_field lib (rq_headers request)) a2 application_names)
         ''x-forwarded-host'' v,
       bh_query = u_query (rq_uri request) \<rparr>"
    "\<And>n. hm_get_all lib (bh_application headers) n =
      (if n = ''x-forwarded-host'' then [v]
       else if n \<in> set application_names \<and> hm_contains lib (rq_headers request) n
       then [hd (hm_get_all lib (rq_headers request) n)]
       else hm_get_all lib a2 n)"
proof -
  let ?h = "rq_headers request"
  define c where "c = (if forward_cookie (rt_handshake route) then cookie_field lib ?h (hm_empty lib)
    else Inr (hm_empty lib))"
  define g where "g = (\<lambda>x. if forward_origin (rt_handshake route) then origin_field lib ?h x else Inr x)"
  have "\<exists>a1 a2 v. length (hm_get_all lib ?h ''authorization'') \<le> 1 \<and> c = Inr a1 \<and> g a1 = Inr a2 \<and>
      headers = \<lparr> bh_authorization = hm_get lib ?h ''authorization'',
              bh_protocols = hm_get_all lib ?h ''sec-websocket-protocol'',
              bh_application = hm_insert lib (foldl (copy_field lib ?h) a2 application_names) ''x-forwarded-host'' v,
              bh_query = u_query (rq_uri request) \<rparr>"
  proof (cases "1 < length (hm_get_all lib ?h ''authorization'')")
    case False
    with assms show ?thesis
      unfolding backend_headers_from_def Let_def c_def [symmetric] g_def [THEN fun_cong, symmetric]
      by (auto simp: not_less)
  qed (use assms in \<open>simp add: backend_headers_from_def\<close>)
  then obtain a1 a2 v where
    a: "length (hm_get_all lib ?h ''authorization'') \<le> 1" "c = Inr a1" "g a1 = Inr a2"
    and h: "headers = \<lparr> bh_authorization = hm_get lib ?h ''authorization'',
              bh_protocols = hm_get_all lib ?h ''sec-websocket-protocol'',
              bh_application = hm_insert lib (foldl (copy_field lib ?h) a2 application_names) ''x-forwarded-host'' v,
              bh_query = u_query (rq_uri request) \<rparr>"
    by blast
  have dist: "distinct application_names" by (simp add: application_names_def)
  show thesis
    by (rule that [OF a(1) a(2) [unfolded c_def] a(3) [unfolded g_def] h])
      (simp add: h copy_fields_get_all [OF dist])
qed

lemma backend_headers_copied:
  assumes "backend_headers_from lib request route = Inr headers" "n \<in> set application_names"
    and "hm_get_all lib (rq_headers request) n = [w]"
  shows "hm_get_all lib (bh_application headers) n = [w]"
proof -
  obtain a2 v where "hm_get_all lib (bh_application headers) n =
      (if n = ''x-forwarded-host'' then [v]
       else if n \<in> set application_names \<and> hm_contains lib (rq_headers request) n
       then [hd (hm_get_all lib (rq_headers request) n)]
       else hm_get_all lib a2 n)"
    using backend_headers_parts [OF assms(1)] by metis
  moreover have "n \<noteq> ''x-forwarded-host''" using assms(2) by (auto simp: application_names_def)
  ultimately show ?thesis using assms by (simp add: hm_contains_def)
qed

lemma backend_headers_ok:
  assumes "backend_headers_from lib request route = Inr headers"
  shows "length (hm_get_all lib (rq_headers request) ''authorization'') \<le> 1"
    and "bh_authorization headers = hm_get lib (rq_headers request) ''authorization''"
    and "bh_protocols headers = hm_get_all lib (rq_headers request) ''sec-websocket-protocol''"
    and "bh_query headers = u_query (rq_uri request)"
    and "hm_contains lib (bh_application headers) n \<Longrightarrow> n \<in> client_fields route \<and>
      n \<noteq> ''authorization'' \<and> n \<noteq> ''sec-websocket-protocol''"
    and "hm_contains lib (bh_application headers) ''origin'' \<Longrightarrow>
      hm_get_all lib (bh_application headers) ''origin'' = hm_get_all lib (rq_headers request) ''origin''"
proof -
  let ?h = "rq_headers request"
  obtain a1 a2 v where a: "length (hm_get_all lib ?h ''authorization'') \<le> 1"
    "(if forward_cookie (rt_handshake route) then cookie_field lib ?h (hm_empty lib) else Inr (hm_empty lib)) = Inr a1"
    "(if forward_origin (rt_handshake route) then origin_field lib ?h a1 else Inr a1) = Inr a2"
    and h: "headers = \<lparr> bh_authorization = hm_get lib ?h ''authorization'',
              bh_protocols = hm_get_all lib ?h ''sec-websocket-protocol'',
              bh_application = hm_insert lib (foldl (copy_field lib ?h) a2 application_names) ''x-forwarded-host'' v,
              bh_query = u_query (rq_uri request) \<rparr>"
    and app: "\<And>n. hm_get_all lib (bh_application headers) n =
      (if n = ''x-forwarded-host'' then [v]
       else if n \<in> set application_names \<and> hm_contains lib ?h n then [hd (hm_get_all lib ?h n)]
       else hm_get_all lib a2 n)"
    by (rule backend_headers_parts [OF assms]) (rule that)
  have a1: "hm_get_all lib a1 n = []" if "n \<noteq> ''cookie'' \<or> \<not> forward_cookie (rt_handshake route)" for n
    using a(2) that cookie_field_get_all [of ?h "hm_empty lib" a1 n] by (auto split: if_splits)
  have a2: "hm_get_all lib a2 n = hm_get_all lib a1 n" if "n \<noteq> ''origin'' \<or> \<not> forward_origin (rt_handshake route)" for n
    using a(3) that origin_field_get_all(1) [of ?h a1 a2 n] by (auto split: if_splits)
  show "length (hm_get_all lib ?h ''authorization'') \<le> 1" by (rule a(1))
  show "bh_authorization headers = hm_get lib ?h ''authorization''"
    "bh_protocols headers = hm_get_all lib ?h ''sec-websocket-protocol''"
    "bh_query headers = u_query (rq_uri request)" by (simp_all add: h)
  have none: "hm_get_all lib (bh_application headers) n = []"
    if "n \<notin> client_fields route \<or> n = ''authorization'' \<or> n = ''sec-websocket-protocol''"
  proof -
    have "n \<noteq> ''x-forwarded-host'' \<and> n \<notin> set application_names
      \<and> (n \<noteq> ''cookie'' \<or> \<not> forward_cookie (rt_handshake route))
      \<and> (n \<noteq> ''origin'' \<or> \<not> forward_origin (rt_handshake route))"
      using that
    proof (elim disjE)
      assume "n \<notin> client_fields route"
      then show ?thesis using client_fields_members by metis
    qed (simp_all add: application_names_other)
    then show ?thesis using a1 [of n] a2 [of n] by (simp add: app)
  qed
  show "hm_contains lib (bh_application headers) n \<Longrightarrow> n \<in> client_fields route \<and>
      n \<noteq> ''authorization'' \<and> n \<noteq> ''sec-websocket-protocol''"
    using none by (auto simp: hm_contains_def)
  show "hm_contains lib (bh_application headers) ''origin'' \<Longrightarrow>
      hm_get_all lib (bh_application headers) ''origin'' = hm_get_all lib ?h ''origin''"
    using a1 [of "''origin''"] a2 [of "''origin''"] a(3) origin_field_get_all(2) [of ?h a1 a2]
    by (auto simp: hm_contains_def app application_names_def split: if_splits)
qed

lemma backend_request_get_all:
  assumes "backend_request lib ws route endpoint metadata headers = Inr request"
  obtains vs where "hm_get_all lib (rq_headers request) n =
      (if n = ''authorization'' \<and> bh_authorization headers \<noteq> None then [the (bh_authorization headers)]
       else (if n = ''host'' then [wb_host_header endpoint] else []) @ vs)
      @ hm_get_all lib (bh_application headers) n
      @ (if n = ''sec-websocket-protocol'' then bh_protocols headers else [])"
    "list_all2 (\<lambda>s v. hv_from_str lib s = Some v)
       (map snd (filter (\<lambda>p. fst p = n)
          (handshake_fields ws @ (if rt_namespace route = Uat then uat_fields metadata else [])))) vs"
    "rq_method request = ''GET''" "rq_version request = Http_11"
proof -
  obtain target h where
    h: "fold (\<lambda>(name, v). builder_header lib name v)
         (handshake_fields ws @ (if rt_namespace route = Uat then uat_fields metadata else []))
         (Inr (hm_append lib (hm_empty lib) ''host'' (wb_host_header endpoint))) = Inr h"
    and r: "request = \<lparr> rq_method = ''GET'', rq_uri = target, rq_version = Http_11,
        rq_headers = foldl (\<lambda>h v. hm_append lib h ''sec-websocket-protocol'' v)
          (foldl (\<lambda>h (name, v). hm_append lib h name v)
            (case bh_authorization headers of None \<Rightarrow> h | Some v \<Rightarrow> hm_insert lib h ''authorization'' v)
            (hm_fields lib (bh_application headers))) (bh_protocols headers) \<rparr>"
    using assms by (auto simp: backend_request_def Let_def)
  obtain vs where vs: "hm_get_all lib h n = hm_get_all lib (hm_append lib (hm_empty lib) ''host'' (wb_host_header endpoint)) n @ vs"
    "list_all2 (\<lambda>s v. hv_from_str lib s = Some v)
       (map snd (filter (\<lambda>p. fst p = n)
          (handshake_fields ws @ (if rt_namespace route = Uat then uat_fields metadata else [])))) vs"
    by (rule builder_get_all [OF h])
  show thesis
  proof (rule that [OF _ vs(2)])
    show "hm_get_all lib (rq_headers request) n =
      (if n = ''authorization'' \<and> bh_authorization headers \<noteq> None then [the (bh_authorization headers)]
       else (if n = ''host'' then [wb_host_header endpoint] else []) @ vs)
      @ hm_get_all lib (bh_application headers) n
      @ (if n = ''sec-websocket-protocol'' then bh_protocols headers else [])"
      by (cases "bh_authorization headers"; cases "n = ''sec-websocket-protocol''")
        (use vs(1) in \<open>simp_all add: r append_values_get_all append_fields_get_all fields_get_all\<close>)
  qed (simp_all add: r)
qed

lemma backend_request_plain:
  assumes rq: "backend_request lib ws route endpoint metadata headers = Inr sent"
    and n: "n \<notin> set gateway_fields" "n \<notin> set uat_names"
  shows "hm_get_all lib (rq_headers sent) n =
      (if n = ''authorization'' \<and> bh_authorization headers \<noteq> None then [the (bh_authorization headers)] else [])
      @ hm_get_all lib (bh_application headers) n
      @ (if n = ''sec-websocket-protocol'' then bh_protocols headers else [])"
proof -
  obtain vs where "hm_get_all lib (rq_headers sent) n =
      (if n = ''authorization'' \<and> bh_authorization headers \<noteq> None then [the (bh_authorization headers)]
       else (if n = ''host'' then [wb_host_header endpoint] else []) @ vs)
      @ hm_get_all lib (bh_application headers) n
      @ (if n = ''sec-websocket-protocol'' then bh_protocols headers else [])"
      "list_all2 (\<lambda>s v. hv_from_str lib s = Some v)
       (map snd (filter (\<lambda>p. fst p = n)
          (handshake_fields ws @ (if rt_namespace route = Uat then uat_fields metadata else [])))) vs"
    by (rule backend_request_get_all [OF rq])
  moreover have "n \<noteq> ''host''" using n by (auto simp: gateway_fields_def)
  ultimately show ?thesis
    using handshake_fields_filter [OF n(1), of ws] uat_fields_filter [OF n(2), of metadata]
    by (auto split: if_splits)
qed

text \<open>Nothing of the client's request reaches the backend but the fields of the list.\<close>

lemma backend_request_fields:
  assumes hd: "backend_headers_from lib request route = Inr headers"
    and rq: "backend_request lib ws route endpoint metadata headers = Inr sent"
  shows "hm_contains lib (rq_headers sent) n \<Longrightarrow>
      n \<in> client_fields route \<union> set gateway_fields \<union> (if rt_namespace route = Uat then set uat_names else {})"
    and "hm_get_all lib (rq_headers sent) ''host'' = [wb_host_header endpoint]"
    and "hm_get_all lib (rq_headers sent) ''authorization'' = hm_get_all lib (rq_headers request) ''authorization''"
    and "hm_get_all lib (rq_headers sent) ''sec-websocket-protocol'' =
      hm_get_all lib (rq_headers request) ''sec-websocket-protocol''"
    and "forward_origin (rt_handshake route) \<Longrightarrow> hm_contains lib (rq_headers sent) ''origin'' \<Longrightarrow>
      hm_get_all lib (rq_headers sent) ''origin'' = hm_get_all lib (rq_headers request) ''origin''"
proof -
  note ok = backend_headers_ok [OF hd]
  have app: "hm_get_all lib (bh_application headers) n = []" if "n \<notin> client_fields route" for n
    using ok(5) that by (auto simp: hm_contains_def)
  have none: "hm_get_all lib (bh_application headers) ''authorization'' = []"
    "hm_get_all lib (bh_application headers) ''sec-websocket-protocol'' = []"
    using ok(5) by (auto simp: hm_contains_def)
  show "n \<in> client_fields route \<union> set gateway_fields \<union> (if rt_namespace route = Uat then set uat_names else {})"
    if c: "hm_contains lib (rq_headers sent) n"
  proof (rule ccontr)
    assume out: "\<not> ?thesis"
    obtain vs where vs: "hm_get_all lib (rq_headers sent) n =
      (if n = ''authorization'' \<and> bh_authorization headers \<noteq> None then [the (bh_authorization headers)]
       else (if n = ''host'' then [wb_host_header endpoint] else []) @ vs)
      @ hm_get_all lib (bh_application headers) n
      @ (if n = ''sec-websocket-protocol'' then bh_protocols headers else [])"
      "list_all2 (\<lambda>s v. hv_from_str lib s = Some v)
       (map snd (filter (\<lambda>p. fst p = n)
          (handshake_fields ws @ (if rt_namespace route = Uat then uat_fields metadata else [])))) vs"
      by (rule backend_request_get_all [OF rq])
    have "vs = []"
      using vs(2) out handshake_fields_filter [of n ws] uat_fields_filter [of n metadata]
      by (auto split: if_splits)
    with vs(1) out app [of n] c show False
      by (auto simp: hm_contains_def client_fields_def gateway_fields_def split: if_splits)
  qed
  show "hm_get_all lib (rq_headers sent) ''host'' = [wb_host_header endpoint]"
  proof -
    obtain vs where "hm_get_all lib (rq_headers sent) ''host'' = wb_host_header endpoint # vs @ hm_get_all lib (bh_application headers) ''host''"
      "list_all2 (\<lambda>s v. hv_from_str lib s = Some v)
       (map snd (filter (\<lambda>p. fst p = ''host'')
          (handshake_fields ws @ (if rt_namespace route = Uat then uat_fields metadata else [])))) vs"
      by (rule backend_request_get_all [OF rq, of "''host''"]) simp
    moreover have "filter (\<lambda>p. fst p = ''host'') (handshake_fields ws) = []" by (simp add: handshake_fields_def)
    moreover have "filter (\<lambda>p. fst p = ''host'') (uat_fields metadata) = []"
      by (rule uat_fields_filter) (simp add: uat_names_def)
    moreover have "hm_get_all lib (bh_application headers) ''host'' = []"
      by (rule app) (simp add: client_fields_def application_names_def)
    ultimately show ?thesis by (auto split: if_splits)
  qed
  note plain = backend_request_plain [OF rq]
  have "hm_get_all lib (rq_headers request) ''authorization'' =
      (case hm_get lib (rq_headers request) ''authorization'' of None \<Rightarrow> [] | Some v \<Rightarrow> [v])"
    using ok(1) by (cases "hm_get_all lib (rq_headers request) ''authorization''") (auto simp: hm_get_def)
  then show "hm_get_all lib (rq_headers sent) ''authorization'' = hm_get_all lib (rq_headers request) ''authorization''"
    using plain [of "''authorization''"] none(1) ok(2)
    by (auto simp: gateway_fields_def uat_names_def split: option.splits)
  show "hm_get_all lib (rq_headers sent) ''sec-websocket-protocol'' =
      hm_get_all lib (rq_headers request) ''sec-websocket-protocol''"
    using plain [of "''sec-websocket-protocol''"] none(2) ok(3) by (simp add: gateway_fields_def uat_names_def)
  show "hm_get_all lib (rq_headers sent) ''origin'' = hm_get_all lib (rq_headers request) ''origin''"
    if "forward_origin (rt_handshake route)" "hm_contains lib (rq_headers sent) ''origin''"
  proof -
    have same: "hm_get_all lib (rq_headers sent) ''origin'' = hm_get_all lib (bh_application headers) ''origin''"
      using plain [of "''origin''"] by (simp add: gateway_fields_def uat_names_def)
    have "hm_contains lib (bh_application headers) ''origin''" using that(2) same by (simp add: hm_contains_def)
    then show ?thesis using ok(6) same by simp
  qed
qed

end

section \<open>The sub-protocol and the errors\<close>

lemma validate_backend_subprotocol_ok:
  assumes "validate_backend_subprotocol lib headers offered = Inr (Some p)"
  shows "hm_get_all lib headers ''sec-websocket-protocol'' = [p]" "CHR '','' \<notin> set p"
    "\<exists>v \<in> set offered. \<exists>t \<in> set (split_on (CHR '','') v). trim_ascii_whitespace t = p"
  using assms
  by (auto simp: validate_backend_subprotocol_def protocol_offered_def list_ex_iff
      split: list.splits if_splits)

lemma accept_error_classes:
  "is_client_protocol_violation e \<longleftrightarrow> accept_status e \<in> {400, 426, 505}"
  "is_backend_failure e \<longleftrightarrow> accept_status e = 502"
  "should_advertise_http1_upgrade e \<longleftrightarrow> accept_status e = 426"
  "accept_status e \<in> {400, 426, 500, 502, 503, 505}"
  by (cases e; simp)+

text \<open>What was checked before a connection is accepted, and what the client is told.\<close>

lemma websocket_accept_ok:
  assumes "websocket_accept lib ws env request route address transport_id ob = (Inr (response, la), ob')"
  obtains headers connection_id ob1 where
    "ae_lease env" "\<not> ae_shutdown env"
    "validate_downstream_handshake lib ws request (ae_protocol env) = Inr (la_handshake la)"
    "backend_headers_from lib request route = Inr headers"
    "ae_race env = Race_Done"
    "connect_backend lib ws route
       (accept_metadata lib request address transport_id connection_id (la_handshake la)) headers
       (ae_outcome env) = Inr (la_backend la)"
proof -
  from assms obtain kind headers response0 backend cid where steps:
    "ae_lease env" "\<not> ae_shutdown env"
    "validate_downstream_handshake lib ws request (ae_protocol env) = Inr kind"
    "backend_headers_from lib request route = Inr headers"
    "upgrade_response lib ws kind request = Inr response0" "ae_race env = Race_Done"
    "connect_backend lib ws route (accept_metadata lib request address transport_id cid kind)
       headers (ae_outcome env) = Inr backend"
    "la_handshake la = kind" "la_backend la = backend"
    by (auto simp: websocket_accept_def race_backend_def next_websocket_connection_id_def
        split: if_splits sum.splits prod.splits connect_race.splits)
  then show thesis by (intro that) simp_all
qed

end
