(* ===== verification/Grpc_Proxy.thy ===== *)
theory Grpc_Proxy
  imports Http_Proxy Grpc_Routes
begin

text \<open>
  \<open>src/grpc/proxy.rs\<close>: gRPC calls are multiplexed over one HTTP/2 connection per backend.  A call
  takes a stream permit of its backend, waits for the shared connection, which one task at a time may
  establish, and keeps the permit until the upload and the response are both done.  The HTTP/2 client
  is not part of the repository: what it answers is an event.
\<close>

section \<open>Replies made by the gateway\<close>

definition grpc_failure_response ::
  "('h, 'm) http_lib_scheme \<Rightarrow> string \<Rightarrow> string \<Rightarrow> 'h response \<times> string"
where
  "grpc_failure_response lib status message =
     (\<lparr> re_status = 200, re_version = Http_2,
        re_headers = hm_insert lib (hm_insert lib (hm_insert lib (hm_empty lib)
          ''content-type'' ''application/grpc'') ''grpc-status'' status) ''grpc-message'' message \<rparr>,
      '''')"

definition blocked_grpc_response :: "('h, 'm) http_lib_scheme \<Rightarrow> 'h response \<times> string" where
  "blocked_grpc_response lib = grpc_failure_response lib ''7'' ''permission%20denied''"

section \<open>The request\<close>

definition grpc_prefix :: string where "grpc_prefix = ''application/grpc+''"

text \<open>
  \<open>value.get(..n)\<close> fails on a cut character.  A value that \<open>to_str\<close> accepts is ASCII, so the cut is
  always at a character.
\<close>

definition is_grpc_content_type :: "('h, 'm) http_lib_scheme \<Rightarrow> 'h \<Rightarrow> bool" where
  "is_grpc_content_type lib headers =
     (case get_str lib headers ''content-type'' of
        None \<Rightarrow> False
      | Some v \<Rightarrow>
          let media_type = trim (hd (split_on (CHR '';'') v)) in
          eq_ignore_ascii_case media_type ''application/grpc'' \<or>
          (length grpc_prefix < length media_type \<and>
           eq_ignore_ascii_case (take (length grpc_prefix) media_type) grpc_prefix))"

definition connection_specific :: "string list" where
  "connection_specific =
     [''connection'', ''te'', ''transfer-encoding'', ''upgrade'', ''keep-alive'', ''proxy-connection'']"

definition remove_connection_specific_headers :: "('h, 'm) http_lib_scheme \<Rightarrow> 'h \<Rightarrow> 'h" where
  "remove_connection_specific_headers lib headers = hm_remove_all lib headers connection_specific"

definition grpc_request_headers :: "('h, 'm) http_lib_scheme \<Rightarrow> grpc_backend \<Rightarrow> 'h \<Rightarrow> 'h" where
  "grpc_request_headers lib endpoint headers =
     hm_insert lib (hm_insert lib (remove_connection_specific_headers lib headers)
       ''host'' (gb_host_header endpoint)) ''te'' ''trailers''"

definition reject_invalid_grpc_request ::
  "('h, 'm) http_lib_scheme \<Rightarrow> 'h request \<Rightarrow> ('h response \<times> string) option"
where
  "reject_invalid_grpc_request lib request =
     (if rq_version request \<noteq> Http_2 then Some (text_response lib (505, ''HTTP/2 required\<newline>''))
      else if rq_method request \<noteq> ''POST'' then Some (text_response lib (405, ''POST required\<newline>''))
      else if u_query (rq_uri request) \<noteq> None
      then Some (text_response lib (400, ''query string is not allowed\<newline>''))
      else if \<not> is_grpc_content_type lib (rq_headers request)
      then Some (text_response lib (415, ''application/grpc content-type required\<newline>''))
      else None)"

section \<open>Backends\<close>

text \<open>Connections are numbered; what is cached is the sender of one of them.\<close>

record 's grpc_upstream =
  gu_endpoint :: grpc_backend
  gu_connect_timeout :: duration
  gu_sender :: "nat option"
  gu_connect_gate :: 's
  gu_active_streams :: 's

definition grpc_upstream_new ::
  "'s sem_lib \<Rightarrow> grpc_backend \<Rightarrow> duration \<Rightarrow> nat \<Rightarrow> 's grpc_upstream"
where
  "grpc_upstream_new sem endpoint connect_timeout max_concurrent_streams =
     \<lparr> gu_endpoint = endpoint, gu_connect_timeout = connect_timeout, gu_sender = None,
       gu_connect_gate = sem_new sem 1, gu_active_streams = sem_new sem max_concurrent_streams \<rparr>"

record 's grpc_runtime =
  gn_routes :: grpc_route_table
  gn_upstreams :: "socket_addr \<rightharpoonup> 's grpc_upstream"
  gn_shutdown :: bool

text \<open>Routes to the same address share a backend; the first one gives it its endpoint.\<close>

definition add_grpc_upstream ::
  "'s sem_lib \<Rightarrow> duration \<Rightarrow> nat \<Rightarrow> grpc_route \<Rightarrow> (socket_addr \<rightharpoonup> 's grpc_upstream)
   \<Rightarrow> (socket_addr \<rightharpoonup> 's grpc_upstream)"
where
  "add_grpc_upstream sem connect_timeout max_streams route upstreams =
     (let address = gb_address (gr_backend route) in
      if upstreams address = None
      then upstreams(address \<mapsto> grpc_upstream_new sem (gr_backend route) connect_timeout max_streams)
      else upstreams)"

definition grpc_runtime_new ::
  "'s sem_lib \<Rightarrow> grpc_route_table \<Rightarrow> duration \<Rightarrow> nat \<Rightarrow> 's grpc_runtime"
where
  "grpc_runtime_new sem routes connect_timeout max_streams =
     \<lparr> gn_routes = routes,
       gn_upstreams = fold (add_grpc_upstream sem connect_timeout max_streams)
         (grpc_enabled_routes routes) Map.empty,
       gn_shutdown = False \<rparr>"

section \<open>Starting a call\<close>

definition grpc_forward_request ::
  "('h, 'm) http_lib_scheme \<Rightarrow> grpc_route \<Rightarrow> 'h request \<Rightarrow> 'h request"
where
  "grpc_forward_request lib route request =
     request\<lparr>rq_uri := gr_upstream_uri route, rq_version := Http_2,
       rq_headers := grpc_request_headers lib (gr_backend route) (rq_headers request)\<rparr>"

text \<open>
  The checks before a call: what is answered at once, or the request to send and the backend with one
  stream permit less.  A permit taken in vain is given back.
\<close>

definition grpc_start ::
  "('h, 'm) http_lib_scheme \<Rightarrow> 's sem_lib \<Rightarrow> bool \<Rightarrow> grpc_route \<Rightarrow> 'h request \<Rightarrow> 's grpc_runtime
   \<Rightarrow> ('h response \<times> string) + 'h request \<times> 's grpc_upstream"
where
  "grpc_start lib sem has_admission route request rt =
     (if gn_shutdown rt then Inl (grpc_failure_response lib ''14'' ''gateway%20shutting%20down'')
      else case reject_invalid_grpc_request lib request of
        Some response \<Rightarrow> Inl response
      | None \<Rightarrow>
        (case gn_upstreams rt (gb_address (gr_backend route)) of
           None \<Rightarrow> Inl (grpc_failure_response lib ''14'' ''upstream%20unavailable'')
         | Some upstream \<Rightarrow>
           (case sem_try_acquire sem (gu_active_streams upstream) of
              None \<Rightarrow> Inl (grpc_failure_response lib ''8'' ''upstream%20concurrency%20limit%20reached'')
            | Some permits \<Rightarrow>
                if \<not> has_admission
                then Inl (grpc_failure_response lib ''13'' ''internal%20admission%20error'')
                else Inr (grpc_forward_request lib route request,
                       upstream\<lparr>gu_active_streams := permits\<rparr>))))"

datatype grpc_proxy_error =
    Grpc_Shutting_Down
  | Grpc_Connect_Timeout
  | Grpc_Connect string
  | Grpc_Configure_Socket string
  | Grpc_Handshake string
  | Grpc_Upstream_Error string

text \<open>What the client is sent once the backend answered.\<close>

definition grpc_answer ::
  "('h, 'm) http_lib_scheme \<Rightarrow> grpc_proxy_error + 'h response \<Rightarrow> ('h response \<times> string) + 'h response"
where
  "grpc_answer lib result =
     (case result of
        Inl e \<Rightarrow> Inl (grpc_failure_response lib ''14'' ''upstream%20unavailable'')
      | Inr response \<Rightarrow>
          Inr (response\<lparr>re_headers := remove_connection_specific_headers lib (re_headers response),
            re_version := Http_2\<rparr>))"

declare grpc_failure_response_def [eval_simps] blocked_grpc_response_def [eval_simps]
  grpc_prefix_def [eval_simps] is_grpc_content_type_def [eval_simps]
  connection_specific_def [eval_simps] remove_connection_specific_headers_def [eval_simps]
  grpc_request_headers_def [eval_simps] reject_invalid_grpc_request_def [eval_simps]
  grpc_upstream_new_def [eval_simps] add_grpc_upstream_def [eval_simps]
  grpc_runtime_new_def [eval_simps] grpc_forward_request_def [eval_simps] grpc_start_def [eval_simps]
  grpc_answer_def [eval_simps]

section \<open>A call\<close>

text \<open>
  Where the task of a call stands, between two suspension points.  From \<open>Call_Gated\<close> to
  \<open>Call_Caching\<close> it holds the connect gate.
\<close>

datatype call_phase =
    Call_Sender
  | Call_Gate
  | Call_Gated
  | Call_Connecting
  | Call_Caching nat
  | Call_Ready nat
  | Call_Sending nat
  | Call_Response nat
  | Call_Ended

text \<open>
  The stream lease is shared by the body that is uploaded and by the task, which hands it to the body
  of the response; the permit is given back when nobody holds the lease.
\<close>

record grpc_call =
  ga_phase :: call_phase
  ga_upload :: bool
  ga_download :: bool
  ga_finished :: "string option"

definition call_new :: grpc_call where
  "call_new = \<lparr> ga_phase = Call_Sender, ga_upload = True, ga_download = True, ga_finished = None \<rparr>"

definition call_live :: "grpc_call \<Rightarrow> bool" where
  "call_live call \<longleftrightarrow> ga_upload call \<or> ga_download call"

fun holds_gate :: "call_phase \<Rightarrow> bool" where
  "holds_gate Call_Gated = True"
| "holds_gate Call_Connecting = True"
| "holds_gate (Call_Caching c) = True"
| "holds_gate _ = False"

fun owns_request :: "call_phase \<Rightarrow> bool" where
  "owns_request (Call_Sending c) = False"
| "owns_request (Call_Response c) = False"
| "owns_request Call_Ended = False"
| "owns_request _ = True"

fun streams_response :: "call_phase \<Rightarrow> bool" where
  "streams_response (Call_Response c) = True"
| "streams_response _ = False"

text \<open>The bodies.  \<open>inner\<close> is what polling the body of the library answered.\<close>

definition body_over :: "(string + 'f) option poll \<Rightarrow> bool" where
  "body_over inner =
     (case inner of Ready None \<Rightarrow> True | Ready (Some (Inl e)) \<Rightarrow> True | _ \<Rightarrow> False)"

definition grpc_request_poll :: "(string + 'f) option poll \<Rightarrow> grpc_call \<Rightarrow> grpc_call" where
  "grpc_request_poll inner call = (if body_over inner then call\<lparr>ga_upload := False\<rparr> else call)"

definition grpc_finish :: "string \<Rightarrow> grpc_call \<Rightarrow> grpc_call" where
  "grpc_finish reason call =
     (if ga_finished call \<noteq> None then call
      else call\<lparr>ga_finished := Some reason, ga_download := False\<rparr>)"

definition grpc_response_poll :: "(string + 'f) option poll \<Rightarrow> grpc_call \<Rightarrow> grpc_call" where
  "grpc_response_poll inner call =
     (case inner of
        Ready None \<Rightarrow> grpc_finish ''complete'' call
      | Ready (Some (Inl e)) \<Rightarrow> grpc_finish ''upstream_error'' call
      | _ \<Rightarrow> call)"

definition grpc_response_drop :: "grpc_call \<Rightarrow> grpc_call" where
  "grpc_response_drop call =
     (if ga_finished call = None then grpc_finish ''downstream_cancelled'' call else call)"

text \<open>\<open>cached_sender\<close>: a sender whose connection is not closed.\<close>

definition cached_sender :: "nat set \<Rightarrow> 's grpc_upstream \<Rightarrow> nat option" where
  "cached_sender closed u =
     (case gu_sender u of Some c \<Rightarrow> if c \<in> closed then None else Some c | None \<Rightarrow> None)"

text \<open>The task ends without a response; a request that was not sent is dropped with it.\<close>

definition call_end :: "'s sem_lib \<Rightarrow> grpc_call \<times> 's grpc_upstream \<Rightarrow> grpc_call \<times> 's grpc_upstream" where
  "call_end sem = (\<lambda>(call, u).
     (call\<lparr>ga_phase := Call_Ended, ga_download := False,
        ga_upload := ga_upload call \<and> \<not> owns_request (ga_phase call)\<rparr>,
      if holds_gate (ga_phase call) then u\<lparr>gu_connect_gate := sem_release sem (gu_connect_gate u)\<rparr> else u))"

datatype call_event =
    Ga_Go
  | Ga_Failed grpc_proxy_error
  | Ga_Request_Poll "(string + bytes) option poll"
  | Ga_Response_Poll "(string + bytes) option poll"
  | Ga_Drop_Upload
  | Ga_Drop

text \<open>
  \<open>sender\<close> and \<open>send\<close>, one suspension point after the other.  \<open>Ga_Go\<close> says that what the task waits
  for has succeeded, \<open>Ga_Failed\<close> that it has failed, timed out or lost against the shutdown.
\<close>

definition call_go ::
  "'s sem_lib \<Rightarrow> nat set \<Rightarrow> grpc_call \<times> 's grpc_upstream \<times> nat
   \<Rightarrow> (grpc_call \<times> 's grpc_upstream \<times> nat) option"
where
  "call_go sem closed = (\<lambda>(call, u, made).
     case ga_phase call of
       Call_Sender \<Rightarrow>
         Some (call\<lparr>ga_phase := (case cached_sender closed u of
                 Some c \<Rightarrow> Call_Ready c | None \<Rightarrow> Call_Gate)\<rparr>, u, made)
     | Call_Gate \<Rightarrow>
         map_option (\<lambda>gate. (call\<lparr>ga_phase := Call_Gated\<rparr>, u\<lparr>gu_connect_gate := gate\<rparr>, made))
           (sem_try_acquire sem (gu_connect_gate u))
     | Call_Gated \<Rightarrow>
         Some (case cached_sender closed u of
             Some c \<Rightarrow> (call\<lparr>ga_phase := Call_Ready c\<rparr>,
               u\<lparr>gu_connect_gate := sem_release sem (gu_connect_gate u)\<rparr>, made)
           | None \<Rightarrow> (call\<lparr>ga_phase := Call_Connecting\<rparr>, u, made))
     | Call_Connecting \<Rightarrow> Some (call\<lparr>ga_phase := Call_Caching made\<rparr>, u, made + 1)
     | Call_Caching c \<Rightarrow>
         Some (call\<lparr>ga_phase := Call_Ready c\<rparr>,
           u\<lparr>gu_sender := Some c, gu_connect_gate := sem_release sem (gu_connect_gate u)\<rparr>, made)
     | Call_Ready c \<Rightarrow> Some (call\<lparr>ga_phase := Call_Sending c\<rparr>, u, made)
     | Call_Sending c \<Rightarrow> Some (call\<lparr>ga_phase := Call_Response c\<rparr>, u, made)
     | _ \<Rightarrow> None)"

fun can_fail :: "call_phase \<Rightarrow> bool" where
  "can_fail Call_Gate = True"
| "can_fail Call_Connecting = True"
| "can_fail (Call_Ready c) = True"
| "can_fail (Call_Sending c) = True"
| "can_fail _ = False"

definition call_step ::
  "'s sem_lib \<Rightarrow> nat set \<Rightarrow> call_event \<Rightarrow> grpc_call \<times> 's grpc_upstream \<times> nat
   \<Rightarrow> (grpc_call \<times> 's grpc_upstream \<times> nat) option"
where
  "call_step sem closed event = (\<lambda>(call, u, made).
     case event of
       Ga_Go \<Rightarrow> call_go sem closed (call, u, made)
     | Ga_Failed e \<Rightarrow>
         if can_fail (ga_phase call)
         then (case call_end sem (call, u) of (call, u) \<Rightarrow> Some (call, u, made)) else None
     | Ga_Request_Poll inner \<Rightarrow>
         if owns_request (ga_phase call) then None else Some (grpc_request_poll inner call, u, made)
     | Ga_Drop_Upload \<Rightarrow>
         if owns_request (ga_phase call) then None else Some (call\<lparr>ga_upload := False\<rparr>, u, made)
     | Ga_Response_Poll inner \<Rightarrow>
         if streams_response (ga_phase call) then Some (grpc_response_poll inner call, u, made) else None
     | Ga_Drop \<Rightarrow>
         if ga_phase call = Call_Ended then None
         else if streams_response (ga_phase call)
         then Some ((grpc_response_drop call)\<lparr>ga_phase := Call_Ended\<rparr>, u, made)
         else (case call_end sem (call, u) of (call, u) \<Rightarrow> Some (call, u, made)))"

definition settle_call ::
  "'s sem_lib \<Rightarrow> grpc_call \<Rightarrow> grpc_call \<Rightarrow> 's grpc_upstream \<Rightarrow> 's grpc_upstream"
where
  "settle_call sem before after u =
     (if call_live before \<and> \<not> call_live after
      then u\<lparr>gu_active_streams := sem_release sem (gu_active_streams u)\<rparr> else u)"

section \<open>All calls of a backend\<close>

record 's grpc_pool =
  gp_upstream :: "'s grpc_upstream"
  gp_calls :: "grpc_call list"
  gp_made :: nat
  gp_closed :: "nat set"

inductive grpc_step :: "'s sem_lib \<Rightarrow> 's grpc_pool \<Rightarrow> 's grpc_pool \<Rightarrow> bool" for sem where
  gp_start: "sem_try_acquire sem (gu_active_streams (gp_upstream s)) = Some permits \<Longrightarrow>
    grpc_step sem s (s\<lparr>gp_upstream := (gp_upstream s)\<lparr>gu_active_streams := permits\<rparr>,
      gp_calls := gp_calls s @ [call_new]\<rparr>)"
| gp_call: "i < length (gp_calls s) \<Longrightarrow>
    call_step sem (gp_closed s) event (gp_calls s ! i, gp_upstream s, gp_made s) = Some (call, u, made) \<Longrightarrow>
    grpc_step sem s (s\<lparr>gp_upstream := settle_call sem (gp_calls s ! i) call u,
      gp_calls := (gp_calls s)[i := call], gp_made := made\<rparr>)"
| gp_close: "c < gp_made s \<Longrightarrow> grpc_step sem s (s\<lparr>gp_closed := insert c (gp_closed s)\<rparr>)"

definition grpc_pool_new :: "'s sem_lib \<Rightarrow> grpc_backend \<Rightarrow> duration \<Rightarrow> nat \<Rightarrow> 's grpc_pool" where
  "grpc_pool_new sem endpoint connect_timeout max_streams =
     \<lparr> gp_upstream = grpc_upstream_new sem endpoint connect_timeout max_streams, gp_calls = [],
       gp_made = 0, gp_closed = {} \<rparr>"

definition grpc_reachable ::
  "'s sem_lib \<Rightarrow> grpc_backend \<Rightarrow> duration \<Rightarrow> nat \<Rightarrow> 's grpc_pool \<Rightarrow> bool"
where
  "grpc_reachable sem endpoint connect_timeout max_streams =
     (grpc_step sem)\<^sup>*\<^sup>* (grpc_pool_new sem endpoint connect_timeout max_streams)"

declare call_new_def [eval_simps] call_live_def [eval_simps] body_over_def [eval_simps]
  grpc_request_poll_def [eval_simps] grpc_finish_def [eval_simps] grpc_response_poll_def [eval_simps]
  grpc_response_drop_def [eval_simps] cached_sender_def [eval_simps] call_end_def [eval_simps]
  call_go_def [eval_simps] call_step_def [eval_simps] settle_call_def [eval_simps]
  grpc_pool_new_def [eval_simps]

section \<open>The invariant of a backend\<close>

fun uses_connection :: "call_phase \<Rightarrow> nat option" where
  "uses_connection (Call_Ready c) = Some c"
| "uses_connection (Call_Sending c) = Some c"
| "uses_connection (Call_Response c) = Some c"
| "uses_connection _ = None"

fun establishing :: "nat \<Rightarrow> call_phase \<Rightarrow> bool" where
  "establishing made Call_Connecting = True"
| "establishing made (Call_Caching c) = (c < made)"
| "establishing made _ = False"

definition is_establishing :: "call_phase \<Rightarrow> bool" where
  "is_establishing phase \<longleftrightarrow> phase = Call_Connecting \<or> (\<exists>c. phase = Call_Caching c)"

definition call_ok :: "grpc_call \<Rightarrow> bool" where
  "call_ok call \<longleftrightarrow>
     (owns_request (ga_phase call) \<longrightarrow> ga_upload call) \<and>
     (ga_download call \<longleftrightarrow> ga_phase call \<noteq> Call_Ended \<and> ga_finished call = None)"

definition connection_ok :: "nat \<Rightarrow> nat set \<Rightarrow> 's grpc_upstream \<Rightarrow> call_phase \<Rightarrow> bool" where
  "connection_ok made closed u phase \<longleftrightarrow>
     (\<forall>c. uses_connection phase = Some c \<longrightarrow> c < made \<and> (c \<notin> closed \<longrightarrow> gu_sender u = Some c)) \<and>
     (is_establishing phase \<longrightarrow> establishing made phase \<and> cached_sender closed u = None)"

definition connections_ok :: "'s grpc_pool \<Rightarrow> bool" where
  "connections_ok s \<longleftrightarrow>
     (\<forall>c. gu_sender (gp_upstream s) = Some c \<longrightarrow> c < gp_made s) \<and>
     (\<forall>call \<in> set (gp_calls s).
        connection_ok (gp_made s) (gp_closed s) (gp_upstream s) (ga_phase call))"

definition grpc_ok :: "'s sem_lib \<Rightarrow> nat \<Rightarrow> 's grpc_pool \<Rightarrow> bool" where
  "grpc_ok sem max_streams s \<longleftrightarrow>
     sem_available sem (gu_active_streams (gp_upstream s))
       + length (filter call_live (gp_calls s)) = max_streams \<and>
     sem_available sem (gu_connect_gate (gp_upstream s))
       + length (filter (\<lambda>call. holds_gate (ga_phase call)) (gp_calls s)) = 1 \<and>
     (\<forall>call \<in> set (gp_calls s). call_ok call) \<and> connections_ok s"

lemma settle_call_same [simp]:
  "gu_sender (settle_call sem before after u) = gu_sender u"
  "gu_connect_gate (settle_call sem before after u) = gu_connect_gate u"
  "cached_sender closed (settle_call sem before after u) = cached_sender closed u"
  by (simp_all add: settle_call_def cached_sender_def)

lemma cached_sender_Some:
  "cached_sender closed u = Some c \<longleftrightarrow> gu_sender u = Some c \<and> c \<notin> closed"
  by (auto simp: cached_sender_def split: option.split)

lemma cached_sender_gate [simp]:
  "cached_sender closed (u\<lparr>gu_connect_gate := g\<rparr>) = cached_sender closed u"
  "cached_sender closed (u\<lparr>gu_active_streams := g\<rparr>) = cached_sender closed u"
  by (simp_all add: cached_sender_def)

lemma cached_sender_closed: "cached_sender closed u = None \<Longrightarrow> closed \<subseteq> closed' \<Longrightarrow> cached_sender closed' u = None"
  by (auto simp: cached_sender_def split: option.splits if_splits)

lemma is_establishing_gate: "is_establishing phase \<Longrightarrow> holds_gate phase"
  by (auto simp: is_establishing_def)

text \<open>A task that goes on: what happens to the gate, to the cache and to its lease.\<close>

lemma call_step_cases:
  assumes "call_step sem closed event (call, u, made) = Some (call', u', made')"
  obtains
    (go) "event = Ga_Go" "call_go sem closed (call, u, made) = Some (call', u', made')"
  | (over) "call_end sem (call, u) = (call', u')" "made' = made" "ga_phase call \<noteq> Call_Ended"
      "\<not> streams_response (ga_phase call)"
  | (body) "u' = u" "made' = made" "\<not> owns_request (ga_phase call)"
      "ga_phase call' = ga_phase call \<or> ga_phase call' = Call_Ended"
      "call_ok call \<longrightarrow> call_ok call'" "call_live call' \<longrightarrow> call_live call"
proof -
  have fin: "ga_phase (grpc_finish r call) = ga_phase call"
    "call_ok call \<Longrightarrow> call_ok (grpc_finish r call)" "call_live (grpc_finish r call) \<Longrightarrow> call_live call"
    "call_ok call \<Longrightarrow> streams_response (ga_phase call) \<Longrightarrow> call_ok ((grpc_response_drop call)\<lparr>ga_phase := Call_Ended\<rparr>)"
    for r by (auto simp: grpc_finish_def grpc_response_drop_def call_ok_def call_live_def split: if_splits)
  have sr: "streams_response (ga_phase call) \<Longrightarrow> \<not> owns_request (ga_phase call)"
    by (cases "ga_phase call") auto
  show thesis
  proof (cases event)
    case Ga_Go
    with assms show thesis by (intro go) (simp_all add: call_step_def)
  next
    case (Ga_Failed e)
    with assms show thesis
      by (intro over; cases "ga_phase call")
        (auto simp: call_step_def split: if_splits prod.splits)
  next
    case (Ga_Request_Poll inner)
    with assms show thesis
      by (intro body) (auto simp: call_step_def grpc_request_poll_def call_ok_def call_live_def split: if_splits)
  next
    case (Ga_Response_Poll inner)
    with assms have *: "streams_response (ga_phase call)" "u' = u" "made' = made" "call' = grpc_response_poll inner call"
      by (auto simp: call_step_def split: if_splits)
    from sr [OF *(1)] show thesis
      by (intro body)
        (auto simp: * grpc_response_poll_def fin split: poll.splits option.splits sum.splits dest: fin(3))
  next
    case Ga_Drop_Upload
    with assms show thesis
      by (intro body) (auto simp: call_step_def call_ok_def call_live_def split: if_splits)
  next
    case Ga_Drop
    show thesis
    proof (cases "streams_response (ga_phase call)")
      case True
      with assms Ga_Drop have *: "u' = u" "made' = made" "call' = (grpc_response_drop call)\<lparr>ga_phase := Call_Ended\<rparr>"
        by (auto simp: call_step_def split: if_splits)
      from sr [OF True] fin(4) True show thesis
        by (intro body) (auto simp: * grpc_response_drop_def grpc_finish_def call_live_def split: if_splits)
    next
      case False
      with assms Ga_Drop show thesis
        by (intro over) (auto simp: call_step_def split: if_splits prod.splits)
    qed
  qed
qed

lemma uses_connection_end: "ga_phase call = Call_Ended \<Longrightarrow> uses_connection (ga_phase call) = None"
  by simp

context semaphore
begin

lemma call_step_effect:
  assumes step: "call_step sem closed event (call, u, made) = Some (call', u', made')" and ok: "call_ok call"
  shows "gu_active_streams u' = gu_active_streams u"
    and "sem_available sem (gu_connect_gate u') + (if holds_gate (ga_phase call') then 1 else 0) =
      sem_available sem (gu_connect_gate u) + (if holds_gate (ga_phase call) then 1 else 0)"
    and "call_ok call'" and "call_live call' \<Longrightarrow> call_live call" and "made \<le> made'"
proof -
  have holds: "holds_gate p \<Longrightarrow> owns_request p" for p by (cases p) auto
  have "gu_active_streams u' = gu_active_streams u \<and>
      sem_available sem (gu_connect_gate u') + (if holds_gate (ga_phase call') then 1 else 0) =
        sem_available sem (gu_connect_gate u) + (if holds_gate (ga_phase call) then 1 else 0) \<and>
      call_ok call' \<and> (call_live call' \<longrightarrow> call_live call) \<and> made \<le> made'"
    using step
  proof (cases rule: call_step_cases)
    case go
    then show ?thesis using ok
      by (cases "ga_phase call")
        (auto simp: call_go_def call_ok_def call_live_def try_acquire_Some split: option.splits)
  next
    case over
    then show ?thesis using ok by (auto simp: call_end_def call_ok_def call_live_def)
  next
    case body
    moreover have "holds_gate (ga_phase call') = holds_gate (ga_phase call)"
      using body(3,4) holds [of "ga_phase call"] by auto
    ultimately show ?thesis using ok by simp
  qed
  then show "gu_active_streams u' = gu_active_streams u"
    "sem_available sem (gu_connect_gate u') + (if holds_gate (ga_phase call') then 1 else 0) =
      sem_available sem (gu_connect_gate u) + (if holds_gate (ga_phase call) then 1 else 0)"
    "call_ok call'" "call_live call' \<Longrightarrow> call_live call" "made \<le> made'" by simp_all
qed

lemma call_step_connection:
  assumes step: "call_step sem closed event (call, u, made) = Some (call', u', made')"
  shows "gu_sender u' = gu_sender u \<and>
      (\<forall>c. uses_connection (ga_phase call') = Some c \<longrightarrow>
         uses_connection (ga_phase call) = Some c \<or> cached_sender closed u = Some c) \<and>
      (is_establishing (ga_phase call') \<longrightarrow>
         establishing made' (ga_phase call') \<and>
           (is_establishing (ga_phase call) \<or> cached_sender closed u = None)
         \<or> ga_phase call' = ga_phase call \<and> made' = made)
    \<or> (\<exists>c. ga_phase call = Call_Caching c \<and> ga_phase call' = Call_Ready c \<and> gu_sender u' = Some c
         \<and> made' = made)"
  using step
proof (cases rule: call_step_cases)
  case go
  then show ?thesis
    by (cases "ga_phase call") (auto simp: call_go_def is_establishing_def split: option.splits)
next
  case over
  then show ?thesis by (auto simp: call_end_def is_establishing_def)
next
  case body
  then show ?thesis by (auto simp: is_establishing_def)
qed

lemma connections_ok_step:
  assumes ok: "connections_ok s" and i: "i < length (gp_calls s)"
    and step: "call_step sem (gp_closed s) event (gp_calls s ! i, gp_upstream s, gp_made s) = Some (call, u, made)"
    and mono: "gp_made s \<le> made"
    and gate: "holds_gate (ga_phase (gp_calls s ! i)) \<Longrightarrow>
      \<forall>j < length (gp_calls s). j \<noteq> i \<longrightarrow> \<not> holds_gate (ga_phase (gp_calls s ! j))"
  shows "connections_ok (s\<lparr>gp_upstream := settle_call sem (gp_calls s ! i) call u,
    gp_calls := (gp_calls s)[i := call], gp_made := made\<rparr>)"
proof -
  let ?old = "gp_calls s ! i"
  have old: "connection_ok (gp_made s) (gp_closed s) (gp_upstream s) (ga_phase ?old)"
    using ok i by (simp add: connections_ok_def)
  have sender: "\<forall>c. gu_sender (gp_upstream s) = Some c \<longrightarrow> c < made"
    using ok mono by (auto simp: connections_ok_def intro: less_le_trans)
  have mono_est: "establishing (gp_made s) p \<Longrightarrow> establishing made p" for p
    using mono by (cases p) auto
  have keep: "connection_ok made (gp_closed s) u' p"
    if "connection_ok (gp_made s) (gp_closed s) (gp_upstream s) p" "gu_sender u' = gu_sender (gp_upstream s)"
    for p and u' :: "'s grpc_upstream"
    using that mono mono_est by (auto simp: connection_ok_def cached_sender_def intro: less_le_trans)
  have others: "connection_ok made (gp_closed s) u (ga_phase c')"
    if "c' \<in> set ((gp_calls s)[i := call])" "connection_ok made (gp_closed s) u (ga_phase call)"
      "\<And>j. j < length (gp_calls s) \<Longrightarrow> j \<noteq> i \<Longrightarrow> connection_ok made (gp_closed s) u (ga_phase (gp_calls s ! j))" for c'
    using that i by (auto simp: in_set_conv_nth nth_list_update)
  have settle: "connection_ok made closed (settle_call sem x y u) p = connection_ok made closed u p" for closed x y p
    by (simp add: connection_ok_def)
  from call_step_connection [OF step] show ?thesis
  proof (elim disjE exE conjE)
    assume new: "gu_sender u = gu_sender (gp_upstream s)"
      "\<forall>c. uses_connection (ga_phase call) = Some c \<longrightarrow>
         uses_connection (ga_phase ?old) = Some c \<or> cached_sender (gp_closed s) (gp_upstream s) = Some c"
      "is_establishing (ga_phase call) \<longrightarrow>
         establishing made (ga_phase call) \<and>
           (is_establishing (ga_phase ?old) \<or> cached_sender (gp_closed s) (gp_upstream s) = None)
         \<or> ga_phase call = ga_phase ?old \<and> made = gp_made s"
    have same: "cached_sender (gp_closed s) u = cached_sender (gp_closed s) (gp_upstream s)"
      by (simp add: cached_sender_def new(1))
    have "connection_ok made (gp_closed s) u (ga_phase call)"
      unfolding connection_ok_def
    proof (intro conjI allI impI)
      fix c assume "uses_connection (ga_phase call) = Some c"
      then have "uses_connection (ga_phase ?old) = Some c \<or> gu_sender (gp_upstream s) = Some c"
        using new(2) by (auto simp: cached_sender_Some)
      then show "c < made" "c \<notin> gp_closed s \<Longrightarrow> gu_sender u = Some c"
        using old sender mono new(1) by (auto simp: connection_ok_def)
    next
      assume "is_establishing (ga_phase call)"
      then show "establishing made (ga_phase call)" "cached_sender (gp_closed s) u = None"
        using new(3) old same by (auto simp: connection_ok_def)
    qed
    moreover have "connection_ok made (gp_closed s) u (ga_phase (gp_calls s ! j))"
      if "j < length (gp_calls s)" for j
      using ok that by (intro keep) (simp_all add: connections_ok_def new(1))
    ultimately show ?thesis
      unfolding connections_ok_def using sender by (auto simp: new(1) settle intro: others)
  next
    fix c
    assume new: "ga_phase ?old = Call_Caching c" "ga_phase call = Call_Ready c" "gu_sender u = Some c"
      "made = gp_made s"
    have c: "c < made" and none: "cached_sender (gp_closed s) (gp_upstream s) = None"
      using old new by (simp_all add: connection_ok_def is_establishing_def)
    have "connection_ok made (gp_closed s) u (ga_phase (gp_calls s ! j))"
      if "j < length (gp_calls s)" "j \<noteq> i" for j
    proof -
      have "\<not> holds_gate (ga_phase (gp_calls s ! j))" using gate that by (simp add: new(1))
      then have "\<not> is_establishing (ga_phase (gp_calls s ! j))" using is_establishing_gate by blast
      moreover have "connection_ok (gp_made s) (gp_closed s) (gp_upstream s) (ga_phase (gp_calls s ! j))"
        using ok that(1) by (simp add: connections_ok_def)
      ultimately show ?thesis using none new(4) by (auto simp: connection_ok_def cached_sender_def split: option.splits if_splits)
    qed
    moreover have "connection_ok made (gp_closed s) u (ga_phase call)"
      using c new by (simp add: connection_ok_def is_establishing_def)
    ultimately show ?thesis
      unfolding connections_ok_def using c by (auto simp: new(3) settle intro: others)
  qed
qed

end

lemma call_live_new: "call_ok call_new" "call_live call_new" "ga_phase call_new = Call_Sender"
  by (simp_all add: call_ok_def call_live_def call_new_def)

context semaphore
begin

lemma grpc_step_ok:
  assumes "grpc_step sem s s'" "grpc_ok sem max_streams s"
  shows "grpc_ok sem max_streams s'"
  using assms
proof (induction rule: grpc_step.induct)
  case (gp_start s permits)
  then show ?case
    using try_acquire_Some [OF gp_start.hyps]
    by (auto simp: grpc_ok_def connections_ok_def connection_ok_def call_live_new is_establishing_def)
next
  case (gp_close c s)
  then show ?case
    by (auto simp: grpc_ok_def connections_ok_def connection_ok_def
        intro: cached_sender_closed [OF _ subset_insertI])
next
  case (gp_call i s event call u made)
  let ?old = "gp_calls s ! i" and ?calls = "(gp_calls s)[i := call]"
  have ok: "sem_available sem (gu_active_streams (gp_upstream s)) + length (filter call_live (gp_calls s)) = max_streams"
    "sem_available sem (gu_connect_gate (gp_upstream s)) + length (filter (\<lambda>c. holds_gate (ga_phase c)) (gp_calls s)) = 1"
    "\<forall>c \<in> set (gp_calls s). call_ok c" "connections_ok s"
    using gp_call.prems by (simp_all add: grpc_ok_def)
  have "call_ok ?old" using ok(3) gp_call.hyps(1) by simp
  note effect = call_step_effect [OF gp_call.hyps(2) this]
  have live: "length (filter call_live ?calls) + (if call_live ?old then 1 else 0) =
      length (filter call_live (gp_calls s)) + (if call_live call then 1 else 0)"
    by (rule filter_length_update [OF gp_call.hyps(1)])
  have gate: "length (filter (\<lambda>c. holds_gate (ga_phase c)) ?calls) + (if holds_gate (ga_phase ?old) then 1 else 0) =
      length (filter (\<lambda>c. holds_gate (ga_phase c)) (gp_calls s)) + (if holds_gate (ga_phase call) then 1 else 0)"
    by (rule filter_length_update [OF gp_call.hyps(1)])
  have pos: "0 < length (filter call_live (gp_calls s))" if "call_live ?old"
    using that gp_call.hyps(1) by (auto simp: filter_empty_conv)
  have active: "sem_available sem (gu_active_streams (settle_call sem ?old call u)) + length (filter call_live ?calls) = max_streams"
    using ok(1) live effect(1,4) by (auto simp: settle_call_def split: if_splits)
  have "\<forall>c \<in> set ?calls. call_ok c"
    using ok(3) effect(3) set_update_subset_insert [of "gp_calls s" i call] by blast
  moreover have "connections_ok (s\<lparr>gp_upstream := settle_call sem ?old call u, gp_calls := ?calls, gp_made := made\<rparr>)"
    using gp_call.hyps filter_none_other [OF gp_call.hyps(1), of "\<lambda>c. holds_gate (ga_phase c)"] ok(2,4) effect(5)
    by (intro connections_ok_step) auto
  ultimately show ?case using active gate effect(2) ok(2) by (simp add: grpc_ok_def)
qed

lemma grpc_new_ok: "grpc_ok sem max_streams (grpc_pool_new sem endpoint connect_timeout max_streams)"
  by (simp add: grpc_ok_def grpc_pool_new_def grpc_upstream_new_def connections_ok_def)

lemma grpc_reachable_ok:
  assumes "grpc_reachable sem endpoint connect_timeout max_streams s"
  shows "grpc_ok sem max_streams s"
  using assms unfolding grpc_reachable_def
  by (induction rule: rtranclp_induct) (auto intro: grpc_new_ok grpc_step_ok)

text \<open>All calls over open connections share one, and while one is established there is no other.\<close>

lemma grpc_one_connection:
  assumes "grpc_reachable sem endpoint connect_timeout max_streams s"
    and "a \<in> set (gp_calls s)" "uses_connection (ga_phase a) = Some c" "c \<notin> gp_closed s"
  shows "b \<in> set (gp_calls s) \<Longrightarrow> uses_connection (ga_phase b) = Some d \<Longrightarrow> d \<notin> gp_closed s \<Longrightarrow> c = d"
    and "b \<in> set (gp_calls s) \<Longrightarrow> \<not> is_establishing (ga_phase b)"
proof -
  have ok: "connection_ok (gp_made s) (gp_closed s) (gp_upstream s) (ga_phase x)"
    if "x \<in> set (gp_calls s)" for x
    using grpc_reachable_ok [OF assms(1)] that by (simp add: grpc_ok_def connections_ok_def)
  have c: "gu_sender (gp_upstream s) = Some c" using ok [OF assms(2)] assms(3,4) by (simp add: connection_ok_def)
  then show "b \<in> set (gp_calls s) \<Longrightarrow> uses_connection (ga_phase b) = Some d \<Longrightarrow> d \<notin> gp_closed s \<Longrightarrow> c = d"
    using ok [of b] by (simp add: connection_ok_def)
  show "b \<in> set (gp_calls s) \<Longrightarrow> \<not> is_establishing (ga_phase b)"
    using ok [of b] c assms(4) by (auto simp: connection_ok_def cached_sender_def)
qed

text \<open>When every call has ended and no upload is left, every permit is back.\<close>

lemma grpc_permits_return:
  assumes "grpc_reachable sem endpoint connect_timeout max_streams s"
    and "\<forall>call \<in> set (gp_calls s). ga_phase call = Call_Ended \<and> \<not> ga_upload call"
  shows "sem_available sem (gu_active_streams (gp_upstream s)) = max_streams"
    and "sem_available sem (gu_connect_gate (gp_upstream s)) = 1"
proof -
  note ok = grpc_reachable_ok [OF assms(1), unfolded grpc_ok_def]
  have "filter call_live (gp_calls s) = []" "filter (\<lambda>call. holds_gate (ga_phase call)) (gp_calls s) = []"
    using assms(2) ok by (auto simp: filter_empty_conv call_live_def call_ok_def)
  then show "sem_available sem (gu_active_streams (gp_upstream s)) = max_streams"
    "sem_available sem (gu_connect_gate (gp_upstream s)) = 1" using ok by simp_all
qed

end

text \<open>A call whose client went away can always end, whatever it waits for.\<close>

lemma call_drop_ends:
  assumes "ga_phase call \<noteq> Call_Ended"
  shows "\<exists>call' u'. call_step sem closed Ga_Drop (call, u, made) = Some (call', u', made) \<and>
    ga_phase call' = Call_Ended"
  using assms by (auto simp: call_step_def call_end_def split: prod.split)

section \<open>What is sent and answered\<close>

text \<open>Whatever the gateway answers itself is either a gRPC status over HTTP/2 or a plain error.\<close>

definition grpc_status_reply :: "('h, 'm) http_lib_scheme \<Rightarrow> 'h response \<Rightarrow> string \<Rightarrow> bool" where
  "grpc_status_reply lib response status \<longleftrightarrow>
     re_status response = 200 \<and> re_version response = Http_2 \<and>
     hm_get_all lib (re_headers response) ''content-type'' = [''application/grpc''] \<and>
     hm_get_all lib (re_headers response) ''grpc-status'' = [status]"

context header_map
begin

lemma grpc_start_forwards:
  assumes "grpc_start lib sem has_admission route request rt = Inr (sent, upstream)"
  shows "\<not> gn_shutdown rt" "has_admission" "rq_version request = Http_2" "rq_method request = ''POST''"
    "u_query (rq_uri request) = None" "is_grpc_content_type lib (rq_headers request)"
    "rq_method sent = ''POST''" "rq_version sent = Http_2" "rq_uri sent = gr_upstream_uri route"
    "hm_get_all lib (rq_headers sent) ''host'' = [gb_host_header (gr_backend route)]"
    "hm_get_all lib (rq_headers sent) ''te'' = [''trailers'']"
    "n \<notin> {''host'', ''te''} \<Longrightarrow> hm_get_all lib (rq_headers sent) n =
       (if n \<in> set connection_specific then [] else hm_get_all lib (rq_headers request) n)"
    "sem_try_acquire sem (gu_active_streams
       (the (gn_upstreams rt (gb_address (gr_backend route))))) = Some (gu_active_streams upstream)"
  using assms
  by (auto simp: grpc_start_def grpc_forward_request_def grpc_request_headers_def
      remove_connection_specific_headers_def reject_invalid_grpc_request_def
      split: if_splits option.splits)

lemma grpc_failure_status:
  "grpc_failure_response lib status message = (response, text) \<Longrightarrow> grpc_status_reply lib response status"
  by (auto simp: grpc_failure_response_def grpc_status_reply_def)

lemma grpc_start_rejects:
  assumes "grpc_start lib sem has_admission route request rt = Inl (response, text)"
  shows "reject_invalid_grpc_request lib request = Some (response, text) \<and> re_status response \<in> {400, 405, 415, 505}
    \<or> (\<exists>status \<in> {''8'', ''13'', ''14''}. grpc_status_reply lib response status)"
  using assms
  by (auto simp: grpc_start_def grpc_failure_status reject_invalid_grpc_request_def text_response_def
      split: if_splits option.splits)

end

end
