(* ===== verification/Admission.thy ===== *)
theory Admission
  imports Grpc_Proxy Observability
begin

text \<open>
  The permits of \<open>src/gateway/listener.rs\<close> and their life: \<open>run\<close> accepts connections, every
  connection is served by a task of its own, every admitted request has a lease
  (\<open>src/gateway/admission.rs\<close>) that its relay, its upstream call and its response body
  (\<open>src/gateway/body.rs\<close>) share.  TLS and the HTTP driver are not part of the repository: how they
  end is an event.
\<close>

section \<open>Connections and requests\<close>

text \<open>
  The task of a connection holds the handshake permit until the handshake is over, and one reference
  to the transport permit as long as it runs.
\<close>

record connection =
  cx_id :: u64
  cx_handshaking :: bool
  cx_serving :: bool
  cx_request_count :: u64

text \<open>
  A request holds its own reference to the transport permit of its connection.  Once it is admitted
  that reference is part of the \<open>RequestLease\<close>, together with a request permit; \<open>rl_holders\<close> counts
  the clones of the \<open>Arc\<close>.  \<open>rl_body\<close> says that the response body, or the handler that will make
  it, is one of them.
\<close>

record request_lease =
  rl_connection :: nat
  rl_admitted :: bool
  rl_body :: bool
  rl_holders :: nat

record 's admission =
  am_transport :: 's
  am_handshakes :: 's
  am_requests :: 's
  am_connections :: "connection list"
  am_leases :: "request_lease list"
  am_ob :: observability

definition admission_new :: "'s sem_lib \<Rightarrow> nat \<Rightarrow> nat \<Rightarrow> nat \<Rightarrow> observability \<Rightarrow> 's admission" where
  "admission_new sem max_connections max_handshakes max_requests ob =
     \<lparr> am_transport = sem_new sem max_connections, am_handshakes = sem_new sem max_handshakes,
       am_requests = sem_new sem max_requests, am_connections = [], am_leases = [], am_ob = ob \<rparr>"

definition lease_live :: "request_lease \<Rightarrow> bool" where
  "lease_live l \<longleftrightarrow> 0 < rl_holders l"

definition holds_transport :: "'s admission \<Rightarrow> nat \<Rightarrow> bool" where
  "holds_transport s i \<longleftrightarrow>
     cx_serving (am_connections s ! i) \<or>
     list_ex (\<lambda>l. rl_connection l = i \<and> lease_live l) (am_leases s)"

text \<open>Dropping the last reference to the transport permit of a connection gives it back.\<close>

definition settle_transport :: "'s sem_lib \<Rightarrow> nat \<Rightarrow> 's admission \<Rightarrow> 's admission \<Rightarrow> 's admission" where
  "settle_transport sem i before after =
     (if holds_transport before i \<and> \<not> holds_transport after i
      then after\<lparr>am_transport := sem_release sem (am_transport after)\<rparr> else after)"

definition admission_reject :: "admission_rejection \<Rightarrow> 's admission \<Rightarrow> 's admission" where
  "admission_reject reason s = s\<lparr>am_ob := snd (record_admission_rejection reason (am_ob s))\<rparr>"

definition observe :: "(observability \<Rightarrow> observability) \<Rightarrow> 's admission \<Rightarrow> 's admission" where
  "observe f s = s\<lparr>am_ob := f (am_ob s)\<rparr>"

section \<open>Accepting connections\<close>

text \<open>The transport permit that was taken before the handshake limit refused is dropped again.\<close>

definition accept_connection :: "'s sem_lib \<Rightarrow> 's admission \<Rightarrow> u64 option \<times> 's admission" where
  "accept_connection sem s =
     (case sem_try_acquire sem (am_transport s) of
        None \<Rightarrow> (None, admission_reject Connection_Capacity s)
      | Some transport \<Rightarrow>
          (case sem_try_acquire sem (am_handshakes s) of
             None \<Rightarrow>
               (None, admission_reject Handshake_Capacity (s\<lparr>am_transport := sem_release sem transport\<rparr>))
           | Some handshakes \<Rightarrow>
               let (id, ob) = begin_transport_connection (am_ob s) in
               (Some id,
                s\<lparr>am_transport := transport, am_handshakes := handshakes, am_ob := ob,
                  am_connections := am_connections s @
                    [\<lparr> cx_id = id, cx_handshaking = True, cx_serving = True, cx_request_count = 0 \<rparr>]\<rparr>)))"

section \<open>Serving a connection\<close>

definition update_connection :: "nat \<Rightarrow> (connection \<Rightarrow> connection) \<Rightarrow> 's admission \<Rightarrow> 's admission" where
  "update_connection i f s = s\<lparr>am_connections := (am_connections s)[i := f (am_connections s ! i)]\<rparr>"

definition stop_serving :: "'s sem_lib \<Rightarrow> nat \<Rightarrow> 's admission \<Rightarrow> 's admission" where
  "stop_serving sem i s =
     settle_transport sem i s
       (observe (drop_active Transport) (update_connection i (cx_serving_update (\<lambda>_. False)) s))"

datatype handshake_outcome = Handshake_Done | Handshake_Failed | Handshake_Timeout

text \<open>Only a handshake that succeeded lets the task go on; the handshake permit is dropped anyway.\<close>

definition end_handshake :: "'s sem_lib \<Rightarrow> handshake_outcome \<Rightarrow> nat \<Rightarrow> 's admission \<Rightarrow> 's admission" where
  "end_handshake sem outcome i s =
     (let s = update_connection i (cx_handshaking_update (\<lambda>_. False)) s;
          s = s\<lparr>am_handshakes := sem_release sem (am_handshakes s)\<rparr>
      in case outcome of
           Handshake_Done \<Rightarrow> observe record_tls_handshake_success s
         | Handshake_Failed \<Rightarrow> stop_serving sem i (observe record_tls_handshake_failure s)
         | Handshake_Timeout \<Rightarrow> stop_serving sem i (observe record_tls_handshake_timeout s))"

datatype connection_end = Peer_Closed_It | Http_Error | Shutdown_Done | Shutdown_Error | Shutdown_Timeout

primrec connection_end_name :: "connection_end \<Rightarrow> string" where
  "connection_end_name Peer_Closed_It = ''peer_closed''"
| "connection_end_name Http_Error = ''http_error''"
| "connection_end_name Shutdown_Done = ''gateway_shutdown''"
| "connection_end_name Shutdown_Error = ''shutdown_error''"
| "connection_end_name Shutdown_Timeout = ''shutdown_timeout''"

definition end_connection :: "'s sem_lib \<Rightarrow> connection_end \<Rightarrow> nat \<Rightarrow> 's admission \<Rightarrow> 's admission" where
  "end_connection sem how i s =
     stop_serving sem i
       (if how \<in> {Http_Error, Shutdown_Error} then observe record_http_connection_error s else s)"

section \<open>Requests\<close>

text \<open>The service function counts the request and clones the reference to the transport permit.\<close>

definition begin_request :: "nat \<Rightarrow> 's admission \<Rightarrow> 's admission" where
  "begin_request i s =
     (update_connection i (cx_request_count_update increment) s)\<lparr>am_leases := am_leases s @
        [\<lparr> rl_connection = i, rl_admitted = False, rl_body = True, rl_holders = 1 \<rparr>]\<rparr>"

definition update_lease ::
  "'s sem_lib \<Rightarrow> nat \<Rightarrow> (request_lease \<Rightarrow> request_lease) \<Rightarrow> 's admission \<Rightarrow> 's admission"
where
  "update_lease sem k f s =
     (let l = am_leases s ! k;
          s' = s\<lparr>am_leases := (am_leases s)[k := f l],
            am_requests := (if lease_live l \<and> rl_admitted l \<and> \<not> lease_live (f l)
              then sem_release sem (am_requests s) else am_requests s)\<rparr>
      in settle_transport sem (rl_connection l) s s')"

text \<open>
  \<open>try_acquire_owned\<close> on the request capacity.  When it fails the request is answered and the
  reference dropped; otherwise both permits become the lease.
\<close>

definition admit_request :: "'s sem_lib \<Rightarrow> nat \<Rightarrow> 's admission \<Rightarrow> bool \<times> 's admission" where
  "admit_request sem k s =
     (case sem_try_acquire sem (am_requests s) of
        None \<Rightarrow> (False, update_lease sem k (\<lambda>l. l\<lparr>rl_body := False, rl_holders := 0\<rparr>) (admission_reject Request_Capacity s))
      | Some requests \<Rightarrow>
          (True, s\<lparr>am_requests := requests,
             am_leases := (am_leases s)[k := (am_leases s ! k)\<lparr>rl_admitted := True\<rparr>]\<rparr>))"

definition clone_lease :: "'s sem_lib \<Rightarrow> nat \<Rightarrow> 's admission \<Rightarrow> 's admission" where
  "clone_lease sem k = update_lease sem k (rl_holders_update Suc)"

definition drop_lease :: "'s sem_lib \<Rightarrow> nat \<Rightarrow> 's admission \<Rightarrow> 's admission" where
  "drop_lease sem k = update_lease sem k (rl_holders_update (\<lambda>n. n - 1))"

text \<open>\<open>AdmissionBody::poll_frame\<close>: the response body lets the lease go when it is over.\<close>

definition drop_body :: "'s sem_lib \<Rightarrow> nat \<Rightarrow> 's admission \<Rightarrow> 's admission" where
  "drop_body sem k s =
     (if rl_body (am_leases s ! k)
      then update_lease sem k (\<lambda>l. l\<lparr>rl_body := False, rl_holders := rl_holders l - 1\<rparr>) s else s)"

definition admission_body_poll ::
  "'s sem_lib \<Rightarrow> (string + bytes) option poll \<Rightarrow> bool \<Rightarrow> nat \<Rightarrow> 's admission \<Rightarrow> 's admission"
where
  "admission_body_poll sem inner end_stream k s =
     (if body_over inner \<or> end_stream then drop_body sem k s else s)"

section \<open>All steps\<close>

inductive admission_step :: "'s sem_lib \<Rightarrow> 's admission \<Rightarrow> 's admission \<Rightarrow> bool" for sem where
  am_accept: "admission_step sem s (snd (accept_connection sem s))"
| am_handshake: "i < length (am_connections s) \<Longrightarrow> cx_handshaking (am_connections s ! i) \<Longrightarrow>
    admission_step sem s (end_handshake sem outcome i s)"
| am_end: "i < length (am_connections s) \<Longrightarrow> cx_serving (am_connections s ! i) \<Longrightarrow>
    \<not> cx_handshaking (am_connections s ! i) \<Longrightarrow> admission_step sem s (end_connection sem how i s)"
| am_request: "i < length (am_connections s) \<Longrightarrow> cx_serving (am_connections s ! i) \<Longrightarrow>
    \<not> cx_handshaking (am_connections s ! i) \<Longrightarrow> admission_step sem s (begin_request i s)"
| am_answer: "k < length (am_leases s) \<Longrightarrow> lease_live (am_leases s ! k) \<Longrightarrow>
    \<not> rl_admitted (am_leases s ! k) \<Longrightarrow> admission_step sem s (drop_body sem k s)"
| am_reject: "admission_step sem s (admission_reject reason s)"
| am_admit: "k < length (am_leases s) \<Longrightarrow> lease_live (am_leases s ! k) \<Longrightarrow>
    \<not> rl_admitted (am_leases s ! k) \<Longrightarrow> admission_step sem s (snd (admit_request sem k s))"
| am_clone: "k < length (am_leases s) \<Longrightarrow> lease_live (am_leases s ! k) \<Longrightarrow>
    rl_admitted (am_leases s ! k) \<Longrightarrow> admission_step sem s (clone_lease sem k s)"
| am_drop: "k < length (am_leases s) \<Longrightarrow> rl_admitted (am_leases s ! k) \<Longrightarrow>
    (if rl_body (am_leases s ! k) then 1 else 0) < rl_holders (am_leases s ! k) \<Longrightarrow>
    admission_step sem s (drop_lease sem k s)"
| am_body_poll: "k < length (am_leases s) \<Longrightarrow> rl_admitted (am_leases s ! k) \<Longrightarrow>
    admission_step sem s (admission_body_poll sem inner end_stream k s)"
| am_body_drop: "k < length (am_leases s) \<Longrightarrow> rl_admitted (am_leases s ! k) \<Longrightarrow>
    admission_step sem s (drop_body sem k s)"

definition admission_reachable ::
  "'s sem_lib \<Rightarrow> nat \<Rightarrow> nat \<Rightarrow> nat \<Rightarrow> observability \<Rightarrow> 's admission \<Rightarrow> bool"
where
  "admission_reachable sem max_connections max_handshakes max_requests ob =
     (admission_step sem)\<^sup>*\<^sup>* (admission_new sem max_connections max_handshakes max_requests ob)"

declare admission_new_def [eval_simps] lease_live_def [eval_simps] holds_transport_def [eval_simps]
  settle_transport_def [eval_simps] admission_reject_def [eval_simps] observe_def [eval_simps]
  accept_connection_def [eval_simps] update_connection_def [eval_simps] stop_serving_def [eval_simps]
  end_handshake_def [eval_simps] end_connection_def [eval_simps] begin_request_def [eval_simps]
  update_lease_def [eval_simps] admit_request_def [eval_simps] clone_lease_def [eval_simps]
  drop_lease_def [eval_simps] drop_body_def [eval_simps] admission_body_poll_def [eval_simps]

section \<open>The balance of the permits\<close>

definition transport_used :: "'s admission \<Rightarrow> nat" where
  "transport_used s = length (filter (holds_transport s) [0..<length (am_connections s)])"

definition serving_count :: "'s admission \<Rightarrow> nat" where
  "serving_count s = length (filter cx_serving (am_connections s))"

definition handshaking_count :: "'s admission \<Rightarrow> nat" where
  "handshaking_count s = length (filter cx_handshaking (am_connections s))"

definition admitted_live :: "request_lease \<Rightarrow> bool" where
  "admitted_live l \<longleftrightarrow> lease_live l \<and> rl_admitted l"

definition lease_ok :: "connection list \<Rightarrow> request_lease \<Rightarrow> bool" where
  "lease_ok connections l \<longleftrightarrow>
     rl_connection l < length connections \<and> \<not> cx_handshaking (connections ! rl_connection l) \<and>
     (rl_body l \<longrightarrow> lease_live l)"

definition admission_ok :: "'s sem_lib \<Rightarrow> nat \<Rightarrow> nat \<Rightarrow> nat \<Rightarrow> 's admission \<Rightarrow> bool" where
  "admission_ok sem max_connections max_handshakes max_requests s \<longleftrightarrow>
     sem_available sem (am_transport s) + transport_used s = max_connections \<and>
     sem_available sem (am_handshakes s) + handshaking_count s = max_handshakes \<and>
     sem_available sem (am_requests s) + length (filter admitted_live (am_leases s)) = max_requests \<and>
     (\<forall>c \<in> set (am_connections s). cx_handshaking c \<longrightarrow> cx_serving c) \<and>
     (\<forall>l \<in> set (am_leases s). lease_ok (am_connections s) l) \<and>
     ct_active_transport (ob_counters (am_ob s)) = of_nat (serving_count s)"

lemma holds_transport_cong:
  "cx_serving (am_connections s ! i) = cx_serving (am_connections s' ! i) \<Longrightarrow> am_leases s = am_leases s' \<Longrightarrow>
   holds_transport s i = holds_transport s' i"
  by (simp add: holds_transport_def)

lemma settle_transport_same [simp]:
  "am_handshakes (settle_transport sem i s s') = am_handshakes s'"
  "am_requests (settle_transport sem i s s') = am_requests s'"
  "am_connections (settle_transport sem i s s') = am_connections s'"
  "am_leases (settle_transport sem i s s') = am_leases s'"
  "am_ob (settle_transport sem i s s') = am_ob s'"
  by (simp_all add: settle_transport_def)

lemma settle_transport_uses [simp]:
  "holds_transport (settle_transport sem i s s') = holds_transport s'"
  "transport_used (settle_transport sem i s s') = transport_used s'"
  "serving_count (settle_transport sem i s s') = serving_count s'"
  "handshaking_count (settle_transport sem i s s') = handshaking_count s'"
proof -
  show "holds_transport (settle_transport sem i s s') = holds_transport s'"
    by (rule ext) (simp add: holds_transport_def)
  then show "transport_used (settle_transport sem i s s') = transport_used s'"
    by (simp add: transport_used_def)
qed (simp_all add: serving_count_def handshaking_count_def)

lemma list_ex_update:
  assumes "k < length xs"
  shows "list_ex P (xs[k := y]) \<longleftrightarrow> P y \<or> (\<exists>j < length xs. j \<noteq> k \<and> P (xs ! j))"
    and "list_ex P xs \<longleftrightarrow> P (xs ! k) \<or> (\<exists>j < length xs. j \<noteq> k \<and> P (xs ! j))"
  using assms unfolding list_ex_length
  by (metis length_list_update nth_list_update_eq nth_list_update_neq)+

lemma active_transport_record [simp]:
  "ct_active_transport (ob_counters (record_tls_handshake_success ob)) = ct_active_transport (ob_counters ob)"
  "ct_active_transport (ob_counters (record_tls_handshake_failure ob)) = ct_active_transport (ob_counters ob)"
  "ct_active_transport (ob_counters (record_tls_handshake_timeout ob)) = ct_active_transport (ob_counters ob)"
  "ct_active_transport (ob_counters (record_http_connection_error ob)) = ct_active_transport (ob_counters ob)"
  "ct_active_transport (ob_counters (snd (record_admission_rejection r ob))) = ct_active_transport (ob_counters ob)"
  "ct_active_transport (ob_counters (drop_active Transport ob)) = ct_active_transport (ob_counters ob) - 1"
  by (simp_all add: record_tls_handshake_success_def record_tls_handshake_failure_def
      record_tls_handshake_timeout_def record_http_connection_error_def record_admission_rejection_def
      drop_active_def count_diagnostic_def tally_def Let_def)

lemma begin_transport_active:
  "begin_transport_connection ob = (n, ob') \<Longrightarrow>
     ct_active_transport (ob_counters ob') = ct_active_transport (ob_counters ob) + 1"
  by (auto simp: begin_transport_connection_def increment_active_def increment_def tally_def Let_def)

context semaphore
begin

lemma settle_balance:
  assumes "i < length (am_connections s)" "length (am_connections s') = length (am_connections s)"
    and "am_transport s' = am_transport s"
    and "\<And>j. j < length (am_connections s) \<Longrightarrow> j \<noteq> i \<Longrightarrow> holds_transport s' j = holds_transport s j"
    and "holds_transport s' i \<Longrightarrow> holds_transport s i"
  shows "sem_available sem (am_transport (settle_transport sem i s s')) + transport_used s' =
    sem_available sem (am_transport s) + transport_used s"
proof -
  have "transport_used s' + (if holds_transport s i then 1 else 0) =
      transport_used s + (if holds_transport s' i then 1 else 0)"
    unfolding transport_used_def assms(2) by (rule filter_upt_change) (use assms in auto)
  then show ?thesis using assms(3,5) by (auto simp: settle_transport_def split: if_splits)
qed

lemma stop_serving_ok:
  assumes ok: "admission_ok sem mc mh mr s" and i: "i < length (am_connections s)"
    and st: "cx_serving (am_connections s ! i)" "\<not> cx_handshaking (am_connections s ! i)"
  shows "admission_ok sem mc mh mr (stop_serving sem i s)"
proof -
  let ?c = "(am_connections s)[i := (am_connections s ! i)\<lparr>cx_serving := False\<rparr>]"
  let ?s = "observe (drop_active Transport) (update_connection i (cx_serving_update (\<lambda>_. False)) s)"
  have conns: "am_connections ?s = ?c" "am_leases ?s = am_leases s" "am_transport ?s = am_transport s"
    "am_handshakes ?s = am_handshakes s" "am_requests ?s = am_requests s"
    by (simp_all add: observe_def update_connection_def)
  have serving: "serving_count ?s + 1 = serving_count s"
    using filter_length_update [OF i, of cx_serving "(am_connections s ! i)\<lparr>cx_serving := False\<rparr>"] st(1)
    by (simp add: serving_count_def conns)
  have hs: "handshaking_count ?s = handshaking_count s"
    using filter_length_update [OF i, of cx_handshaking "(am_connections s ! i)\<lparr>cx_serving := False\<rparr>"] st(2)
    by (simp add: handshaking_count_def conns)
  have bal: "sem_available sem (am_transport (settle_transport sem i s ?s)) + transport_used ?s =
      sem_available sem (am_transport s) + transport_used s"
    by (rule settle_balance [OF i]) (use i st in \<open>auto simp: conns holds_transport_def\<close>)
  have h: "cx_handshaking (?c ! j) = cx_handshaking (am_connections s ! j)" for j
    by (cases "j = i") (use i in auto)
  have leases: "lease_ok ?c l" if "lease_ok (am_connections s) l" for l
    using that by (simp add: lease_ok_def h)
  have "\<forall>c \<in> set ?c. cx_handshaking c \<longrightarrow> cx_serving c"
    using ok st(2) set_update_subset_insert [of "am_connections s" i] by (fastforce simp: admission_ok_def)
  moreover have "ct_active_transport (ob_counters (am_ob ?s)) = of_nat (serving_count ?s)"
    using ok serving [symmetric] by (simp add: admission_ok_def observe_def update_connection_def)
  ultimately show ?thesis
    using ok bal hs leases unfolding stop_serving_def by (simp add: admission_ok_def conns)
qed

lemma update_lease_ok:
  assumes ok: "admission_ok sem mc mh mr s" and k: "k < length (am_leases s)"
    and f: "rl_connection (f (am_leases s ! k)) = rl_connection (am_leases s ! k)"
      "rl_admitted (f (am_leases s ! k)) = rl_admitted (am_leases s ! k)"
      "lease_live (f (am_leases s ! k)) \<Longrightarrow> lease_live (am_leases s ! k)"
      "rl_body (f (am_leases s ! k)) \<Longrightarrow> lease_live (f (am_leases s ! k))"
  shows "admission_ok sem mc mh mr (update_lease sem k f s)"
proof -
  let ?l = "am_leases s ! k" let ?i = "rl_connection ?l"
  let ?s = "s\<lparr>am_leases := (am_leases s)[k := f ?l],
            am_requests := (if lease_live ?l \<and> rl_admitted ?l \<and> \<not> lease_live (f ?l)
              then sem_release sem (am_requests s) else am_requests s)\<rparr>"
  have lease: "lease_ok (am_connections s) ?l" using ok k by (simp add: admission_ok_def)
  then have i: "?i < length (am_connections s)" by (simp add: lease_ok_def)
  note ex = list_ex_update [OF k]
  have bal: "sem_available sem (am_transport (settle_transport sem ?i s ?s)) + transport_used ?s =
      sem_available sem (am_transport s) + transport_used s"
    by (rule settle_balance [OF i]) (use f in \<open>auto simp: holds_transport_def ex\<close>)
  have req: "sem_available sem (am_requests ?s) + length (filter admitted_live ((am_leases s)[k := f ?l])) = mr"
    using filter_length_update [OF k, of admitted_live "f ?l"] ok f
    by (auto simp: admission_ok_def admitted_live_def split: if_splits)
  have "lease_ok (am_connections s) (f ?l)" using lease f by (simp add: lease_ok_def)
  then have "\<forall>l \<in> set ((am_leases s)[k := f ?l]). lease_ok (am_connections s) l"
    using ok set_update_subset_insert [of "am_leases s" k] by (fastforce simp: admission_ok_def)
  then show ?thesis
    using ok bal req unfolding update_lease_def Let_def
    by (simp add: admission_ok_def handshaking_count_def serving_count_def)
qed

end

text \<open>Accepting, shaking hands, admitting: every step keeps the balance.\<close>

context semaphore
begin

lemma admission_reject_ok: "admission_ok sem mc mh mr s \<Longrightarrow> admission_ok sem mc mh mr (admission_reject reason s)"
  by (simp add: admission_ok_def admission_reject_def transport_used_def serving_count_def
      handshaking_count_def holds_transport_def cong: filter_cong)

lemma transport_used_cong:
  "am_connections s' = am_connections s \<Longrightarrow> am_leases s' = am_leases s \<Longrightarrow> transport_used s' = transport_used s"
  unfolding transport_used_def by (intro arg_cong [of _ _ length] filter_cong) (simp_all add: holds_transport_def)

lemma accept_connection_ok:
  assumes ok: "admission_ok sem mc mh mr s"
  shows "admission_ok sem mc mh mr (snd (accept_connection sem s))"
proof (cases "sem_try_acquire sem (am_transport s)")
  case None
  with ok show ?thesis by (simp add: accept_connection_def admission_reject_ok)
next
  case (Some t)
  note t = this try_acquire_Some [OF Some]
  show ?thesis
  proof (cases "sem_try_acquire sem (am_handshakes s)")
    case None
    have "transport_used (s\<lparr>am_transport := sem_release sem t\<rparr>) = transport_used s"
      by (rule transport_used_cong) simp_all
    then have "admission_ok sem mc mh mr (s\<lparr>am_transport := sem_release sem t\<rparr>)"
      using ok t by (simp add: admission_ok_def serving_count_def handshaking_count_def)
    with t None show ?thesis by (simp add: accept_connection_def admission_reject_ok)
  next
    case (Some h)
    note h = this try_acquire_Some [OF Some]
    obtain n ob where ob: "begin_transport_connection (am_ob s) = (n, ob)" by fastforce
    let ?c = "\<lparr> cx_id = n, cx_handshaking = True, cx_serving = True, cx_request_count = 0 \<rparr>"
    let ?s = "s\<lparr>am_transport := t, am_handshakes := h, am_ob := ob, am_connections := am_connections s @ [?c]\<rparr>"
    have uses: "holds_transport ?s j \<longleftrightarrow> (if j = length (am_connections s) then True else holds_transport s j)"
      if "j \<le> length (am_connections s)" for j
      using that by (simp add: holds_transport_def nth_append)
    have "transport_used ?s = transport_used s + 1"
    proof -
      have "filter (holds_transport ?s) [0..<length (am_connections s)] =
          filter (holds_transport s) [0..<length (am_connections s)]"
        by (rule filter_cong) (use uses in auto)
      then show ?thesis using uses [of "length (am_connections s)"] by (simp add: transport_used_def)
    qed
    moreover have "lease_ok (am_connections s @ [?c]) l" if "lease_ok (am_connections s) l" for l
      using that by (simp add: lease_ok_def nth_append)
    ultimately have "admission_ok sem mc mh mr ?s"
      using ok t h begin_transport_active [OF ob]
      by (auto simp: admission_ok_def serving_count_def handshaking_count_def)
    then show ?thesis using t h by (simp add: accept_connection_def ob)
  qed
qed

lemma end_handshake_ok:
  assumes ok: "admission_ok sem mc mh mr s" and i: "i < length (am_connections s)"
    and hs: "cx_handshaking (am_connections s ! i)"
  shows "admission_ok sem mc mh mr (end_handshake sem outcome i s)"
proof -
  let ?u = "(am_connections s ! i)\<lparr>cx_handshaking := False\<rparr>"
  let ?s = "(update_connection i (cx_handshaking_update (\<lambda>_. False)) s)\<lparr>am_handshakes := sem_release sem (am_handshakes s)\<rparr>"
  have conns: "am_connections ?s = (am_connections s)[i := ?u]" by (simp add: update_connection_def)
  have serving: "cx_serving (am_connections s ! i)" using ok i hs by (simp add: admission_ok_def)
  have h: "cx_serving ((am_connections s)[i := ?u] ! j) = cx_serving (am_connections s ! j)" for j
    by (cases "j = i") (use i in auto)
  have "transport_used ?s = transport_used s"
    unfolding transport_used_def conns
    by (simp, intro arg_cong [of _ _ length] filter_cong) (simp_all add: holds_transport_def update_connection_def h)
  moreover have "handshaking_count ?s + 1 = handshaking_count s" "serving_count ?s = serving_count s"
    using filter_length_update [OF i, of cx_handshaking ?u] filter_length_update [OF i, of cx_serving ?u] hs serving
    by (simp_all add: handshaking_count_def serving_count_def conns)
  moreover have "lease_ok (am_connections ?s) l" if "lease_ok (am_connections s) l" for l
    using that i by (auto simp: lease_ok_def conns nth_list_update)
  moreover have "\<forall>c \<in> set (am_connections ?s). cx_handshaking c \<longrightarrow> cx_serving c"
    using ok set_update_subset_insert [of "am_connections s" i ?u] by (fastforce simp: admission_ok_def conns)
  moreover have "am_transport ?s = am_transport s" "am_requests ?s = am_requests s" "am_leases ?s = am_leases s"
    "am_ob ?s = am_ob s" by (simp_all add: update_connection_def)
  ultimately have ok': "admission_ok sem mc mh mr ?s" using ok by (simp add: admission_ok_def)
  have record_ok: "admission_ok sem mc mh mr (observe f s')"
    if "admission_ok sem mc mh mr s'"
      "ct_active_transport (ob_counters (f (am_ob s'))) = ct_active_transport (ob_counters (am_ob s'))" for f s'
    using that transport_used_cong [of "observe f s'" s']
    by (simp add: admission_ok_def observe_def serving_count_def handshaking_count_def)
  have "i < length (am_connections (observe f ?s))" "cx_serving (am_connections (observe f ?s) ! i)"
    "\<not> cx_handshaking (am_connections (observe f ?s) ! i)" for f
    using i serving by (simp_all add: observe_def update_connection_def)
  moreover have "update_connection i (cx_handshaking_update (\<lambda>_. False)) s\<lparr>am_handshakes :=
      sem_release sem (am_handshakes (update_connection i (cx_handshaking_update (\<lambda>_. False)) s))\<rparr> = ?s"
    by (simp add: update_connection_def)
  ultimately show ?thesis
    using record_ok [OF ok']
    by (cases outcome) (auto simp: end_handshake_def Let_def intro!: stop_serving_ok)
qed

lemma end_connection_ok:
  assumes "admission_ok sem mc mh mr s" "i < length (am_connections s)"
    "cx_serving (am_connections s ! i)" "\<not> cx_handshaking (am_connections s ! i)"
  shows "admission_ok sem mc mh mr (end_connection sem how i s)"
proof -
  have "admission_ok sem mc mh mr (observe record_http_connection_error s)"
    using assms(1) transport_used_cong [of "observe record_http_connection_error s" s]
    by (simp add: admission_ok_def observe_def serving_count_def handshaking_count_def)
  with assms show ?thesis by (auto simp: end_connection_def observe_def intro!: stop_serving_ok)
qed

end

context semaphore
begin

lemma begin_request_ok:
  assumes ok: "admission_ok sem mc mh mr s" and i: "i < length (am_connections s)"
    and st: "cx_serving (am_connections s ! i)" "\<not> cx_handshaking (am_connections s ! i)"
  shows "admission_ok sem mc mh mr (begin_request i s)"
proof -
  let ?u = "cx_request_count_update increment (am_connections s ! i)"
  let ?s = "begin_request i s"
  have conns: "am_connections ?s = (am_connections s)[i := ?u]"
    "am_leases ?s = am_leases s @ [\<lparr> rl_connection = i, rl_admitted = False, rl_body = True, rl_holders = 1 \<rparr>]"
    "am_transport ?s = am_transport s" "am_handshakes ?s = am_handshakes s" "am_requests ?s = am_requests s"
    "am_ob ?s = am_ob s"
    by (simp_all add: begin_request_def update_connection_def)
  have same: "cx_serving ((am_connections s)[i := ?u] ! j) = cx_serving (am_connections s ! j)"
    "cx_handshaking ((am_connections s)[i := ?u] ! j) = cx_handshaking (am_connections s ! j)" for j
    by (cases "j = i"; use i in simp)+
  have "transport_used ?s = transport_used s"
    unfolding transport_used_def conns(1) length_list_update
    by (intro arg_cong [of _ _ length] filter_cong) (use st in \<open>auto simp: holds_transport_def conns same\<close>)
  moreover have "handshaking_count ?s = handshaking_count s" "serving_count ?s = serving_count s"
    using filter_length_update [OF i, of cx_handshaking ?u] filter_length_update [OF i, of cx_serving ?u] st
    by (simp_all add: handshaking_count_def serving_count_def conns)
  moreover have "lease_ok (am_connections ?s) l" if "l \<in> set (am_leases ?s)" for l
    using that ok i st by (auto simp: admission_ok_def lease_ok_def conns same lease_live_def)
  moreover have "\<forall>c \<in> set (am_connections ?s). cx_handshaking c \<longrightarrow> cx_serving c"
    using ok st set_update_subset_insert [of "am_connections s" i ?u] by (fastforce simp: admission_ok_def conns)
  ultimately show ?thesis
    using ok by (simp add: admission_ok_def conns admitted_live_def)
qed

lemma admit_request_ok:
  assumes ok: "admission_ok sem mc mh mr s" and k: "k < length (am_leases s)"
    and l: "lease_live (am_leases s ! k)" "\<not> rl_admitted (am_leases s ! k)"
  shows "admission_ok sem mc mh mr (snd (admit_request sem k s))"
proof (cases "sem_try_acquire sem (am_requests s)")
  case None
  have "am_leases (admission_reject Request_Capacity s) = am_leases s" by (simp add: admission_reject_def)
  with k l show ?thesis
    by (auto simp: admit_request_def None lease_live_def intro!: update_lease_ok admission_reject_ok [OF ok])
next
  case (Some r)
  let ?u = "(am_leases s ! k)\<lparr>rl_admitted := True\<rparr>"
  let ?s = "s\<lparr>am_requests := r, am_leases := (am_leases s)[k := ?u]\<rparr>"
  have "lease_ok (am_connections s) ?u" using ok k by (simp add: admission_ok_def lease_ok_def lease_live_def)
  then have "\<forall>l \<in> set ((am_leases s)[k := ?u]). lease_ok (am_connections s) l"
    using ok set_update_subset_insert [of "am_leases s" k ?u] by (fastforce simp: admission_ok_def)
  moreover have "transport_used ?s = transport_used s"
    unfolding transport_used_def
    by (simp, intro arg_cong [of _ _ length] filter_cong)
      (simp_all add: holds_transport_def list_ex_update [OF k] lease_live_def)
  moreover have "length (filter admitted_live ((am_leases s)[k := ?u])) = length (filter admitted_live (am_leases s)) + 1"
    using filter_length_update [OF k, of admitted_live ?u] l by (simp add: admitted_live_def lease_live_def)
  ultimately have "admission_ok sem mc mh mr ?s"
    using ok try_acquire_Some [OF Some]
    by (simp add: admission_ok_def handshaking_count_def serving_count_def)
  then show ?thesis by (simp add: admit_request_def Some)
qed

end

context semaphore
begin

lemma drop_body_ok:
  assumes "admission_ok sem mc mh mr s" "k < length (am_leases s)"
  shows "admission_ok sem mc mh mr (drop_body sem k s)"
  using assms by (auto simp: drop_body_def lease_live_def intro!: update_lease_ok)

lemma admission_step_ok:
  assumes "admission_step sem s s'" "admission_ok sem mc mh mr s"
  shows "admission_ok sem mc mh mr s'"
  using assms
proof (induction rule: admission_step.induct)
  case (am_accept s)
  then show ?case by (rule accept_connection_ok)
next
  case (am_handshake i s outcome)
  then show ?case by (intro end_handshake_ok)
next
  case (am_end i s how)
  then show ?case by (intro end_connection_ok)
next
  case (am_request i s)
  then show ?case by (intro begin_request_ok)
next
  case (am_answer k s)
  then show ?case by (intro drop_body_ok)
next
  case (am_reject s reason)
  then show ?case by (rule admission_reject_ok)
next
  case (am_admit k s)
  then show ?case by (intro admit_request_ok)
next
  case (am_clone k s)
  then show ?case by (auto simp: clone_lease_def lease_live_def intro!: update_lease_ok)
next
  case (am_drop k s)
  then show ?case by (auto simp: drop_lease_def lease_live_def intro!: update_lease_ok split: if_splits)
next
  case (am_body_poll k s inner end_stream)
  then show ?case by (simp add: admission_body_poll_def drop_body_ok)
next
  case (am_body_drop k s)
  then show ?case by (intro drop_body_ok)
qed

lemma admission_reachable_ok:
  assumes "admission_reachable sem mc mh mr ob s" "ct_active_transport (ob_counters ob) = 0"
  shows "admission_ok sem mc mh mr s"
  using assms(1) unfolding admission_reachable_def
proof (induction rule: rtranclp_induct)
  case base
  show ?case
    using assms(2) by (simp add: admission_ok_def admission_new_def transport_used_def serving_count_def
        handshaking_count_def)
qed (rule admission_step_ok)

text \<open>
  What \<open>admission.rs\<close> promises: a lease keeps the transport permit of its connection although the
  connection's own task is over, so connections with live work are bounded too.
\<close>

lemma lease_keeps_transport:
  assumes "admission_ok sem mc mh mr s" "l \<in> set (am_leases s)" "lease_live l"
  shows "holds_transport s (rl_connection l)"
    and "card {i. i < length (am_connections s) \<and> holds_transport s i} + sem_available sem (am_transport s) = mc"
proof -
  show "holds_transport s (rl_connection l)" using assms(2,3) by (auto simp: holds_transport_def list_ex_iff)
  have "transport_used s = card {i. i < length (am_connections s) \<and> holds_transport s i}"
    unfolding transport_used_def length_filter_conv_card by (intro arg_cong [of _ _ card]) auto
  then show "card {i. i < length (am_connections s) \<and> holds_transport s i} + sem_available sem (am_transport s) = mc"
    using assms(1) by (simp add: admission_ok_def)
qed

text \<open>With nothing left every permit is back.\<close>

lemma admission_idle:
  assumes "admission_ok sem mc mh mr s"
    and "\<forall>c \<in> set (am_connections s). \<not> cx_serving c" "\<forall>l \<in> set (am_leases s). \<not> lease_live l"
  shows "sem_available sem (am_transport s) = mc" "sem_available sem (am_handshakes s) = mh"
    "sem_available sem (am_requests s) = mr"
proof -
  have "transport_used s = 0"
    using assms(2,3) by (auto simp: transport_used_def holds_transport_def list_ex_iff filter_empty_conv)
  moreover have "handshaking_count s = 0"
    using assms(1,2) by (auto simp: handshaking_count_def filter_empty_conv admission_ok_def)
  moreover have "filter admitted_live (am_leases s) = []"
    using assms(3) by (auto simp: filter_empty_conv admitted_live_def)
  ultimately show "sem_available sem (am_transport s) = mc" "sem_available sem (am_handshakes s) = mh"
    "sem_available sem (am_requests s) = mr" using assms(1) by (simp_all add: admission_ok_def)
qed

end

end
