(* ===== verification/Listener.thy ===== *)
theory Listener
  imports Websocket_Accept Grpc_Proxy Admission
begin

text \<open>
  \<open>src/gateway/listener.rs\<close>, \<open>handle_request\<close>: the gate every request passes, in the order of the
  code, and the component it is handed to.  Time, the hash of an address and what happened at the
  suspension points of \<open>accept\<close> are parameters.
\<close>

section \<open>State\<close>

text \<open>The tables of a running gateway, and what the gate changes.\<close>

record service_state =
  ss_routing :: routing_policy
  ss_client_address :: client_address_policy
  ss_server :: server_config
  ss_routes :: route_table
  ss_grpc_routes :: grpc_route_table
  ss_fallback :: "fallback_config option"
  ss_http_routes :: http_route_table

record 's gate =
  gk_blocking :: ip_blocking_runtime
  gk_observability :: observability
  gk_capacity :: 's

text \<open>Who is asking, and the two readings of the clock.\<close>

record request_env =
  ev_peer :: socket_addr
  ev_sni :: "string option"
  ev_now :: instant
  ev_later :: instant
  ev_hash :: "ip_addr \<Rightarrow> 64 word"

definition gate_reject :: "admission_rejection \<Rightarrow> 's gate \<Rightarrow> 's gate" where
  "gate_reject reason g =
     g\<lparr>gk_observability := snd (record_admission_rejection reason (gk_observability g))\<rparr>"

definition gate_violation ::
  "request_env \<Rightarrow> resolved_client_address \<Rightarrow> violation_rule \<Rightarrow> 's gate \<Rightarrow> 's gate"
where
  "gate_violation env address rule g =
     g\<lparr>gk_blocking := record_violation (ev_hash env) (ev_later env) address rule (gk_blocking g)\<rparr>"

section \<open>The choice of a route\<close>

datatype choice =
    To_Websocket route
  | To_Grpc grpc_route
  | To_Http http_route
  | To_Fallback fallback_config
  | To_Nothing

definition choose_route :: "service_state \<Rightarrow> string \<Rightarrow> string \<Rightarrow> choice" where
  "choose_route st host path =
     (case route_resolve (ss_routes st) host path of
        Some r \<Rightarrow> To_Websocket r
      | None \<Rightarrow>
        (case grpc_resolve (ss_grpc_routes st) host path of
           Some r \<Rightarrow> To_Grpc r
         | None \<Rightarrow>
           (case http_resolve (ss_http_routes st) host path of
              Some r \<Rightarrow> To_Http r
            | None \<Rightarrow>
              (case ss_fallback st of
                 Some f \<Rightarrow> if fallback_permits_host f host then To_Fallback f else To_Nothing
               | None \<Rightarrow> To_Nothing))))"

primrec choice_security :: "choice \<Rightarrow> route_security" where
  "choice_security (To_Websocket r) = rt_security r"
| "choice_security (To_Grpc r) = gr_security r"
| "choice_security (To_Http r) = hr_security r"
| "choice_security (To_Fallback f) = fc_security f"
| "choice_security To_Nothing = \<lparr> cloudflare_only = False \<rparr>"

fun is_grpc_choice :: "choice \<Rightarrow> bool" where
  "is_grpc_choice (To_Grpc r) = True"
| "is_grpc_choice _ = False"

fun counts_size_violations :: "choice \<Rightarrow> bool" where
  "counts_size_violations (To_Websocket r) = True"
| "counts_size_violations (To_Grpc r) = True"
| "counts_size_violations _ = False"

section \<open>The gate\<close>

definition header_bytes :: "('h, 'm) http_lib_scheme \<Rightarrow> 'h \<Rightarrow> nat" where
  "header_bytes lib headers =
     foldl (\<lambda>total (name, v). sat_add64 (sat_add64 (sat_add64 total (length name)) (length v)) 32) 0
       (hm_fields lib headers)"

definition headers_too_large :: "('h, 'm) http_lib_scheme \<Rightarrow> service_state \<Rightarrow> 'h \<Rightarrow> bool" where
  "headers_too_large lib st headers \<longleftrightarrow>
     sc_max_http_header_count (ss_server st) < length (hm_fields lib headers) \<or>
     sc_max_http_header_bytes (ss_server st) < header_bytes lib headers"

definition grpc_capacity_response :: "('h, 'm) http_lib_scheme \<Rightarrow> 'h response \<times> string" where
  "grpc_capacity_response lib =
     (let (response, text) = text_response lib (200, '''');
          headers = re_headers response;
          headers = hm_insert lib headers ''content-type'' ''application/grpc'';
          headers = hm_insert lib headers ''grpc-status'' ''8'';
          headers = hm_insert lib headers ''grpc-message'' ''gateway%20capacity%20reached''
      in (response\<lparr>re_version := Http_2, re_headers := headers\<rparr>, text))"

text \<open>A request that was let in: where it goes, whose it is, and with which fields.\<close>

record 'h entry =
  en_choice :: choice
  en_host :: string
  en_address :: resolved_client_address
  en_request :: "'h request"

text \<open>The part after the client is known.\<close>

definition gate_client ::
  "('h, 'm) http_lib_scheme \<Rightarrow> 's sem_lib \<Rightarrow> service_state \<Rightarrow> request_env \<Rightarrow> 'h request \<Rightarrow> string
   \<Rightarrow> choice \<Rightarrow> resolved_client_address \<Rightarrow> 's gate \<Rightarrow> ('h response \<times> string + 'h entry) \<times> 's gate"
where
  "gate_client lib sem st env request host choice address g =
     (let path = u_path (rq_uri request);
          (blocked, blocking) = is_client_ip_blocked (ev_now env) address (gk_blocking g);
          g = g\<lparr>gk_blocking := blocking\<rparr> in
      if blocked then
        (Inl (if is_grpc_choice choice \<and> rq_version request = Http_2 then blocked_grpc_response lib
              else text_response lib (403, ''forbidden\<newline>'')), g)
      else if headers_too_large lib st (rq_headers request) then
        (Inl (text_response lib (431, ''headers too large\<newline>'')),
         let g = gate_reject Headers g in
         if counts_size_violations choice then gate_violation env address Size_Violation g else g)
      else if choice = To_Nothing then
        (Inl (text_response lib (404, ''not found\<newline>'')),
         if is_scan_namespace (ib_config (gk_blocking g)) path
         then gate_violation env address Namespace_Scan g else g)
      else case (if is_grpc_choice choice then reject_invalid_grpc_request lib request else None) of
        Some response \<Rightarrow> (Inl response, gate_violation env address Invalid_Grpc g)
      | None \<Rightarrow>
        (case sem_try_acquire sem (gk_capacity g) of
           None \<Rightarrow>
             (Inl (if grpc_resolve (ss_grpc_routes st) host path \<noteq> None \<and> rq_version request = Http_2
                   then grpc_capacity_response lib
                   else text_response lib (503, ''gateway capacity reached\<newline>'')),
              gate_reject Request_Capacity g)
         | Some capacity \<Rightarrow>
             (Inr \<lparr> en_choice = choice, en_host = host, en_address = address,
                en_request = request\<lparr>rq_headers :=
                  sanitize_client_address_headers lib (rq_headers request) address\<rparr> \<rparr>,
              g\<lparr>gk_capacity := capacity\<rparr>)))"

definition is_health_check :: "'h request \<Rightarrow> bool" where
  "is_health_check request \<longleftrightarrow>
     rq_method request = ''GET'' \<and> u_path (rq_uri request) \<in> {''/health/live'', ''/health/ready''}"

definition request_gate ::
  "('h, 'm) http_lib_scheme \<Rightarrow> 's sem_lib \<Rightarrow> service_state \<Rightarrow> request_env \<Rightarrow> 'h request
   \<Rightarrow> 's gate \<Rightarrow> ('h response \<times> string + 'h entry) \<times> 's gate"
where
  "request_gate lib sem st env request g =
     (if is_health_check request then
        if permits_health_peer (ss_client_address st) (ev_peer env)
        then (Inl (text_response lib (200, ''ok\<newline>'')), g)
        else (Inl (text_response lib (403, ''forbidden\<newline>'')), gate_reject Origin_Peer g)
      else case resolve_request_host lib request of
        Inl e \<Rightarrow> (Inl (text_response lib (400, ''invalid authority\<newline>'')), gate_reject Authority g)
      | Inr host \<Rightarrow>
        if \<not> permits_request_host (ss_routing st) host (ev_sni env) then
          (Inl (text_response lib (421, ''misdirected request\<newline>'')), gate_reject Authority g)
        else if \<not> is_ok (validate_http_path (u_path (rq_uri request))) then
          (Inl (text_response lib (400, ''invalid path\<newline>'')), g)
        else
          let choice = choose_route st host (u_path (rq_uri request)) in
          (case resolve_client_address lib (ss_client_address st) (ev_peer env) (rq_headers request)
                  (choice_security choice) of
             Inl e \<Rightarrow> (Inl (text_response lib (403, ''forbidden\<newline>'')), gate_reject Client_Identity g)
           | Inr address \<Rightarrow> gate_client lib sem st env request host choice address g))"

section \<open>Dispatch\<close>

record 's runtimes =
  ru_grpc :: "'s grpc_runtime"
  ru_http :: "'s proxy_runtime"

record 'h dispatch_env =
  de_ws :: "'h ws_lib"
  de_accept :: "'h accept_env"
  de_transport_id :: u64
  de_http_shutdown :: bool
  de_now :: instant
  de_body :: body_info

text \<open>An answer, or work that goes on: a relay to launch, a gRPC call, an HTTP exchange.\<close>

datatype 'h handled =
    Answered "'h response" string
  | Switching "'h response" launch
  | Calling grpc_route "'h request"
  | Exchanging admitted "'h request"

definition websocket_refusal :: "('h, 'm) http_lib_scheme \<Rightarrow> accept_error \<Rightarrow> 'h response \<times> string" where
  "websocket_refusal lib e =
     (let (response, text) = text_response lib (accept_status e, accept_message e)
      in (if should_advertise_http1_upgrade e
          then response\<lparr>re_headers := hm_insert lib (re_headers response) ''upgrade'' ''websocket''\<rparr>
          else response, text))"

definition start_exchange ::
  "('h, 'm) http_lib_scheme \<Rightarrow> 's sem_lib \<Rightarrow> 'h dispatch_env \<Rightarrow> resolved_client_address \<Rightarrow> 'h request
   \<Rightarrow> reply + string \<times> 's upstream_pool \<Rightarrow> 'h handled \<times> 's upstream_pool option"
where
  "start_exchange lib sem de address request picked =
     (case picked of
        Inl r \<Rightarrow> (case_prod Answered (text_response lib r), None)
      | Inr (target, pool) \<Rightarrow>
          (case proxy_start lib sem (de_http_shutdown de) (de_now de) target address request (de_body de) pool of
             (Inl r, pool) \<Rightarrow> (case_prod Answered (text_response lib r), Some pool)
           | (Inr (ad, sent), pool) \<Rightarrow> (Exchanging ad sent, Some pool)))"

definition put_pool ::
  "string \<Rightarrow> 's upstream_pool option \<Rightarrow> (string \<rightharpoonup> 's upstream_pool) \<Rightarrow> (string \<rightharpoonup> 's upstream_pool)"
where
  "put_pool key pool pools = (case pool of None \<Rightarrow> pools | Some p \<Rightarrow> pools(key \<mapsto> p))"

definition dispatch ::
  "('h, 'm) http_lib_scheme \<Rightarrow> 's sem_lib \<Rightarrow> request_env \<Rightarrow> 'h dispatch_env \<Rightarrow> 'h entry
   \<Rightarrow> 's gate \<times> 's runtimes \<Rightarrow> 'h handled \<times> 's gate \<times> 's runtimes"
where
  "dispatch lib sem env de entry = (\<lambda>(g, ru).
     case en_choice entry of
       To_Websocket route \<Rightarrow>
         (case websocket_accept lib (de_ws de) ((de_accept de)\<lparr>ae_lease := True\<rparr>) (en_request entry) route
                 (en_address entry) (de_transport_id de) (gk_observability g) of
            (Inr (response, la), ob) \<Rightarrow> (Switching response la, g\<lparr>gk_observability := ob\<rparr>, ru)
          | (Inl e, ob) \<Rightarrow>
              (case_prod Answered (websocket_refusal lib e),
               let g = g\<lparr>gk_observability := ob\<rparr> in
               if is_client_protocol_violation e
               then gate_violation env (en_address entry) Invalid_Websocket g else g, ru))
     | To_Grpc route \<Rightarrow>
         (case grpc_start lib sem True route (en_request entry) (ru_grpc ru) of
            Inl (response, text) \<Rightarrow> (Answered response text, g, ru)
          | Inr (sent, upstream) \<Rightarrow>
              (Calling route sent, g, ru\<lparr>ru_grpc := (ru_grpc ru)\<lparr>gn_upstreams :=
                 (gn_upstreams (ru_grpc ru))(gb_address (gr_backend route) \<mapsto> upstream)\<rparr>\<rparr>))
     | To_Http route \<Rightarrow>
         (case start_exchange lib sem de (en_address entry) (en_request entry)
                 (proxy_route (ru_http ru) route (en_request entry)) of
            (h, pool) \<Rightarrow> (h, g, ru\<lparr>ru_http := (ru_http ru)\<lparr>pr_routes :=
               put_pool (hr_id route) pool (pr_routes (ru_http ru))\<rparr>\<rparr>))
     | To_Fallback f \<Rightarrow>
         (case start_exchange lib sem de (en_address entry) (en_request entry)
                 (proxy_fallback (ru_http ru) (en_host entry) (en_request entry)) of
            (h, pool) \<Rightarrow> (h, g, ru\<lparr>ru_http := (ru_http ru)\<lparr>pr_fallback :=
               put_pool (en_host entry) pool (pr_fallback (ru_http ru))\<rparr>\<rparr>))
     | To_Nothing \<Rightarrow> (case_prod Answered (text_response lib (404, ''not found\<newline>'')), g, ru))"

definition handle_request ::
  "('h, 'm) http_lib_scheme \<Rightarrow> 's sem_lib \<Rightarrow> service_state \<Rightarrow> request_env \<Rightarrow> 'h dispatch_env \<Rightarrow> 'h request
   \<Rightarrow> 's gate \<times> 's runtimes \<Rightarrow> 'h handled \<times> 's gate \<times> 's runtimes"
where
  "handle_request lib sem st env de request = (\<lambda>(g, ru).
     case request_gate lib sem st env request g of
       (Inl (response, text), g) \<Rightarrow> (Answered response text, g, ru)
     | (Inr entry, g) \<Rightarrow> dispatch lib sem env de entry (g, ru))"

declare gate_reject_def [eval_simps] gate_violation_def [eval_simps] choose_route_def [eval_simps]
  header_bytes_def [eval_simps] headers_too_large_def [eval_simps] grpc_capacity_response_def [eval_simps]
  gate_client_def [eval_simps] is_health_check_def [eval_simps] request_gate_def [eval_simps]
  websocket_refusal_def [eval_simps] start_exchange_def [eval_simps] put_pool_def [eval_simps]
  dispatch_def [eval_simps] handle_request_def [eval_simps]

section \<open>Who gets in\<close>

text \<open>Every check a request that is let in has passed.\<close>

lemma gate_client_admits:
  assumes "gate_client lib sem st env request host choice address g = (Inr entry, g')"
  shows "choice \<noteq> To_Nothing"
    and "\<not> fst (is_client_ip_blocked (ev_now env) address (gk_blocking g))"
    and "\<not> headers_too_large lib st (rq_headers request)"
    and "is_grpc_choice choice \<Longrightarrow> reject_invalid_grpc_request lib request = None"
    and "sem_try_acquire sem (gk_capacity g) = Some (gk_capacity g')"
    and "gk_observability g' = gk_observability g"
    and "gk_blocking g' = gk_blocking g"
    and "entry = \<lparr> en_choice = choice, en_host = host, en_address = address,
      en_request = request\<lparr>rq_headers :=
        sanitize_client_address_headers lib (rq_headers request) address\<rparr> \<rparr>"
  using assms
  by (auto simp: gate_client_def Let_def is_client_ip_blocked_def split: if_splits option.splits)

lemma request_gate_admits:
  assumes "request_gate lib sem st env request g = (Inr entry, g')"
  obtains host address where
    "\<not> is_health_check request" "resolve_request_host lib request = Inr host"
    "permits_request_host (ss_routing st) host (ev_sni env)"
    "is_ok (validate_http_path (u_path (rq_uri request)))"
    "resolve_client_address lib (ss_client_address st) (ev_peer env) (rq_headers request)
       (choice_security (choose_route st host (u_path (rq_uri request)))) = Inr address"
    "gate_client lib sem st env request host (choose_route st host (u_path (rq_uri request))) address g
       = (Inr entry, g')"
  using assms by (auto simp: request_gate_def Let_def split: if_splits sum.splits)

text \<open>An answer takes no permit, and only the gateway's own replies are given.\<close>

definition gate_statuses :: "nat set" where
  "gate_statuses = {200, 400, 403, 404, 405, 415, 421, 431, 503, 505}"

lemma gate_violation_capacity [simp]:
  "gk_capacity (gate_violation env address rule g) = gk_capacity g"
  "gk_observability (gate_violation env address rule g) = gk_observability g"
  "gk_capacity (gate_reject reason g) = gk_capacity g"
  "gk_blocking (gate_reject reason g) = gk_blocking g"
  by (simp_all add: gate_violation_def gate_reject_def)

lemma reply_statuses [simp]:
  "re_status (fst (text_response lib (n, t))) = n"
  "re_status (fst (blocked_grpc_response lib)) = 200"
  "re_status (fst (grpc_capacity_response lib)) = 200"
  by (simp_all add: text_response_def blocked_grpc_response_def grpc_failure_response_def
      grpc_capacity_response_def)

lemma reject_invalid_status:
  "reject_invalid_grpc_request lib request = Some a \<Longrightarrow> re_status (fst a) \<in> {400, 405, 415, 505}"
  by (auto simp: reject_invalid_grpc_request_def split: if_splits)

lemma gate_client_answers:
  assumes "gate_client lib sem st env request host choice address g = (Inl a, g')"
  shows "gk_capacity g' = gk_capacity g \<and> re_status (fst a) \<in> gate_statuses"
proof -
  obtain blocked rt where b: "is_client_ip_blocked (ev_now env) address (gk_blocking g) = (blocked, rt)" by fastforce
  show ?thesis
  proof (cases "reject_invalid_grpc_request lib request")
    case None
    with assms show ?thesis
      by (auto simp: gate_client_def b Let_def gate_statuses_def split: if_splits option.splits)
  next
    case (Some c)
    with assms reject_invalid_status [OF Some] show ?thesis
      by (auto simp: gate_client_def b Let_def gate_statuses_def split: if_splits option.splits)
  qed
qed

lemma request_gate_answers:
  assumes "request_gate lib sem st env request g = (Inl a, g')"
  shows "gk_capacity g' = gk_capacity g \<and> re_status (fst a) \<in> gate_statuses"
proof -
  consider (client) host choice address where
      "gate_client lib sem st env request host choice address g = (Inl a, g')"
    | (early) "gk_capacity g' = gk_capacity g" "re_status (fst a) \<in> gate_statuses"
    using assms by (auto simp: request_gate_def Let_def gate_statuses_def split: if_splits sum.splits)
  then show ?thesis by cases (auto dest: gate_client_answers)
qed

section \<open>Who is blamed\<close>

text \<open>
  The sets of blocks change only by one violation of a client the code blames: on a WebSocket or gRPC
  route for an oversized header, a malformed gRPC request or a malformed handshake, and off every
  route for a path of a scanned namespace.
\<close>

fun blamed_rule :: "choice \<Rightarrow> violation_rule \<Rightarrow> bool" where
  "blamed_rule (To_Websocket r) rule \<longleftrightarrow> rule \<in> {Size_Violation, Invalid_Websocket}"
| "blamed_rule (To_Grpc r) rule \<longleftrightarrow> rule \<in> {Size_Violation, Invalid_Grpc}"
| "blamed_rule (To_Http r) rule \<longleftrightarrow> False"
| "blamed_rule (To_Fallback f) rule \<longleftrightarrow> False"
| "blamed_rule To_Nothing rule \<longleftrightarrow> rule = Namespace_Scan"

definition same_blocks :: "ip_blocking_runtime \<Rightarrow> ip_blocking_runtime \<Rightarrow> bool" where
  "same_blocks rt rt' \<longleftrightarrow>
     ib_windows rt' = ib_windows rt \<and> ib_pending rt' = ib_pending rt \<and>
     ib_temporary rt' = ib_temporary rt \<and> ib_durable rt' = ib_durable rt \<and>
     ib_config rt' = ib_config rt \<and> ib_accepting rt' = ib_accepting rt"

definition blames :: "request_env \<Rightarrow> choice \<Rightarrow> resolved_client_address \<Rightarrow> ip_blocking_runtime \<Rightarrow> ip_blocking_runtime \<Rightarrow> bool" where
  "blames env choice address rt rt' \<longleftrightarrow>
     same_blocks rt rt' \<or>
     (\<exists>rt1 rule. same_blocks rt rt1 \<and> blamed_rule choice rule \<and>
        rt' = record_violation (ev_hash env) (ev_later env) address rule rt1)"

lemma is_client_ip_blocked_blocks: "same_blocks rt (snd (is_client_ip_blocked now address rt))"
  by (simp add: is_client_ip_blocked_def same_blocks_def count_with_def Let_def)

lemma same_blocks_refl [simp]: "same_blocks rt rt"
  by (simp add: same_blocks_def)

lemma blames_intros:
  "same_blocks rt rt' \<Longrightarrow> blames env choice address rt rt'"
  "same_blocks rt rt1 \<Longrightarrow> blamed_rule choice rule \<Longrightarrow>
     blames env choice address rt (record_violation (ev_hash env) (ev_later env) address rule rt1)"
  by (auto simp: blames_def)

lemma gate_client_blames:
  assumes "gate_client lib sem st env request host choice address g = (r, g')"
  shows "blames env choice address (gk_blocking g) (gk_blocking g')"
    and "(case r of Inr entry \<Rightarrow> same_blocks (gk_blocking g) (gk_blocking g') | Inl _ \<Rightarrow> True)"
proof -
  obtain blocked rt where b: "is_client_ip_blocked (ev_now env) address (gk_blocking g) = (blocked, rt)" by fastforce
  have same: "same_blocks (gk_blocking g) rt" using is_client_ip_blocked_blocks [of "gk_blocking g"] b by (metis snd_conv)
  have rule: "counts_size_violations choice \<Longrightarrow> blamed_rule choice Size_Violation"
    "is_grpc_choice choice \<Longrightarrow> blamed_rule choice Invalid_Grpc" "choice = To_Nothing \<Longrightarrow> blamed_rule choice Namespace_Scan"
    by (cases choice; simp)+
  from assms same rule show "blames env choice address (gk_blocking g) (gk_blocking g')"
    "(case r of Inr entry \<Rightarrow> same_blocks (gk_blocking g) (gk_blocking g') | Inl _ \<Rightarrow> True)"
    by (auto simp: gate_client_def b Let_def gate_violation_def gate_reject_def
        blames_intros split: if_splits option.splits sum.splits)
qed

text \<open>The whole handler: a request blames nobody before the client is known.\<close>

lemma dispatch_blames:
  assumes "dispatch lib sem env de entry (g, ru) = (h, g', ru')"
  shows "blames env (en_choice entry) (en_address entry) (gk_blocking g) (gk_blocking g')"
    and "gk_capacity g' = gk_capacity g"
proof -
  have ws: "blamed_rule (To_Websocket r) Invalid_Websocket" for r by simp
  show "blames env (en_choice entry) (en_address entry) (gk_blocking g) (gk_blocking g')"
    using assms ws
    by (cases "en_choice entry")
      (auto simp: dispatch_def Let_def gate_violation_def blames_intros
        split: prod.splits sum.splits if_splits)
  show "gk_capacity g' = gk_capacity g"
    using assms by (cases "en_choice entry") (auto simp: dispatch_def Let_def split: prod.splits sum.splits if_splits)
qed

lemma request_gate_early:
  assumes "request_gate lib sem st env request g = (r, g')"
  obtains (early) response body where "r = Inl (response, body)" "gk_blocking g' = gk_blocking g"
  | (known) host address where "resolve_request_host lib request = Inr host"
      "resolve_client_address lib (ss_client_address st) (ev_peer env) (rq_headers request)
       (choice_security (choose_route st host (u_path (rq_uri request)))) = Inr address"
      "gate_client lib sem st env request host (choose_route st host (u_path (rq_uri request))) address g = (r, g')"
  using assms by (auto simp: request_gate_def Let_def text_response_def split: if_splits sum.splits)

lemma handle_request_blames:
  assumes "handle_request lib sem st env de request (g, ru) = (h, g', ru')"
  shows "same_blocks (gk_blocking g) (gk_blocking g') \<or>
    (\<exists>host address. resolve_request_host lib request = Inr host \<and>
       resolve_client_address lib (ss_client_address st) (ev_peer env) (rq_headers request)
         (choice_security (choose_route st host (u_path (rq_uri request)))) = Inr address \<and>
       blames env (choose_route st host (u_path (rq_uri request))) address (gk_blocking g) (gk_blocking g'))"
proof -
  obtain r g1 where gate: "request_gate lib sem st env request g = (r, g1)" by fastforce
  show ?thesis
  proof (cases rule: request_gate_early [OF gate])
    case (1 response body)
    with assms gate show ?thesis by (auto simp: handle_request_def)
  next
    case (2 host address)
    show ?thesis
    proof (cases r)
      case (Inl a)
      with assms gate have "g' = g1" by (auto simp: handle_request_def split: prod.splits)
      with 2 gate_client_blames(1) [OF 2(3)] show ?thesis by blast
    next
      case (Inr entry)
      have same: "same_blocks (gk_blocking g) (gk_blocking g1)" using gate_client_blames(2) [OF 2(3)] Inr by simp
      have "dispatch lib sem env de entry (g1, ru) = (h, g', ru')"
        using assms gate Inr by (simp add: handle_request_def)
      from dispatch_blames(1) [OF this] gate_client_admits(8) [OF 2(3) [unfolded Inr]]
      have "blames env (choose_route st host (u_path (rq_uri request))) address (gk_blocking g1) (gk_blocking g')"
        by simp
      moreover have "gk_blocking g1 = gk_blocking g" using gate_client_admits(7) [OF 2(3) [unfolded Inr]] .
      ultimately show ?thesis using 2 by auto
    qed
  qed
qed

text \<open>Exactly one request permit per request that gets in, none for one that does not.\<close>

lemma handle_request_capacity:
  assumes "handle_request lib sem st env de request (g, ru) = (h, g', ru')"
  shows "(case fst (request_gate lib sem st env request g) of
      Inl _ \<Rightarrow> gk_capacity g' = gk_capacity g \<and> ru' = ru
    | Inr _ \<Rightarrow> sem_try_acquire sem (gk_capacity g) = Some (gk_capacity g'))"
proof -
  obtain r g1 where gate: "request_gate lib sem st env request g = (r, g1)" by fastforce
  show ?thesis
  proof (cases r)
    case (Inl a)
    with assms gate request_gate_answers [of lib sem st env request g a g1] show ?thesis
      by (auto simp: handle_request_def split: prod.splits)
  next
    case (Inr entry)
    have d: "dispatch lib sem env de entry (g1, ru) = (h, g', ru')"
      using assms gate Inr by (simp add: handle_request_def)
    have "sem_try_acquire sem (gk_capacity g) = Some (gk_capacity g1)"
      using request_gate_admits [OF gate [unfolded Inr]] gate_client_admits(5) by metis
    then show ?thesis using gate Inr dispatch_blames(2) [OF d] by simp
  qed
qed

section \<open>What the backend is told of the client\<close>

definition told_client :: "('h, 'm) http_lib_scheme \<Rightarrow> ip_addr \<Rightarrow> 'h \<Rightarrow> bool" where
  "told_client lib ip headers \<longleftrightarrow>
     (\<exists>w. hv_to_str lib w = Some (show_ip ip) \<and> hm_get_all lib headers ''x-real-ip'' = [w] \<and>
        hm_get_all lib headers ''x-forwarded-for'' = [w])"

context header_map
begin

lemma told_sanitized: "told_client lib (ra_client_ip address) (sanitize_client_address_headers lib h address)"
proof (rule sanitize_get_all [of address h])
  fix w assume "hv_to_str lib w = Some (show_ip (ra_client_ip address))"
    and get: "\<And>n. hm_get_all lib (sanitize_client_address_headers lib h address) n =
      (if n = ''x-forwarded-proto'' then
         [if ra_trusted_proxy address \<and>
             (\<exists>v. hm_get_all lib h n = [v] \<and> hv_to_str lib v = Some ''http'')
          then ''http'' else ''https'']
       else if n = ''x-forwarded-for'' \<or> n = ''x-real-ip'' then [w]
       else if n = ''cf-connecting-ip'' \<and> ra_trusted_proxy address then [w]
       else if dropped_name (ra_trusted_proxy address) n then []
       else hm_get_all lib h n)"
  then show ?thesis using get [of "''x-forwarded-for''"] get [of "''x-real-ip''"] by (auto simp: told_client_def)
qed

lemma told_websocket:
  assumes "told_client lib ip (rq_headers request)"
    and "backend_headers_from lib request route = Inr headers"
    and "backend_request lib ws route endpoint metadata headers = Inr sent"
  shows "told_client lib ip (rq_headers sent)"
proof -
  obtain w where w: "hv_to_str lib w = Some (show_ip ip)" "hm_get_all lib (rq_headers request) ''x-real-ip'' = [w]"
    "hm_get_all lib (rq_headers request) ''x-forwarded-for'' = [w]"
    using assms(1) by (auto simp: told_client_def)
  have "hm_get_all lib (bh_application headers) ''x-real-ip'' = [w]"
    "hm_get_all lib (bh_application headers) ''x-forwarded-for'' = [w]"
    by (rule backend_headers_copied [OF assms(2)]; simp add: application_names_def w)+
  then show ?thesis
    using w(1) backend_request_plain [OF assms(3), of "''x-real-ip''"] backend_request_plain [OF assms(3), of "''x-forwarded-for''"]
    by (simp add: told_client_def gateway_fields_def uat_names_def)
qed

lemma told_grpc:
  assumes "told_client lib ip (rq_headers request)"
    and "grpc_start lib sem has_admission route request rt = Inr (sent, upstream)"
  shows "told_client lib ip (rq_headers sent)"
  using assms(1) grpc_start_forwards(12) [OF assms(2), of "''x-real-ip''"]
    grpc_start_forwards(12) [OF assms(2), of "''x-forwarded-for''"]
  by (simp add: told_client_def connection_specific_def)

lemma told_http:
  assumes "proxy_start lib sem shutdown now target address request body pool = (Inr (ad, sent), pool')"
  shows "told_client lib (ra_client_ip address) (rq_headers sent)"
proof -
  obtain c where "forward_headers lib c address ad (rq_headers request) = Inr (rq_headers sent)"
    using assms by (auto simp: proxy_start_def forward_request_def split: sum.splits prod.splits)
  then show ?thesis by (rule forward_headers_address) (auto simp: told_client_def)
qed

end

end
