(* ===== verification/Gateway.thy ===== *)
theory Gateway
  imports Listener
begin

text \<open>
  \<open>src/gateway/mod.rs\<close> and \<open>run\<close> of \<open>src/gateway/listener.rs\<close>: the gateway that is started from a
  configuration, and its accept loop.  The certificate store and the sockets are parameters.
\<close>

section \<open>Starting\<close>

definition service_state_of :: "config \<Rightarrow> service_state" where
  "service_state_of co =
     \<lparr> ss_routing = co_routing co, ss_client_address = co_client_address co, ss_server = co_server co,
       ss_routes = co_routes co, ss_grpc_routes = co_grpc_routes co, ss_fallback = co_fallback co,
       ss_http_routes = co_http_routes co \<rparr>"

text \<open>
  What is known of the certificates after loading them and, if there were none, asking the ACME
  server: how many there are and whether the default one is among them.
\<close>

record certificate_status =
  cs_empty :: bool
  cs_default_available :: bool

definition startup_certificates :: "config \<Rightarrow> certificate_status \<Rightarrow> anyhow + unit" where
  "startup_certificates co status =
     (if cs_empty status then
        bail ''TLS certificate directory contains no usable certificate pairs and ACME did not provision one''
      else if cs_default_available status then Inr ()
      else
        let pending = (case tc_default_certificate (co_tls co) of
              None \<Rightarrow> False
            | Some i \<Rightarrow> ac_enabled (co_acme co) \<and> manages_certificate (co_acme co) i)
        in if pending then Inr () else bail ''tls.default_certificate does not identify a loaded certificate'')"

text \<open>The fallback's hosts are a hash set, so they come in an order of their own.\<close>

definition fallback_pools :: "string list \<Rightarrow> config \<Rightarrow> (string list \<times> upstream_config) option" where
  "fallback_pools hosts co = map_option (\<lambda>f. (hosts, fc_upstream f)) (co_fallback co)"

record 's gateway =
  gw_state :: service_state
  gw_gate :: "'s gate"
  gw_runtimes :: "'s runtimes"
  gw_admission :: "'s admission"

record gateway_env =
  ge_certificates :: certificate_status
  ge_bind :: "string + unit"
  ge_listen :: string
  ge_output :: "anyhow + unit"
  ge_ca :: "path option \<Rightarrow> anyhow + (anyhow + nat \<times> nat)"
  ge_hosts :: "string list"
  ge_started :: instant

definition gateway_start :: "'s sem_lib \<Rightarrow> gateway_env \<Rightarrow> config \<Rightarrow> anyhow + 's gateway" where
  "gateway_start sem ge co =
     and_then (startup_certificates co (ge_certificates ge)) (\<lambda>_.
     and_then (map_err (\<lambda>e. [''failed to bind listener on '' @ ge_listen ge, e]) (ge_bind ge)) (\<lambda>_.
     and_then (ge_output ge) (\<lambda>_.
     let server = co_server co;
         ob = observability_new (co_observability co);
         grpc = grpc_runtime_new sem (co_grpc_routes co) (sc_backend_connect_timeout server)
           (sc_max_grpc_concurrent_streams_per_backend server) in
     and_then (proxy_runtime_new sem (ge_ca ge) (ge_started ge) (http_enabled_routes (co_http_routes co))
         (fallback_pools (ge_hosts ge) co) (co_max_http_upstream_connections co)) (\<lambda>http.
     Inr \<lparr> gw_state = service_state_of co,
           gw_gate = \<lparr> gk_blocking = co_ip_blocking co, gk_observability = ob,
             gk_capacity = sem_new sem (sc_max_active_requests server) \<rparr>,
           gw_runtimes = \<lparr> ru_grpc = grpc, ru_http = http \<rparr>,
           gw_admission = admission_new sem (sc_max_connections server)
             (sc_max_concurrent_tls_handshakes server) (sc_max_active_requests server) ob \<rparr>))))"

section \<open>The accept loop\<close>

text \<open>
  What is ready when the loop looks: \<open>select!\<close> is \<open>biased\<close>, so the first ready branch is taken, in the
  order of the code.
\<close>

record turn =
  tn_shutdown :: bool
  tn_joined :: bool
  tn_manager :: "(string + unit) option"
  tn_incoming :: "(string + socket_addr) option"

datatype turn_result =
    Turn_Stop "anyhow option" bool
  | Turn_Joined
  | Turn_Incoming socket_addr
  | Turn_Wait

definition listen_turn :: "bool \<Rightarrow> turn \<Rightarrow> turn_result" where
  "listen_turn no_connections t =
     (if tn_shutdown t then Turn_Stop None False
      else if tn_joined t \<and> \<not> no_connections then Turn_Joined
      else case tn_manager t of
        Some (Inr _) \<Rightarrow> Turn_Stop (Some [''IP block manager stopped before listener shutdown'']) True
      | Some (Inl e) \<Rightarrow> Turn_Stop (Some [''IP block manager failed: '' @ e]) True
      | None \<Rightarrow>
        (case tn_incoming t of
           Some (Inl e) \<Rightarrow> Turn_Stop (Some [''failed to accept TCP connection'', e]) False
         | Some (Inr peer) \<Rightarrow> Turn_Incoming peer
         | None \<Rightarrow> Turn_Wait))"

text \<open>\<open>tasks\<close> is the number of connection tasks that were not joined yet.\<close>

record 's listening =
  ls_admission :: "'s admission"
  ls_tasks :: nat
  ls_stopped :: "(anyhow option \<times> bool) option"

definition listen_step :: "'s sem_lib \<Rightarrow> turn \<Rightarrow> 's listening \<Rightarrow> 's listening" where
  "listen_step sem t l =
     (if ls_stopped l \<noteq> None then l else
      case listen_turn (ls_tasks l = 0) t of
        Turn_Stop failure finished \<Rightarrow> l\<lparr>ls_stopped := Some (failure, finished)\<rparr>
      | Turn_Joined \<Rightarrow> l\<lparr>ls_tasks := ls_tasks l - 1\<rparr>
      | Turn_Wait \<Rightarrow> l
      | Turn_Incoming peer \<Rightarrow>
          (case accept_connection sem (ls_admission l) of
             (None, s) \<Rightarrow> l\<lparr>ls_admission := s\<rparr>
           | (Some n, s) \<Rightarrow> l\<lparr>ls_admission := s, ls_tasks := ls_tasks l + 1\<rparr>))"

definition run_result :: "anyhow option \<Rightarrow> anyhow + unit" where
  "run_result failure = (case failure of Some e \<Rightarrow> Inl e | None \<Rightarrow> Inr ())"

declare service_state_of_def [eval_simps] startup_certificates_def [eval_simps]
  fallback_pools_def [eval_simps] gateway_start_def [eval_simps] listen_turn_def [eval_simps]
  listen_step_def [eval_simps] run_result_def [eval_simps]

section \<open>The parts fit together\<close>

lemma add_grpc_upstream_keeps:
  "upstreams address = Some u \<Longrightarrow>
     fold (add_grpc_upstream sem timeout n) routes upstreams address = Some u"
proof (induction routes arbitrary: upstreams)
  case (Cons q routes)
  have "add_grpc_upstream sem timeout n q upstreams address = Some u"
    using Cons.prems by (auto simp: add_grpc_upstream_def Let_def)
  from Cons.IH [where upstreams = "add_grpc_upstream sem timeout n q upstreams", OF this] show ?case by simp
qed simp

lemma add_grpc_upstream_covers:
  assumes "r \<in> set routes"
  shows "\<exists>u. fold (add_grpc_upstream sem timeout n) routes upstreams (gb_address (gr_backend r)) = Some u"
  using assms
proof (induction routes arbitrary: upstreams)
  case (Cons q routes)
  show ?case
  proof (cases "r = q")
    case True
    have "\<exists>u. add_grpc_upstream sem timeout n q upstreams (gb_address (gr_backend q)) = Some u"
      by (auto simp: add_grpc_upstream_def Let_def)
    then show ?thesis using True add_grpc_upstream_keeps by fastforce
  next
    case False
    with Cons show ?thesis by simp
  qed
qed simp

lemma add_grpc_upstream_address:
  assumes "\<And>a u. upstreams a = Some u \<Longrightarrow> gb_address (gu_endpoint u) = a"
    and "fold (add_grpc_upstream sem timeout n) routes upstreams address = Some u"
  shows "gb_address (gu_endpoint u) = address"
  using assms
proof (induction routes arbitrary: upstreams)
  case (Cons q routes)
  show ?case
  proof (rule Cons.IH)
    show "fold (add_grpc_upstream sem timeout n) routes (add_grpc_upstream sem timeout n q upstreams) address = Some u"
      using Cons.prems(2) by simp
    show "gb_address (gu_endpoint u) = a" if "add_grpc_upstream sem timeout n q upstreams a = Some u" for a u
      using that Cons.prems(1) by (auto simp: add_grpc_upstream_def grpc_upstream_new_def Let_def split: if_splits)
  qed
qed simp

lemma resolved_grpc_upstream:
  assumes "grpc_table_build lib specs = Inr t" "grpc_resolve t host path = Some r"
  obtains u where "gn_upstreams (grpc_runtime_new sem t timeout n) (gb_address (gr_backend r)) = Some u"
    "gb_address (gu_endpoint u) = gb_address (gr_backend r)"
proof -
  obtain s where "s \<in> set specs" "gs_enabled s" "grpc_compile lib s = Some r"
    using grpc_tbl.resolve_build [OF assms(1), of "(host, path)" r] assms(2) by auto
  then have "r \<in> set (grpc_enabled_routes t)" using grpc_enabled_routes_iff [OF assms(1)] by blast
  from add_grpc_upstream_covers [OF this, of sem timeout n Map.empty] obtain u where
    u: "gn_upstreams (grpc_runtime_new sem t timeout n) (gb_address (gr_backend r)) = Some u"
    by (auto simp: grpc_runtime_new_def)
  with add_grpc_upstream_address [of Map.empty sem timeout n "grpc_enabled_routes t"] that show thesis
    by (auto simp: grpc_runtime_new_def)
qed

lemma fallback_pool_exists:
  assumes "proxy_runtime_new sem ca now routes (Some (hosts, upstream)) most = Inr rt" "host \<in> set hosts"
  obtains pool where "pr_fallback rt host = Some pool" "up_config pool = upstream"
proof -
  from assms(1) have fold: "try_fold (add_pool sem (sem_new sem most) ca now) Map.empty
      (map (\<lambda>h. (h, h, upstream)) hosts) = Inr (pr_fallback rt)"
    by (auto simp: proxy_runtime_new_def Let_def)
  have "host \<in> fst ` set (map (\<lambda>h. (h, h, upstream)) hosts)" using assms(2) by force
  with add_pool_fold [OF fold, of host] obtain pool where
    "pr_fallback rt host = Some pool" "pool_new sem upstream host (sem_new sem most) (ca (uc_ca_file upstream)) now = Inr pool"
    by auto
  from that [OF this(1) pool_new_config [OF this(2)]] show thesis .
qed

text \<open>A request that gets in always finds the backend of its route.\<close>

definition has_backend :: "'s runtimes \<Rightarrow> 'h entry \<Rightarrow> bool" where
  "has_backend ru entry =
     (case en_choice entry of
        To_Websocket r \<Rightarrow> True
      | To_Grpc r \<Rightarrow>
          (\<exists>u. gn_upstreams (ru_grpc ru) (gb_address (gr_backend r)) = Some u \<and>
             gb_address (gu_endpoint u) = gb_address (gr_backend r))
      | To_Http r \<Rightarrow> (\<exists>pool. pr_routes (ru_http ru) (hr_id r) = Some pool \<and> up_config pool = hr_upstream r)
      | To_Fallback f \<Rightarrow>
          (\<exists>pool. pr_fallback (ru_http ru) (en_host entry) = Some pool \<and> up_config pool = fc_upstream f)
      | To_Nothing \<Rightarrow> False)"

lemma gateway_start_parts:
  assumes "gateway_start sem ge co = Inr gw"
  shows "gw_state gw = service_state_of co"
    "ru_grpc (gw_runtimes gw) = grpc_runtime_new sem (co_grpc_routes co) (sc_backend_connect_timeout (co_server co))
       (sc_max_grpc_concurrent_streams_per_backend (co_server co))"
    "proxy_runtime_new sem (ge_ca ge) (ge_started ge) (http_enabled_routes (co_http_routes co))
       (fallback_pools (ge_hosts ge) co) (co_max_http_upstream_connections co) = Inr (ru_http (gw_runtimes gw))"
  using assms by (auto simp: gateway_start_def Let_def)

lemma admitted_backend:
  assumes accepted: "accepted lib env directory c fs co fs'"
    and start: "gateway_start sem ge co = Inr gw"
    and hosts: "\<And>f. co_fallback co = Some f \<Longrightarrow> set (ge_hosts ge) = fc_hosts f"
    and gate: "request_gate lib' sem (gw_state gw) renv request g = (Inr entry, g')"
  shows "has_backend (gw_runtimes gw) entry"
proof -
  note parts = gateway_start_parts [OF start]
  note tables = build_routes_ok [OF accepted_build [OF accepted]]
  obtain host address where
    client: "gate_client lib' sem (gw_state gw) renv request host
       (choose_route (gw_state gw) host (u_path (rq_uri request))) address g = (Inr entry, g')"
    using request_gate_admits [OF gate] by metis
  let ?path = "u_path (rq_uri request)"
  have en: "en_choice entry = choose_route (gw_state gw) host ?path" "en_host entry = host"
    using gate_client_admits(8) [OF client] by simp_all
  have some: "en_choice entry \<noteq> To_Nothing" using gate_client_admits(1) [OF client] en by simp
  show ?thesis
  proof (cases "en_choice entry")
    case (To_Websocket r)
    then show ?thesis by (simp add: has_backend_def)
  next
    case (To_Grpc r)
    then have "grpc_resolve (co_grpc_routes co) host ?path = Some r"
      using en(1) by (simp add: choose_route_def parts(1) service_state_of_def split: option.splits if_splits)
    then obtain u where
      "gn_upstreams (ru_grpc (gw_runtimes gw)) (gb_address (gr_backend r)) = Some u"
      "gb_address (gu_endpoint u) = gb_address (gr_backend r)"
      unfolding parts(2) by (rule resolved_grpc_upstream [OF tables(2)])
    with To_Grpc show ?thesis by (simp add: has_backend_def)
  next
    case (To_Http r)
    then have "http_resolve (co_http_routes co) host ?path = Some r"
      using en(1) by (simp add: choose_route_def parts(1) service_state_of_def split: option.splits if_splits)
    then obtain pool where
      "pr_routes (ru_http (gw_runtimes gw)) (hr_id r) = Some pool" "up_config pool = hr_upstream r"
      by (rule resolved_route_pool [OF tables(3) parts(3)]) (simp add: pool_new_config)
    with To_Http show ?thesis by (simp add: has_backend_def)
  next
    case (To_Fallback f)
    then have f: "co_fallback co = Some f" "fallback_permits_host f host"
      using en(1) by (simp_all add: choose_route_def parts(1) service_state_of_def split: option.splits if_splits)
    then have "host \<in> set (ge_hosts ge)" using hosts by (simp add: fallback_permits_host_def)
    from fallback_pool_exists [OF parts(3) [unfolded fallback_pools_def f(1) option.map] this] obtain pool where
      "pr_fallback (ru_http (gw_runtimes gw)) host = Some pool" "up_config pool = fc_upstream f" .
    with To_Fallback en(2) show ?thesis by (simp add: has_backend_def)
  next
    case To_Nothing
    with some show ?thesis by simp
  qed
qed

end
