(* ===== verification/Certificates.thy ===== *)
theory Certificates
  imports Settings "HOL-Library.Multiset"
begin

text \<open>
  \<open>src/tls/store.rs\<close> and \<open>src/tls/resolver.rs\<close>: the certificates on disk, the index of the names they
  claim, its replacement and the choice of a certificate for a server name.  Parsing PEM and X.509
  and the check that key and certificate fit belong to libraries and are the operations of
  \<open>x509_lib\<close>; what a scan of the directory yields is an argument.
\<close>

section \<open>Certificates\<close>

record certified_key =
  ck_chain :: "bytes list"
  ck_key :: bytes

record certificate_metadata =
  cm_dns_names :: "string list"
  cm_leaf_certificate :: bytes
  cm_not_after_unix :: int

text \<open>
  \<open>xl_from_der\<close> says whether chain and key are compatible; \<open>xl_leaf\<close> yields the DNS names of the
  Subject Alternative Names in their order, and the end of validity.
\<close>

record x509_lib =
  xl_certs :: "bytes \<Rightarrow> string + bytes list"
  xl_private_key :: "bytes \<Rightarrow> string + bytes option"
  xl_from_der :: "bytes list \<Rightarrow> bytes \<Rightarrow> string + unit"
  xl_leaf :: "bytes \<Rightarrow> string + string list \<times> int"

definition one_error :: "string + 'a \<Rightarrow> anyhow + 'a" where
  "one_error = map_err (\<lambda>e. [e])"

definition normalize_san :: "string \<Rightarrow> string" where
  "normalize_san name = to_ascii_lowercase (trim_end_matches (CHR ''.'') name)"

definition check_san :: "string \<Rightarrow> unit \<Rightarrow> string \<Rightarrow> anyhow + unit" where
  "check_san i u name =
     (let unsupported = bail (''TLS certificate '' @ debug_str i @ '' contains unsupported wildcard SAN '' @ debug_str name)
      in case strip_prefix ''*.'' name of
           Some suffix \<Rightarrow> if suffix = [] \<or> CHR ''*'' \<in> set suffix then unsupported else Inr ()
         | None \<Rightarrow> if CHR ''*'' \<in> set name then unsupported else Inr ())"

definition parse_leaf_metadata :: "x509_lib \<Rightarrow> string \<Rightarrow> bytes \<Rightarrow> anyhow + certificate_metadata" where
  "parse_leaf_metadata lib i leaf =
     and_then (map_err (\<lambda>e. [''failed to parse leaf X.509 certificate '' @ debug_str i @ '': '' @ e]) (xl_leaf lib leaf))
       (\<lambda>(names, not_after).
     let dns_names = remdups_adj (sort (map normalize_san names)) in
     if dns_names = []
     then bail (''TLS certificate '' @ debug_str i @ '' contains no DNS Subject Alternative Names'')
     else and_then (try_fold (check_san i) () dns_names) (\<lambda>_.
       Inr \<lparr> cm_dns_names = dns_names, cm_leaf_certificate = leaf, cm_not_after_unix = not_after \<rparr>))"

definition parse_certificate_pair ::
  "x509_lib \<Rightarrow> string \<Rightarrow> bytes \<Rightarrow> bytes \<Rightarrow> anyhow + certified_key \<times> certificate_metadata"
where
  "parse_certificate_pair lib i certificate_bytes key_bytes =
     and_then (add_context (''failed to parse TLS certificate chain for '' @ debug_str i)
         (one_error (xl_certs lib certificate_bytes))) (\<lambda>certificates.
     case certificates of
       [] \<Rightarrow> bail (''TLS certificate '' @ debug_str i @ '' contains no certificates'')
     | leaf_certificate # _ \<Rightarrow>
       and_then (add_context (''failed to parse TLS private key for '' @ debug_str i)
           (one_error (xl_private_key lib key_bytes))) (\<lambda>private_key.
       and_then (ok_or [''TLS private key '' @ debug_str i @ '' contains no supported private key''] private_key)
         (\<lambda>private_key.
       and_then (add_context (''TLS certificate and private key for '' @ debug_str i @ '' are incompatible'')
           (one_error (xl_from_der lib certificates private_key))) (\<lambda>_.
       and_then (parse_leaf_metadata lib i leaf_certificate) (\<lambda>metadata.
       Inr (\<lparr> ck_chain = certificates, ck_key = private_key \<rparr>, metadata))))))"

section \<open>The directory\<close>

text \<open>What the scan yields, entry by entry: an error, or a name (if it is UTF-8), a path and its kind.\<close>

record dir_entry =
  de_name :: "string option"
  de_path :: path
  de_is_file :: "io_error + bool"

text \<open>
  \<open>te_order\<close> is the order in which the hash map of the pairs is visited; \<open>te_read_fault\<close> the error of
  reading a file, if any.
\<close>

type_synonym certificate_pair = "string \<times> path \<times> path"

record tls_env =
  te_create_dir :: "io_error option"
  te_read_dir :: "io_error option"
  te_entries :: "(io_error + dir_entry) list"
  te_order :: "certificate_pair list \<Rightarrow> certificate_pair list"
  te_read_fault :: "path \<Rightarrow> io_error option"

type_synonym found_files = "(string \<times> path) list \<times> (string \<times> path) list"

definition discover_file :: "tls_config \<Rightarrow> string \<Rightarrow> path \<Rightarrow> found_files \<Rightarrow> anyhow + found_files" where
  "discover_file config file_name path = (\<lambda>(certs, keys).
     case strip_suffix (tc_cert_suffix config) file_name of
       Some i \<Rightarrow>
         if i = [] then bail (''TLS certificate filename '' @ debug_str file_name @ '' has an empty certificate id'')
         else if i \<in> fst ` set certs then bail (''duplicate TLS certificate id '' @ debug_str i)
         else Inr ((i, path) # certs, keys)
     | None \<Rightarrow>
       (case strip_suffix (tc_key_suffix config) file_name of
          Some i \<Rightarrow>
            if i = [] then bail (''TLS key filename '' @ debug_str file_name @ '' has an empty certificate id'')
            else if i \<in> fst ` set keys then bail (''duplicate TLS key id '' @ debug_str i)
            else Inr (certs, (i, path) # keys)
        | None \<Rightarrow> Inr (certs, keys)))"

definition discover_entry ::
  "tls_config \<Rightarrow> found_files \<Rightarrow> io_error + dir_entry \<Rightarrow> anyhow + found_files"
where
  "discover_entry config found entry =
     and_then (add_context (''failed while scanning TLS certificate directory '' @ tc_cert_dir config) (io_anyhow entry))
       (\<lambda>entry.
     and_then (add_context (''failed to inspect TLS path '' @ de_path entry) (io_anyhow (de_is_file entry))) (\<lambda>is_file.
     if \<not> is_file then Inr found
     else case de_name entry of
       None \<Rightarrow> Inr found
     | Some file_name \<Rightarrow> discover_file config file_name (de_path entry) found))"

definition match_pair :: "found_files \<Rightarrow> string \<Rightarrow> anyhow + certificate_pair" where
  "match_pair = (\<lambda>(certs, keys) i.
     and_then (ok_or [''TLS private key '' @ debug_str i @ '' has no matching certificate''] (map_of certs i)) (\<lambda>cert_path.
     and_then (ok_or [''TLS certificate '' @ debug_str i @ '' has no matching private key''] (map_of keys i)) (\<lambda>key_path.
     Inr (i, cert_path, key_path))))"

definition io_fault :: "io_error option \<Rightarrow> anyhow + unit" where
  "io_fault fault = (case fault of None \<Rightarrow> Inr () | Some e \<Rightarrow> io_anyhow (Inl e))"

definition discover_pairs :: "tls_env \<Rightarrow> tls_config \<Rightarrow> anyhow + certificate_pair list" where
  "discover_pairs env config =
     and_then (add_context (''failed to scan TLS certificate directory '' @ tc_cert_dir config)
         (io_fault (te_read_dir env))) (\<lambda>_.
     and_then (try_fold (discover_entry config) ([], []) (te_entries env)) (\<lambda>(certs, keys).
     let ids = remdups_adj (sort (map fst certs @ map fst keys))
     in collect_results (match_pair (certs, keys)) ids))"

section \<open>The index\<close>

text \<open>A name of a certificate is either exact or, after \<open>*.\<close>, the suffix it is a wildcard for.\<close>

type_synonym name_table = "(string \<rightharpoonup> certified_key) \<times> (string \<rightharpoonup> certified_key)"

definition claim_name :: "certified_key \<Rightarrow> name_table \<Rightarrow> string \<Rightarrow> anyhow + name_table" where
  "claim_name key = (\<lambda>(exact, wildcard) name.
     case strip_prefix ''*.'' name of
       Some suffix \<Rightarrow>
         if suffix \<in> dom wildcard then bail (''more than one TLS certificate claims wildcard SAN '' @ debug_str name)
         else Inr (exact, wildcard(suffix \<mapsto> key))
     | None \<Rightarrow>
         if name \<in> dom exact then bail (''more than one TLS certificate claims DNS SAN '' @ debug_str name)
         else Inr (exact(name \<mapsto> key), wildcard))"

record index_build =
  xb_names :: name_table
  xb_metadata :: "(string \<times> certificate_metadata) list"
  xb_keys_by_id :: "string \<rightharpoonup> certified_key"

definition index_build_init :: index_build where
  "index_build_init = \<lparr> xb_names = (Map.empty, Map.empty), xb_metadata = [], xb_keys_by_id = Map.empty \<rparr>"

definition read_file :: "tls_env \<Rightarrow> fs \<Rightarrow> path \<Rightarrow> anyhow + bytes" where
  "read_file env fs path =
     and_then (io_fault (te_read_fault env path)) (\<lambda>_.
     io_anyhow (case fs path of Some data \<Rightarrow> Inr data | None \<Rightarrow> Inl not_found))"

type_synonym loaded_pair = "string \<times> certified_key \<times> certificate_metadata"

definition read_pair :: "x509_lib \<Rightarrow> tls_env \<Rightarrow> fs \<Rightarrow> certificate_pair \<Rightarrow> anyhow + loaded_pair" where
  "read_pair lib env fs = (\<lambda>(i, cert_path, key_path).
     and_then (add_context (''failed to read TLS certificate '' @ cert_path) (read_file env fs cert_path)) (\<lambda>certificate_bytes.
     and_then (add_context (''failed to read TLS private key '' @ key_path) (read_file env fs key_path)) (\<lambda>key_bytes.
     and_then (parse_certificate_pair lib i certificate_bytes key_bytes) (\<lambda>(certified_key, parsed).
     Inr (i, certified_key, parsed)))))"

definition add_pair :: "index_build \<Rightarrow> loaded_pair \<Rightarrow> anyhow + index_build" where
  "add_pair st = (\<lambda>(i, certified_key, parsed).
     and_then (try_fold (claim_name certified_key) (xb_names st) (cm_dns_names parsed)) (\<lambda>names.
     Inr \<lparr> xb_names = names, xb_metadata = (i, parsed) # xb_metadata st,
           xb_keys_by_id = (xb_keys_by_id st)(i \<mapsto> certified_key) \<rparr>))"

definition load_pair ::
  "x509_lib \<Rightarrow> tls_env \<Rightarrow> fs \<Rightarrow> index_build \<Rightarrow> certificate_pair \<Rightarrow> anyhow + index_build"
where
  "load_pair lib env fs st pair = and_then (read_pair lib env fs pair) (add_pair st)"

record certificate_index =
  ix_exact :: "string \<rightharpoonup> certified_key"
  ix_wildcard :: "string \<rightharpoonup> certified_key"
  ix_default :: "certified_key option"
  ix_metadata :: "(string \<times> certificate_metadata) list"

definition finish_index :: "tls_config \<Rightarrow> index_build \<Rightarrow> certificate_index" where
  "finish_index config st =
     \<lparr> ix_exact = fst (xb_names st), ix_wildcard = snd (xb_names st),
       ix_default = Option.bind (tc_default_certificate config) (xb_keys_by_id st),
       ix_metadata = xb_metadata st \<rparr>"

definition load_index :: "x509_lib \<Rightarrow> tls_env \<Rightarrow> tls_config \<Rightarrow> fs \<Rightarrow> anyhow + certificate_index" where
  "load_index lib env config fs =
     and_then (discover_pairs env config) (\<lambda>pairs.
     and_then (try_fold (load_pair lib env fs) index_build_init (te_order env pairs)) (\<lambda>st.
     Inr (finish_index config st)))"

section \<open>The store\<close>

record certificate_store =
  ce_config :: tls_config
  ce_index :: certificate_index

definition store_load :: "x509_lib \<Rightarrow> tls_env \<Rightarrow> tls_config \<Rightarrow> fs \<Rightarrow> anyhow + certificate_store" where
  "store_load lib env config fs =
     and_then (add_context (''failed to create TLS certificate directory '' @ tc_cert_dir config)
         (io_fault (te_create_dir env))) (\<lambda>_.
     and_then (load_index lib env config fs) (\<lambda>index.
     Inr \<lparr> ce_config = config, ce_index = index \<rparr>))"

definition store_reload ::
  "x509_lib \<Rightarrow> tls_env \<Rightarrow> fs \<Rightarrow> certificate_store \<Rightarrow> (anyhow + unit) \<times> certificate_store"
where
  "store_reload lib env fs store =
     (case load_index lib env (ce_config store) fs of
        Inl e \<Rightarrow> (Inl e, store)
      | Inr new_index \<Rightarrow> (Inr (), store\<lparr>ce_index := new_index\<rparr>))"

definition store_is_empty :: "certificate_store \<Rightarrow> bool" where
  "store_is_empty store \<longleftrightarrow> ix_metadata (ce_index store) = []"

definition certificate_count :: "certificate_store \<Rightarrow> nat" where
  "certificate_count store = length (ix_metadata (ce_index store))"

definition store_metadata :: "certificate_store \<Rightarrow> string \<Rightarrow> certificate_metadata option" where
  "store_metadata store i = map_of (ix_metadata (ce_index store)) i"

definition default_certificate_available :: "certificate_store \<Rightarrow> bool" where
  "default_certificate_available store =
     (case tc_default_certificate (ce_config store) of
        Some i \<Rightarrow> i \<in> fst ` set (ix_metadata (ce_index store))
      | None \<Rightarrow> True)"

text \<open>The order in which the table is visited only decides which conflict is named.\<close>

definition replacement_conflict ::
  "string \<Rightarrow> certificate_metadata \<Rightarrow> unit \<Rightarrow> string \<times> certificate_metadata \<Rightarrow> anyhow + unit"
where
  "replacement_conflict i candidate u = (\<lambda>(other, existing).
     if other = i then Inr ()
     else try_fold (\<lambda>u name.
       if list_ex (\<lambda>n. n = name) (cm_dns_names existing)
       then bail (''replacement TLS certificate '' @ debug_str i @ '' claims DNS SAN '' @ debug_str name
         @ '', already owned by certificate '' @ debug_str other)
       else Inr ()) () (cm_dns_names candidate))"

definition validate_replacement ::
  "x509_lib \<Rightarrow> certificate_store \<Rightarrow> string \<Rightarrow> bytes \<Rightarrow> bytes \<Rightarrow> anyhow + certificate_metadata"
where
  "validate_replacement lib store i certificate_pem private_key_pem =
     and_then (parse_certificate_pair lib i certificate_pem private_key_pem) (\<lambda>(_, candidate).
     and_then (try_fold (replacement_conflict i candidate) () (ix_metadata (ce_index store))) (\<lambda>_.
     Inr candidate))"

section \<open>The choice of a certificate\<close>

definition resolve_wildcard :: "(string \<rightharpoonup> 'a) \<Rightarrow> string \<Rightarrow> 'a option" where
  "resolve_wildcard wildcard_certificates server_name =
     (case split_once (CHR ''.'') server_name of
        None \<Rightarrow> None
      | Some (_, suffix) \<Rightarrow> wildcard_certificates suffix)"

definition resolve_server_name ::
  "(string \<rightharpoonup> 'a) \<Rightarrow> (string \<rightharpoonup> 'a) \<Rightarrow> 'a option \<Rightarrow> string \<Rightarrow> 'a option"
where
  "resolve_server_name exact_certificates wildcard_certificates default_certificate server_name =
     (case exact_certificates server_name of
        Some c \<Rightarrow> Some c
      | None \<Rightarrow>
        (case resolve_wildcard wildcard_certificates server_name of
           Some c \<Rightarrow> Some c
         | None \<Rightarrow> default_certificate))"

definition certificate_resolve :: "certificate_index \<Rightarrow> string option \<Rightarrow> certified_key option" where
  "certificate_resolve index server_name =
     (case server_name of
        None \<Rightarrow> ix_default index
      | Some name \<Rightarrow>
          resolve_server_name (ix_exact index) (ix_wildcard index) (ix_default index) (normalize_san name))"

declare one_error_def [eval_simps] normalize_san_def [eval_simps] check_san_def [eval_simps]
  parse_leaf_metadata_def [eval_simps] parse_certificate_pair_def [eval_simps]
  discover_file_def [eval_simps] discover_entry_def [eval_simps] match_pair_def [eval_simps]
  io_fault_def [eval_simps] discover_pairs_def [eval_simps] claim_name_def [eval_simps]
  index_build_init_def [eval_simps] read_file_def [eval_simps] read_pair_def [eval_simps]
  add_pair_def [eval_simps] load_pair_def [eval_simps] finish_index_def [eval_simps]
  load_index_def [eval_simps] store_load_def [eval_simps] store_reload_def [eval_simps]
  store_is_empty_def [eval_simps] certificate_count_def [eval_simps] store_metadata_def [eval_simps]
  default_certificate_available_def [eval_simps] replacement_conflict_def [eval_simps]
  validate_replacement_def [eval_simps] resolve_wildcard_def [eval_simps]
  resolve_server_name_def [eval_simps] certificate_resolve_def [eval_simps]

section \<open>Who owns a name\<close>

text \<open>
  The two maps are one table of names, split by the prefix \<open>*.\<close>: a claim succeeds exactly for a name
  nobody owns, and then adds the owner.
\<close>

definition owner :: "name_table \<Rightarrow> string \<Rightarrow> certified_key option" where
  "owner names n = (case strip_prefix ''*.'' n of Some s \<Rightarrow> snd names s | None \<Rightarrow> fst names n)"

definition put_name :: "certified_key \<Rightarrow> name_table \<Rightarrow> string \<Rightarrow> name_table" where
  "put_name key = (\<lambda>(exact, wildcard) n.
     case strip_prefix ''*.'' n of
       Some s \<Rightarrow> (exact, wildcard(s \<mapsto> key)) | None \<Rightarrow> (exact(n \<mapsto> key), wildcard))"

definition split_names :: "name_table \<Rightarrow> bool" where
  "split_names names \<longleftrightarrow> (\<forall>s. fst names (''*.'' @ s) = None)"

lemma claim_name_iff: "claim_name key names n = Inr names' \<longleftrightarrow> owner names n = None \<and> names' = put_name key names n"
  by (auto simp: claim_name_def owner_def put_name_def split: prod.splits option.splits if_splits)

lemma owner_put_name: "owner (put_name key names n) k = (if k = n then Some key else owner names k)"
  by (auto simp: owner_def put_name_def split: prod.splits option.splits)

lemma split_names_put: "split_names names \<Longrightarrow> split_names (put_name key names n)"
  by (auto simp: split_names_def put_name_def split: prod.splits option.splits)

lemma owner_inject: "split_names a \<Longrightarrow> split_names b \<Longrightarrow> (\<And>n. owner a n = owner b n) \<Longrightarrow> a = b"
proof (intro prod_eqI ext)
  assume ab: "split_names a" "split_names b" and eq: "\<And>n. owner a n = owner b n"
  show "fst a n = fst b n" for n
    using eq [of n] ab by (cases "strip_prefix ''*.'' n") (auto simp: owner_def split_names_def)
  show "snd a n = snd b n" for n
    using eq [of "''*.'' @ n"] by (simp add: owner_def)
qed

lemma claim_names_iff:
  "try_fold (claim_name key) names ns = Inr names' \<longleftrightarrow>
     distinct ns \<and> (\<forall>n \<in> set ns. owner names n = None) \<and> names' = foldl (put_name key) names ns"
proof (induction ns arbitrary: names)
  case Nil
  then show ?case by auto
next
  case (Cons n ns)
  show ?case
    using Cons.IH [of "put_name key names n"]
    by (auto simp: claim_name_iff owner_put_name split: if_splits)
qed

lemma owner_put_names: "owner (foldl (put_name key) names ns) k = (if k \<in> set ns then Some key else owner names k)"
  by (induction ns arbitrary: names) (auto simp: owner_put_name)

lemma split_names_puts: "split_names names \<Longrightarrow> split_names (foldl (put_name key) names ns)"
  by (induction ns arbitrary: names) (simp_all add: split_names_put)

section \<open>Loading as one check of all names\<close>

definition put_pair :: "index_build \<Rightarrow> loaded_pair \<Rightarrow> index_build" where
  "put_pair st = (\<lambda>(i, key, parsed).
     \<lparr> xb_names = foldl (put_name key) (xb_names st) (cm_dns_names parsed), xb_metadata = (i, parsed) # xb_metadata st,
       xb_keys_by_id = (xb_keys_by_id st)(i \<mapsto> key) \<rparr>)"

definition pair_names :: "loaded_pair \<Rightarrow> string list" where
  "pair_names = (\<lambda>(i, key, parsed). cm_dns_names parsed)"

definition all_names :: "loaded_pair list \<Rightarrow> string list" where
  "all_names pairs = concat (map pair_names pairs)"

lemma all_names_simps [simp]:
  "all_names [] = []" "all_names (p # ps) = pair_names p @ all_names ps"
  by (simp_all add: all_names_def)

lemma all_names_mset: "mset ps = mset qs \<Longrightarrow> mset (all_names ps) = mset (all_names qs)"
proof -
  assume eq: "mset ps = mset qs"
  have "mset (all_names xs) = sum_mset (image_mset (mset \<circ> pair_names) (mset xs))" for xs
    by (induction xs) simp_all
  with eq show ?thesis by metis
qed

lemma add_pair_iff:
  "add_pair st p = Inr st' \<longleftrightarrow>
     distinct (pair_names p) \<and> (\<forall>n \<in> set (pair_names p). owner (xb_names st) n = None) \<and> st' = put_pair st p"
  by (cases p) (auto simp: add_pair_def claim_names_iff put_pair_def pair_names_def)

lemma put_pair_owner:
  "owner (xb_names (put_pair st p)) n = (if n \<in> set (pair_names p) then Some (fst (snd p)) else owner (xb_names st) n)"
  by (cases p) (simp add: put_pair_def pair_names_def owner_put_names)

lemma add_pairs_iff:
  "try_fold add_pair st ps = Inr st' \<longleftrightarrow>
     distinct (all_names ps) \<and> (\<forall>n \<in> set (all_names ps). owner (xb_names st) n = None) \<and> st' = foldl put_pair st ps"
proof (induction ps arbitrary: st)
  case Nil
  then show ?case by auto
next
  case (Cons p ps)
  show ?case
    using Cons.IH [of "put_pair st p"]
    by (auto simp: add_pair_iff put_pair_owner split: if_splits)
qed

lemma load_pairs_iff:
  "try_fold (load_pair lib env fs) st pairs = Inr st' \<longleftrightarrow>
     (\<exists>ps. collect_results (read_pair lib env fs) pairs = Inr ps \<and> try_fold add_pair st ps = Inr st')"
  by (induction pairs arbitrary: st) (auto simp: load_pair_def)

definition loaded_index :: "loaded_pair list \<Rightarrow> index_build" where
  "loaded_index ps = foldl put_pair index_build_init ps"

lemma owner_init [simp]: "owner (xb_names index_build_init) n = None"
  by (simp add: owner_def index_build_init_def split: option.splits)

text \<open>
  The whole of loading: the pairs are found, each can be read, and no two names coincide.
\<close>

lemma load_index_iff:
  "load_index lib env config fs = Inr index \<longleftrightarrow>
     (\<exists>pairs ps. discover_pairs env config = Inr pairs \<and>
        collect_results (read_pair lib env fs) (te_order env pairs) = Inr ps \<and>
        distinct (all_names ps) \<and> index = finish_index config (loaded_index ps))"
  by (auto simp: load_index_def load_pairs_iff add_pairs_iff loaded_index_def)

section \<open>What the index holds\<close>

lemma loaded_fields:
  "split_names (xb_names st) \<Longrightarrow> split_names (xb_names (foldl put_pair st ps))"
  "xb_metadata (foldl put_pair st ps) = rev (map (\<lambda>(i, key, parsed). (i, parsed)) ps) @ xb_metadata st"
  "xb_keys_by_id (foldl put_pair st ps) = xb_keys_by_id st ++ map_of (rev (map (\<lambda>(i, key, parsed). (i, key)) ps))"
  by (induction ps arbitrary: st) (auto simp: put_pair_def split_names_puts split: prod.splits)

lemma loaded_owner:
  assumes "distinct (all_names ps)"
  shows "owner (xb_names (foldl put_pair st ps)) n = Some key \<longleftrightarrow>
    (\<exists>p \<in> set ps. n \<in> set (pair_names p) \<and> fst (snd p) = key) \<or>
    n \<notin> set (all_names ps) \<and> owner (xb_names st) n = Some key"
  using assms
proof (induction ps arbitrary: st)
  case (Cons p ps)
  have later: "m \<in> set (all_names ps)" if "q \<in> set ps" "m \<in> set (pair_names q)" for q m
    using that by (auto simp: all_names_def)
  show ?case
    using Cons.IH [of "put_pair st p"] Cons.prems later by (auto simp: put_pair_owner split: if_splits)
qed simp

lemma loaded_split: "split_names (xb_names (loaded_index ps))"
  unfolding loaded_index_def by (rule loaded_fields(1)) (simp add: split_names_def index_build_init_def)

lemma loaded_index_owner:
  "distinct (all_names ps) \<Longrightarrow> owner (xb_names (loaded_index ps)) n = Some key \<longleftrightarrow>
     (\<exists>p \<in> set ps. n \<in> set (pair_names p) \<and> fst (snd p) = key)"
  by (simp add: loaded_index_def loaded_owner)

lemma loaded_index_metadata:
  "xb_metadata (loaded_index ps) = rev (map (\<lambda>(i, key, parsed). (i, parsed)) ps)"
  "xb_keys_by_id (loaded_index ps) = map_of (rev (map (\<lambda>(i, key, parsed). (i, key)) ps))"
  by (simp_all add: loaded_index_def loaded_fields index_build_init_def)

lemma read_pair_id: "read_pair lib env fs q = Inr p \<Longrightarrow> fst p = fst q"
  by (auto simp: read_pair_def split: prod.splits)

lemma read_pairs_ids: "collect_results (read_pair lib env fs) qs = Inr ps \<Longrightarrow> map fst ps = map fst qs"
proof (induction qs arbitrary: ps)
  case (Cons q qs)
  then show ?case by (auto dest: read_pair_id)
qed simp

lemma read_pairs_set:
  "collect_results f qs = Inr ps \<Longrightarrow> set ps = {p. \<exists>q \<in> set qs. f q = Inr p}"
  by (induction qs arbitrary: ps) auto

lemma collect_results_mset:
  assumes "mset qs = mset qs'" "collect_results f qs = Inr ps"
  shows "\<exists>ps'. collect_results f qs' = Inr ps' \<and> mset ps' = mset ps"
proof -
  have all: "map f qs = map Inr ps" using assms(2) by (simp add: collect_results_Inr_iff)
  have "\<forall>q \<in> set qs'. \<exists>p. f q = Inr p"
    using assms(1) all by (metis imageE list.set_map mset_eq_setD imageI)
  then have "map f qs' = map Inr (map (projr \<circ> f) qs')" by auto
  then obtain ps' where ps': "map f qs' = map Inr ps'" by blast
  have "image_mset Inr (mset ps') = image_mset f (mset qs')" by (metis ps' mset_map)
  also have "\<dots> = image_mset f (mset qs)" using assms(1) by simp
  also have "\<dots> = image_mset Inr (mset ps)" by (metis all mset_map)
  finally have "mset ps' = mset ps" using multiset.inj_map [OF inj_Inr] by (auto dest: injD)
  with ps' show ?thesis by (auto simp: collect_results_Inr_iff)
qed

lemma match_pair_id: "match_pair found i = Inr q \<Longrightarrow> fst q = i"
  by (auto simp: match_pair_def split: prod.splits)

lemma distinct_remdups_adj: "sorted xs \<Longrightarrow> distinct (remdups_adj xs)"
  by (induction xs rule: remdups_adj.induct) auto

lemma discover_pairs_ids:
  assumes "discover_pairs env config = Inr pairs"
  shows "distinct (map fst pairs)" "sorted (map fst pairs)"
proof -
  from assms obtain certs keys where m: "collect_results (match_pair (certs, keys))
      (remdups_adj (sort (map fst certs @ map fst keys))) = Inr pairs"
    by (auto simp: discover_pairs_def Let_def split: prod.splits)
  have ids: "map fst ps = is" if "collect_results (match_pair found) is = Inr ps" for "is" ps found
    using that by (induction "is" arbitrary: ps) (auto dest: match_pair_id)
  from ids [OF m] have "map fst pairs = remdups_adj (sort (map fst certs @ map fst keys))" .
  then show "distinct (map fst pairs)" "sorted (map fst pairs)"
    using sorted_sort [of "map fst certs @ map fst keys"] by (simp_all only: sorted_remdups_adj distinct_remdups_adj)
qed

section \<open>The order of a hash map does not matter\<close>

definition same_index :: "certificate_index \<Rightarrow> certificate_index \<Rightarrow> bool" where
  "same_index a b \<longleftrightarrow>
     ix_exact a = ix_exact b \<and> ix_wildcard a = ix_wildcard b \<and> ix_default a = ix_default b \<and>
     map_of (ix_metadata a) = map_of (ix_metadata b)"

lemma map_of_mset:
  assumes "mset xs = mset ys" "distinct (map fst xs)"
  shows "map_of xs = map_of ys"
proof -
  have "distinct (map fst ys)"
    using assms by (metis mset_map mset_eq_imp_distinct_iff)
  with assms show ?thesis by (metis map_of_inject_set set_mset_mset)
qed

lemma loaded_index_mset:
  assumes "mset ps = mset qs" "distinct (all_names ps)" "distinct (map fst ps)"
  shows "same_index (finish_index config (loaded_index ps)) (finish_index config (loaded_index qs))"
proof -
  have dist: "distinct (all_names qs)" using assms(2) all_names_mset [OF assms(1)] mset_eq_imp_distinct_iff by blast
  have set: "set ps = set qs" using assms(1) mset_eq_setD by blast
  have "owner (xb_names (loaded_index ps)) n = owner (xb_names (loaded_index qs)) n" for n
  proof -
    have "owner (xb_names (loaded_index ps)) n = Some key \<longleftrightarrow> owner (xb_names (loaded_index qs)) n = Some key" for key
      by (simp add: loaded_index_owner [OF assms(2)] loaded_index_owner [OF dist] set)
    then show ?thesis by (metis not_None_eq)
  qed
  then have names: "xb_names (loaded_index ps) = xb_names (loaded_index qs)"
    by (rule owner_inject [OF loaded_split loaded_split])
  have "map_of (rev (map (\<lambda>(i, key, parsed). (i, f key parsed)) ps)) = map_of (rev (map (\<lambda>(i, key, parsed). (i, f key parsed)) qs))"
    for f :: "certified_key \<Rightarrow> certificate_metadata \<Rightarrow> 'x"
  proof (rule map_of_mset)
    show "mset (rev (map (\<lambda>(i, key, parsed). (i, f key parsed)) ps)) = mset (rev (map (\<lambda>(i, key, parsed). (i, f key parsed)) qs))"
      by (simp add: assms(1))
    have "map fst (map (\<lambda>(i, key, parsed). (i, f key parsed)) ps) = map fst ps" by (auto split: prod.splits)
    with assms(3) show "distinct (map fst (rev (map (\<lambda>(i, key, parsed). (i, f key parsed)) ps)))"
      unfolding rev_map [symmetric] by (metis distinct_rev)
  qed
  from this [of "\<lambda>k p. k"] this [of "\<lambda>k p. p"] show ?thesis
    by (simp add: same_index_def finish_index_def names loaded_index_metadata)
qed

lemma load_index_order:
  assumes load: "load_index lib env config fs = Inr index"
    and order: "\<And>pairs. mset (te_order env pairs) = mset pairs" "\<And>pairs. mset (order pairs) = mset pairs"
  shows "\<exists>index'. load_index lib (env\<lparr>te_order := order\<rparr>) config fs = Inr index' \<and> same_index index index'"
proof -
  from load obtain pairs ps where pairs: "discover_pairs env config = Inr pairs"
    and ps: "collect_results (read_pair lib env fs) (te_order env pairs) = Inr ps"
    and dist: "distinct (all_names ps)" and index: "index = finish_index config (loaded_index ps)"
    by (auto simp: load_index_iff)
  have same: "discover_pairs (env\<lparr>te_order := order\<rparr>) = discover_pairs env"
    "read_pair lib (env\<lparr>te_order := order\<rparr>) = read_pair lib env"
    by (intro ext, simp add: discover_pairs_def, intro ext, simp add: read_pair_def read_file_def)
  have "mset (te_order env pairs) = mset (order pairs)" using order by simp
  from collect_results_mset [OF this ps] obtain qs where
    qs: "collect_results (read_pair lib env fs) (order pairs) = Inr qs" "mset qs = mset ps" by blast
  have ids: "distinct (map fst ps)"
    using read_pairs_ids [OF ps] discover_pairs_ids(1) [OF pairs] order(1) [of pairs]
    by (metis mset_map mset_eq_imp_distinct_iff)
  have "distinct (all_names qs)" using dist all_names_mset [OF qs(2)] mset_eq_imp_distinct_iff by blast
  then have "load_index lib (env\<lparr>te_order := order\<rparr>) config fs = Inr (finish_index config (loaded_index qs))"
    using pairs qs(1) by (auto simp: load_index_iff same)
  with loaded_index_mset [OF qs(2) [symmetric] dist ids, of config] index show ?thesis by blast
qed

section \<open>Which certificate a client is shown\<close>

lemma index_lookup:
  assumes "distinct (all_names ps)" "index = finish_index config (loaded_index ps)"
  shows "strip_prefix ''*.'' n = None \<Longrightarrow> ix_exact index n = Some key \<longleftrightarrow> (\<exists>p \<in> set ps. n \<in> set (pair_names p) \<and> fst (snd p) = key)"
    and "strip_prefix ''*.'' n \<noteq> None \<Longrightarrow> ix_exact index n = None"
    and "ix_wildcard index s = Some key \<longleftrightarrow> (\<exists>p \<in> set ps. ''*.'' @ s \<in> set (pair_names p) \<and> fst (snd p) = key)"
  using loaded_index_owner [OF assms(1), of n key] loaded_index_owner [OF assms(1), of "''*.'' @ s" key] loaded_split [of ps]
  by (auto simp: assms(2) finish_index_def owner_def split_names_def)

lemma certificate_resolve_cases:
  assumes "distinct (all_names ps)" "index = finish_index config (loaded_index ps)"
    and "n = normalize_san server_name" "\<not> starts_with n ''*.''"
  shows "p \<in> set ps \<Longrightarrow> n \<in> set (pair_names p) \<Longrightarrow> certificate_resolve index (Some server_name) = Some (fst (snd p))"
    and "n \<notin> set (all_names ps) \<Longrightarrow> n = label @ CHR ''.'' # suffix \<Longrightarrow> CHR ''.'' \<notin> set label \<Longrightarrow>
      p \<in> set ps \<Longrightarrow> ''*.'' @ suffix \<in> set (pair_names p) \<Longrightarrow>
      certificate_resolve index (Some server_name) = Some (fst (snd p))"
    and "n \<notin> set (all_names ps) \<Longrightarrow>
      (\<And>label suffix. n = label @ CHR ''.'' # suffix \<Longrightarrow> CHR ''.'' \<notin> set label \<Longrightarrow> ''*.'' @ suffix \<notin> set (all_names ps)) \<Longrightarrow>
      certificate_resolve index (Some server_name) = ix_default index"
proof -
  note lookup = index_lookup [OF assms(1,2)]
  have plain: "strip_prefix ''*.'' n = None" using assms(4) by (simp add: strip_prefix_None_iff)
  have res: "certificate_resolve index (Some server_name) =
      resolve_server_name (ix_exact index) (ix_wildcard index) (ix_default index) n"
    by (simp add: certificate_resolve_def assms(3))
  have exact: "ix_exact index n = None" if "n \<notin> set (all_names ps)"
    using that lookup(1) [OF plain] by (cases "ix_exact index n") (auto simp: all_names_def)
  show "certificate_resolve index (Some server_name) = Some (fst (snd p))" if "p \<in> set ps" "n \<in> set (pair_names p)"
  proof -
    have "ix_exact index n = Some (fst (snd p))" using that lookup(1) [OF plain] by blast
    then show ?thesis by (simp add: res resolve_server_name_def)
  qed
  show "certificate_resolve index (Some server_name) = Some (fst (snd p))"
    if "n \<notin> set (all_names ps)" "n = label @ CHR ''.'' # suffix" "CHR ''.'' \<notin> set label"
      "p \<in> set ps" "''*.'' @ suffix \<in> set (pair_names p)"
  proof -
    have "split_once (CHR ''.'') n = Some (label, suffix)" using that by simp
    moreover have "ix_wildcard index suffix = Some (fst (snd p))" using that lookup(3) by blast
    ultimately show ?thesis using exact [OF that(1)] unfolding res resolve_server_name_def resolve_wildcard_def
      by (simp del: split_once_Some_iff)
  qed
  show "certificate_resolve index (Some server_name) = ix_default index"
    if "n \<notin> set (all_names ps)"
      "\<And>label suffix. n = label @ CHR ''.'' # suffix \<Longrightarrow> CHR ''.'' \<notin> set label \<Longrightarrow> ''*.'' @ suffix \<notin> set (all_names ps)"
  proof (cases "split_once (CHR ''.'') n")
    case None
    then show ?thesis using exact [OF that(1)] unfolding res resolve_server_name_def resolve_wildcard_def
      by (simp del: split_once_None_iff)
  next
    case (Some x)
    then obtain label suffix where x: "n = label @ CHR ''.'' # suffix" "CHR ''.'' \<notin> set label" "x = (label, suffix)"
      by (cases x) auto
    have "ix_wildcard index suffix = None"
      using that(2) [OF x(1,2)] lookup(3) [of suffix] by (cases "ix_wildcard index suffix") (auto simp: all_names_def)
    with Some x(3) show ?thesis
      using exact [OF that(1)] unfolding res resolve_server_name_def resolve_wildcard_def
      by (simp del: split_once_Some_iff)
  qed
qed

section \<open>A replacement that was validated can be loaded\<close>

lemma try_fold_unit_iff:
  fixes f :: "unit \<Rightarrow> 'a \<Rightarrow> 'e + unit"
  shows "try_fold f () xs = Inr u \<longleftrightarrow> (\<forall>x \<in> set xs. is_ok (f () x))"
  by (induction xs) (auto simp: is_ok_iff)

lemma replacement_conflict_ok:
  "is_ok (replacement_conflict i candidate () (other, existing)) \<longleftrightarrow>
     other = i \<or> set (cm_dns_names candidate) \<inter> set (cm_dns_names existing) = {}"
proof -
  define check :: "unit \<Rightarrow> string \<Rightarrow> anyhow + unit" where "check = (\<lambda>u name. if list_ex (\<lambda>n. n = name) (cm_dns_names existing)
       then bail (''replacement TLS certificate '' @ debug_str i @ '' claims DNS SAN '' @ debug_str name
         @ '', already owned by certificate '' @ debug_str other)
       else Inr ())"
  have "is_ok (check () name) \<longleftrightarrow> name \<notin> set (cm_dns_names existing)" for name
    by (auto simp: check_def list_ex_iff bail_def)
  then have "is_ok (try_fold check () names) \<longleftrightarrow> set names \<inter> set (cm_dns_names existing) = {}" for names
    unfolding is_ok_iff try_fold_unit_iff by (auto simp: is_ok_iff)
  then show ?thesis by (simp add: replacement_conflict_def check_def)
qed

lemma validate_replacement_ok:
  assumes "validate_replacement lib store i cert key = Inr candidate"
  obtains certified where "parse_certificate_pair lib i cert key = Inr (certified, candidate)"
    "\<And>other existing. (other, existing) \<in> set (ix_metadata (ce_index store)) \<Longrightarrow> other \<noteq> i \<Longrightarrow>
       set (cm_dns_names candidate) \<inter> set (cm_dns_names existing) = {}"
proof -
  from assms obtain certified where p: "parse_certificate_pair lib i cert key = Inr (certified, candidate)"
    and c: "try_fold (replacement_conflict i candidate) () (ix_metadata (ce_index store)) = Inr ()"
    by (auto simp: validate_replacement_def)
  have "set (cm_dns_names candidate) \<inter> set (cm_dns_names existing) = {}"
    if "(other, existing) \<in> set (ix_metadata (ce_index store))" "other \<noteq> i" for other existing
  proof -
    have "is_ok (replacement_conflict i candidate () (other, existing))"
      using c that(1) by (auto simp: try_fold_unit_iff)
    with that(2) show ?thesis by (simp add: replacement_conflict_ok)
  qed
  with p show thesis by (rule that)
qed

lemma parse_certificate_pair_iff:
  "parse_certificate_pair lib i cert key = Inr (certified, md) \<longleftrightarrow>
     (\<exists>leaf rest k. xl_certs lib cert = Inr (leaf # rest) \<and> xl_private_key lib key = Inr (Some k) \<and>
        xl_from_der lib (leaf # rest) k = Inr () \<and> parse_leaf_metadata lib i leaf = Inr md \<and>
        certified = \<lparr> ck_chain = leaf # rest, ck_key = k \<rparr>)"
proof (cases "xl_certs lib cert")
  case (Inr certificates)
  then show ?thesis
    by (cases certificates) (auto simp: parse_certificate_pair_def one_error_def)
qed (simp add: parse_certificate_pair_def one_error_def add_context_def)

lemma read_file_iff: "read_file env fs p = Inr data \<longleftrightarrow> te_read_fault env p = None \<and> fs p = Some data"
  by (auto simp: read_file_def io_fault_def io_anyhow_def split: option.splits)

lemma read_pair_iff:
  "read_pair lib env fs (j, c, k) = Inr p \<longleftrightarrow>
     te_read_fault env c = None \<and> te_read_fault env k = None \<and>
     (\<exists>cert key certified md. fs c = Some cert \<and> fs k = Some key \<and>
        parse_certificate_pair lib j cert key = Inr (certified, md) \<and> p = (j, certified, md))"
  by (auto simp: read_pair_def read_file_iff)

text \<open>The names of a certificate: normalised, without repetition, at least one, wildcards only in front.\<close>

lemma parsed_names:
  assumes "parse_certificate_pair lib i cert key = Inr (certified, md)"
  shows "distinct (cm_dns_names md)" "sorted (cm_dns_names md)" "cm_dns_names md \<noteq> []"
    "n \<in> set (cm_dns_names md) \<Longrightarrow> CHR ''*'' \<notin> set n \<or> (\<exists>s. n = ''*.'' @ s \<and> s \<noteq> [] \<and> CHR ''*'' \<notin> set s)"
proof -
  from assms obtain leaf where leaf: "parse_leaf_metadata lib i leaf = Inr md"
    by (auto simp: parse_certificate_pair_iff)
  then obtain names not_after where names: "cm_dns_names md = remdups_adj (sort (map normalize_san names))"
    "cm_dns_names md \<noteq> []" and check: "\<forall>n \<in> set (cm_dns_names md). is_ok (check_san i () n)"
    by (auto simp: parse_leaf_metadata_def Let_def try_fold_unit_iff split: if_splits)
  show "distinct (cm_dns_names md)" "sorted (cm_dns_names md)"
    unfolding names(1) by (simp_all add: distinct_remdups_adj)
  show "cm_dns_names md \<noteq> []" by (rule names(2))
  show "CHR ''*'' \<notin> set n \<or> (\<exists>s. n = ''*.'' @ s \<and> s \<noteq> [] \<and> CHR ''*'' \<notin> set s)" if "n \<in> set (cm_dns_names md)"
  proof -
    have "is_ok (check_san i () n)" using check that by blast
    then show ?thesis
      by (cases "strip_prefix ''*.'' n") (auto simp: check_san_def Let_def bail_def split: if_splits)
  qed
qed

definition no_read_faults :: "tls_env \<Rightarrow> bool" where
  "no_read_faults env \<longleftrightarrow> (\<forall>p. te_read_fault env p = None)"

lemma collect_results_all: "\<forall>q \<in> set qs. \<exists>p. f q = Inr p \<Longrightarrow> \<exists>ps. collect_results f qs = Inr ps"
  by (induction qs) auto

lemma distinct_all_names_iff:
  "distinct (map fst ps) \<Longrightarrow> distinct (all_names ps) \<longleftrightarrow>
     (\<forall>p \<in> set ps. distinct (pair_names p)) \<and>
     (\<forall>p \<in> set ps. \<forall>q \<in> set ps. fst p \<noteq> fst q \<longrightarrow> set (pair_names p) \<inter> set (pair_names q) = {})"
proof (induction ps)
  case (Cons p ps)
  define apart where "apart = (\<lambda>p q. fst p \<noteq> fst q \<longrightarrow> set (pair_names p) \<inter> set (pair_names q) = {})"
  have new: "fst p \<noteq> fst q" if "q \<in> set ps" for q
    using Cons.prems that by (metis distinct.simps(2) image_eqI list.map(2) list.set_map)
  have disjoint: "set (pair_names p) \<inter> set (all_names ps) = {} \<longleftrightarrow> (\<forall>q \<in> set ps. apart p q)"
    unfolding all_names_def apart_def using new by auto
  have rest: "distinct (all_names ps) \<longleftrightarrow>
      (\<forall>p \<in> set ps. distinct (pair_names p)) \<and> (\<forall>p \<in> set ps. \<forall>q \<in> set ps. apart p q)"
    using Cons by (simp add: apart_def)
  have sym: "apart q r \<longleftrightarrow> apart r q" "apart q q" for q r by (auto simp: apart_def)
  have "(\<forall>q \<in> set (p # ps). \<forall>r \<in> set (p # ps). apart q r) \<longleftrightarrow>
      (\<forall>q \<in> set ps. apart p q) \<and> (\<forall>q \<in> set ps. \<forall>r \<in> set ps. apart q r)"
    unfolding list.set ball_simps using sym by meson
  then show ?case
    unfolding all_names_simps distinct_append disjoint rest apart_def [symmetric, THEN fun_cong, THEN fun_cong] by simp blast
qed simp

lemma index_metadata_iff:
  assumes "distinct (map fst ps)"
  shows "map_of (ix_metadata (finish_index config (loaded_index ps))) i = Some md \<longleftrightarrow> (\<exists>key. (i, key, md) \<in> set ps)"
proof -
  let ?xs = "map (\<lambda>(i, key, parsed). (i, parsed)) ps"
  have "map fst ?xs = map fst ps" by (auto split: prod.splits)
  with assms have "distinct (map fst (rev ?xs))" unfolding rev_map [symmetric] by (metis distinct_rev)
  then have "map_of (rev ?xs) i = Some md \<longleftrightarrow> (i, md) \<in> set (rev ?xs)" by (rule map_of_eq_Some_iff)
  then show ?thesis by (force simp: finish_index_def loaded_index_metadata)
qed

text \<open>
  The index is the one of the files; the candidate was validated against it; then its two files are
  written and the directory scanned again.
\<close>

lemma validated_replacement_loads:
  assumes load: "load_index lib env config fs = Inr (ce_index store)"
    and valid: "validate_replacement lib store i cert key = Inr candidate"
    and pairs: "discover_pairs env config = Inr pairs" "\<And>ps. mset (te_order env ps) = mset ps"
    and env': "no_read_faults env'" "\<And>ps. mset (te_order env' ps) = mset ps"
    and pairs': "discover_pairs env' config = Inr pairs'"
      "set pairs' = insert (i, cp, kp) {q \<in> set pairs. fst q \<noteq> i}"
    and files: "fs' cp = Some cert" "fs' kp = Some key"
      "\<And>j c k. (j, c, k) \<in> set pairs \<Longrightarrow> j \<noteq> i \<Longrightarrow> fs' c = fs c \<and> fs' k = fs k"
  shows "\<exists>index'. load_index lib env' config fs' = Inr index' \<and>
    map_of (ix_metadata index') = (map_of (ix_metadata (ce_index store)))(i \<mapsto> candidate)"
proof -
  from load pairs(1) obtain ps where ps: "collect_results (read_pair lib env fs) (te_order env pairs) = Inr ps"
    and dist: "distinct (all_names ps)" and index: "ce_index store = finish_index config (loaded_index ps)"
    by (auto simp: load_index_iff)
  have order: "set (te_order env pairs) = set pairs" by (rule mset_eq_setD [OF pairs(2)])
  have ps_set: "set ps = {p. \<exists>q \<in> set pairs. read_pair lib env fs q = Inr p}"
    using read_pairs_set [OF ps] order by simp
  obtain certified where parsed: "parse_certificate_pair lib i cert key = Inr (certified, candidate)"
    and free: "\<And>other existing. (other, existing) \<in> set (ix_metadata (ce_index store)) \<Longrightarrow> other \<noteq> i \<Longrightarrow>
       set (cm_dns_names candidate) \<inter> set (cm_dns_names existing) = {}"
    by (rule validate_replacement_ok [OF valid]) (rule that)
  have new: "read_pair lib env' fs' (i, cp, kp) = Inr (i, certified, candidate)"
    using files(1,2) env'(1) parsed by (simp add: read_pair_iff no_read_faults_def)
  have old: "read_pair lib env' fs' q = Inr p" if "q \<in> set pairs" "fst q \<noteq> i" "read_pair lib env fs q = Inr p" for q p
  proof -
    obtain j c k where q: "q = (j, c, k)" by (cases q)
    have "fs' c = fs c" "fs' k = fs k" using files(3) that(1,2) by (auto simp: q)
    with that(3) env'(1) show ?thesis unfolding q read_pair_iff no_read_faults_def by simp
  qed
  have all: "map (read_pair lib env fs) (te_order env pairs) = map Inr ps" using ps by (simp only: collect_results_Inr_iff)
  have every: "\<exists>p. read_pair lib env fs q = Inr p" if "q \<in> set pairs" for q
  proof -
    from that order have "read_pair lib env fs q \<in> set (map (read_pair lib env fs) (te_order env pairs))" by simp
    then show ?thesis unfolding all by auto
  qed
  have same: "read_pair lib env' fs' q = Inr p \<longleftrightarrow> read_pair lib env fs q = Inr p" if "q \<in> set pairs" "fst q \<noteq> i" for q p
    using every [OF that(1)] old [OF that] by fastforce
  have "\<forall>q \<in> set (te_order env' pairs'). \<exists>p. read_pair lib env' fs' q = Inr p"
    unfolding mset_eq_setD [OF env'(2) [of pairs']] pairs'(2) using new same every by blast
  from collect_results_all [OF this] obtain qs where
    qs: "collect_results (read_pair lib env' fs') (te_order env' pairs') = Inr qs" by blast
  have qs_set: "set qs = insert (i, certified, candidate) {p \<in> set ps. fst p \<noteq> i}"
  proof -
    have "set qs = {p. \<exists>q \<in> set pairs'. read_pair lib env' fs' q = Inr p}"
      using read_pairs_set [OF qs] mset_eq_setD [OF env'(2) [of pairs']] by simp
    also have "\<dots> = insert (i, certified, candidate) {p. \<exists>q \<in> set pairs. fst q \<noteq> i \<and> read_pair lib env fs q = Inr p}"
    proof (intro Collect_cong iffI subset_antisym subsetI)
      fix p assume "p \<in> {p. \<exists>q \<in> set pairs'. read_pair lib env' fs' q = Inr p}"
      then obtain q where "q \<in> set pairs'" "read_pair lib env' fs' q = Inr p" by blast
      then show "p \<in> insert (i, certified, candidate) {p. \<exists>q \<in> set pairs. fst q \<noteq> i \<and> read_pair lib env fs q = Inr p}"
        unfolding pairs'(2) using new same [of q p] by (cases "q = (i, cp, kp)") (simp, blast)
    next
      fix p assume "p \<in> insert (i, certified, candidate) {p. \<exists>q \<in> set pairs. fst q \<noteq> i \<and> read_pair lib env fs q = Inr p}"
      then consider "p = (i, certified, candidate)" | q where "q \<in> set pairs" "fst q \<noteq> i" "read_pair lib env fs q = Inr p" by blast
      then show "p \<in> {p. \<exists>q \<in> set pairs'. read_pair lib env' fs' q = Inr p}"
        unfolding pairs'(2) using new same by cases blast+
    qed
    also have "{p. \<exists>q \<in> set pairs. fst q \<noteq> i \<and> read_pair lib env fs q = Inr p} = {p \<in> set ps. fst p \<noteq> i}"
      unfolding ps_set using read_pair_id by fastforce
    finally show ?thesis .
  qed
  have ids: "distinct (map fst ps)" "distinct (map fst qs)"
    using read_pairs_ids [OF ps] discover_pairs_ids(1) [OF pairs(1)] pairs(2) [of pairs]
      read_pairs_ids [OF qs] discover_pairs_ids(1) [OF pairs'(1)] env'(2) [of pairs']
    by (metis mset_map mset_eq_imp_distinct_iff)+
  have others: "set (cm_dns_names candidate) \<inter> set (pair_names p) = {}" if p: "p \<in> set ps" "fst p \<noteq> i" for p
  proof -
    obtain j key md where j: "p = (j, key, md)" by (cases p)
    have "map_of (ix_metadata (ce_index store)) j = Some md"
      unfolding index index_metadata_iff [OF ids(1)] using p(1) j by blast
    with free [of j md] p(2) j show ?thesis by (auto dest: map_of_SomeD simp: pair_names_def)
  qed
  have "distinct (all_names qs)"
    unfolding distinct_all_names_iff [OF ids(2)] qs_set
  proof (intro conjI ballI impI)
    have new_names: "pair_names (i, certified, candidate) = cm_dns_names candidate" by (simp add: pair_names_def)
    fix p assume p: "p \<in> insert (i, certified, candidate) {p \<in> set ps. fst p \<noteq> i}"
    then show "distinct (pair_names p)"
      using dist [unfolded distinct_all_names_iff [OF ids(1)]] parsed_names(1) [OF parsed] new_names
      by (metis (mono_tags, lifting) insertE mem_Collect_eq)
    fix q assume q: "q \<in> insert (i, certified, candidate) {p \<in> set ps. fst p \<noteq> i}" "fst p \<noteq> fst q"
    consider "p = (i, certified, candidate)" "q \<in> set ps" "fst q \<noteq> i"
      | "q = (i, certified, candidate)" "p \<in> set ps" "fst p \<noteq> i" | "p \<in> set ps" "q \<in> set ps"
      using p q by force
    then show "set (pair_names p) \<inter> set (pair_names q) = {}"
      using others new_names dist [unfolded distinct_all_names_iff [OF ids(1)]] q(2)
      by cases (simp, metis Int_commute, blast)
  qed
  then have load': "load_index lib env' config fs' = Inr (finish_index config (loaded_index qs))"
    using pairs'(1) qs by (auto simp: load_index_iff)
  have "map_of (ix_metadata (finish_index config (loaded_index qs))) j =
      ((map_of (ix_metadata (ce_index store)))(i \<mapsto> candidate)) j" for j
  proof -
    have "map_of (ix_metadata (finish_index config (loaded_index qs))) j = Some md \<longleftrightarrow>
        ((map_of (ix_metadata (ce_index store)))(i \<mapsto> candidate)) j = Some md" for md
      by (auto simp: index index_metadata_iff [OF ids(1)] index_metadata_iff [OF ids(2)] qs_set)
    then show ?thesis by (metis not_None_eq)
  qed
  with load' show ?thesis by blast
qed

text \<open>
  The specification of the choice: the certificate with that very name, or the one with the wildcard for
  all but the first label, or the default.
\<close>

definition pair_with_name :: "loaded_pair list \<Rightarrow> string \<Rightarrow> certified_key option" where
  "pair_with_name ps n = map_option (\<lambda>p. fst (snd p)) (find (\<lambda>p. n \<in> set (pair_names p)) ps)"

definition certificate_for :: "loaded_pair list \<Rightarrow> certified_key option \<Rightarrow> string \<Rightarrow> certified_key option" where
  "certificate_for ps fallback n =
     (case pair_with_name ps n of
        Some key \<Rightarrow> Some key
      | None \<Rightarrow>
        (case split_once (CHR ''.'') n of
           None \<Rightarrow> fallback
         | Some (_, suffix) \<Rightarrow>
           (case pair_with_name ps (''*.'' @ suffix) of Some key \<Rightarrow> Some key | None \<Rightarrow> fallback)))"

lemma pair_with_name_owner:
  "distinct (all_names ps) \<Longrightarrow> pair_with_name ps n = owner (xb_names (loaded_index ps)) n"
proof (cases "find (\<lambda>p. n \<in> set (pair_names p)) ps")
  case None
  assume dist: "distinct (all_names ps)"
  have "owner (xb_names (loaded_index ps)) n \<noteq> Some key" for key
    using loaded_index_owner [OF dist, of n key] None by (auto simp: find_None_iff)
  then show ?thesis using None by (cases "owner (xb_names (loaded_index ps)) n") (auto simp: pair_with_name_def)
next
  case (Some p)
  assume dist: "distinct (all_names ps)"
  then have "owner (xb_names (loaded_index ps)) n = Some (fst (snd p))"
    using loaded_index_owner [OF dist, of n] Some by (auto simp: find_Some_iff)
  then show ?thesis using Some by (simp add: pair_with_name_def)
qed

lemma certificate_resolve_spec:
  assumes "distinct (all_names ps)" "index = finish_index config (loaded_index ps)" "\<not> starts_with (normalize_san name) ''*.''"
  shows "certificate_resolve index (Some name) = certificate_for ps (ix_default index) (normalize_san name)"
proof -
  have "strip_prefix ''*.'' (normalize_san name) = None" using assms(3) by (simp add: strip_prefix_None_iff)
  then have "ix_exact index (normalize_san name) = pair_with_name ps (normalize_san name)"
    unfolding pair_with_name_owner [OF assms(1)] by (simp add: assms(2) finish_index_def owner_def)
  moreover have "ix_wildcard index s = pair_with_name ps (''*.'' @ s)" for s
    unfolding pair_with_name_owner [OF assms(1)] by (simp add: assms(2) finish_index_def owner_def)
  ultimately show ?thesis
    by (simp add: certificate_resolve_def resolve_server_name_def resolve_wildcard_def certificate_for_def
        del: split_once_Some_iff split_once_None_iff split: option.splits)
qed

end
