(* ===== verification/Acme_Storage.thy ===== *)
theory Acme_Storage
  imports Config Certificates
begin

text \<open>
  \<open>src/acme/storage.rs\<close> on Unix: the account and the certificate pairs that were issued are written to
  temporary files, synced and renamed.  The JSON text of an account is a parameter.
\<close>

section \<open>Calls\<close>

record store_faults =
  sf_create :: fault
  sf_write :: fault
  sf_sync :: fault
  sf_permissions :: fault

type_synonym fs_history = "fs \<times> fs list"

definition fs_calls ::
  "string list \<Rightarrow> (fault \<times> fs_op) list \<Rightarrow> fs_history \<Rightarrow> (anyhow + unit) \<times> fs_history"
where
  "fs_calls contexts calls = (\<lambda>(fs, seen).
     case fs_run calls seen fs of
       (r, h) \<Rightarrow> (map_err (\<lambda>(n, e). [contexts ! n, io_message e]) r, h))"

definition write_file ::
  "store_faults \<Rightarrow> path \<Rightarrow> bytes \<Rightarrow> fs_history \<Rightarrow> (anyhow + unit) \<times> fs_history"
where
  "write_file f path data =
     fs_calls [''failed to create '' @ path, ''failed to write '' @ path, ''failed to sync '' @ path,
         ''failed to set permissions on '' @ path]
       [(sf_create f, Fs_Create path), (sf_write f, Fs_Write path data), (sf_sync f, Fs_Sync path),
        (sf_permissions f, Fs_Sync path)]"

definition replace_file :: "fault \<Rightarrow> path \<Rightarrow> path \<Rightarrow> fs_history \<Rightarrow> (anyhow + unit) \<times> fs_history" where
  "replace_file f source destination =
     fs_calls [''failed to replace '' @ destination @ '' with '' @ source] [(f, Fs_Rename source destination)]"

text \<open>The result of removing a temporary file is ignored.\<close>

definition remove_quietly :: "fault \<Rightarrow> path \<Rightarrow> fs_history \<Rightarrow> fs_history" where
  "remove_quietly f path = (\<lambda>(fs, seen). let fs' = snd (fs_step f (Fs_Remove path) fs) in (fs', fs' # seen))"

text \<open>\<open>Path::with_file_name\<close>, and the name of a temporary file from the clock and the process.\<close>

definition with_file_name :: "path \<Rightarrow> string \<Rightarrow> path" where
  "with_file_name p name =
     path_join (if path_file_name p = None then p else case path_parent p of None \<Rightarrow> [] | Some d \<Rightarrow> d) name"

definition temporary_path :: "nat \<Rightarrow> nat option \<Rightarrow> path \<Rightarrow> path" where
  "temporary_path process clock path =
     (let nonce = (case clock of None \<Rightarrow> 0 | Some n \<Rightarrow> n);
          name = (case path_file_name path of None \<Rightarrow> ''acme-state'' | Some n \<Rightarrow> n)
      in with_file_name path (''.'' @ name @ ''.tmp-'' @ show_nat process @ ''-'' @ show_nat nonce))"

section \<open>Accounts\<close>

record account_json =
  aj_to_vec :: "string \<Rightarrow> string + bytes"
  aj_from_slice :: "bytes \<Rightarrow> string + string"

definition load_account :: "account_json \<Rightarrow> io_error option \<Rightarrow> path \<Rightarrow> fs \<Rightarrow> anyhow + string option" where
  "load_account json fault path fs =
     (case (case fault of Some e \<Rightarrow> Inl e | None \<Rightarrow> (case fs path of Some b \<Rightarrow> Inr b | None \<Rightarrow> Inl not_found)) of
        Inr data \<Rightarrow>
          and_then (add_context (''failed to parse ACME account state '' @ path) (one_error (aj_from_slice json data)))
            (\<lambda>credentials. Inr (Some credentials))
      | Inl e \<Rightarrow>
          if io_kind e = Not_Found then Inr None
          else Inl [''failed to read ACME account state '' @ path, io_message e])"

record account_env =
  ae_create_dir :: "io_error option"
  ae_clock :: "nat option"
  ae_process :: nat
  ae_faults :: store_faults
  ae_rename :: fault
  ae_remove :: fault

definition write_atomic ::
  "account_env \<Rightarrow> path \<Rightarrow> bytes \<Rightarrow> fs_history \<Rightarrow> (anyhow + unit) \<times> fs_history"
where
  "write_atomic env path data h =
     (case (case path_parent path of
              None \<Rightarrow> Inr ()
            | Some parent \<Rightarrow> add_context (''failed to create directory '' @ parent) (io_fault (ae_create_dir env))) of
        Inl e \<Rightarrow> (Inl e, h)
      | Inr _ \<Rightarrow>
        (let temporary = temporary_path (ae_process env) (ae_clock env) path in
         case write_file (ae_faults env) temporary data h of
           (Inl e, h) \<Rightarrow> (Inl e, h)
         | (Inr _, h) \<Rightarrow>
           (case replace_file (ae_rename env) temporary path h of
              (Inl e, h) \<Rightarrow> (Inl e, remove_quietly (ae_remove env) temporary h)
            | (Inr _, h) \<Rightarrow> (Inr (), h))))"

definition save_account ::
  "account_json \<Rightarrow> account_env \<Rightarrow> path \<Rightarrow> string \<Rightarrow> fs_history \<Rightarrow> (anyhow + unit) \<times> fs_history"
where
  "save_account json env path credentials h =
     (case add_context ''failed to serialize ACME account state'' (one_error (aj_to_vec json credentials)) of
        Inl e \<Rightarrow> (Inl e, h)
      | Inr data \<Rightarrow> write_atomic env path data h)"

section \<open>Certificate pairs\<close>

record pair_env =
  pv_create_dir :: "io_error option"
  pv_process :: nat
  pv_cert_clock :: "nat option"
  pv_key_clock :: "nat option"
  pv_cert :: store_faults
  pv_key :: store_faults
  pv_key_rename :: fault
  pv_cert_rename :: fault
  pv_cert_remove :: fault
  pv_key_remove :: fault

definition cert_temp :: "pair_env \<Rightarrow> tls_config \<Rightarrow> string \<Rightarrow> path" where
  "cert_temp env tls i = temporary_path (pv_process env) (pv_cert_clock env) (cert_path tls i)"

definition key_temp :: "pair_env \<Rightarrow> tls_config \<Rightarrow> string \<Rightarrow> path" where
  "key_temp env tls i = temporary_path (pv_process env) (pv_key_clock env) (key_path tls i)"

text \<open>The end of \<open>save_certificate_pair\<close>: the key is renamed first.\<close>

definition replace_pair :: "pair_env \<Rightarrow> tls_config \<Rightarrow> string \<Rightarrow> fs_history \<Rightarrow> (anyhow + unit) \<times> fs_history" where
  "replace_pair env tls i h =
     (case replace_file (pv_key_rename env) (key_temp env tls i) (key_path tls i) h of
        (Inl e, h) \<Rightarrow>
          (Inl e, remove_quietly (pv_key_remove env) (key_temp env tls i)
            (remove_quietly (pv_cert_remove env) (cert_temp env tls i) h))
      | (Inr _, h) \<Rightarrow>
        (case replace_file (pv_cert_rename env) (cert_temp env tls i) (cert_path tls i) h of
           (Inl e, h) \<Rightarrow> (Inl e, remove_quietly (pv_cert_remove env) (cert_temp env tls i) h)
         | (Inr _, h) \<Rightarrow> (Inr (), h)))"

definition save_certificate_pair ::
  "pair_env \<Rightarrow> tls_config \<Rightarrow> string \<Rightarrow> bytes \<Rightarrow> bytes \<Rightarrow> fs_history \<Rightarrow> (anyhow + unit) \<times> fs_history"
where
  "save_certificate_pair env tls i certificate_pem private_key_pem h =
     (case add_context (''failed to create TLS certificate directory '' @ tc_cert_dir tls) (io_fault (pv_create_dir env)) of
        Inl e \<Rightarrow> (Inl e, h)
      | Inr _ \<Rightarrow>
        (case write_file (pv_cert env) (cert_temp env tls i) certificate_pem h of
           (Inl e, h) \<Rightarrow> (Inl e, h)
         | (Inr _, h) \<Rightarrow>
           (case write_file (pv_key env) (key_temp env tls i) private_key_pem h of
              (Inl e, h) \<Rightarrow> (Inl e, remove_quietly (pv_cert_remove env) (cert_temp env tls i) h)
            | (Inr _, h) \<Rightarrow> replace_pair env tls i h)))"

declare fs_calls_def [eval_simps] write_file_def [eval_simps] replace_file_def [eval_simps]
  remove_quietly_def [eval_simps] with_file_name_def [eval_simps] temporary_path_def [eval_simps]
  load_account_def [eval_simps] write_atomic_def [eval_simps] save_account_def [eval_simps]
  cert_temp_def [eval_simps] key_temp_def [eval_simps] replace_pair_def [eval_simps] save_certificate_pair_def [eval_simps]

section \<open>Old or new\<close>

text \<open>The two files of a pair, as one value.\<close>

definition pair_files :: "tls_config \<Rightarrow> string \<Rightarrow> fs \<Rightarrow> bytes option \<times> bytes option" where
  "pair_files tls i fs = (fs (cert_path tls i), fs (key_path tls i))"

lemma write_file_result:
  assumes "write_file f path data (fs, seen) = (r, fs', seen')"
  shows "r = Inr () \<Longrightarrow> fs' = fs(path \<mapsto> data)"
    and "q \<noteq> path \<Longrightarrow> fs' q = fs q"
    and "\<exists>more. seen' = more @ seen \<and> (\<forall>g \<in> set more. \<forall>q. q \<noteq> path \<longrightarrow> g q = fs q)"
proof -
  have "(r = Inr () \<longrightarrow> fs' = fs(path \<mapsto> data)) \<and> (\<forall>q. q \<noteq> path \<longrightarrow> fs' q = fs q) \<and>
      (\<exists>more. seen' = more @ seen \<and> (\<forall>g \<in> set more. \<forall>q. q \<noteq> path \<longrightarrow> g q = fs q))"
    using assms
    by (cases "sf_create f"; cases "sf_write f"; cases "sf_sync f"; cases "sf_permissions f")
      (auto simp: write_file_def fs_calls_def split: option.splits)
  then show "r = Inr () \<Longrightarrow> fs' = fs(path \<mapsto> data)" "q \<noteq> path \<Longrightarrow> fs' q = fs q"
    "\<exists>more. seen' = more @ seen \<and> (\<forall>g \<in> set more. \<forall>q. q \<noteq> path \<longrightarrow> g q = fs q)" by blast+
qed

lemma replace_file_result:
  assumes "replace_file f source destination (fs, seen) = (r, fs', seen')"
  shows "r = Inr () \<Longrightarrow> \<exists>data. fs source = Some data \<and> fs' = (fs(source := None))(destination \<mapsto> data)"
    and "r = Inl e \<Longrightarrow> fs' = fs"
    and "seen' = fs' # seen"
  using assms by (cases f; auto simp: replace_file_def fs_calls_def split: option.splits)+

lemma remove_quietly_result:
  assumes "remove_quietly f path (fs, seen) = (fs', seen')"
  shows "q \<noteq> path \<Longrightarrow> fs' q = fs q" "seen' = fs' # seen"
  using assms fs_step_frame [of f "Fs_Remove path" fs "fst (fs_step f (Fs_Remove path) fs)" fs' q]
  by (auto simp: remove_quietly_def Let_def)

text \<open>
  What a reader (or a restart after a crash) may find: the files of the pair as they were, the new key
  beside the old certificate, or both new.
\<close>

definition same_off :: "path set \<Rightarrow> fs \<Rightarrow> fs \<Rightarrow> bool" where
  "same_off A f g \<longleftrightarrow> (\<forall>q. q \<notin> A \<longrightarrow> g q = f q)"

lemma same_off_refl [simp]: "same_off A f f"
  by (simp add: same_off_def)

lemma same_off_trans: "same_off A f g \<Longrightarrow> same_off A g h \<Longrightarrow> same_off A f h"
  by (simp add: same_off_def)

lemma same_off_mono: "same_off A f g \<Longrightarrow> A \<subseteq> B \<Longrightarrow> same_off B f g"
  by (auto simp: same_off_def)

lemma same_off_upd [simp]: "q \<in> A \<Longrightarrow> same_off A f (g(q := v)) \<longleftrightarrow> same_off A f g"
  by (auto simp: same_off_def)

definition trail :: "(fs \<Rightarrow> bool) \<Rightarrow> fs_history \<Rightarrow> bool" where
  "trail P h \<longleftrightarrow> P (fst h) \<and> (\<forall>g \<in> set (snd h). P g)"

lemma write_file_trail:
  assumes "write_file f path data h = (r, h')" "trail P h"
    and "\<And>g. same_off {path} (fst h) g \<Longrightarrow> P g"
  shows "trail P h'" "same_off {path} (fst h) (fst h')" "r = Inr () \<Longrightarrow> fst h' = (fst h)(path \<mapsto> data)"
proof -
  obtain fs seen fs' seen' where h: "h = (fs, seen)" "h' = (fs', seen')" by (cases h, cases h')
  note result = write_file_result [OF assms(1) [unfolded h]]
  show "same_off {path} (fst h) (fst h')" using result(2) by (auto simp: same_off_def h)
  then have "P fs'" using assms(3) by (simp add: h)
  moreover obtain pre where pre: "seen' = pre @ seen" "\<forall>g \<in> set pre. \<forall>q. q \<noteq> path \<longrightarrow> g q = fs q"
    using result(3) by blast
  then have "\<forall>g \<in> set pre. P g" using assms(3) by (simp add: same_off_def h)
  ultimately show "trail P h'" using assms(2) pre(1) by (auto simp: trail_def h)
  show "r = Inr () \<Longrightarrow> fst h' = (fst h)(path \<mapsto> data)" using result(1) by (simp add: h)
qed

lemma remove_quietly_trail:
  assumes "trail P h" "\<And>g. same_off {path} (fst h) g \<Longrightarrow> P g"
  shows "trail P (remove_quietly f path h)" "same_off {path} (fst h) (fst (remove_quietly f path h))"
proof -
  obtain fs seen fs' seen' where h: "h = (fs, seen)" "remove_quietly f path (fs, seen) = (fs', seen')"
    by (cases h, cases "remove_quietly f path h") auto
  note result = remove_quietly_result [OF h(2)]
  show "same_off {path} (fst h) (fst (remove_quietly f path h))"
    using result(1) by (auto simp: h same_off_def)
  then show "trail P (remove_quietly f path h)" using assms result(2) by (auto simp: h trail_def)
qed

lemma replace_file_trail:
  assumes "replace_file f source destination h = (r, h')" "trail P h" "fst h source = Some data"
  shows "r = Inl e \<Longrightarrow> fst h' = fst h \<and> trail P h'"
    "r = Inr () \<Longrightarrow> fst h' = ((fst h)(source := None))(destination \<mapsto> data)"
    "r = Inr () \<Longrightarrow> P (((fst h)(source := None))(destination \<mapsto> data)) \<Longrightarrow> trail P h'"
proof -
  obtain fs seen fs' seen' where h: "h = (fs, seen)" "h' = (fs', seen')" by (cases h, cases h')
  note result = replace_file_result [OF assms(1) [unfolded h]]
  show "r = Inl e \<Longrightarrow> fst h' = fst h \<and> trail P h'"
    using result(2,3) assms(2) by (auto simp: h trail_def)
  show "r = Inr () \<Longrightarrow> fst h' = ((fst h)(source := None))(destination \<mapsto> data)"
    using result(1) assms(3) by (auto simp: h)
  then show "r = Inr () \<Longrightarrow> P (((fst h)(source := None))(destination \<mapsto> data)) \<Longrightarrow> trail P h'"
    using result(3) assms(2) by (auto simp: h trail_def)
qed

definition pair_paths :: "pair_env \<Rightarrow> tls_config \<Rightarrow> string \<Rightarrow> path list" where
  "pair_paths env tls i = [cert_temp env tls i, key_temp env tls i, cert_path tls i, key_path tls i]"

definition pair_observed :: "pair_env \<Rightarrow> tls_config \<Rightarrow> string \<Rightarrow> bytes \<Rightarrow> bytes \<Rightarrow> fs \<Rightarrow> fs \<Rightarrow> bool" where
  "pair_observed env tls i cert key fs g \<longleftrightarrow>
     same_off (set (pair_paths env tls i)) fs g \<and>
     (pair_files tls i g = pair_files tls i fs \<or>
      pair_files tls i g = (fs (cert_path tls i), Some key) \<or>
      pair_files tls i g = (Some cert, Some key))"

lemma pair_observed_temps:
  assumes "distinct (pair_paths env tls i)" "same_off {cert_temp env tls i, key_temp env tls i} f g"
    "pair_observed env tls i cert key fs f"
  shows "pair_observed env tls i cert key fs g"
  using assms by (auto simp: pair_observed_def pair_paths_def pair_files_def same_off_def)

lemma pair_observed_remove:
  assumes "distinct (pair_paths env tls i)" "trail (pair_observed env tls i cert key fs) h"
    "p = cert_temp env tls i \<or> p = key_temp env tls i"
  shows "trail (pair_observed env tls i cert key fs) (remove_quietly f p h)"
proof (rule remove_quietly_trail(1) [OF assms(2)])
  fix g assume "same_off {p} (fst h) g"
  then have "same_off {cert_temp env tls i, key_temp env tls i} (fst h) g"
    by (rule same_off_mono) (use assms(3) in auto)
  then show "pair_observed env tls i cert key fs g"
    by (rule pair_observed_temps [OF assms(1)]) (use assms(2) in \<open>simp add: trail_def\<close>)
qed

lemma replace_pair_states:
  assumes dist: "distinct (pair_paths env tls i)"
    and run: "replace_pair env tls i h = (r, h')"
    and h: "trail (pair_observed env tls i cert key fs) h"
      "fst h = fs(cert_temp env tls i \<mapsto> cert, key_temp env tls i \<mapsto> key)"
  shows "trail (pair_observed env tls i cert key fs) h' \<and>
    (r = Inr () \<longrightarrow>
      fst h' = fs(cert_temp env tls i := None, key_temp env tls i := None, key_path tls i \<mapsto> key, cert_path tls i \<mapsto> cert))"
proof -
  let ?ct = "cert_temp env tls i" and ?kt = "key_temp env tls i" and ?P = "pair_observed env tls i cert key fs"
  let ?f3 = "fs(?ct \<mapsto> cert, ?kt := None, key_path tls i \<mapsto> key)"
  let ?f4 = "fs(?ct := None, ?kt := None, key_path tls i \<mapsto> key, cert_path tls i \<mapsto> cert)"
  have neq: "?ct \<noteq> ?kt" "?ct \<noteq> key_path tls i" "?ct \<noteq> cert_path tls i" "?kt \<noteq> cert_path tls i"
    "?kt \<noteq> key_path tls i" "cert_path tls i \<noteq> key_path tls i"
    using dist by (auto simp: pair_paths_def)
  have P: "?P ?f3" "?P ?f4" using neq by (auto simp: pair_observed_def pair_paths_def pair_files_def)
  have remove: "trail ?P (remove_quietly f ?ct k)" "trail ?P (remove_quietly f ?kt (remove_quietly g ?ct k))"
    if "trail ?P k" for f g k
    using that by (simp_all add: pair_observed_remove [OF dist])
  obtain r3 h3 where w3: "replace_file (pv_key_rename env) ?kt (key_path tls i) h = (r3, h3)" by (metis surj_pair)
  have "fst h ?kt = Some key" using h(2) by simp
  note t3 = replace_file_trail [OF w3 h(1) this]
  show ?thesis
  proof (cases r3)
    case (Inl e)
    with t3(1) have "trail ?P h3" by simp
    with run w3 Inl show ?thesis using remove(2) [of h3] by (auto simp: replace_pair_def)
  next
    case (Inr u)
    then have f3: "fst h3 = ?f3" "trail ?P h3" using t3(2,3) h(2) P(1) by simp_all
    obtain r4 h4 where w4: "replace_file (pv_cert_rename env) ?ct (cert_path tls i) h3 = (r4, h4)" by (metis surj_pair)
    have "fst h3 ?ct = Some cert" using f3 neq by simp
    note t4 = replace_file_trail [OF w4 f3(2) this]
    show ?thesis
    proof (cases r4)
      case (Inl e)
      with t4(1) have "trail ?P h4" by simp
      with run w3 w4 Inr Inl show ?thesis using remove(1) [of h4] by (auto simp: replace_pair_def)
    next
      case ok: (Inr u)
      have "((fst h3)(?ct := None))(cert_path tls i \<mapsto> cert) = ?f4" using f3(1) neq by (auto simp: fun_eq_iff)
      then have "fst h4 = ?f4" "trail ?P h4" using t4(2,3) ok P(2) by simp_all
      with run w3 w4 Inr ok show ?thesis by (simp add: replace_pair_def)
    qed
  qed
qed

lemma save_certificate_pair_states:
  assumes dist: "distinct (pair_paths env tls i)"
    and run: "save_certificate_pair env tls i cert key (fs, []) = (r, h)"
  shows "trail (pair_observed env tls i cert key fs) h \<and>
    (r = Inr () \<longrightarrow>
      fst h = fs(cert_temp env tls i := None, key_temp env tls i := None, key_path tls i \<mapsto> key, cert_path tls i \<mapsto> cert))"
proof -
  let ?ct = "cert_temp env tls i" and ?kt = "key_temp env tls i" and ?P = "pair_observed env tls i cert key fs"
  have P0: "?P fs" and start: "trail ?P (fs, [])" by (simp_all add: trail_def pair_observed_def)
  have temp: "?P g" if "same_off {p} f g" "?P f" "p = ?ct \<or> p = ?kt" for f g p
    by (rule pair_observed_temps [OF dist same_off_mono [OF that(1)] that(2)]) (use that(3) in auto)
  show ?thesis
  proof (cases "pv_create_dir env")
    case (Some e)
    with run start show ?thesis
      by (auto simp: save_certificate_pair_def io_fault_def io_anyhow_def add_context_def)
  next
    case None
    obtain r1 h1 where w1: "write_file (pv_cert env) ?ct cert (fs, []) = (r1, h1)" by (metis surj_pair)
    obtain r2 h2 where w2: "write_file (pv_key env) ?kt key h1 = (r2, h2)" by (metis surj_pair)
    have t1: "trail ?P h1" by (rule write_file_trail(1) [OF w1 start]) (use temp P0 in auto)
    then have P1: "?P (fst h1)" by (simp add: trail_def)
    have t2: "trail ?P h2" by (rule write_file_trail(1) [OF w2 t1]) (use temp P1 in auto)
    have done1: "r1 = Inr () \<Longrightarrow> fst h1 = fs(?ct \<mapsto> cert)"
      using write_file_trail(3) [OF w1 start temp [OF _ P0]] by simp
    have done2: "r2 = Inr () \<Longrightarrow> fst h2 = (fst h1)(?kt \<mapsto> key)"
      using write_file_trail(3) [OF w2 t1 temp [OF _ P1]] by simp
    have run': "(case r1 of Inl e \<Rightarrow> (Inl e, h1) | Inr _ \<Rightarrow>
        (case r2 of Inl e \<Rightarrow> (Inl e, remove_quietly (pv_cert_remove env) ?ct h2) | Inr _ \<Rightarrow> replace_pair env tls i h2)) = (r, h)"
      using run None w1 w2 by (auto simp: save_certificate_pair_def io_fault_def add_context_def split: sum.splits)
    show ?thesis
    proof (cases "r1 = Inr () \<and> r2 = Inr ()")
      case True
      with run' have "replace_pair env tls i h2 = (r, h)" by simp
      from replace_pair_states [OF dist this t2] True done1 done2 show ?thesis by simp
    next
      case False
      with run' t1 pair_observed_remove [OF dist t2] show ?thesis by (auto split: sum.splits)
    qed
  qed
qed

section \<open>A pair cut in the middle\<close>

text \<open>
  The key is in place before the certificate.  If the process ends there, or the second rename fails,
  the directory holds the new key beside the old certificate; when the library refuses that pair, the
  whole directory cannot be loaded any more.
\<close>

lemma collect_results_Inl: "q \<in> set qs \<Longrightarrow> \<not> is_ok (f q) \<Longrightarrow> \<not> is_ok (collect_results f qs)"
  by (induction qs) (auto simp: is_ok_iff)

lemma mismatched_pair_not_read:
  assumes "fs cp = Some cert" "fs kp = Some key" "xl_certs lib cert = Inr chain"
    "xl_private_key lib key = Inr (Some k)" "xl_from_der lib chain k = Inl e"
  shows "\<not> is_ok (read_pair lib env fs (i, cp, kp))"
proof -
  have "parse_certificate_pair lib i cert key \<noteq> Inr (certified, md)" for certified md
    using assms(3-5) by (auto simp: parse_certificate_pair_iff)
  then have "read_pair lib env fs (i, cp, kp) \<noteq> Inr p" for p
    using assms(1,2) by (simp add: read_pair_iff)
  then show ?thesis by (simp add: is_ok_iff)
qed

lemma mismatched_pair_stops_load:
  assumes "discover_pairs env config = Inr pairs" "(i, cp, kp) \<in> set pairs" "\<And>ps. mset (te_order env ps) = mset ps"
    "\<not> is_ok (read_pair lib env fs (i, cp, kp))"
  shows "\<not> is_ok (load_index lib env config fs)"
proof -
  have "(i, cp, kp) \<in> set (te_order env pairs)" using assms(2) mset_eq_setD [OF assms(3)] by simp
  from collect_results_Inl [where f = "read_pair lib env fs", OF this assms(4)] have
    "collect_results (read_pair lib env fs) (te_order env pairs) \<noteq> Inr ps" for ps
    by (auto simp: is_ok_iff)
  then show ?thesis using assms(1) by (auto simp: is_ok_iff load_index_iff)
qed

lemma second_rename_fails:
  assumes dist: "distinct (pair_paths env tls i)"
    and run: "save_certificate_pair env tls i cert key (fs, []) = (r, h)"
    and first: "pv_create_dir env = None" "pv_key_rename env = No_Fault"
      "fst (write_file (pv_cert env) (cert_temp env tls i) cert (fs, [])) = Inr ()"
      "fst (write_file (pv_key env) (key_temp env tls i) key
         (snd (write_file (pv_cert env) (cert_temp env tls i) cert (fs, [])))) = Inr ()"
    and second: "pv_cert_rename env = Fault e n"
  shows "\<not> is_ok r \<and> pair_files tls i (fst h) = (fs (cert_path tls i), Some key)"
proof -
  let ?ct = "cert_temp env tls i" and ?kt = "key_temp env tls i"
  obtain h1 where w1: "write_file (pv_cert env) ?ct cert (fs, []) = (Inr (), h1)"
    using first(3) by (metis prod.collapse)
  then obtain h2 where w2: "write_file (pv_key env) ?kt key h1 = (Inr (), h2)"
    using first(4) by (metis prod.collapse snd_conv)
  obtain s1 s2 where h: "h1 = (fst h1, s1)" "h2 = (fst h2, s2)" by (metis prod.collapse)
  have "fst h1 = fs(?ct \<mapsto> cert)" using write_file_result(1) w1 h(1) by metis
  moreover have "fst h2 = (fst h1)(?kt \<mapsto> key)" using write_file_result(1) w2 h by metis
  ultimately have f2: "h2 = (fs(?ct \<mapsto> cert, ?kt \<mapsto> key), s2)" using h(2) by simp
  have "save_certificate_pair env tls i cert key (fs, []) = replace_pair env tls i h2"
    using first(1) w1 w2 by (simp add: save_certificate_pair_def io_fault_def add_context_def)
  with run dist show ?thesis
    by (cases "pv_cert_remove env")
      (auto simp: f2 replace_pair_def replace_file_def fs_calls_def first(2) second remove_quietly_def
        pair_files_def pair_paths_def Let_def is_ok_iff split: if_splits)
qed

end
