(* ===== verification/Acme_Http01.thy ===== *)
theory Acme_Http01
  imports Http_Proxy Semaphores
begin

text \<open>
  \<open>src/acme/http01.rs\<close>: the listener on which the authority reads the answers to HTTP-01 challenges,
  with its table of published answers.  Sockets and the HTTP/1 driver are events of the environment.
\<close>

section \<open>Answers\<close>

type_synonym challenge_map = "string \<rightharpoonup> string"

definition challenge_prefix :: string where "challenge_prefix = ''/.well-known/acme-challenge/''"

definition connection_timeout :: duration where "connection_timeout = from_secs 10"

definition challenge_response :: "('h, 'm) http_lib_scheme \<Rightarrow> nat \<Rightarrow> bytes \<Rightarrow> 'h response \<times> bytes" where
  "challenge_response lib status body =
     (\<lparr> re_status = status, re_version = Http_11,
        re_headers = hm_insert lib (hm_empty lib) ''content-type'' ''application/octet-stream'' \<rparr>, body)"

definition valid_token :: "string \<Rightarrow> bool" where
  "valid_token tok \<longleftrightarrow> tok \<noteq> [] \<and> CHR ''/'' \<notin> set tok"

definition challenge_request ::
  "('h, 'm) http_lib_scheme \<Rightarrow> 'h request \<Rightarrow> challenge_map \<Rightarrow> 'h response \<times> bytes"
where
  "challenge_request lib request challenges =
     (if rq_method request \<noteq> ''GET'' then challenge_response lib 405 ''method not allowed\<newline>''
      else case strip_prefix challenge_prefix (u_path (rq_uri request)) of
        None \<Rightarrow> challenge_response lib 404 ''not found\<newline>''
      | Some tok \<Rightarrow>
        (if tok = [] \<or> CHR ''/'' \<in> set tok then challenge_response lib 404 ''not found\<newline>''
         else case challenges tok of
           Some key_authorization \<Rightarrow> challenge_response lib 200 key_authorization
         | None \<Rightarrow> challenge_response lib 404 ''not found\<newline>''))"

definition publish_challenge :: "string \<Rightarrow> string \<Rightarrow> challenge_map \<Rightarrow> challenge_map" where
  "publish_challenge tok key_authorization challenges = challenges(tok \<mapsto> key_authorization)"

definition remove_challenge :: "string \<Rightarrow> challenge_map \<Rightarrow> challenge_map" where
  "remove_challenge tok challenges = challenges(tok := None)"

declare challenge_prefix_def [eval_simps] challenge_response_def [eval_simps] valid_token_def [eval_simps]
  challenge_request_def [eval_simps] publish_challenge_def [eval_simps] remove_challenge_def [eval_simps]

text \<open>Only a published answer is ever given, and it is given for its own token.\<close>

lemma challenge_request_ok:
  "re_status (fst (challenge_request lib request challenges)) = 200 \<longleftrightarrow>
     rq_method request = ''GET'' \<and>
     (\<exists>tok. u_path (rq_uri request) = challenge_prefix @ tok \<and> valid_token tok \<and> challenges tok \<noteq> None)"
  by (auto simp: challenge_request_def challenge_response_def valid_token_def split: option.splits)

lemma challenge_request_body:
  "rq_method request = ''GET'' \<Longrightarrow> u_path (rq_uri request) = challenge_prefix @ tok \<Longrightarrow> valid_token tok \<Longrightarrow>
     challenges tok = Some answer \<Longrightarrow> challenge_request lib request challenges = challenge_response lib 200 answer"
  by (simp add: challenge_request_def valid_token_def)

section \<open>The listener\<close>

text \<open>
  One round of \<open>select!\<close> looks at the cancellation first, then at connections that ended, then at new
  ones.  A connection task gives its permit back when it ends, at the latest after \<open>connection_timeout\<close>,
  and is collected later.
\<close>

datatype listener_phase = Accepting | Draining | Stopped

record 's http01_server =
  hs_challenges :: challenge_map
  hs_capacity :: 's
  hs_cancelled :: bool
  hs_phase :: listener_phase
  hs_serving :: nat
  hs_ended :: nat

definition http01_capacity :: nat where "http01_capacity = 128"

definition http01_start :: "'s sem_lib \<Rightarrow> 's http01_server" where
  "http01_start sem =
     \<lparr> hs_challenges = Map.empty, hs_capacity = sem_new sem http01_capacity, hs_cancelled = False,
       hs_phase = Accepting, hs_serving = 0, hs_ended = 0 \<rparr>"

definition http01_accept :: "'s sem_lib \<Rightarrow> 's http01_server \<Rightarrow> 's http01_server" where
  "http01_accept sem s =
     (case sem_try_acquire sem (hs_capacity s) of
        None \<Rightarrow> s
      | Some capacity \<Rightarrow> s\<lparr>hs_capacity := capacity, hs_serving := hs_serving s + 1\<rparr>)"

inductive http01_step :: "'s sem_lib \<Rightarrow> 's http01_server \<Rightarrow> 's http01_server \<Rightarrow> bool" for sem where
  Http01_Break: "hs_phase s = Accepting \<Longrightarrow> hs_cancelled s \<Longrightarrow> http01_step sem s (s\<lparr>hs_phase := Draining\<rparr>)"
| Http01_Join: "hs_phase s = Accepting \<Longrightarrow> \<not> hs_cancelled s \<Longrightarrow> 0 < hs_ended s \<Longrightarrow>
    http01_step sem s (s\<lparr>hs_ended := hs_ended s - 1\<rparr>)"
| Http01_Accept: "hs_phase s = Accepting \<Longrightarrow> \<not> hs_cancelled s \<Longrightarrow> hs_ended s = 0 \<Longrightarrow>
    http01_step sem s (http01_accept sem s)"
| Http01_Accept_Failed: "hs_phase s = Accepting \<Longrightarrow> \<not> hs_cancelled s \<Longrightarrow> hs_ended s = 0 \<Longrightarrow> http01_step sem s s"
| Http01_Connection_End: "0 < hs_serving s \<Longrightarrow>
    http01_step sem s (s\<lparr>hs_capacity := sem_release sem (hs_capacity s), hs_serving := hs_serving s - 1,
      hs_ended := hs_ended s + 1\<rparr>)"
| Http01_Drain: "hs_phase s = Draining \<Longrightarrow> 0 < hs_ended s \<Longrightarrow> http01_step sem s (s\<lparr>hs_ended := hs_ended s - 1\<rparr>)"
| Http01_Stop: "hs_phase s = Draining \<Longrightarrow> hs_serving s = 0 \<Longrightarrow> hs_ended s = 0 \<Longrightarrow>
    http01_step sem s (s\<lparr>hs_phase := Stopped\<rparr>)"
| Http01_Publish: "http01_step sem s (s\<lparr>hs_challenges := publish_challenge tok answer (hs_challenges s)\<rparr>)"
| Http01_Remove: "http01_step sem s (s\<lparr>hs_challenges := remove_challenge tok (hs_challenges s)\<rparr>)"
| Http01_Cancel: "http01_step sem s (s\<lparr>hs_cancelled := True\<rparr>)"

inductive_cases http01_stepE: "http01_step sem s t"

definition http01_inv :: "'s sem_lib \<Rightarrow> 's http01_server \<Rightarrow> bool" where
  "http01_inv sem s \<longleftrightarrow>
     sem_available sem (hs_capacity s) + hs_serving s = http01_capacity \<and>
     (hs_phase s = Stopped \<longrightarrow> hs_serving s = 0 \<and> hs_ended s = 0) \<and>
     (hs_phase s \<noteq> Accepting \<longrightarrow> hs_cancelled s)"

context semaphore begin

lemma http01_inv_start: "http01_inv sem (http01_start sem)"
  by (simp add: http01_inv_def http01_start_def)

lemma http01_inv_step: "http01_step sem s t \<Longrightarrow> http01_inv sem s \<Longrightarrow> http01_inv sem t"
proof (induction rule: http01_step.induct)
  case (Http01_Accept s)
  then show ?case
    using try_acquire_Some [of "hs_capacity s"]
    by (auto simp: http01_inv_def http01_accept_def split: option.splits)
qed (auto simp: http01_inv_def)

theorem http01_inv_reachable: "(http01_step sem)\<^sup>*\<^sup>* (http01_start sem) s \<Longrightarrow> http01_inv sem s"
  by (induction rule: rtranclp_induct) (auto intro: http01_inv_start http01_inv_step)

end

text \<open>
  After the cancellation the loop can always be driven to its end: every connection ends, by its own or
  by the timeout, and is collected.  The measure counts what is left to do.
\<close>

definition http01_left :: "'s http01_server \<Rightarrow> nat" where
  "http01_left s = (case hs_phase s of Accepting \<Rightarrow> 2 | Draining \<Rightarrow> 1 | Stopped \<Rightarrow> 0) + 2 * hs_serving s + hs_ended s"

lemma http01_drains:
  "hs_cancelled s \<Longrightarrow> http01_inv sem s \<Longrightarrow> semaphore sem \<Longrightarrow> \<exists>t. (http01_step sem)\<^sup>*\<^sup>* s t \<and> hs_phase t = Stopped"
proof (induction "http01_left s" arbitrary: s rule: less_induct)
  case less
  have continue: ?case if step: "http01_step sem s t" and "hs_cancelled t" "http01_left t < http01_left s" for t
  proof -
    have "http01_inv sem t" by (rule semaphore.http01_inv_step [OF less.prems(3) step less.prems(2)])
    from less.hyps [OF that(3,2) this less.prems(3)] obtain u
      where "(http01_step sem)\<^sup>*\<^sup>* t u" "hs_phase u = Stopped" by blast
    with step show ?thesis by (meson converse_rtranclp_into_rtranclp)
  qed
  show ?case
  proof (cases "hs_serving s = 0")
    case False
    then have "0 < hs_serving s" by simp
    from http01_step.Http01_Connection_End [OF this] show ?thesis
      by (rule continue) (use False in \<open>auto simp: http01_left_def less.prems(1)\<close>)
  next
    case idle: True
    show ?thesis
    proof (cases "hs_phase s")
      case Accepting
      from http01_step.Http01_Break [OF this less.prems(1)] show ?thesis
        by (rule continue) (auto simp: http01_left_def less.prems(1) Accepting)
    next
      case Draining
      show ?thesis
      proof (cases "hs_ended s = 0")
        case True
        from http01_step.Http01_Stop [OF Draining idle True] show ?thesis
          by (rule continue) (auto simp: http01_left_def less.prems(1) Draining)
      next
        case False
        then have "0 < hs_ended s" by simp
        from http01_step.Http01_Drain [OF Draining this] show ?thesis
          by (rule continue) (use False in \<open>auto simp: http01_left_def less.prems(1) Draining\<close>)
      qed
    qed blast
  qed
qed

end
