(* ===== verification/Acme_Manager.thy ===== *)
theory Acme_Manager
  imports Acme_Storage Acme_Http01 Observability "HOL-Library.Sublist"
begin

text \<open>
  \<open>src/acme/manager.rs\<close>: which certificates are due, how one is ordered, validated, stored and activated,
  and when the next cycle runs.  The protocol client, the clocks and the calls of the operating system
  are answers of the environment.
\<close>

section \<open>Times\<close>

text \<open>\<open>i64\<close> values are integers; the saturation is written out.\<close>

definition i64_max :: int where "i64_max = 9223372036854775807"
definition i64_min :: int where "i64_min = - 9223372036854775808"

definition sat_i64 :: "int \<Rightarrow> int" where
  "sat_i64 x = max i64_min (min i64_max x)"

definition i64_try_from :: "nat \<Rightarrow> int option" where
  "i64_try_from n = (if int n \<le> i64_max then Some (int n) else None)"

definition unwrap_or :: "'a \<Rightarrow> 'a option \<Rightarrow> 'a" where
  "unwrap_or d x = (case x of None \<Rightarrow> d | Some v \<Rightarrow> v)"

text \<open>The argument is the whole seconds since the epoch, or \<open>None\<close> for a clock before it.\<close>

definition unix_now :: "nat option \<Rightarrow> int" where
  "unix_now clock = (case clock of None \<Rightarrow> 0 | Some secs \<Rightarrow> unwrap_or i64_max (i64_try_from secs))"

definition acme_failure_retry_delay :: "nat \<Rightarrow> duration \<Rightarrow> duration" where
  "acme_failure_retry_delay failure_streak normal_interval =
     (let retry =
        (if failure_streak = 0 \<or> failure_streak = 1 then from_secs (5 * 60)
         else if failure_streak = 2 then from_secs (15 * 60)
         else if failure_streak = 3 then from_secs (60 * 60)
         else from_secs (3 * 60 * 60))
      in min retry normal_interval)"

definition fnv1a :: "string \<Rightarrow> u64" where
  "fnv1a cert_id =
     foldl (\<lambda>hash c. (hash XOR word_of_nat (byte c)) * 0x100000001b3) 0xcbf29ce484222325 cert_id"

definition renewal_target :: "int \<Rightarrow> int \<Rightarrow> string \<Rightarrow> int" where
  "renewal_target start end_time cert_id =
     (let span = sat_i64 (end_time - start) in
      if span \<le> 1 then start
      else sat_i64 (start + unwrap_or 0 (i64_try_from (unat (fnv1a cert_id mod word_of_int span)))))"

declare i64_max_def [eval_simps] i64_min_def [eval_simps] sat_i64_def [eval_simps] i64_try_from_def [eval_simps]
  unwrap_or_def [eval_simps] unix_now_def [eval_simps] acme_failure_retry_delay_def [eval_simps]
  fnv1a_def [eval_simps] renewal_target_def [eval_simps]

definition is_i64 :: "int \<Rightarrow> bool" where
  "is_i64 x \<longleftrightarrow> i64_min \<le> x \<and> x \<le> i64_max"

lemma sat_i64_id [simp]: "is_i64 x \<Longrightarrow> sat_i64 x = x"
  by (simp add: is_i64_def sat_i64_def)

lemma is_i64_sat: "is_i64 (sat_i64 x)"
  by (simp add: is_i64_def sat_i64_def i64_max_def i64_min_def)

lemma unix_now_range: "0 \<le> unix_now clock" "is_i64 (unix_now clock)"
  by (auto simp: unix_now_def unwrap_or_def i64_try_from_def is_i64_def i64_min_def i64_max_def split: option.splits)

text \<open>The target lies in the window, also when the window is empty, reversed or wider than an \<open>i64\<close>.\<close>

lemma renewal_target_in_window:
  assumes "is_i64 start" "is_i64 end_time"
  shows "start \<le> renewal_target start end_time i"
    and "start < end_time \<Longrightarrow> renewal_target start end_time i < end_time"
    and "is_i64 (renewal_target start end_time i)"
proof -
  define span where "span = sat_i64 (end_time - start)"
  define off where "off = unat (fnv1a i mod word_of_int span)"
  have "start \<le> renewal_target start end_time i \<and>
      (start < end_time \<longrightarrow> renewal_target start end_time i < end_time) \<and> is_i64 (renewal_target start end_time i)"
  proof (cases "span \<le> 1")
    case True
    then have "renewal_target start end_time i = start" by (simp add: renewal_target_def span_def [symmetric])
    with assms show ?thesis by simp
  next
    case False
    have span: "1 < span" "span \<le> i64_max" using False is_i64_sat [of "end_time - start"] by (auto simp: span_def is_i64_def)
    then have window: "span \<le> end_time - start"
      by (auto simp: span_def sat_i64_def i64_min_def i64_max_def split: if_splits)
    have unat_span: "unat (word_of_int span :: u64) = nat span"
    proof -
      have "uint (word_of_int span :: u64) = span"
        using span by (simp add: uint_word_of_int i64_max_def)
      then show ?thesis by (simp only: unat_eq_nat_uint)
    qed
    have "off = unat (fnv1a i) mod nat span" by (simp add: off_def unat_mod unat_span)
    then have off: "int off < span" using span(1) by (simp add: zmod_int)
    then have "int off \<le> i64_max" using span(2) by simp
    then have target: "renewal_target start end_time i = sat_i64 (start + int off)"
      using False by (simp add: renewal_target_def span_def [symmetric] off_def [symmetric] i64_try_from_def unwrap_or_def)
    have "is_i64 (start + int off)" using assms off window by (simp add: is_i64_def)
    with target off window show ?thesis by simp
  qed
  then show "start \<le> renewal_target start end_time i"
    "start < end_time \<Longrightarrow> renewal_target start end_time i < end_time" "is_i64 (renewal_target start end_time i)" by blast+
qed

text \<open>A window that is empty or reversed is its start.\<close>

lemma renewal_target_reversed:
  assumes "is_i64 start" "is_i64 end_time" "end_time \<le> start"
  shows "renewal_target start end_time i = start"
proof -
  have "sat_i64 (end_time - start) \<le> 1" using assms(3) by (simp add: sat_i64_def i64_max_def i64_min_def)
  then show ?thesis by (simp add: renewal_target_def)
qed

lemma acme_failure_retry_delay_bounds:
  "acme_failure_retry_delay n interval \<le> interval" "acme_failure_retry_delay n interval \<le> from_secs (3 * 60 * 60)"
  "min (from_secs (5 * 60)) interval \<le> acme_failure_retry_delay n interval"
  "m \<le> n \<Longrightarrow> acme_failure_retry_delay m interval \<le> acme_failure_retry_delay n interval"
  by (auto simp: acme_failure_retry_delay_def Let_def min_le_iff_disj)

section \<open>The account\<close>

record acme_lib =
  al_certificate_id :: "bytes \<Rightarrow> string option"
  al_directory :: "acme_environment \<Rightarrow> string"

text \<open>
  The manager with what it works on: the files with their history, the challenges of the listener of the
  running batch, and a record of what it told the authority, in order.
\<close>

datatype acme_event =
    Ordered string "string list" "string option"
  | Told_Ready string string challenge_map
  | Activated string

record acme_manager =
  am_config :: acme_config
  am_tls :: tls_config
  am_store :: certificate_store
  am_account :: "string option"
  am_files :: fs_history
  am_http01 :: "challenge_map option"
  am_log :: "acme_event list"

definition acme_manager_new :: "acme_config \<Rightarrow> tls_config \<Rightarrow> certificate_store \<Rightarrow> fs \<Rightarrow> acme_manager" where
  "acme_manager_new config tls store fs =
     \<lparr> am_config = config, am_tls = tls, am_store = store, am_account = None, am_files = (fs, []),
       am_http01 = None, am_log = [] \<rparr>"

record account_calls =
  ao_builder :: "string + unit"
  ao_read_fault :: "io_error option"
  ao_restore :: "string \<Rightarrow> string + string"
  ao_create :: "string list \<Rightarrow> string \<Rightarrow> string + string \<times> string"
  ao_json :: account_json
  ao_env :: account_env

text \<open>A call on the files, with the file systems it went through added to the history.\<close>

definition recorded :: "(fs_history \<Rightarrow> 'r \<times> fs_history) \<Rightarrow> fs_history \<Rightarrow> 'r \<times> fs_history" where
  "recorded call h = (case call (fst h, []) of (r, fs, new) \<Rightarrow> (r, fs, new @ snd h))"

definition account_path :: "acme_config \<Rightarrow> path" where
  "account_path config =
     path_join (ac_state_dir config)
       (''letsencrypt-'' @ (case ac_environment config of Acme_Production \<Rightarrow> ''production'' | Acme_Staging \<Rightarrow> ''staging'')
        @ ''-account.json'')"

definition directory_url :: "acme_lib \<Rightarrow> acme_config \<Rightarrow> string" where
  "directory_url al config = al_directory al (ac_environment config)"

definition account_contacts :: "acme_config \<Rightarrow> string list" where
  "account_contacts config =
     (let contact = (case ac_email config of None \<Rightarrow> [] | Some email \<Rightarrow> ''mailto:'' @ email)
      in if contact = [] then [] else [contact])"

definition new_account :: "acme_lib \<Rightarrow> account_calls \<Rightarrow> acme_manager \<Rightarrow> (anyhow + string) \<times> acme_manager" where
  "new_account al ao m =
     (case add_context ''failed to create Let's Encrypt ACME account''
         (one_error (ao_create ao (account_contacts (am_config m)) (directory_url al (am_config m)))) of
        Inl e \<Rightarrow> (Inl e, m)
      | Inr (account, credentials) \<Rightarrow>
        (case recorded (save_account (ao_json ao) (ao_env ao) (account_path (am_config m)) credentials) (am_files m) of
           (Inl e, files) \<Rightarrow> (Inl e, m\<lparr>am_files := files\<rparr>)
         | (Inr _, files) \<Rightarrow> (Inr account, m\<lparr>am_files := files, am_account := Some account\<rparr>)))"

definition ensure_account :: "acme_lib \<Rightarrow> account_calls \<Rightarrow> acme_manager \<Rightarrow> (anyhow + string) \<times> acme_manager" where
  "ensure_account al ao m =
     (case am_account m of
        Some account \<Rightarrow> (Inr account, m)
      | None \<Rightarrow>
        (case and_then (add_context ''failed to create ACME HTTP client'' (one_error (ao_builder ao)))
            (\<lambda>_. load_account (ao_json ao) (ao_read_fault ao) (account_path (am_config m)) (fst (am_files m))) of
           Inl e \<Rightarrow> (Inl e, m)
         | Inr None \<Rightarrow> new_account al ao m
         | Inr (Some credentials) \<Rightarrow>
           (case add_context ''failed to restore ACME account'' (one_error (ao_restore ao credentials)) of
              Inl e \<Rightarrow> (Inl e, m)
            | Inr account \<Rightarrow> (Inr account, m\<lparr>am_account := Some account\<rparr>))))"

section \<open>Which certificates are due\<close>

definition domains_match :: "certificate_metadata \<Rightarrow> acme_certificate_config \<Rightarrow> bool" where
  "domains_match metadata desired \<longleftrightarrow>
     set (filter (\<lambda>name. \<not> starts_with name ''*.'') (cm_dns_names metadata)) = set (cc_domains desired)"

text \<open>What the authority suggests as renewal window; the two clocks are read at different times.\<close>

datatype ari_answer = Ari_Window int int | Ari_Unsupported | Ari_Error

record due_env =
  du_renewal_info :: "string \<Rightarrow> ari_answer"
  du_ari_clock :: "nat option"
  du_expiry_clock :: "nat option"

definition ari_decision :: "acme_lib \<Rightarrow> due_env \<Rightarrow> certificate_metadata \<Rightarrow> string \<Rightarrow> bool option" where
  "ari_decision al env metadata i =
     (case al_certificate_id al (cm_leaf_certificate metadata) of
        None \<Rightarrow> None
      | Some cert_id \<Rightarrow>
        (case du_renewal_info env cert_id of
           Ari_Window start end_time \<Rightarrow>
             if start < end_time then Some (renewal_target start end_time i \<le> unix_now (du_ari_clock env)) else None
         | Ari_Unsupported \<Rightarrow> None
         | Ari_Error \<Rightarrow> None))"

definition should_issue :: "acme_lib \<Rightarrow> due_env \<Rightarrow> acme_manager \<Rightarrow> acme_certificate_config \<Rightarrow> bool" where
  "should_issue al env m desired =
     (case store_metadata (am_store m) (cc_id desired) of
        None \<Rightarrow> True
      | Some metadata \<Rightarrow>
          if \<not> domains_match metadata desired then True
          else case ari_decision al env metadata (cc_id desired) of
            Some decision \<Rightarrow> decision
          | None \<Rightarrow>
            (let fallback_seconds = unwrap_or i64_max (i64_try_from (as_secs (ac_fallback_renew_before (am_config m))))
             in sat_i64 (cm_not_after_unix metadata - unix_now (du_expiry_clock env)) \<le> fallback_seconds))"

section \<open>Challenges\<close>

datatype authorization_status = Auth_Valid | Auth_Pending | Auth_Other string

record challenge =
  ch_token :: string
  ch_key_authorization :: string
  ch_bind :: "io_error option"
  ch_local_addr :: "io_error option"
  ch_set_ready :: "string + unit"

record authorization =
  az_status :: authorization_status
  az_challenge :: "challenge option"

text \<open>\<open>Display\<close> of a \<open>SocketAddr\<close>.\<close>

definition show_socket_addr :: "socket_addr \<Rightarrow> string" where
  "show_socket_addr a =
     (case sa_ip a of V4 _ \<Rightarrow> show_ip (sa_ip a) | V6 _ \<Rightarrow> ''['' @ show_ip (sa_ip a) @ '']'') @ '':'' @ show_nat (sa_port a)"

definition http01_bind :: "socket_addr \<Rightarrow> challenge \<Rightarrow> anyhow + unit" where
  "http01_bind listen ch =
     and_then (add_context (''failed to bind ACME HTTP-01 listener on '' @ show_socket_addr listen) (io_fault (ch_bind ch)))
       (\<lambda>_. add_context ''failed to read ACME HTTP-01 listener address'' (io_fault (ch_local_addr ch)))"

text \<open>The listener is started at the first challenge of a batch.\<close>

definition ensure_http01 :: "challenge \<Rightarrow> acme_manager \<Rightarrow> anyhow + challenge_map" where
  "ensure_http01 ch m =
     (case am_http01 m of
        Some challenges \<Rightarrow> Inr challenges
      | None \<Rightarrow> and_then (http01_bind (ac_http01_listen (am_config m)) ch) (\<lambda>_. Inr Map.empty))"

definition answer_challenge ::
  "authorization \<Rightarrow> string list \<Rightarrow> acme_manager \<Rightarrow> (anyhow + unit) \<times> string list \<times> acme_manager"
where
  "answer_challenge auth published m =
     (case az_challenge auth of
        None \<Rightarrow> (bail ''ACME authorization has no HTTP-01 challenge'', published, m)
      | Some ch \<Rightarrow>
          if \<not> valid_token (ch_token ch) then (bail ''ACME server returned an invalid HTTP-01 token'', published, m)
          else case ensure_http01 ch m of
            Inl e \<Rightarrow> (Inl e, published, m)
          | Inr challenges \<Rightarrow>
            (let challenges = publish_challenge (ch_token ch) (ch_key_authorization ch) challenges
             in (add_context ''failed to mark ACME HTTP-01 challenge ready'' (one_error (ch_set_ready ch)),
                 published @ [ch_token ch],
                 m\<lparr>am_http01 := Some challenges,
                   am_log := am_log m @ [Told_Ready (ch_token ch) (ch_key_authorization ch) challenges]\<rparr>)))"

fun authorize ::
  "(string + authorization) list \<Rightarrow> string list \<Rightarrow> acme_manager \<Rightarrow> (anyhow + unit) \<times> string list \<times> acme_manager"
where
  "authorize [] published m = (Inr (), published, m)"
| "authorize (result # rest) published m =
     (case add_context ''failed to load ACME authorization'' (one_error result) of
        Inl e \<Rightarrow> (Inl e, published, m)
      | Inr auth \<Rightarrow>
        (case az_status auth of
           Auth_Valid \<Rightarrow> authorize rest published m
         | Auth_Other status \<Rightarrow> (bail (''unexpected ACME authorization status '' @ status), published, m)
         | Auth_Pending \<Rightarrow>
           (case answer_challenge auth published m of
              (Inl e, published, m) \<Rightarrow> (Inl e, published, m)
            | (Inr _, published, m) \<Rightarrow> authorize rest published m)))"

section \<open>One certificate\<close>

type_synonym acme_order = "string list \<times> string option"

datatype order_status = Order_Ready | Order_Other string

record issue_env =
  ie_new_order :: "acme_order \<Rightarrow> string + unit"
  ie_authorizations :: "(string + authorization) list"
  ie_poll_ready :: "string + order_status"
  ie_finalize :: "string + bytes"
  ie_poll_certificate :: "string + bytes"
  ie_pair :: pair_env
  ie_scan :: tls_env

text \<open>The certificate and the key of a validated order.\<close>

definition obtain_pair :: "issue_env \<Rightarrow> anyhow + bytes \<times> bytes" where
  "obtain_pair env =
     and_then (add_context ''failed while waiting for ACME authorizations'' (one_error (ie_poll_ready env))) (\<lambda>status.
     case status of
       Order_Other s \<Rightarrow> bail (''unexpected ACME order status after validation: '' @ s)
     | Order_Ready \<Rightarrow>
       and_then (add_context ''failed to finalize ACME order'' (one_error (ie_finalize env))) (\<lambda>private_key_pem.
       and_then (add_context ''failed while waiting for ACME certificate'' (one_error (ie_poll_certificate env)))
         (\<lambda>certificate_pem.
       Inr (certificate_pem, private_key_pem))))"

definition validate_candidate ::
  "x509_lib \<Rightarrow> acme_manager \<Rightarrow> acme_certificate_config \<Rightarrow> bytes \<times> bytes \<Rightarrow> anyhow + certificate_metadata"
where
  "validate_candidate lib m desired = (\<lambda>(certificate_pem, private_key_pem).
     and_then (add_context (''issued certificate '' @ debug_str (cc_id desired) @ '' failed pre-activation TLS validation'')
         (validate_replacement lib (am_store m) (cc_id desired) certificate_pem private_key_pem)) (\<lambda>candidate.
     if domains_match candidate desired then Inr candidate
     else bail (''issued certificate SANs do not match configured domains for '' @ debug_str (cc_id desired))))"

definition activate ::
  "x509_lib \<Rightarrow> issue_env \<Rightarrow> acme_certificate_config \<Rightarrow> bytes \<times> bytes \<Rightarrow> acme_manager \<Rightarrow> (anyhow + unit) \<times> acme_manager"
where
  "activate lib env desired pair m =
     (case validate_candidate lib m desired pair of
        Inl e \<Rightarrow> (Inl e, m)
      | Inr _ \<Rightarrow>
        (case recorded (save_certificate_pair (ie_pair env) (am_tls m) (cc_id desired) (fst pair) (snd pair)) (am_files m) of
           (Inl e, files) \<Rightarrow> (Inl e, m\<lparr>am_files := files\<rparr>)
         | (Inr _, files) \<Rightarrow>
           (case store_reload lib (ie_scan env) (fst files) (am_store m) of
              (Inl e, store) \<Rightarrow>
                (Inl ((''new certificate '' @ debug_str (cc_id desired) @ '' could not be published to the TLS store'') # e),
                 m\<lparr>am_files := files, am_store := store\<rparr>)
            | (Inr _, store) \<Rightarrow>
                (Inr (), m\<lparr>am_files := files, am_store := store, am_log := am_log m @ [Activated (cc_id desired)]\<rparr>))))"

definition order_of :: "acme_lib \<Rightarrow> acme_manager \<Rightarrow> acme_certificate_config \<Rightarrow> acme_order" where
  "order_of al m desired =
     (cc_domains desired,
      Option.bind (store_metadata (am_store m) (cc_id desired)) (\<lambda>metadata. al_certificate_id al (cm_leaf_certificate metadata)))"

definition remove_published :: "string list \<Rightarrow> acme_manager \<Rightarrow> acme_manager" where
  "remove_published published m = m\<lparr>am_http01 := map_option (fold remove_challenge published) (am_http01 m)\<rparr>"

definition issue_certificate ::
  "acme_lib \<Rightarrow> x509_lib \<Rightarrow> issue_env \<Rightarrow> acme_certificate_config \<Rightarrow> acme_manager \<Rightarrow> (anyhow + unit) \<times> acme_manager"
where
  "issue_certificate al lib env desired m =
     (let order = order_of al m desired;
          m = m\<lparr>am_log := am_log m @ [Ordered (cc_id desired) (fst order) (snd order)]\<rparr>
      in case add_context (''failed to create ACME order for '' @ debug_str (cc_id desired)) (one_error (ie_new_order env order)) of
           Inl e \<Rightarrow> (Inl e, m)
         | Inr _ \<Rightarrow>
           (case authorize (ie_authorizations env) [] m of
              (Inl e, published, m) \<Rightarrow> (Inl e, remove_published published m)
            | (Inr _, published, m) \<Rightarrow>
              (case (case obtain_pair env of Inl e \<Rightarrow> (Inl e, m) | Inr pair \<Rightarrow> activate lib env desired pair m) of
                 (result, m) \<Rightarrow> (result, remove_published published m))))"

section \<open>A cycle\<close>

definition anyhow_display :: "anyhow \<Rightarrow> string" where
  "anyhow_display e = (case e of [] \<Rightarrow> [] | outermost # _ \<Rightarrow> outermost)"

fun issue_all ::
  "acme_lib \<Rightarrow> x509_lib \<Rightarrow> (string \<Rightarrow> issue_env) \<Rightarrow> acme_certificate_config list \<Rightarrow> acme_manager
   \<Rightarrow> string list \<times> acme_manager"
where
  "issue_all al lib env [] m = ([], m)"
| "issue_all al lib env (certificate # due) m =
     (case issue_certificate al lib (env (cc_id certificate)) certificate m of
        (Inr _, m) \<Rightarrow> issue_all al lib env due m
      | (Inl e, m) \<Rightarrow>
        (case issue_all al lib env due m of
           (failures, m) \<Rightarrow> ((cc_id certificate @ '': '' @ anyhow_display e) # failures, m)))"

record cycle_env =
  cy_account :: account_calls
  cy_due :: "string \<Rightarrow> due_env"
  cy_issue :: "string \<Rightarrow> issue_env"

definition due_certificates :: "acme_lib \<Rightarrow> (string \<Rightarrow> due_env) \<Rightarrow> acme_manager \<Rightarrow> acme_certificate_config list" where
  "due_certificates al env m =
     filter (\<lambda>certificate. should_issue al (env (cc_id certificate)) m certificate) (ac_certificates (am_config m))"

definition run_cycle :: "acme_lib \<Rightarrow> x509_lib \<Rightarrow> cycle_env \<Rightarrow> acme_manager \<Rightarrow> (anyhow + unit) \<times> acme_manager" where
  "run_cycle al lib env m =
     (if \<not> ac_enabled (am_config m) then (Inr (), m)
      else case ensure_account al (cy_account env) m of
        (Inl e, m) \<Rightarrow> (Inl e, m)
      | (Inr _, m) \<Rightarrow>
        (let due = due_certificates al (cy_due env) m in
         if due = [] then (Inr (), m)
         else case issue_all al lib (cy_issue env) due m of
           (failures, m) \<Rightarrow>
             (if failures = [] then Inr ()
              else bail (''one or more ACME certificate operations failed: '' @ join ''; '' failures),
              m\<lparr>am_http01 := None\<rparr>)))"

definition bootstrap_if_store_empty ::
  "acme_lib \<Rightarrow> x509_lib \<Rightarrow> cycle_env \<Rightarrow> acme_manager \<Rightarrow> (anyhow + unit) \<times> acme_manager"
where
  "bootstrap_if_store_empty al lib env m =
     (if \<not> ac_enabled (am_config m) \<or> \<not> store_is_empty (am_store m) then (Inr (), m)
      else case run_cycle al lib env m of
        (result, m) \<Rightarrow>
          (if store_is_empty (am_store m)
           then and_then result (\<lambda>_. bail ''ACME bootstrap completed without producing a usable TLS certificate'')
           else Inr (), m))"

section \<open>The scheduler\<close>

text \<open>
  One round: the cancellation before the cycle has finished, or the answers the cycle gets; then the
  cancellation during the pause.  The pauses are what the scheduler yields.
\<close>

datatype scheduler_round = Cancelled_In_Cycle | Cycle_Then cycle_env bool

definition next_streak :: "nat \<Rightarrow> bool \<Rightarrow> nat" where
  "next_streak failure_streak cycle_succeeded = (if cycle_succeeded then 0 else sat_add32 failure_streak 1)"

definition cycle_pause :: "duration \<Rightarrow> nat \<Rightarrow> bool \<Rightarrow> duration" where
  "cycle_pause check_interval failure_streak cycle_succeeded =
     (if cycle_succeeded then check_interval else acme_failure_retry_delay failure_streak check_interval)"

fun acme_runtime ::
  "acme_lib \<Rightarrow> x509_lib \<Rightarrow> nat \<Rightarrow> scheduler_round list \<Rightarrow> acme_manager \<Rightarrow> (bool \<times> duration) list"
where
  "acme_runtime al lib failure_streak [] m = []"
| "acme_runtime al lib failure_streak (Cancelled_In_Cycle # rounds) m = []"
| "acme_runtime al lib failure_streak (Cycle_Then env cancelled # rounds) m =
     (case run_cycle al lib env m of
        (result, m) \<Rightarrow>
          (let streak = next_streak failure_streak (is_ok result) in
           (is_ok result, cycle_pause (ac_check_interval (am_config m)) streak (is_ok result))
             # (if cancelled then [] else acme_runtime al lib streak rounds m)))"

declare acme_manager_new_def [eval_simps] recorded_def [eval_simps] account_path_def [eval_simps] directory_url_def [eval_simps]
  account_contacts_def [eval_simps] new_account_def [eval_simps] ensure_account_def [eval_simps]
  domains_match_def [eval_simps] ari_decision_def [eval_simps] should_issue_def [eval_simps]
  show_socket_addr_def [eval_simps] http01_bind_def [eval_simps] ensure_http01_def [eval_simps]
  answer_challenge_def [eval_simps] obtain_pair_def [eval_simps] validate_candidate_def [eval_simps]
  activate_def [eval_simps] order_of_def [eval_simps] remove_published_def [eval_simps]
  issue_certificate_def [eval_simps] anyhow_display_def [eval_simps] due_certificates_def [eval_simps]
  run_cycle_def [eval_simps] bootstrap_if_store_empty_def [eval_simps] next_streak_def [eval_simps]
  cycle_pause_def [eval_simps]

section \<open>The order of a challenge\<close>

text \<open>What the authority is told is ready can be read on the listener at that moment.\<close>

definition live_challenges :: "acme_manager \<Rightarrow> challenge_map" where
  "live_challenges m = (case am_http01 m of None \<Rightarrow> Map.empty | Some challenges \<Rightarrow> challenges)"

fun answered :: "acme_event \<Rightarrow> bool" where
  "answered (Told_Ready tok answer challenges) \<longleftrightarrow> valid_token tok \<and> challenges tok = Some answer"
| "answered (Ordered i domains replaces) \<longleftrightarrow> True"
| "answered (Activated i) \<longleftrightarrow> True"

fun told_tokens :: "acme_event list \<Rightarrow> string list" where
  "told_tokens [] = []"
| "told_tokens (Told_Ready tok answer challenges # es) = tok # told_tokens es"
| "told_tokens (e # es) = told_tokens es"

lemma told_tokens_append [simp]: "told_tokens (xs @ ys) = told_tokens xs @ told_tokens ys"
  by (induction xs rule: told_tokens.induct) simp_all

lemma remove_challenges [simp]: "fold remove_challenge ts c k = (if k \<in> set ts then None else c k)"
  by (induction ts arbitrary: c) (auto simp: remove_challenge_def)

definition quiet_part :: "acme_manager \<Rightarrow> acme_config \<times> tls_config \<times> certificate_store \<times> string option \<times> fs_history" where
  "quiet_part m = (am_config m, am_tls m, am_store m, am_account m, am_files m)"

definition answers_since :: "acme_manager \<Rightarrow> acme_manager \<Rightarrow> string list \<Rightarrow> bool" where
  "answers_since m m' ts \<longleftrightarrow>
     quiet_part m' = quiet_part m \<and>
     (\<exists>new. am_log m' = am_log m @ new \<and> list_all answered new \<and> told_tokens new = ts \<and> length new = length ts) \<and>
     (\<forall>k. k \<notin> set ts \<longrightarrow> live_challenges m' k = live_challenges m k)"

lemma answers_since_refl: "answers_since m m []"
  by (simp add: answers_since_def)

lemma answers_since_trans: "answers_since m n ts \<Longrightarrow> answers_since n p us \<Longrightarrow> answers_since m p (ts @ us)"
  by (fastforce simp: answers_since_def)

lemma answer_challenge_since:
  assumes "answer_challenge auth published m = (r, published', m')"
  shows "\<exists>ts. published' = published @ ts \<and> answers_since m m' ts"
proof (cases "az_challenge auth")
  case None
  with assms show ?thesis by (auto simp: answer_challenge_def answers_since_refl)
next
  case ch: (Some ch)
  show ?thesis
  proof (cases "valid_token (ch_token ch) \<and> (\<exists>c. ensure_http01 ch m = Inr c)")
    case False
    with assms ch show ?thesis
      by (auto simp: answer_challenge_def answers_since_refl split: if_splits sum.splits)
  next
    case True
    then obtain c where ok: "valid_token (ch_token ch)" "ensure_http01 ch m = Inr c" by blast
    then have "c = live_challenges m"
      by (auto simp: ensure_http01_def live_challenges_def split: option.splits)
    with assms ch ok have "published' = published @ [ch_token ch]" "answers_since m m' [ch_token ch]"
      by (auto simp: answer_challenge_def Let_def answers_since_def quiet_part_def live_challenges_def
          publish_challenge_def)
    then show ?thesis by blast
  qed
qed

lemma authorize_since:
  "authorize results published m = (r, published', m') \<Longrightarrow> \<exists>ts. published' = published @ ts \<and> answers_since m m' ts"
proof (induction results arbitrary: published m)
  case Nil
  then show ?case by (simp add: answers_since_refl)
next
  case (Cons result rest)
  show ?case
  proof (cases "\<exists>auth. result = Inr auth \<and> az_status auth = Auth_Pending")
    case False
    with Cons show ?thesis
      by (auto simp: answers_since_refl add_context_def one_error_def split: sum.splits authorization_status.splits)
  next
    case True
    then obtain auth where auth: "result = Inr auth" "az_status auth = Auth_Pending" by blast
    obtain r1 p1 m1 where one: "answer_challenge auth published m = (r1, p1, m1)" by (metis surj_pair)
    from answer_challenge_since [OF this] obtain ts where ts: "p1 = published @ ts" "answers_since m m1 ts" by blast
    show ?thesis
    proof (cases r1)
      case (Inl e)
      with Cons.prems auth one ts show ?thesis by (auto simp: add_context_def one_error_def)
    next
      case (Inr u)
      with Cons.prems auth one have "authorize rest p1 m1 = (r, published', m')"
        by (auto simp: add_context_def one_error_def)
      from Cons.IH [OF this] ts show ?thesis by (auto intro: answers_since_trans)
    qed
  qed
qed

section \<open>Validated before written\<close>

text \<open>What an activation changes, and on what condition.\<close>

lemma activate_quiet:
  assumes "activate lib env desired pair m = (r, m')"
  shows "am_http01 m' = am_http01 m" "am_config m' = am_config m" "am_tls m' = am_tls m" "am_account m' = am_account m"
    "am_log m' = am_log m @ (if is_ok r then [Activated (cc_id desired)] else [])"
    "\<not> is_ok (validate_candidate lib m desired pair) \<Longrightarrow> \<not> is_ok r \<and> m' = m"
  using assms by (auto simp: activate_def split: sum.splits prod.splits)

lemma activate_files:
  assumes "activate lib env desired (cert, key) m = (r, m')"
    "distinct (pair_paths (ie_pair env) (am_tls m) (cc_id desired))"
  shows "\<exists>new. snd (am_files m') = new @ snd (am_files m) \<and>
    (\<forall>g \<in> set (fst (am_files m') # new).
       pair_observed (ie_pair env) (am_tls m) (cc_id desired) cert key (fst (am_files m)) g)"
proof (cases "is_ok (validate_candidate lib m desired (cert, key))")
  case False
  then have "m' = m" using activate_quiet(6) [OF assms(1)] by simp
  then show ?thesis by (auto simp: pair_observed_def)
next
  case True
  obtain r1 fs new where save: "save_certificate_pair (ie_pair env) (am_tls m) (cc_id desired) cert key
      (fst (am_files m), []) = (r1, fs, new)" by (metis surj_pair)
  have "am_files m' = (fs, new @ snd (am_files m))"
    using assms(1) True save by (auto simp: activate_def recorded_def is_ok_iff split: sum.splits prod.splits)
  with save_certificate_pair_states [OF assms(2) save] show ?thesis by (auto simp: trail_def)
qed

lemma issue_certificate_cases:
  assumes "issue_certificate al lib env desired m = (r, m')"
  obtains (refused) e where "ie_new_order env (order_of al m desired) = Inl e" "\<not> is_ok r"
      "m' = m\<lparr>am_log := am_log m @ [Ordered (cc_id desired) (fst (order_of al m desired)) (snd (order_of al m desired))]\<rparr>"
    | (failed) ts m1 where "ie_new_order env (order_of al m desired) = Inr ()"
      "answers_since (m\<lparr>am_log := am_log m @
         [Ordered (cc_id desired) (fst (order_of al m desired)) (snd (order_of al m desired))]\<rparr>) m1 ts"
      "\<not> is_ok r" "m' = remove_published ts m1"
    | (activated) ts m1 m2 pair where "ie_new_order env (order_of al m desired) = Inr ()"
      "answers_since (m\<lparr>am_log := am_log m @
         [Ordered (cc_id desired) (fst (order_of al m desired)) (snd (order_of al m desired))]\<rparr>) m1 ts"
      "obtain_pair env = Inr pair" "activate lib env desired pair m1 = (r, m2)" "m' = remove_published ts m2"
proof (cases "ie_new_order env (order_of al m desired)")
  case (Inl e)
  with assms show thesis by (intro refused) (auto simp: issue_certificate_def Let_def add_context_def one_error_def)
next
  case (Inr u)
  let ?m0 = "m\<lparr>am_log := am_log m @
    [Ordered (cc_id desired) (fst (order_of al m desired)) (snd (order_of al m desired))]\<rparr>"
  obtain r1 ts m1 where auth: "authorize (ie_authorizations env) [] ?m0 = (r1, ts, m1)" by (metis surj_pair)
  from authorize_since [OF this] have since: "answers_since ?m0 m1 ts" by auto
  have run: "issue_certificate al lib env desired m =
      (case r1 of Inl e \<Rightarrow> (Inl e, remove_published ts m1)
       | Inr _ \<Rightarrow> (case (case obtain_pair env of Inl e \<Rightarrow> (Inl e, m1) | Inr pair \<Rightarrow> activate lib env desired pair m1) of
           (result, m) \<Rightarrow> (result, remove_published ts m)))"
    using Inr auth by (simp add: issue_certificate_def Let_def add_context_def one_error_def split: sum.splits)
  show thesis
  proof (cases "is_ok r1 \<and> is_ok (obtain_pair env)")
    case False
    with run assms have "\<not> is_ok r \<and> m' = remove_published ts m1" by (auto split: sum.splits)
    with Inr since failed show thesis by simp
  next
    case True
    then obtain pair where "obtain_pair env = Inr pair" "r1 = Inr ()" by (auto simp: is_ok_iff)
    moreover obtain r2 m2 where "activate lib env desired pair m1 = (r2, m2)" by fastforce
    ultimately show thesis using Inr since run assms activated by simp
  qed
qed

fun ordered_ids :: "acme_event list \<Rightarrow> string list" where
  "ordered_ids [] = []"
| "ordered_ids (Ordered i domains replaces # es) = i # ordered_ids es"
| "ordered_ids (Told_Ready tok answer challenges # es) = ordered_ids es"
| "ordered_ids (Activated i # es) = ordered_ids es"

fun activated_ids :: "acme_event list \<Rightarrow> string list" where
  "activated_ids [] = []"
| "activated_ids (Activated i # es) = i # activated_ids es"
| "activated_ids (Told_Ready tok answer challenges # es) = activated_ids es"
| "activated_ids (Ordered i domains replaces # es) = activated_ids es"

lemma ids_append [simp]:
  "ordered_ids (xs @ ys) = ordered_ids xs @ ordered_ids ys" "activated_ids (xs @ ys) = activated_ids xs @ activated_ids ys"
  by (induction xs rule: ordered_ids.induct) simp_all

lemma told_tokens_length: "length (told_tokens es) \<le> length es"
  by (induction es rule: told_tokens.induct) simp_all

lemma only_told:
  "length (told_tokens es) = length es \<Longrightarrow> ordered_ids es = [] \<and> activated_ids es = []"
proof (induction es)
  case (Cons e es)
  then show ?case using told_tokens_length [of es] by (cases e) simp_all
qed simp

text \<open>
  What \<open>issue_certificate\<close> leaves behind: one order, every answer published before the authority was
  told, none of them left on the listener, and an activation exactly on success.
\<close>

definition issued :: "acme_certificate_config \<Rightarrow> bool \<Rightarrow> acme_manager \<Rightarrow> acme_manager \<Rightarrow> bool" where
  "issued desired ok m m' \<longleftrightarrow>
     am_config m' = am_config m \<and> am_tls m' = am_tls m \<and> am_account m' = am_account m \<and>
     (\<exists>new. am_log m' = am_log m @ new \<and> list_all answered new \<and>
        ordered_ids new = [cc_id desired] \<and> activated_ids new = (if ok then [cc_id desired] else []) \<and>
        (\<forall>k. live_challenges m' k = (if k \<in> set (told_tokens new) then None else live_challenges m k)))"

lemma live_remove_published:
  "live_challenges (remove_published ts m) k = (if k \<in> set ts then None else live_challenges m k)"
  by (simp add: live_challenges_def remove_published_def split: option.splits)

lemma issue_certificate_issued:
  assumes "issue_certificate al lib env desired m = (r, m')"
  shows "issued desired (is_ok r) m m'"
proof -
  let ?order = "order_of al m desired"
  let ?m0 = "m\<lparr>am_log := am_log m @ [Ordered (cc_id desired) (fst ?order) (snd ?order)]\<rparr>"
  have result: "issued desired ok m (remove_published ts m2)"
    if since: "answers_since ?m0 m1 ts" and m2: "am_http01 m2 = am_http01 m1" "am_config m2 = am_config m1"
      "am_tls m2 = am_tls m1" "am_account m2 = am_account m1"
      "am_log m2 = am_log m1 @ (if ok then [Activated (cc_id desired)] else [])" for ts m1 m2 ok
  proof -
    from since obtain new where new: "am_log m1 = am_log ?m0 @ new" "list_all answered new" "told_tokens new = ts"
      "length new = length ts" and live: "\<And>k. k \<notin> set ts \<Longrightarrow> live_challenges m1 k = live_challenges ?m0 k"
      and quiet: "quiet_part m1 = quiet_part ?m0" unfolding answers_since_def by blast
    let ?new = "Ordered (cc_id desired) (fst ?order) (snd ?order) # new @ (if ok then [Activated (cc_id desired)] else [])"
    have ids: "ordered_ids new = [] \<and> activated_ids new = []" using only_told new(3,4) by simp
    have "live_challenges m2 = live_challenges m1" using m2(1) by (simp add: live_challenges_def)
    moreover have "live_challenges ?m0 = live_challenges m" by (simp add: live_challenges_def)
    ultimately have removed: "live_challenges (remove_published ts m2) k = (if k \<in> set ts then None else live_challenges m k)" for k
      using live [of k] by (simp add: live_remove_published)
    have "am_log (remove_published ts m2) = am_log m @ ?new" "list_all answered ?new" "told_tokens ?new = ts"
      "ordered_ids ?new = [cc_id desired]" "activated_ids ?new = (if ok then [cc_id desired] else [])"
      using new ids m2(5) by (simp_all add: remove_published_def)
    with removed quiet m2 show ?thesis
      unfolding issued_def by (intro conjI exI [of _ ?new]) (auto simp: remove_published_def quiet_part_def)
  qed
  from assms show ?thesis
  proof (cases rule: issue_certificate_cases)
    case (refused e)
    have "remove_published [] ?m0 = ?m0" by (cases "am_http01 m") (simp_all add: remove_published_def)
    with result [OF answers_since_refl, of ?m0 False] refused show ?thesis by simp
  next
    case (failed ts m1)
    with result [OF failed(2), of m1 False] show ?thesis by simp
  next
    case (activated ts m1 m2 pair)
    from result [OF activated(2) activate_quiet(1-5) [OF activated(4)]] activated(5) show ?thesis by simp
  qed
qed

text \<open>Nothing of the store or of the files changes without a validated pair.\<close>

lemma issue_certificate_validated:
  assumes "issue_certificate al lib env desired m = (r, m')"
    and "am_files m' \<noteq> am_files m \<or> am_store m' \<noteq> am_store m \<or> is_ok r"
  obtains cert key candidate where "obtain_pair env = Inr (cert, key)"
    "validate_candidate lib m desired (cert, key) = Inr candidate"
proof -
  have same: "validate_candidate lib m1 desired pair = validate_candidate lib m desired pair \<and>
      am_files m1 = am_files m \<and> am_store m1 = am_store m"
    if "answers_since (m\<lparr>am_log := l\<rparr>) m1 ts" for m1 l ts pair
    using that by (auto simp: answers_since_def quiet_part_def validate_candidate_def)
  from assms(1) show thesis
  proof (cases rule: issue_certificate_cases)
    case (refused e)
    with assms(2) show thesis by simp
  next
    case (failed ts m1)
    with assms(2) same [OF failed(2)] show thesis by (simp add: remove_published_def)
  next
    case (activated ts m1 m2 pair)
    have "is_ok (validate_candidate lib m1 desired pair)"
    proof (rule ccontr)
      assume "\<not> is_ok (validate_candidate lib m1 desired pair)"
      from activate_quiet(6) [OF activated(4) this] assms(2) same [OF activated(2)] activated(5) show False
        by (simp add: remove_published_def)
    qed
    then show thesis
      using that activated(3) same [OF activated(2), of pair] by (cases pair) (auto simp: is_ok_iff)
  qed
qed

lemma validate_candidate_iff:
  "validate_candidate lib m desired (cert, key) = Inr candidate \<longleftrightarrow>
     validate_replacement lib (am_store m) (cc_id desired) cert key = Inr candidate \<and> domains_match candidate desired"
  by (auto simp: validate_candidate_def)

section \<open>All due certificates are tried\<close>

definition batch :: "string list \<Rightarrow> bool \<Rightarrow> acme_manager \<Rightarrow> acme_manager \<Rightarrow> bool" where
  "batch ids ok m m' \<longleftrightarrow>
     am_config m' = am_config m \<and> am_tls m' = am_tls m \<and> am_account m' = am_account m \<and>
     (\<forall>k. live_challenges m k = None \<longrightarrow> live_challenges m' k = None) \<and>
     (\<exists>new. am_log m' = am_log m @ new \<and> list_all answered new \<and> ordered_ids new = ids \<and>
        subseq (activated_ids new) ids \<and> (ok \<longleftrightarrow> activated_ids new = ids))"

lemma batch_step:
  assumes "issued certificate ok1 m m1" "batch ids ok2 m1 m2"
  shows "batch (cc_id certificate # ids) (ok1 \<and> ok2) m m2"
proof -
  from assms(1) obtain new1 where new1: "am_log m1 = am_log m @ new1" "list_all answered new1"
    "ordered_ids new1 = [cc_id certificate]" "activated_ids new1 = (if ok1 then [cc_id certificate] else [])"
    and live: "\<And>k. live_challenges m1 k = (if k \<in> set (told_tokens new1) then None else live_challenges m k)"
    unfolding issued_def by blast
  from assms(2) obtain new2 where new2: "am_log m2 = am_log m1 @ new2" "list_all answered new2"
    "ordered_ids new2 = ids" "subseq (activated_ids new2) ids" "ok2 \<longleftrightarrow> activated_ids new2 = ids"
    unfolding batch_def by blast
  have short: "activated_ids new2 \<noteq> cc_id certificate # ids"
  proof
    assume "activated_ids new2 = cc_id certificate # ids"
    with list_emb_length [OF new2(4)] show False by simp
  qed
  have "subseq (activated_ids (new1 @ new2)) (cc_id certificate # ids)"
    using new1(4) new2(4) by (cases ok1) auto
  moreover have "(ok1 \<and> ok2) \<longleftrightarrow> activated_ids (new1 @ new2) = cc_id certificate # ids"
    using new1(4) new2(5) short by (cases ok1) auto
  moreover have "live_challenges m k = None \<Longrightarrow> live_challenges m2 k = None" for k
    using live [of k] assms(2) by (simp add: batch_def)
  ultimately show ?thesis
    using assms new1 new2 unfolding batch_def issued_def by (intro conjI exI [of _ "new1 @ new2"]) auto
qed

lemma issue_all_batch:
  "issue_all al lib env due m = (failures, m') \<Longrightarrow> batch (map cc_id due) (failures = []) m m'"
proof (induction due arbitrary: m m' failures)
  case Nil
  then show ?case by (simp add: batch_def)
next
  case (Cons certificate due)
  obtain r1 m1 where one: "issue_certificate al lib (env (cc_id certificate)) certificate m = (r1, m1)" by fastforce
  obtain fs m2 where rest: "issue_all al lib env due m1 = (fs, m2)" by fastforce
  have "failures = [] \<longleftrightarrow> is_ok r1 \<and> fs = []" "m' = m2"
    using Cons.prems one rest by (auto split: sum.splits)
  with batch_step [OF issue_certificate_issued [OF one] Cons.IH [OF rest]] show ?case by simp
qed

lemma new_account_only:
  "new_account al ao m = (r, m') \<Longrightarrow>
     am_config m' = am_config m \<and> am_store m' = am_store m \<and> am_http01 m' = am_http01 m \<and> am_log m' = am_log m"
  by (auto simp: new_account_def split: sum.splits prod.splits)

lemma ensure_account_only:
  assumes "ensure_account al ao m = (r, m')"
  shows "am_config m' = am_config m" "am_store m' = am_store m" "am_http01 m' = am_http01 m" "am_log m' = am_log m"
proof -
  from assms consider "m' = m" | "new_account al ao m = (r, m')" | a where "m' = m\<lparr>am_account := a\<rparr>"
    by (auto simp: ensure_account_def split: option.splits sum.splits)
  then have "am_config m' = am_config m \<and> am_store m' = am_store m \<and> am_http01 m' = am_http01 m \<and> am_log m' = am_log m"
    using new_account_only by cases auto
  then show "am_config m' = am_config m" "am_store m' = am_store m" "am_http01 m' = am_http01 m" "am_log m' = am_log m"
    by blast+
qed

text \<open>
  A cycle orders every due certificate, in the order of the configuration, also after failures; it
  succeeds exactly if all were activated, and the listener is gone at its end.
\<close>

lemma run_cycle_batch:
  assumes "run_cycle al lib env m = (r, m')" "am_http01 m = None" "ac_enabled (am_config m)"
    and account: "ensure_account al (cy_account env) m = (Inr account, m1)"
  shows "am_http01 m' = None"
    and "\<exists>new. am_log m' = am_log m @ new \<and> list_all answered new \<and>
      ordered_ids new = map cc_id (due_certificates al (cy_due env) m) \<and>
      subseq (activated_ids new) (ordered_ids new) \<and> (is_ok r \<longleftrightarrow> activated_ids new = ordered_ids new)"
proof -
  note same = ensure_account_only [OF account]
  have due: "due_certificates al (cy_due env) m1 = due_certificates al (cy_due env) m"
    by (simp only: due_certificates_def should_issue_def same(1,2))
  obtain failures m2 where all: "issue_all al lib (cy_issue env) (due_certificates al (cy_due env) m) m1 = (failures, m2)"
    by fastforce
  from issue_all_batch [OF this] obtain new where new: "am_log m2 = am_log m1 @ new" "list_all answered new"
    "ordered_ids new = map cc_id (due_certificates al (cy_due env) m)"
    "subseq (activated_ids new) (ordered_ids new)" "failures = [] \<longleftrightarrow> activated_ids new = ordered_ids new"
    unfolding batch_def by metis
  consider (none) "due_certificates al (cy_due env) m = []" "r = Inr ()" "m' = m1"
    | (some) "is_ok r \<longleftrightarrow> failures = []" "m' = m2\<lparr>am_http01 := None\<rparr>"
    using assms(1,3) account due all
    by (cases "due_certificates al (cy_due env) m = []") (auto simp: run_cycle_def Let_def bail_def split: if_splits)
  then have "am_http01 m' = None \<and> (\<exists>new. am_log m' = am_log m @ new \<and> list_all answered new \<and>
      ordered_ids new = map cc_id (due_certificates al (cy_due env) m) \<and>
      subseq (activated_ids new) (ordered_ids new) \<and> (is_ok r \<longleftrightarrow> activated_ids new = ordered_ids new))"
  proof cases
    case none
    then show ?thesis using assms(2) same(3,4) by simp
  next
    case some
    then show ?thesis using new same(4) by simp
  qed
  then show "am_http01 m' = None" "\<exists>new. am_log m' = am_log m @ new \<and> list_all answered new \<and>
      ordered_ids new = map cc_id (due_certificates al (cy_due env) m) \<and>
      subseq (activated_ids new) (ordered_ids new) \<and> (is_ok r \<longleftrightarrow> activated_ids new = ordered_ids new)" by blast+
qed

section \<open>A validated certificate is activated\<close>

text \<open>
  The store is what the directory held, the order goes through, the pair is stored, and the directory is
  scanned again without faults and as it is: then the store has the new certificate for this id, and the
  old one for every other.
\<close>

definition store_current :: "x509_lib \<Rightarrow> tls_env \<Rightarrow> certificate_store \<Rightarrow> fs \<Rightarrow> certificate_pair list \<Rightarrow> bool" where
  "store_current lib env store fs pairs \<longleftrightarrow>
     load_index lib env (ce_config store) fs = Inr (ce_index store) \<and>
     discover_pairs env (ce_config store) = Inr pairs \<and> (\<forall>ps. mset (te_order env ps) = mset ps)"

definition scan_current ::
  "tls_env \<Rightarrow> tls_config \<Rightarrow> string \<Rightarrow> certificate_pair list \<Rightarrow> certificate_pair list \<Rightarrow> bool"
where
  "scan_current env config i pairs pairs' \<longleftrightarrow>
     no_read_faults env \<and> (\<forall>ps. mset (te_order env ps) = mset ps) \<and> discover_pairs env config = Inr pairs' \<and>
     set pairs' = insert (i, cert_path config i, key_path config i) {q \<in> set pairs. fst q \<noteq> i}"

definition others_apart :: "path list \<Rightarrow> string \<Rightarrow> certificate_pair list \<Rightarrow> bool" where
  "others_apart paths i pairs \<longleftrightarrow> list_all (\<lambda>(j, c, k). j = i \<or> c \<notin> set paths \<and> k \<notin> set paths) pairs"

lemma activate_loads:
  assumes store: "store_current lib env0 (am_store m) (fst (am_files m)) pairs" "ce_config (am_store m) = am_tls m"
    and valid: "validate_candidate lib m desired (cert, key) = Inr candidate"
    and dist: "distinct (pair_paths (ie_pair env) (am_tls m) (cc_id desired))"
    and saved: "is_ok (fst (save_certificate_pair (ie_pair env) (am_tls m) (cc_id desired) cert key (fst (am_files m), [])))"
    and scan: "scan_current (ie_scan env) (am_tls m) (cc_id desired) pairs pairs'"
    and apart: "others_apart (pair_paths (ie_pair env) (am_tls m) (cc_id desired)) (cc_id desired) pairs"
  shows "\<exists>m'. activate lib env desired (cert, key) m = (Inr (), m') \<and>
    store_metadata (am_store m') = (store_metadata (am_store m))(cc_id desired \<mapsto> candidate) \<and>
    ce_config (am_store m') = am_tls m \<and>
    pair_files (am_tls m) (cc_id desired) (fst (am_files m')) = (Some cert, Some key) \<and>
    store_current lib (ie_scan env) (am_store m') (fst (am_files m')) pairs'"
proof -
  let ?i = "cc_id desired" and ?tls = "am_tls m"
  obtain r fs new where run: "save_certificate_pair (ie_pair env) ?tls ?i cert key (fst (am_files m), []) = (r, fs, new)"
    by (rule prod_cases3)
  with saved have "r = Inr ()" by (simp add: is_ok_iff)
  with run have save: "save_certificate_pair (ie_pair env) ?tls ?i cert key (fst (am_files m), []) = (Inr (), fs, new)"
    by simp
  from save_certificate_pair_states [OF dist save] have
    fs: "fs = (fst (am_files m))(cert_temp (ie_pair env) ?tls ?i := None, key_temp (ie_pair env) ?tls ?i := None,
      key_path ?tls ?i \<mapsto> key, cert_path ?tls ?i \<mapsto> cert)" by simp
  have files: "fs (cert_path ?tls ?i) = Some cert" "fs (key_path ?tls ?i) = Some key"
    using dist unfolding fs by (auto simp: pair_paths_def)
  have others: "fs c = fst (am_files m) c \<and> fs k = fst (am_files m) k" if "(j, c, k) \<in> set pairs" "j \<noteq> ?i" for j c k
    using apart that unfolding fs by (auto simp: pair_paths_def others_apart_def list_all_iff)
  have valid': "validate_replacement lib (am_store m) ?i cert key = Inr candidate"
    using valid by (simp add: validate_candidate_iff)
  have current: "load_index lib env0 ?tls (fst (am_files m)) = Inr (ce_index (am_store m))"
    "discover_pairs env0 ?tls = Inr pairs" "\<And>ps. mset (te_order env0 ps) = mset ps"
    using store by (simp_all add: store_current_def)
  have scan': "no_read_faults (ie_scan env)" "\<And>ps. mset (te_order (ie_scan env) ps) = mset ps"
    "discover_pairs (ie_scan env) ?tls = Inr pairs'"
    "set pairs' = insert (?i, cert_path ?tls ?i, key_path ?tls ?i) {q \<in> set pairs. fst q \<noteq> ?i}"
    using scan by (simp_all add: scan_current_def)
  have "\<exists>index. load_index lib (ie_scan env) ?tls fs = Inr index \<and>
      map_of (ix_metadata index) = (map_of (ix_metadata (ce_index (am_store m))))(?i \<mapsto> candidate)"
    by (rule validated_replacement_loads [OF current(1) valid' current(2,3) scan' files]) (rule others)
  then obtain index where index: "load_index lib (ie_scan env) ?tls fs = Inr index"
    "map_of (ix_metadata index) = (map_of (ix_metadata (ce_index (am_store m))))(?i \<mapsto> candidate)" by blast
  have run: "activate lib env desired (cert, key) m =
      (Inr (), m\<lparr>am_files := (fs, new @ snd (am_files m)), am_store := (am_store m)\<lparr>ce_index := index\<rparr>,
        am_log := am_log m @ [Activated ?i]\<rparr>)"
    using valid save index(1) store(2) by (simp add: activate_def recorded_def store_reload_def)
  show ?thesis
    by (rule exI, rule conjI, rule run)
      (use index store(2) files scan'(2,3) in \<open>simp add: store_metadata_def pair_files_def store_current_def fun_eq_iff\<close>)
qed

lemma issue_certificate_activates:
  assumes order: "ie_new_order env (order_of al m desired) = Inr ()"
    and challenges: "fst (authorize (ie_authorizations env) []
      (m\<lparr>am_log := am_log m @ [Ordered (cc_id desired) (fst (order_of al m desired)) (snd (order_of al m desired))]\<rparr>)) = Inr ()"
    and pair: "obtain_pair env = Inr (cert, key)"
    and store: "store_current lib env0 (am_store m) (fst (am_files m)) pairs" "ce_config (am_store m) = am_tls m"
    and valid: "validate_candidate lib m desired (cert, key) = Inr candidate"
    and dist: "distinct (pair_paths (ie_pair env) (am_tls m) (cc_id desired))"
    and saved: "is_ok (fst (save_certificate_pair (ie_pair env) (am_tls m) (cc_id desired) cert key (fst (am_files m), [])))"
    and scan: "scan_current (ie_scan env) (am_tls m) (cc_id desired) pairs pairs'"
    and apart: "others_apart (pair_paths (ie_pair env) (am_tls m) (cc_id desired)) (cc_id desired) pairs"
  shows "\<exists>m'. issue_certificate al lib env desired m = (Inr (), m') \<and>
    store_metadata (am_store m') = (store_metadata (am_store m))(cc_id desired \<mapsto> candidate) \<and>
    domains_match candidate desired \<and>
    pair_files (am_tls m) (cc_id desired) (fst (am_files m')) = (Some cert, Some key) \<and>
    store_current lib (ie_scan env) (am_store m') (fst (am_files m')) pairs'"
proof -
  let ?m0 = "m\<lparr>am_log := am_log m @ [Ordered (cc_id desired) (fst (order_of al m desired)) (snd (order_of al m desired))]\<rparr>"
  obtain ts m1 where auth: "authorize (ie_authorizations env) [] ?m0 = (Inr (), ts, m1)"
    using challenges by (metis prod.collapse)
  from authorize_since [OF this] have "answers_since ?m0 m1 ts" by auto
  then have same: "am_store m1 = am_store m" "am_tls m1 = am_tls m" "am_files m1 = am_files m"
    by (simp_all add: answers_since_def quiet_part_def)
  have valid1: "validate_candidate lib m1 desired (cert, key) = Inr candidate"
    using valid by (simp add: validate_candidate_def same)
  obtain m2 where m2: "activate lib env desired (cert, key) m1 = (Inr (), m2)"
    "store_metadata (am_store m2) = (store_metadata (am_store m))(cc_id desired \<mapsto> candidate)"
    "pair_files (am_tls m) (cc_id desired) (fst (am_files m2)) = (Some cert, Some key)"
    "store_current lib (ie_scan env) (am_store m2) (fst (am_files m2)) pairs'"
    using activate_loads [where m = m1, unfolded same, OF store valid1 dist saved scan apart] by blast
  have "issue_certificate al lib env desired m = (Inr (), remove_published ts m2)"
    using order auth pair m2(1) by (simp add: issue_certificate_def Let_def add_context_def one_error_def)
  then show ?thesis
    by (intro exI conjI, assumption) (use m2(2-4) valid in \<open>simp_all add: remove_published_def validate_candidate_iff\<close>)
qed

section \<open>Bootstrap and pauses\<close>

lemma bootstrap_ok:
  "bootstrap_if_store_empty al lib env m = (Inr (), m') \<Longrightarrow> ac_enabled (am_config m) \<Longrightarrow> \<not> store_is_empty (am_store m')"
  by (auto simp: bootstrap_if_store_empty_def split: if_splits prod.splits)

lemma cycle_pause_bounds:
  "cycle_pause interval streak ok \<le> interval"
  "\<not> ok \<Longrightarrow> cycle_pause interval streak ok \<le> from_secs (3 * 60 * 60)"
  "min (from_secs (5 * 60)) interval \<le> cycle_pause interval streak ok"
  using acme_failure_retry_delay_bounds(1-3) by (auto simp: cycle_pause_def)

text \<open>The files an issue went through, and what a reader of the listener gets.\<close>

lemma issue_certificate_files:
  assumes "issue_certificate al lib env desired m = (r, m')" "obtain_pair env = Inr (cert, key)"
    "distinct (pair_paths (ie_pair env) (am_tls m) (cc_id desired))"
  shows "\<exists>new. snd (am_files m') = new @ snd (am_files m) \<and>
    list_all (pair_observed (ie_pair env) (am_tls m) (cc_id desired) cert key (fst (am_files m))) (fst (am_files m') # new)"
proof -
  have start: "pair_observed e t i c k fs fs" for e t i c k fs by (simp add: pair_observed_def)
  have same: "am_files m1 = am_files m" "am_tls m1 = am_tls m"
    if "answers_since (m\<lparr>am_log := l\<rparr>) m1 ts" for m1 l ts
    using that by (simp_all add: answers_since_def quiet_part_def)
  from assms(1) show ?thesis
  proof (cases rule: issue_certificate_cases)
    case (refused e)
    then show ?thesis by (simp add: start)
  next
    case (failed ts m1)
    with same [OF failed(2)] show ?thesis by (simp add: remove_published_def start)
  next
    case (activated ts m1 m2 pair)
    note s = same [OF activated(2)]
    have "activate lib env desired (cert, key) m1 = (r, m2)" using activated(3,4) assms(2) by simp
    from activate_files [OF this] assms(3) s obtain new where
      "snd (am_files m2) = new @ snd (am_files m)"
      "\<forall>g \<in> set (fst (am_files m2) # new). pair_observed (ie_pair env) (am_tls m) (cc_id desired) cert key (fst (am_files m)) g"
      by auto
    then show ?thesis by (auto simp: activated(5) remove_published_def list_all_iff)
  qed
qed

fun readable_answer :: "('h, 'm) http_lib_scheme \<Rightarrow> acme_event \<Rightarrow> bool" where
  "readable_answer hlib (Told_Ready tok answer challenges) \<longleftrightarrow>
     (\<forall>request. rq_method request = ''GET'' \<and> u_path (rq_uri request) = challenge_prefix @ tok \<longrightarrow>
        challenge_request hlib request challenges = challenge_response hlib 200 answer)"
| "readable_answer hlib (Ordered i domains replaces) \<longleftrightarrow> True"
| "readable_answer hlib (Activated i) \<longleftrightarrow> True"

lemma answered_readable: "answered e \<Longrightarrow> readable_answer hlib e"
  by (cases e) (auto intro: challenge_request_body)

end
