(* ===== verification/Extended_Connect.thy ===== *)
theory Extended_Connect
  imports Prelude Rust_Str
begin

text \<open>
  \<open>src/gateway/h2_websocket.rs\<close>: the bodies of an extended CONNECT over HTTP/2 as a byte stream.  What the
  request body yields, poll by poll, is given by the environment; the bounded channel behind the
  response body is a queue with a capacity, with the documented behaviour of \<open>tokio::sync::mpsc\<close>.
\<close>

section \<open>Reading\<close>

text \<open>An answer of \<open>poll_frame\<close>.  Once the body has ended it stays ended.\<close>

datatype frame_poll = Frame_Pending | Frame_Data bytes | Frame_Trailers | Frame_Error string | Frame_End

datatype read_result = Read_Pending | Read_Ready bytes | Read_Reset string

text \<open>
  \<open>remaining\<close> is the room in the destination.  The result names the bytes that were put there; none at
  all mean the end of the stream, unless there was no room.
\<close>

fun poll_frames :: "nat \<Rightarrow> frame_poll list \<Rightarrow> read_result \<times> bytes \<times> frame_poll list" where
  "poll_frames remaining [] = (Read_Pending, [], [])"
| "poll_frames remaining (Frame_Pending # polls) = (Read_Pending, [], polls)"
| "poll_frames remaining (Frame_Data d # polls) =
     (if d = [] then poll_frames remaining polls
      else (Read_Ready (take remaining d), drop remaining d, polls))"
| "poll_frames remaining (Frame_Trailers # polls) = poll_frames remaining polls"
| "poll_frames remaining (Frame_Error e # polls) = (Read_Reset e, [], polls)"
| "poll_frames remaining (Frame_End # polls) = (Read_Ready [], [], Frame_End # polls)"

definition poll_read :: "nat \<Rightarrow> bytes \<Rightarrow> frame_poll list \<Rightarrow> read_result \<times> bytes \<times> frame_poll list" where
  "poll_read remaining buffered polls =
     (if remaining = 0 then (Read_Ready [], buffered, polls)
      else if buffered \<noteq> [] then (Read_Ready (take remaining buffered), drop remaining buffered, polls)
      else poll_frames remaining polls)"

text \<open>The bytes the body carries up to its end, whatever lies between them.\<close>

fun body_bytes :: "frame_poll list \<Rightarrow> bytes" where
  "body_bytes [] = []"
| "body_bytes (Frame_Data d # polls) = d @ body_bytes polls"
| "body_bytes (Frame_Pending # polls) = body_bytes polls"
| "body_bytes (Frame_Trailers # polls) = body_bytes polls"
| "body_bytes (Frame_Error e # polls) = []"
| "body_bytes (Frame_End # polls) = []"

fun read_bytes :: "read_result \<Rightarrow> bytes" where
  "read_bytes (Read_Ready d) = d"
| "read_bytes Read_Pending = []"
| "read_bytes (Read_Reset e) = []"

fun is_reset :: "read_result \<Rightarrow> bool" where
  "is_reset (Read_Reset e) \<longleftrightarrow> True"
| "is_reset Read_Pending \<longleftrightarrow> False"
| "is_reset (Read_Ready d) \<longleftrightarrow> False"

lemma poll_frames_bytes:
  "poll_frames remaining polls = (r, buffered, polls') \<Longrightarrow>
     read_bytes r @ buffered @ (if is_reset r then [] else body_bytes polls') = body_bytes polls"
  by (induction remaining polls rule: poll_frames.induct) (auto split: if_splits)

lemma poll_read_bytes:
  "poll_read remaining buffered polls = (r, buffered', polls') \<Longrightarrow>
     read_bytes r @ buffered' @ (if is_reset r then [] else body_bytes polls') = buffered @ body_bytes polls"
  using poll_frames_bytes [of remaining polls r buffered' polls']
  by (auto simp: poll_read_def append_take_drop_id [of remaining, symmetric] simp del: append_take_drop_id split: if_splits)
    (metis append_assoc append_take_drop_id)

text \<open>Neither trailers nor an empty frame look like the end.\<close>

lemma poll_frames_end:
  "poll_frames remaining polls = (Read_Ready [], buffered, polls') \<Longrightarrow> 0 < remaining \<Longrightarrow>
     buffered = [] \<and> body_bytes polls = [] \<and> (\<exists>rest. polls' = Frame_End # rest)"
  by (induction remaining polls rule: poll_frames.induct) (auto split: if_splits)

text \<open>A series of reads; a reset ends it.\<close>

fun read_all :: "nat list \<Rightarrow> bytes \<Rightarrow> frame_poll list \<Rightarrow> bytes \<times> bytes \<times> frame_poll list" where
  "read_all [] buffered polls = ([], buffered, polls)"
| "read_all (n # ns) buffered polls =
     (case poll_read n buffered polls of
        (Read_Reset e, buffered, polls) \<Rightarrow> ([], buffered, [])
      | (r, buffered, polls) \<Rightarrow>
        (case read_all ns buffered polls of (d, rest) \<Rightarrow> (read_bytes r @ d, rest)))"

lemma read_all_bytes:
  "read_all ns buffered polls = (d, buffered', polls') \<Longrightarrow> d @ buffered' @ body_bytes polls' = buffered @ body_bytes polls"
proof (induction ns arbitrary: buffered polls d)
  case (Cons n ns)
  obtain r b p where read: "poll_read n buffered polls = (r, b, p)" by (rule prod_cases3)
  obtain d2 rest where all: "read_all ns b p = (d2, rest)" by (metis surj_pair)
  note one = poll_read_bytes [OF read]
  show ?case
  proof (cases "is_reset r")
    case True
    then obtain e where "r = Read_Reset e" by (cases r) auto
    with Cons.prems read one show ?thesis by simp
  next
    case False
    then have "d = read_bytes r @ d2" "rest = (buffered', polls')"
      using Cons.prems read all by (cases r; simp)+
    with Cons.IH [of b p d2] all one False show ?thesis by simp
  qed
qed simp

section \<open>Writing\<close>

definition response_body_channel_capacity :: nat where "response_body_channel_capacity = 4"

text \<open>
  \<open>xc_closed\<close>: the sender was closed or dropped; \<open>xc_gone\<close>: the receiver was dropped.  The last two fields
  record what was taken from the writer and what was yielded as body.
\<close>

record connect_channel =
  xc_queue :: "bytes list"
  xc_closed :: bool
  xc_gone :: bool
  xc_written :: bytes
  xc_yielded :: bytes

definition connect_channel_new :: connect_channel where
  "connect_channel_new = \<lparr> xc_queue = [], xc_closed = False, xc_gone = False, xc_written = [], xc_yielded = [] \<rparr>"

datatype write_result = Write_Pending | Write_Ready nat | Write_Broken string

definition channel_closed :: write_result where
  "channel_closed = Write_Broken ''HTTP/2 extended CONNECT response stream closed''"

definition poll_send_bytes :: "bytes \<Rightarrow> connect_channel \<Rightarrow> write_result \<times> connect_channel" where
  "poll_send_bytes data c =
     (if xc_closed c \<or> xc_gone c then (channel_closed, c)
      else if response_body_channel_capacity \<le> length (xc_queue c) then (Write_Pending, c)
      else (Write_Ready (length data), c\<lparr>xc_queue := xc_queue c @ [data], xc_written := xc_written c @ data\<rparr>))"

definition poll_write :: "bytes \<Rightarrow> connect_channel \<Rightarrow> write_result \<times> connect_channel" where
  "poll_write buffer c = (if buffer = [] then (Write_Ready 0, c) else poll_send_bytes buffer c)"

definition poll_write_vectored :: "bytes list \<Rightarrow> connect_channel \<Rightarrow> write_result \<times> connect_channel" where
  "poll_write_vectored buffers c =
     (let total_len = sum_list (map length buffers)
      in if total_len = 0 then (Write_Ready 0, c) else poll_send_bytes (concat buffers) c)"

definition poll_flush :: "connect_channel \<Rightarrow> connect_channel" where
  "poll_flush c = c"

definition poll_shutdown :: "connect_channel \<Rightarrow> connect_channel" where
  "poll_shutdown c = c\<lparr>xc_closed := True\<rparr>"

datatype body_poll = Body_Pending | Body_Frame bytes | Body_End

definition response_poll_frame :: "connect_channel \<Rightarrow> body_poll \<times> connect_channel" where
  "response_poll_frame c =
     (case xc_queue c of
        data # rest \<Rightarrow> (Body_Frame data, c\<lparr>xc_queue := rest, xc_yielded := xc_yielded c @ data\<rparr>)
      | [] \<Rightarrow> (if xc_closed c then Body_End else Body_Pending, c))"

definition response_is_end_stream :: "connect_channel \<Rightarrow> bool" where
  "response_is_end_stream c \<longleftrightarrow> xc_closed c \<and> xc_queue c = []"

definition drop_receiver :: "connect_channel \<Rightarrow> connect_channel" where
  "drop_receiver c = c\<lparr>xc_gone := True\<rparr>"

declare poll_read_def [eval_simps] connect_channel_new_def [eval_simps] channel_closed_def [eval_simps]
  response_body_channel_capacity_def [eval_simps] poll_send_bytes_def [eval_simps] poll_write_def [eval_simps]
  poll_write_vectored_def [eval_simps] poll_flush_def [eval_simps] poll_shutdown_def [eval_simps]
  response_poll_frame_def [eval_simps] response_is_end_stream_def [eval_simps] drop_receiver_def [eval_simps]

text \<open>Both ends in every interleaving.\<close>

inductive connect_step :: "connect_channel \<Rightarrow> connect_channel \<Rightarrow> bool" where
  Connect_Write: "connect_step c (snd (poll_write buffer c))"
| Connect_Write_Vectored: "connect_step c (snd (poll_write_vectored buffers c))"
| Connect_Flush: "connect_step c (poll_flush c)"
| Connect_Shutdown: "connect_step c (poll_shutdown c)"
| Connect_Poll: "\<not> xc_gone c \<Longrightarrow> connect_step c (snd (response_poll_frame c))"
| Connect_Drop: "connect_step c (drop_receiver c)"

inductive_cases connect_stepE: "connect_step c d"

definition connect_inv :: "connect_channel \<Rightarrow> bool" where
  "connect_inv c \<longleftrightarrow>
     xc_yielded c @ concat (xc_queue c) = xc_written c \<and> [] \<notin> set (xc_queue c) \<and>
     length (xc_queue c) \<le> response_body_channel_capacity"

lemma poll_send_inv: "connect_inv c \<Longrightarrow> data \<noteq> [] \<Longrightarrow> connect_inv (snd (poll_send_bytes data c))"
  by (auto simp: connect_inv_def poll_send_bytes_def)

lemma connect_step_inv: "connect_step c d \<Longrightarrow> connect_inv c \<Longrightarrow> connect_inv d"
proof (induction rule: connect_step.induct)
  case (Connect_Write c buffer)
  then show ?case using poll_send_inv [of c buffer] by (simp add: poll_write_def)
next
  case (Connect_Write_Vectored c buffers)
  have "sum_list (map length buffers) \<noteq> 0 \<Longrightarrow> concat buffers \<noteq> []" by (auto simp: sum_list_eq_0_iff)
  with Connect_Write_Vectored show ?case
    using poll_send_inv [of c "concat buffers"] by (simp add: poll_write_vectored_def Let_def)
next
  case (Connect_Poll c)
  then show ?case by (cases "xc_queue c") (auto simp: connect_inv_def response_poll_frame_def)
qed (auto simp: connect_inv_def poll_flush_def poll_shutdown_def drop_receiver_def)

theorem connect_inv_reachable: "connect_step\<^sup>*\<^sup>* connect_channel_new c \<Longrightarrow> connect_inv c"
proof (induction rule: rtranclp_induct)
  case base
  then show ?case by (simp add: connect_inv_def connect_channel_new_def)
qed (rule connect_step_inv)

text \<open>What was yielded stays yielded, and after the end nothing is taken or yielded any more.\<close>

lemma connect_step_grows:
  "connect_step c d \<Longrightarrow> (\<exists>w. xc_written d = xc_written c @ w \<and> (xc_closed c \<or> xc_gone c \<longrightarrow> w = [])) \<and>
     (\<exists>y. xc_yielded d = xc_yielded c @ y \<and> (xc_queue c = [] \<longrightarrow> y = [])) \<and>
     (xc_closed c \<longrightarrow> xc_closed d) \<and> (xc_closed c \<and> xc_queue c = [] \<longrightarrow> xc_queue d = [])"
proof (induction rule: connect_step.induct)
  case (Connect_Poll c)
  then show ?case by (cases "xc_queue c") (simp_all add: response_poll_frame_def)
qed (simp_all add: poll_write_def poll_write_vectored_def poll_send_bytes_def poll_flush_def poll_shutdown_def
    drop_receiver_def channel_closed_def Let_def)

lemma end_stream_final:
  assumes "connect_step\<^sup>*\<^sup>* c d" "response_is_end_stream c"
  shows "response_is_end_stream d \<and> xc_yielded d = xc_yielded c \<and> xc_written d = xc_written c"
  using assms(1)
proof (induction rule: rtranclp_induct)
  case base
  with assms(2) show ?case by simp
next
  case (step d e)
  then show ?case using connect_step_grows [OF step.hyps(2)] by (auto simp: response_is_end_stream_def)
qed

lemma end_of_body:
  assumes "connect_step\<^sup>*\<^sup>* connect_channel_new c" "response_poll_frame c = (Body_End, c')"
  shows "xc_yielded c = xc_written c" "response_is_end_stream c"
  using connect_inv_reachable [OF assms(1)] assms(2)
  by (auto simp: response_poll_frame_def connect_inv_def response_is_end_stream_def split: list.splits if_splits)

end
