(* ===== verification/Gateway_Run.thy ===== *)
theory Gateway_Run
  imports Gateway Acme_Manager Pool_System
begin

text \<open>
  The life of the process: \<open>src/main.rs\<close>, the start of \<open>run\<close> in \<open>src/gateway/listener.rs\<close> from the
  certificates on, its orderly end with that of its connections (\<open>serve_connection\<close>), and the maintenance task of \<open>src/http_proxy/runtime.rs\<close>.
\<close>

section \<open>The command line and the signals\<close>

definition config_path :: "string list \<Rightarrow> anyhow + path" where
  "config_path arguments =
     (let path = (case arguments of [] \<Rightarrow> ''config.toml'' | p # _ \<Rightarrow> p) in
      case drop 1 arguments of
        unexpected # _ \<Rightarrow> bail (''unexpected argument '' @ unexpected @ ''; usage: edge-gateway [CONFIG_PATH]'')
      | [] \<Rightarrow> Inr path)"

text \<open>
  What is ready: the handler for Ctrl+C, also when it failed; the stream of SIGTERM, also when it ended;
  \<open>installed\<close> says whether the handler of SIGTERM could be installed.
\<close>

definition shutdown_signal :: "bool \<Rightarrow> (string + unit) option \<Rightarrow> unit option option \<Rightarrow> bool" where
  "shutdown_signal installed ctrl_c terminate =
     (if installed then ctrl_c \<noteq> None \<or> terminate \<noteq> None else ctrl_c \<noteq> None)"

text \<open>\<open>loaded\<close> is the outcome of \<open>Config::load\<close>, whose error is shown as text; \<open>serve\<close> is \<open>gateway::run\<close>.\<close>

definition main_run ::
  "anyhow + unit \<Rightarrow> string list \<Rightarrow> (path \<Rightarrow> anyhow + 'c) \<Rightarrow> ('c \<Rightarrow> anyhow + unit) \<Rightarrow> anyhow + unit"
where
  "main_run init arguments loaded serve =
     and_then init (\<lambda>_.
     and_then (config_path arguments) (\<lambda>path.
     and_then (add_context (''unable to load configuration from '' @ path) (loaded path)) serve))"

section \<open>Certificates before the listener\<close>

record startup_env =
  su_scan :: tls_env
  su_cycle :: cycle_env
  su_gateway :: gateway_env

definition startup_store ::
  "x509_lib \<Rightarrow> acme_lib \<Rightarrow> startup_env \<Rightarrow> config \<Rightarrow> fs \<Rightarrow> anyhow + certificate_store \<times> acme_manager option"
where
  "startup_store lib al su co fs =
     and_then (store_load lib (su_scan su) (co_tls co) fs) (\<lambda>store.
     if ac_enabled (co_acme co) then
       (case bootstrap_if_store_empty al lib (su_cycle su) (acme_manager_new (co_acme co) (co_tls co) store fs) of
          (Inl e, m) \<Rightarrow> Inl e
        | (Inr _, m) \<Rightarrow> Inr (am_store m, Some m))
     else Inr (store, None))"

definition certificate_status_of :: "certificate_store \<Rightarrow> certificate_status" where
  "certificate_status_of store =
     \<lparr> cs_empty = store_is_empty store, cs_default_available = default_certificate_available store \<rparr>"

definition gateway_launch ::
  "'s sem_lib \<Rightarrow> x509_lib \<Rightarrow> acme_lib \<Rightarrow> startup_env \<Rightarrow> config \<Rightarrow> fs
   \<Rightarrow> anyhow + 's gateway \<times> certificate_store \<times> acme_manager option"
where
  "gateway_launch sem lib al su co fs =
     and_then (startup_store lib al su co fs) (\<lambda>(store, manager).
     and_then (gateway_start sem ((su_gateway su)\<lparr>ge_certificates := certificate_status_of store\<rparr>) co) (\<lambda>gw.
     Inr (gw, store, manager)))"

section \<open>The end of a connection\<close>

text \<open>
  \<open>timeout\<close>: the future is polled first, so a result that is there at the very end of the limit counts.
  A result that came before the wait began is taken at once.
\<close>

definition await_within :: "instant \<Rightarrow> duration \<Rightarrow> (instant \<times> 'a) option \<Rightarrow> instant \<times> 'a option" where
  "await_within started limit result =
     (case result of
        Some (t, x) \<Rightarrow> if max started t \<le> started + limit then (max started t, Some x) else (started + limit, None)
      | None \<Rightarrow> (started + limit, None))"

text \<open>
  What the peer of a connection does, and when: the handshake comes to an end (and succeeds or not), the
  connection ends of itself (and fails or not), or after it was told to; never, where there is no time.
  \<open>ct_first\<close> says which ready branch \<open>select!\<close> takes when the connection ends at the very moment of
  the cancellation.
\<close>

record connection_times =
  ct_accepted :: instant
  ct_handshake :: "(instant \<times> bool) option"
  ct_closes :: "(instant \<times> bool) option"
  ct_graceful :: "(instant \<times> bool) option"
  ct_first :: bool

datatype connection_fate = Not_Served handshake_outcome | Served connection_end

definition end_gracefully :: "duration \<Rightarrow> instant \<Rightarrow> (instant \<times> bool) option \<Rightarrow> connection_fate \<times> instant" where
  "end_gracefully shutdown_grace told graceful =
     (case await_within told shutdown_grace graceful of
        (t, Some failed) \<Rightarrow> (Served (if failed then Shutdown_Error else Shutdown_Done), t)
      | (t, None) \<Rightarrow> (Served Shutdown_Timeout, t))"

text \<open>The cancellation is not looked at during the handshake; its time-out alone ends it.\<close>

definition serve_connection ::
  "duration \<Rightarrow> duration \<Rightarrow> instant \<Rightarrow> connection_times \<Rightarrow> connection_fate \<times> instant"
where
  "serve_connection handshake_timeout shutdown_grace cancelled ct =
     (case await_within (ct_accepted ct) handshake_timeout (ct_handshake ct) of
        (t, None) \<Rightarrow> (Not_Served Handshake_Timeout, t)
      | (t, Some False) \<Rightarrow> (Not_Served Handshake_Failed, t)
      | (t, Some True) \<Rightarrow>
        (let told = max t cancelled in
         case ct_closes ct of
           Some (u, failed) \<Rightarrow>
             if max t u < told \<or> max t u = told \<and> ct_first ct
             then (Served (if failed then Http_Error else Peer_Closed_It), max t u)
             else end_gracefully shutdown_grace told (ct_graceful ct)
         | None \<Rightarrow> end_gracefully shutdown_grace told (ct_graceful ct)))"

section \<open>The orderly end\<close>

text \<open>When each kind of task has ended once it was told to; the tasks of the data plane may never end.\<close>

record finish_times =
  ft_websocket :: "instant option"
  ft_grpc :: "instant option"
  ft_http :: "instant option"
  ft_acme :: "instant option"
  ft_client_address :: instant
  ft_blocking :: instant
  ft_observability :: instant

datatype shutdown_step =
    Cancel_Everything
  | Close_Websocket
  | Close_Grpc
  | Close_Http
  | Connections_Joined
  | Data_Plane_Joined
  | Data_Plane_Abandoned
  | Acme_Joined
  | Client_Address_Joined
  | Blocking_Joined
  | Cancel_Observability
  | Observability_Joined

text \<open>\<open>join!\<close>: all of them.\<close>

definition join_three :: "instant option \<Rightarrow> instant option \<Rightarrow> instant option \<Rightarrow> (instant \<times> unit) option" where
  "join_three a b c =
     (case (a, b, c) of (Some a, Some b, Some c) \<Rightarrow> Some (max a (max b c), ()) | _ \<Rightarrow> None)"

definition connections_joined ::
  "duration \<Rightarrow> duration \<Rightarrow> connection_times list \<Rightarrow> instant \<Rightarrow> instant"
where
  "connections_joined handshake_timeout shutdown_grace connections now =
     foldl (\<lambda>t ct. max t (snd (serve_connection handshake_timeout shutdown_grace now ct))) now connections"

text \<open>The connections are those that are open when the loop of the listener ends, at \<open>now\<close>.\<close>

definition shutdown_run ::
  "server_config \<Rightarrow> bool \<Rightarrow> connection_times list \<Rightarrow> finish_times \<Rightarrow> instant \<Rightarrow> (shutdown_step \<times> instant) list"
where
  "shutdown_run sc block_manager_finished connections ft now =
     (let joined = connections_joined (sc_tls_handshake_timeout sc) (sc_shutdown_grace sc) connections now;
          (plane, over) = await_within joined (sc_shutdown_grace sc)
            (join_three (ft_websocket ft) (ft_grpc ft) (ft_http ft));
          acme = (case ft_acme ft of None \<Rightarrow> plane | Some t \<Rightarrow> max plane t);
          client_address = max acme (ft_client_address ft);
          blocking = (if block_manager_finished then client_address else max client_address (ft_blocking ft))
      in [(Cancel_Everything, now), (Close_Websocket, now), (Close_Grpc, now), (Close_Http, now),
          (Connections_Joined, joined),
          (if over = None then Data_Plane_Abandoned else Data_Plane_Joined, plane)]
         @ (if ft_acme ft = None then [] else [(Acme_Joined, acme)])
         @ [(Client_Address_Joined, client_address)]
         @ (if block_manager_finished then [] else [(Blocking_Joined, blocking)])
         @ [(Cancel_Observability, blocking), (Observability_Joined, max blocking (ft_observability ft))])"

section \<open>Maintenance of the HTTP pools\<close>

text \<open>
  Every tick and the shutdown reap each pool; here one of them.  Other pools appear as the environment of
  its permits.  The summary is logged at every sixth tick.
\<close>

datatype maintenance_event = Maintenance_Tick "nat \<Rightarrow> bool" instant | Maintenance_Shutdown "nat \<Rightarrow> bool" instant

definition count_tick :: "u8 \<times> nat \<Rightarrow> u8 \<times> nat" where
  "count_tick = (\<lambda>(ticks, summaries). let ticks = ticks + 1 in if ticks = 6 then (0, summaries + 1) else (ticks, summaries))"

fun pool_maintenance ::
  "'s sem_lib \<Rightarrow> maintenance_event list \<Rightarrow> u8 \<times> nat \<Rightarrow> 's upstream_pool \<Rightarrow> (u8 \<times> nat) \<times> 's upstream_pool"
where
  "pool_maintenance sem [] c p = (c, p)"
| "pool_maintenance sem (Maintenance_Shutdown closed now # es) c p = (c, reap_idle sem closed now p)"
| "pool_maintenance sem (Maintenance_Tick closed now # es) c p =
     pool_maintenance sem es (count_tick c) (reap_idle sem closed now p)"

declare config_path_def [eval_simps] shutdown_signal_def [eval_simps] main_run_def [eval_simps]
  startup_store_def [eval_simps] certificate_status_of_def [eval_simps] gateway_launch_def [eval_simps]
  await_within_def [eval_simps] end_gracefully_def [eval_simps] serve_connection_def [eval_simps]
  join_three_def [eval_simps] connections_joined_def [eval_simps] shutdown_run_def [eval_simps]
  count_tick_def [eval_simps]

section \<open>What holds\<close>

lemma config_path_ok:
  "config_path arguments = Inr p \<longleftrightarrow> arguments = [] \<and> p = ''config.toml'' \<or> arguments = [p]"
  by (cases arguments) (auto simp: config_path_def bail_def split: list.splits)

text \<open>A gateway that runs has a certificate, and the default one unless the authority still owes it.\<close>

lemma gateway_launch_certificates:
  assumes "gateway_launch sem lib al su co fs = Inr (gw, store, manager)"
  shows "ix_metadata (ce_index store) \<noteq> []"
    and "default_certificate_available store \<or>
      (\<exists>i. tc_default_certificate (co_tls co) = Some i \<and> ac_enabled (co_acme co) \<and> manages_certificate (co_acme co) i)"
    and "manager \<noteq> None \<longleftrightarrow> ac_enabled (co_acme co)"
    and "manager = Some m \<Longrightarrow> am_store m = store"
proof -
  let ?ge = "(su_gateway su)\<lparr>ge_certificates := certificate_status_of store\<rparr>"
  from assms have "gateway_start sem ?ge co = Inr gw" and store: "startup_store lib al su co fs = Inr (store, manager)"
    by (auto simp: gateway_launch_def)
  then have "startup_certificates co (certificate_status_of store) = Inr ()"
    by (auto simp: gateway_start_def)
  then show "ix_metadata (ce_index store) \<noteq> []"
    "default_certificate_available store \<or>
      (\<exists>i. tc_default_certificate (co_tls co) = Some i \<and> ac_enabled (co_acme co) \<and> manages_certificate (co_acme co) i)"
    by (auto simp: startup_certificates_def certificate_status_of_def store_is_empty_def Let_def
        split: if_splits option.splits)
  show "manager \<noteq> None \<longleftrightarrow> ac_enabled (co_acme co)" "manager = Some m \<Longrightarrow> am_store m = store"
    using store by (auto simp: startup_store_def split: if_splits sum.splits prod.splits)
qed

text \<open>
  A connection ends: within the grace period of the cancellation if it was being served, and within the
  time-out of the handshake on top of it if the handshake was still going on.
\<close>

lemma await_within_bounds:
  "started \<le> fst (await_within started limit result)" "fst (await_within started limit result) \<le> started + limit"
  "await_within started limit result = (t, None) \<Longrightarrow> t = started + limit"
  by (auto simp: await_within_def split: option.splits if_splits)

lemma end_gracefully_bound: "snd (end_gracefully grace told graceful) \<le> told + grace"
  using await_within_bounds(2) [of told grace graceful] by (auto simp: end_gracefully_def split: prod.splits option.splits)

lemma serve_connection_handshake:
  obtains t r where "await_within (ct_accepted ct) limit (ct_handshake ct) = (t, r)" "t \<le> ct_accepted ct + limit"
    "snd (serve_connection limit grace cancelled ct) \<le> max t cancelled + grace"
proof -
  obtain t r where r: "await_within (ct_accepted ct) limit (ct_handshake ct) = (t, r)" by fastforce
  note graceful = end_gracefully_bound [of grace "max t cancelled" "ct_graceful ct"]
  have "snd (serve_connection limit grace cancelled ct) \<le> max t cancelled + grace"
  proof (cases r)
    case None
    with r show ?thesis by (simp add: serve_connection_def le_max_iff_disj trans_le_add1)
  next
    case (Some ok)
    show ?thesis
    proof (cases ok)
      case True
      with r Some graceful show ?thesis
        by (cases "ct_closes ct") (auto simp: serve_connection_def Let_def intro: trans_le_add1 split: prod.splits)
    next
      case False
      with r Some show ?thesis by (simp add: serve_connection_def le_max_iff_disj trans_le_add1)
    qed
  qed
  with r await_within_bounds(2) [of "ct_accepted ct" limit "ct_handshake ct"] that show thesis by simp
qed

lemma serve_connection_bound:
  assumes "ct_accepted ct \<le> cancelled"
  shows "snd (serve_connection limit grace cancelled ct) \<le> cancelled + limit + grace"
proof -
  obtain t where "t \<le> ct_accepted ct + limit" "snd (serve_connection limit grace cancelled ct) \<le> max t cancelled + grace"
    by (rule serve_connection_handshake [of ct limit grace cancelled]) (rule that)
  with assms show ?thesis by linarith
qed

text \<open>A connection whose handshake was over when the cancellation came.\<close>

lemma serve_connection_served:
  assumes "ct_handshake ct = Some (t, ok)" "max (ct_accepted ct) t \<le> cancelled"
  shows "snd (serve_connection limit grace cancelled ct) \<le> cancelled + grace"
proof -
  have "fst (await_within (ct_accepted ct) limit (ct_handshake ct)) \<le> cancelled"
    using assms by (auto simp: await_within_def split: if_splits)
  moreover obtain u r where "await_within (ct_accepted ct) limit (ct_handshake ct) = (u, r)"
    "snd (serve_connection limit grace cancelled ct) \<le> max u cancelled + grace"
    by (rule serve_connection_handshake [of ct limit grace cancelled]) (rule that)
  ultimately show ?thesis by (simp add: max_absorb2)
qed

lemma connections_joined_ge:
  "now \<le> connections_joined limit grace connections now"
  "ct \<in> set connections \<Longrightarrow> snd (serve_connection limit grace now ct) \<le> connections_joined limit grace connections now"
proof -
  have mono: "t \<le> foldl (\<lambda>t ct. max t (f ct)) t cs" for t :: nat and f :: "connection_times \<Rightarrow> nat" and cs
    by (induction cs arbitrary: t) (auto intro: le_trans [OF max.cobounded1])
  have mem: "f c \<le> foldl (\<lambda>t ct. max t (f ct)) t cs" if "c \<in> set cs" for t :: nat and f :: "connection_times \<Rightarrow> nat" and c cs
    using that mono [where f = f] by (induction cs arbitrary: t) (auto intro: le_trans [OF max.cobounded2])
  show "now \<le> connections_joined limit grace connections now" by (simp add: connections_joined_def mono)
  show "ct \<in> set connections \<Longrightarrow> snd (serve_connection limit grace now ct) \<le> connections_joined limit grace connections now"
    unfolding connections_joined_def by (rule mem [where f = "\<lambda>ct. snd (serve_connection limit grace now ct)"])
qed

lemma connections_joined_by:
  assumes "\<And>ct. ct \<in> set connections \<Longrightarrow> snd (serve_connection limit grace now ct) \<le> deadline" "now \<le> deadline"
  shows "connections_joined limit grace connections now \<le> deadline"
proof -
  have "foldl (\<lambda>t ct. max t (snd (serve_connection limit grace now ct))) t connections \<le> deadline" if "t \<le> deadline" for t
    using assms(1) that by (induction connections arbitrary: t) simp_all
  then show ?thesis using assms(2) by (simp add: connections_joined_def)
qed

lemma connections_joined_le:
  assumes "list_all (\<lambda>ct. ct_accepted ct \<le> now) connections"
  shows "connections_joined limit grace connections now \<le> now + limit + grace"
  by (rule connections_joined_by) (use assms in \<open>auto simp: list_all_iff intro: serve_connection_bound\<close>)

lemma connections_joined_served:
  assumes "list_all (\<lambda>ct. \<exists>t ok. ct_handshake ct = Some (t, ok) \<and> max (ct_accepted ct) t \<le> now) connections"
  shows "connections_joined limit grace connections now \<le> now + grace"
proof (rule connections_joined_by)
  show "snd (serve_connection limit grace now ct) \<le> now + grace" if c: "ct \<in> set connections" for ct
  proof -
    obtain t ok where "ct_handshake ct = Some (t, ok)" "max (ct_accepted ct) t \<le> now"
      using assms c unfolding list_all_iff by blast
    then show ?thesis by (rule serve_connection_served)
  qed
qed simp

text \<open>The end as a whole: the moments are in order, and each is one of the waits.\<close>

lemma shutdown_run_times:
  fixes sc connections now ft finished
  defines "run \<equiv> shutdown_run sc finished connections ft now"
  defines "joined \<equiv> connections_joined (sc_tls_handshake_timeout sc) (sc_shutdown_grace sc) connections now"
  defines "plane \<equiv> await_within joined (sc_shutdown_grace sc) (join_three (ft_websocket ft) (ft_grpc ft) (ft_http ft))"
  shows "run ! 4 = (Connections_Joined, joined)"
    and "run ! 5 = (if snd plane = None then Data_Plane_Abandoned else Data_Plane_Joined, fst plane)"
    and "sorted (map snd run)"
    and "map fst run =
      [Cancel_Everything, Close_Websocket, Close_Grpc, Close_Http, Connections_Joined,
       if snd plane = None then Data_Plane_Abandoned else Data_Plane_Joined]
      @ (if ft_acme ft = None then [] else [Acme_Joined]) @ [Client_Address_Joined]
      @ (if finished then [] else [Blocking_Joined]) @ [Cancel_Observability, Observability_Joined]"
    and "snd (last run) = foldl max (fst plane)
      ((case ft_acme ft of None \<Rightarrow> [] | Some t \<Rightarrow> [t]) @ [ft_client_address ft]
       @ (if finished then [] else [ft_blocking ft]) @ [ft_observability ft])"
proof -
  have order: "now \<le> joined" "joined \<le> fst plane"
    by (simp_all add: joined_def plane_def connections_joined_ge await_within_bounds)
  obtain t over where p: "plane = (t, over)" by fastforce
  note unfold = run_def shutdown_run_def Let_def joined_def [symmetric] plane_def [symmetric]
  show "run ! 4 = (Connections_Joined, joined)"
    "run ! 5 = (if snd plane = None then Data_Plane_Abandoned else Data_Plane_Joined, fst plane)"
    by (simp_all add: unfold p)
  show "sorted (map snd run)"
  proof -
    have chain: "sorted (map snd run)" if "t \<le> acme" "acme \<le> client" "client \<le> blocking" "blocking \<le> gone"
      "run = [(Cancel_Everything, now), (Close_Websocket, now), (Close_Grpc, now), (Close_Http, now),
          (Connections_Joined, joined), (step, t)]
         @ (if no_acme then [] else [(Acme_Joined, acme)]) @ [(Client_Address_Joined, client)]
         @ (if finished then [] else [(Blocking_Joined, blocking)])
         @ [(Cancel_Observability, blocking), (Observability_Joined, gone)]" for acme client blocking gone step no_acme
      using that order by (simp add: p)
    show ?thesis
      by (rule chain [OF _ _ _ _ meta_eq_to_obj_eq [OF run_def [unfolded shutdown_run_def Let_def joined_def [symmetric]
            plane_def [symmetric] p prod.case]]])
        (auto split: option.split)
  qed
  show "map fst run =
      [Cancel_Everything, Close_Websocket, Close_Grpc, Close_Http, Connections_Joined,
       if snd plane = None then Data_Plane_Abandoned else Data_Plane_Joined]
      @ (if ft_acme ft = None then [] else [Acme_Joined]) @ [Client_Address_Joined]
      @ (if finished then [] else [Blocking_Joined]) @ [Cancel_Observability, Observability_Joined]"
    by (cases "ft_acme ft"; cases finished) (simp_all add: unfold p)
  show "snd (last run) = foldl max (fst plane)
      ((case ft_acme ft of None \<Rightarrow> [] | Some t \<Rightarrow> [t]) @ [ft_client_address ft]
       @ (if finished then [] else [ft_blocking ft]) @ [ft_observability ft])"
    by (cases "ft_acme ft"; cases finished) (simp_all add: unfold p)
qed

lemma drop_connections_sel:
  "up_idle (drop_connections sem is p) = up_idle p" "up_shutdown (drop_connections sem is p) = up_shutdown p"
proof -
  have one: "up_shutdown (drop_connection sem i q) = up_shutdown q" for i q
    by (simp add: drop_connection_def drop_control_def update_control_def release_connection_def Let_def)
  show "up_idle (drop_connections sem is p) = up_idle p" "up_shutdown (drop_connections sem is p) = up_shutdown p"
    by (induction "is" arbitrary: p) (simp_all add: drop_connections_def one)
qed

lemma reap_after_shutdown:
  "up_shutdown p \<Longrightarrow> up_idle (reap_idle sem closed now p) = [] \<and> up_http2 (reap_idle sem closed now p) = None"
proof -
  assume "up_shutdown p"
  moreover have "up_idle (drop_http2 sem q) = up_idle q" for q by (simp add: drop_http2_def split: option.splits)
  moreover have "up_http2 (drop_http2 sem q) = None" for q by (simp add: drop_http2_def drop_connection_def
      drop_control_def update_control_def release_connection_def Let_def split: option.splits)
  ultimately show ?thesis by (simp add: reap_idle_def Let_def drop_connections_sel case_prod_beta)
qed

lemma count_tick_bound: "fst c < 6 \<Longrightarrow> fst (count_tick c) < 6"
proof -
  assume "fst c < 6"
  then have "unat (fst c) < 6" by (simp add: word_less_nat_alt)
  then have "unat (fst c + 1) = unat (fst c) + 1" by (simp add: unat_word_ariths)
  then show ?thesis using \<open>unat (fst c) < 6\<close>
    by (auto simp: count_tick_def Let_def word_less_nat_alt word_unat_eq_iff split: prod.splits)
qed

text \<open>
  A renewal cut between its two renames: if the library refuses the new key beside the old certificate,
  the gateway cannot be started from that directory.
\<close>

lemma unreadable_pair_stops_launch:
  assumes "discover_pairs (su_scan su) (co_tls co) = Inr pairs" "(i, cp, kp) \<in> set pairs"
    "\<And>ps. mset (te_order (su_scan su) ps) = mset ps" "\<not> is_ok (read_pair lib (su_scan su) fs (i, cp, kp))"
  shows "\<not> is_ok (gateway_launch sem lib al su co fs)"
  using mismatched_pair_stops_load [OF assms]
  by (auto simp: is_ok_iff gateway_launch_def startup_store_def store_load_def)

end
