(* ===== verification/Spec2Isabelle.thy ===== *)
theory Spec2Isabelle
  imports Routing Client_Address Cloudflare Route_Table Grpc_Routes Http_Routes Websocket_Message Ip_Blocking Http_Headers Settings Config Upstream_Pool Pool_System Http_Proxy Observability Relay_Diagnostics Relay_Pump Relay_Correct Relay Tcp_Relay Websocket_Accept Grpc_Proxy Admission Listener Gateway Certificates Acme_Storage Acme_Http01 Acme_Manager Extended_Connect Gateway_Run
begin

text \<open>
  Verification of the edge gateway (\<open>src/\<close>): a TLS terminating gateway in front of loopback
  backends, written in Rust.  This theory imports the others and states the properties C1, C2, ...;
  the lemmas they rest on are in the component theories.

  The program and its model.  A configuration file is validated and turned into tables
  (\<open>config/mod.rs\<close>); the listener (\<open>gateway/listener.rs\<close>) accepts connections, and
  \<open>handle_request\<close> takes every request through one gate: host and server name, path, route,
  client address, blocks, header limits, gRPC form, request permit.  What gets in goes to a
  WebSocket backend and then to a relay of two pumps, to a gRPC backend, or to a pool of HTTP
  upstream connections.  Violations of the protocols are counted per client and end in blocks that
  are written to disk.  Certificates are read from a directory into an index of names; a manager
  orders new ones from an authority, validates them against the index, stores them and reloads it.

  Shared theories.  \<open>Prelude\<close> (results, saturating arithmetic, \<open>try_fold\<close>, the simplification set
  \<open>eval_simps\<close> that evaluates definitions), \<open>Rust_Str\<close> and \<open>Utf8\<close> (the string functions the code
  uses), \<open>Http_Lib\<close> (the http crate as a record of operations with the documented laws in the locale
  \<open>header_map\<close>, provided by association lists), \<open>Semaphores\<close> (tokio's semaphore as the locale
  \<open>semaphore\<close>, provided by a counter), \<open>File_Sys\<close> (files as a map, with faults), \<open>Host_Tables\<close> (the
  locale \<open>keyed_routes\<close> of the three route tables).

  Components, theory by source.
  \<open>Routing\<close>: \<open>routing/mod.rs\<close>.  \<open>Net\<close>: \<open>security/network.rs\<close> with the address parser.
  \<open>Client_Address\<close>: \<open>security/client_address.rs\<close>.  \<open>Cloudflare\<close>: \<open>security/cloudflare.rs\<close>.
  \<open>Route_Table\<close>, \<open>Grpc_Routes\<close>, \<open>Http_Routes\<close>: \<open>routes/table.rs\<close>, \<open>grpc/routes.rs\<close>,
  \<open>http_proxy/routes.rs\<close>.  \<open>Upstream_Config\<close>: \<open>http_proxy/config.rs\<close>.
  \<open>Settings\<close> and \<open>Config\<close>: \<open>config/mod.rs\<close>.
  \<open>Ip_Blocking_Config\<close>, \<open>Ip_Blocking_Persistence\<close>, \<open>Ip_Blocking\<close>: the three files
  \<open>security/ip_blocking*.rs\<close>.
  \<open>Http_Headers\<close>: \<open>http_proxy/headers.rs\<close>.  \<open>Upstream_Pool\<close>, \<open>Pool_Accounts\<close> and \<open>Pool_System\<close>:
  \<open>http_proxy/pool.rs\<close>, its operations, its permits and all interleavings.  \<open>Http_Proxy\<close>:
  \<open>http_proxy/runtime.rs\<close>.
  \<open>Websocket_Message\<close>: \<open>gateway/websocket_message.rs\<close>.  \<open>Websocket_Accept\<close>:
  \<open>gateway/websocket.rs\<close>.  \<open>Relay_Diagnostics\<close>, \<open>Relay_Pump\<close>, \<open>Relay_Correct\<close>, \<open>Relay\<close> and
  \<open>Tcp_Relay\<close>: \<open>gateway/relay.rs\<close>, its counters, one step of each pump, what such a step preserves,
  and the two supervisors.
  \<open>Grpc_Proxy\<close>: \<open>grpc/proxy.rs\<close>.  \<open>Observability\<close>: \<open>observability/runtime.rs\<close>.
  \<open>Admission\<close>: \<open>gateway/admission.rs\<close>, \<open>gateway/body.rs\<close> and the permits of
  \<open>gateway/listener.rs\<close>.  \<open>Listener\<close>: \<open>handle_request\<close>.  \<open>Gateway\<close>: \<open>gateway/mod.rs\<close> and \<open>run\<close>.
  \<open>Extended_Connect\<close>: \<open>gateway/h2_websocket.rs\<close>, reading and the bounded channel of writing.
  \<open>Certificates\<close>: \<open>tls/store.rs\<close> and \<open>tls/resolver.rs\<close>.  \<open>Acme_Storage\<close>, \<open>Acme_Http01\<close> and
  \<open>Acme_Manager\<close>: the three files of \<open>acme/\<close>; the manager carries the files with all states they went
  through and a log of what it told the authority, which the code does not have.
  \<open>Gateway_Run\<close>: \<open>main.rs\<close>, the start with certificates, the end of a connection
  (\<open>serve_connection\<close>) and of \<open>run\<close>, and the maintenance of the pools.

  State and steps.  A struct is a record, an enum a datatype, a fallible function returns a sum with
  the error on the left.  Counters of 64 bits that wrap or saturate are words; lengths and limits
  are natural numbers, with saturation written out.  Times are nanoseconds.  A future or a select is
  a machine whose steps are the pieces between two suspension points; which branch is ready, what a
  peer sends and what becomes of a write are chosen by the environment.  Pools, relays, gRPC
  backends, admission and the block runtime are step relations; their theorems hold in every state
  that can be reached, so under every interleaving.  In a relay the lock, the write and the flush of
  one frame are one step whose outcome says how far they got; the diagnostics of a pump may still be
  seen in any stage in between (\<open>seen_diagnostics\<close>).  Errors of reading and panics of a pump are steps
  of the environment.  A pump that returns drops what it owns: the writing half of a TCP stream is
  shut down by that.  The semaphore of all upstream connections appears in the machine of each pool
  with the other pools as environment.

  What the groups of lemmas show.  Tables: a lookup finds exactly the enabled specifications.
  Configuration: an accepted file has every bound of the sections and consistent tables.  Addresses:
  only a Cloudflare peer speaks for another address, and every backend is told the address that was
  resolved.  Blocks: bounds, thresholds, deadlines, atomic persistence and restart.  Pools, gRPC and
  admission: permits and their holders add up, nothing leaks.  Relays: the frames forwarded are the
  messages that were read, blame falls on the client alone and once, closing is the last write, and
  the steps of a shutdown alone end every relay (the locale \<open>drain\<close>: as many steps as there is work).
  Gateway: what passed the gate, that a backend exists for it, what the refusals cost, and how long
  connections and relays can hold up its end.  Certificates: loading is one check that no two names coincide, in any order, and a
  lookup is a search of the loaded pairs.  Renewal: no challenge is announced before it is answered,
  nothing is written before it was validated, a validated pair can be activated, every due
  certificate is tried, and the files of a pair are old or new at every moment; also what a renewal
  cut between its two renames does to a restart.

  Bounds and fuel.  The shutdown loop of the block manager takes as fuel one turn more than there
  are pending activations, which is proved to suffice (\<open>block_shutdown_ends\<close>); no other definition
  uses fuel.  A relay is over after six steps of the shutdown at most.  The exactness of counters is stated below \<open>2 ^ 64\<close> events.

  Parameters.  The http crate, tokio's semaphores, JSON, TOML, TLS and certificate parsing, the HTTP
  drivers, the WebSocket frame reader and handshake of fastwebsockets, the ACME client, clocks,
  directory scans, address hashes and file system faults are arguments or records of environment
  answers.  Where the code relies on their documentation, the laws are locale assumptions with an
  interpretation on a concrete provider.  That a scan shows the directory as it is
  (\<open>scan_current\<close>) is a hypothesis where it is needed.  When the peers of a connection act, and when the
  tasks of the data plane and of the maintenance end after a cancellation, are arguments of the end
  of \<open>run\<close>.

  Not modelled.  Log lines, and so \<open>log_closed\<close> of \<open>gateway/relay.rs\<close>; file permissions.  The
  configuration calls of the HTTP server (\<open>gateway/listener.rs\<close>) and of the TLS acceptor
  (\<open>tls/mod.rs\<close>).  The byte copying of upgraded HTTP tunnels (\<open>http_proxy/runtime.rs\<close>), a call of the
  I/O library.  What is left of a maintenance cycle that is cancelled midway: the files are then in
  one of the states of the history, and the challenge listener ends with it.  \<open>fallback/mod.rs\<close>,
  which no module declares.
\<close>

section \<open>Inputs of the witnesses\<close>

definition sample_uri :: "string option \<Rightarrow> uri" where
  "sample_uri authority =
     \<lparr> u_scheme = None, u_authority = authority, u_host = authority, u_port = None,
       u_path = ''/'', u_query = None, u_path_and_query = Some ''/'' \<rparr>"

definition sample_address :: "ip_addr \<Rightarrow> resolved_client_address" where
  "sample_address ip =
     \<lparr> ra_peer = \<lparr> sa_ip = ip, sa_port = 443 \<rparr>, ra_client_ip = ip,
       ra_client_ip_source = ''direct_peer'', ra_trusted_proxy = False \<rparr>"

text \<open>A parser that reads the scheme of a URL and answers with a loopback origin.\<close>

definition sample_parse :: "string \<Rightarrow> string + uri" where
  "sample_parse s = Inr
     \<lparr> u_scheme = (if starts_with s ''http'' then Some ''http''
                   else if starts_with s ''h2c'' then Some ''h2c'' else Some ''ws''),
       u_authority = Some ''127.0.0.1:9000'', u_host = Some ''127.0.0.1'', u_port = Some 9000,
       u_path = ''/'', u_query = None, u_path_and_query = Some ''/'' \<rparr>"

definition sample_lib :: "fields http_lib" where
  "sample_lib = list_http sample_parse"

definition sample_route :: "string \<Rightarrow> bool \<Rightarrow> route_spec" where
  "sample_route name on =
     \<lparr> rs_id = name, rs_host = ''edge.io'', rs_path = ''/api/pc/'' @ name,
       rs_backend = ''ws://127.0.0.1:9000/ws'', rs_enabled = on,
       rs_security = \<lparr> cloudflare_only = False \<rparr>, rs_handshake = default_handshake \<rparr>"

definition sample_grpc_route :: grpc_route_spec where
  "sample_grpc_route =
     \<lparr> gs_id = ''g'', gs_host = ''edge.io'', gs_path = ''/a.B/C'', gs_backend = ''h2c://127.0.0.1:9000'',
       gs_enabled = True, gs_security = \<lparr> cloudflare_only = False \<rparr> \<rparr>"

definition sample_http_route :: "string \<Rightarrow> string \<Rightarrow> path_match \<Rightarrow> rewrite \<Rightarrow> file_http_route_config" where
  "sample_http_route name path kind rw =
     \<lparr> fr_id = name, fr_host = ''edge.io'', fr_path = path, fr_path_match = kind, fr_rewrite = rw,
       fr_replacement_prefix = None, fr_enabled = True, fr_security = \<lparr> cloudflare_only = False \<rparr>,
       fr_upstream = \<lparr> fu_endpoint = ''http://127.0.0.1:9000'', fu_protocol = Proto_Http1,
         fu_host_header = Host_Preserve, fu_tls_server_name = ''request_host'', fu_ca_file = None,
         fu_pool = default_file_pool_config \<rparr> \<rparr>"

definition no_faults :: write_faults where
  "no_faults = \<lparr> wf_create = No_Fault, wf_write = No_Fault, wf_flush = No_Fault,
     wf_sync = No_Fault, wf_rename = No_Fault, wf_remove = No_Fault \<rparr>"

definition sample_env :: persist_env where
  "sample_env = \<lparr> pe_mkdir = Inr (), pe_clock = Inr (), pe_temp = ''/t'',
     pe_faults = no_faults \<rparr>"

text \<open>A block list for two invalid WebSocket requests, on an empty file system.\<close>

definition sample_blocking :: ip_blocking_config where
  "sample_blocking =
     \<lparr> bc_file = default_ip_blocking_config\<lparr>fb_enabled := True, fb_state_file := ''/b'',
         fb_thresholds := default_thresholds\<lparr>vt_invalid_websocket := 2\<rparr>\<rparr>, bc_allow = [] \<rparr>"

definition sample_record :: block_record where
  "sample_record = \<lparr> br_client_ip = V4 7, br_created_at_unix_seconds = 0,
     br_expires_at_unix_seconds = block_seconds, br_rule = Invalid_Websocket, br_observed_count = 2 \<rparr>"

definition sample_file :: "block_record list \<Rightarrow> block_file" where
  "sample_file rs = \<lparr> bf_version = 1, bf_blocks = rs \<rparr>"

definition sample_json :: block_json where
  "sample_json = \<lparr>
     bj_to_vec = (\<lambda>f. if f = sample_file [] then Inr ''0''
                      else if f = sample_file [sample_record] then Inr ''1'' else Inl []),
     bj_from_slice = (\<lambda>b. if b = ''0'' then Inr (sample_file [])
                      else if b = ''1'' then Inr (sample_file [sample_record]) else Inl []) \<rparr>"

definition sample_block :: active_block where
  "sample_block = \<lparr> ab_record = sample_record, ab_deadline = from_secs block_seconds \<rparr>"

lemma sample_json_roundtrip: "json_roundtrip sample_json"
  by unfold_locales (auto simp: sample_json_def split: if_splits)

definition sample_write :: "instant \<Rightarrow> write_env" where
  "sample_write now = \<lparr> we_now = now, we_nanos = Inr (), we_temp = ''/t'', we_faults = no_faults,
     we_dir_open = None, we_dir_sync = None, we_orphan_remove = No_Fault \<rparr>"

definition sample_load :: load_env where
  "sample_load = \<lparr> le_mkdir = None, le_open_lock = None, le_try_lock = None, le_open = None,
     le_metadata = None, le_read = None, le_wall = Inr 0, le_monotonic = 0, le_write = sample_write 0 \<rparr>"

definition sample_runtime :: ip_blocking_runtime where
  "sample_runtime = \<lparr> ib_config = sample_blocking, ib_durable = [], ib_temporary = [],
     ib_windows = replicate shards [], ib_pending = [], ib_notified = False, ib_accepting = True,
     ib_writer = Some \<lparr> sw_path = ''/b'', sw_cleanup_temp = None \<rparr>,
     ib_counters = zero_counters \<rparr>"

definition sample_work :: "instant \<Rightarrow> work_env" where
  "sample_work now = \<lparr> wk_now = now, wk_wall = Inr 0, wk_write = sample_write now \<rparr>"

lemmas sample_defs =
  sample_uri_def sample_address_def sample_parse_def sample_lib_def sample_route_def
  sample_grpc_route_def sample_http_route_def sample_env_def no_faults_def
  sample_blocking_def sample_record_def sample_file_def sample_json_def sample_write_def sample_load_def sample_runtime_def
  sample_work_def default_ip_blocking_config_def default_thresholds_def

lemma sample_load_runtime:
  "ip_blocking_load sample_json sample_load sample_blocking Map.empty
     = (Inr sample_runtime, [''/b'' \<mapsto> ''0''])"
  by (simp add: eval_simps sample_defs load_blocklist_def io_check_def persist_blocklist_def
      live_records_def write_snapshot_def not_found_def max_state_bytes_def)

lemma sample_blocking_ok: "ip_blocking_config_ok sample_blocking"
  by (simp add: ip_blocking_config_ok_def sample_defs)

lemma sample_runtime_ok: "runtime_ok [] 0 sample_runtime"
  using system_ok_loaded [OF sample_load_runtime sample_blocking_ok, of 0]
  by (simp add: system_ok_def loaded_system_def sample_runtime_def sample_load_def)


text \<open>A configuration with a route of each kind, read from a file system that holds only its file.\<close>

definition sample_file_config :: file_config where
  "sample_file_config =
     \<lparr> fl_security = default_file_security_config\<lparr>fs_health_peer_cidrs := []\<rparr>,
       fl_http_proxy = default_file_http_proxy_config,
       fl_routing = default_file_routing_config,
       fl_server = default_file_server_config \<lparr> sa_ip = V4 0, sa_port = 443 \<rparr>,
       fl_tls = \<lparr> ft_cert_dir = ''/c'', ft_cert_suffix = default_tls_cert_suffix,
         ft_key_suffix = default_tls_key_suffix, ft_default_certificate = None \<rparr>,
       fl_acme = None, fl_observability = None, fl_fallback = None,
       fl_routes = [sample_route ''a'' True], fl_grpc_routes = [sample_grpc_route],
       fl_http_routes = [sample_http_route ''r'' ''/'' Prefix Preserve] \<rparr>"

definition sample_security :: security_env where
  "sample_security = \<lparr> sv_json = sample_json, sv_blocklist = sample_load, sv_cache_read = None,
     sv_download_v4 = Inl [], sv_download_v6 = Inl [], sv_cache_write = sample_env \<rparr>"

definition sample_config_load :: "(config_error + config) \<times> fs" where
  "sample_config_load =
     config_load sample_lib (\<lambda>s. Inr sample_file_config) None sample_security ''/e'' [''/e'' \<mapsto> []]"

lemmas sample_config_defs =
  sample_defs sample_file_config_def sample_security_def sample_config_load_def

lemma sample_security_checks:
  "\<exists>x. security_checks d False (default_file_security_config\<lparr>fs_health_peer_cidrs := []\<rparr>) = Inr ([], None, x)
     \<and> \<not> fb_enabled (bc_file x)"
  by (simp add: eval_simps sample_config_defs from_secs_def ip_blocking_validate_def check_threshold_def)

lemma sample_security_ok:
  "\<exists>x. security_validate env d False (default_file_security_config\<lparr>fs_health_peer_cidrs := []\<rparr>) fs = (Inr x, fs)"
proof -
  obtain b where "security_checks d False (default_file_security_config\<lparr>fs_health_peer_cidrs := []\<rparr>) = Inr ([], None, b)"
    "\<not> fb_enabled (bc_file b)" using sample_security_checks by blast
  then show ?thesis by (simp add: security_validate_def ip_blocking_load_def cf_load_def)
qed

lemma sample_static: "\<exists>complete. static_checks sample_lib d sample_file_config = Inr complete"
  by (simp add: eval_simps sample_config_defs default_file_http_proxy_config_def default_file_pool_config_def)

lemma sample_config_ok: "\<exists>co. sample_config_load = (Inr co, [''/e'' \<mapsto> []])"
proof -
  have "path_parent ''/e'' = Some ''/''" "from_utf8 [] = Utf8_Ok"
    by (simp_all add: eval_simps from_utf8_def)
  moreover obtain complete where "static_checks sample_lib ''/'' sample_file_config = Inr complete"
    using sample_static by blast
  moreover obtain x where "security_validate sample_security ''/'' False (fl_security sample_file_config)
      [''/e'' \<mapsto> []] = (Inr x, [''/e'' \<mapsto> []])"
    using sample_security_ok by (fastforce simp: sample_file_config_def)
  moreover have "\<not> needs_cloudflare sample_file_config"
    by (simp add: needs_cloudflare_def sample_config_defs)
  ultimately show ?thesis
    by (simp add: sample_config_load_def config_load_def config_validate_def)
qed

text \<open>The same with a route that is restricted to Cloudflare and a cache file, and with two managed certificates.\<close>

definition sample_cloudflare_config :: file_config where
  "sample_cloudflare_config = sample_file_config\<lparr>
     fl_security := default_file_security_config\<lparr>fs_health_peer_cidrs := [], fs_cloudflare := Some ''/k''\<rparr>,
     fl_routes := [(sample_route ''a'' True)\<lparr>rs_security := \<lparr> cloudflare_only = True \<rparr>\<rparr>]\<rparr>"

definition sample_cloudflare_fs :: fs where
  "sample_cloudflare_fs = [''/e'' \<mapsto> [], ''/k'' \<mapsto> ''1.0.0.0/8'' @ [CHR 0x0A] @ ''2400::/16'']"

definition sample_cloudflare_load :: "(config_error + config) \<times> fs" where
  "sample_cloudflare_load =
     config_load sample_lib (\<lambda>s. Inr sample_cloudflare_config) None sample_security ''/e'' sample_cloudflare_fs"

definition sample_acme :: file_acme_config where
  "sample_acme =
     \<lparr> fa_enabled = True, fa_http01_listen = default_acme_http01_listen, fa_email = Some ''a@b'',
       fa_environment = File_Staging, fa_state_dir = ''/s'', fa_fallback_renew_before_days = 30,
       fa_check_interval_hours = 12,
       fa_certificates = [\<lparr> cc_id = ''x'', cc_domains = [''b.io'', ''a.io''] \<rparr>, \<lparr> cc_id = ''y'', cc_domains = [''c.io''] \<rparr>] \<rparr>"

definition sample_acme_config :: file_config where
  "sample_acme_config = sample_file_config\<lparr>fl_acme := Some sample_acme\<rparr>"

definition sample_acme_load :: "(config_error + config) \<times> fs" where
  "sample_acme_load =
     config_load sample_lib (\<lambda>s. Inr sample_acme_config) None sample_security ''/e'' [''/e'' \<mapsto> []]"

lemma sample_load_steps:
  assumes "static_checks lib ''/'' c = Inr complete" "fs ''/e'' = Some []"
    and "security_validate env ''/'' (needs_cloudflare c) (fl_security c) fs = (Inr x, fs)"
  shows "\<exists>co. config_load lib (\<lambda>s. Inr c) None env ''/e'' fs = (Inr co, fs)"
proof -
  have "path_parent ''/e'' = Some ''/''" "from_utf8 [] = Utf8_Ok"
    by (simp_all add: eval_simps from_utf8_def)
  with assms show ?thesis by (simp add: config_load_def config_validate_def)
qed

lemma sample_acme_static: "\<exists>complete. static_checks sample_lib ''/'' sample_acme_config = Inr complete"
  by (simp add: eval_simps sample_config_defs sample_acme_config_def sample_acme_def
      default_file_http_proxy_config_def default_file_pool_config_def)

lemma sample_acme_ok: "\<exists>co. sample_acme_load = (Inr co, [''/e'' \<mapsto> []])"
proof -
  obtain complete where "static_checks sample_lib ''/'' sample_acme_config = Inr complete"
    using sample_acme_static by blast
  moreover obtain x where "security_validate sample_security ''/'' False (fl_security sample_file_config)
      [''/e'' \<mapsto> []] = (Inr x, [''/e'' \<mapsto> []])"
    using sample_security_ok by (fastforce simp: sample_file_config_def)
  moreover have "\<not> needs_cloudflare sample_acme_config"
    by (simp add: needs_cloudflare_def sample_config_defs sample_acme_config_def)
  ultimately show ?thesis
    unfolding sample_acme_load_def
    by (intro sample_load_steps) (simp_all add: sample_acme_config_def)
qed

lemma sample_cloudflare_static: "\<exists>complete. static_checks sample_lib ''/'' sample_cloudflare_config = Inr complete"
  by (simp add: eval_simps sample_config_defs sample_cloudflare_config_def
      default_file_http_proxy_config_def default_file_pool_config_def)

lemma sample_cloudflare_checks:
  "\<exists>x. security_checks ''/'' True (fl_security sample_cloudflare_config) = Inr ([], Some ''/k'', x)
     \<and> \<not> fb_enabled (bc_file x)"
  by (simp add: eval_simps sample_config_defs sample_cloudflare_config_def from_secs_def
      ip_blocking_validate_def check_threshold_def)

lemma sample_cloudflare_source:
  "\<exists>ns. parse_networks (''1.0.0.0/8'' @ [CHR 0x0A] @ ''2400::/16'') = Inr ns"
  by (simp add: eval_simps)

lemma sample_cloudflare_networks:
  "\<exists>cf. cf_load None v4 v6 env (Some ''/k'') sample_cloudflare_fs = (Inr cf, sample_cloudflare_fs)"
proof -
  let ?source = "''1.0.0.0/8'' @ [CHR 0x0A] @ ''2400::/16''"
  obtain ns where "parse_networks ?source = Inr ns" using sample_cloudflare_source by blast
  moreover have "from_utf8 ?source = Utf8_Ok" by (simp add: eval_simps)
  moreover have "sample_cloudflare_fs ''/k'' = Some ?source" by (simp add: sample_cloudflare_fs_def)
  ultimately have "read_cache None ''/k'' sample_cloudflare_fs = Inr ns"
    by (simp add: read_cache_def cf_max_file_bytes_def)
  then show ?thesis by (simp add: cf_load_def cf_max_file_bytes_def)
qed

lemma sample_cloudflare_ok: "\<exists>co. sample_cloudflare_load = (Inr co, sample_cloudflare_fs)"
proof -
  obtain complete where static: "static_checks sample_lib ''/'' sample_cloudflare_config = Inr complete"
    using sample_cloudflare_static by blast
  obtain b where checks: "security_checks ''/'' True (fl_security sample_cloudflare_config) = Inr ([], Some ''/k'', b)"
    "\<not> fb_enabled (bc_file b)"
    using sample_cloudflare_checks by blast
  obtain cf where "cf_load None (Inl []) (Inl []) sample_env (Some ''/k'') sample_cloudflare_fs = (Inr cf, sample_cloudflare_fs)"
    using sample_cloudflare_networks by blast
  with checks have "\<exists>x. security_validate sample_security ''/'' True (fl_security sample_cloudflare_config)
      sample_cloudflare_fs = (Inr x, sample_cloudflare_fs)"
    by (simp add: security_validate_def ip_blocking_load_def sample_security_def)
  moreover have "needs_cloudflare sample_cloudflare_config"
    by (simp add: needs_cloudflare_def sample_config_defs sample_cloudflare_config_def)
  ultimately show ?thesis
    using static unfolding sample_cloudflare_load_def
    by (auto intro!: sample_load_steps simp: sample_cloudflare_fs_def)
qed

text \<open>An upstream over HTTP/1, its pool, and a request for it.\<close>

definition sample_upstream :: upstream_config where
  "sample_upstream =
     \<lparr> uc_endpoint = ''http://127.0.0.1:9000'', uc_address = \<lparr> sa_ip = V4 2130706433, sa_port = 9000 \<rparr>,
       uc_authority = ''127.0.0.1:9000'', uc_tls = False, uc_protocol = Proto_Http1,
       uc_host_header = Host_Preserve, uc_tls_server_name = Request_Host, uc_ca_file = None,
       uc_pool = \<lparr> pc_max_connections = 4, pc_max_idle_connections = 2, pc_max_active_requests = 8,
         pc_max_pending_requests = 2, pc_idle_timeout = 60, pc_pending_timeout = 5,
         pc_response_header_timeout = 60, pc_body_idle_timeout = 60 \<rparr> \<rparr>"

definition sample_pool :: "nat upstream_pool" where
  "sample_pool =
     \<lparr> up_config = sample_upstream, up_tls_name = None, up_connections = 4, up_global = 4, up_active = 8,
       up_pending = 2, up_gate = 1, up_idle = [], up_http2 = None, up_last_activity = 0,
       up_shutdown = False, up_opened = 0, up_reused = 0, up_rejected = 0, up_controls = [] \<rparr>"

lemma sample_pool_new: "pool_new counter_sem sample_upstream ''edge.io'' 4 (Inr (Inr (0, 0))) 0 = Inr sample_pool"
  by (simp add: pool_new_def sample_upstream_def sample_pool_def counter_sem_def)

definition sample_pool_system :: "nat pool_system" where
  "sample_pool_system = \<lparr> ps_pool = sample_pool, ps_exchanges = [], ps_others = 0 \<rparr>"

definition sample_pool_busy :: "nat pool_system" where
  "sample_pool_busy = \<lparr> ps_pool = sample_pool\<lparr>up_active := 7\<rparr>,
     ps_exchanges = [new_exchange Proto_Http1 True], ps_others = 0 \<rparr>"

lemma sample_pool_reachable: "pool_reachable counter_sem sample_lib sample_pool_system sample_pool_busy"
proof -
  have "begin_exchange counter_sem 0 (ps_pool sample_pool_system) = (Inr (), sample_pool\<lparr>up_active := 7\<rparr>)"
    by (simp add: begin_exchange_def sample_pool_system_def sample_pool_def counter_sem_def record_activity_def)
  from ps_begin [OF this, of sample_lib True]
  have "pool_step counter_sem sample_lib sample_pool_system sample_pool_busy"
    by (simp add: sample_pool_system_def sample_pool_busy_def sample_pool_def sample_upstream_def)
  then show ?thesis unfolding pool_reachable_def by (rule r_into_rtranclp)
qed

lemma sample_pool_two:
  "\<exists>s. pool_reachable counter_sem sample_lib sample_pool_system s \<and> length (ps_exchanges s) = 2"
proof -
  have "begin_exchange counter_sem 0 (ps_pool sample_pool_busy) = (Inr (), sample_pool\<lparr>up_active := 6\<rparr>)"
    by (simp add: begin_exchange_def sample_pool_busy_def sample_pool_def counter_sem_def record_activity_def)
  from ps_begin [OF this, of sample_lib True] obtain s where
    "pool_step counter_sem sample_lib sample_pool_busy s" "length (ps_exchanges s) = 2"
    by (force simp: sample_pool_busy_def)
  with sample_pool_reachable show ?thesis
    unfolding pool_reachable_def by (meson rtranclp.rtrancl_into_rtrancl)
qed

definition sample_get :: "fields request" where
  "sample_get = \<lparr> rq_method = ''GET'', rq_uri = sample_uri (Some ''edge.io''), rq_version = Http_11, rq_headers = [] \<rparr>"

definition sample_admitted :: admitted where
  "sample_admitted = \<lparr> ad_upgrade = False, ad_expected_upgrade = None, ad_authority = ''edge.io'',
     ad_upstream_authority = ''edge.io'', ad_uri = sample_uri None, ad_declared_trailers = Some {},
     ad_force_chunked = True, ad_response_can_have_body = True \<rparr>"

lemma sample_admits:
  "\<exists>ad. proxy_admit sample_lib False sample_upstream ''/'' sample_get \<lparr> bi_end_stream = True, bi_exact = Some 0 \<rparr> = Inr ad"
  by (simp add: eval_simps sample_defs sample_get_def sample_upstream_def map_filter_simps)

lemma sample_http_table:
  "\<exists>t r. http_table_build sample_lib [] {} [sample_http_route ''r'' ''/'' Exact Preserve] = Inr t \<and>
     http_resolve t ''edge.io'' ''/'' = Some r \<and> http_enabled_routes t = [r] \<and>
     \<not> uc_tls (hr_upstream r) \<and> hr_rewrite r = Preserve"
  by (simp add: eval_simps sample_defs default_file_pool_config_def http_enabled_routes_def)

text \<open>The networks of a small published text, a policy with them, a request with a body and an upgrade.\<close>

definition sample_networks :: string where
  "sample_networks = ''1.0.0.0/8'' @ [CHR 0x0A] @ ''2400::/12'' @ [CHR 0x0A]"

definition sample_trust :: client_address_policy where
  "sample_trust = \<lparr> ca_cloudflare = \<lparr> cf_networks = projr (parse_networks sample_networks), cf_cache_file = Some ''/c'' \<rparr>,
     ca_health_peer_networks = [] \<rparr>"

lemma sample_trust_networks: "parse_networks sample_networks = Inr (cf_networks (ca_cloudflare sample_trust))"
  by (simp add: sample_trust_def sample_networks_def eval_simps)

definition sample_stream_body :: body_info where
  "sample_stream_body = \<lparr> bi_end_stream = False, bi_exact = None \<rparr>"

definition sample_no_body :: body_info where
  "sample_no_body = \<lparr> bi_end_stream = True, bi_exact = Some 0 \<rparr>"

definition sample_post :: "fields request" where
  "sample_post = sample_get\<lparr>rq_method := ''POST'', rq_headers := [(''content-length'', ''3''),
     (''transfer-encoding'', ''chunked''), (''connection'', ''close''), (''host'', ''edge.io'')]\<rparr>"

definition sample_upstream_http2 :: upstream_config where
  "sample_upstream_http2 = sample_upstream\<lparr>uc_protocol := Proto_Http2\<rparr>"

definition sample_upgrade_request :: "fields request" where
  "sample_upgrade_request = sample_get\<lparr>rq_headers := [(''connection'', ''Upgrade''), (''upgrade'', ''websocket''),
     (''sec-websocket-version'', ''13''), (''sec-websocket-key'', ''x'')]\<rparr>"

definition sample_switch :: "string \<Rightarrow> fields response" where
  "sample_switch protocol = \<lparr> re_status = 101, re_version = Http_11,
     re_headers = [(''connection'', ''upgrade''), (''upgrade'', protocol)] \<rparr>"

lemmas sample_request_defs = sample_stream_body_def sample_no_body_def sample_post_def sample_upstream_http2_def
  sample_upgrade_request_def sample_switch_def sample_get_def sample_upstream_def

lemma sample_post_admitted:
  "\<exists>ad ad2. proxy_admit sample_lib False sample_upstream ''/'' sample_post sample_stream_body = Inr ad \<and>
     ad_force_chunked ad \<and> proxy_admit sample_lib False sample_upstream_http2 ''/'' sample_post sample_stream_body = Inr ad2"
  by (simp add: eval_simps sample_defs sample_request_defs map_filter_simps)

lemma sample_post_forwarded:
  "proxy_admit sample_lib False sample_upstream ''/'' sample_post sample_stream_body = Inr ad \<Longrightarrow>
     \<exists>sent. forward_request sample_lib sample_upstream (sample_address (V4 7)) ad sample_post = Inr sent"
proof -
  assume "proxy_admit sample_lib False sample_upstream ''/'' sample_post sample_stream_body = Inr ad"
  then have "ad_upstream_authority ad = ''edge.io''"
    by (auto simp: eval_simps sample_defs sample_request_defs map_filter_simps)
  moreover have "hv_from_str sample_lib ''edge.io'' = Some ''edge.io''" by (simp add: eval_simps sample_lib_def)
  ultimately show ?thesis by (simp add: forward_request_def forward_headers_def sample_upstream_def Let_def)
qed

lemma sample_post_forwarded2:
  "\<exists>sent. forward_request sample_lib sample_upstream_http2 (sample_address (V4 7)) ad sample_post = Inr sent"
  by (simp add: forward_request_def forward_headers_def sample_upstream_http2_def Let_def)

lemma sample_upgrade_valid: "valid_upgrade sample_lib sample_upgrade_request sample_no_body"
  by (simp add: eval_simps sample_defs sample_request_defs map_filter_simps)

lemma sample_upgrade_admitted:
  "\<exists>ad. proxy_admit sample_lib False sample_upstream ''/'' sample_upgrade_request sample_no_body = Inr ad"
  by (simp add: eval_simps sample_defs sample_request_defs map_filter_simps)

lemma sample_switch_facts:
  "re_status (sample_switch protocol) = 101"
  "has_token sample_lib (re_headers (sample_switch protocol)) ''connection'' ''upgrade'' \<and>
     length (hm_get_all sample_lib (re_headers (sample_switch protocol)) ''upgrade'') = 1"
  "get_str sample_lib (re_headers (sample_switch ''WebSocket'')) ''upgrade'' = Some ''WebSocket'' \<and>
     eq_ignore_ascii_case ''WebSocket'' ''websocket''"
  "get_str sample_lib (re_headers (sample_switch ''h2c'')) ''upgrade'' = Some ''h2c'' \<and> \<not> eq_ignore_ascii_case ''h2c'' ''websocket''"
  by (simp_all add: eval_simps sample_defs sample_request_defs map_filter_simps)

text \<open>The client that reaches the threshold in the sample block list is restricted.\<close>

lemma sample_restricted:
  "\<exists>s. ib_reachable sample_json (\<lambda>_. 0) (loaded_system 0 sample_runtime [''/b'' \<mapsto> ''0'']) s \<and>
     map fst (ib_temporary (bs_runtime s)) = [V4 7]"
proof -
  let ?s = "loaded_system 0 sample_runtime [''/b'' \<mapsto> ''0'']" and ?a = "sample_address (V4 7)"
  let ?rt1 = "snd (record_window (\<lambda>_. 0) 0 ?a Invalid_Websocket sample_runtime)"
  have w1: "record_window (\<lambda>_. 0) 0 ?a Invalid_Websocket sample_runtime = (None, ?rt1)"
    by (simp add: eval_simps sample_defs from_secs_def sat_add32_def)
  obtain rt2 where w2: "record_window (\<lambda>_. 0) 0 ?a Invalid_Websocket ?rt1 = (Some 2, rt2)"
    and rt2: "ib_pending rt2 = []" "ib_config rt2 = sample_blocking"
    by (simp add: eval_simps sample_defs from_secs_def sat_add32_def)
  have a: "normalize_ip (ra_client_ip ?a) = ra_client_ip ?a" "ra_client_ip ?a = V4 7" by (simp_all add: sample_address_def)
  let ?s1 = "?s\<lparr>bs_runtime := ?rt1\<rparr>"
  let ?s2 = "?s1\<lparr>bs_runtime := rt2, bs_counting := (?a, Invalid_Websocket, 2) # bs_counting ?s1\<rparr>"
  let ?s3 = "?s2\<lparr>bs_runtime := record_pending 0 ?a Invalid_Websocket 2 rt2, bs_counting := []\<rparr>"
  have "ib_step sample_json (\<lambda>_. 0) ?s ?s1"
    by (rule Step_Below [OF a(1)]) (use w1 in \<open>simp add: loaded_system_def\<close>)
  moreover have "ib_step sample_json (\<lambda>_. 0) ?s1 ?s2"
    by (rule Step_Counted [OF a(1)]) (use w2 in \<open>simp add: loaded_system_def\<close>)
  moreover have "ib_step sample_json (\<lambda>_. 0) ?s2 ?s3"
    using Step_Queue [of ?a Invalid_Websocket 2 ?s2 0 sample_json "\<lambda>_. 0"] by (simp add: loaded_system_def)
  ultimately have reached: "ib_reachable sample_json (\<lambda>_. 0) ?s ?s3"
    unfolding ib_reachable_def by (meson rtranclp.rtrancl_into_rtrancl rtranclp.rtrancl_refl)
  have "fb_max_pending_activations (bc_file sample_blocking) = 1024"
    by (simp add: sample_blocking_def default_ip_blocking_config_def)
  then have "map fst (ib_temporary (record_pending 0 ?a Invalid_Websocket 2 rt2)) = [V4 7]"
    using rt2 a(2) by (simp add: record_pending_def publish_temporary_def Let_def)
  then have "map fst (ib_temporary (bs_runtime ?s3)) = [V4 7]" by simp
  with reached show ?thesis by (intro exI [of _ ?s3] conjI)
qed

text \<open>A gateway with an HTTP route, a client and a request for it.\<close>

definition sample_server :: server_config where
  "sample_server =
     \<lparr> sc_listen = \<lparr> sa_ip = V4 0, sa_port = 443 \<rparr>, sc_tls_handshake_timeout = 10,
       sc_websocket_upgrade_timeout = 10, sc_backend_connect_timeout = 10, sc_shutdown_grace = 30,
       sc_max_websocket_message_size = 100, sc_max_grpc_concurrent_streams_per_backend = 8,
       sc_max_connections = 4, sc_max_concurrent_tls_handshakes = 2, sc_max_active_requests = 3,
       sc_max_http_header_count = 100, sc_max_http_header_bytes = 65536,
       sc_max_http2_concurrent_streams = 16, sc_max_http2_send_buffer_bytes = 65536,
       sc_http_header_read_timeout = 10 \<rparr>"

definition sample_state :: service_state where
  "sample_state =
     \<lparr> ss_routing = \<lparr> rp_hosts = {''edge.io''}, rp_require_sni = False, rp_sni_bindings = Map.empty \<rparr>,
       ss_client_address = \<lparr> ca_cloudflare = \<lparr> cf_networks = [], cf_cache_file = None \<rparr>,
         ca_health_peer_networks = [] \<rparr>,
       ss_server = sample_server,
       ss_routes = projr (route_table_build sample_lib []),
       ss_grpc_routes = projr (grpc_table_build sample_lib []), ss_fallback = None,
       ss_http_routes = projr (http_table_build sample_lib [] {} [sample_http_route ''r'' ''/'' Exact Preserve]) \<rparr>"

definition sample_request_env :: request_env where
  "sample_request_env =
     \<lparr> ev_peer = \<lparr> sa_ip = V4 7, sa_port = 443 \<rparr>, ev_sni = None, ev_now = 0, ev_later = 0, ev_hash = (\<lambda>_. 0) \<rparr>"

definition sample_observability :: observability where
  "sample_observability = observability_new observability_off"

definition sample_gate :: "nat gate" where
  "sample_gate = \<lparr> gk_blocking = sample_runtime, gk_observability = sample_observability, gk_capacity = 3 \<rparr>"

definition sample_entry :: "fields entry" where
  "sample_entry = projr (fst (request_gate sample_lib counter_sem sample_state sample_request_env sample_get sample_gate))"

lemmas sample_gate_defs =
  sample_defs sample_state_def sample_server_def sample_request_env_def sample_gate_def sample_get_def
  sample_observability_def observability_off_def

lemma sample_choice:
  "\<exists>r. choose_route sample_state ''edge.io'' ''/'' = To_Http r \<and> \<not> cloudflare_only (hr_security r)"
  by (simp add: eval_simps sample_gate_defs default_file_pool_config_def)

lemma sample_gate_admits:
  "\<exists>entry. request_gate sample_lib counter_sem sample_state sample_request_env sample_get sample_gate
     = (Inr entry, sample_gate\<lparr>gk_capacity := 2\<rparr>)"
proof -
  obtain r where r: "choose_route sample_state ''edge.io'' ''/'' = To_Http r" "\<not> cloudflare_only (hr_security r)"
    using sample_choice by blast
  have "resolve_request_host sample_lib sample_get = Inr ''edge.io''" "is_ok (validate_http_path ''/'')"
    by (simp_all add: eval_simps sample_gate_defs)
  moreover have "\<not> headers_too_large sample_lib sample_state (rq_headers sample_get)"
    by (simp add: headers_too_large_def header_bytes_def sample_gate_defs list_http_def)
  moreover have "is_client_ip_blocked 0 (sample_address (V4 7)) sample_runtime = (False, sample_runtime)"
    by (simp add: eval_simps sample_defs restricted_def)
  moreover have "resolve_client_address sample_lib (ss_client_address sample_state) (ev_peer sample_request_env) []
      (hr_security r) = Inr (sample_address (V4 7))"
    using r(2) by (simp add: resolve_client_address_def cloudflare_contains_def sample_gate_defs)
  ultimately show ?thesis
    using r by (simp add: request_gate_def gate_client_def is_health_check_def permits_request_host_def
        sample_gate_def sample_request_env_def sample_state_def sample_get_def sample_uri_def counter_sem_def)
qed

text \<open>The same gateway, started from a configuration file.\<close>

definition sample_gateway_file :: file_config where
  "sample_gateway_file = sample_file_config\<lparr>fl_routes := [], fl_grpc_routes := [],
     fl_http_routes := [sample_http_route ''r'' ''/'' Exact Preserve]\<rparr>"

definition sample_gateway_load :: "(config_error + config) \<times> fs" where
  "sample_gateway_load =
     config_load sample_lib (\<lambda>s. Inr sample_gateway_file) None sample_security ''/e'' [''/e'' \<mapsto> []]"

definition sample_gateway_env :: gateway_env where
  "sample_gateway_env =
     \<lparr> ge_certificates = \<lparr> cs_empty = False, cs_default_available = True \<rparr>, ge_bind = Inr (),
       ge_listen = ''0.0.0.0:443'', ge_output = Inr (), ge_ca = (\<lambda>f. Inr (Inr (0, 0))), ge_hosts = [],
       ge_started = 0 \<rparr>"

lemma sample_gateway_static: "\<exists>complete. static_checks sample_lib ''/'' sample_gateway_file = Inr complete"
  by (simp add: eval_simps sample_config_defs sample_gateway_file_def default_file_http_proxy_config_def
      default_file_pool_config_def)

lemma sample_gateway_build:
  "\<exists>routes grpc http policy r. build_routes sample_lib ''/'' sample_gateway_file None = Inr (routes, grpc, http, policy) \<and>
     route_resolve routes ''edge.io'' ''/'' = None \<and> grpc_resolve grpc ''edge.io'' ''/'' = None \<and>
     http_resolve http ''edge.io'' ''/'' = Some r \<and> \<not> cloudflare_only (hr_security r) \<and>
     http_enabled_routes http = [r] \<and> \<not> uc_tls (hr_upstream r) \<and>
     permits_request_host policy ''edge.io'' (Some ''edge.io'')"
  by (simp add: eval_simps sample_config_defs sample_gateway_file_def default_file_pool_config_def
      http_enabled_routes_def)

lemma sample_gateway_security:
  "\<exists>rt. security_validate sample_security ''/'' False (fl_security sample_gateway_file) fs =
     (Inr (\<lparr> ca_cloudflare = \<lparr> cf_networks = [], cf_cache_file = None \<rparr>, ca_health_peer_networks = [] \<rparr>, rt), fs)"
proof -
  obtain b where "security_checks ''/'' False (default_file_security_config\<lparr>fs_health_peer_cidrs := []\<rparr>) = Inr ([], None, b)"
    "\<not> fb_enabled (bc_file b)" using sample_security_checks by blast
  then show ?thesis
    by (simp add: security_validate_def ip_blocking_load_def cf_load_def sample_gateway_file_def sample_file_config_def)
qed

lemma sample_gateway_loads:
  "\<exists>co. sample_gateway_load = (Inr co, [''/e'' \<mapsto> []]) \<and> co_fallback co = None \<and>
     co_client_address co = \<lparr> ca_cloudflare = \<lparr> cf_networks = [], cf_cache_file = None \<rparr>, ca_health_peer_networks = [] \<rparr> \<and>
     build_routes sample_lib ''/'' sample_gateway_file None =
       Inr (co_routes co, co_grpc_routes co, co_http_routes co, co_routing co)"
proof -
  have cloudflare: "needs_cloudflare sample_gateway_file = False" "fl_fallback sample_gateway_file = None"
    by (simp_all add: needs_cloudflare_def sample_config_defs sample_gateway_file_def)
  obtain complete where "static_checks sample_lib ''/'' sample_gateway_file = Inr complete"
    using sample_gateway_static by blast
  moreover obtain rt where security: "security_validate sample_security ''/'' False (fl_security sample_gateway_file) [''/e'' \<mapsto> []] =
     (Inr (\<lparr> ca_cloudflare = \<lparr> cf_networks = [], cf_cache_file = None \<rparr>, ca_health_peer_networks = [] \<rparr>, rt), [''/e'' \<mapsto> []])"
    using sample_gateway_security by blast
  moreover have parent: "path_parent ''/e'' = Some ''/''" by (simp add: eval_simps)
  ultimately obtain co where load: "sample_gateway_load = (Inr co, [''/e'' \<mapsto> []])"
    unfolding sample_gateway_load_def
    using sample_load_steps [of sample_lib sample_gateway_file complete "[''/e'' \<mapsto> []]"] cloudflare
    by fastforce
  obtain data c where "Inr sample_gateway_file = (Inr c :: string + file_config)"
    "accepted sample_lib sample_security (case path_parent ''/e'' of Some d \<Rightarrow> d | None \<Rightarrow> ''.'') c
       [''/e'' \<mapsto> []] co [''/e'' \<mapsto> []]"
    by (rule config_load_accepted [OF load [unfolded sample_gateway_load_def]])
  then have ok: "accepted sample_lib sample_security ''/'' sample_gateway_file [''/e'' \<mapsto> []] co [''/e'' \<mapsto> []]"
    using parent by simp
  have fallback: "co_fallback co = None" using ok cloudflare(2) unfolding accepted_def by simp
  have "co_client_address co = \<lparr> ca_cloudflare = \<lparr> cf_networks = [], cf_cache_file = None \<rparr>, ca_health_peer_networks = [] \<rparr>"
    using ok cloudflare(1) security unfolding accepted_def by simp
  with load fallback accepted_build [OF ok] show ?thesis by (intro exI [of _ co]) simp
qed

lemma sample_gateway_starts:
  assumes "build_routes sample_lib ''/'' sample_gateway_file None =
      Inr (co_routes co, co_grpc_routes co, co_http_routes co, co_routing co)"
    and "co_fallback co = None"
  shows "\<exists>gw. gateway_start counter_sem sample_gateway_env co = Inr gw"
proof -
  obtain r where r: "http_enabled_routes (co_http_routes co) = [r]" "\<not> uc_tls (hr_upstream r)"
    using assms(1) sample_gateway_build by force
  then obtain rt where "proxy_runtime_new counter_sem (\<lambda>f. Inr (Inr (0, 0))) 0 [r] None
      (co_max_http_upstream_connections co) = Inr rt"
    by (simp add: proxy_runtime_new_def Let_def add_pool_def pool_new_def)
  then show ?thesis
    using r(1) assms(2) by (simp add: gateway_start_def sample_gateway_env_def startup_certificates_def fallback_pools_def Let_def)
qed

lemma sample_gateway_admits:
  assumes build: "build_routes sample_lib ''/'' sample_gateway_file None =
      Inr (ss_routes st, ss_grpc_routes st, ss_http_routes st, ss_routing st)"
    and client: "ss_client_address st = \<lparr> ca_cloudflare = \<lparr> cf_networks = [], cf_cache_file = None \<rparr>, ca_health_peer_networks = [] \<rparr>"
  shows "\<exists>entry. request_gate sample_lib counter_sem st (sample_request_env\<lparr>ev_sni := Some ''edge.io''\<rparr>)
     sample_get sample_gate = (Inr entry, sample_gate\<lparr>gk_capacity := 2\<rparr>)"
proof -
  obtain r where r: "choose_route st ''edge.io'' ''/'' = To_Http r" "\<not> cloudflare_only (hr_security r)"
    and host: "permits_request_host (ss_routing st) ''edge.io'' (Some ''edge.io'')"
    using build sample_gateway_build by (force simp: choose_route_def)
  have "resolve_request_host sample_lib sample_get = Inr ''edge.io''" "is_ok (validate_http_path ''/'')"
    by (simp_all add: eval_simps sample_gate_defs)
  moreover have "\<not> headers_too_large sample_lib st (rq_headers sample_get)"
    by (simp add: headers_too_large_def header_bytes_def sample_gate_defs list_http_def)
  moreover have "is_client_ip_blocked 0 (sample_address (V4 7)) sample_runtime = (False, sample_runtime)"
    by (simp add: eval_simps sample_defs restricted_def)
  moreover have "resolve_client_address sample_lib (ss_client_address st) \<lparr> sa_ip = V4 7, sa_port = 443 \<rparr> []
      (hr_security r) = Inr (sample_address (V4 7))"
    using r(2) by (simp add: resolve_client_address_def cloudflare_contains_def client sample_gate_defs)
  ultimately show ?thesis
    using r host by (simp add: request_gate_def gate_client_def is_health_check_def
        sample_gate_def sample_request_env_def sample_get_def sample_uri_def counter_sem_def)
qed

text \<open>A health check from elsewhere.\<close>

definition sample_health :: "fields request" where
  "sample_health = sample_get\<lparr>rq_uri := (sample_uri (Some ''edge.io''))\<lparr>u_path := ''/health/live''\<rparr>\<rparr>"

lemma sample_health_refused:
  "request_gate sample_lib counter_sem sample_state sample_request_env sample_health sample_gate =
     (Inl (text_response sample_lib (403, ''forbidden\<newline>'')), gate_reject Origin_Peer sample_gate)"
  by (simp add: request_gate_def is_health_check_def permits_health_peer_def sample_health_def
      sample_state_def sample_get_def sample_uri_def sample_request_env_def)

text \<open>Relays that have read one message, or one malformed frame, from the client.\<close>

definition sample_message :: frame where
  "sample_message = \<lparr> fm_fin = True, fm_opcode = Text, fm_payload = ''hi'' \<rparr>"

definition sample_clock :: clock where
  "sample_clock = \<lparr> ck_read = 0, ck_forwarded = 0, ck_written = 0, ck_end = 0 \<rparr>"

lemma sample_due: "due_frames 100 [sample_message] = [sample_message]"
  by (simp add: eval_simps due_frames_def sample_message_def passes_def)

lemma sample_relay_event:
  assumes "pump_step Client_To_Backend True sample_clock event
      (ry_up (relay_start 100 ob), up_link (relay_start 100 ob)) = (pump, link)"
    and "event_cancels event = False"
  shows "\<exists>s. relay_reachable frame_close (relay_start 100 ob) s \<and> ry_up s = pump \<and> ry_violations s = lk_violations link"
proof -
  have start: "\<not> is_ended (ry_phase (relay_start 100 ob))" "ry_up_task (relay_start 100 ob) = Task_Active"
    "pu_report (ry_up (relay_start 100 ob)) = None"
    by (simp_all add: relay_start_def is_ended_def pump_new_def)
  have "event_cancels event \<longrightarrow> ry_phase (relay_start 100 ob) \<noteq> Running" using assms(2) by simp
  note step = ry_up_event [OF start this assms(1), of frame_close]
  show ?thesis by (rule exI, rule conjI [OF reachable_step [OF reachable_refl step]]) simp
qed

lemma sample_relay_message:
  "\<exists>s. relay_reachable frame_close (relay_start 100 ob) s \<and> pu_frames (ry_up s) = [sample_message] \<and>
     pu_report (ry_up s) = None"
proof -
  obtain pump link where step: "pump_step Client_To_Backend True sample_clock (Ev_Frame sample_message Write_Done)
      (ry_up (relay_start 100 ob), up_link (relay_start 100 ob)) = (pump, link)" by fastforce
  then have "pu_frames pump = [sample_message]" "pu_report pump = None"
    by (auto simp: eval_simps sample_message_def relay_start_def)
  with sample_relay_event [OF step] show ?thesis by auto
qed


lemma sample_tcp_message:
  "\<exists>s. tcp_relay_reachable frame_close (tcp_relay_start 100 ob) s \<and> wt_frames (tr_up s) = [sample_message] \<and>
     wt_report (tr_up s) = None \<and> tr_up_task s = Task_Active"
proof -
  let ?s = "tcp_relay_start 100 ob"
  obtain pump link where step: "ws_tcp_step True sample_clock (Wt_Frame sample_message Stream_Done True)
      (tr_up ?s, tr_up_link ?s) = (pump, link)" by fastforce
  then have "wt_frames pump = [sample_message]" "wt_report pump = None"
    by (auto simp: eval_simps sample_message_def tcp_relay_start_def)
  moreover have "\<not> is_ended (tr_phase ?s)" "tr_up_task ?s = Task_Active" "wt_report (tr_up ?s) = None"
    "ws_tcp_cancels (Wt_Frame sample_message Stream_Done True) \<longrightarrow> tr_phase ?s \<noteq> Running"
    by (simp_all add: tcp_relay_start_def is_ended_def ws_tcp_new_def)
  note event = tr_up_event [OF this step, of frame_close]
  let ?t = "?s\<lparr>tr_up := pump, tr_client := tk_own link, tr_stream := tk_stream link,
      tr_ob := tk_ob link, tr_violations := tk_violations link\<rparr>"
  have "tcp_relay_reachable frame_close ?s ?t"
    unfolding tcp_relay_reachable_def using event by (rule r_into_rtranclp)
  with calculation show ?thesis by (intro exI [of _ ?t]) (simp add: tcp_relay_start_def)
qed

text \<open>A handshake with a WebSocket backend, and a gRPC backend.\<close>

definition sample_endpoint :: websocket_backend where
  "sample_endpoint =
     \<lparr> wb_display = ''ws://127.0.0.1:9000'', wb_address = \<lparr> sa_ip = V4 2130706433, sa_port = 9000 \<rparr>,
       wb_request_target = sample_uri None, wb_host_header = ''127.0.0.1:9000'' \<rparr>"

definition sample_ws_route :: route where
  "sample_ws_route =
     \<lparr> rt_id = ''a'', rt_host = ''edge.io'', rt_path = ''/'', rt_namespace = Pc,
       rt_backend = Backend_Websocket sample_endpoint, rt_security = \<lparr> cloudflare_only = False \<rparr>,
       rt_handshake = default_handshake \<rparr>"

definition sample_ws :: "fields ws_lib" where
  "sample_ws = \<lparr> wl_is_upgrade = (\<lambda>r. True), wl_upgrade = (\<lambda>r. Inl Invalid_Value), wl_key = ''key'' \<rparr>"

definition sample_metadata :: backend_metadata where
  "sample_metadata =
     \<lparr> bm_transport_id = 1, bm_connection_id = 1, bm_peer = \<lparr> sa_ip = V4 7, sa_port = 443 \<rparr>,
       bm_cf_ray = None, bm_http_version = ''HTTP/1.1'', bm_handshake = ''http1'' \<rparr>"

lemma sample_backend_request:
  "\<exists>headers sent. backend_headers_from sample_lib sample_get sample_ws_route = Inr headers \<and>
     backend_request sample_lib sample_ws sample_ws_route sample_endpoint sample_metadata headers = Inr sent"
  by (simp add: eval_simps sample_defs sample_get_def sample_ws_route_def sample_endpoint_def sample_ws_def
      sample_metadata_def)

definition sample_grpc_backend :: grpc_backend where
  "sample_grpc_backend =
     \<lparr> gb_display = ''h2c://127.0.0.1:9000'', gb_address = \<lparr> sa_ip = V4 2130706433, sa_port = 9000 \<rparr>,
       gb_authority = ''127.0.0.1:9000'', gb_host_header = ''127.0.0.1:9000'' \<rparr>"

text \<open>An exchange that came and went, a pending activation, and a registered connection.\<close>

lemma sample_pool_aborted:
  "\<exists>s. pool_reachable counter_sem sample_lib sample_pool_system s \<and> length (ps_exchanges s) = 1 \<and> quiet s"
proof -
  let ?ex = "new_exchange Proto_Http1 True"
  let ?over = "?ex\<lparr>ex_phase := Over, ex_lease := ex_lease ?ex\<rparr>"
  let ?s1 = "sample_pool_busy\<lparr>ps_pool := settle counter_sem ?over (ps_pool sample_pool_busy), ps_exchanges := [?over]\<rparr>"
  let ?done = "?over\<lparr>ex_upload := False\<rparr>"
  let ?s2 = "?s1\<lparr>ps_pool := settle counter_sem ?done (ps_pool ?s1), ps_exchanges := [?done]\<rparr>"
  have over: "phase_step counter_sem sample_lib (ex_lease ?ex) (ex_phase ?ex) (ps_pool sample_pool_busy)
      (ex_lease ?ex) Over (ps_pool sample_pool_busy)"
    using phase_abort [of "Acquire1 A1_Start" "ex_lease ?ex" "ex_lease ?ex" counter_sem sample_lib "ps_pool sample_pool_busy"]
    by (simp add: new_exchange_def)
  have one: "pool_step counter_sem sample_lib sample_pool_busy ?s1"
    using ps_phase [of 0 sample_pool_busy ?ex counter_sem sample_lib, OF _ _ _ over refl]
    by (simp add: sample_pool_busy_def new_exchange_def)
  have two: "pool_step counter_sem sample_lib ?s1 ?s2"
    using ps_upload_drop [of 0 ?s1 ?over ?done counter_sem sample_lib] by (simp add: new_exchange_def)
  from sample_pool_reachable one two have "pool_reachable counter_sem sample_lib sample_pool_system ?s2"
    unfolding pool_reachable_def by (meson rtranclp.rtrancl_into_rtrancl)
  moreover have "quiet ?s2"
    by (simp add: quiet_def settle_def sample_pool_busy_def sample_pool_def)
  ultimately show ?thesis by (intro exI [of _ ?s2]) simp
qed

definition sample_pending_runtime :: ip_blocking_runtime where
  "sample_pending_runtime = sample_runtime\<lparr>ib_pending := [(V4 7, \<lparr> pb_address = sample_address (V4 7),
     pb_rule = Invalid_Websocket, pb_count = 2, pb_deadline = from_secs temporary_seconds \<rparr>)]\<rparr>"

lemma sample_gauge: "\<exists>g. gauge_step\<^sup>*\<^sup>* gauge_start g \<and> gs_pending g = [] \<and> gs_live g = 1 \<and> gs_most g = 1"
proof -
  let ?a = "fst (increment_active 0)" and ?b = "snd (increment_active 0)"
  let ?g1 = "gauge_start\<lparr>gs_active := ?b, gs_pending := [?a], gs_live := 1, gs_most := 1\<rparr>"
  have "gauge_step gauge_start ?g1"
    using gs_enter [of gauge_start ?a ?b] by (simp add: gauge_start_def u64_max_def)
  moreover have "gauge_step ?g1 (?g1\<lparr>gs_peak := max (gs_peak ?g1) ?a, gs_pending := []\<rparr>)"
    using gs_publish [of ?g1 "[]" ?a "[]"] by simp
  ultimately have "gauge_step\<^sup>*\<^sup>* gauge_start (?g1\<lparr>gs_peak := max (gs_peak ?g1) ?a, gs_pending := []\<rparr>)"
    by (meson rtranclp.rtrancl_into_rtrancl rtranclp.rtrancl_refl)
  then show ?thesis
    by (intro exI [of _ "?g1\<lparr>gs_peak := max (gs_peak ?g1) ?a, gs_pending := []\<rparr>"]) (simp add: gauge_start_def)
qed

definition sample_x509 :: x509_lib where
  "sample_x509 =
     \<lparr> xl_certs = (\<lambda>b. Inr [b]), xl_private_key = (\<lambda>b. Inr (Some b)),
       xl_from_der = (\<lambda>chain k. if chain = [k] then Inr () else Inl ''mismatch''),
       xl_leaf = (\<lambda>b. Inr ([''a.io.''], 100)) \<rparr>"

definition sample_tls :: tls_config where
  "sample_tls =
     \<lparr> tc_cert_dir = ''c'', tc_cert_suffix = ''.crt'', tc_key_suffix = ''.key'', tc_default_certificate = Some ''a'' \<rparr>"

definition sample_scan :: tls_env where
  "sample_scan =
     \<lparr> te_create_dir = None, te_read_dir = None,
       te_entries = [Inr \<lparr> de_name = Some ''a.crt'', de_path = ''c/a.crt'', de_is_file = Inr True \<rparr>,
         Inr \<lparr> de_name = Some ''a.key'', de_path = ''c/a.key'', de_is_file = Inr True \<rparr>],
       te_order = (\<lambda>ps. ps), te_read_fault = (\<lambda>p. None) \<rparr>"

definition sample_certificates :: "bytes \<Rightarrow> bytes \<Rightarrow> fs" where
  "sample_certificates cert key = [''c/a.crt'' \<mapsto> cert, ''c/a.key'' \<mapsto> key]"

definition sample_leaf :: "bytes \<Rightarrow> certificate_metadata" where
  "sample_leaf cert = \<lparr> cm_dns_names = [''a.io''], cm_leaf_certificate = cert, cm_not_after_unix = 100 \<rparr>"

definition sample_certified :: "bytes \<Rightarrow> certified_key" where
  "sample_certified cert = \<lparr> ck_chain = [cert], ck_key = cert \<rparr>"

definition sample_index :: "bytes \<Rightarrow> certificate_index" where
  "sample_index cert =
     \<lparr> ix_exact = [''a.io'' \<mapsto> sample_certified cert], ix_wildcard = Map.empty,
       ix_default = Some (sample_certified cert), ix_metadata = [(''a'', sample_leaf cert)] \<rparr>"

lemmas sample_tls_defs = sample_x509_def sample_tls_def sample_scan_def sample_certificates_def sample_leaf_def
  sample_certified_def sample_index_def

lemma sample_pairs: "discover_pairs sample_scan sample_tls = Inr [(''a'', ''c/a.crt'', ''c/a.key'')]"
proof -
  have "discover_file sample_tls ''a.crt'' ''c/a.crt'' ([], []) = Inr ([(''a'', ''c/a.crt'')], [])"
    "discover_file sample_tls ''a.key'' ''c/a.key'' ([(''a'', ''c/a.crt'')], []) = Inr ([(''a'', ''c/a.crt'')], [(''a'', ''c/a.key'')])"
    by (simp_all add: discover_file_def sample_tls_def strip_suffix_def)
  then have found: "try_fold (discover_entry sample_tls) ([], []) (te_entries sample_scan) =
      Inr ([(''a'', ''c/a.crt'')], [(''a'', ''c/a.key'')])"
    by (simp add: discover_entry_def sample_scan_def add_context_def io_anyhow_def)
  have "te_read_dir sample_scan = None" by (simp add: sample_scan_def)
  then show ?thesis by (simp add: discover_pairs_def found io_fault_def Let_def match_pair_def)
qed

lemma sample_loads: "load_index sample_x509 sample_scan sample_tls (sample_certificates ''1'' ''1'') = Inr (sample_index ''1'')"
proof -
  have read: "read_pair sample_x509 sample_scan (sample_certificates ''1'' ''1'') (''a'', ''c/a.crt'', ''c/a.key'') =
      Inr (''a'', sample_certified ''1'', sample_leaf ''1'')"
    by (simp add: eval_simps sample_tls_defs)
  then show ?thesis
    by (simp add: load_index_def sample_pairs load_pair_def) (simp add: eval_simps sample_tls_defs)
qed

lemma sample_served: "certificate_resolve (sample_index cert) (Some ''a.io'') = Some (sample_certified cert)"
  by (simp add: eval_simps sample_index_def)

lemma sample_order: "mset (te_order sample_scan pairs) = mset pairs"
  by (simp add: sample_scan_def)

definition no_store_faults :: store_faults where
  "no_store_faults = \<lparr> sf_create = No_Fault, sf_write = No_Fault, sf_sync = No_Fault, sf_permissions = No_Fault \<rparr>"

definition sample_pair_env :: pair_env where
  "sample_pair_env =
     \<lparr> pv_create_dir = None, pv_process = 7, pv_cert_clock = Some 1, pv_key_clock = Some 2, pv_cert = no_store_faults,
       pv_key = no_store_faults, pv_key_rename = No_Fault, pv_cert_rename = No_Fault, pv_cert_remove = No_Fault,
       pv_key_remove = No_Fault \<rparr>"

lemma sample_write:
  "write_file no_store_faults p d (fs, seen) =
     (Inr (), fs(p \<mapsto> d), [fs(p \<mapsto> d), fs(p \<mapsto> d), fs(p \<mapsto> d), fs(p \<mapsto> [])] @ seen)"
  by (simp add: write_file_def fs_calls_def no_store_faults_def)

lemma sample_paths:
  "cert_path sample_tls ''a'' = ''c/a.crt''" "key_path sample_tls ''a'' = ''c/a.key''"
  "cert_temp sample_pair_env sample_tls ''a'' = ''c/.a.crt.tmp-7-1''"
  "key_temp sample_pair_env sample_tls ''a'' = ''c/.a.key.tmp-7-2''"
  by (simp_all add: eval_simps sample_tls_def sample_pair_env_def cert_path_def key_path_def path_parent_def)

lemma sample_paths_distinct: "distinct (pair_paths sample_pair_env sample_tls ''a'')"
  by (simp add: pair_paths_def sample_paths)

lemma sample_save_ok:
  "is_ok (fst (save_certificate_pair sample_pair_env sample_tls ''a'' ''2'' ''2'' (sample_certificates ''1'' ''1'', [])))"
proof -
  have env: "pv_create_dir sample_pair_env = None" "pv_cert sample_pair_env = no_store_faults"
    "pv_key sample_pair_env = no_store_faults" "pv_key_rename sample_pair_env = No_Fault"
    "pv_cert_rename sample_pair_env = No_Fault"
    by (simp_all add: sample_pair_env_def)
  show ?thesis
    by (simp add: save_certificate_pair_def replace_pair_def env sample_write sample_paths replace_file_def
        fs_calls_def io_fault_def add_context_def)
qed

definition sample_authority :: acme_lib where
  "sample_authority = \<lparr> al_certificate_id = (\<lambda>leaf. Some leaf), al_directory = (\<lambda>e. ''https://acme.test/'') \<rparr>"

definition sample_account_env :: account_env where
  "sample_account_env =
     \<lparr> ae_create_dir = None, ae_clock = Some 1, ae_process = 7, ae_faults = no_store_faults, ae_rename = No_Fault,
       ae_remove = No_Fault \<rparr>"

definition sample_account_calls :: account_calls where
  "sample_account_calls =
     \<lparr> ao_builder = Inr (), ao_read_fault = None, ao_restore = Inr, ao_create = (\<lambda>contacts url. Inr (''acct'', ''cred'')),
       ao_json = \<lparr> aj_to_vec = Inr, aj_from_slice = Inr \<rparr>, ao_env = sample_account_env \<rparr>"

definition sample_challenge :: authorization where
  "sample_challenge =
     \<lparr> az_status = Auth_Pending,
       az_challenge = Some \<lparr> ch_token = ''t0'', ch_key_authorization = ''t0.k'', ch_bind = None, ch_local_addr = None,
         ch_set_ready = Inr () \<rparr> \<rparr>"

definition sample_issue :: issue_env where
  "sample_issue =
     \<lparr> ie_new_order = (\<lambda>order. Inr ()), ie_authorizations = [Inr sample_challenge], ie_poll_ready = Inr Order_Ready,
       ie_finalize = Inr ''2'', ie_poll_certificate = Inr ''2'', ie_pair = sample_pair_env, ie_scan = sample_scan \<rparr>"

definition sample_cycle :: cycle_env where
  "sample_cycle =
     \<lparr> cy_account = sample_account_calls,
       cy_due = (\<lambda>i. \<lparr> du_renewal_info = (\<lambda>c. Ari_Window 10 20), du_ari_clock = Some 30, du_expiry_clock = Some 30 \<rparr>),
       cy_issue = (\<lambda>i. sample_issue) \<rparr>"

definition sample_desired :: acme_certificate_config where
  "sample_desired = \<lparr> cc_id = ''a'', cc_domains = [''a.io''] \<rparr>"

definition sample_renewal_config :: acme_config where
  "sample_renewal_config =
     \<lparr> ac_enabled = True, ac_http01_listen = \<lparr> sa_ip = V4 0, sa_port = 80 \<rparr>, ac_email = None,
       ac_environment = Acme_Staging, ac_state_dir = ''s'', ac_fallback_renew_before = from_secs 60,
       ac_check_interval = from_secs 3600, ac_certificates = [sample_desired] \<rparr>"

definition sample_store :: certificate_store where
  "sample_store = \<lparr> ce_config = sample_tls, ce_index = sample_index ''1'' \<rparr>"

definition sample_manager :: acme_manager where
  "sample_manager = (acme_manager_new sample_renewal_config sample_tls sample_store (sample_certificates ''1'' ''1''))
     \<lparr>am_account := Some ''acct''\<rparr>"

definition sample_launch_env :: gateway_env where
  "sample_launch_env =
     \<lparr> ge_certificates = \<lparr> cs_empty = False, cs_default_available = True \<rparr>, ge_bind = Inr (), ge_listen = ''l'',
       ge_output = Inr (), ge_ca = (\<lambda>p. Inr (Inr (0, 0))), ge_hosts = [], ge_started = 0 \<rparr>"

definition sample_startup :: startup_env where
  "sample_startup = \<lparr> su_scan = sample_scan, su_cycle = sample_cycle, su_gateway = sample_launch_env \<rparr>"

lemma sample_authorized:
  "authorize [Inr sample_challenge] [] m =
     (case am_http01 m of
        None \<Rightarrow> (Inr (), [''t0''], m\<lparr>am_http01 := Some [''t0'' \<mapsto> ''t0.k''],
          am_log := am_log m @ [Told_Ready ''t0'' ''t0.k'' [''t0'' \<mapsto> ''t0.k'']]\<rparr>)
      | Some c \<Rightarrow> (Inr (), [''t0''], m\<lparr>am_http01 := Some (c(''t0'' \<mapsto> ''t0.k'')),
          am_log := am_log m @ [Told_Ready ''t0'' ''t0.k'' (c(''t0'' \<mapsto> ''t0.k''))]\<rparr>))"
  by (simp add: sample_challenge_def answer_challenge_def valid_token_def ensure_http01_def http01_bind_def io_fault_def
      publish_challenge_def add_context_def one_error_def Let_def split: option.splits)

lemma sample_obtained: "obtain_pair sample_issue = Inr (''2'', ''2'')"
  by (simp add: eval_simps sample_issue_def)

lemma sample_manager_sel:
  "am_store sample_manager = sample_store" "am_tls sample_manager = sample_tls" "am_http01 sample_manager = None"
  "am_files sample_manager = (sample_certificates ''1'' ''1'', [])" "am_config sample_manager = sample_renewal_config"
  "ce_config sample_store = sample_tls" "ce_index sample_store = sample_index ''1''"
  "am_account sample_manager = Some ''acct''"
  by (simp_all add: sample_manager_def acme_manager_new_def sample_store_def)

lemma sample_validated: "validate_candidate sample_x509 sample_manager sample_desired (''2'', ''2'') = Inr (sample_leaf ''2'')"
proof -
  have "parse_certificate_pair sample_x509 ''a'' ''2'' ''2'' = Inr (sample_certified ''2'', sample_leaf ''2'')"
    by (simp add: eval_simps sample_tls_defs)
  moreover have "try_fold (replacement_conflict ''a'' (sample_leaf ''2'')) () (ix_metadata (sample_index ''1'')) = Inr ()"
    by (simp add: sample_index_def replacement_conflict_def)
  ultimately show ?thesis
    by (simp add: validate_candidate_iff validate_replacement_def sample_manager_sel sample_desired_def)
      (simp add: eval_simps sample_leaf_def)
qed

lemma sample_stored: "is_ok (fst (save_certificate_pair (ie_pair sample_issue) (am_tls sample_manager) (cc_id sample_desired)
   ''2'' ''2'' (fst (am_files sample_manager), [])))"
  using sample_save_ok by (simp add: sample_manager_sel sample_issue_def sample_desired_def)

lemma sample_due_certificates: "due_certificates sample_authority (cy_due sample_cycle) sample_manager = [sample_desired]"
proof -
  have "store_metadata sample_store ''a'' = Some (sample_leaf ''1'')"
    by (simp add: store_metadata_def sample_store_def sample_index_def)
  moreover have "domains_match (sample_leaf ''1'') sample_desired"
    by (simp add: eval_simps sample_leaf_def sample_desired_def)
  moreover have "renewal_target 10 20 ''a'' < 20" by (rule renewal_target_in_window(2)) (simp_all add: is_i64_def i64_min_def i64_max_def)
  ultimately have "should_issue sample_authority (cy_due sample_cycle ''a'') sample_manager sample_desired"
    by (simp add: should_issue_def ari_decision_def sample_manager_sel sample_authority_def sample_cycle_def
        sample_desired_def unix_now_def i64_try_from_def i64_max_def unwrap_or_def)
  then show ?thesis by (simp add: due_certificates_def sample_manager_sel sample_renewal_config_def sample_desired_def)
qed

lemma sample_current: "store_current sample_x509 sample_scan (am_store sample_manager) (fst (am_files sample_manager))
   [(''a'', ''c/a.crt'', ''c/a.key'')]"
  using sample_loads sample_pairs sample_order by (simp add: store_current_def sample_manager_sel)

lemma sample_rescan: "scan_current (ie_scan sample_issue) (am_tls sample_manager) (cc_id sample_desired)
   [(''a'', ''c/a.crt'', ''c/a.key'')] [(''a'', ''c/a.crt'', ''c/a.key'')]"
  using sample_pairs sample_order
  by (auto simp: scan_current_def sample_issue_def sample_manager_sel sample_desired_def sample_paths no_read_faults_def
      sample_scan_def)

lemma sample_apart: "others_apart (pair_paths (ie_pair sample_issue) (am_tls sample_manager) (cc_id sample_desired))
   (cc_id sample_desired) [(''a'', ''c/a.crt'', ''c/a.key'')]"
  by (simp add: others_apart_def sample_desired_def)


text \<open>Two connections at a shutdown: one that never finishes its handshake, one that never ends.\<close>

definition sample_stalled :: connection_times where
  "sample_stalled = \<lparr> ct_accepted = 0, ct_handshake = None, ct_closes = None, ct_graceful = None, ct_first = True \<rparr>"

definition sample_served_connection :: connection_times where
  "sample_served_connection = sample_stalled\<lparr>ct_handshake := Some (0, True)\<rparr>"

definition sample_finish :: finish_times where
  "sample_finish = \<lparr> ft_websocket = None, ft_grpc = Some 0, ft_http = Some 0, ft_acme = Some 2, ft_client_address = 2,
     ft_blocking = 3, ft_observability = 4 \<rparr>"

section \<open>Requests through the gateway\<close>

text \<open>
  C1.  The gate: what was checked of every request before any backend hears of it.  Its host is the one
  the Host field and the authority agree on and the TLS name permits, its path is clean, it goes to
  the route of that host and path, its client is known and not blocked, its headers are within the
  limits, a gRPC request has the form of one, and exactly one request permit was taken.
\<close>

theorem admitted_request_checked:
  assumes "request_gate lib sem st env request g = (Inr entry, g')"
  shows "\<not> is_health_check request \<and>
    resolve_request_host lib request = Inr (en_host entry) \<and>
    permits_request_host (ss_routing st) (en_host entry) (ev_sni env) \<and>
    is_ok (validate_http_path (u_path (rq_uri request))) \<and>
    en_choice entry = choose_route st (en_host entry) (u_path (rq_uri request)) \<and>
    en_choice entry \<noteq> To_Nothing \<and>
    resolve_client_address lib (ss_client_address st) (ev_peer env) (rq_headers request)
      (choice_security (en_choice entry)) = Inr (en_address entry) \<and>
    fst (is_client_ip_blocked (ev_now env) (en_address entry) (gk_blocking g)) = False \<and>
    length (hm_fields lib (rq_headers request)) \<le> sc_max_http_header_count (ss_server st) \<and>
    header_bytes lib (rq_headers request) \<le> sc_max_http_header_bytes (ss_server st) \<and>
    (is_grpc_choice (en_choice entry) \<longrightarrow> reject_invalid_grpc_request lib request = None) \<and>
    sem_try_acquire sem (gk_capacity g) = Some (gk_capacity g')"
proof -
  obtain host address where
    gate: "\<not> is_health_check request" "resolve_request_host lib request = Inr host"
    "permits_request_host (ss_routing st) host (ev_sni env)"
    "is_ok (validate_http_path (u_path (rq_uri request)))"
    "resolve_client_address lib (ss_client_address st) (ev_peer env) (rq_headers request)
       (choice_security (choose_route st host (u_path (rq_uri request)))) = Inr address"
    "gate_client lib sem st env request host (choose_route st host (u_path (rq_uri request))) address g
       = (Inr entry, g')"
    by (rule request_gate_admits [OF assms])
  note client = gate_client_admits [OF gate(6)]
  from gate client show ?thesis by (simp add: headers_too_large_def not_less)
qed

lemma admitted_request_checked_witness:
  "\<exists>entry. request_gate sample_lib counter_sem sample_state sample_request_env sample_get sample_gate
     = (Inr entry, sample_gate\<lparr>gk_capacity := 2\<rparr>) \<and>
     en_host entry = ''edge.io'' \<and> en_choice entry = choose_route sample_state ''edge.io'' ''/''"
proof -
  obtain entry where gate: "request_gate sample_lib counter_sem sample_state sample_request_env sample_get sample_gate
     = (Inr entry, sample_gate\<lparr>gk_capacity := 2\<rparr>)"
    using sample_gate_admits by blast
  have "resolve_request_host sample_lib sample_get = Inr ''edge.io''" "u_path (rq_uri sample_get) = ''/''"
    by (simp_all add: eval_simps sample_gate_defs)
  with admitted_request_checked [OF gate] gate show ?thesis by simp
qed

text \<open>
  C2.  The parts fit together: after a start from a configuration that passed validation, no request that
  is let in can miss its backend, and the backend it finds is the one configured for its route.
\<close>

theorem admitted_has_backend:
  assumes "config_load lib parse fault env path fs = (Inr co, fs')"
    and "gateway_start sem ge co = Inr gw"
    and "\<And>f. co_fallback co = Some f \<Longrightarrow> set (ge_hosts ge) = fc_hosts f"
    and "request_gate lib' sem (gw_state gw) renv request g = (Inr entry, g')"
  shows "has_backend (gw_runtimes gw) entry"
proof -
  obtain d c where "accepted lib env d c fs co fs'" by (rule config_load_accepted [OF assms(1)])
  from admitted_backend [OF this assms(2,3,4)] show ?thesis .
qed

lemma admitted_has_backend_witness:
  "\<exists>co gw entry. sample_gateway_load = (Inr co, [''/e'' \<mapsto> []]) \<and>
     gateway_start counter_sem sample_gateway_env co = Inr gw \<and>
     request_gate sample_lib counter_sem (gw_state gw) (sample_request_env\<lparr>ev_sni := Some ''edge.io''\<rparr>)
       sample_get sample_gate = (Inr entry, sample_gate\<lparr>gk_capacity := 2\<rparr>) \<and>
     has_backend (gw_runtimes gw) entry"
proof -
  obtain co where load: "sample_gateway_load = (Inr co, [''/e'' \<mapsto> []])"
    and fallback: "co_fallback co = None"
    and client: "co_client_address co = \<lparr> ca_cloudflare = \<lparr> cf_networks = [], cf_cache_file = None \<rparr>, ca_health_peer_networks = [] \<rparr>"
    and build: "build_routes sample_lib ''/'' sample_gateway_file None =
       Inr (co_routes co, co_grpc_routes co, co_http_routes co, co_routing co)"
    using sample_gateway_loads by blast
  obtain gw where start: "gateway_start counter_sem sample_gateway_env co = Inr gw"
    using sample_gateway_starts [OF build fallback] by blast
  have state: "gw_state gw = service_state_of co" by (rule gateway_start_parts(1) [OF start])
  obtain entry where gate: "request_gate sample_lib counter_sem (gw_state gw) (sample_request_env\<lparr>ev_sni := Some ''edge.io''\<rparr>)
       sample_get sample_gate = (Inr entry, sample_gate\<lparr>gk_capacity := 2\<rparr>)"
    using sample_gateway_admits [of "gw_state gw"] build client by (auto simp: state service_state_of_def)
  have "has_backend (gw_runtimes gw) entry"
    by (rule admitted_has_backend [OF load [unfolded sample_gateway_load_def] start _ gate]) (simp add: fallback)
  with load start gate show ?thesis by blast
qed

text \<open>
  C3.  No client chooses its own address: what a WebSocket, gRPC or HTTP backend reads in X-Real-IP and
  X-Forwarded-For is the one address the gate resolved for this request.
\<close>

theorem client_address_told:
  assumes lib: "header_map lib"
    and gate: "request_gate lib sem st env request g = (Inr entry, g')"
  shows "resolve_client_address lib (ss_client_address st) (ev_peer env) (rq_headers request)
      (choice_security (en_choice entry)) = Inr (en_address entry) \<and>
    (backend_headers_from lib (en_request entry) ws_route = Inr headers \<and>
       backend_request lib ws ws_route endpoint metadata headers = Inr sent \<longrightarrow>
     told_client lib (ra_client_ip (en_address entry)) (rq_headers sent)) \<and>
    (grpc_start lib sem has_lease grpc_route (en_request entry) grpc = Inr (call, upstream) \<longrightarrow>
     told_client lib (ra_client_ip (en_address entry)) (rq_headers call)) \<and>
    (proxy_start lib sem shutdown now target (en_address entry) (en_request entry) body pool
       = (Inr (ad, forwarded), pool') \<longrightarrow>
     told_client lib (ra_client_ip (en_address entry)) (rq_headers forwarded))"
proof -
  obtain host address where address: "resolve_client_address lib (ss_client_address st) (ev_peer env)
       (rq_headers request) (choice_security (choose_route st host (u_path (rq_uri request)))) = Inr address"
    and client: "gate_client lib sem st env request host (choose_route st host (u_path (rq_uri request))) address g
       = (Inr entry, g')"
    by (rule request_gate_admits [OF gate])
  note entry = gate_client_admits(8) [OF client]
  have told: "told_client lib (ra_client_ip (en_address entry)) (rq_headers (en_request entry))"
    using header_map.told_sanitized [OF lib] by (simp add: entry)
  show ?thesis
    using address header_map.told_websocket [OF lib told] header_map.told_grpc [OF lib told]
      header_map.told_http [OF lib]
    by (auto simp: entry)
qed

lemma client_address_told_witness:
  "\<exists>entry. request_gate sample_lib counter_sem sample_state sample_request_env sample_get sample_gate
     = (Inr entry, sample_gate\<lparr>gk_capacity := 2\<rparr>) \<and>
     resolve_client_address sample_lib (ss_client_address sample_state) (ev_peer sample_request_env)
       (rq_headers sample_get) (choice_security (en_choice entry)) = Inr (en_address entry)"
proof -
  obtain entry where gate: "request_gate sample_lib counter_sem sample_state sample_request_env sample_get sample_gate
     = (Inr entry, sample_gate\<lparr>gk_capacity := 2\<rparr>)"
    using sample_gate_admits by blast
  have lib: "header_map sample_lib" by (simp add: sample_lib_def list_http.header_map_axioms)
  from client_address_told [OF lib gate] gate show ?thesis by blast
qed

text \<open>
  C4.  Who is punished: at most one violation is recorded for a request, of the client resolved for it,
  under a rule that belongs to the route it asked for.
\<close>

theorem violations_blamed:
  assumes "handle_request lib sem st env de request (g, ru) = (h, g', ru')"
  shows "same_blocks (gk_blocking g) (gk_blocking g') \<or>
    (\<exists>host address rule before.
       resolve_request_host lib request = Inr host \<and>
       resolve_client_address lib (ss_client_address st) (ev_peer env) (rq_headers request)
         (choice_security (choose_route st host (u_path (rq_uri request)))) = Inr address \<and>
       blamed_rule (choose_route st host (u_path (rq_uri request))) rule \<and>
       same_blocks (gk_blocking g) before \<and>
       gk_blocking g' = record_violation (ev_hash env) (ev_later env) address rule before)"
  using handle_request_blames [OF assms] by (auto simp: blames_def)

lemma violations_blamed_witness:
  "\<forall>de ru. \<exists>h g' ru'. handle_request sample_lib counter_sem sample_state sample_request_env de sample_health
      (sample_gate, ru) = (h, g', ru') \<and> same_blocks (gk_blocking sample_gate) (gk_blocking g')"
proof (intro allI)
  fix de :: "fields dispatch_env" and ru :: "nat runtimes"
  obtain h g' ru' where run: "handle_request sample_lib counter_sem sample_state sample_request_env de sample_health
      (sample_gate, ru) = (h, g', ru')"
    using prod_cases3 by blast
  have "choose_route sample_state ''edge.io'' ''/health/live'' = To_Nothing"
    by (simp add: eval_simps sample_gate_defs default_file_pool_config_def)
  moreover have "resolve_request_host sample_lib sample_health = Inr ''edge.io''"
    by (simp add: eval_simps sample_gate_defs sample_health_def)
  moreover have "gk_blocking g' = gk_blocking sample_gate"
    using run by (auto simp: handle_request_def sample_health_refused text_response_def gate_reject_def)
  ultimately show "\<exists>h g' ru'. handle_request sample_lib counter_sem sample_state sample_request_env de sample_health
      (sample_gate, ru) = (h, g', ru') \<and> same_blocks (gk_blocking sample_gate) (gk_blocking g')"
    using run violations_blamed [OF run] by auto
qed

text \<open>
  C5.  Refusals: the answer is one of the gateway's own, no permit is kept and no backend is touched; a
  request that is let in costs one permit.
\<close>

theorem refused_requests_cost_nothing:
  assumes "handle_request lib sem st env de request (g, ru) = (h, g', ru')"
  shows "case fst (request_gate lib sem st env request g) of
      Inl (response, text) \<Rightarrow> h = Answered response text \<and>
        re_status response \<in> {200, 400, 403, 404, 405, 415, 421, 431, 503, 505} \<and>
        gk_capacity g' = gk_capacity g \<and> ru' = ru
    | Inr entry \<Rightarrow> sem_try_acquire sem (gk_capacity g) = Some (gk_capacity g')"
proof -
  obtain r g1 where gate: "request_gate lib sem st env request g = (r, g1)" by fastforce
  note capacity = handle_request_capacity [OF assms, unfolded gate fst_conv]
  show ?thesis
  proof (cases r)
    case (Inl a)
    then obtain response reply where a: "a = (response, reply)" by (cases a)
    have "h = Answered response reply" using assms by (simp add: handle_request_def gate Inl a)
    with capacity request_gate_answers [OF gate [unfolded Inl]] show ?thesis
      by (simp add: gate Inl a gate_statuses_def)
  next
    case (Inr entry)
    with capacity show ?thesis by (simp add: gate)
  qed
qed

lemma refused_requests_cost_nothing_witness:
  "\<forall>de ru. \<exists>response reply g'. handle_request sample_lib counter_sem sample_state sample_request_env de sample_health
      (sample_gate, ru) = (Answered response reply, g', ru) \<and> gk_capacity g' = 3"
proof (intro allI)
  fix de :: "fields dispatch_env" and ru :: "nat runtimes"
  obtain h g' ru' where run: "handle_request sample_lib counter_sem sample_state sample_request_env de sample_health
      (sample_gate, ru) = (h, g', ru')"
    using prod_cases3 by blast
  have gk3: "gk_capacity sample_gate = 3" by (simp add: sample_gate_def)
  from refused_requests_cost_nothing [OF run] run
  show "\<exists>response reply g'. handle_request sample_lib counter_sem sample_state sample_request_env de sample_health
      (sample_gate, ru) = (Answered response reply, g', ru) \<and> gk_capacity g' = 3"
    by (auto simp: sample_health_refused text_response_def gk3)
qed

text \<open>
  C6.  Permits: in every interleaving of connections and requests, each semaphore and its holders add up
  to the configured limit, where a connection counts as long as it is served or a request of it is
  alive, even after its own task is over.  With nothing left, every permit is back.
\<close>

theorem admission_permits:
  assumes "semaphore sem"
    and "admission_reachable sem max_connections max_handshakes max_requests ob s"
    and "ct_active_transport (ob_counters ob) = 0"
  shows "sem_available sem (am_transport s)
      + card {i. i < length (am_connections s) \<and> holds_transport s i} = max_connections \<and>
    sem_available sem (am_handshakes s) + length (filter cx_handshaking (am_connections s)) = max_handshakes \<and>
    sem_available sem (am_requests s)
      + length (filter (\<lambda>l. lease_live l \<and> rl_admitted l) (am_leases s)) = max_requests \<and>
    ct_active_transport (ob_counters (am_ob s)) = of_nat (length (filter cx_serving (am_connections s))) \<and>
    (\<forall>l. l \<in> set (am_leases s) \<and> lease_live l \<longrightarrow> holds_transport s (rl_connection l)) \<and>
    ((\<forall>c \<in> set (am_connections s). \<not> cx_serving c) \<and> (\<forall>l \<in> set (am_leases s). \<not> lease_live l) \<longrightarrow>
      sem_available sem (am_transport s) = max_connections \<and>
      sem_available sem (am_handshakes s) = max_handshakes \<and>
      sem_available sem (am_requests s) = max_requests)"
proof -
  note ok = semaphore.admission_reachable_ok [OF assms]
  have "transport_used s = card {i. i < length (am_connections s) \<and> holds_transport s i}"
    unfolding transport_used_def length_filter_conv_card by (intro arg_cong [of _ _ card]) auto
  moreover have "(\<lambda>l. lease_live l \<and> rl_admitted l) = admitted_live" by (auto simp: admitted_live_def)
  ultimately show ?thesis
    using ok semaphore.lease_keeps_transport(1) [OF assms(1) ok] semaphore.admission_idle [OF assms(1) ok]
    by (auto simp: admission_ok_def handshaking_count_def serving_count_def)
qed

lemma admission_permits_witness:
  "\<exists>s. admission_reachable counter_sem 4 2 3 sample_observability s \<and> length (am_connections s) = 1 \<and>
     sem_available counter_sem (am_transport s) + card {i. i < length (am_connections s) \<and> holds_transport s i} = 4"
proof -
  let ?s = "admission_new counter_sem 4 2 3 sample_observability"
  let ?t = "snd (accept_connection counter_sem ?s)"
  have reach: "admission_reachable counter_sem 4 2 3 sample_observability ?t"
    unfolding admission_reachable_def by (rule r_into_rtranclp) (rule am_accept)
  have "length (am_connections ?t) = 1" "ct_active_transport (ob_counters sample_observability) = 0"
    by (simp_all add: eval_simps counter_sem_def sample_observability_def split: prod.split)
  with admission_permits [OF counter.semaphore_axioms reach] reach show ?thesis by blast
qed

section \<open>Relays\<close>

text \<open>
  C7.  Transparency: what the gateway forwards to either peer is, message by message, what the other
  peer sent.  While a direction runs everything due was delivered; once it has ended at most the
  last message is missing or incomplete, and after a regular close nothing is.
\<close>

theorem relay_transparent:
  assumes "relay_reachable frame_close (relay_start maximum ob) s"
  shows "cut_short (items_of Forwarded (ry_backend s)) (due_frames maximum (pu_frames (ry_up s))) \<and>
    cut_short (items_of Forwarded (ry_client s)) (due_frames maximum (pu_frames (ry_down s))) \<and>
    (pu_report (ry_up s) = None \<longrightarrow>
      items_of Forwarded (ry_backend s) = map Sent (due_frames maximum (pu_frames (ry_up s)))) \<and>
    (pu_report (ry_down s) = None \<longrightarrow>
      items_of Forwarded (ry_client s) = map Sent (due_frames maximum (pu_frames (ry_down s)))) \<and>
    (\<forall>r. pu_report (ry_up s) = Some r \<and> pr_end r = End_Peer_Closed \<longrightarrow>
      items_of Forwarded (ry_backend s) = map Sent (due_frames maximum (pu_frames (ry_up s))) \<and>
      fm_opcode (last (due_frames maximum (pu_frames (ry_up s)))) = Close) \<and>
    (\<forall>r. pu_report (ry_down s) = Some r \<and> pr_end r = End_Peer_Closed \<longrightarrow>
      items_of Forwarded (ry_client s) = map Sent (due_frames maximum (pu_frames (ry_down s))) \<and>
      fm_opcode (last (due_frames maximum (pu_frames (ry_down s)))) = Close)"
proof -
  have up: "pump_ok maximum (ry_up s) (ry_backend s)" and down: "pump_ok maximum (ry_down s) (ry_client s)"
    using relay_reachable_ok [OF assms] by (simp_all add: relay_ok_def)
  show ?thesis
    using up down by (auto simp: pump_ok_def cut_short_def split: option.splits)
qed

lemma relay_transparent_witness:
  "\<exists>s. relay_reachable (\<lambda>code why. sample_message) (relay_start 100 sample_observability) s \<and>
     items_of Forwarded (ry_backend s) = [Sent sample_message]"
proof -
  obtain s where s: "relay_reachable (\<lambda>code why. sample_message) (relay_start 100 sample_observability) s"
    "pu_frames (ry_up s) = [sample_message]" "pu_report (ry_up s) = None"
    using sample_relay_message by blast
  with relay_transparent [OF s(1)] show ?thesis by (auto simp: sample_due)
qed



text \<open>
  C9.  No relay can be kept alive by its peers.  The steps of a shutdown are named: none of them reads or
  writes a frame, and a pump ends in one only by the cancellation.  Whatever state the relay is in, as
  many of them as there is work left lead to the end.  Once the pumps are cancelled, every other step
  either handles a frame of a peer or does some of that work, so a relay whose peers are silent ends in
  every run.  (\<open>select!\<close> is fair but not ordered: a peer that keeps sending may be served for a while.)
\<close>

theorem relay_ends_on_shutdown:
  assumes "\<not> is_ended (ry_phase s)"
  shows "(\<exists>s'. (relay_shutdown_step frame_close ^^ drain_work s) s s' \<and> ry_phase s' = Ended (drain_reason (ry_phase s))) \<and>
    0 < drain_work s \<and> drain_work s \<le> 6 \<and>
    (ry_phase s = Running \<longrightarrow> drain_reason (ry_phase s) = Gateway_Shutdown) \<and>
    (\<forall>t. relay_step frame_close s t \<and> ry_phase s \<noteq> Running \<longrightarrow> peer_step s t \<or> drain_work t < drain_work s)"
proof -
  obtain s' where s': "(relay_shutdown_step frame_close ^^ drain_work s) s s'" "drain_work s' = 0"
    "drain_reason (ry_phase s') = drain_reason (ry_phase s)"
    using relay_drain.drained [of s frame_close] by blast
  then obtain reason where "ry_phase s' = Ended reason" by (auto simp: drain_work_0 is_ended_def)
  with s'(3) have "ry_phase s' = Ended (drain_reason (ry_phase s))" by (simp add: drain_reason_def)
  moreover have "0 < drain_work s" using assms drain_work_0 [of s] by simp
  ultimately show ?thesis
    using s'(1) drain_work_le [of s] drain_or_peer by (auto simp: drain_reason_def)
qed

lemma relay_ends_on_shutdown_witness:
  "\<exists>s'. (relay_shutdown_step (\<lambda>code why. sample_message) ^^ 6) (relay_start 100 sample_observability) s' \<and>
     ry_phase s' = Ended Gateway_Shutdown"
proof -
  let ?s = "relay_start 100 sample_observability"
  have "\<not> is_ended (ry_phase ?s)" and running: "ry_phase ?s = Running" and work: "drain_work ?s = 6"
    by (simp_all add: relay_start_def is_ended_def drain_work_def phase_work_def task_work_def pump_new_def)
  from relay_ends_on_shutdown [OF this(1), of "\<lambda>code why. sample_message"] running show ?thesis
    unfolding work by auto
qed

text \<open>
  C10.  The bridge to a TCP backend: in both directions the bytes arrive in order, none added and none
  changed; an incomplete write loses only a suffix, and only when its direction ends by an error or by
  the cancellation.  Towards the client every read is one binary message.  The stream to the backend is
  shut down when its pump returns, which drops the writing half, and not before.
\<close>

theorem tcp_bridge_transparent:
  assumes "tcp_relay_reachable frame_close (tcp_relay_start maximum ob) s"
  shows "prefix (ts_bytes (tr_stream s)) (backend_bytes maximum (wt_frames (tr_up s))) \<and>
    prefix (client_bytes (tr_client s)) (tw_read (tr_down s)) \<and>
    (wt_report (tr_up s) = None \<or> (\<exists>r. wt_report (tr_up s) = Some r \<and> pr_end r = End_Peer_Closed) \<longrightarrow>
      ts_bytes (tr_stream s) = backend_bytes maximum (wt_frames (tr_up s))) \<and>
    (tw_report (tr_down s) = None \<or> (\<exists>r. tw_report (tr_down s) = Some r \<and> pr_end r = End_Peer_Closed) \<longrightarrow>
      client_bytes (tr_client s) = tw_read (tr_down s)) \<and>
    (\<not> ts_shutdown (tr_stream s) \<longleftrightarrow> tr_up_task s = Task_Active \<and> wt_report (tr_up s) = None) \<and>
    list_all (\<lambda>i. fm_fin (item_frame i) \<and> fm_opcode (item_frame i) = Binary \<and>
        fm_payload (item_frame i) \<noteq> [] \<and> length (fm_payload (item_frame i)) \<le> 64 * 1024)
      (items_of Forwarded (tr_client s))"
proof -
  have up: "ws_tcp_ok maximum (tr_up s) (tr_stream s)" and down: "tcp_ws_ok (tr_down s) (tr_client s)"
    and shut: "ts_shutdown (tr_stream s) \<longleftrightarrow> tr_up_task s \<noteq> Task_Active \<or> wt_report (tr_up s) \<noteq> None"
    using tcp_relay_reachable_ok [OF assms] by (simp_all add: tcp_relay_ok_def)
  from down have "list_all binary_item (items_of Forwarded (tr_client s))"
    "prefix (client_bytes (tr_client s)) (tw_read (tr_down s))"
    "tw_report (tr_down s) = None \<or> (\<exists>r. tw_report (tr_down s) = Some r \<and> pr_end r = End_Peer_Closed) \<longrightarrow>
      client_bytes (tr_client s) = tw_read (tr_down s)"
    by (auto simp: tcp_ws_ok_def split: option.splits)
  moreover from up have "prefix (ts_bytes (tr_stream s)) (backend_bytes maximum (wt_frames (tr_up s)))"
    "wt_report (tr_up s) = None \<or> (\<exists>r. wt_report (tr_up s) = Some r \<and> pr_end r = End_Peer_Closed) \<longrightarrow>
      ts_bytes (tr_stream s) = backend_bytes maximum (wt_frames (tr_up s))"
    by (auto simp: ws_tcp_ok_def split: option.splits)
  ultimately show ?thesis
    using shut by (simp add: binary_item_def [abs_def] tcp_bridge_read_buffer_bytes_def)
qed

lemma tcp_bridge_transparent_witness:
  "\<exists>s. tcp_relay_reachable (\<lambda>code why. sample_message) (tcp_relay_start 100 sample_observability) s \<and>
     ts_bytes (tr_stream s) = ''hi'' \<and> \<not> ts_shutdown (tr_stream s)"
proof -
  obtain s where s: "tcp_relay_reachable (\<lambda>code why. sample_message) (tcp_relay_start 100 sample_observability) s"
    "wt_frames (tr_up s) = [sample_message]" "wt_report (tr_up s) = None" "tr_up_task s = Task_Active"
    using sample_tcp_message by blast
  have "backend_bytes 100 [sample_message] = ''hi''"
    by (simp add: eval_simps backend_bytes_def sample_message_def frame_bytes_def is_data_frame_def)
  with tcp_bridge_transparent [OF s(1)] s show ?thesis by auto
qed

section \<open>Handshakes with WebSocket and gRPC backends\<close>

text \<open>
  C11.  Nothing of a client's request reaches a WebSocket backend but the fields of the list: in
  particular no hop-by-hop field and no field the client invents; Host is the backend's own.
\<close>

theorem backend_handshake_fields:
  assumes lib: "header_map lib"
    and hd: "backend_headers_from lib request route = Inr headers"
    and rq: "backend_request lib ws route endpoint metadata headers = Inr sent"
  shows "(\<forall>n. hm_contains lib (rq_headers sent) n \<longrightarrow>
      n \<in> client_fields route \<union> set gateway_fields \<union> (if rt_namespace route = Uat then set uat_names else {})) \<and>
    hm_get_all lib (rq_headers sent) ''host'' = [wb_host_header endpoint] \<and>
    hm_get_all lib (rq_headers sent) ''authorization'' = hm_get_all lib (rq_headers request) ''authorization'' \<and>
    length (hm_get_all lib (rq_headers request) ''authorization'') \<le> 1 \<and>
    hm_get_all lib (rq_headers sent) ''sec-websocket-protocol'' =
      hm_get_all lib (rq_headers request) ''sec-websocket-protocol'' \<and>
    (forward_origin (rt_handshake route) \<and> hm_contains lib (rq_headers sent) ''origin'' \<longrightarrow>
      hm_get_all lib (rq_headers sent) ''origin'' = hm_get_all lib (rq_headers request) ''origin'')"
  using header_map.backend_request_fields [OF lib hd rq] header_map.backend_headers_ok(1) [OF lib hd]
  by blast

lemma backend_handshake_fields_witness:
  "\<exists>headers sent. backend_headers_from sample_lib sample_get sample_ws_route = Inr headers \<and>
     backend_request sample_lib sample_ws sample_ws_route sample_endpoint sample_metadata headers = Inr sent \<and>
     hm_get_all sample_lib (rq_headers sent) ''host'' = [''127.0.0.1:9000'']"
proof -
  obtain headers sent where h: "backend_headers_from sample_lib sample_get sample_ws_route = Inr headers"
    "backend_request sample_lib sample_ws sample_ws_route sample_endpoint sample_metadata headers = Inr sent"
    using sample_backend_request by blast
  have lib: "header_map sample_lib" by (simp add: sample_lib_def list_http.header_map_axioms)
  from backend_handshake_fields [OF lib h] h show ?thesis by (auto simp: sample_endpoint_def)
qed

text \<open>
  C12.  gRPC calls of a backend share one connection: permits never leak, one task at a time connects, and
  there are never two open connections in use.
\<close>

theorem grpc_one_shared_connection:
  assumes sem: "semaphore sem"
    and reach: "grpc_reachable sem endpoint connect_timeout max_streams s"
  shows "sem_available sem (gu_active_streams (gp_upstream s))
      + length (filter call_live (gp_calls s)) = max_streams \<and>
    length (filter (\<lambda>call. holds_gate (ga_phase call)) (gp_calls s)) \<le> 1 \<and>
    (\<forall>a b c d. a \<in> set (gp_calls s) \<and> uses_connection (ga_phase a) = Some c \<and> c \<notin> gp_closed s \<and>
       b \<in> set (gp_calls s) \<longrightarrow>
       \<not> is_establishing (ga_phase b) \<and>
       (uses_connection (ga_phase b) = Some d \<and> d \<notin> gp_closed s \<longrightarrow> c = d)) \<and>
    ((\<forall>call \<in> set (gp_calls s). ga_phase call = Call_Ended \<and> \<not> ga_upload call) \<longrightarrow>
      sem_available sem (gu_active_streams (gp_upstream s)) = max_streams)"
proof -
  note ok = semaphore.grpc_reachable_ok [OF sem reach]
  show ?thesis
    using ok semaphore.grpc_one_connection [OF sem reach] semaphore.grpc_permits_return(1) [OF sem reach]
    by (auto simp: grpc_ok_def)
qed

lemma grpc_one_shared_connection_witness:
  "\<exists>s. grpc_reachable counter_sem sample_grpc_backend 10 8 s \<and> length (gp_calls s) = 1 \<and>
     sem_available counter_sem (gu_active_streams (gp_upstream s)) = 7"
proof -
  let ?s = "grpc_pool_new counter_sem sample_grpc_backend 10 8"
  have "sem_try_acquire counter_sem (gu_active_streams (gp_upstream ?s)) = Some 7"
    by (simp add: eval_simps counter_sem_def)
  note step = gp_start [OF this]
  obtain s where s: "grpc_reachable counter_sem sample_grpc_backend 10 8 s" "gp_calls s = [call_new]"
    using r_into_rtranclp [of "grpc_step counter_sem", OF step]
    by (auto simp: grpc_reachable_def grpc_pool_new_def)
  from grpc_one_shared_connection [OF counter.semaphore_axioms s(1)] s
  show ?thesis by (auto simp: call_new_def call_live_def)
qed

section \<open>Observability\<close>

text \<open>
  C13.  Counters under load: logging cannot be amplified by a flood, and the gauges are exact although
  the value and its peak are two separate atomic operations.
\<close>

theorem counters_exact:
  assumes "rejections reason ob = 0" "n \<le> u64_max"
    and "gauge_step\<^sup>*\<^sup>* gauge_start gauge" "gs_pending gauge = []"
  shows "rejections reason (snd (reject_flood reason n ob)) = n \<and>
    fst (reject_flood reason n ob) = map (\<lambda>i. \<exists>k < 64. Suc i = 2 ^ k) [0..<n] \<and>
    length (filter (\<lambda>l. l) (fst (reject_flood reason n ob))) \<le> 64 \<and>
    unat (gs_peak gauge) = gs_most gauge \<and> unat (gs_active gauge) = gs_live gauge"
  using reject_flood_logs [OF assms(1,2)] reject_flood_few_logs [OF assms(1,2)] gauge_exact [OF assms(3,4)]
  by simp

lemma counters_exact_witness:
  "\<exists>gauge. gauge_step\<^sup>*\<^sup>* gauge_start gauge \<and> unat (gs_active gauge) = 1 \<and> unat (gs_peak gauge) = 1 \<and>
     rejections Headers (snd (reject_flood Headers 1000 sample_observability)) = 1000"
proof -
  have "rejections Headers sample_observability = 0"
    by (simp add: rejections_def sample_observability_def observability_new_def counters_default_def)
  moreover have "1000 \<le> u64_max" by (simp add: u64_max_def)
  moreover obtain gauge where g: "gauge_step\<^sup>*\<^sup>* gauge_start gauge" "gs_pending gauge = []" "gs_live gauge = 1" "gs_most gauge = 1"
    using sample_gauge by blast
  ultimately show ?thesis using counters_exact [of Headers sample_observability 1000 gauge] by auto
qed

section \<open>Certificates\<close>

text \<open>
  C14.  The choice of a certificate refines its specification: the maps that were built while the files were
  read, one claim after the other, answer a server name as a search of the loaded certificates does.
\<close>

theorem certificate_for_server_name:
  assumes load: "load_index lib env config fs = Inr index" and name: "\<not> starts_with (normalize_san name) ''*.''"
  shows "\<exists>pairs ps. discover_pairs env config = Inr pairs \<and>
    collect_results (read_pair lib env fs) (te_order env pairs) = Inr ps \<and> distinct (all_names ps) \<and>
    certificate_resolve index (Some name) = certificate_for ps (ix_default index) (normalize_san name) \<and>
    certificate_resolve index None = ix_default index \<and>
    ix_default index = Option.bind (tc_default_certificate config) (map_of (rev (map (\<lambda>(i, key, md). (i, key)) ps)))"
proof -
  from load obtain pairs ps where ps: "discover_pairs env config = Inr pairs"
    "collect_results (read_pair lib env fs) (te_order env pairs) = Inr ps" "distinct (all_names ps)"
    and index: "index = finish_index config (loaded_index ps)" by (auto simp: load_index_iff)
  have "ix_default index = Option.bind (tc_default_certificate config) (map_of (rev (map (\<lambda>(i, key, md). (i, key)) ps)))"
    by (simp add: index finish_index_def loaded_index_def loaded_fields(3)) (simp add: index_build_init_def)
  moreover have "certificate_resolve index None = ix_default index" by (simp add: certificate_resolve_def)
  ultimately show ?thesis using ps certificate_resolve_spec [OF ps(3) index name] by blast
qed

lemma certificate_for_server_name_witness:
  "certificate_resolve (sample_index ''1'') (Some ''a.io.'') = Some (sample_certified ''1'') \<and>
   certificate_resolve (sample_index ''1'') None = Some (sample_certified ''1'')"
proof -
  have "\<not> starts_with (normalize_san ''a.io.'') ''*.''" by (simp add: eval_simps)
  from certificate_for_server_name [OF sample_loads this] have
    "certificate_resolve (sample_index ''1'') None = ix_default (sample_index ''1'')" by blast
  then show ?thesis by (simp add: eval_simps sample_tls_defs)
qed

text \<open>
  C15.  The files come out of a hash map, in an order that differs from run to run.  Neither the success of
  loading nor what the index answers depends on it.
\<close>

theorem certificate_load_order:
  assumes "load_index lib env config fs = Inr index"
    and "\<And>pairs. mset (te_order env pairs) = mset pairs" "\<And>pairs. mset (order pairs) = mset pairs"
  shows "\<exists>index'. load_index lib (env\<lparr>te_order := order\<rparr>) config fs = Inr index' \<and>
    (\<forall>name. certificate_resolve index' name = certificate_resolve index name) \<and>
    map_of (ix_metadata index') = map_of (ix_metadata index)"
proof -
  from load_index_order [OF assms] obtain index' where
    index': "load_index lib (env\<lparr>te_order := order\<rparr>) config fs = Inr index'" "same_index index index'" by blast
  then have "certificate_resolve index' name = certificate_resolve index name" for name
    by (cases name) (simp_all add: same_index_def certificate_resolve_def)
  with index' show ?thesis by (auto simp: same_index_def)
qed

lemma certificate_load_order_witness:
  "\<exists>index'. load_index sample_x509 (sample_scan\<lparr>te_order := rev\<rparr>) sample_tls (sample_certificates ''1'' ''1'') = Inr index' \<and>
     certificate_resolve index' (Some ''a.io'') = Some (sample_certified ''1'')"
proof -
  from certificate_load_order [OF sample_loads sample_order, of rev] obtain index' where
    "load_index sample_x509 (sample_scan\<lparr>te_order := rev\<rparr>) sample_tls (sample_certificates ''1'' ''1'') = Inr index'"
    "\<And>name. certificate_resolve index' name = certificate_resolve (sample_index ''1'') name" by auto
  then show ?thesis using sample_served by metis
qed

text \<open>
  C16.  Storing an issued pair, however its system calls fail: at every moment the certificate and the key on
  disk are the old ones, or the key alone is new, or both are; never a part of a file and never the
  certificate before its key.
\<close>

theorem certificate_pair_old_or_new:
  assumes "distinct (pair_paths env tls i)" "save_certificate_pair env tls i cert key (fs, []) = (r, fs', seen)"
  shows "list_all (\<lambda>g. (\<forall>q. q \<notin> set (pair_paths env tls i) \<longrightarrow> g q = fs q) \<and>
      (g (cert_path tls i), g (key_path tls i)) \<in>
        {(fs (cert_path tls i), fs (key_path tls i)), (fs (cert_path tls i), Some key), (Some cert, Some key)})
    (fs' # seen) \<and>
    (r = Inr () \<longrightarrow>
      fs' = fs(cert_temp env tls i := None, key_temp env tls i := None, key_path tls i \<mapsto> key, cert_path tls i \<mapsto> cert))"
proof -
  from save_certificate_pair_states [OF assms] have "trail (pair_observed env tls i cert key fs) (fs', seen)"
    and ok: "r = Inr () \<Longrightarrow>
      fs' = fs(cert_temp env tls i := None, key_temp env tls i := None, key_path tls i \<mapsto> key, cert_path tls i \<mapsto> cert)"
    by simp_all
  then have "\<forall>g \<in> set (fs' # seen). pair_observed env tls i cert key fs g" by (auto simp: trail_def)
  then have "list_all (\<lambda>g. (\<forall>q. q \<notin> set (pair_paths env tls i) \<longrightarrow> g q = fs q) \<and>
      (g (cert_path tls i), g (key_path tls i)) \<in>
        {(fs (cert_path tls i), fs (key_path tls i)), (fs (cert_path tls i), Some key), (Some cert, Some key)}) (fs' # seen)"
    unfolding list_all_iff pair_observed_def pair_files_def same_off_def by blast
  with ok show ?thesis by blast
qed

lemma certificate_pair_old_or_new_witness:
  "fst (snd (save_certificate_pair sample_pair_env sample_tls ''a'' ''2'' ''2'' (sample_certificates ''1'' ''1'', [])))
     = sample_certificates ''2'' ''2''"
proof -
  obtain r fs' seen where run: "save_certificate_pair sample_pair_env sample_tls ''a'' ''2'' ''2''
      (sample_certificates ''1'' ''1'', []) = (r, fs', seen)" by (rule prod_cases3)
  with sample_save_ok have "r = Inr ()" by (simp add: is_ok_iff)
  with run certificate_pair_old_or_new [OF sample_paths_distinct run] show ?thesis
    by (simp add: sample_paths sample_certificates_def fun_eq_iff)
qed

text \<open>
  C17.  A weakness of storing a pair: the renewal cut between its two renames leaves a pair that does not fit,
  and loading rejects the whole directory because of it.  The running gateway keeps its index and
  renews again, but one that is restarted before that fails to start.
\<close>

theorem interrupted_renewal_stops_gateway:
  assumes "distinct (pair_paths env (co_tls co) i)"
    and "save_certificate_pair env (co_tls co) i cert key (fs, []) = (r, fs', seen)"
    and "pv_create_dir env = None" "pv_key_rename env = No_Fault" "pv_cert_rename env = Fault e n"
    and "fst (write_file (pv_cert env) (cert_temp env (co_tls co) i) cert (fs, [])) = Inr ()"
    and "fst (write_file (pv_key env) (key_temp env (co_tls co) i) key
          (snd (write_file (pv_cert env) (cert_temp env (co_tls co) i) cert (fs, [])))) = Inr ()"
    and "fs (cert_path (co_tls co) i) = Some old" "xl_certs lib old = Inr chain"
    and "xl_private_key lib key = Inr (Some k)" "xl_from_der lib chain k = Inl message"
    and "discover_pairs (su_scan su) (co_tls co) = Inr pairs" "\<And>ps. mset (te_order (su_scan su) ps) = mset ps"
    and "(i, cert_path (co_tls co) i, key_path (co_tls co) i) \<in> set pairs"
  shows "\<not> is_ok r \<and> fs' (cert_path (co_tls co) i) = Some old \<and> fs' (key_path (co_tls co) i) = Some key \<and>
    \<not> is_ok (gateway_launch sem lib al su co fs')"
proof -
  from second_rename_fails [OF assms(1,2,3,4,6,7,5)] assms(8)
  have r: "\<not> is_ok r" and files: "fs' (cert_path (co_tls co) i) = Some old" "fs' (key_path (co_tls co) i) = Some key"
    by (simp_all add: pair_files_def)
  from mismatched_pair_not_read [OF files assms(9-11)] have
    "\<not> is_ok (read_pair lib (su_scan su) fs' (i, cert_path (co_tls co) i, key_path (co_tls co) i))" .
  from unreadable_pair_stops_launch [OF assms(12,14,13) this] r files show ?thesis by blast
qed

lemma interrupted_renewal_stops_gateway_witness:
  "\<forall>co. \<not> is_ok (gateway_launch counter_sem sample_x509 sample_authority sample_startup (co\<lparr>co_tls := sample_tls\<rparr>)
     (fst (snd (save_certificate_pair (sample_pair_env\<lparr>pv_cert_rename := Fault not_found 0\<rparr>) sample_tls ''a'' ''2'' ''2''
        (sample_certificates ''1'' ''1'', []))))) \<and>
     fst (snd (save_certificate_pair (sample_pair_env\<lparr>pv_cert_rename := Fault not_found 0\<rparr>) sample_tls ''a'' ''2'' ''2''
        (sample_certificates ''1'' ''1'', []))) (key_path sample_tls ''a'') = Some ''2''"
proof
  fix co :: config
  let ?env = "sample_pair_env\<lparr>pv_cert_rename := Fault not_found 0\<rparr>" and ?co = "co\<lparr>co_tls := sample_tls\<rparr>"
  obtain r fs' seen where run: "save_certificate_pair ?env (co_tls ?co) ''a'' ''2'' ''2''
      (sample_certificates ''1'' ''1'', []) = (r, fs', seen)" by (rule prod_cases3)
  have writes: "pv_create_dir ?env = None" "pv_key_rename ?env = No_Fault" "pv_cert_rename ?env = Fault not_found 0"
    "fst (write_file (pv_cert ?env) p d h) = Inr ()" "fst (write_file (pv_key ?env) p d h) = Inr ()" for p d h
    by (cases h, simp add: sample_pair_env_def sample_write)+
  have paths: "distinct (pair_paths ?env (co_tls ?co) ''a'')"
    "(''a'', cert_path (co_tls ?co) ''a'', key_path (co_tls ?co) ''a'') \<in> set [(''a'', ''c/a.crt'', ''c/a.key'')]"
    using sample_paths_distinct by (simp_all add: pair_paths_def cert_temp_def key_temp_def sample_paths)
  have library: "sample_certificates ''1'' ''1'' (cert_path (co_tls ?co) ''a'') = Some ''1''"
    "xl_certs sample_x509 ''1'' = Inr [''1'']" "xl_private_key sample_x509 ''2'' = Inr (Some ''2'')"
    "xl_from_der sample_x509 [''1''] ''2'' = Inl ''mismatch''"
    by (simp_all add: sample_paths sample_certificates_def sample_x509_def)
  have scan: "discover_pairs (su_scan sample_startup) (co_tls ?co) = Inr [(''a'', ''c/a.crt'', ''c/a.key'')]"
    "mset (te_order (su_scan sample_startup) ps) = mset ps" for ps
    using sample_pairs sample_order by (simp_all add: sample_startup_def)
  from interrupted_renewal_stops_gateway [OF paths(1) run writes library scan paths(2), of counter_sem sample_authority]
  show "\<not> is_ok (gateway_launch counter_sem sample_x509 sample_authority sample_startup ?co
     (fst (snd (save_certificate_pair ?env sample_tls ''a'' ''2'' ''2'' (sample_certificates ''1'' ''1'', []))))) \<and>
     fst (snd (save_certificate_pair ?env sample_tls ''a'' ''2'' ''2'' (sample_certificates ''1'' ''1'', [])))
       (key_path sample_tls ''a'') = Some ''2''"
    using run by simp
qed

section \<open>Renewal\<close>

text \<open>
  C18.  One cycle of the certificate manager.  It needs an account: if that can neither be found nor created
  the cycle ends with that error, before any order, and the certificates stay as they are.  Otherwise
  all due certificates are tried and failures stay separate.  No challenge is announced before it can be
  answered, and the listener for challenges does not outlive the cycle.
\<close>

theorem acme_cycle_complete:
  assumes "run_cycle al lib env m = (r, m')" "am_http01 m = None"
    and "ensure_account al (cy_account env) m = (account, m1)"
  shows "am_http01 m' = None \<and>
    (if \<not> ac_enabled (am_config m) then r = Inr () \<and> m' = m
     else case account of
       Inl e \<Rightarrow> r = Inl e \<and> am_log m' = am_log m \<and> am_store m' = am_store m
     | Inr _ \<Rightarrow>
       (\<exists>new. am_log m' = am_log m @ new \<and> ordered_ids new = map cc_id (due_certificates al (cy_due env) m) \<and>
          subseq (activated_ids new) (ordered_ids new) \<and> (is_ok r \<longleftrightarrow> activated_ids new = ordered_ids new) \<and>
          list_all (readable_answer hlib) new))"
proof (cases "ac_enabled (am_config m)")
  case False
  with assms show ?thesis by (simp add: run_cycle_def)
next
  case enabled: True
  show ?thesis
  proof (cases account)
    case (Inl e)
    with enabled assms ensure_account_only [OF assms(3)] show ?thesis by (simp add: run_cycle_def)
  next
    case (Inr acct)
    note account = assms(3) [unfolded Inr]
    from run_cycle_batch(2) [OF assms(1,2) enabled account] obtain new where new: "am_log m' = am_log m @ new"
      "list_all answered new" "ordered_ids new = map cc_id (due_certificates al (cy_due env) m)"
      "subseq (activated_ids new) (ordered_ids new)" "is_ok r \<longleftrightarrow> activated_ids new = ordered_ids new" by blast
    have "list_all (readable_answer hlib) new" using new(2) answered_readable by (auto simp: list_all_iff)
    with new run_cycle_batch(1) [OF assms(1,2) enabled account] enabled Inr show ?thesis by auto
  qed
qed

lemma acme_cycle_complete_witness:
  "\<exists>r m'. run_cycle sample_authority sample_x509 sample_cycle sample_manager = (r, m') \<and> am_http01 m' = None \<and>
     ordered_ids (am_log m') = [''a''] \<and> (is_ok r \<longleftrightarrow> activated_ids (am_log m') = [''a''])"
proof -
  obtain r m' where run: "run_cycle sample_authority sample_x509 sample_cycle sample_manager = (r, m')" by (metis surj_pair)
  have account: "ensure_account sample_authority (cy_account sample_cycle) sample_manager = (Inr ''acct'', sample_manager)"
    by (simp add: ensure_account_def sample_manager_sel)
  have enabled: "ac_enabled (am_config sample_manager)" by (simp add: sample_manager_sel sample_renewal_config_def)
  have start: "am_log sample_manager = []" by (simp add: sample_manager_def acme_manager_new_def)
  from acme_cycle_complete [OF run sample_manager_sel(3) account] start enabled
  have "am_http01 m' = None" "ordered_ids (am_log m') = [''a'']" "is_ok r \<longleftrightarrow> activated_ids (am_log m') = ordered_ids (am_log m')"
    by (auto simp: sample_due_certificates sample_desired_def)
  with run show ?thesis by simp
qed



text \<open>
  C20.  What validation promises is kept: a pair that passed it can always be activated, and doing so is an
  update of one entry in the abstract table from certificate identifiers to metadata.
\<close>

theorem renewed_certificate_activated:
  assumes "ie_new_order env (order_of al m desired) = Inr ()"
    and "fst (authorize (ie_authorizations env) []
      (m\<lparr>am_log := am_log m @ [Ordered (cc_id desired) (fst (order_of al m desired)) (snd (order_of al m desired))]\<rparr>)) = Inr ()"
    and "obtain_pair env = Inr (cert, key)"
    and "store_current lib env0 (am_store m) (fst (am_files m)) pairs" "ce_config (am_store m) = am_tls m"
    and "validate_candidate lib m desired (cert, key) = Inr candidate"
    and "distinct (pair_paths (ie_pair env) (am_tls m) (cc_id desired))"
    and "is_ok (fst (save_certificate_pair (ie_pair env) (am_tls m) (cc_id desired) cert key (fst (am_files m), [])))"
    and "scan_current (ie_scan env) (am_tls m) (cc_id desired) pairs pairs'"
    and "others_apart (pair_paths (ie_pair env) (am_tls m) (cc_id desired)) (cc_id desired) pairs"
  shows "\<exists>m'. issue_certificate al lib env desired m = (Inr (), m') \<and>
    store_metadata (am_store m') = (store_metadata (am_store m))(cc_id desired \<mapsto> candidate) \<and>
    domains_match candidate desired \<and>
    (fst (am_files m') (cert_path (am_tls m) (cc_id desired)), fst (am_files m') (key_path (am_tls m) (cc_id desired)))
      = (Some cert, Some key) \<and>
    store_current lib (ie_scan env) (am_store m') (fst (am_files m')) pairs'"
  using issue_certificate_activates [OF assms] by (simp add: pair_files_def)

lemma renewed_certificate_activated_witness:
  "\<exists>m'. issue_certificate sample_authority sample_x509 sample_issue sample_desired sample_manager = (Inr (), m') \<and>
     store_metadata (am_store m') ''a'' = Some (sample_leaf ''2'')"
proof -
  have "ie_new_order sample_issue (order_of sample_authority sample_manager sample_desired) = Inr ()"
    by (simp add: sample_issue_def)
  moreover have "fst (authorize (ie_authorizations sample_issue) [] (sample_manager\<lparr>am_log := log\<rparr>)) = Inr ()" for log
    by (simp add: sample_issue_def sample_authorized sample_manager_sel del: authorize.simps)
  moreover have "distinct (pair_paths (ie_pair sample_issue) (am_tls sample_manager) (cc_id sample_desired))"
    using sample_paths_distinct by (simp add: sample_manager_sel sample_issue_def sample_desired_def)
  moreover have "ce_config (am_store sample_manager) = am_tls sample_manager" by (simp add: sample_manager_sel)
  ultimately show ?thesis
    using renewed_certificate_activated [OF _ _ sample_obtained sample_current _ sample_validated _ sample_stored sample_rescan sample_apart]
    by (fastforce simp: sample_desired_def)
qed

text \<open>
  C21.  Times: where the 64-bit hash, the remainder and the saturating additions can put the moment of a
  renewal, and how long the scheduler sleeps between cycles.
\<close>

theorem renewal_times:
  assumes "is_i64 start" "is_i64 end_time" "m \<le> n"
  shows "start \<le> renewal_target start end_time i \<and> is_i64 (renewal_target start end_time i) \<and>
    (start < end_time \<longrightarrow> renewal_target start end_time i < end_time) \<and>
    (end_time \<le> start \<longrightarrow> renewal_target start end_time i = start) \<and>
    cycle_pause interval n ok \<le> interval \<and> min (from_secs 300) interval \<le> cycle_pause interval n ok \<and>
    cycle_pause interval n False \<le> from_secs 10800 \<and> cycle_pause interval m False \<le> cycle_pause interval n False"
  using renewal_target_in_window [OF assms(1,2)] renewal_target_reversed [OF assms(1,2)] cycle_pause_bounds [where interval = interval and streak = n and ok = ok]
    cycle_pause_bounds [where interval = interval and streak = n and ok = False]
    acme_failure_retry_delay_bounds(4) [OF assms(3), of interval]
  by (simp add: cycle_pause_def)

lemma renewal_times_witness:
  "1000 \<le> renewal_target 1000 2000 ''gateway'' \<and> renewal_target 1000 2000 ''gateway'' < 2000 \<and>
   renewal_target 2000 1000 ''gateway'' = 2000 \<and>
   cycle_pause (from_secs 600) 4 False = from_secs 600"
  using renewal_times [where start = 1000 and end_time = 2000 and m = 4 and n = 4 and i = "''gateway''"
      and interval = "from_secs 600" and ok = False]
  by (simp add: eval_simps is_i64_def from_secs_def)

section \<open>Byte streams over HTTP/2, and the end\<close>

text \<open>
  C22.  Both directions of the HTTP/2 adapter refine a byte stream, in every interleaving of writing,
  reading, closing and dropping.
\<close>

theorem extended_connect_stream:
  assumes "read_all ns [] polls = (d, buffered, polls')" "connect_step\<^sup>*\<^sup>* connect_channel_new c"
  shows "d @ buffered @ body_bytes polls' = body_bytes polls \<and>
    (\<forall>n rest. 0 < n \<and> poll_read n buffered polls' = (Read_Ready [], rest) \<longrightarrow> d = body_bytes polls) \<and>
    xc_yielded c @ concat (xc_queue c) = xc_written c \<and> length (xc_queue c) \<le> 4 \<and>
    (\<forall>c'. response_poll_frame c = (Body_End, c') \<longrightarrow> xc_yielded c = xc_written c)"
proof -
  have all: "d @ buffered @ body_bytes polls' = body_bytes polls" using read_all_bytes [OF assms(1)] by simp
  have "d = body_bytes polls" if "0 < n" "poll_read n buffered polls' = (Read_Ready [], rest)" for n rest
  proof -
    obtain b p where "rest = (b, p)" by (cases rest)
    with that have "buffered = []" "poll_frames n polls' = (Read_Ready [], b, p)"
      by (auto simp: poll_read_def split: if_splits)
    with poll_frames_end [OF this(2) that(1)] all show ?thesis by simp
  qed
  with all connect_inv_reachable [OF assms(2)] end_of_body(1) [OF assms(2)] show ?thesis
    by (auto simp: connect_inv_def response_body_channel_capacity_def)
qed

lemma extended_connect_stream_witness:
  "read_all [2, 2] [] [Frame_Data ''abc'', Frame_Trailers, Frame_End] = (''abc'', [], [Frame_Trailers, Frame_End]) \<and>
   (let c = snd (poll_write ''xy'' connect_channel_new) in xc_yielded c @ concat (xc_queue c) = ''xy'')"
proof -
  have read: "read_all [2, 2] [] [Frame_Data ''abc'', Frame_Trailers, Frame_End] = (''abc'', [], [Frame_Trailers, Frame_End])"
    by (simp add: eval_simps)
  have step: "connect_step\<^sup>*\<^sup>* connect_channel_new (snd (poll_write ''xy'' connect_channel_new))"
    by (rule r_into_rtranclp) (rule Connect_Write)
  from extended_connect_stream [OF read step] have
    "xc_yielded (snd (poll_write ''xy'' connect_channel_new)) @ concat (xc_queue (snd (poll_write ''xy'' connect_channel_new))) =
     xc_written (snd (poll_write ''xy'' connect_channel_new))" by blast
  also have "\<dots> = ''xy''" by (simp add: eval_simps)
  finally show ?thesis using read by simp
qed

text \<open>
  C23.  The orderly end.  A connection is told to end by the cancellation, which is looked at after its
  handshake only, and then has the grace period; so has the data plane once all connections have ended.
  No peer can hold the gateway up longer than that, and nothing is abandoned that ended in time.
\<close>

theorem shutdown_bounded:
  assumes "config_load lib toml fault env path fs = (Inr co, fs')"
    and "list_all (\<lambda>ct. ct_accepted ct \<le> now) connections"
  shows "let limit = sc_tls_handshake_timeout (co_server co); grace = sc_shutdown_grace (co_server co);
             run = shutdown_run (co_server co) finished connections ft now;
             joined = snd (run ! 4); plane = snd (run ! 5) in
    (\<forall>ct. ct \<in> set connections \<longrightarrow> snd (serve_connection limit grace now ct) \<le> joined) \<and>
    joined \<le> now + limit + grace \<and> joined \<le> now + from_secs 900 \<and>
    (list_all (\<lambda>ct. \<exists>t ok. ct_handshake ct = Some (t, ok) \<and> max (ct_accepted ct) t \<le> now) connections \<longrightarrow>
       joined \<le> now + grace) \<and>
    joined \<le> plane \<and> plane \<le> joined + grace \<and> plane \<le> now + from_secs 1500 \<and>
    (fst (run ! 5) = Data_Plane_Abandoned \<longleftrightarrow>
       \<not> (\<exists>w g h. ft_websocket ft = Some w \<and> ft_grpc ft = Some g \<and> ft_http ft = Some h \<and>
            max w (max g h) \<le> joined + grace)) \<and>
    sorted (map snd run) \<and>
    snd (last run) = foldl max plane ((case ft_acme ft of None \<Rightarrow> [] | Some t \<Rightarrow> [t]) @ [ft_client_address ft]
       @ (if finished then [] else [ft_blocking ft]) @ [ft_observability ft])"
proof -
  obtain c directory where a: "accepted lib env directory c fs co fs'"
    using assms(1) by (rule config_load_accepted) blast
  have bounds: "sc_tls_handshake_timeout (co_server co) \<le> from_secs 300" "sc_shutdown_grace (co_server co) \<le> from_secs 600"
    using a by (simp_all add: accepted_def server_config_ok_def)
  define limit where "limit = sc_tls_handshake_timeout (co_server co)"
  define grace where "grace = sc_shutdown_grace (co_server co)"
  note times = shutdown_run_times [of "co_server co" finished connections ft now, folded limit_def grace_def]
  define joined where "joined = connections_joined limit grace connections now"
  note run = times [folded joined_def]
  have "joined \<le> now + limit + grace" unfolding joined_def by (rule connections_joined_le [OF assms(2)])
  moreover have "now + limit + grace \<le> now + from_secs 900" "grace \<le> from_secs 600"
    using bounds by (simp_all add: limit_def grace_def from_secs_def)
  moreover have "from_secs 900 + from_secs 600 = from_secs 1500" by (simp add: from_secs_def)
  moreover note await_within_bounds(1,2) [of joined grace "join_three (ft_websocket ft) (ft_grpc ft) (ft_http ft)"]
  ultimately have bound: "joined \<le> now + limit + grace" "joined \<le> now + from_secs 900"
    "snd (shutdown_run (co_server co) finished connections ft now ! 5) \<le> now + from_secs 1500"
    "joined \<le> snd (shutdown_run (co_server co) finished connections ft now ! 5)"
    "snd (shutdown_run (co_server co) finished connections ft now ! 5) \<le> joined + grace"
    unfolding run(2) by simp_all
  have abandoned: "snd (await_within joined grace (join_three (ft_websocket ft) (ft_grpc ft) (ft_http ft))) = None \<longleftrightarrow>
      \<not> (\<exists>w g h. ft_websocket ft = Some w \<and> ft_grpc ft = Some g \<and> ft_http ft = Some h \<and> max w (max g h) \<le> joined + grace)"
    by (auto simp: await_within_def join_three_def split: option.splits)
  have fate: "\<forall>ct. ct \<in> set connections \<longrightarrow> snd (serve_connection limit grace now ct) \<le> joined"
    unfolding joined_def using connections_joined_ge(2) by blast
  have served: "list_all (\<lambda>ct. \<exists>t ok. ct_handshake ct = Some (t, ok) \<and> max (ct_accepted ct) t \<le> now) connections \<longrightarrow>
      joined \<le> now + grace"
    unfolding joined_def using connections_joined_served by blast
  have plane: "fst (shutdown_run (co_server co) finished connections ft now ! 5) = Data_Plane_Abandoned \<longleftrightarrow>
      \<not> (\<exists>w g h. ft_websocket ft = Some w \<and> ft_grpc ft = Some g \<and> ft_http ft = Some h \<and> max w (max g h) \<le> joined + grace)"
    unfolding run(2) abandoned [symmetric] by simp
  have final: "snd (last (shutdown_run (co_server co) finished connections ft now)) =
      foldl max (snd (shutdown_run (co_server co) finished connections ft now ! 5))
        ((case ft_acme ft of None \<Rightarrow> [] | Some t \<Rightarrow> [t]) @ [ft_client_address ft]
         @ (if finished then [] else [ft_blocking ft]) @ [ft_observability ft])"
    unfolding run(2) snd_conv by (rule run(5))
  show ?thesis
    unfolding Let_def limit_def [symmetric] grace_def [symmetric] run(1) snd_conv
    using fate bound served plane run(3) final by (intro conjI)
qed

lemma shutdown_bounded_witness:
  "\<exists>co. fst sample_config_load = Inr co \<and>
     snd (shutdown_run (co_server co) False [sample_stalled, sample_served_connection] sample_finish 0 ! 5) \<le> from_secs 1500 \<and>
     fst (shutdown_run (co_server co) False [sample_stalled, sample_served_connection] sample_finish 0 ! 5)
       = Data_Plane_Abandoned \<and>
     snd (serve_connection (sc_tls_handshake_timeout (co_server co)) (sc_shutdown_grace (co_server co)) 0
       sample_served_connection) \<le> from_secs 900"
proof -
  obtain co where co: "sample_config_load = (Inr co, [''/e'' \<mapsto> []])" using sample_config_ok by blast
  have "list_all (\<lambda>ct. ct_accepted ct \<le> 0) [sample_stalled, sample_served_connection]"
    by (simp add: sample_stalled_def sample_served_connection_def)
  from shutdown_bounded [OF co [unfolded sample_config_load_def] this, where finished = False and ft = sample_finish]
  have "\<exists>joined. snd (serve_connection (sc_tls_handshake_timeout (co_server co)) (sc_shutdown_grace (co_server co)) 0
       sample_served_connection) \<le> joined \<and> joined \<le> from_secs 900"
    "snd (shutdown_run (co_server co) False [sample_stalled, sample_served_connection] sample_finish 0 ! 5) \<le> from_secs 1500"
    "fst (shutdown_run (co_server co) False [sample_stalled, sample_served_connection] sample_finish 0 ! 5)
       = Data_Plane_Abandoned"
    by (auto simp: Let_def sample_finish_def)
  with arg_cong [OF co, of fst] show ?thesis by (intro exI [of _ co]) auto
qed

section \<open>Admission: hosts, server names, addresses\<close>

text \<open>
  C24.  A request that \<open>resolve_request_host\<close> accepts names one host: the result is a canonical DNS
  name, there is at most one \<open>Host\<close> field, and the field and the authority of the target, where
  present, both normalise to that name and to one effective port (443 by default).  An HTTP/2
  request always has an authority.
\<close>

theorem request_host_unambiguous:
  assumes "resolve_request_host lib request = Inr host"
  shows "canonical_host host \<and>
     length (hm_get_all lib (rq_headers request) ''host'') \<le> 1 \<and>
     (\<exists>port. (\<forall>v \<in> set (hm_get_all lib (rq_headers request) ''host''). \<exists>s p.
            hv_to_str lib v = Some s \<and> normalize_authority s = Inr (host, p)
            \<and> effective_port p = port)
          \<and> (\<forall>a. u_authority (rq_uri request) = Some a \<longrightarrow>
              (\<exists>p. normalize_authority a = Inr (host, p) \<and> effective_port p = port))) \<and>
     (rq_version request = Http_2 \<longrightarrow> u_authority (rq_uri request) \<noteq> None)"
  using resolve_request_host_sound [OF assms] by blast

lemma request_host_unambiguous_witness:
  "canonical_host ''api.example.com''"
proof -
  let ?lib = "list_http (\<lambda>s. Inl [])"
  let ?request = "\<lparr> rq_method = ''GET'', rq_uri = sample_uri (Some ''API.example.com''),
     rq_version = Http_2, rq_headers = [(''host'', ''api.example.com:443'')] \<rparr>"
  have "resolve_request_host ?lib ?request = Inr ''api.example.com''"
    by (simp add: eval_simps sample_uri_def)
  then show ?thesis using request_host_unambiguous by blast
qed

text \<open>
  C25.  The decision of a policy that \<open>RoutingPolicy::build\<close> accepted, in terms of the bindings it was
  built from: a configured host is permitted without a server name unless one is required; under a
  server name with bindings when one of them lists the host; under any other valid server name
  only when it is the host.
\<close>

theorem host_policy_exact:
  assumes "routing_policy_build hosts require_sni bindings = Inr policy"
  shows "permits_request_host policy host sni \<longleftrightarrow>
     host \<in> hosts \<and>
     (case sni of
        None \<Rightarrow> \<not> require_sni
      | Some s \<Rightarrow> \<exists>name. normalize_dns_host s = Inr name \<and>
          (if \<exists>b \<in> set bindings. normalize_dns_host (fst b) = Inr name
           then \<exists>b \<in> set bindings. normalize_dns_host (fst b) = Inr name
                  \<and> (\<exists>t \<in> set (snd b). normalize_dns_host t = Inr host)
           else name = host))"
  by (rule permits_request_host_build [OF assms])

lemma host_policy_exact_witness:
  "\<exists>policy. routing_policy_build {''a.io'', ''b.io''} True [(''Edge.io.'', [''a.io''])] = Inr policy \<and>
     \<not> permits_request_host policy ''a.io'' None \<and> \<not> permits_request_host policy ''c.io'' (Some ''c.io'')"
proof -
  have "is_ok (routing_policy_build {''a.io'', ''b.io''} True [(''Edge.io.'', [''a.io''])])"
    by (simp add: eval_simps)
  then obtain policy where
    b: "routing_policy_build {''a.io'', ''b.io''} True [(''Edge.io.'', [''a.io''])] = Inr policy"
    by (auto simp: is_ok_iff)
  then show ?thesis
    using host_policy_exact [OF b, of "''a.io''" None]
      host_policy_exact [OF b, of "''c.io''" "Some ''c.io''"] by simp
qed

text \<open>
  C26.  What \<open>normalize_dns_host\<close> accepts and returns: the canonical names (labels of 1 to 63 letters,
  digits and inner hyphens, 253 bytes in all, no address literal), in lower case and without the
  final dot of the absolute form.
\<close>

theorem dns_host_form:
  "normalize_dns_host v = Inr h \<longleftrightarrow>
     canonical_host h \<and> (to_ascii_lowercase v = h \<or> to_ascii_lowercase v = h @ ''.'')"
  by (rule normalize_dns_host_iff)

text \<open>
  A network that \<open>IpNetwork::parse\<close> accepts contains an address exactly when the address, with an
  IPv4-mapped IPv6 address read as the IPv4 address, is of the written address's family and agrees
  with it in the leading bits the prefix counts.
\<close>

theorem cidr_membership:
  assumes "ip_network_parse s = Inr n"
  shows "\<exists>address prefix b p. s = address @ ''/'' @ prefix \<and> parse_ip address = Some b \<and>
     parse_unsigned u32_max prefix = Some p \<and> p \<le> ip_width b \<and>
     (\<forall>a. ip_network_contains n a \<longleftrightarrow> same_prefix p b (normalize_ip a))"
  using ip_network_parse_contains [OF assms] by metis

text \<open>
  C27.  Whose address a request counts for.  A peer outside the published networks cannot spoof: no two
  sets of headers make a difference to it.  A peer inside them speaks for exactly the address in its
  one \<open>CF-Connecting-IP\<close> field; without the field, with two of them or with one that is no address
  the request is refused.  Addresses are compared and recorded with IPv4-in-IPv6 undone.
\<close>

theorem client_address_trust:
  assumes "parse_networks source = Inr (cf_networks (ca_cloudflare policy))"
  shows "let outcome = (\<lambda>headers. resolve_client_address lib policy peer headers security) in
    (\<not> published_for source (sa_ip peer) \<longrightarrow>
       (\<forall>headers. outcome headers =
          (if cloudflare_only security then Inl ''route requires a Cloudflare origin peer''
           else Inr \<lparr> ra_peer = peer, ra_client_ip = normalize_ip (sa_ip peer),
             ra_client_ip_source = ''direct_peer'', ra_trusted_proxy = False \<rparr>))) \<and>
    (published_for source (sa_ip peer) \<longrightarrow>
       (\<forall>headers. is_ok (outcome headers) \<longleftrightarrow>
          (\<exists>v s ip. hm_get_all lib headers ''cf-connecting-ip'' = [v] \<and> hv_to_str lib v = Some s \<and> parse_ip s = Some ip)) \<and>
       (\<forall>headers v s ip. hm_get_all lib headers ''cf-connecting-ip'' = [v] \<and> hv_to_str lib v = Some s \<and> parse_ip s = Some ip \<longrightarrow>
          outcome headers = Inr \<lparr> ra_peer = peer, ra_client_ip = normalize_ip ip,
            ra_client_ip_source = ''cf_connecting_ip'', ra_trusted_proxy = True \<rparr>)) \<and>
    (\<forall>headers address v4. outcome headers = Inr address \<longrightarrow> ra_client_ip address \<noteq> V6 (ipv4_mapped v4))"
proof -
  note trusted = cloudflare_contains_published [OF assms, of "sa_ip peer"]
  have direct: "resolve_client_address lib policy peer headers security =
      (if cloudflare_only security then Inl ''route requires a Cloudflare origin peer''
       else Inr \<lparr> ra_peer = peer, ra_client_ip = normalize_ip (sa_ip peer),
         ra_client_ip_source = ''direct_peer'', ra_trusted_proxy = False \<rparr>)"
    if "\<not> published_for source (sa_ip peer)" for headers
    using that by (simp add: resolve_client_address_def trusted)
  have told: "is_ok (resolve_client_address lib policy peer headers security) \<longleftrightarrow>
      (\<exists>v s ip. hm_get_all lib headers ''cf-connecting-ip'' = [v] \<and> hv_to_str lib v = Some s \<and> parse_ip s = Some ip)"
    and spoken: "hm_get_all lib headers ''cf-connecting-ip'' = [v] \<and> hv_to_str lib v = Some s \<and> parse_ip s = Some ip \<Longrightarrow>
      resolve_client_address lib policy peer headers security = Inr \<lparr> ra_peer = peer, ra_client_ip = normalize_ip ip,
        ra_client_ip_source = ''cf_connecting_ip'', ra_trusted_proxy = True \<rparr>"
    if "published_for source (sa_ip peer)" for headers v s ip
    using that by (auto simp: resolve_client_address_def trusted Let_def is_ok_iff split: list.splits)
  have plain: "ra_client_ip address \<noteq> V6 (ipv4_mapped v4)"
    if "resolve_client_address lib policy peer headers security = Inr address" for headers address v4
    using resolve_client_address_cases(5) [OF that] normalized_not_mapped by metis
  show ?thesis
    unfolding Let_def using direct told spoken plain by blast
qed

lemma client_address_trust_witness:
  "resolve_client_address sample_lib sample_trust \<lparr> sa_ip = V4 0x01020304, sa_port = 443 \<rparr> [(''cf-connecting-ip'', ''9.9.9.9'')]
       \<lparr> cloudflare_only = False \<rparr> =
     Inr \<lparr> ra_peer = \<lparr> sa_ip = V4 0x01020304, sa_port = 443 \<rparr>, ra_client_ip = V4 0x09090909,
       ra_client_ip_source = ''cf_connecting_ip'', ra_trusted_proxy = True \<rparr> \<and>
   resolve_client_address sample_lib sample_trust \<lparr> sa_ip = V4 0x02020304, sa_port = 443 \<rparr> [(''cf-connecting-ip'', ''9.9.9.9'')]
       \<lparr> cloudflare_only = False \<rparr> =
     Inr \<lparr> ra_peer = \<lparr> sa_ip = V4 0x02020304, sa_port = 443 \<rparr>, ra_client_ip = V4 0x02020304,
       ra_client_ip_source = ''direct_peer'', ra_trusted_proxy = False \<rparr>"
proof -
  have in_line: "published_for sample_networks (V4 0x01020304)" and not_in_line: "\<not> published_for sample_networks (V4 0x02020304)"
    unfolding cloudflare_contains_published [OF sample_trust_networks, symmetric]
    by (simp_all add: sample_trust_def sample_networks_def eval_simps)
  have field: "hm_get_all sample_lib [(''cf-connecting-ip'', ''9.9.9.9'')] ''cf-connecting-ip'' = [''9.9.9.9'']"
    "hv_to_str sample_lib ''9.9.9.9'' = Some ''9.9.9.9''" "parse_ip ''9.9.9.9'' = Some (V4 0x09090909)"
    by (simp_all add: eval_simps sample_lib_def)
  note trust = client_address_trust [OF sample_trust_networks, of sample_lib _ "\<lparr> cloudflare_only = False \<rparr>", unfolded Let_def]
  from trust [of "\<lparr> sa_ip = V4 0x01020304, sa_port = 443 \<rparr>", THEN conjunct2, THEN conjunct1] in_line field
  have one: "resolve_client_address sample_lib sample_trust \<lparr> sa_ip = V4 0x01020304, sa_port = 443 \<rparr>
      [(''cf-connecting-ip'', ''9.9.9.9'')] \<lparr> cloudflare_only = False \<rparr> =
    Inr \<lparr> ra_peer = \<lparr> sa_ip = V4 0x01020304, sa_port = 443 \<rparr>, ra_client_ip = V4 0x09090909,
       ra_client_ip_source = ''cf_connecting_ip'', ra_trusted_proxy = True \<rparr>" by simp
  from trust [of "\<lparr> sa_ip = V4 0x02020304, sa_port = 443 \<rparr>", THEN conjunct1] not_in_line
  show ?thesis by (simp add: one)
qed

text \<open>
  The fields of a request behind \<open>sanitize_client_address_headers\<close>, name by name, over any header
  map that obeys the documented laws: the client address in \<open>x-forwarded-for\<close> and \<open>x-real-ip\<close> (and in
  \<open>cf-connecting-ip\<close> for a trusted proxy), the protocol a trusted proxy stated or \<open>https\<close>, no other
  internal or address field, and everything else untouched.
\<close>

theorem forwarded_headers:
  assumes "header_map lib"
  shows "\<exists>w. hv_to_str lib w = Some (show_ip (ra_client_ip address)) \<and>
     (\<forall>n. hm_get_all lib (sanitize_client_address_headers lib h address) n =
       (if n = ''x-forwarded-proto'' then
          [if ra_trusted_proxy address \<and>
              (\<exists>v. hm_get_all lib h n = [v] \<and> hv_to_str lib v = Some ''http'')
           then ''http'' else ''https'']
        else if n = ''x-forwarded-for'' \<or> n = ''x-real-ip'' then [w]
        else if n = ''cf-connecting-ip'' \<and> ra_trusted_proxy address then [w]
        else if dropped_name (ra_trusted_proxy address) n then []
        else hm_get_all lib h n))"
  by (rule header_map.sanitize_get_all [OF assms, of address h]) blast

section \<open>Routes\<close>

text \<open>
  Lookup in a WebSocket route table: found are exactly the enabled specifications, each under its
  normalised host and literal path; the host is canonical, the path free of queries, fragments and
  dot segments, and the backend a loopback address with a port.
\<close>

theorem websocket_route_exact:
  assumes "route_table_build lib specs = Inr t"
  shows "(route_resolve t host path = Some r \<longleftrightarrow>
      (\<exists>s \<in> set specs. rs_enabled s \<and> route_key s = Some (host, path) \<and> route_compile lib s = Some r)) \<and>
    (route_resolve t host path = Some r \<longrightarrow>
      canonical_host host \<and> plain_path path \<and>
      is_loopback (sa_ip (backend_address (rt_backend r))) \<and>
      sa_port (backend_address (rt_backend r)) \<noteq> 0)"
  using ws_routes.resolve_build [OF assms, of "(host, path)" r] route_compile_sound by auto

text \<open>
  Lookup in a gRPC route table: found are exactly the enabled specifications; each has the literal
  \<open>/package.Service/Method\<close> form, a loopback backend with a port, and the upstream URI that parsing
  \<open>http://authority/path\<close> of that backend gave.
\<close>

theorem grpc_route_exact:
  assumes "grpc_table_build lib specs = Inr t"
  shows "(grpc_resolve t host path = Some r \<longleftrightarrow>
      (\<exists>s \<in> set specs. gs_enabled s \<and> grpc_key s = Some (host, path) \<and> grpc_compile lib s = Some r)) \<and>
    (grpc_resolve t host path = Some r \<longrightarrow>
      canonical_host host \<and> grpc_method_path path \<and>
      is_loopback (sa_ip (gb_address (gr_backend r))) \<and> sa_port (gb_address (gr_backend r)) \<noteq> 0 \<and>
      uri_parse lib (''http://'' @ gb_authority (gr_backend r) @ path) = Inr (gr_upstream_uri r))"
  using grpc_tbl.resolve_build [OF assms, of "(host, path)" r] grpc_compile_sound [of lib _ r host path]
  by auto

text \<open>
  C28.  Lookup in an HTTP route table of a path that starts with a slash: the enabled exact route for host
  and path wins; without one it is the enabled prefix route whose prefix ends on a segment boundary of
  the path and is the longest such prefix.
\<close>

theorem http_longest_segment_prefix:
  assumes "http_table_build lib directory reserved specs = Inr t" "starts_with path ''/''"
  shows "http_resolve t host path = Some r \<longleftrightarrow>
     serves_exactly lib directory reserved specs (host, path, False) r \<or>
     ((\<forall>x. \<not> serves_exactly lib directory reserved specs (host, path, False) x) \<and>
      (\<exists>p. serves_exactly lib directory reserved specs (host, p, True) r \<and> seg_prefix p path \<and>
         (\<forall>q x. serves_exactly lib directory reserved specs (host, q, True) x \<longrightarrow>
            seg_prefix q path \<longrightarrow> length q \<le> length p)))"
  by (rule http_resolve_spec [OF assms])

lemma http_longest_segment_prefix_witness:
  "\<exists>t. http_table_build sample_lib [] {} [sample_http_route ''r'' ''/a'' Prefix Preserve] = Inr t \<and>
     http_resolve t ''other.io'' ''/a'' = None"
proof -
  have "is_ok (http_table_build sample_lib [] {} [sample_http_route ''r'' ''/a'' Prefix Preserve])"
    by (simp add: eval_simps sample_defs default_file_pool_config_def)
  then obtain t where t: "http_table_build sample_lib [] {} [sample_http_route ''r'' ''/a'' Prefix Preserve] = Inr t"
    by (auto simp: is_ok_iff)
  have "http_key (sample_http_route ''r'' ''/a'' Prefix Preserve) = Some (''edge.io'', ''/a'', True)"
    by (simp add: eval_simps sample_defs http_key_def)
  then have "\<not> serves_exactly sample_lib [] {} [sample_http_route ''r'' ''/a'' Prefix Preserve] (''other.io'', p, k) x" for p k x
    by (simp add: serves_exactly_def)
  then have "http_resolve t ''other.io'' ''/a'' \<noteq> Some r" for r
    using http_longest_segment_prefix [OF t, of "''/a''" "''other.io''" r] by (simp add: eval_simps)
  with t show ?thesis by auto
qed

text \<open>
  Routing and rewriting together: a valid path that a built table resolves is always rewritten, never
  rejected half way, and the target sent upstream is again free of dot segments, repeated separators,
  forbidden bytes and ambiguous escapes; the query is passed on byte for byte.
\<close>

theorem http_rewrite_total:
  assumes "http_table_build lib directory reserved specs = Inr t"
    and "validate_http_path (u_path uri) = Inr ()" "http_resolve t host (u_path uri) = Some r"
  shows "\<exists>target. clean_path target \<and>
     rewrite_target r uri = Inr (case u_query uri of Some q \<Rightarrow> target @ ''?'' @ q | None \<Rightarrow> target)"
proof -
  have "starts_with (u_path uri) ''/''"
    using assms(2) by (simp add: validate_http_path_iff clean_path_def)
  from http_resolve_route [OF assms(1) this assms(3)] rewrite_target_clean [OF _ assms(2)]
  show ?thesis by blast
qed

text \<open>
  Why matching on undecoded paths is sound: a backend that percent-decodes a path the validator
  accepted sees the same segments, each decoded on its own; decoding adds no separator, produces no
  dot segment and no control byte.
\<close>

theorem decoding_keeps_segments:
  assumes "validate_http_path path = Inr ()"
  shows "split_on (CHR ''/'') (pct_decode path) = map pct_decode (split_on (CHR ''/'') path) \<and>
     (\<forall>seg \<in> set (split_on (CHR ''/'') (pct_decode path)). seg \<noteq> ''.'' \<and> seg \<noteq> ''..'') \<and>
     (\<forall>c \<in> set (pct_decode path). 32 \<le> byte c \<and> byte c \<noteq> 127)"
proof -
  have "clean_path path" using assms by (simp add: validate_http_path_iff)
  with clean_path_decoded [OF this] show ?thesis by blast
qed

section \<open>Cloudflare ranges\<close>

text \<open>
  C29.  A refresh takes effect completely or not at all.  When it fails, at whatever point (a download, the
  text, the cache file), the published networks and the cache file are those from before; half a
  snapshot, of one family only, is never published.  When it succeeds, a restart that reads the cache
  file gets exactly the networks that were published.
\<close>

theorem cloudflare_refresh_atomic:
  assumes "cf_refresh v4 v6 env cf fs = (r, cf', fs')"
    and "cf_cache_file cf = Some path" "pe_temp env \<noteq> path"
    and "\<And>s. v4 = Inr s \<Longrightarrow> from_utf8 s = Utf8_Ok" "\<And>s. v6 = Inr s \<Longrightarrow> from_utf8 s = Utf8_Ok"
  shows "(\<not> is_ok r \<longrightarrow> cf' = cf \<and> fs' path = fs path) \<and>
    (\<not> is_ok v4 \<or> \<not> is_ok v6 \<longrightarrow> \<not> is_ok r \<and> fs' = fs) \<and>
    (is_ok r \<longrightarrow> read_cache None path fs' = Inr (cf_networks cf') \<and> cf_cache_file cf' = Some path)"
proof (intro conjI impI)
  assume "\<not> is_ok r"
  then obtain e where "r = Inl e" by (cases r) (auto simp: is_ok_iff)
  from cf_refresh_keeps [OF assms(1) [unfolded this]] assms(2,3) show "cf' = cf" "fs' path = fs path" by simp_all
next
  assume "\<not> is_ok v4 \<or> \<not> is_ok v6"
  then have "\<not> is_ok (try_join v4 v6)" by (cases v4; cases v6) (auto simp: try_join_def is_ok_iff)
  then show "\<not> is_ok r" "fs' = fs"
    using assms(1,2) by (auto simp: cf_refresh_def is_ok_iff split: sum.splits)
next
  assume "is_ok r"
  then obtain u where r: "r = Inr u" by (auto simp: is_ok_iff)
  obtain s4 s6 where s: "v4 = Inr s4" "v6 = Inr s6"
    using assms(1,2) r by (cases v4; cases v6) (auto simp: cf_refresh_def try_join_def)
  from cf_refresh_restart [OF assms(1) [unfolded r s] assms(2,3) assms(4) [OF s(1)] assms(5) [OF s(2)]]
  show "read_cache None path fs' = Inr (cf_networks cf')" "cf_cache_file cf' = Some path" by simp_all
qed

lemma cloudflare_refresh_atomic_witness:
  "(\<exists>cf' fs'. cf_refresh (Inr ''1.0.0.0/8'') (Inr ''2400::/12'') sample_env
      \<lparr> cf_networks = [], cf_cache_file = Some ''/c'' \<rparr> Map.empty = (Inr (), cf', fs') \<and>
     read_cache None ''/c'' fs' = Inr (cf_networks cf')) \<and>
   snd (cf_refresh (Inr ''1.0.0.0/8'') (Inl [''timeout'']) sample_env
      \<lparr> cf_networks = [Net_V4 0 0], cf_cache_file = Some ''/c'' \<rparr> [''/c'' \<mapsto> ''old'']) =
     (\<lparr> cf_networks = [Net_V4 0 0], cf_cache_file = Some ''/c'' \<rparr>, [''/c'' \<mapsto> ''old''])"
proof -
  let ?cf = "\<lparr> cf_networks = [], cf_cache_file = Some ''/c'' \<rparr>"
  have temp: "pe_temp sample_env \<noteq> ''/c''" by (simp add: sample_env_def)
  have utf8: "from_utf8 ''1.0.0.0/8'' = Utf8_Ok" "from_utf8 ''2400::/12'' = Utf8_Ok"
    by (simp_all add: from_utf8_ascii eval_simps)
  obtain r cf' fs' where run:
    "cf_refresh (Inr ''1.0.0.0/8'') (Inr ''2400::/12'') sample_env ?cf Map.empty = (r, cf', fs')"
    by (cases "cf_refresh (Inr ''1.0.0.0/8'') (Inr ''2400::/12'') sample_env ?cf Map.empty")
  have "is_ok (fst (cf_refresh (Inr ''1.0.0.0/8'') (Inr ''2400::/12'') sample_env ?cf Map.empty))"
    by (simp add: eval_simps sample_defs cf_refresh_def try_join_def cf_source_def persist_cache_def io_anyhow_def)
  with run obtain u where r: "r = Inr u" by (auto simp: is_ok_iff)
  have "read_cache None ''/c'' fs' = Inr (cf_networks cf')"
    using cloudflare_refresh_atomic [OF run _ temp] r utf8 by (simp add: is_ok_iff)
  moreover
  let ?old = "\<lparr> cf_networks = [Net_V4 0 0], cf_cache_file = Some ''/c'' \<rparr>"
  obtain q cf1 fs1 where failed:
    "cf_refresh (Inr ''1.0.0.0/8'') (Inl [''timeout'']) sample_env ?old [''/c'' \<mapsto> ''old''] = (q, cf1, fs1)"
    by (cases "cf_refresh (Inr ''1.0.0.0/8'') (Inl [''timeout'']) sample_env ?old [''/c'' \<mapsto> ''old'']")
  have "cf1 = ?old \<and> fs1 = [''/c'' \<mapsto> ''old'']"
    using cloudflare_refresh_atomic [OF failed _ temp] utf8 by (simp add: is_ok_iff)
  ultimately show ?thesis using run r failed by simp
qed

text \<open>
  The published snapshot is valid after a load and any number of maintenance rounds, with any results
  of downloads and any faults: it is empty without a cache file, and otherwise the result of parsing a
  source with distinct entries, both address families and at most \<open>MAX_ENTRIES\<close> lines.
\<close>

theorem cloudflare_snapshot_valid:
  assumes "cf_load fault v4 v6 env cache_file fs = (Inr cf, fs')"
  shows "let cf' = fst (fold (\<lambda>(now, modified, d4, d6, e). cf_maintain now modified d4 d6 e) rounds (cf, fs')) in
    cf_cache_file cf' = None \<and> cf_networks cf' = [] \<or>
    (\<exists>source. list_all2 (\<lambda>l n. ip_network_parse l = Inr n) (cf_lines source) (cf_networks cf') \<and>
       distinct (cf_lines source) \<and> length (cf_networks cf') \<le> cf_max_entries \<and>
       list_ex network_is_v4 (cf_networks cf') \<and> list_ex (\<lambda>n. \<not> network_is_v4 n) (cf_networks cf'))"
proof -
  have "cf_valid (fst (fold (\<lambda>(now, modified, d4, d6, e). cf_maintain now modified d4 d6 e) rounds st))"
    if "cf_valid (fst st)" for st
    using that
  proof (induction rounds arbitrary: st)
    case (Cons x rounds)
    then show ?case by (cases x) (simp add: cf_maintain_valid)
  qed simp
  then have "cf_valid (fst (fold (\<lambda>(now, modified, d4, d6, e). cf_maintain now modified d4 d6 e)
      rounds (cf, fs')))"
    using cf_load_valid [OF assms] by simp
  then show ?thesis unfolding Let_def by (rule cf_valid_facts)
qed

section \<open>WebSocket messages\<close>

text \<open>
  C30.  \<open>BoundedMessages\<close> keeps only counters, a fragment buffer and up to three bytes of an unfinished
  character; over any stream of frames it delivers the same frames and ends with the same error as the
  specification, which validates whole payloads.  What is delivered is complete, within the bound, and
  text among it is valid UTF-8.
\<close>

theorem websocket_stream_refines:
  assumes "maximum \<le> u64_max"
  shows "collect_stream (bounded_messages_new maximum) fs = spec_stream maximum None fs \<and>
    (\<forall>d \<in> set (fst (collect_stream (bounded_messages_new maximum) fs)). deliverable maximum d)"
  using collect_stream_spec [OF bounded_messages_new_refines assms]
    spec_stream_deliverable [of None maximum fs] by simp

lemma websocket_stream_refines_witness:
  "list_all (deliverable 4) (fst (collect_stream (bounded_messages_new 4)
     [\<lparr> fm_fin = False, fm_opcode = Text, fm_payload = [CHR 0xC3] \<rparr>,
      \<lparr> fm_fin = True, fm_opcode = Continuation, fm_payload = [CHR 0xA9] \<rparr>]))"
proof -
  have "(4::nat) \<le> u64_max" by (simp add: u64_max_def)
  from websocket_stream_refines [OF this] show ?thesis unfolding list_all_iff by blast
qed

text \<open>
  How a message is cut into fragments does not matter: it is delivered exactly when the concatenated
  payload is within the limit and, for text, valid UTF-8, even when a fragment ends inside a character;
  and it is delivered as the concatenation.
\<close>

theorem websocket_fragmentation_irrelevant:
  assumes "maximum \<le> u64_max" "is_data_opcode op" "ps \<noteq> []"
  shows "collect_stream (bounded_messages_new maximum)
      (\<lparr> fm_fin = False, fm_opcode = op, fm_payload = first \<rparr> # fragments_of ps) =
      ([\<lparr> fm_fin = True, fm_opcode = op, fm_payload = first @ concat ps \<rparr>], None) \<longleftrightarrow>
    length (first @ concat ps) \<le> maximum \<and> (op = Text \<longrightarrow> from_utf8 (first @ concat ps) = Utf8_Ok)"
proof -
  let ?f = "\<lparr> fm_fin = False, fm_opcode = op, fm_payload = first \<rparr>"
  have prefix: "utf8_prefix first" if "op = Text" "from_utf8 (first @ concat ps) = Utf8_Ok"
    using utf8_prefix_of_ok that by blast
  have op: "op \<noteq> Continuation" using assms(2) by auto
  have run: "collect_stream (bounded_messages_new maximum) (?f # fragments_of ps) =
      spec_stream maximum None (?f # fragments_of ps)"
    using collect_stream_spec [OF bounded_messages_new_refines assms(1)] by blast
  have "delivered None ?f = None" using assms(2) by (simp add: delivered_def)
  then show ?thesis
    unfolding run using op assms(2) prefix spec_stream_fragments [OF assms(3,2), of maximum first]
    by (auto simp: message_spec_def message_data_def text_ok_def)
qed

section \<open>Blocked clients\<close>

text \<open>
  Writing the block list replaces the state file or leaves it: with any faults of the system calls the
  file holds what it held or all of the new text; after a success it is the new text, of at most 32 MiB.
\<close>

theorem blocklist_write_atomic:
  assumes "persist_blocklist json env blocks writer fs = (r, writer', fs')"
    and "we_temp env \<noteq> sw_path writer" "sw_cleanup_temp writer \<noteq> Some (sw_path writer)"
  shows "(fs' (sw_path writer) = fs (sw_path writer) \<or>
      (\<exists>data. bj_to_vec json (block_file_of (we_now env) blocks) = Inr data
         \<and> fs' (sw_path writer) = Some data)) \<and>
    (is_ok r \<longrightarrow> (\<exists>data. bj_to_vec json (block_file_of (we_now env) blocks) = Inr data
         \<and> fs' (sw_path writer) = Some data \<and> length data \<le> max_state_bytes))"
  using persist_blocklist_target [OF assms] by blast

text \<open>
  Temporary files do not pile up: provided a failed removal is not reported as \<open>NotFound\<close>, every file
  other than the state file that exists after a write, and was not there for another reason before, is
  the one orphan the writer has noted for its next attempt.
\<close>

theorem blocklist_no_litter:
  assumes "persist_blocklist json env blocks writer fs = (r, writer', fs')"
    and "honest_fault (we_orphan_remove env)" "honest_fault (wf_remove (we_faults env))"
    and "we_temp env \<noteq> sw_path writer" "dom fs \<subseteq> {sw_path writer} \<union> set_option (sw_cleanup_temp writer)"
  shows "dom fs' \<subseteq> {sw_path writer} \<union> set_option (sw_cleanup_temp writer')"
proof
  fix q assume q: "q \<in> dom fs'"
  show "q \<in> {sw_path writer} \<union> set_option (sw_cleanup_temp writer')"
  proof (cases "q = sw_path writer")
    case False
    with assms(5) have "q \<in> dom fs \<Longrightarrow> sw_cleanup_temp writer = Some q" by auto
    with persist_blocklist_no_litter [OF assms(1-4) False q] show ?thesis by simp
  qed simp
qed

text \<open>
  C31.  A restart restores what was written.  If the JSON text of a written file reads back (the law of the
  serialiser), loading the file succeeds and yields, for every address, the block that was live when it
  was written, unless it has expired since; a restored block is never extended, and a clock that went
  back cannot make it last longer than a day.
\<close>

theorem blocklist_restart:
  assumes "json_roundtrip json" "snapshot_ok blocks" "length blocks \<le> maximum"
    and "bj_to_vec json (block_file_of now blocks) = Inr data" "length data \<le> max_state_bytes"
    and "le_wall env = Inr wall" "wall + block_seconds \<le> u64_max"
  shows "\<exists>blocks'. load_file json env maximum data = Inr blocks' \<and>
     (\<forall>ip. map_of blocks' ip =
        (case map_of blocks ip of
           None \<Rightarrow> None
         | Some b \<Rightarrow> if now < ab_deadline b then restored wall (le_monotonic env) (ab_record b) else None) \<and>
        (\<forall>b' b. map_of blocks' ip = Some b' \<longrightarrow> map_of blocks ip = Some b \<longrightarrow>
           ab_deadline b' \<le> le_monotonic env + from_secs block_seconds \<and>
           br_expires_at_unix_seconds (ab_record b') \<le> br_expires_at_unix_seconds (ab_record b)))"
proof -
  obtain blocks' where load: "load_file json env maximum data = Inr blocks'"
    and restore: "\<And>ip. map_of blocks' ip =
      (case map_of blocks ip of
         None \<Rightarrow> None
       | Some b \<Rightarrow> if now < ab_deadline b then restored wall (le_monotonic env) (ab_record b) else None)"
    by (rule json_roundtrip.load_persisted [OF assms(1-7)]) blast
  have "ab_deadline b' \<le> le_monotonic env + from_secs block_seconds \<and>
      br_expires_at_unix_seconds (ab_record b') \<le> br_expires_at_unix_seconds (ab_record b)"
    if "map_of blocks' ip = Some b'" "map_of blocks ip = Some b" for ip b b'
    using restored_bounds [of wall "le_monotonic env" "ab_record b" b'] that restore [of ip]
    by (simp split: if_splits)
  with load restore show ?thesis by blast
qed

lemma blocklist_restart_witness:
  "\<exists>blocks' b. load_file sample_json sample_load 10 ''1'' = Inr blocks' \<and> map_of blocks' (V4 7) = Some b"
proof -
  let ?blocks = "[(V4 7, sample_block)]"
  have "snapshot_ok ?blocks"
    by (simp add: snapshot_ok_def block_ok_def sample_block_def sample_record_def)
  moreover have "block_file_of 0 ?blocks = sample_file [sample_record]"
    by (simp add: block_file_of_def live_records_def sample_block_def sample_file_def from_secs_def
        block_seconds_def)
  then have "bj_to_vec sample_json (block_file_of 0 ?blocks) = Inr ''1''"
    by (simp add: sample_json_def sample_file_def)
  ultimately obtain blocks' where "load_file sample_json sample_load 10 ''1'' = Inr blocks'"
    "map_of blocks' (V4 7) = (if 0 < ab_deadline sample_block
       then restored 0 (le_monotonic sample_load) (ab_record sample_block) else None)"
    using blocklist_restart [OF sample_json_roundtrip, of ?blocks 10 0 "''1''" sample_load 0]
    by (fastforce simp: sample_load_def max_state_bytes_def block_seconds_def u64_max_def)
  then show ?thesis
    by (auto simp: sample_block_def sample_record_def restored_def from_secs_def block_seconds_def)
qed

text \<open>
  C32.  The runtime under any interleaving of its critical sections, from a load on: at most the configured
  numbers of addresses are blocked, pending and observed; a temporary restriction ends at most five
  minutes ahead and is that of a pending activation, a durable one at most a day ahead; and every
  restricted address was blocked already at the load or reached the threshold of a rule and is not on
  the allow list.
\<close>

theorem block_bounds:
  assumes "ip_blocking_load json env config fs = (Inr rt, fs')" "ip_blocking_config_ok config"
    and "le_monotonic env \<le> now"
    and "ib_reachable json hash (loaded_system now rt fs') s"
  shows "length (ib_durable (bs_runtime s)) \<le> fb_max_blocked_client_ips (bc_file config) \<and>
    length (ib_pending (bs_runtime s)) \<le> fb_max_pending_activations (bc_file config) \<and>
    sum_list (map length (ib_windows (bs_runtime s))) \<le> fb_max_tracked_client_ips (bc_file config) \<and>
    (\<forall>(ip, until) \<in> set (ib_temporary (bs_runtime s)). until \<le> bs_clock s + from_secs temporary_seconds \<and>
       (\<exists>rule count. earned config ip rule count)) \<and>
    (\<forall>(ip, b) \<in> set (ib_durable (bs_runtime s)). ab_deadline b \<le> bs_clock s + from_secs block_seconds \<and>
       ((ip, b) \<in> set (ib_durable rt) \<or>
        earned config ip (br_rule (ab_record b)) (br_observed_count (ab_record b))))"
proof -
  have "system_ok config (ib_durable rt) s"
    by (rule system_ok_reachable [OF assms(4) system_ok_loaded [OF assms(1-3)]])
  then have ok: "runtime_ok (ib_durable rt) (bs_clock s) (bs_runtime s)"
    and config: "ib_config (bs_runtime s) = config"
    by (simp_all add: system_ok_def)
  from ok config show ?thesis
    unfolding runtime_ok_def using windows_ok_total [of config "ib_windows (bs_runtime s)"]
    by (fastforce simp: durable_ok_def pending_ok_def)
qed

lemma block_bounds_witness:
  "\<exists>s. ib_reachable sample_json (\<lambda>_. 0) (loaded_system 0 sample_runtime [''/b'' \<mapsto> ''0'']) s \<and>
     map fst (ib_temporary (bs_runtime s)) = [V4 7] \<and> (\<exists>rule count. earned sample_blocking (V4 7) rule count) \<and>
     length (ib_durable (bs_runtime s)) \<le> fb_max_blocked_client_ips (bc_file sample_blocking)"
proof -
  obtain s where s: "ib_reachable sample_json (\<lambda>_. 0) (loaded_system 0 sample_runtime [''/b'' \<mapsto> ''0'']) s"
    "map fst (ib_temporary (bs_runtime s)) = [V4 7]"
    using sample_restricted by (elim exE conjE) (rule that)
  have "le_monotonic sample_load \<le> 0" by (simp add: sample_load_def)
  note bounds = block_bounds [OF sample_load_runtime sample_blocking_ok this s(1)]
  have "V4 7 \<in> set (map fst (ib_temporary (bs_runtime s)))" unfolding s(2) by simp
  then obtain until where blocked: "(V4 7, until) \<in> set (ib_temporary (bs_runtime s))" by auto
  from bspec [OF bounds [THEN conjunct2, THEN conjunct2, THEN conjunct2, THEN conjunct1] blocked]
  have "\<exists>rule count. earned sample_blocking (V4 7) rule count" by simp
  with s bounds [THEN conjunct1] show ?thesis by (intro exI [of _ s] conjI)
qed

text \<open>
  C33.  What the counting amounts to for a client not seen before, whose violations of one rule all fall in
  the rule's window of the first: as long as they are fewer than the threshold nobody's restriction
  changes; with the one that reaches it the client is restricted until exactly five minutes later.
\<close>

theorem block_threshold:
  assumes "fresh_client hash rt rule moments (ra_client_ip address)"
    and "1 \<le> threshold_of rt rule" "threshold_of rt rule \<le> u32_max"
    and "length (ib_pending rt) < fb_max_pending_activations (bc_file (ib_config rt))"
    and "map_of (ib_pending rt) (ra_client_ip address) = None"
  shows "(length moments < threshold_of rt rule \<longrightarrow>
      restricted (record_all hash address rule moments rt) t ip = restricted rt t ip) \<and>
    (length moments = threshold_of rt rule \<longrightarrow> last moments \<le> t \<longrightarrow>
      restricted (record_all hash address rule moments rt) t (ra_client_ip address) =
        (t < last moments + from_secs temporary_seconds))"
  using record_all_restricts [OF assms] by blast

lemma block_threshold_witness:
  "restricted (record_all (\<lambda>_. 0) (sample_address (V4 7)) Invalid_Websocket [5, 9] sample_runtime)
     (from_secs 300) (V4 7)"
proof -
  have "fresh_client (\<lambda>_. 0) sample_runtime Invalid_Websocket [5, 9] (ra_client_ip (sample_address (V4 7)))"
    by (simp add: fresh_client_def eval_simps sample_defs window_of_def counted_def from_secs_def)
  from block_threshold [OF this, of "from_secs 300" "V4 7"] show ?thesis
    by (simp add: eval_simps sample_defs threshold_of_def from_secs_def)
qed

text \<open>
  A block is published only once it is durable: if a commit changes the list that requests consult, the
  commit succeeded and the state file holds the whole serialised new list; after any error the published
  list is the old one.
\<close>

theorem block_published_after_commit:
  assumes "persist_pending json force now env rt fs = (r, rt', fs')"
    and "runtime_ok initial (wk_now env) rt" "ib_writer rt = Some writer"
    and "we_temp (wk_write env) \<noteq> sw_path writer" "sw_cleanup_temp writer \<noteq> Some (sw_path writer)"
  shows "ib_durable rt' = ib_durable rt \<or> is_ok r \<and>
    (\<exists>data. bj_to_vec json (block_file_of (we_now (wk_write env)) (ib_durable rt')) = Inr data \<and>
       fs' (sw_path writer) = Some data)"
  by (rule persist_pending_published [OF assms])

text \<open>
  The retry of the manager: after n consecutive failures the backoff is the smaller of \<open>2^n\<close> seconds and
  a minute, and no turn of the loop before the retry time commits anything: file system, published list
  and the retry state itself stay as they are.
\<close>

theorem block_retry_backoff:
  assumes "mg_backoff m = from_secs 1"
  shows "mg_backoff (failed_commits failures m) = min (from_secs (2 ^ length failures)) (from_secs 60) \<and>
    (tk_now env < mg_retry_after m' \<longrightarrow>
      (case manager_tick json env m' rt fs of (m'', rt', fs') \<Rightarrow>
         fs' = fs \<and> ib_durable rt' = ib_durable rt \<and> mg_backoff m'' = mg_backoff m' \<and>
         mg_retry_after m'' = mg_retry_after m'))"
proof (intro conjI impI)
  show "mg_backoff (failed_commits failures m) = min (from_secs (2 ^ length failures)) (from_secs 60)"
    by (rule failed_commits_backoff [OF assms])
  assume wait: "tk_now env < mg_retry_after m'"
  obtain m'' rt' fs' where t: "manager_tick json env m' rt fs = (m'', rt', fs')"
    by (cases "manager_tick json env m' rt fs")
  show "case manager_tick json env m' rt fs of (m'', rt', fs') \<Rightarrow>
      fs' = fs \<and> ib_durable rt' = ib_durable rt \<and> mg_backoff m'' = mg_backoff m' \<and>
      mg_retry_after m'' = mg_retry_after m'"
    unfolding t prod.case by (rule manager_tick_waits [OF t wait])
qed

text \<open>
  C34.  The loop that finishes pending work at shutdown ends: with clock readings that never decrease, a fuel
  of one more than the number of unexpired pending activations is enough, because every turn that does
  not stop the loop deals with at least one of them.
\<close>

theorem block_shutdown_ends:
  assumes "clock_forward env" "1 \<le> fb_persistence_batch_size (bc_file (ib_config rt))"
  shows "\<exists>rt' fs'. shutdown_loop json env 0 (Suc (length (ib_pending rt))) rt fs = Some (rt', fs')"
proof -
  have "length (drop_expired (se_retain (env 0)) (ib_pending rt)) < Suc (length (ib_pending rt))"
    by (simp add: drop_expired_def le_imp_less_Suc)
  then show ?thesis by (rule shutdown_loop_ends [OF assms]) blast
qed

lemma block_shutdown_ends_witness:
  "\<exists>rt' fs'. shutdown_loop sample_json (\<lambda>i. \<lparr> se_retain = i, se_select = i, se_work = sample_work i \<rparr>) 0 2
     sample_pending_runtime Map.empty = Some (rt', fs')"
proof -
  have "clock_forward (\<lambda>i. \<lparr> se_retain = i, se_select = i, se_work = sample_work i \<rparr>)"
    by (simp add: clock_forward_def sample_work_def)
  moreover have "1 \<le> fb_persistence_batch_size (bc_file (ib_config sample_pending_runtime))"
    "Suc (length (ib_pending sample_pending_runtime)) = 2"
    by (simp_all add: sample_pending_runtime_def sample_runtime_def sample_blocking_def default_ip_blocking_config_def)
  ultimately show ?thesis
    using block_shutdown_ends [of "\<lambda>i. \<lparr> se_retain = i, se_select = i, se_work = sample_work i \<rparr>" sample_pending_runtime
        sample_json Map.empty] by metis
qed

section \<open>HTTP fields\<close>

text \<open>
  Hop-by-hop fields end at the gateway, in both directions: \<open>Connection\<close> and every field it names,
  the fixed hop-by-hop names, \<open>Upgrade\<close> and the proxy fields are gone, any other field arrives with
  the values it had, in order, and a request announces \<open>TE: trailers\<close> whatever it said itself.
\<close>

theorem hop_by_hop_fields_end:
  assumes "header_map lib"
  shows "hm_get_all lib (sanitize_request lib False headers) n =
     (if n = ''te'' then [''trailers'']
      else if hop_name lib headers n \<or> n \<in> {''proxy-authorization'', ''proxy-authenticate''} then []
      else hm_get_all lib headers n) \<and>
    hm_get_all lib (sanitize_response lib False headers) n =
     (if hop_name lib headers n \<or> n \<in> {''te'', ''proxy-authenticate''} then []
      else hm_get_all lib headers n)"
  using header_map.sanitize_request_get_all [OF assms] header_map.sanitize_response_get_all [OF assms]
  by simp

text \<open>
  Late fields cannot redefine a message: a trailers frame that passes came with at most a hundred
  fields, and what is left of it contains no hop-by-hop field, no field of client identity and none of
  routing, framing or authentication, only names declared before when a declaration is required, and
  of each of them the values the sender gave.
\<close>

theorem trailers_cannot_redefine:
  assumes "header_map lib" "sanitize_stream_frame lib declared (Trailers_Frame trailers) = Inr frame"
  shows "\<exists>passed. frame = Trailers_Frame passed \<and> length (hm_fields lib trailers) \<le> 100 \<and>
    (\<forall>n. hm_contains lib passed n \<longrightarrow>
       \<not> hop_name lib trailers n \<and> \<not> identity_name n \<and> n \<notin> set trailer_fields \<and>
       (\<forall>names. declared = Some names \<longrightarrow> n \<in> names) \<and>
       hm_get_all lib passed n = hm_get_all lib trailers n)"
proof -
  note ok = header_map.sanitize_stream_frame_ok [OF assms]
  have "\<not> hop_name lib trailers n \<and> \<not> identity_name n \<and> n \<notin> set trailer_fields \<and>
      hm_get_all lib (sanitize_trailers lib trailers) n = hm_get_all lib trailers n"
    if "hm_contains lib (sanitize_trailers lib trailers) n" for n
    using that header_map.sanitize_trailers_get_all [OF assms(1), of trailers n]
    by (auto simp: hm_contains_def split: if_splits)
  with ok show ?thesis by blast
qed

section \<open>Configuration\<close>

text \<open>
  C35.  The bounds of an accepted configuration: every time-out of the server section is between one second
  and its maximum, every count and size between one and its maximum, the header limit at least 8192
  bytes, the handshake capacity within the connection limit; there are at most 4096 routes in all, and
  the TLS section and the fallback are well-formed.
\<close>

theorem config_bounds:
  assumes "config_load lib toml fault env path fs = (Inr co, fs')"
  shows "server_config_ok (co_server co) \<and> tls_config_ok (co_tls co) \<and>
    1 \<le> co_max_http_upstream_connections co \<and> co_max_http_upstream_connections co \<le> 1000000 \<and>
    tbl_configured_count (co_routes co) + gt_configured_count (co_grpc_routes co)
      + ht_configured_count (co_http_routes co) \<le> 4096 \<and>
    (\<forall>f. co_fallback co = Some f \<longrightarrow> fallback_config_ok f)"
proof -
  obtain c directory where a: "accepted lib env directory c fs co fs'"
    using assms by (rule config_load_accepted) blast
  show ?thesis
    using accepted_counts [OF a] accepted_tls [OF a] accepted_fallback [OF a] a
    by (simp add: accepted_def)
qed

lemma config_bounds_witness:
  "\<exists>co. fst sample_config_load = Inr co \<and> server_config_ok (co_server co)"
proof -
  obtain co where co: "sample_config_load = (Inr co, [''/e'' \<mapsto> []])" using sample_config_ok by blast
  from config_bounds [OF this [unfolded sample_config_load_def]] have "server_config_ok (co_server co)" by (rule conjunct1)
  with arg_cong [OF co, of fst] show ?thesis by (intro exI [of _ co]) simp
qed

text \<open>
  C36.  The tables of an accepted configuration do not contradict each other: a host and path has at most
  one meaning among WebSocket routes, gRPC methods and exact HTTP routes, and the host of every route
  that can be resolved, and every host of the fallback, is a host of the routing policy.
\<close>

theorem config_routes_consistent:
  assumes "config_load lib toml fault env path fs = (Inr co, fs')"
  shows "(route_resolve (co_routes co) host target = Some r \<longrightarrow>
      grpc_resolve (co_grpc_routes co) host target = None \<and>
      http_table_lookup (ht_by_host (co_http_routes co)) (host, target, False) = None \<and>
      host \<in> rp_hosts (co_routing co)) \<and>
    (grpc_resolve (co_grpc_routes co) host target = Some g \<longrightarrow>
      http_table_lookup (ht_by_host (co_http_routes co)) (host, target, False) = None \<and>
      host \<in> rp_hosts (co_routing co)) \<and>
    (http_table_lookup (ht_by_host (co_http_routes co)) (host, p, b) = Some h \<longrightarrow>
      host \<in> rp_hosts (co_routing co)) \<and>
    (co_fallback co = Some f \<and> fallback_permits_host f host \<longrightarrow> host \<in> rp_hosts (co_routing co))"
proof -
  obtain c directory where a: "accepted lib env directory c fs co fs'"
    using assms by (rule config_load_accepted) blast
  have apart: "route_keys (fl_routes c) \<inter> grpc_keys (fl_grpc_routes c) = {}"
    by (rule build_routes_ok(4) [OF accepted_build [OF a]])
  have "grpc_resolve (co_grpc_routes co) host target = None" if "(host, target) \<in> route_keys (fl_routes c)"
    using accepted_resolve(2) [OF a, of host target] apart that
    by (cases "grpc_resolve (co_grpc_routes co) host target") auto
  moreover have "http_table_lookup (ht_by_host (co_http_routes co)) (host, target, False) = None"
    if "(host, target) \<in> route_keys (fl_routes c) \<union> grpc_keys (fl_grpc_routes c)"
    using accepted_resolve(3) [OF a, of host target] that
    by (cases "http_table_lookup (ht_by_host (co_http_routes co)) (host, target, False)") auto
  ultimately show ?thesis
    using accepted_resolve(1,2) [OF a, of host target] accepted_served [OF a] by blast
qed

lemma config_routes_consistent_witness:
  "\<exists>co r. fst sample_config_load = Inr co \<and> route_resolve (co_routes co) ''edge.io'' ''/api/pc/a'' = Some r \<and>
     ''edge.io'' \<in> rp_hosts (co_routing co)"
proof -
  obtain co where co: "sample_config_load = (Inr co, [''/e'' \<mapsto> []])" using sample_config_ok by blast
  note load = this [unfolded sample_config_load_def]
  from load obtain d where a: "accepted sample_lib sample_security d sample_file_config [''/e'' \<mapsto> []] co [''/e'' \<mapsto> []]"
    by (rule config_load_accepted) simp
  have t: "route_table_build sample_lib [sample_route ''a'' True] = Inr (co_routes co)"
    using build_routes_ok(1) [OF accepted_build [OF a]] by (simp add: sample_file_config_def)
  obtain r where "route_compile sample_lib (sample_route ''a'' True) = Some r"
    using ws_routes.compile_build [OF t] by fastforce
  moreover have "route_key (sample_route ''a'' True) = Some (''edge.io'', ''/api/pc/a'')"
    by (simp add: eval_simps sample_defs route_key_def)
  ultimately have r: "route_resolve (co_routes co) ''edge.io'' ''/api/pc/a'' = Some r"
    using ws_routes.resolve_build [OF t, of "(''edge.io'', ''/api/pc/a'')" r] by (simp add: sample_route_def)
  with config_routes_consistent [OF load, of "''edge.io''" "''/api/pc/a''" r]
  have "''edge.io'' \<in> rp_hosts (co_routing co)" by blast
  with r arg_cong [OF co, of fst] show ?thesis by (intro exI [of _ co] exI [of _ r]) simp
qed

text \<open>
  A policy that lets only Cloudflare in never starts with an empty list of networks: when any route that
  can be resolved, or the fallback, is restricted to Cloudflare, loading succeeded only with a valid,
  non-empty snapshot.
\<close>

theorem config_cloudflare_ready:
  assumes "config_load lib toml fault env path fs = (Inr co, fs')"
    and "(\<exists>r. route_resolve (co_routes co) host target = Some r \<and> cloudflare_only (rt_security r)) \<or>
      (\<exists>g. grpc_resolve (co_grpc_routes co) host target = Some g \<and> cloudflare_only (gr_security g)) \<or>
      (\<exists>h. starts_with target ''/'' \<and> http_resolve (co_http_routes co) host target = Some h \<and>
         cloudflare_only (hr_security h)) \<or>
      (\<exists>f. co_fallback co = Some f \<and> cloudflare_only (fc_security f))"
  shows "cf_networks (ca_cloudflare (co_client_address co)) \<noteq> []"
proof -
  obtain c directory where a: "accepted lib env directory c fs co fs'"
    using assms(1) by (rule config_load_accepted) blast
  have "needs_cloudflare c" using assms(2) accepted_cloudflare_only [OF a] by blast
  then show ?thesis by (rule accepted_needs_cloudflare [OF a])
qed

text \<open>
  The certificates of an accepted configuration: identifiers are distinct, every certificate has a
  sorted list of canonical names and no name belongs to two of them; the files of two certificates are
  never the same, and no certificate file is a key file.
\<close>

theorem managed_certificates:
  assumes "config_load lib toml fault env path fs = (Inr co, fs')"
  shows "certificates_ok (ac_certificates (co_acme co)) \<and>
    (\<forall>a \<in> set (ac_certificates (co_acme co)). \<forall>b \<in> set (ac_certificates (co_acme co)).
       cert_path (co_tls co) (cc_id a) \<noteq> key_path (co_tls co) (cc_id b) \<and>
       (cert_path (co_tls co) (cc_id a) = cert_path (co_tls co) (cc_id b) \<longleftrightarrow> a = b) \<and>
       (key_path (co_tls co) (cc_id a) = key_path (co_tls co) (cc_id b) \<longleftrightarrow> a = b))"
proof -
  obtain c directory where acc: "accepted lib env directory c fs co fs'"
    using assms by (rule config_load_accepted) blast
  have ok: "certificates_ok (ac_certificates (co_acme co))" by (rule accepted_acme(1) [OF acc])
  show ?thesis
  proof (intro conjI ballI)
    show "certificates_ok (ac_certificates (co_acme co))" by (rule ok)
    fix a b
    assume ab: "a \<in> set (ac_certificates (co_acme co))" "b \<in> set (ac_certificates (co_acme co))"
    have ids: "certificate_id (cc_id a)" "certificate_id (cc_id b)" "cc_id a = cc_id b \<longleftrightarrow> a = b"
      using ok ab by (auto simp: certificates_ok_def distinct_map inj_on_def)
    note p = cert_key_paths_distinct [OF accepted_tls [OF acc] ids(1,2)]
    show "cert_path (co_tls co) (cc_id a) \<noteq> key_path (co_tls co) (cc_id b)"
      "cert_path (co_tls co) (cc_id a) = cert_path (co_tls co) (cc_id b) \<longleftrightarrow> a = b"
      "key_path (co_tls co) (cc_id a) = key_path (co_tls co) (cc_id b) \<longleftrightarrow> a = b"
      using p ids(3) by simp_all
  qed
qed

section \<open>HTTP upstreams\<close>

text \<open>
  C37.  Whatever the order of requests, wake-ups, aborts, ends of connections, reaping and shutdown, and
  whatever other pools do with the shared permits: the exchanges, the tasks that wait, the connections
  (those being established included), the idle list and the gate of connection establishment never
  exceed their limits.
\<close>

theorem pool_within_limits:
  assumes "semaphore sem" "pool_new sem config host global ca now = Inr p"
    and "pool_reachable sem lib \<lparr> ps_pool = p, ps_exchanges = [], ps_others = others \<rparr> s"
  shows "pool_limits_ok config (sem_available sem global + others) s"
  by (rule pool_system_ok_limits [OF semaphore.pool_reachable_ok
      [OF assms(1) assms(3) semaphore.pool_new_ok [OF assms(1,2)]]])

lemma pool_within_limits_witness:
  "\<exists>s. pool_reachable counter_sem sample_lib sample_pool_system s \<and> length (ps_exchanges s) = 1 \<and>
     pool_limits_ok sample_upstream 4 s"
proof -
  have reach: "pool_reachable counter_sem sample_lib sample_pool_system sample_pool_busy"
    by (rule sample_pool_reachable)
  from pool_within_limits [OF semaphore_counter_sem sample_pool_new reach [unfolded sample_pool_system_def]]
  have "pool_limits_ok sample_upstream 4 sample_pool_busy" by (simp add: counter_sem_def)
  with reach show ?thesis by (auto simp: sample_pool_busy_def)
qed

text \<open>
  C38.  No permit is lost or invented: in any reachable state in which the exchanges are over, the pool keeps
  no connection and the drivers have ended, every semaphore has all its permits again, and the global
  one all that the other pools do not hold.
\<close>

theorem pool_permits_returned:
  assumes "semaphore sem" "pool_new sem config host global ca now = Inr p"
    and "pool_reachable sem lib \<lparr> ps_pool = p, ps_exchanges = [], ps_others = others \<rparr> s" "quiet s"
  shows "sem_available sem (up_connections (ps_pool s)) = pc_max_connections (uc_pool config) \<and>
    sem_available sem (up_active (ps_pool s)) = pc_max_active_requests (uc_pool config) \<and>
    sem_available sem (up_pending (ps_pool s)) = pc_max_pending_requests (uc_pool config) \<and>
    sem_available sem (up_gate (ps_pool s)) = 1 \<and>
    sem_available sem (up_global (ps_pool s)) + ps_others s = sem_available sem global + others"
proof -
  have ok: "pool_system_ok sem config (sem_available sem global + others) s"
    by (rule semaphore.pool_reachable_ok [OF assms(1) assms(3) semaphore.pool_new_ok [OF assms(1,2)]])
  have "\<forall>ex \<in> set (ps_exchanges s). ex_phase ex = Over \<and> \<not> ex_upload ex"
    using assms(4) by (simp add: quiet_def)
  note held = quiet_held [OF this]
  show ?thesis
    using ok quiet_lives [OF assms(4) ok] held by (simp add: pool_system_ok_def pool_ok_def Let_def)
qed

lemma pool_permits_returned_witness:
  "\<exists>s. pool_reachable counter_sem sample_lib sample_pool_system s \<and> length (ps_exchanges s) = 1 \<and>
     sem_available counter_sem (up_active (ps_pool s)) = pc_max_active_requests (uc_pool sample_upstream)"
proof -
  obtain s where s: "pool_reachable counter_sem sample_lib sample_pool_system s" "length (ps_exchanges s) = 1" "quiet s"
    using sample_pool_aborted by blast
  from pool_permits_returned [OF semaphore_counter_sem sample_pool_new s(1) [unfolded sample_pool_system_def] s(3)] s(1,2)
  show ?thesis by blast
qed

text \<open>
  An HTTP/1 connection belongs to one exchange at a time: in every reachable state the connections of
  two exchanges are different, none of them is on the idle list, and the idle list has no duplicates.
\<close>

theorem pool_connection_exclusive:
  assumes "semaphore sem" "pool_new sem config host global ca now = Inr p" "uc_protocol config = Proto_Http1"
    and "pool_reachable sem lib \<lparr> ps_pool = p, ps_exchanges = [], ps_others = others \<rparr> s"
    and "i < length (ps_exchanges s)" "j < length (ps_exchanges s)" "i \<noteq> j"
  shows "set_mset (exchange_refs (ps_exchanges s ! i)) \<inter> set_mset (exchange_refs (ps_exchanges s ! j)) = {} \<and>
    set_mset (exchange_refs (ps_exchanges s ! i)) \<inter> snd ` set (up_idle (ps_pool s)) = {} \<and>
    distinct (map snd (up_idle (ps_pool s)))"
proof -
  have ok: "pool_system_ok sem config (sem_available sem global + others) s"
    by (rule semaphore.pool_reachable_ok [OF assms(1) assms(4) semaphore.pool_new_ok [OF assms(1,2)]])
  note x = pool_system_ok_exclusive [OF ok assms(3)]
  show ?thesis using x(1) [OF assms(5,6,7)] x(2) [OF nth_mem [OF assms(5)]] x(3) by blast
qed

text \<open>
  Reuse of connections: polling a response puts a connection back only when the response has ended,
  every frame so far was accepted and so was this one, the upload is complete and the connection is
  open; and a connection taken from the idle list is open and was returned less than the idle time-out
  ago.
\<close>

theorem pool_reuse_safe:
  assumes "response_poll lib sem declared closed now inner end_stream expired (body, ls, p) = (frame, body', ls', p')"
    and "pop_idle closed idle_timeout now (up_idle p) = (Some i, rest, dropped)"
  shows "(up_idle p' = up_idle p \<or>
      (\<exists>c. rb_http1 body = Some c \<and> up_idle p' = (now, c) # up_idle p \<and> rb_healthy body \<and> end_stream \<and>
         ls_upload_complete ls \<and> \<not> closed c \<and> \<not> up_shutdown p \<and>
         (\<exists>fr. frame = Ready fr \<and> \<not> frame_error fr))) \<and>
    \<not> closed i \<and> (\<exists>since. (since, i) \<in> set (up_idle p) \<and> now - since < idle_timeout)"
  using response_poll_idle [OF assms(1)] pop_idle_split(3) [OF assms(2) refl] by blast

text \<open>
  C39.  No request smuggling: whatever framing and hop-by-hop fields the client sent, an admitted request on
  an HTTP/1 connection has exactly one \<open>Host\<close>, one \<open>Connection\<close> and either no \<open>Transfer-Encoding\<close> or
  exactly \<open>chunked\<close> and then no \<open>Content-Length\<close>; on an HTTP/2 connection it has none of
  \<open>Transfer-Encoding\<close>, \<open>Host\<close> and \<open>Connection\<close>, because an upgrade is not admitted to such an upstream.
\<close>

theorem forwarded_request_framing:
  assumes "header_map lib" "proxy_admit lib shutdown upstream target request body = Inr ad"
    and "forward_request lib upstream address ad request = Inr sent"
  shows "case uc_protocol upstream of
      Proto_Http1 \<Rightarrow>
        rq_version sent = Http_11 \<and>
        hm_get_all lib (rq_headers sent) ''transfer-encoding'' = (if ad_force_chunked ad then [''chunked''] else []) \<and>
        (hm_contains lib (rq_headers sent) ''transfer-encoding'' \<longrightarrow> \<not> hm_contains lib (rq_headers sent) ''content-length'') \<and>
        (\<exists>v. hv_from_str lib (ad_upstream_authority ad) = Some v \<and> hm_get_all lib (rq_headers sent) ''host'' = [v]) \<and>
        hm_get_all lib (rq_headers sent) ''connection'' =
          [if hm_contains lib (rq_headers request) ''upgrade'' then ''upgrade'' else ''TE'']
    | Proto_Http2 \<Rightarrow>
        rq_version sent = Http_2 \<and> \<not> hm_contains lib (rq_headers sent) ''transfer-encoding'' \<and>
        \<not> hm_contains lib (rq_headers sent) ''host'' \<and> \<not> hm_contains lib (rq_headers sent) ''connection''"
proof -
  note admitted = proxy_admit_upgrade(1,2) [OF assms(2)]
  obtain h where h: "forward_headers lib upstream address ad (rq_headers request) = Inr h" "rq_headers sent = h"
    "rq_version sent = (case uc_protocol upstream of Proto_Http1 \<Rightarrow> Http_11 | Proto_Http2 \<Rightarrow> Http_2)"
    using assms(3) by (auto simp: forward_request_def)
  note framing = header_map.forward_headers_framing [OF assms(1) h(1)]
  show ?thesis
  proof (cases "uc_protocol upstream")
    case Proto_Http1
    with framing(1) admitted(1) show ?thesis by (auto simp: hm_contains_def h)
  next
    case Proto_Http2
    with framing(2) admitted(2) show ?thesis by (auto simp: hm_contains_def h)
  qed
qed

lemma forwarded_request_framing_witness:
  "\<exists>ad sent ad2 sent2.
     proxy_admit sample_lib False sample_upstream ''/'' sample_post sample_stream_body = Inr ad \<and>
     forward_request sample_lib sample_upstream (sample_address (V4 7)) ad sample_post = Inr sent \<and>
     hm_get_all sample_lib (rq_headers sent) ''transfer-encoding'' = [''chunked''] \<and>
     \<not> hm_contains sample_lib (rq_headers sent) ''content-length'' \<and>
     proxy_admit sample_lib False sample_upstream_http2 ''/'' sample_post sample_stream_body = Inr ad2 \<and>
     forward_request sample_lib sample_upstream_http2 (sample_address (V4 7)) ad2 sample_post = Inr sent2 \<and>
     \<not> hm_contains sample_lib (rq_headers sent2) ''connection''"
proof -
  have lib: "header_map sample_lib" by (simp add: sample_lib_def header_map_list_http)
  obtain ad ad2 where ad: "proxy_admit sample_lib False sample_upstream ''/'' sample_post sample_stream_body = Inr ad"
    "ad_force_chunked ad"
    and ad2: "proxy_admit sample_lib False sample_upstream_http2 ''/'' sample_post sample_stream_body = Inr ad2"
    using sample_post_admitted by blast
  obtain sent sent2 where sent: "forward_request sample_lib sample_upstream (sample_address (V4 7)) ad sample_post = Inr sent"
    and sent2: "forward_request sample_lib sample_upstream_http2 (sample_address (V4 7)) ad2 sample_post = Inr sent2"
    using sample_post_forwarded [OF ad(1)] sample_post_forwarded2 by blast
  from forwarded_request_framing [OF lib ad(1) sent] ad(2) have
    "hm_get_all sample_lib (rq_headers sent) ''transfer-encoding'' = [''chunked''] \<and>
     \<not> hm_contains sample_lib (rq_headers sent) ''content-length''"
    by (simp add: sample_upstream_def hm_contains_def)
  moreover from forwarded_request_framing [OF lib ad2 sent2] have "\<not> hm_contains sample_lib (rq_headers sent2) ''connection''"
    by (simp add: sample_upstream_http2_def)
  ultimately show ?thesis using ad ad2 sent sent2 by blast
qed

text \<open>
  C40.  Upgrades: a tunnel between client and upstream exists only after status 101 in answer to a valid
  WebSocket upgrade request for an HTTP/1 upstream, with the protocol the client offered.  A 101 that
  was not asked for, that names another protocol, or none, or two, becomes a 502.
\<close>

theorem tunnel_only_for_websocket:
  assumes "proxy_admit lib shutdown upstream target request body = Inr ad"
  shows "let outcome = finish_response lib version ad has_connection rbody response;
             switched = valid_upgrade lib request body \<and> has_connection \<and>
               length (hm_get_all lib (re_headers response) ''upgrade'') = 1 \<and>
               (\<exists>answer. get_str lib (re_headers response) ''upgrade'' = Some answer \<and>
                  eq_ignore_ascii_case answer ''websocket'') \<and>
               has_token lib (re_headers response) ''connection'' ''upgrade'' in
    (re_status response = 101 \<and> switched \<longrightarrow>
       uc_protocol upstream = Proto_Http1 \<and> (\<exists>r. outcome = Inr (Tunnel r) \<and> re_status r = 101)) \<and>
    (re_status response = 101 \<and> \<not> switched \<longrightarrow> outcome = Inl (502, ''invalid upstream upgrade\<newline>'')) \<and>
    (re_status response \<noteq> 101 \<longrightarrow> (\<forall>r. outcome \<noteq> Inr (Tunnel r)))"
proof -
  note ad = proxy_admit_upgrade [OF assms]
  have up: "ad_upgrade ad \<longleftrightarrow> valid_upgrade lib request body"
    using ad(1,2) by (auto simp: valid_upgrade_def is_http1_upgrade_def)
  have offered: "Option.bind (ad_expected_upgrade ad) (hv_to_str lib) = get_str lib (rq_headers request) ''upgrade''"
    by (simp add: ad(5) get_str_def)
  have matched: "upgrade_accepted lib ad has_connection (re_headers response) \<longleftrightarrow>
      valid_upgrade lib request body \<and> has_connection \<and>
      length (hm_get_all lib (re_headers response) ''upgrade'') = 1 \<and>
      (\<exists>answer. get_str lib (re_headers response) ''upgrade'' = Some answer \<and> eq_ignore_ascii_case answer ''websocket'') \<and>
      has_token lib (re_headers response) ''connection'' ''upgrade''"
    unfolding upgrade_accepted_def up offered
    by (auto simp: valid_upgrade_def eq_ignore_ascii_case_def split: option.splits)
  show ?thesis
    unfolding Let_def matched [symmetric]
  proof (intro conjI impI allI)
    assume a: "re_status response = 101 \<and> upgrade_accepted lib ad has_connection (re_headers response)"
    then show "uc_protocol upstream = Proto_Http1" using ad(2) by (auto simp: upgrade_accepted_def)
    from a show "\<exists>r. finish_response lib version ad has_connection rbody response = Inr (Tunnel r) \<and> re_status r = 101"
      by (auto simp: finish_response_def)
  next
    assume "re_status response = 101 \<and> \<not> upgrade_accepted lib ad has_connection (re_headers response)"
    then show "finish_response lib version ad has_connection rbody response = Inl (502, ''invalid upstream upgrade\<newline>'')"
      by (simp add: finish_response_def)
  next
    fix r
    assume "re_status response \<noteq> 101"
    then show "finish_response lib version ad has_connection rbody response \<noteq> Inr (Tunnel r)"
      using finish_response_tunnel(1) by blast
  qed
qed

lemma tunnel_only_for_websocket_witness:
  "\<exists>ad. proxy_admit sample_lib False sample_upstream ''/'' sample_upgrade_request sample_no_body = Inr ad \<and>
     (\<exists>r. finish_response sample_lib Http_11 ad True sample_no_body (sample_switch ''WebSocket'') = Inr (Tunnel r)) \<and>
     finish_response sample_lib Http_11 ad True sample_no_body (sample_switch ''h2c'') = Inl (502, ''invalid upstream upgrade\<newline>'')"
proof -
  obtain ad where ad: "proxy_admit sample_lib False sample_upstream ''/'' sample_upgrade_request sample_no_body = Inr ad"
    using sample_upgrade_admitted by blast
  note tunnel = tunnel_only_for_websocket [OF ad, of Http_11 True sample_no_body, unfolded Let_def]
  have "\<exists>r. finish_response sample_lib Http_11 ad True sample_no_body (sample_switch ''WebSocket'') = Inr (Tunnel r)"
    using tunnel [of "sample_switch ''WebSocket''"] sample_upgrade_valid sample_switch_facts(1,2) [of "''WebSocket''"] sample_switch_facts(3)
    by auto
  moreover have "finish_response sample_lib Http_11 ad True sample_no_body (sample_switch ''h2c'') =
      Inl (502, ''invalid upstream upgrade\<newline>'')"
    using tunnel [of "sample_switch ''h2c''"] sample_switch_facts(1,2) [of "''h2c''"] sample_switch_facts(4) by auto
  ultimately show ?thesis using ad by blast
qed

text \<open>
  Routing and pools fit together: the pool a request is sent to is the one made for the upstream and
  the host of the route it resolved to, never that of another route, and it always exists.
\<close>

theorem resolved_route_has_pool:
  assumes "http_table_build lib directory reserved specs = Inr t"
    and "proxy_runtime_new sem ca now (http_enabled_routes t) fallback most = Inr rt"
    and "http_resolve t host (u_path (rq_uri request)) = Some r"
    and "rewrite_target r (rq_uri request) = Inr target"
  shows "\<exists>pool. proxy_route rt r request = Inr (target, pool) \<and> up_config pool = hr_upstream r \<and>
    pool_new sem (hr_upstream r) (hr_host r) (sem_new sem most) (ca (uc_ca_file (hr_upstream r))) now = Inr pool"
proof -
  obtain pool where pool: "pr_routes rt (hr_id r) = Some pool"
    "pool_new sem (hr_upstream r) (hr_host r) (sem_new sem most) (ca (uc_ca_file (hr_upstream r))) now = Inr pool"
    by (rule resolved_route_pool [OF assms(1,2,3)])
  from pool_new_config [OF pool(2)] pool assms(4) show ?thesis by (simp add: proxy_route_def)
qed

end
